(* ===== verification/TO_Prelude.thy ===== *)
theory TO_Prelude
  imports Complex_Main "HOL-Library.Word"
begin

text \<open>
  Shared vocabulary of the development: the byte and slice types, the 64-bit wrap-around of Go's
  \<open>int\<close> and \<open>int64\<close>, the big-endian form of an integer, and the contract of a state machine.
\<close>

section \<open>Lemma collections\<close>

named_theorems loop_unfold \<open>one-step equations of the loops, kept out of the simpset\<close>
named_theorems go_defs \<open>small Go helpers that proofs unfold by default\<close>

section \<open>Types of the Go code\<close>

type_synonym byte = "8 word"
type_synonym bytes = "byte list"

text \<open>
  A slice whose nil-ness the code observes (\<open>x == nil\<close>) is an option; \<open>bytes.Equal\<close> and \<open>len\<close>
  do not tell nil from empty.
\<close>

type_synonym slice = "bytes option"

definition slice_bytes :: "slice \<Rightarrow> bytes" where
  [go_defs]: "slice_bytes s = (case s of None \<Rightarrow> [] | Some b \<Rightarrow> b)"

definition bytes_equal :: "slice \<Rightarrow> slice \<Rightarrow> bool" where
  [go_defs]: "bytes_equal a b \<longleftrightarrow> slice_bytes a = slice_bytes b"

lemma slice_bytes_simps [simp]:
  "slice_bytes None = []" "slice_bytes (Some b) = b"
  by (simp_all add: slice_bytes_def)

lemma bytes_equal_simps [simp]:
  "bytes_equal (Some a) (Some b) \<longleftrightarrow> a = b"
  "bytes_equal None None"
  "bytes_equal (Some a) None \<longleftrightarrow> a = []"
  "bytes_equal None (Some b) \<longleftrightarrow> b = []"
  by (auto simp: bytes_equal_def)

text \<open>Go strings as byte strings, for concatenation into hash inputs.\<close>

definition str_bytes :: "string \<Rightarrow> bytes" where
  "str_bytes s = map (\<lambda>c. of_char c) s"

text \<open>
  Go's \<open>int\<close> and \<open>int64\<close> are two's complement; sums the code forms without a check wrap.
\<close>

definition wrap64 :: "int \<Rightarrow> int" where
  "wrap64 x = (x + 2 ^ 63) mod 2 ^ 64 - 2 ^ 63"

definition int64 :: "int \<Rightarrow> bool" where
  "int64 x \<longleftrightarrow> - (2 ^ 63) \<le> x \<and> x < 2 ^ 63"

lemma wrap64_id: "int64 x \<Longrightarrow> wrap64 x = x"
  by (simp add: wrap64_def int64_def)

lemma wrap64_int64: "int64 (wrap64 x)"
  by (simp add: wrap64_def int64_def)

text \<open>\<open>binary.BigEndian.PutUint64\<close> of an int64 converted to uint64.\<close>

definition be64 :: "int \<Rightarrow> bytes" where
  "be64 x = map (\<lambda>i. word_of_int (x div 256 ^ i)) (rev [0..<8])"

lemma length_be64 [simp]: "length (be64 x) = 8"
  by (simp add: be64_def)

lemma word8_eq_iff: "(word_of_int a :: 8 word) = word_of_int b \<longleftrightarrow> a mod 256 = b mod 256"
  by (simp add: word_of_int_eq_iff take_bit_eq_mod)

lemma be64_mod: "be64 x = be64 y \<Longrightarrow> x mod 2 ^ 64 = y mod 2 ^ 64"
proof -
  assume "be64 x = be64 y"
  then have d: "(x div 256 ^ i) mod 256 = (y div 256 ^ i) mod 256" if "i < 8" for i
    using that by (auto simp: be64_def word8_eq_iff)
  have "x mod 256 ^ n = y mod 256 ^ n" if "n \<le> 8" for n
    using that
  proof (induction n)
    case (Suc n)
    have "z mod 256 ^ Suc n = 256 ^ n * (z div 256 ^ n mod 256) + z mod 256 ^ n" for z :: int
      using mod_mult2_eq' [of z "256 ^ n" 256] by (simp add: mod_mult2_eq mult.commute)
    with Suc d [of n] show ?case by simp
  qed simp
  from this [of 8] show ?thesis by simp
qed

lemma be64_inject: "int64 x \<Longrightarrow> int64 y \<Longrightarrow> be64 x = be64 y \<longleftrightarrow> x = y"
proof
  assume a: "int64 x" "int64 y" "be64 x = be64 y"
  then have "(x - y) mod 2 ^ 64 = 0" using be64_mod by (metis mod_eq_dvd_iff dvd_imp_mod_0)
  then obtain k where "x - y = 2 ^ 64 * k" by (metis mod_0_imp_dvd dvdE)
  then show "x = y" using a by (cases "k = 0"; cases "k < 0") (auto simp: int64_def)
qed simp

section \<open>State machines\<close>

text \<open>
  The contract every stateful component has: its step keeps an invariant, and some order on states
  only grows.  \<open>run_inv\<close> and \<open>run_le\<close> carry both along any sequence of calls.
\<close>

locale machine =
  fixes step :: "'a \<Rightarrow> 's \<Rightarrow> 's" and inv :: "'s \<Rightarrow> bool"
  assumes step_inv: "inv s \<Longrightarrow> inv (step a s)"
begin

lemma run_inv: "inv s \<Longrightarrow> inv (fold step as s)"
  by (induction as arbitrary: s) (auto intro: step_inv)

end

locale growing_machine = machine step inv
  for step :: "'a \<Rightarrow> 's \<Rightarrow> 's" and inv :: "'s \<Rightarrow> bool" +
  fixes le :: "'s \<Rightarrow> 's \<Rightarrow> bool"
  assumes le_refl: "le s s" and le_trans: "le s t \<Longrightarrow> le t u \<Longrightarrow> le s u"
    and step_le: "inv s \<Longrightarrow> le s (step a s)"
begin

lemma run_le: "inv s \<Longrightarrow> le s (fold step as s)"
proof (induction as arbitrary: s)
  case (Cons a as)
  then have "le s (step a s)" "le (step a s) (fold step as (step a s))"
    by (auto intro: step_le step_inv)
  then show ?case by (auto intro: le_trans)
qed (simp add: le_refl)

end

end
