(* ===== verification/Json.thy ===== *)
theory Json
  imports TO_Prelude
begin

text \<open>
  encoding/json as the engine uses it.  A document is a tree (\<open>json\<close>); \<open>decode_struct\<close> is
  \<open>json.Unmarshal\<close> into a struct: the members are taken in order, a key selects a field by exact or
  case-insensitive name, unknown keys are skipped, \<open>null\<close> leaves a scalar alone and sets a slice to
  nil, and a value of another type is an error.  A field is a setter on the record that models the struct.
\<close>

section \<open>Documents\<close>

datatype json =
    JNull
  | JBool bool
  | JInt int
  | JNum string
  | JStr string
  | JArr "json list"
  | JObj "(string \<times> json) list"

text \<open>\<open>JInt\<close> is an integer literal, \<open>JNum\<close> the text of any other number.\<close>

definition ascii :: "string \<Rightarrow> bool" where
  "ascii s \<longleftrightarrow> (\<forall>c \<in> set s. (of_char c :: nat) < 128)"

text \<open>The trees whose text the engine reads back: ASCII strings, integer numbers.\<close>

fun plain :: "json \<Rightarrow> bool" where
  "plain JNull \<longleftrightarrow> True"
| "plain (JBool b) \<longleftrightarrow> True"
| "plain (JInt n) \<longleftrightarrow> True"
| "plain (JNum s) \<longleftrightarrow> False"
| "plain (JStr s) \<longleftrightarrow> ascii s"
| "plain (JArr js) \<longleftrightarrow> (\<forall>j \<in> set js. plain j)"
| "plain (JObj kvs) \<longleftrightarrow> (\<forall>(k, j) \<in> set kvs. ascii k \<and> plain j)"

section \<open>Unmarshal into a struct\<close>

definition lower :: "char \<Rightarrow> char" where
  "lower c = (let n = (of_char c :: nat) in if 65 \<le> n \<and> n \<le> 90 then char_of (n + 32) else c)"

definition same_key :: "string \<Rightarrow> string \<Rightarrow> bool" where
  "same_key a b \<longleftrightarrow> map lower a = map lower b"

type_synonym 'r field = "string \<times> (json \<Rightarrow> 'r \<Rightarrow> 'r option)"

fun decode_members :: "'r field list \<Rightarrow> (string \<times> json) list \<Rightarrow> 'r \<Rightarrow> 'r option" where
  "decode_members fs [] r = Some r"
| "decode_members fs ((k, v) # kvs) r =
     (case find (\<lambda>(name, upd). same_key name k) fs of
        None \<Rightarrow> decode_members fs kvs r
      | Some (name, upd) \<Rightarrow> (case upd v r of None \<Rightarrow> None | Some r' \<Rightarrow> decode_members fs kvs r'))"

definition decode_struct :: "'r field list \<Rightarrow> 'r \<Rightarrow> json \<Rightarrow> 'r option" where
  "decode_struct fs r j = (case j of JObj kvs \<Rightarrow> decode_members fs kvs r | JNull \<Rightarrow> Some r | _ \<Rightarrow> None)"

subsection \<open>Field kinds\<close>

definition int_field :: "string \<Rightarrow> (int \<Rightarrow> 'r \<Rightarrow> 'r) \<Rightarrow> 'r field" where
  "int_field name upd = (name, \<lambda>j r. case j of
     JInt n \<Rightarrow> if int64 n then Some (upd n r) else None | JNull \<Rightarrow> Some r | _ \<Rightarrow> None)"

definition bool_field :: "string \<Rightarrow> (bool \<Rightarrow> 'r \<Rightarrow> 'r) \<Rightarrow> 'r field" where
  "bool_field name upd = (name, \<lambda>j r. case j of JBool b \<Rightarrow> Some (upd b r) | JNull \<Rightarrow> Some r | _ \<Rightarrow> None)"

definition string_field :: "string \<Rightarrow> (string \<Rightarrow> 'r \<Rightarrow> 'r) \<Rightarrow> 'r field" where
  "string_field name upd = (name, \<lambda>j r. case j of JStr s \<Rightarrow> Some (upd s r) | JNull \<Rightarrow> Some r | _ \<Rightarrow> None)"

text \<open>A \<open>[]byte\<close> is base64 text, or an array of small numbers.\<close>

fun byte_elems :: "json list \<Rightarrow> bytes option" where
  "byte_elems [] = Some []"
| "byte_elems (JInt n # js) =
     (if 0 \<le> n \<and> n < 256 then map_option ((#) (word_of_int n)) (byte_elems js) else None)"
| "byte_elems (JNull # js) = map_option ((#) 0) (byte_elems js)"
| "byte_elems (_ # js) = None"

definition json_slice :: "(string \<Rightarrow> bytes option) \<Rightarrow> json \<Rightarrow> slice option" where
  "json_slice unb64 j = (case j of
     JNull \<Rightarrow> Some None
   | JStr s \<Rightarrow> map_option Some (unb64 s)
   | JArr js \<Rightarrow> map_option Some (byte_elems js)
   | _ \<Rightarrow> None)"

definition slice_field :: "(string \<Rightarrow> bytes option) \<Rightarrow> string \<Rightarrow> (slice \<Rightarrow> 'r \<Rightarrow> 'r) \<Rightarrow> 'r field" where
  "slice_field unb64 name upd = (name, \<lambda>j r. map_option (\<lambda>b. upd b r) (json_slice unb64 j))"

definition json_strings :: "json \<Rightarrow> string list option" where
  "json_strings j = (case j of
     JNull \<Rightarrow> Some []
   | JArr js \<Rightarrow> those (map (\<lambda>x. case x of JStr s \<Rightarrow> Some s | JNull \<Rightarrow> Some [] | _ \<Rightarrow> None) js)
   | _ \<Rightarrow> None)"

definition strings_field :: "string \<Rightarrow> (string list \<Rightarrow> 'r \<Rightarrow> 'r) \<Rightarrow> 'r field" where
  "strings_field name upd = (name, \<lambda>j r. map_option (\<lambda>ss. upd ss r) (json_strings j))"

text \<open>A slice of structs; its elements are decoded from the zero value.\<close>

definition structs_field :: "'e field list \<Rightarrow> 'e \<Rightarrow> string \<Rightarrow> ('e list \<Rightarrow> 'r \<Rightarrow> 'r) \<Rightarrow> 'r field" where
  "structs_field efs zero name upd = (name, \<lambda>j r. case j of
     JNull \<Rightarrow> Some (upd [] r)
   | JArr js \<Rightarrow> map_option (\<lambda>es. upd es r) (those (map (decode_struct efs zero) js))
   | _ \<Rightarrow> None)"

lemmas field_defs [go_defs] = int_field_def bool_field_def string_field_def slice_field_def
  strings_field_def structs_field_def

lemma those_map_Some [simp]: "those (map (\<lambda>x. Some (f x)) xs) = Some (map f xs)"
  by (induction xs) auto

lemma json_strings_enc [simp]: "json_strings (JArr (map JStr ss)) = Some ss"
  by (simp add: json_strings_def comp_def)

lemma same_key_refl [simp]: "same_key k k"
  by (simp add: same_key_def)

section \<open>Writing\<close>

text \<open>\<open>encoding/hex\<close>, digit by digit.\<close>

definition hex_digit :: "nat \<Rightarrow> char" where
  "hex_digit n = char_of (if n < 10 then 48 + n else 87 + n)"

definition hex_value :: "char \<Rightarrow> nat option" where
  "hex_value c = (let n = (of_char c :: nat) in
     if 48 \<le> n \<and> n \<le> 57 then Some (n - 48)
     else if 97 \<le> n \<and> n \<le> 102 then Some (n - 87)
     else if 65 \<le> n \<and> n \<le> 70 then Some (n - 55) else None)"

fun hex_encode :: "bytes \<Rightarrow> string" where
  "hex_encode [] = []"
| "hex_encode (b # bs) = hex_digit (unat b div 16) # hex_digit (unat b mod 16) # hex_encode bs"

fun hex_decode :: "string \<Rightarrow> bytes option" where
  "hex_decode [] = Some []"
| "hex_decode [c] = None"
| "hex_decode (c # d # cs) = (case (hex_value c, hex_value d, hex_decode cs) of
     (Some h, Some l, Some bs) \<Rightarrow> Some (of_nat (16 * h + l) # bs) | _ \<Rightarrow> None)"

lemma hex_value_digit: "n < 16 \<Longrightarrow> hex_value (hex_digit n) = Some n"
  by (auto simp: hex_value_def hex_digit_def Let_def)

lemma unat_byte: "unat (b :: byte) < 256"
  using unsigned_less [of b, where 'a = nat] by simp

lemma hex_roundtrip: "hex_decode (hex_encode bs) = Some bs"
proof (induction bs)
  case (Cons b bs)
  have "unat b div 16 < 16" using unat_byte [of b] by (simp add: less_mult_imp_div_less)
  moreover have "(of_nat (16 * (unat b div 16) + unat b mod 16) :: byte) = b"
    by (simp only: mult_div_mod_eq) simp
  ultimately show ?case using Cons by (simp add: hex_value_digit)
qed simp

lemma ascii_hex: "ascii (hex_encode bs)"
proof (induction bs)
  case (Cons b bs)
  have "unat b div 16 < 16" "unat b mod 16 < 16" using unat_byte [of b] by (simp_all add: less_mult_imp_div_less)
  then show ?case using Cons by (auto simp: ascii_def hex_digit_def)
qed (simp add: ascii_def)

end
