(* ===== verification/Prims.thy ===== *)
theory Prims
  imports Json
begin

text \<open>
  The standard-library primitives that stay parameters: SHA-2, SHA-3, Ed25519, base64 and the text
  level of encoding/json, with the documented behaviour the theorems name (\<open>sha_ok\<close>, \<open>ed_ok\<close>,
  \<open>json_ok\<close>) and one concrete instance (\<open>toy\<close>) on which witnesses are evaluated.
\<close>

record prims =
  sha256 :: "bytes \<Rightarrow> bytes"
  sha512 :: "bytes \<Rightarrow> bytes"
  sha3_256 :: "bytes \<Rightarrow> bytes"
  ed_newkey :: "bytes \<Rightarrow> bytes"
  ed_sign :: "bytes \<Rightarrow> bytes \<Rightarrow> bytes"
  ed_verify :: "bytes \<Rightarrow> bytes \<Rightarrow> bytes \<Rightarrow> bool"
  json_text :: "json \<Rightarrow> bytes"
  json_parse :: "bytes \<Rightarrow> json option"
  b64_enc :: "bytes \<Rightarrow> string"
  b64_dec :: "string \<Rightarrow> bytes option"

text \<open>\<open>PrivateKey.Public\<close> copies the second half of the 64-byte private key into 32 zeroed bytes.\<close>

definition pad :: "nat \<Rightarrow> bytes \<Rightarrow> bytes" where
  "pad n x = take n (x @ replicate n 0)"

lemma length_pad [simp]: "length (pad n x) = n"
  by (simp add: pad_def)

lemma pad_id [simp]: "length x = n \<Longrightarrow> pad n x = x"
  by (simp add: pad_def)

definition ed_public :: "bytes \<Rightarrow> bytes" where
  "ed_public k = pad 32 (drop 32 k)"

definition ed_keypair :: "prims \<Rightarrow> bytes \<Rightarrow> bool" where
  "ed_keypair P k \<longleftrightarrow> length k = 64 \<and>
     (\<forall>m. length (ed_sign P k m) = 64 \<and> ed_verify P (ed_public k) m (ed_sign P k m))"

section \<open>Documented behaviour\<close>

definition sha_ok :: "prims \<Rightarrow> bool" where
  "sha_ok P \<longleftrightarrow> (\<forall>x. length (sha256 P x) = 32) \<and> (\<forall>x. length (sha512 P x) = 64)
     \<and> (\<forall>x. length (sha3_256 P x) = 32)"

text \<open>A key made from a 32-byte seed signs what its public half verifies; signatures are 64 bytes.\<close>

definition ed_ok :: "prims \<Rightarrow> bool" where
  "ed_ok P \<longleftrightarrow> (\<forall>s. length s = 32 \<longrightarrow> ed_keypair P (ed_newkey P s))
     \<and> (\<forall>p m s. ed_verify P p m s \<longrightarrow> length s = 64)"

definition json_ok :: "prims \<Rightarrow> bool" where
  "json_ok P \<longleftrightarrow> (\<forall>j. plain j \<longrightarrow> json_parse P (json_text P j) = Some j)
     \<and> (\<forall>b. b64_dec P (b64_enc P b) = Some b \<and> ascii (b64_enc P b))"

lemma sha256_length: "sha_ok P \<Longrightarrow> length (sha256 P x) = 32"
  by (simp add: sha_ok_def)

lemma sha3_length: "sha_ok P \<Longrightarrow> length (sha3_256 P x) = 32"
  by (simp add: sha_ok_def)

lemma sha256_nonempty: "sha_ok P \<Longrightarrow> sha256 P x \<noteq> []"
  using sha256_length [of P x] by auto

lemma ed_newkey_pair: "ed_ok P \<Longrightarrow> length s = 32 \<Longrightarrow> ed_keypair P (ed_newkey P s)"
  by (simp add: ed_ok_def)

lemma ed_sign_verify: "ed_keypair P k \<Longrightarrow> ed_verify P (ed_public k) m (ed_sign P k m)"
  by (simp add: ed_keypair_def)

lemma ed_sign_length: "ed_keypair P k \<Longrightarrow> length (ed_sign P k m) = 64"
  by (simp add: ed_keypair_def)

lemma ed_sign_nonempty: "ed_keypair P k \<Longrightarrow> ed_sign P k m \<noteq> []"
  using ed_sign_length [of P k m] by auto

lemma ed_public_length [simp]: "length (ed_public k) = 32"
  by (simp add: ed_public_def)

lemma ed_keypair_length: "ed_keypair P k \<Longrightarrow> length k = 64"
  by (simp add: ed_keypair_def)

lemma ed_verify_length: "ed_ok P \<Longrightarrow> ed_verify P p m s \<Longrightarrow> length s = 64"
  by (simp add: ed_ok_def)

lemma json_parse_text: "json_ok P \<Longrightarrow> plain j \<Longrightarrow> json_parse P (json_text P j) = Some j"
  by (simp add: json_ok_def)

lemma json_text_inject: "json_ok P \<Longrightarrow> plain i \<Longrightarrow> plain j \<Longrightarrow> json_text P i = json_text P j \<longleftrightarrow> i = j"
  by (metis json_parse_text option.inject)

lemma b64_roundtrip: "json_ok P \<Longrightarrow> b64_dec P (b64_enc P b) = Some b"
  by (simp add: json_ok_def)

lemma b64_ascii: "json_ok P \<Longrightarrow> ascii (b64_enc P b)"
  by (simp add: json_ok_def)

section \<open>Structs in JSON\<close>

text \<open>A \<open>[]byte\<close>: nil is \<open>null\<close>, anything else base64 text.\<close>

definition slice_json :: "prims \<Rightarrow> slice \<Rightarrow> json" where
  "slice_json P s = (case s of None \<Rightarrow> JNull | Some b \<Rightarrow> JStr (b64_enc P b))"

lemma plain_slice [simp]: "json_ok P \<Longrightarrow> plain (slice_json P s)"
  by (auto simp: slice_json_def b64_ascii split: option.splits)

lemma json_slice_roundtrip [simp]: "json_ok P \<Longrightarrow> json_slice (b64_dec P) (slice_json P s) = Some s"
  by (auto simp: slice_json_def json_slice_def b64_roundtrip split: option.splits)

lemma slice_json_inject: "json_ok P \<Longrightarrow> slice_json P a = slice_json P b \<longleftrightarrow> a = b"
  by (metis json_slice_roundtrip option.inject)

definition unmarshal :: "prims \<Rightarrow> 'r field list \<Rightarrow> 'r \<Rightarrow> bytes \<Rightarrow> 'r option" where
  "unmarshal P fs r b = Option.bind (json_parse P b) (decode_struct fs r)"

lemma unmarshal_text: "json_ok P \<Longrightarrow> plain j \<Longrightarrow> unmarshal P fs r (json_text P j) = decode_struct fs r j"
  by (simp add: unmarshal_def json_parse_text)

section \<open>A concrete instance\<close>

text \<open>
  Digests and signatures keep the head of their input, padded to size; a signature is the public key
  followed by the message; documents are written in a prefix code (a tag, unary lengths); hex for base64.
\<close>

definition enc_nat :: "nat \<Rightarrow> bytes" where
  "enc_nat n = replicate n 1 @ [0]"

fun dec_nat :: "bytes \<Rightarrow> (nat \<times> bytes) option" where
  "dec_nat [] = None"
| "dec_nat (b # bs) = (if b = 0 then Some (0, bs) else map_option (apfst Suc) (dec_nat bs))"

lemma dec_enc_nat [simp]: "dec_nat (enc_nat n @ r) = Some (n, r)"
  by (induction n) (auto simp: enc_nat_def)

definition enc_str :: "string \<Rightarrow> bytes" where
  "enc_str s = enc_nat (length s) @ str_bytes s"

definition dec_str :: "bytes \<Rightarrow> (string \<times> bytes) option" where
  "dec_str bs = (case dec_nat bs of None \<Rightarrow> None
     | Some (n, r) \<Rightarrow> if length r < n then None else Some (map (\<lambda>b. char_of (unat b)) (take n r), drop n r))"

lemma char_byte [simp]: "char_of (unat (of_char c :: byte)) = c"
proof -
  have "unat (of_char c :: byte) = (of_char c :: nat)"
    unfolding of_nat_of_char [of c, symmetric, where 'a = byte] by (simp add: unat_of_nat)
  then show ?thesis by simp
qed

lemma dec_enc_str [simp]: "dec_str (enc_str s @ r) = Some (s, r)"
  by (simp add: dec_str_def enc_str_def str_bytes_def comp_def)

fun toy_enc :: "json \<Rightarrow> bytes" where
  "toy_enc JNull = [0]"
| "toy_enc (JBool b) = [1, if b then 1 else 0]"
| "toy_enc (JInt n) = [2, if n < 0 then 1 else 0] @ enc_nat (nat \<bar>n\<bar>)"
| "toy_enc (JNum s) = 3 # enc_str s"
| "toy_enc (JStr s) = 4 # enc_str s"
| "toy_enc (JArr js) = 5 # enc_nat (length js) @ concat (map toy_enc js)"
| "toy_enc (JObj kvs) = 6 # enc_nat (length kvs) @ concat (map (\<lambda>(k, j). enc_str k @ toy_enc j) kvs)"

fun dec_many :: "(bytes \<Rightarrow> ('a \<times> bytes) option) \<Rightarrow> nat \<Rightarrow> bytes \<Rightarrow> ('a list \<times> bytes) option" where
  "dec_many d 0 bs = Some ([], bs)"
| "dec_many d (Suc n) bs = (case d bs of None \<Rightarrow> None
     | Some (x, r) \<Rightarrow> map_option (apfst ((#) x)) (dec_many d n r))"

fun toy_dec :: "nat \<Rightarrow> bytes \<Rightarrow> (json \<times> bytes) option" where
  "toy_dec 0 bs = None"
| "toy_dec (Suc n) [] = None"
| "toy_dec (Suc n) (t # bs) =
    (if t = 0 then Some (JNull, bs)
     else if t = 1 then (case bs of [] \<Rightarrow> None | b # r \<Rightarrow> Some (JBool (b = 1), r))
     else if t = 2 then (case bs of [] \<Rightarrow> None
       | b # r \<Rightarrow> map_option (apfst (\<lambda>m. JInt (if b = 1 then - int m else int m))) (dec_nat r))
     else if t = 3 then map_option (apfst JNum) (dec_str bs)
     else if t = 4 then map_option (apfst JStr) (dec_str bs)
     else if t = 5 then (case dec_nat bs of None \<Rightarrow> None
       | Some (m, r) \<Rightarrow> map_option (apfst JArr) (dec_many (toy_dec n) m r))
     else if t = 6 then (case dec_nat bs of None \<Rightarrow> None
       | Some (m, r) \<Rightarrow> map_option (apfst JObj) (dec_many (\<lambda>b. case dec_str b of None \<Rightarrow> None
           | Some (k, r) \<Rightarrow> map_option (apfst (Pair k)) (toy_dec n r)) m r))
     else None)"

lemma dec_many_enc:
  "(\<And>x r. x \<in> set xs \<Longrightarrow> d (e x @ r) = Some (x, r)) \<Longrightarrow> dec_many d (length xs) (concat (map e xs) @ r) = Some (xs, r)"
  by (induction xs arbitrary: r) auto

fun depth :: "json \<Rightarrow> nat" where
  "depth (JArr js) = Suc (Max (insert 0 (depth ` set js)))"
| "depth (JObj kvs) = Suc (Max (insert 0 ((\<lambda>kv. depth (snd kv)) ` set kvs)))"
| "depth _ = 1"

lemma toy_dec_enc: "depth j \<le> n \<Longrightarrow> toy_dec n (toy_enc j @ r) = Some (j, r)"
proof (induction n arbitrary: j r)
  case 0
  then show ?case by (cases j) auto
next
  case (Suc n)
  show ?case
  proof (cases j)
    case (JArr js)
    have "toy_dec n (toy_enc x @ r) = Some (x, r)" if "x \<in> set js" for x r
      using that Suc.prems by (intro Suc.IH) (auto simp: JArr)
    then show ?thesis using dec_many_enc [of js "toy_dec n" toy_enc] by (simp add: JArr)
  next
    case (JObj kvs)
    have *: "toy_dec n (toy_enc (snd kv) @ r) = Some (snd kv, r)" if "kv \<in> set kvs" for kv r
      using that Suc.prems by (intro Suc.IH) (auto simp: JObj)
    show ?thesis
      using dec_many_enc [of kvs "\<lambda>b. case dec_str b of None \<Rightarrow> None
           | Some (k, r) \<Rightarrow> map_option (apfst (Pair k)) (toy_dec n r)" "\<lambda>(k, j). enc_str k @ toy_enc j"] *
      by (fastforce simp: JObj)
  qed auto
qed

lemma concat_length: "x \<in> set xs \<Longrightarrow> length (f x) \<le> length (concat (map f xs))"
  by (induction xs) auto

lemma depth_length: "depth j \<le> length (toy_enc j)"
proof (induction j)
  case (JArr js)
  have "depth x \<le> length (concat (map toy_enc js))" if "x \<in> set js" for x
    using JArr [OF that] concat_length [OF that, of toy_enc] by simp
  then show ?case by (auto simp: enc_nat_def intro!: le_SucI trans_le_add2)
next
  case (JObj kvs)
  have "depth (snd kv) \<le> length (concat (map (\<lambda>(k, j). enc_str k @ toy_enc j) kvs))" if "kv \<in> set kvs" for kv
    using JObj [OF that, of "snd kv"] concat_length [OF that, of "\<lambda>(k, j). enc_str k @ toy_enc j"]
    by (cases kv) auto
  then show ?case by (auto simp: enc_nat_def intro!: le_SucI trans_le_add2)
qed (auto simp: enc_nat_def)

definition toy_parse :: "bytes \<Rightarrow> json option" where
  "toy_parse b = map_option fst (toy_dec (length b) b)"

lemma toy_parse_enc [simp]: "toy_parse (toy_enc j) = Some j"
  using toy_dec_enc [OF depth_length, of j "[]"] by (simp add: toy_parse_def)

definition toy :: prims where
  "toy = \<lparr>sha256 = pad 32, sha512 = pad 64, sha3_256 = pad 32, ed_newkey = (\<lambda>s. s @ s),
          ed_sign = (\<lambda>k m. pad 64 (ed_public k @ m)), ed_verify = (\<lambda>p m s. s = pad 64 (p @ m)),
          json_text = toy_enc, json_parse = toy_parse, b64_enc = hex_encode, b64_dec = hex_decode\<rparr>"

lemma toy_sel:
  "sha256 toy = pad 32" "sha512 toy = pad 64" "sha3_256 toy = pad 32" "ed_newkey toy = (\<lambda>s. s @ s)"
  "ed_sign toy = (\<lambda>k m. pad 64 (ed_public k @ m))" "ed_verify toy = (\<lambda>p m s. s = pad 64 (p @ m))"
  "json_text toy = toy_enc" "json_parse toy = toy_parse" "b64_enc toy = hex_encode" "b64_dec toy = hex_decode"
  by (simp_all add: toy_def)

lemma toy_ok: "sha_ok toy" "ed_ok toy" "json_ok toy"
  by (auto simp: toy_sel sha_ok_def ed_ok_def ed_keypair_def json_ok_def hex_roundtrip ascii_hex)

definition toy_key :: "byte \<Rightarrow> bytes" where
  "toy_key b = ed_newkey toy (replicate 32 b)"

lemma toy_key_pair: "ed_keypair toy (toy_key b)"
  using ed_newkey_pair [OF toy_ok(2), of "replicate 32 b"] by (simp add: toy_key_def)

end
