(* ===== verification/CTLog.thy ===== *)
theory CTLog
  imports Prims
begin

unbundle bit_operations_syntax

text \<open>
  The transparency log of \<open>ctlog.go\<close>: the RFC 9162 Merkle tree over leaf hashes, inclusion and
  consistency proofs, and the two verifiers that see only hashes and sizes.  SHA-256 is the
  argument \<open>sha\<close> of every definition.
\<close>

section \<open>The tree\<close>

definition LeafHash :: "(bytes \<Rightarrow> bytes) \<Rightarrow> bytes \<Rightarrow> bytes" where
  "LeafHash sha entry = sha (0x00 # entry)"

definition nodeHash :: "(bytes \<Rightarrow> bytes) \<Rightarrow> bytes \<Rightarrow> bytes \<Rightarrow> bytes" where
  "nodeHash sha l r = sha (0x01 # l @ r)"

record MerkleLog =
  leaves :: "bytes list"

definition NewMerkleLog :: MerkleLog where
  "NewMerkleLog = \<lparr>leaves = []\<rparr>"

definition log_append :: "(bytes \<Rightarrow> bytes) \<Rightarrow> MerkleLog \<Rightarrow> bytes \<Rightarrow> MerkleLog \<times> nat" where
  "log_append sha m entry =
     (let m' = m\<lparr>leaves := leaves m @ [LeafHash sha entry]\<rparr> in (m', length (leaves m') - 1))"

definition log_size :: "MerkleLog \<Rightarrow> nat" where
  "log_size m = length (leaves m)"

text \<open>The doubling loop of \<open>splitPoint\<close>, started at 1.\<close>

function split_loop :: "nat \<Rightarrow> nat \<Rightarrow> nat" where
  "split_loop k n = (if 0 < k \<and> k * 2 < n then split_loop (k * 2) n else k)"
  by pat_completeness auto
termination
  by (relation "measure (\<lambda>(k, n). n - k)") auto

declare split_loop.simps [simp del, loop_unfold]

definition splitPoint :: "nat \<Rightarrow> nat" where
  "splitPoint n = split_loop 1 n"

text \<open>
  \<open>splitPoint n\<close> is the power of two \<open>k\<close> with \<open>k < n \<le> 2 * k\<close>.
\<close>

lemma split_loop_pow:
  "k < n \<Longrightarrow> \<exists>h. split_loop k n = k * 2 ^ h \<and> split_loop k n < n \<and> (0 < k \<longrightarrow> n \<le> 2 * split_loop k n)"
proof (induction k n rule: split_loop.induct)
  case (1 k n)
  show ?case
  proof (cases "0 < k \<and> k * 2 < n")
    case True
    with 1 obtain h where "split_loop (k * 2) n = k * 2 * 2 ^ h" "split_loop (k * 2) n < n"
      "n \<le> 2 * split_loop (k * 2) n" by auto
    with True show ?thesis
      by (intro exI [of _ "Suc h"]) (simp add: split_loop.simps [of k n])
  next
    case False
    with 1(2) show ?thesis
      by (intro exI [of _ 0]) (auto simp: split_loop.simps [of k n])
  qed
qed

lemma splitPoint_bounds:
  assumes "1 < n"
  shows "0 < splitPoint n" "splitPoint n < n" "n \<le> 2 * splitPoint n"
  using split_loop_pow [of 1 n] assms by (auto simp: splitPoint_def)

lemma splitPoint_pow: "1 < n \<Longrightarrow> \<exists>h. splitPoint n = 2 ^ h"
  using split_loop_pow [of 1 n] by (auto simp: splitPoint_def)

lemma pow2_between_unique:
  assumes "2 ^ g < n" "n \<le> 2 * 2 ^ g" "2 ^ h < n" "n \<le> 2 * (2 ^ h :: nat)"
  shows "g = h"
proof (rule ccontr)
  assume "g \<noteq> h"
  then consider "g < h" | "h < g" by linarith
  then show False
  proof cases
    case 1
    then have "2 ^ Suc g \<le> (2 ^ h :: nat)" by (intro power_increasing) auto
    with assms show False by simp
  next
    case 2
    then have "2 ^ Suc h \<le> (2 ^ g :: nat)" by (intro power_increasing) auto
    with assms show False by simp
  qed
qed

lemma splitPoint_eq:
  assumes "2 ^ h < n" "n \<le> 2 * 2 ^ h"
  shows "splitPoint n = 2 ^ h"
proof -
  have "1 < n" using assms(1) by (metis less_trans_Suc not_less_eq one_le_numeral one_le_power order_le_less_trans)
  then obtain g where g: "splitPoint n = 2 ^ g" using splitPoint_pow by blast
  with splitPoint_bounds [OF \<open>1 < n\<close>] assms pow2_between_unique [of g n h] show ?thesis by simp
qed

lemma splitPoint_mid:
  assumes "1 < j - i"
  shows "i < i + splitPoint (j - i)" "i + splitPoint (j - i) < j"
    "j - (i + splitPoint (j - i)) < j - i" "splitPoint (j - i) < j - i"
  using splitPoint_bounds [OF assms] assms by linarith+

text \<open>\<open>mth\<close>: the tree hash of the leaves \<open>[i, j)\<close>; nil (the empty string) for an empty range.\<close>

function mth :: "(bytes \<Rightarrow> bytes) \<Rightarrow> bytes list \<Rightarrow> nat \<Rightarrow> nat \<Rightarrow> bytes" where
  "mth sha ls i j =
     (if j \<le> i then []
      else if j - i = 1 then ls ! i
      else let k = splitPoint (j - i) in nodeHash sha (mth sha ls i (i + k)) (mth sha ls (i + k) j))"
  by pat_completeness auto
termination
  by (relation "measure (\<lambda>(sha, ls, i, j). j - i)") (use splitPoint_mid in \<open>fastforce+\<close>)

declare mth.simps [simp del, loop_unfold]

definition Root :: "(bytes \<Rightarrow> bytes) \<Rightarrow> MerkleLog \<Rightarrow> bytes" where
  "Root sha m = mth sha (leaves m) 0 (length (leaves m))"

section \<open>Proofs\<close>

text \<open>\<open>path\<close>: sibling hashes from leaf \<open>idx\<close> up to the root of \<open>[i, j)\<close>, bottom first.\<close>

function path :: "(bytes \<Rightarrow> bytes) \<Rightarrow> bytes list \<Rightarrow> nat \<Rightarrow> nat \<Rightarrow> nat \<Rightarrow> bytes list" where
  "path sha ls i j idx =
     (if j - i \<le> 1 then []
      else let k = splitPoint (j - i) in
        if idx < i + k then path sha ls i (i + k) idx @ [mth sha ls (i + k) j]
        else path sha ls (i + k) j idx @ [mth sha ls i (i + k)])"
  by pat_completeness auto
termination
  by (relation "measure (\<lambda>(sha, ls, i, j, idx). j - i)") (use splitPoint_mid in \<open>fastforce+\<close>)

declare path.simps [simp del, loop_unfold]

datatype ct_error = OutOfRange | SizeTooSmall

definition InclusionProof ::
  "(bytes \<Rightarrow> bytes) \<Rightarrow> MerkleLog \<Rightarrow> int \<Rightarrow> int \<Rightarrow> ct_error + (bytes \<times> bytes list)" where
  "InclusionProof sha m idx sz =
     (if idx < 0 \<or> sz \<le> idx \<or> int (length (leaves m)) < sz then Inl OutOfRange
      else if sz < 1 then Inl SizeTooSmall
      else Inr (mth sha (leaves m) 0 (nat sz), path sha (leaves m) 0 (nat sz) (nat idx)))"

function consPath ::
  "(bytes \<Rightarrow> bytes) \<Rightarrow> bytes list \<Rightarrow> nat \<Rightarrow> nat \<Rightarrow> nat \<Rightarrow> bool \<Rightarrow> bytes list" where
  "consPath sha ls i j n b =
     (if n = j - i then (if b then [] else [mth sha ls i j])
      else if j - i \<le> 1 then []
      else let k = splitPoint (j - i) in
        if n \<le> k then consPath sha ls i (i + k) n b @ [mth sha ls (i + k) j]
        else consPath sha ls (i + k) j (n - k) False @ [mth sha ls i (i + k)])"
  by pat_completeness auto
termination
  by (relation "measure (\<lambda>(sha, ls, i, j, n, b). j - i)") (use splitPoint_mid in \<open>fastforce+\<close>)

declare consPath.simps [simp del, loop_unfold]

definition ConsistencyProof ::
  "(bytes \<Rightarrow> bytes) \<Rightarrow> MerkleLog \<Rightarrow> int \<Rightarrow> int \<Rightarrow> ct_error + (bytes \<times> bytes \<times> bytes list)" where
  "ConsistencyProof sha m size1 size2 =
     (if size1 < 1 \<or> size2 < 1 \<or> size2 \<le> size1 \<or> int (length (leaves m)) < size2 then Inl OutOfRange
      else Inr (mth sha (leaves m) 0 (nat size1), mth sha (leaves m) 0 (nat size2),
                consPath sha (leaves m) 0 (nat size2) (nat size1) True))"

section \<open>Verifiers\<close>

text \<open>
  Both verifiers walk the proof with the leaf frontier \<open>fn\<close> and the tree frontier \<open>sn\<close>, Go ints
  shifted right arithmetically (\<open>div 2\<close> on \<open>int\<close>).  \<open>strip_zeros\<close> is the inner loop
  \<open>for fn != 0 && fn&1 == 0\<close>; \<open>climb\<close> is the part of the loop body the two share: whether the
  sibling goes left, and the frontiers of the next level.
\<close>

function strip_zeros :: "int \<Rightarrow> int \<Rightarrow> int \<times> int" where
  "strip_zeros fn sn = (if fn \<noteq> 0 \<and> even fn then strip_zeros (fn div 2) (sn div 2) else (fn, sn))"
  by pat_completeness auto
termination
  by (relation "measure (\<lambda>(fn, sn). nat \<bar>fn\<bar>)") (auto elim!: evenE)

declare strip_zeros.simps [simp del, loop_unfold]

definition climb :: "int \<Rightarrow> int \<Rightarrow> bool \<times> int \<times> int" where
  "climb fn sn =
     (if odd fn \<or> fn = sn
      then (let (f, s) = (if even fn then strip_zeros fn sn else (fn, sn)) in (True, f div 2, s div 2))
      else (False, fn div 2, sn div 2))"

fun inc_loop :: "(bytes \<Rightarrow> bytes) \<Rightarrow> bytes \<Rightarrow> int \<Rightarrow> int \<Rightarrow> bytes list \<Rightarrow> bytes option" where
  "inc_loop sha r fn sn [] = (if sn \<noteq> 0 then None else Some r)"
| "inc_loop sha r fn sn (p # ps) =
     (if sn = 0 then None
      else (case climb fn sn of (lft, f, s) \<Rightarrow>
        inc_loop sha (if lft then nodeHash sha p r else nodeHash sha r p) f s ps))"

definition VerifyInclusion ::
  "(bytes \<Rightarrow> bytes) \<Rightarrow> bytes \<Rightarrow> int \<Rightarrow> int \<Rightarrow> bytes list \<Rightarrow> bytes option" where
  "VerifyInclusion sha leafHash idx sz proof_path =
     (if idx < 0 \<or> sz \<le> idx then None else inc_loop sha leafHash idx (sz - 1) proof_path)"

text \<open>
  \<open>strip_ones\<close> is the loop \<open>for fn&1 == 1\<close> that starts \<open>VerifyConsistency\<close>.  At \<open>fn = - 1\<close>, a fixed
  point of the shift, the Go loop would spin; \<open>size1 = 0\<close> has returned before, and no other frontier
  reaches \<open>- 1\<close> (\<open>strip_ones_even\<close> in CTLogProofs), so the guard only makes the recursion total.
\<close>

function strip_ones :: "int \<Rightarrow> int \<Rightarrow> int \<times> int" where
  "strip_ones fn sn = (if odd fn \<and> fn \<noteq> - 1 then strip_ones (fn div 2) (sn div 2) else (fn, sn))"
  by pat_completeness auto
termination
  by (relation "measure (\<lambda>(fn, sn). nat \<bar>fn\<bar>)") (simp_all, presburger)

declare strip_ones.simps [simp del, loop_unfold]

fun con_loop ::
  "(bytes \<Rightarrow> bytes) \<Rightarrow> bytes \<Rightarrow> bytes \<Rightarrow> int \<Rightarrow> int \<Rightarrow> bytes list \<Rightarrow> (bytes \<times> bytes \<times> int) option" where
  "con_loop sha fr sr fn sn [] = Some (fr, sr, sn)"
| "con_loop sha fr sr fn sn (c # cs) =
     (if sn = 0 then None
      else (case climb fn sn of (lft, f, s) \<Rightarrow>
        if lft then con_loop sha (nodeHash sha c fr) (nodeHash sha c sr) f s cs
        else con_loop sha fr (nodeHash sha sr c) f s cs))"

definition power_of_two_mask :: "int \<Rightarrow> bool" where
  "power_of_two_mask n \<longleftrightarrow> n AND (n - 1) = 0"

definition VerifyConsistency ::
  "(bytes \<Rightarrow> bytes) \<Rightarrow> bytes \<Rightarrow> bytes \<Rightarrow> int \<Rightarrow> int \<Rightarrow> bytes list \<Rightarrow> bool" where
  "VerifyConsistency sha oldRoot newRoot size1 size2 proof_path =
     (if size1 = 0 then proof_path = []
      else if size2 < size1 \<or> oldRoot = [] \<or> newRoot = [] then False
      else if size1 = size2 then proof_path = [] \<and> oldRoot = newRoot
      else if proof_path = [] then False
      else
        let pth = (if power_of_two_mask size1 then oldRoot # proof_path else proof_path);
            (fn, sn) = strip_ones (size1 - 1) (size2 - 1)
        in case con_loop sha (hd pth) (hd pth) fn sn (tl pth) of
             None \<Rightarrow> False
           | Some (fr, sr, sn') \<Rightarrow> sn' = 0 \<and> fr = oldRoot \<and> sr = newRoot)"

text \<open>\<open>EncodeSize\<close>: the 8-byte big-endian form of an \<open>int\<close>.\<close>

definition EncodeSize :: "int \<Rightarrow> bytes" where
  "EncodeSize n = be64 n"

section \<open>Signed tree heads\<close>

record SignedTreeHead =
  TreeSize :: int
  Timestamp :: int
  sth_Root :: bytes
  sth_Signature :: bytes

definition sthBytes :: "prims \<Rightarrow> SignedTreeHead \<Rightarrow> bytes" where
  "sthBytes P s = sha256 P (0x00 # be64 (Timestamp s) @ be64 (TreeSize s) @ sth_Root s)"

definition SignSTH :: "prims \<Rightarrow> bytes \<Rightarrow> bytes \<Rightarrow> int \<Rightarrow> int \<Rightarrow> SignedTreeHead" where
  "SignSTH P key rt n ts =
     (let sth = \<lparr>TreeSize = n, Timestamp = ts, sth_Root = rt, sth_Signature = []\<rparr>
      in sth\<lparr>sth_Signature := ed_sign P key (sthBytes P sth)\<rparr>)"

definition sth_Verify :: "prims \<Rightarrow> SignedTreeHead option \<Rightarrow> bytes \<Rightarrow> bool" where
  "sth_Verify P so pub = (case so of None \<Rightarrow> False
     | Some s \<Rightarrow> sth_Signature s \<noteq> [] \<and> ed_verify P pub (sthBytes P s) (sth_Signature s))"

section \<open>Gossip\<close>

text \<open>The alarm texts of \<open>Observe\<close>, with the integers they print.\<close>

datatype gossip_alarm =
    Healthy
  | SplitBrain int
  | ProofStartsElsewhere int int
  | DoesNotExtend int int

record GossipNode =
  g_pub :: bytes
  g_trusted :: "SignedTreeHead option"
  g_alarm :: gossip_alarm

definition NewGossipNode :: "bytes \<Rightarrow> SignedTreeHead option \<Rightarrow> GossipNode" where
  "NewGossipNode pub trusted = \<lparr>g_pub = pub, g_trusted = trusted, g_alarm = Healthy\<rparr>"

text \<open>\<open>Observe\<close> returns (accepted, alarm) and the updated observer.\<close>

definition Observe ::
  "prims \<Rightarrow> SignedTreeHead option \<Rightarrow> bytes list \<Rightarrow> int \<Rightarrow> GossipNode \<Rightarrow> (bool \<times> bool) \<times> GossipNode" where
  "Observe P so prf proofFrom g0 =
     (let g = g0\<lparr>g_alarm := Healthy\<rparr> in
      case so of None \<Rightarrow> ((False, False), g)
      | Some sth \<Rightarrow>
        if \<not> sth_Verify P so (g_pub g) then ((False, False), g)
        else case g_trusted g of None \<Rightarrow> ((True, False), g\<lparr>g_trusted := Some sth\<rparr>)
        | Some t \<Rightarrow>
          if TreeSize t = 0 then ((True, False), g\<lparr>g_trusted := Some sth\<rparr>)
          else if TreeSize sth < TreeSize t then ((True, False), g)
          else if TreeSize sth = TreeSize t then
            if sth_Root sth \<noteq> sth_Root t
            then ((False, True), g\<lparr>g_alarm := SplitBrain (TreeSize sth)\<rparr>)
            else ((True, False), g)
          else if proofFrom \<noteq> TreeSize t
          then ((False, True), g\<lparr>g_alarm := ProofStartsElsewhere proofFrom (TreeSize t)\<rparr>)
          else if \<not> VerifyConsistency (sha256 P) (sth_Root t) (sth_Root sth) (TreeSize t) (TreeSize sth) prf
          then ((False, True), g\<lparr>g_alarm := DoesNotExtend (TreeSize sth) (TreeSize t)\<rparr>)
          else ((True, False), g\<lparr>g_trusted := Some sth\<rparr>))"

end
