(* ===== verification/CTLogProofs.thy ===== *)
theory CTLogProofs
  imports CTLog
begin

unbundle bit_operations_syntax

text \<open>
  What the proofs of CTLog promise.  The verifiers' walks are first computed on naturals
  (\<open>inc_run\<close>, \<open>con_run\<close>), on complete subtrees \<open>[c * 2 ^ h, (c + 1) * 2 ^ h)\<close> and on the right edge of
  the tree (\<open>edge\<close>); this gives completeness.  Soundness compares a given proof with the honest one:
  either they agree, or two of the strings the runs hash are an explicit collision of \<open>sha\<close>
  (\<open>collision\<close> names the strings, since a bare "some collision exists" holds of every hash).
\<close>

section \<open>Frontiers on naturals\<close>

function nstrip :: "nat \<Rightarrow> nat \<Rightarrow> nat \<times> nat" where
  "nstrip fn sn = (if fn \<noteq> 0 \<and> even fn then nstrip (fn div 2) (sn div 2) else (fn, sn))"
  by pat_completeness auto
termination
  by (relation "measure fst") auto

declare nstrip.simps [simp del, loop_unfold]

definition nclimb :: "nat \<Rightarrow> nat \<Rightarrow> bool \<times> nat \<times> nat" where
  "nclimb fn sn =
     (if odd fn \<or> fn = sn
      then (let (f, s) = (if even fn then nstrip fn sn else (fn, sn)) in (True, f div 2, s div 2))
      else (False, fn div 2, sn div 2))"

lemma strip_zeros_nat: "strip_zeros (int fn) (int sn) = map_prod int int (nstrip fn sn)"
proof (induction fn sn rule: nstrip.induct)
  case (1 fn sn)
  then show ?case
    by (subst strip_zeros.simps, subst nstrip.simps) (auto simp: zdiv_int)
qed

lemma climb_nat: "climb (int fn) (int sn) = map_prod id (map_prod int int) (nclimb fn sn)"
  by (auto simp: climb_def nclimb_def strip_zeros_nat zdiv_int split: prod.splits)

lemma div_block: "c * w \<le> x \<Longrightarrow> x < Suc c * w \<Longrightarrow> x div w = (c::nat)"
  by (rule div_nat_eqI) (auto simp: mult.commute)

lemma mth_leaf [simp]: "mth sha ls i (Suc i) = ls ! i"
  by (simp add: mth.simps)

lemma mth_split:
  "1 < j - i \<Longrightarrow> mth sha ls i j =
     nodeHash sha (mth sha ls i (i + splitPoint (j - i))) (mth sha ls (i + splitPoint (j - i)) j)"
  by (subst mth.simps) (auto simp: Let_def)

lemma path_leaf [simp]: "path sha ls i (Suc i) idx = []"
  by (simp add: path.simps)

lemma path_split:
  "1 < j - i \<Longrightarrow> path sha ls i j idx =
     (if idx < i + splitPoint (j - i)
      then path sha ls i (i + splitPoint (j - i)) idx @ [mth sha ls (i + splitPoint (j - i)) j]
      else path sha ls (i + splitPoint (j - i)) j idx @ [mth sha ls i (i + splitPoint (j - i))])"
  by (subst path.simps) (auto simp: Let_def)

lemma splitPoint_double [simp]: "splitPoint (2 * 2 ^ h) = 2 ^ h"
  by (rule splitPoint_eq) auto

lemma nstrip_odd_mult:
  "odd u \<Longrightarrow> nstrip (u * 2 ^ m) x = (u, x div 2 ^ m)"
proof (induction m arbitrary: x)
  case 0
  then show ?case by (simp add: nstrip.simps)
next
  case (Suc m)
  have "u * 2 ^ Suc m \<noteq> 0" using Suc.prems by (auto elim: oddE)
  then show ?case
    using Suc by (subst nstrip.simps) (simp add: div_mult2_eq mult.assoc [symmetric])
qed

lemma nclimb_odd: "odd fn \<Longrightarrow> nclimb fn sn = (True, fn div 2, sn div 2)"
  by (simp add: nclimb_def)

lemma nclimb_even: "even fn \<Longrightarrow> fn \<noteq> sn \<Longrightarrow> nclimb fn sn = (False, fn div 2, sn div 2)"
  by (simp add: nclimb_def)

lemma nclimb_edge: "nclimb (Suc (2 * c) * 2 ^ m) (Suc (2 * c) * 2 ^ m) = (True, c, c)"
proof (cases "m = 0")
  case True
  then show ?thesis by (simp add: nclimb_def)
next
  case False
  then have "even (Suc (2 * c) * 2 ^ m)" by simp
  then show ?thesis
    using nstrip_odd_mult [of "Suc (2 * c)" m "Suc (2 * c) * 2 ^ m"]
    by (simp add: nclimb_def Let_def del: mult_Suc)
qed

text \<open>The loop of \<open>VerifyInclusion\<close> without its final check, so that runs compose.\<close>

fun inc_run :: "(bytes \<Rightarrow> bytes) \<Rightarrow> bytes \<Rightarrow> nat \<Rightarrow> nat \<Rightarrow> bytes list \<Rightarrow> (bytes \<times> nat \<times> nat) option" where
  "inc_run sha r fn sn [] = Some (r, fn, sn)"
| "inc_run sha r fn sn (p # ps) =
     (if sn = 0 then None
      else (case nclimb fn sn of (lft, f, s) \<Rightarrow>
        inc_run sha (if lft then nodeHash sha p r else nodeHash sha r p) f s ps))"

lemma inc_loop_run:
  "inc_loop sha r (int fn) (int sn) ps =
     (case inc_run sha r fn sn ps of None \<Rightarrow> None | Some (r', f, s) \<Rightarrow> if s \<noteq> 0 then None else Some r')"
  by (induction sha r fn sn ps rule: inc_run.induct) (auto simp: climb_nat split: prod.splits)

lemma inc_run_snoc:
  "inc_run sha r fn sn (ps @ [p]) =
     (case inc_run sha r fn sn ps of None \<Rightarrow> None
      | Some (r', f, s) \<Rightarrow> if s = 0 then None else (case nclimb f s of (lft, f', s') \<Rightarrow>
          Some (if lft then nodeHash sha p r' else nodeHash sha r' p, f', s')))"
  by (induction sha r fn sn ps rule: inc_run.induct) (auto split: prod.splits)

lemma inc_run_complete:
  assumes "c * 2 ^ h \<le> idx" "idx < Suc c * 2 ^ h" "Suc c * 2 ^ h \<le> N"
  shows "inc_run sha (ls ! idx) idx (N - 1) (path sha ls (c * 2 ^ h) (Suc c * 2 ^ h) idx) =
    Some (mth sha ls (c * 2 ^ h) (Suc c * 2 ^ h), c, (N - 1) div 2 ^ h)"
  using assms
proof (induction h arbitrary: c)
  case 0
  then have "idx = c" by simp
  then show ?case by simp
next
  case (Suc h)
  let ?i = "c * 2 ^ Suc h"
  have diff: "Suc c * 2 ^ Suc h - ?i = 2 * 2 ^ h" by simp
  have big: "1 < Suc c * 2 ^ Suc h - ?i" using one_le_power [of "2 :: nat" h] unfolding diff by linarith
  have s2: "(N - 1) div 2 ^ h div 2 = (N - 1) div 2 ^ Suc h"
    by (simp only: power_Suc2 div_mult2_eq)
  have ge: "Suc (2 * c) * 2 ^ h \<le> N - 1"
  proof -
    have "Suc c * 2 ^ Suc h = Suc (2 * c) * 2 ^ h + 2 ^ h" by simp
    moreover have "(0::nat) < 2 ^ h" by simp
    ultimately show ?thesis using Suc.prems(3) by linarith
  qed
  then have sge: "Suc (2 * c) \<le> (N - 1) div 2 ^ h"
    by (simp add: less_eq_div_iff_mult_less_eq del: mult_Suc)
  let ?j = "Suc c * 2 ^ Suc h"
  have p: "2 * c * 2 ^ h = ?i" "Suc (2 * c) * 2 ^ h = ?i + 2 ^ h" "Suc (Suc (2 * c)) * 2 ^ h = ?j"
    by simp_all
  have sp: "splitPoint (?j - ?i) = 2 ^ h" unfolding diff by simp
  show ?case
  proof (cases "idx < ?i + 2 ^ h")
    case True
    have "inc_run sha (ls ! idx) idx (N - 1) (path sha ls ?i (?i + 2 ^ h) idx) =
        Some (mth sha ls ?i (?i + 2 ^ h), 2 * c, (N - 1) div 2 ^ h)"
      using Suc.IH [of "2 * c"] Suc.prems True ge unfolding p by simp
    moreover have "nclimb (2 * c) ((N - 1) div 2 ^ h) = (False, c, (N - 1) div 2 ^ Suc h)"
      using sge s2 by (subst nclimb_even) auto
    ultimately show ?thesis
      using True sge
      by (simp only: path_split [OF big] mth_split [OF big] sp if_True inc_run_snoc option.case prod.case) simp
  next
    case False
    have "inc_run sha (ls ! idx) idx (N - 1) (path sha ls (?i + 2 ^ h) ?j idx) =
        Some (mth sha ls (?i + 2 ^ h) ?j, Suc (2 * c), (N - 1) div 2 ^ h)"
      using Suc.IH [of "Suc (2 * c)"] Suc.prems False unfolding p by simp
    moreover have "nclimb (Suc (2 * c)) ((N - 1) div 2 ^ h) = (True, c, (N - 1) div 2 ^ Suc h)"
      using s2 by (subst nclimb_odd) auto
    ultimately show ?thesis
      using False sge
      by (simp only: path_split [OF big] mth_split [OF big] sp if_False inc_run_snoc option.case prod.case) simp
  qed
qed

lemma ceil_log_ex: "0 < n \<Longrightarrow> \<exists>h. n \<le> 2 ^ h \<and> (h = 0 \<or> 2 ^ (h - 1) < (n::nat))"
proof -
  assume "0 < n"
  define h where "h = (LEAST h. n \<le> 2 ^ h)"
  have "\<exists>h. n \<le> 2 ^ h" by (rule exI [of _ n]) (simp add: less_imp_le)
  then have "n \<le> 2 ^ h" unfolding h_def by (rule LeastI_ex)
  moreover have "h = 0 \<or> 2 ^ (h - 1) < n"
  proof (cases h)
    case (Suc g)
    then have "\<not> n \<le> 2 ^ g" unfolding h_def by (metis lessI not_less_Least)
    with Suc show ?thesis by simp
  qed simp
  ultimately show ?thesis by blast
qed

text \<open>Right-edge subtrees: \<open>h\<close> is the exact height of \<open>[c * 2 ^ h, N)\<close>.\<close>

definition edge :: "nat \<Rightarrow> nat \<Rightarrow> nat \<Rightarrow> bool" where
  "edge c h N \<longleftrightarrow> c * 2 ^ h < N \<and> N \<le> Suc c * 2 ^ h \<and> (h = 0 \<or> c * 2 ^ h + 2 ^ (h - 1) < N)"

lemma edge_right:
  assumes "edge c (Suc h) N"
  obtains g m where "edge (Suc (2 * c) * 2 ^ m) g N" "Suc (2 * c) * 2 ^ m * 2 ^ g = Suc (2 * c) * 2 ^ h"
    "g < Suc h"
proof -
  let ?i = "Suc (2 * c) * 2 ^ h"
  have r: "?i < N" "N \<le> ?i + 2 ^ h" using assms by (auto simp: edge_def)
  then obtain g where g: "N - ?i \<le> 2 ^ g" "g = 0 \<or> 2 ^ (g - 1) < N - ?i"
    using ceil_log_ex [of "N - ?i"] by auto
  have gh: "g \<le> h"
  proof (rule ccontr)
    assume "\<not> g \<le> h"
    then have "2 ^ h \<le> (2 ^ (g - 1) :: nat)" by (intro power_increasing) auto
    moreover have "2 ^ (g - 1) < N - ?i" using g(2) \<open>\<not> g \<le> h\<close> by auto
    ultimately show False using r by linarith
  qed
  have eq: "Suc (2 * c) * 2 ^ (h - g) * 2 ^ g = ?i"
    using gh by (simp add: mult.assoc power_add [symmetric] del: mult_Suc)
  have "edge (Suc (2 * c) * 2 ^ (h - g)) g N"
    using r g unfolding edge_def mult_Suc [of "Suc (2 * c) * 2 ^ (h - g)"] eq by auto
  then show ?thesis using eq gh by (intro that) auto
qed

lemma edge_div:
  assumes "edge c h N" shows "(N - 1) div 2 ^ h = c"
  using assms by (intro div_block) (auto simp: edge_def)

lemma inc_run_edge:
  assumes "edge c h N" "c * 2 ^ h \<le> idx" "idx < N"
  shows "inc_run sha (ls ! idx) idx (N - 1) (path sha ls (c * 2 ^ h) N idx) =
    Some (mth sha ls (c * 2 ^ h) N, c, c)"
  using assms
proof (induction h arbitrary: c rule: less_induct)
  case (less h)
  show ?case
  proof (cases h)
    case 0
    with less.prems have "N = Suc c" "idx = c" by (auto simp: edge_def)
    with 0 show ?thesis by simp
  next
    case (Suc g)
    let ?i = "c * 2 ^ Suc g"
    have e: "?i + 2 ^ g < N" "N \<le> ?i + 2 * 2 ^ g"
      using less.prems(1) by (auto simp: edge_def Suc)
    then have sp: "splitPoint (N - ?i) = 2 ^ g" by (intro splitPoint_eq) linarith+
    have big: "1 < N - ?i" using e(1) by (metis add.commute less_diff_conv less_one linorder_neqE_nat not_less_zero order_less_le_trans one_le_numeral one_le_power order.strict_trans1)
    show ?thesis
    proof (cases "idx < ?i + 2 ^ g")
      case True
      have p: "2 * c * 2 ^ g = ?i" "Suc (2 * c) * 2 ^ g = ?i + 2 ^ g" by simp_all
      have "inc_run sha (ls ! idx) idx (N - 1) (path sha ls ?i (?i + 2 ^ g) idx) =
          Some (mth sha ls ?i (?i + 2 ^ g), 2 * c, (N - 1) div 2 ^ g)"
        using inc_run_complete [of "2 * c" g idx N sha ls] less.prems True e unfolding p Suc by simp
      moreover have "(N - 1) div 2 ^ g = Suc (2 * c)"
        using e by (intro div_block) auto
      ultimately show ?thesis
        using True unfolding Suc
        by (simp only: path_split [OF big] mth_split [OF big] sp if_True inc_run_snoc) (simp add: nclimb_even)
    next
      case False
      obtain g' m where e': "edge (Suc (2 * c) * 2 ^ m) g' N"
        and eq: "Suc (2 * c) * 2 ^ m * 2 ^ g' = Suc (2 * c) * 2 ^ g" and "g' < Suc g"
        using edge_right less.prems(1) Suc by metis
      have "Suc (2 * c) * 2 ^ m * 2 ^ g' \<le> idx"
        unfolding eq using False by simp
      then have "inc_run sha (ls ! idx) idx (N - 1) (path sha ls (Suc (2 * c) * 2 ^ g) N idx) =
          Some (mth sha ls (Suc (2 * c) * 2 ^ g) N, Suc (2 * c) * 2 ^ m, Suc (2 * c) * 2 ^ m)"
        using less.IH [OF _ e'] less.prems(3) \<open>g' < Suc g\<close> Suc eq by metis
      moreover have "?i + 2 ^ g = Suc (2 * c) * 2 ^ g" by simp
      ultimately show ?thesis
        using False unfolding Suc
        by (simp only: path_split [OF big] mth_split [OF big] sp if_False inc_run_snoc nclimb_edge
            option.case prod.case) (simp del: mult_Suc)
    qed
  qed
qed

lemma edge_root:
  assumes "0 < N" obtains h where "edge 0 h N"
  using ceil_log_ex [OF assms] assms that unfolding edge_def by (metis add_0 mult_0 mult_1 One_nat_def)

lemma int_pred: "0 < n \<Longrightarrow> int n - 1 = int (n - 1)"
  by simp

lemma inclusion_complete:
  assumes "idx < N"
  shows "VerifyInclusion sha (ls ! idx) (int idx) (int N) (path sha ls 0 N idx) = Some (mth sha ls 0 N)"
proof -
  from assms obtain h where "edge 0 h N" using edge_root [of N] by auto
  with inc_run_edge [of 0 h N idx sha ls] assms
  have "inc_loop sha (ls ! idx) (int idx) (int (N - 1)) (path sha ls 0 N idx) = Some (mth sha ls 0 N)"
    unfolding inc_loop_run by simp
  moreover have "int N - 1 = int (N - 1)" using assms by linarith
  ultimately have "inc_loop sha (ls ! idx) (int idx) (int N - 1) (path sha ls 0 N idx) = Some (mth sha ls 0 N)"
    by (simp only:)
  then show ?thesis using assms by (simp add: VerifyInclusion_def)
qed

text \<open>The strings the inclusion verifier hashes, in order.\<close>

fun inc_inputs :: "(bytes \<Rightarrow> bytes) \<Rightarrow> bytes \<Rightarrow> int \<Rightarrow> int \<Rightarrow> bytes list \<Rightarrow> bytes list" where
  "inc_inputs sha r fn sn [] = []"
| "inc_inputs sha r fn sn (p # ps) =
     (case climb fn sn of (lft, f, s) \<Rightarrow>
        let x = (if lft then 0x01 # p @ r else 0x01 # r @ p) in x # inc_inputs sha (sha x) f s ps)"

definition collision :: "(bytes \<Rightarrow> bytes) \<Rightarrow> bytes list \<Rightarrow> bytes list \<Rightarrow> bool" where
  "collision sha xs ys \<longleftrightarrow> (\<exists>x \<in> set xs. \<exists>y \<in> set ys. x \<noteq> y \<and> sha x = sha y)"

lemma collision_Cons1: "collision sha xs ys \<Longrightarrow> collision sha (x # xs) (y # ys)"
  by (auto simp: collision_def)

lemma inc_loop_binding:
  assumes "inc_loop sha r fn sn ps = Some a" "inc_loop sha r' fn sn qs = Some a"
    and "length r = length r'" "\<And>x y. length (sha x) = length (sha y)"
  shows "(r = r' \<and> ps = qs) \<or> collision sha (inc_inputs sha r fn sn ps) (inc_inputs sha r' fn sn qs)"
  using assms(1-3)
proof (induction ps arbitrary: r r' fn sn qs)
  case Nil
  then have "sn = 0" "r = a" by (auto split: if_splits)
  with Nil show ?case by (cases qs) auto
next
  case (Cons p ps)
  then have "sn \<noteq> 0" by (auto split: if_splits)
  with Cons.prems(2) obtain q qs' where qs: "qs = q # qs'" by (cases qs) (auto split: if_splits)
  obtain lft f s where cl: "climb fn sn = (lft, f, s)" by (cases "climb fn sn")
  define x where "x = (if lft then 0x01 # p @ r else 0x01 # r @ p)"
  define y where "y = (if lft then 0x01 # q @ r' else 0x01 # r' @ q)"
  have "inc_loop sha (sha x) f s ps = Some a" "inc_loop sha (sha y) f s qs' = Some a"
    using Cons.prems(1,2) \<open>sn \<noteq> 0\<close> cl by (auto simp: qs x_def y_def nodeHash_def split: if_splits)
  from Cons.IH [OF this] assms(4)
  have "(sha x = sha y \<and> ps = qs') \<or> collision sha (inc_inputs sha (sha x) f s ps) (inc_inputs sha (sha y) f s qs')"
    by blast
  moreover have ip: "inc_inputs sha r fn sn (p # ps) = x # inc_inputs sha (sha x) f s ps"
    "inc_inputs sha r' fn sn qs = y # inc_inputs sha (sha y) f s qs'"
    by (auto simp: qs cl x_def y_def Let_def)
  ultimately show ?case
  proof (elim disjE conjE)
    assume "sha x = sha y" "ps = qs'"
    show ?thesis
    proof (cases "x = y")
      case True
      with Cons.prems(3) \<open>ps = qs'\<close> show ?thesis
        by (auto simp: x_def y_def qs split: if_splits)
    next
      case False
      with \<open>sha x = sha y\<close> show ?thesis unfolding ip by (auto simp: collision_def)
    qed
  qed (simp only: ip collision_Cons1 simp_thms)
qed

lemma inclusion_sound:
  assumes "VerifyInclusion sha lh (int idx) (int N) pf = Some (mth sha ls 0 N)" "idx < N"
    and "length lh = length (ls ! idx)" "\<And>x y. length (sha x) = length (sha y)"
  shows "(lh = ls ! idx \<and> pf = path sha ls 0 N idx)
    \<or> collision sha (inc_inputs sha lh (int idx) (int N - 1) pf) (inc_inputs sha (ls ! idx) (int idx) (int N - 1) (path sha ls 0 N idx))"
proof -
  have "inc_loop sha lh (int idx) (int N - 1) pf = Some (mth sha ls 0 N)"
    "inc_loop sha (ls ! idx) (int idx) (int N - 1) (path sha ls 0 N idx) = Some (mth sha ls 0 N)"
    using assms(1,2) inclusion_complete [OF assms(2), of sha ls]
    by (auto simp: VerifyInclusion_def split: if_splits)
  from inc_loop_binding [OF this assms(3,4)] show ?thesis .
qed

section \<open>Consistency\<close>

fun con_run ::
  "(bytes \<Rightarrow> bytes) \<Rightarrow> bytes \<Rightarrow> bytes \<Rightarrow> nat \<Rightarrow> nat \<Rightarrow> bytes list \<Rightarrow> (bytes \<times> bytes \<times> nat \<times> nat) option" where
  "con_run sha fr sr fn sn [] = Some (fr, sr, fn, sn)"
| "con_run sha fr sr fn sn (c # cs) =
     (if sn = 0 then None
      else (case nclimb fn sn of (lft, f, s) \<Rightarrow>
        if lft then con_run sha (nodeHash sha c fr) (nodeHash sha c sr) f s cs
        else con_run sha fr (nodeHash sha sr c) f s cs))"

lemma con_loop_run:
  "con_loop sha fr sr (int fn) (int sn) cs = map_option (\<lambda>(fr', sr', f, s). (fr', sr', int s)) (con_run sha fr sr fn sn cs)"
  by (induction sha fr sr fn sn cs rule: con_run.induct) (auto simp: climb_nat split: prod.splits)

lemma con_run_snoc:
  "con_run sha fr sr fn sn (cs @ [c]) =
     (case con_run sha fr sr fn sn cs of None \<Rightarrow> None
      | Some (fr', sr', f, s) \<Rightarrow> if s = 0 then None else (case nclimb f s of (lft, f', s') \<Rightarrow>
          Some (if lft then (nodeHash sha c fr', nodeHash sha c sr', f', s')
                else (fr', nodeHash sha sr' c, f', s'))))"
  by (induction sha fr sr fn sn cs rule: con_run.induct) (auto split: prod.splits)

text \<open>\<open>consPath\<close> without the boundary subtree that its base case emits.\<close>

function consTail :: "(bytes \<Rightarrow> bytes) \<Rightarrow> bytes list \<Rightarrow> nat \<Rightarrow> nat \<Rightarrow> nat \<Rightarrow> bytes list" where
  "consTail sha ls i j n =
     (if n = j - i \<or> j - i \<le> 1 then []
      else let k = splitPoint (j - i) in
        if n \<le> k then consTail sha ls i (i + k) n @ [mth sha ls (i + k) j]
        else consTail sha ls (i + k) j (n - k) @ [mth sha ls i (i + k)])"
  by pat_completeness auto
termination
  by (relation "measure (\<lambda>(sha, ls, i, j, n). j - i)") (use splitPoint_mid in \<open>fastforce+\<close>)

declare consTail.simps [simp del]

lemma consTail_base [simp]: "n = j - i \<Longrightarrow> consTail sha ls i j n = []"
  by (simp add: consTail.simps)

lemma consTail_split:
  "1 < j - i \<Longrightarrow> n \<noteq> j - i \<Longrightarrow> consTail sha ls i j n =
     (if n \<le> splitPoint (j - i)
      then consTail sha ls i (i + splitPoint (j - i)) n @ [mth sha ls (i + splitPoint (j - i)) j]
      else consTail sha ls (i + splitPoint (j - i)) j (n - splitPoint (j - i)) @ [mth sha ls i (i + splitPoint (j - i))])"
  by (subst consTail.simps) (auto simp: Let_def)

lemma consPath_split:
  "1 < j - i \<Longrightarrow> n \<noteq> j - i \<Longrightarrow> consPath sha ls i j n b =
     (if n \<le> splitPoint (j - i)
      then consPath sha ls i (i + splitPoint (j - i)) n b @ [mth sha ls (i + splitPoint (j - i)) j]
      else consPath sha ls (i + splitPoint (j - i)) j (n - splitPoint (j - i)) False @ [mth sha ls i (i + splitPoint (j - i))])"
  by (subst consPath.simps) (auto simp: Let_def)

lemma consPath_base [simp]: "n = j - i \<Longrightarrow> consPath sha ls i j n b = (if b then [] else [mth sha ls i j])"
  by (simp add: consPath.simps)

lemma odd_mult_le:
  assumes "Suc (2 * q) * 2 ^ z \<le> (2 :: nat) ^ h" shows "z \<le> h"
proof -
  have "2 ^ z \<le> (2 :: nat) ^ h" using assms by (metis le_trans mult_le_mono1 mult_1 one_le_numeral Suc_le_mono le0 One_nat_def)
  then show ?thesis by simp
qed

lemma odd_mult_minus:
  assumes "2 ^ h < Suc (2 * q) * (2 :: nat) ^ z" "Suc (2 * q) * 2 ^ z \<le> 2 * 2 ^ h"
  obtains q' where "Suc (2 * q) * 2 ^ z - 2 ^ h = Suc (2 * q') * 2 ^ z \<and> z < h"
    | "z = Suc h \<and> q = 0"
proof (cases "z \<le> h")
  case True
  show ?thesis
  proof (cases "z = h")
    case True
    with assms have "1 < Suc (2 * q)" "Suc (2 * q) \<le> 2" by auto
    then show ?thesis by presburger
  next
    case False
    with True obtain d where d: "h = z + Suc d" using less_iff_Suc_add by (metis add_Suc_right le_neq_implies_less)
    then have "(2::nat) ^ h = 2 * 2 ^ d * 2 ^ z" by (simp add: power_add)
    with assms(1) have "2 * 2 ^ d < Suc (2 * q)"
      by (metis mult_less_cancel2)
    then have le: "2 ^ d \<le> q" by simp
    have "Suc (2 * q) * 2 ^ z - 2 ^ h = (Suc (2 * q) - 2 * 2 ^ d) * 2 ^ z"
      using \<open>2 ^ h = 2 * 2 ^ d * 2 ^ z\<close> by (simp only: diff_mult_distrib)
    also have "Suc (2 * q) - 2 * 2 ^ d = Suc (2 * (q - 2 ^ d))" using le by simp
    finally show ?thesis using d by (intro that(1)) auto
  qed
next
  case False
  then have "2 * (2 ^ h :: nat) \<le> 2 ^ z" using power_increasing [of "Suc h" z "2 :: nat"] by simp
  with assms(2) have "Suc (2 * q) * 2 ^ z \<le> 2 ^ z" by linarith
  then have "q = 0" by simp
  with assms(2) have "2 ^ z \<le> (2 :: nat) ^ Suc h" by simp
  then have "z \<le> Suc h" by (simp only: power_increasing_iff)
  with False \<open>q = 0\<close> show ?thesis by (intro that(2)) auto
qed

lemma odd_mult_eq_pow:
  assumes "Suc (2 * q) * 2 ^ z = (2 :: nat) ^ h" shows "q = 0 \<and> z = h"
proof -
  have "z \<le> h" using assms odd_mult_le [of q z h] by simp
  then obtain d where d: "h = z + d" using le_Suc_ex by blast
  then have "Suc (2 * q) * 2 ^ z = 2 ^ d * 2 ^ z" using assms by (simp add: power_add)
  then have "Suc (2 * q) = 2 ^ d" by (metis mult_right_cancel power_not_zero zero_neq_numeral)
  then have "d = 0" by (metis Suc_eq_plus1 even_power even_mult_iff even_numeral even_plus_one_iff gr_zeroI)
  with d \<open>Suc (2 * q) = 2 ^ d\<close> show ?thesis by simp
qed

lemma odd_mult_one:
  fixes n :: nat
  assumes "n = Suc (2 * q) * 2 ^ z" "n \<le> 2 ^ 0" shows "n = 1 \<and> q = 0 \<and> z = 0"
proof -
  have "0 < n" using assms(1) by simp
  with assms(2) have "n = 1" by simp
  with assms(1) have "Suc (2 * q) * 2 ^ z = 2 ^ 0" by simp
  with \<open>n = 1\<close> odd_mult_eq_pow show ?thesis by blast
qed

lemma odd_mult_right:
  assumes "n = Suc (2 * q) * 2 ^ z" "\<not> n \<le> 2 ^ h" "n \<le> 2 * 2 ^ h" "n \<noteq> 2 * 2 ^ (h :: nat)"
  obtains q' where "n - 2 ^ h = Suc (2 * q') * 2 ^ z" "z < h" "q \<noteq> 0"
proof -
  have g: "2 ^ h < Suc (2 * q) * 2 ^ z" "Suc (2 * q) * 2 ^ z \<le> 2 * 2 ^ h" using assms by linarith+
  show ?thesis
  proof (rule odd_mult_minus [OF g])
    fix q' assume q': "Suc (2 * q) * 2 ^ z - 2 ^ h = Suc (2 * q') * 2 ^ z \<and> z < h"
    then have "q \<noteq> 0" using g(1) by (metis Suc_lessD less_trans mult_0_right mult_1 nat_power_less_imp_less
          One_nat_def less_irrefl pos2)
    with q' assms(1) show ?thesis by (intro that) auto
  next
    assume "z = Suc h \<and> q = 0"
    with assms(1,4) show ?thesis by simp
  qed
qed

text \<open>
  A complete subtree \<open>[c * 2 ^ h, Suc c * 2 ^ h)\<close> in which the old tree ends after \<open>n\<close> leaves,
  \<open>2 ^ z\<close> being the largest power of two that divides \<open>n\<close>.
\<close>

lemma con_run_complete:
  assumes "n = Suc (2 * q) * 2 ^ z" "n \<le> 2 ^ h" "Suc c * 2 ^ h \<le> N"
  shows "con_run sha (mth sha ls (c * 2 ^ h + n - 2 ^ z) (c * 2 ^ h + n)) (mth sha ls (c * 2 ^ h + n - 2 ^ z) (c * 2 ^ h + n))
      ((c * 2 ^ h + n - 1) div 2 ^ z) ((N - 1) div 2 ^ z) (consTail sha ls (c * 2 ^ h) (Suc c * 2 ^ h) n) =
    Some (mth sha ls (c * 2 ^ h) (c * 2 ^ h + n), mth sha ls (c * 2 ^ h) (Suc c * 2 ^ h), c, (N - 1) div 2 ^ h)"
  using assms
proof (induction h arbitrary: c n q)
  case 0
  then have "n = 1" "z = 0" using odd_mult_one by blast+
  then show ?case by simp
next
  case (Suc h)
  let ?i = "c * 2 ^ Suc h" and ?j = "Suc c * 2 ^ Suc h"
  have diff: "?j - ?i = 2 * 2 ^ h" by simp
  have big: "1 < ?j - ?i" using one_le_power [of "2 :: nat" h] unfolding diff by linarith
  have sp: "splitPoint (?j - ?i) = 2 ^ h" unfolding diff by simp
  have p: "2 * c * 2 ^ h = ?i" "Suc (2 * c) * 2 ^ h = ?i + 2 ^ h" "Suc (Suc (2 * c)) * 2 ^ h = ?j"
    by simp_all
  have s2: "(N - 1) div 2 ^ h div 2 = (N - 1) div 2 ^ Suc h"
    by (simp only: power_Suc2 div_mult2_eq)
  have "Suc (2 * c) * 2 ^ h \<le> N - 1"
    using Suc.prems(3) one_le_power [of "2 :: nat" h] unfolding p by (simp only: mult_Suc power_Suc) linarith
  then have sge: "Suc (2 * c) \<le> (N - 1) div 2 ^ h"
    by (simp add: less_eq_div_iff_mult_less_eq del: mult_Suc)
  show ?case
  proof (cases "n = 2 ^ Suc h")
    case True
    with Suc.prems(1) odd_mult_eq_pow have "z = Suc h" by metis
    moreover have "(?j - 1) div 2 ^ Suc h = c"
      using one_le_power [of "2 :: nat" "Suc h"] by (intro div_block) (simp_all only: mult_Suc, linarith+)
    moreover have "?i + n = ?j" using True by simp
    ultimately show ?thesis using True by (simp only: \<open>?i + n = ?j\<close>) simp
  next
    case False
    then have ne: "n \<noteq> ?j - ?i" using diff by simp
    show ?thesis
    proof (cases "n \<le> 2 ^ h")
      case True
      have le: "?i + 2 ^ h \<le> N" using Suc.prems(3) by simp
      note IH = Suc.IH [of n q "2 * c", unfolded p, OF Suc.prems(1) True le]
      have "nclimb (2 * c) ((N - 1) div 2 ^ h) = (False, c, (N - 1) div 2 ^ Suc h)"
        using sge s2 by (subst nclimb_even) auto
      then show ?thesis
        using True sge IH
        by (simp only: consTail_split [OF big ne] mth_split [OF big] sp if_True con_run_snoc option.case prod.case) simp
    next
      case 2: False
      have nle: "n \<le> 2 * 2 ^ h" "n \<noteq> 2 * 2 ^ h" using Suc.prems(2) False by simp_all
      obtain q' where q': "n - 2 ^ h = Suc (2 * q') * 2 ^ z"
        using odd_mult_right [OF Suc.prems(1) 2 nle] by blast
      have "n - 2 ^ h \<le> 2 ^ h" using Suc.prems(2) by simp
      note IH = Suc.IH [of "n - 2 ^ h" q' "Suc (2 * c)", unfolded p, OF q' this Suc.prems(3)]
      have eq: "?i + 2 ^ h + (n - 2 ^ h) = ?i + n" using 2 by simp
      have "nclimb (Suc (2 * c)) ((N - 1) div 2 ^ h) = (True, c, (N - 1) div 2 ^ Suc h)"
        using s2 by (subst nclimb_odd) auto
      moreover have sn: "splitPoint (?i + n - ?i) = 2 ^ h"
        using 2 Suc.prems(2) by (intro splitPoint_eq) auto
      have "1 < n" using 2 one_le_power [of "2 :: nat" h] by linarith
      then have m: "mth sha ls ?i (?i + n) = nodeHash sha (mth sha ls ?i (?i + 2 ^ h)) (mth sha ls (?i + 2 ^ h) (?i + n))"
        using mth_split [of "?i + n" ?i sha ls] unfolding sn by simp
      ultimately show ?thesis
        using 2 sge IH unfolding eq
        by (simp only: consTail_split [OF big ne] mth_split [OF big] m sp if_False con_run_snoc
            option.case prod.case) simp
    qed
  qed
qed

lemma edge_split:
  assumes "edge c (Suc g) N"
  shows "splitPoint (N - c * 2 ^ Suc g) = 2 ^ g" "1 < N - c * 2 ^ Suc g" "c * 2 ^ Suc g + 2 ^ g < N"
proof -
  have e: "c * 2 ^ Suc g + 2 ^ g < N" "N \<le> c * 2 ^ Suc g + 2 * 2 ^ g"
    using assms by (auto simp: edge_def)
  then show "splitPoint (N - c * 2 ^ Suc g) = 2 ^ g" by (intro splitPoint_eq) linarith+
  show "1 < N - c * 2 ^ Suc g" using e(1) one_le_power [of "2 :: nat" g] by linarith
  show "c * 2 ^ Suc g + 2 ^ g < N" by (rule e)
qed

lemma con_run_edge:
  assumes "edge c h N" "n = Suc (2 * q) * 2 ^ z" "c * 2 ^ h + n < N"
  shows "con_run sha (mth sha ls (c * 2 ^ h + n - 2 ^ z) (c * 2 ^ h + n)) (mth sha ls (c * 2 ^ h + n - 2 ^ z) (c * 2 ^ h + n))
      ((c * 2 ^ h + n - 1) div 2 ^ z) ((N - 1) div 2 ^ z) (consTail sha ls (c * 2 ^ h) N n) =
    Some (mth sha ls (c * 2 ^ h) (c * 2 ^ h + n), mth sha ls (c * 2 ^ h) N, c, c)"
  using assms
proof (induction h arbitrary: c n q rule: less_induct)
  case (less h)
  have "0 < n" using less.prems(2) by simp
  show ?case
  proof (cases h)
    case 0
    with less.prems \<open>0 < n\<close> show ?thesis by (auto simp: edge_def)
  next
    case (Suc g)
    let ?i = "c * 2 ^ Suc g"
    note e = edge_split [OF less.prems(1) [unfolded Suc]]
    have ne: "n \<noteq> N - ?i" using less.prems(3) Suc by simp
    show ?thesis
    proof (cases "n \<le> 2 ^ g")
      case True
      have p: "2 * c * 2 ^ g = ?i" "Suc (2 * c) * 2 ^ g = ?i + 2 ^ g" by simp_all
      note C = con_run_complete [of n q z g "2 * c" N sha ls, unfolded p, OF less.prems(2) True less_imp_le [OF e(3)]]
      have "N \<le> ?i + 2 * 2 ^ g" using less.prems(1) Suc by (auto simp: edge_def)
      then have "(N - 1) div 2 ^ g = Suc (2 * c)" using e(3) by (intro div_block) auto
      then show ?thesis
        using True C unfolding Suc
        by (simp only: consTail_split [OF e(2) ne] mth_split [OF e(2)] e(1) if_True con_run_snoc option.case prod.case)
          (simp add: nclimb_even)
    next
      case False
      obtain g' m where e': "edge (Suc (2 * c) * 2 ^ m) g' N"
        and eq: "Suc (2 * c) * 2 ^ m * 2 ^ g' = Suc (2 * c) * 2 ^ g" and lt: "g' < h"
        using edge_right less.prems(1) Suc by metis
      have eq': "Suc (2 * c) * 2 ^ m * 2 ^ g' = ?i + 2 ^ g" unfolding eq by simp
      have nle: "n \<le> 2 * 2 ^ g" "n \<noteq> 2 * 2 ^ g" using less.prems(1,3) unfolding Suc by (auto simp: edge_def)
      obtain q' where q': "n - 2 ^ g = Suc (2 * q') * 2 ^ z"
        using odd_mult_right [OF less.prems(2) False nle] by blast
      have ni: "?i + 2 ^ g + (n - 2 ^ g) = ?i + n" using False by simp
      have lN: "?i + 2 ^ g + (n - 2 ^ g) < N" using less.prems(3) unfolding ni Suc .
      note IH = less.IH [OF lt e' q', unfolded eq', OF lN, unfolded ni]
      have sn: "splitPoint (?i + n - ?i) = 2 ^ g"
        using False nle by (intro splitPoint_eq) auto
      have "1 < n" using False one_le_power [of "2 :: nat" g] by linarith
      then have m: "mth sha ls ?i (?i + n) = nodeHash sha (mth sha ls ?i (?i + 2 ^ g)) (mth sha ls (?i + 2 ^ g) (?i + n))"
        using mth_split [of "?i + n" ?i sha ls] unfolding sn by simp
      show ?thesis
        using False IH unfolding Suc
        by (simp only: consTail_split [OF e(2) ne] mth_split [OF e(2)] m e(1) if_False con_run_snoc
            option.case prod.case nclimb_edge) (simp del: mult_Suc)
    qed
  qed
qed

lemma consPath_complete:
  assumes "n = Suc (2 * q) * 2 ^ z" "n \<le> 2 ^ h"
  shows "consPath sha ls (c * 2 ^ h) (Suc c * 2 ^ h) n b =
    (if b \<and> q = 0 then [] else [mth sha ls (c * 2 ^ h + n - 2 ^ z) (c * 2 ^ h + n)])
      @ consTail sha ls (c * 2 ^ h) (Suc c * 2 ^ h) n"
  using assms
proof (induction h arbitrary: c n q b)
  case 0
  then have "n = 1" "z = 0" "q = 0" using odd_mult_one by blast+
  then show ?case by simp
next
  case (Suc h)
  let ?i = "c * 2 ^ Suc h" and ?j = "Suc c * 2 ^ Suc h"
  have diff: "?j - ?i = 2 * 2 ^ h" by simp
  have big: "1 < ?j - ?i" using one_le_power [of "2 :: nat" h] unfolding diff by linarith
  have sp: "splitPoint (?j - ?i) = 2 ^ h" unfolding diff by simp
  have p: "2 * c * 2 ^ h = ?i" "Suc (2 * c) * 2 ^ h = ?i + 2 ^ h" "Suc (Suc (2 * c)) * 2 ^ h = ?j"
    by simp_all
  show ?case
  proof (cases "n = 2 ^ Suc h")
    case True
    with Suc.prems(1) odd_mult_eq_pow have "z = Suc h" "q = 0" by metis+
    with True show ?thesis by (simp add: ac_simps)
  next
    case False
    then have ne: "n \<noteq> ?j - ?i" using diff by simp
    show ?thesis
    proof (cases "n \<le> 2 ^ h")
      case True
      note IH = Suc.IH [of n q "2 * c" b, unfolded p, OF Suc.prems(1) True]
      then show ?thesis
        using True by (simp only: consTail_split [OF big ne] consPath_split [OF big ne] sp if_True) simp
    next
      case 2: False
      have nle: "n \<le> 2 * 2 ^ h" "n \<noteq> 2 * 2 ^ h" using Suc.prems(2) False by simp_all
      obtain q' where q': "n - 2 ^ h = Suc (2 * q') * 2 ^ z" "z < h" "q \<noteq> 0"
        using odd_mult_right [OF Suc.prems(1) 2 nle] by blast
      have "n - 2 ^ h \<le> 2 ^ h" using Suc.prems(2) by simp
      note IH = Suc.IH [of "n - 2 ^ h" q' "Suc (2 * c)" False, unfolded p, OF q'(1) this]
      have eq: "?i + 2 ^ h + (n - 2 ^ h) = ?i + n" using 2 by simp
      then show ?thesis
        using IH 2 q'(3) unfolding eq
        by (simp only: consTail_split [OF big ne] consPath_split [OF big ne] sp if_False) simp
    qed
  qed
qed

lemma consPath_edge:
  assumes "edge c h N" "n = Suc (2 * q) * 2 ^ z" "c * 2 ^ h + n < N"
  shows "consPath sha ls (c * 2 ^ h) N n b =
    (if b \<and> q = 0 then [] else [mth sha ls (c * 2 ^ h + n - 2 ^ z) (c * 2 ^ h + n)])
      @ consTail sha ls (c * 2 ^ h) N n"
  using assms
proof (induction h arbitrary: c n q b rule: less_induct)
  case (less h)
  have "0 < n" using less.prems(2) by simp
  show ?case
  proof (cases h)
    case 0
    with less.prems \<open>0 < n\<close> show ?thesis by (auto simp: edge_def)
  next
    case (Suc g)
    let ?i = "c * 2 ^ Suc g"
    note e = edge_split [OF less.prems(1) [unfolded Suc]]
    have ne: "n \<noteq> N - ?i" using less.prems(3) Suc by simp
    show ?thesis
    proof (cases "n \<le> 2 ^ g")
      case True
      have p: "2 * c * 2 ^ g = ?i" "Suc (2 * c) * 2 ^ g = ?i + 2 ^ g" by simp_all
      note C = consPath_complete [of n q z g sha ls "2 * c" b, unfolded p, OF less.prems(2) True]
      then show ?thesis
        using True unfolding Suc
        by (simp only: consTail_split [OF e(2) ne] consPath_split [OF e(2) ne] e(1) if_True) simp
    next
      case False
      obtain g' m where e': "edge (Suc (2 * c) * 2 ^ m) g' N"
        and eq: "Suc (2 * c) * 2 ^ m * 2 ^ g' = Suc (2 * c) * 2 ^ g" and lt: "g' < h"
        using edge_right less.prems(1) Suc by metis
      have eq': "Suc (2 * c) * 2 ^ m * 2 ^ g' = ?i + 2 ^ g" unfolding eq by simp
      have nle: "n \<le> 2 * 2 ^ g" "n \<noteq> 2 * 2 ^ g" using less.prems(1,3) unfolding Suc by (auto simp: edge_def)
      obtain q' where q': "n - 2 ^ g = Suc (2 * q') * 2 ^ z" "z < g" "q \<noteq> 0"
        using odd_mult_right [OF less.prems(2) False nle] by blast
      have ni: "?i + 2 ^ g + (n - 2 ^ g) = ?i + n" using False by simp
      have lN: "?i + 2 ^ g + (n - 2 ^ g) < N" using less.prems(3) unfolding ni Suc .
      note IH = less.IH [OF lt e' q'(1), of False, unfolded eq', OF lN, unfolded ni]
      with IH show ?thesis
        using False q'(3) unfolding Suc
        by (simp only: consTail_split [OF e(2) ne] consPath_split [OF e(2) ne] e(1) if_False) simp
    qed
  qed
qed


lemma odd_part_ex: "0 < n \<Longrightarrow> \<exists>q z. n = Suc (2 * q) * 2 ^ z"
proof (induction n rule: less_induct)
  case (less n)
  show ?case
  proof (cases "even n")
    case True
    then obtain k where k: "n = 2 * k" by (elim evenE)
    with less.prems have "k < n" "0 < k" by simp_all
    with less.IH obtain q z where "k = Suc (2 * q) * 2 ^ z" by blast
    with k have "n = Suc (2 * q) * 2 ^ Suc z" by simp
    then show ?thesis by blast
  next
    case False
    then obtain q where "n = 2 * q + 1" by (elim oddE)
    then have "n = Suc (2 * q) * 2 ^ 0" by simp
    then show ?thesis by blast
  qed
qed

lemma strip_ones_odd_part:
  "strip_ones (int (Suc (2 * q) * 2 ^ z - 1)) y = (int (2 * q), y div 2 ^ z)"
proof (induction z arbitrary: y)
  case 0
  then show ?case by (simp add: strip_ones.simps)
next
  case (Suc z)
  obtain k where k: "Suc (2 * q) * 2 ^ z = Suc k" by (metis Suc_pred mult_pos_pos zero_less_Suc zero_less_numeral zero_less_power)
  then have "Suc (2 * q) * 2 ^ Suc z - 1 = 2 * k + 1" by simp
  then have e: "int (Suc (2 * q) * 2 ^ Suc z - 1) = 2 * int k + 1"
    by (simp only: of_nat_add of_nat_mult of_nat_numeral of_nat_1)
  have "y div 2 ^ Suc z = y div 2 div 2 ^ z"
    by (simp add: zdiv_zmult2_eq)
  then show ?case using Suc [of "y div 2"] k unfolding e
    by (subst strip_ones.simps) simp
qed

lemma strip_ones_even: "fn \<noteq> - 1 \<Longrightarrow> even (fst (strip_ones fn sn))"
proof (induction fn sn rule: strip_ones.induct)
  case (1 fn sn)
  then show ?case by (subst strip_ones.simps) (auto elim!: oddE)
qed

lemma mask_even: "power_of_two_mask (2 * int n) \<longleftrightarrow> power_of_two_mask (int n)"
proof (cases n)
  case (Suc k)
  have "(2 * (1 + int k)) AND (2 * int k + 1) = 2 * ((1 + int k) AND int k)"
    by (subst and_rec) simp
  then show ?thesis using Suc by (simp add: power_of_two_mask_def algebra_simps)
qed simp

lemma mask_odd_part: "power_of_two_mask (int (Suc (2 * q) * 2 ^ z)) \<longleftrightarrow> q = 0"
proof (induction z)
  case 0
  have "(1 + 2 * int q) AND (2 * int q) = 2 * (int q AND int q)" by (subst and_rec) simp
  then show ?case by (simp add: power_of_two_mask_def)
next
  case (Suc z)
  have "int (Suc (2 * q) * 2 ^ Suc z) = 2 * int (Suc (2 * q) * 2 ^ z)" by simp
  then show ?case using Suc mask_even by metis
qed

lemma mth_ne:
  assumes "\<And>x. sha x \<noteq> []" "\<And>l. l \<in> set ls \<Longrightarrow> l \<noteq> []" "i < j" "j \<le> length ls"
  shows "mth sha ls i j \<noteq> []"
  using assms by (subst mth.simps) (auto simp: nodeHash_def Let_def)

lemma con_loop_honest:
  fixes sha :: "bytes \<Rightarrow> bytes" and ls :: "bytes list"
  assumes "0 < m" "m < N"
  defines "pth \<equiv> (if power_of_two_mask (int m) then mth sha ls 0 m # consPath sha ls 0 N m True else consPath sha ls 0 N m True)"
  shows "pth \<noteq> []" "case strip_ones (int m - 1) (int N - 1) of (fn, sn) \<Rightarrow>
      con_loop sha (hd pth) (hd pth) fn sn (tl pth) = Some (mth sha ls 0 m, mth sha ls 0 N, 0)"
    "consPath sha ls 0 N m True \<noteq> []" "\<not> power_of_two_mask (int m) \<Longrightarrow> \<exists>i. i < m \<and> hd pth = mth sha ls i m"
proof -
  obtain q z where m: "m = Suc (2 * q) * 2 ^ z" using odd_part_ex assms(1) by blast
  obtain h where e: "edge 0 h N" using edge_root [of N] assms by auto
  have N: "0 * 2 ^ h + m < N" using assms by simp
  note cp = consPath_edge [OF e m N, of sha ls True, simplified]
  note cr = con_run_edge [OF e m N, of sha ls, simplified]
  have pm: "power_of_two_mask (int m) \<longleftrightarrow> q = 0" using mask_odd_part m by simp
  have pth: "pth = mth sha ls (m - 2 ^ z) m # consTail sha ls 0 N m"
    using cp pm m unfolding pth_def by auto
  then show "pth \<noteq> []" by simp
  have "m = 2 ^ z + 2 * q * 2 ^ z" "(0 :: nat) < 2 ^ z" using m by simp_all
  then have "2 * q * 2 ^ z \<le> m - 1" by linarith
  moreover have "m - 1 < Suc (2 * q) * 2 ^ z" using assms(1) m by linarith
  ultimately have "(m - 1) div 2 ^ z = 2 * q" by (rule div_block)
  then have "strip_ones (int m - 1) (int N - 1) = (int ((m - 1) div 2 ^ z), int ((N - 1) div 2 ^ z))"
    using strip_ones_odd_part [of q z "int (N - 1)", folded m] int_pred [OF assms(1)] int_pred [of N] assms
    by (simp only: zdiv_int of_nat_power of_nat_numeral)
  then show "case strip_ones (int m - 1) (int N - 1) of (fn, sn) \<Rightarrow>
      con_loop sha (hd pth) (hd pth) fn sn (tl pth) = Some (mth sha ls 0 m, mth sha ls 0 N, 0)"
    using cr pth by (simp add: con_loop_run)
  have "m - 2 ^ z < m" using m by simp
  then show "\<not> power_of_two_mask (int m) \<Longrightarrow> \<exists>i. i < m \<and> hd pth = mth sha ls i m" using pth by auto
  have "consTail sha ls 0 N m \<noteq> []"
    using consTail_split [of N 0 m sha ls] assms by auto
  then show "consPath sha ls 0 N m True \<noteq> []" using cp by simp
qed

lemma consistency_complete:
  assumes "0 < m" "m < N" "N \<le> length ls" "\<And>x. sha x \<noteq> []" "\<And>l. l \<in> set ls \<Longrightarrow> l \<noteq> []"
  shows "VerifyConsistency sha (mth sha ls 0 m) (mth sha ls 0 N) m N (consPath sha ls 0 N m True)"
proof -
  have "mth sha ls 0 m \<noteq> []" "mth sha ls 0 N \<noteq> []"
    using mth_ne [of sha ls 0 m] mth_ne [of sha ls 0 N] assms by auto
  with con_loop_honest [OF assms(1,2), of sha ls] assms(1,2) show ?thesis
    by (auto simp: VerifyConsistency_def Let_def split: prod.splits)
qed

text \<open>What the verifier hashes on the new tree's side, and what \<open>mth\<close> hashes.\<close>

fun con_inputs :: "(bytes \<Rightarrow> bytes) \<Rightarrow> bytes \<Rightarrow> int \<Rightarrow> int \<Rightarrow> bytes list \<Rightarrow> bytes list" where
  "con_inputs sha sr fn sn [] = []"
| "con_inputs sha sr fn sn (c # cs) =
     (case climb fn sn of (lft, f, s) \<Rightarrow>
        let x = (if lft then 0x01 # c @ sr else 0x01 # sr @ c) in x # con_inputs sha (sha x) f s cs)"

lemma con_loop_binding:
  assumes "con_loop sha fr sr fn sn cs = Some (fr', a, 0)" "con_loop sha gr tr fn sn ds = Some (gr', a, 0)"
    and "length sr = length tr" "\<And>x y. length (sha x) = length (sha y)"
  shows "(sr = tr \<and> cs = ds) \<or> collision sha (con_inputs sha sr fn sn cs) (con_inputs sha tr fn sn ds)"
  using assms(1-3)
proof (induction cs arbitrary: fr sr gr tr fn sn ds)
  case Nil
  then show ?case by (cases ds) auto
next
  case (Cons c cs)
  then have sn: "sn \<noteq> 0" by (auto split: if_splits)
  with Cons.prems(2) obtain d ds' where ds: "ds = d # ds'" by (cases ds) auto
  obtain lft f s where cl: "climb fn sn = (lft, f, s)" by (cases "climb fn sn")
  define x where "x = (if lft then 0x01 # c @ sr else 0x01 # sr @ c)"
  define y where "y = (if lft then 0x01 # d @ tr else 0x01 # tr @ d)"
  obtain fr1 gr1 where "con_loop sha fr1 (sha x) f s cs = Some (fr', a, 0)"
      "con_loop sha gr1 (sha y) f s ds' = Some (gr', a, 0)"
    using Cons.prems(1,2) sn cl by (auto simp: ds x_def y_def nodeHash_def split: if_splits)
  from Cons.IH [OF this] assms(4)
  have IH: "(sha x = sha y \<and> cs = ds') \<or> collision sha (con_inputs sha (sha x) f s cs) (con_inputs sha (sha y) f s ds')"
    by blast
  have ip: "con_inputs sha sr fn sn (c # cs) = x # con_inputs sha (sha x) f s cs"
    "con_inputs sha tr fn sn ds = y # con_inputs sha (sha y) f s ds'"
    by (auto simp: ds cl x_def y_def Let_def)
  show ?case
  proof (cases "x = y")
    case True
    with Cons.prems(3) have "c = d \<and> sr = tr" by (auto simp: x_def y_def split: if_splits)
    from IH show ?thesis
    proof (elim disjE conjE)
      assume "sha x = sha y" "cs = ds'"
      then show ?thesis using \<open>c = d \<and> sr = tr\<close> ds by simp
    qed (simp only: ip collision_Cons1 simp_thms)
  next
    case False
    from IH show ?thesis
    proof (elim disjE conjE)
      assume "sha x = sha y" "cs = ds'"
      then show ?thesis using False unfolding ip by (auto simp: collision_def)
    qed (simp only: ip collision_Cons1 simp_thms)
  qed
qed

function tree_inputs :: "(bytes \<Rightarrow> bytes) \<Rightarrow> bytes list \<Rightarrow> nat \<Rightarrow> nat \<Rightarrow> bytes list" where
  "tree_inputs sha ls i j =
     (if j - i \<le> 1 then []
      else let k = splitPoint (j - i) in
        (0x01 # mth sha ls i (i + k) @ mth sha ls (i + k) j) # tree_inputs sha ls i (i + k) @ tree_inputs sha ls (i + k) j)"
  by pat_completeness auto
termination
  by (relation "measure (\<lambda>(sha, ls, i, j). j - i)") (use splitPoint_mid in \<open>fastforce+\<close>)

declare tree_inputs.simps [simp del, loop_unfold]

lemma mth_length:
  assumes "\<And>x. length (sha x) = d" "\<And>l. l \<in> set ls \<Longrightarrow> length l = d" "i < j" "j \<le> length ls"
  shows "length (mth sha ls i j) = d"
  using assms by (subst mth.simps) (auto simp: nodeHash_def Let_def)

lemma mth_binding:
  assumes "mth sha ls i j = mth sha ls' i j" "i < j" "j \<le> length ls" "j \<le> length ls'"
    and "\<And>x. length (sha x) = d" "\<And>l. l \<in> set ls \<union> set ls' \<Longrightarrow> length l = d"
  shows "(\<forall>k. i \<le> k \<and> k < j \<longrightarrow> ls ! k = ls' ! k) \<or> collision sha (tree_inputs sha ls i j) (tree_inputs sha ls' i j)"
  using assms(1-4)
proof (induction "j - i" arbitrary: i j rule: less_induct)
  case less
  show ?case
  proof (cases "j - i = 1")
    case True
    with less.prems have "j = Suc i" by simp
    with less.prems(1) show ?thesis by (auto simp: less_Suc_eq_le dest: le_antisym)
  next
    case False
    with less.prems have big: "1 < j - i" by simp
    note mid = splitPoint_mid [OF big]
    let ?k = "i + splitPoint (j - i)"
    let ?x = "0x01 # mth sha ls i ?k @ mth sha ls ?k j" and ?y = "0x01 # mth sha ls' i ?k @ mth sha ls' ?k j"
    have t: "tree_inputs sha ls i j = ?x # tree_inputs sha ls i ?k @ tree_inputs sha ls ?k j"
      "tree_inputs sha ls' i j = ?y # tree_inputs sha ls' i ?k @ tree_inputs sha ls' ?k j"
      using big by (simp_all add: tree_inputs.simps [of _ _ i j] Let_def)
    show ?thesis
    proof (cases "?x = ?y")
      case True
      moreover have "length (mth sha ls i ?k) = length (mth sha ls' i ?k)"
        using mth_length [of sha d ls i ?k] mth_length [of sha d ls' i ?k] assms(5,6) mid less.prems by simp
      ultimately have eqs: "mth sha ls i ?k = mth sha ls' i ?k" "mth sha ls ?k j = mth sha ls' ?k j" by auto
      have a: "(\<forall>k. i \<le> k \<and> k < ?k \<longrightarrow> ls ! k = ls' ! k) \<or> collision sha (tree_inputs sha ls i ?k) (tree_inputs sha ls' i ?k)"
        using less.hyps [of ?k i] mid less.prems eqs by simp
      have b: "(\<forall>k. ?k \<le> k \<and> k < j \<longrightarrow> ls ! k = ls' ! k) \<or> collision sha (tree_inputs sha ls ?k j) (tree_inputs sha ls' ?k j)"
        using less.hyps [of j ?k] mid less.prems eqs by simp
      show ?thesis
      proof (cases "\<forall>k. i \<le> k \<and> k < j \<longrightarrow> ls ! k = ls' ! k")
        case False
        then have "\<not> (\<forall>k. i \<le> k \<and> k < ?k \<longrightarrow> ls ! k = ls' ! k) \<or> \<not> (\<forall>k. ?k \<le> k \<and> k < j \<longrightarrow> ls ! k = ls' ! k)"
          by (meson not_le_imp_less)
        with a b show ?thesis unfolding t collision_def by auto
      qed simp
    next
      case False
      moreover have "sha ?x = sha ?y"
        using less.prems(1) mth_split [OF big] by (simp add: nodeHash_def)
      ultimately show ?thesis unfolding t collision_def by auto
    qed
  qed
qed

lemma consistency_sound:
  assumes V: "VerifyConsistency sha (mth sha old 0 (length old)) (mth sha new 0 (length new)) (length old) (length new) pf"
    and len: "\<And>x. length (sha x) = d" "\<And>l. l \<in> set old \<union> set new \<Longrightarrow> length l = d" "\<And>p. p \<in> set pf \<Longrightarrow> length p = d"
    and ne: "0 < length old" "0 < d"
  defines "m \<equiv> length old" and "N \<equiv> length new"
  defines "seed \<equiv> (if power_of_two_mask (int m) then mth sha old 0 m else hd pf)"
    and "rest \<equiv> (if power_of_two_mask (int m) then pf else tl pf)"
    and "hon \<equiv> consPath sha new 0 N m True"
  defines "hseed \<equiv> (if power_of_two_mask (int m) then mth sha new 0 m else hd hon)"
    and "hrest \<equiv> (if power_of_two_mask (int m) then hon else tl hon)"
    and "fs \<equiv> strip_ones (int m - 1) (int N - 1)"
  shows "take m new = old
    \<or> collision sha (tree_inputs sha old 0 m) (tree_inputs sha new 0 m)
    \<or> collision sha (con_inputs sha seed (fst fs) (snd fs) rest) (con_inputs sha hseed (fst fs) (snd fs) hrest)"
proof -
  have mN: "m \<le> N" using V ne by (auto simp: VerifyConsistency_def m_def N_def split: if_splits)
  have bind: "take m new = old \<or> collision sha (tree_inputs sha old 0 m) (tree_inputs sha new 0 m)"
    if "mth sha old 0 m = mth sha new 0 m"
  proof -
    have "(\<forall>k. 0 \<le> k \<and> k < m \<longrightarrow> old ! k = new ! k) \<or> collision sha (tree_inputs sha old 0 m) (tree_inputs sha new 0 m)"
      using mth_binding [OF that, of d] len ne mN by (auto simp: m_def N_def)
    then show ?thesis using mN by (auto simp: m_def N_def intro: nth_equalityI)
  qed
  show ?thesis
  proof (cases "m = N")
    case True
    with V ne have "mth sha old 0 m = mth sha new 0 m"
      by (auto simp: VerifyConsistency_def m_def N_def split: if_splits)
    with bind show ?thesis by blast
  next
    case False
    with mN have lt: "m < N" by simp
    obtain f s where fs: "fs = (f, s)" by (cases fs)
    have pf: "pf \<noteq> []" and run: "con_loop sha seed seed f s rest = Some (mth sha old 0 m, mth sha new 0 N, 0)"
      using V False ne mN fs unfolding fs_def VerifyConsistency_def seed_def rest_def m_def N_def
      by (auto simp: Let_def split: if_splits option.splits)
    note h = con_loop_honest [of m N sha new, folded hon_def, OF _ lt]
    have hrun: "con_loop sha hseed hseed f s hrest = Some (mth sha new 0 m, mth sha new 0 N, 0)"
      using h(2) fs ne unfolding fs_def hseed_def hrest_def m_def by (auto split: if_splits)
    have mlen: "length (mth sha old i m) = d" "length (mth sha new i m) = d" if "i < m" for i
      using mth_length [of sha d old i m] mth_length [of sha d new i m] len that mN by (auto simp: m_def N_def)
    have "length hseed = d"
    proof (cases "power_of_two_mask (int m)")
      case True
      then show ?thesis using mlen ne by (auto simp: hseed_def m_def)
    next
      case nf: False
      then obtain i where "i < m" "hd hon = mth sha new i m" using h(4) ne unfolding m_def by auto
      with nf show ?thesis using mlen by (simp add: hseed_def)
    qed
    moreover have "length seed = d" using mlen ne pf len(3) by (auto simp: seed_def m_def)
    ultimately have "(seed = hseed \<and> rest = hrest) \<or>
        collision sha (con_inputs sha seed f s rest) (con_inputs sha hseed f s hrest)"
      using con_loop_binding [OF run hrun] len(1) by simp
    then show ?thesis
    proof (elim disjE conjE)
      assume "seed = hseed" "rest = hrest"
      with run hrun have "mth sha old 0 m = mth sha new 0 m" by simp
      with bind show ?thesis by blast
    qed (simp add: fs)
  qed
qed

end
