(* ===== verification/Gossip.thy ===== *)
theory Gossip
  imports CTLogProofs
begin

text \<open>
  The properties of the transparency log: its proofs and their verifiers, signed tree heads, and the
  observer \<open>GossipNode\<close> as a state machine fed with tree heads.
\<close>

section \<open>Prefixes of a log\<close>

lemma mth_take: "j \<le> n \<Longrightarrow> mth sha (take n ls) i j = mth sha ls i j"
proof (induction sha ls i j rule: mth.induct)
  case (1 sha ls i j)
  show ?case
  proof (cases "1 < j - i")
    case True
    with 1 show ?thesis using splitPoint_mid [OF True] by (simp add: mth_split Let_def)
  next
    case False
    then consider "j \<le> i" | "j = Suc i" by linarith
    then show ?thesis using 1 by cases (auto simp: mth.simps)
  qed
qed

lemma Root_take: "n \<le> length ls \<Longrightarrow> Root sha \<lparr>leaves = take n ls\<rparr> = mth sha ls 0 n"
  by (simp add: Root_def mth_take min_absorb2)

definition append_all :: "(bytes \<Rightarrow> bytes) \<Rightarrow> bytes list \<Rightarrow> MerkleLog \<Rightarrow> MerkleLog" where
  "append_all sha es m = fold (\<lambda>e l. fst (log_append sha l e)) es m"

lemma append_all_leaves: "leaves (append_all sha es m) = leaves m @ map (LeafHash sha) es"
  by (induction es arbitrary: m) (auto simp: append_all_def log_append_def Let_def)

text \<open>A log whose every entry went through \<open>Append\<close> holds digests.\<close>

definition digests :: "bytes list \<Rightarrow> bool" where
  "digests ls \<longleftrightarrow> (\<forall>l \<in> set ls. length l = 32)"

lemma digests_append_all: "sha_ok P \<Longrightarrow> digests (leaves (append_all (sha256 P) es NewMerkleLog))"
  by (auto simp: digests_def append_all_leaves NewMerkleLog_def LeafHash_def sha256_length)

lemma digests_ne: "digests ls \<Longrightarrow> l \<in> set ls \<Longrightarrow> l \<noteq> []"
  by (auto simp: digests_def)

section \<open>Gossip as a machine\<close>

lemma Verify_SignSTH: "ed_keypair P key \<Longrightarrow> sth_Verify P (Some (SignSTH P key rt n ts)) (ed_public key)"
  by (simp add: sth_Verify_def SignSTH_def Let_def ed_sign_nonempty sthBytes_def ed_sign_verify)

lemma SignSTH_sel [simp]:
  "TreeSize (SignSTH P key rt n ts) = n" "sth_Root (SignSTH P key rt n ts) = rt"
  by (simp_all add: SignSTH_def Let_def)

definition gossip_step :: "prims \<Rightarrow> SignedTreeHead option \<times> bytes list \<times> int \<Rightarrow> GossipNode \<Rightarrow> GossipNode" where
  "gossip_step P ob g = (case ob of (so, prf, start) \<Rightarrow> snd (Observe P so prf start g))"

definition gossip_inv :: "prims \<Rightarrow> GossipNode \<Rightarrow> bool" where
  "gossip_inv P g \<longleftrightarrow> (g_trusted g \<noteq> None \<longrightarrow> sth_Verify P (g_trusted g) (g_pub g))"

definition gossip_le :: "GossipNode \<Rightarrow> GossipNode \<Rightarrow> bool" where
  "gossip_le g g' \<longleftrightarrow> g_pub g' = g_pub g \<and>
     (\<forall>t. g_trusted g = Some t \<and> 0 < TreeSize t \<longrightarrow> (\<exists>t'. g_trusted g' = Some t' \<and> TreeSize t \<le> TreeSize t'))"

lemmas Observe_splits = option.splits if_splits

interpretation gossip: growing_machine "gossip_step P" "gossip_inv P" gossip_le for P
proof
  show "gossip_inv P s \<Longrightarrow> gossip_inv P (gossip_step P a s)" for s a
    by (auto simp: gossip_inv_def gossip_step_def Observe_def Let_def split: prod.splits Observe_splits)
  show "gossip_le s (gossip_step P a s)" for s a
    by (auto simp: gossip_le_def gossip_step_def Observe_def Let_def split: prod.splits Observe_splits)
  show "gossip_le s s" for s by (auto simp: gossip_le_def)
  show "gossip_le s t \<Longrightarrow> gossip_le t u \<Longrightarrow> gossip_le s u" for s t u
    by (fastforce simp: gossip_le_def)
qed

text \<open>An honest log \<open>ls\<close> answering an observer: the signed head at size \<open>n\<close> and the proof it asks for.\<close>

definition honest_proof :: "prims \<Rightarrow> bytes list \<Rightarrow> nat \<Rightarrow> GossipNode \<Rightarrow> bytes list" where
  "honest_proof P ls n g = (case g_trusted g of None \<Rightarrow> []
     | Some t \<Rightarrow> (case ConsistencyProof (sha256 P) \<lparr>leaves = ls\<rparr> (TreeSize t) (int n) of
         Inl _ \<Rightarrow> [] | Inr (_, _, pf) \<Rightarrow> pf))"

definition trusted_size :: "GossipNode \<Rightarrow> int" where
  "trusted_size g = (case g_trusted g of None \<Rightarrow> 0 | Some t \<Rightarrow> TreeSize t)"

definition honest_observe ::
  "prims \<Rightarrow> bytes \<Rightarrow> bytes list \<Rightarrow> nat \<times> int \<Rightarrow> GossipNode \<Rightarrow> (bool \<times> bool) \<times> GossipNode" where
  "honest_observe P key ls h g = (case h of (n, ts) \<Rightarrow>
     Observe P (Some (SignSTH P key (Root (sha256 P) \<lparr>leaves = take n ls\<rparr>) (int (min n (length ls))) ts))
       (honest_proof P ls (min n (length ls)) g) (trusted_size g) g)"

text \<open>What an observer that saw honest heads only trusts.\<close>

definition honest_trust :: "prims \<Rightarrow> bytes \<Rightarrow> bytes list \<Rightarrow> GossipNode \<Rightarrow> bool" where
  "honest_trust P key ls g \<longleftrightarrow> g_pub g = ed_public key \<and> g_alarm g = Healthy \<and>
     (\<forall>t. g_trusted g = Some t \<longrightarrow> 0 \<le> TreeSize t \<and> TreeSize t \<le> int (length ls)
        \<and> sth_Root t = mth (sha256 P) ls 0 (nat (TreeSize t)))"

lemma honest_root: "Root sha \<lparr>leaves = take n ls\<rparr> = mth sha ls 0 (min n (length ls))"
  by (metis Root_take min.cobounded2 take_all_iff min_def linorder_linear)

lemma honest_consistent:
  assumes "sha_ok P" "digests ls" "0 < m" "m < n" "n \<le> length ls"
  shows "ConsistencyProof (sha256 P) \<lparr>leaves = ls\<rparr> (int m) (int n) =
      Inr (mth (sha256 P) ls 0 m, mth (sha256 P) ls 0 n, consPath (sha256 P) ls 0 n m True)"
    "VerifyConsistency (sha256 P) (mth (sha256 P) ls 0 m) (mth (sha256 P) ls 0 n) (int m) (int n)
      (consPath (sha256 P) ls 0 n m True)"
  using assms consistency_complete [of m n ls "sha256 P"] digests_ne [of ls] sha256_nonempty [of P]
  by (auto simp: ConsistencyProof_def)

lemma honest_observe_step:
  assumes "sha_ok P" "ed_keypair P key" "digests ls" "honest_trust P key ls g"
  shows "fst (honest_observe P key ls h g) = (True, False) \<and> honest_trust P key ls (snd (honest_observe P key ls h g))"
proof -
  obtain n ts where h: "h = (n, ts)" by (cases h)
  define k where "k = min n (length ls)"
  have kl: "k \<le> length ls" by (simp add: k_def)
  let ?s = "SignSTH P key (mth (sha256 P) ls 0 k) (int k) ts"
  have v: "sth_Verify P (Some ?s) (ed_public key)" using Verify_SignSTH assms(2) .
  have eq: "honest_observe P key ls h g = Observe P (Some ?s) (honest_proof P ls k g) (trusted_size g) g"
    by (simp add: honest_observe_def h k_def honest_root)
  show ?thesis
  proof (cases "g_trusted g")
    case None
    with v assms(4) kl show ?thesis
      unfolding eq by (auto simp: Observe_def honest_trust_def Let_def)
  next
    case (Some t)
    then obtain m where m: "TreeSize t = int m" "m \<le> length ls" "sth_Root t = mth (sha256 P) ls 0 m"
      using assms(4) unfolding honest_trust_def by (metis nat_int of_nat_le_iff zero_le_imp_eq_int)
    have "VerifyConsistency (sha256 P) (sth_Root t) (sth_Root ?s) (TreeSize t) (int k) (honest_proof P ls k g)"
      if "0 < m" "m < k"
      using honest_consistent [OF assms(1,3) that kl] m Some by (simp add: honest_proof_def)
    then show ?thesis using v assms(4) kl Some m
      unfolding eq by (auto simp: Observe_def honest_trust_def trusted_size_def Let_def)
  qed
qed

definition honest_inv :: "prims \<Rightarrow> bytes \<Rightarrow> bytes list \<Rightarrow> GossipNode \<Rightarrow> bool" where
  "honest_inv P key ls g \<longleftrightarrow> sha_ok P \<and> ed_keypair P key \<and> digests ls \<and> honest_trust P key ls g"

interpretation honest_gossip: machine "\<lambda>h g. snd (honest_observe P key ls h g)" "honest_inv P key ls" for P key ls
  by unfold_locales (use honest_observe_step in \<open>auto simp: honest_inv_def\<close>)

section \<open>Properties of the proofs\<close>

text \<open>
  C13: whenever \<open>InclusionProof\<close> answers, the audit path it returns makes the stand-alone
  verifier recompute exactly the root it returns, which is the root of the log cut to \<open>sz\<close> entries.
\<close>

theorem ct_inclusion_complete:
  assumes "InclusionProof sha m idx sz = Inr (r, pf)"
  shows "VerifyInclusion sha (leaves m ! nat idx) idx sz pf = Some r
    \<and> r = Root sha \<lparr>leaves = take (nat sz) (leaves m)\<rparr>"
proof -
  have "nat idx < nat sz" "nat sz \<le> length (leaves m)" "int (nat idx) = idx" "int (nat sz) = sz"
    "r = mth sha (leaves m) 0 (nat sz)" "pf = path sha (leaves m) 0 (nat sz) (nat idx)"
    using assms by (auto simp: InclusionProof_def split: if_splits)
  with inclusion_complete [of "nat idx" "nat sz" sha "leaves m"] show ?thesis by (simp add: Root_take)
qed

definition log3 :: MerkleLog where
  "log3 = append_all (sha256 toy) [[1], [2], [3]] NewMerkleLog"

lemma log3_leaves: "leaves log3 = map (LeafHash (sha256 toy)) [[1], [2], [3]]"
  by (simp add: log3_def append_all_leaves NewMerkleLog_def)

lemma log3_digests: "digests (leaves log3)"
  by (simp add: log3_def digests_append_all toy_ok)

theorem ct_inclusion_complete_witness:
  "\<exists>r pf. InclusionProof (sha256 toy) log3 2 3 = Inr (r, pf)
     \<and> VerifyInclusion (sha256 toy) (LeafHash (sha256 toy) [3]) 2 3 pf = Some r"
proof -
  obtain r pf where r: "InclusionProof (sha256 toy) log3 2 3 = Inr (r, pf)"
    by (auto simp: InclusionProof_def log3_leaves)
  from ct_inclusion_complete [OF this] r show ?thesis by (auto simp: log3_leaves)
qed

text \<open>The strings two verifier runs hash: the given proof's and the honest one's.\<close>

definition inclusion_clash ::
  "(bytes \<Rightarrow> bytes) \<Rightarrow> bytes list \<Rightarrow> int \<Rightarrow> int \<Rightarrow> bytes \<Rightarrow> bytes list \<Rightarrow> bool" where
  "inclusion_clash sha ls idx sz lh pf \<longleftrightarrow> collision sha (inc_inputs sha lh idx (sz - 1) pf)
     (inc_inputs sha (ls ! nat idx) idx (sz - 1) (path sha ls 0 (nat sz) (nat idx)))"

text \<open>
  C14: a proof that verifies against the root of a log proves the leaf that is in the log, and is
  the honest path, or the verifier's own hash inputs exhibit a SHA-256 collision.
\<close>

theorem ct_inclusion_sound:
  assumes "sha_ok P" "digests ls" "length lh = 32" "length ls = nat sz"
    and "VerifyInclusion (sha256 P) lh idx sz pf = Some (Root (sha256 P) \<lparr>leaves = ls\<rparr>)"
  shows "(lh = ls ! nat idx \<and> pf = path (sha256 P) ls 0 (nat sz) (nat idx))
    \<or> inclusion_clash (sha256 P) ls idx sz lh pf"
proof -
  have r: "int (nat idx) = idx" "int (nat sz) = sz" "nat idx < nat sz"
    using assms(5) by (auto simp: VerifyInclusion_def split: if_splits)
  moreover have "length (ls ! nat idx) = 32" using assms(2,4) r by (auto simp: digests_def)
  ultimately show ?thesis
    using inclusion_sound [of "sha256 P" lh "nat idx" "nat sz" pf ls] assms
    by (auto simp: inclusion_clash_def Root_def sha256_length)
qed

theorem ct_inclusion_sound_witness:
  "\<exists>pf. VerifyInclusion (sha256 toy) (leaves log3 ! 1) 1 3 pf = Some (Root (sha256 toy) \<lparr>leaves = leaves log3\<rparr>)
     \<and> (pf = path (sha256 toy) (leaves log3) 0 (nat 3) (nat 1)
        \<or> inclusion_clash (sha256 toy) (leaves log3) 1 3 (leaves log3 ! 1) pf)"
proof -
  let ?pf = "path (sha256 toy) (leaves log3) 0 3 1"
  have l: "length (leaves log3) = 3" by (simp add: log3_leaves)
  have "VerifyInclusion (sha256 toy) (leaves log3 ! 1) 1 3 ?pf = Some (Root (sha256 toy) \<lparr>leaves = leaves log3\<rparr>)"
    using inclusion_complete [of 1 3 "sha256 toy" "leaves log3"] by (simp add: Root_def l)
  moreover have "length (leaves log3 ! 1) = 32" using log3_digests l by (auto simp: digests_def)
  ultimately show ?thesis
    using ct_inclusion_sound [of toy "leaves log3" "leaves log3 ! 1" 3 1 ?pf] l by (auto simp: log3_digests toy_ok)
qed

text \<open>
  C15: for any two sizes of a log that only \<open>Append\<close> built, \<open>ConsistencyProof\<close> answers with the
  two roots and a proof, and the stand-alone verifier accepts it.
\<close>

theorem ct_consistency_complete:
  assumes "sha_ok P" "0 < n1" "n1 < n2" "n2 \<le> int (length es)"
  shows "\<exists>r1 r2 pf. ConsistencyProof (sha256 P) (append_all (sha256 P) es NewMerkleLog) n1 n2 = Inr (r1, r2, pf)
    \<and> r1 = Root (sha256 P) (append_all (sha256 P) (take (nat n1) es) NewMerkleLog)
    \<and> r2 = Root (sha256 P) (append_all (sha256 P) (take (nat n2) es) NewMerkleLog)
    \<and> VerifyConsistency (sha256 P) r1 r2 n1 n2 pf"
proof -
  let ?m = "append_all (sha256 P) es NewMerkleLog"
  have t: "append_all (sha256 P) (take k es) NewMerkleLog = \<lparr>leaves = take k (leaves ?m)\<rparr>" for k
    by (rule MerkleLog.equality) (simp_all add: append_all_leaves NewMerkleLog_def take_map)
  have m: "\<lparr>leaves = leaves ?m\<rparr> = ?m" by simp
  have l: "length (leaves ?m) = length es" by (simp add: append_all_leaves NewMerkleLog_def)
  have b: "0 < nat n1" "nat n1 < nat n2" "nat n2 \<le> length (leaves ?m)" "int (nat n1) = n1" "int (nat n2) = n2"
    using assms l by auto
  from honest_consistent [OF assms(1) digests_append_all [OF assms(1)] b(1-3), unfolded m b(4,5)] b(3)
    less_imp_le [OF less_le_trans [OF b(2,3)]]
  show ?thesis by (simp add: t Root_take)
qed

theorem ct_consistency_complete_witness:
  "\<exists>r1 r2 pf. ConsistencyProof (sha256 toy) (append_all (sha256 toy) [[1], [2], [3]] NewMerkleLog) 2 3 = Inr (r1, r2, pf)
     \<and> VerifyConsistency (sha256 toy) r1 r2 2 3 pf"
  using ct_consistency_complete [of toy 2 3 "[[1], [2], [3]]"] toy_ok by auto

text \<open>The strings that a consistency check and the two trees hash.\<close>

definition consistency_clash :: "(bytes \<Rightarrow> bytes) \<Rightarrow> bytes list \<Rightarrow> bytes list \<Rightarrow> bytes list \<Rightarrow> bool" where
  "consistency_clash sha old new pf \<longleftrightarrow>
     (let m = length old; N = length new; hon = consPath sha new 0 N m True;
          (fn, sn) = strip_ones (int m - 1) (int N - 1) in
      collision sha (tree_inputs sha old 0 m) (tree_inputs sha new 0 m) \<or>
      (if power_of_two_mask (int m)
       then collision sha (con_inputs sha (mth sha old 0 m) fn sn pf) (con_inputs sha (mth sha new 0 m) fn sn hon)
       else collision sha (con_inputs sha (hd pf) fn sn (tl pf)) (con_inputs sha (hd hon) fn sn (tl hon))))"

lemma consistency_clash:
  assumes "sha_ok P" "digests old" "digests new" "digests pf" "old \<noteq> []"
    and "VerifyConsistency (sha256 P) (Root (sha256 P) \<lparr>leaves = old\<rparr>) (Root (sha256 P) \<lparr>leaves = new\<rparr>)
      (int (length old)) (int (length new)) pf"
  shows "take (length old) new = old \<or> consistency_clash (sha256 P) old new pf"
proof -
  have "\<And>x. length (sha256 P x) = 32" using assms(1) by (simp add: sha256_length)
  moreover have "\<And>l. l \<in> set old \<union> set new \<Longrightarrow> length l = 32" "\<And>p. p \<in> set pf \<Longrightarrow> length p = 32"
    using assms(2-4) by (auto simp: digests_def)
  ultimately show ?thesis
    using consistency_sound [of "sha256 P" old new pf 32] assms(5,6)
    by (cases "power_of_two_mask (int (length old))")
      (auto simp: Root_def consistency_clash_def Let_def split: prod.splits)
qed



text \<open>
  \<open>InclusionProof\<close> and \<open>ConsistencyProof\<close> fail exactly outside \<open>0 \<le> idx < sz \<le> size\<close> and
  \<open>1 \<le> from < to \<le> size\<close>; the second error of \<open>InclusionProof\<close> (size below 1) is never returned.
\<close>

theorem ct_domain:
  "(InclusionProof sha m idx sz = Inl OutOfRange \<longleftrightarrow> \<not> (0 \<le> idx \<and> idx < sz \<and> sz \<le> int (log_size m)))
   \<and> InclusionProof sha m idx sz \<noteq> Inl SizeTooSmall
   \<and> (ConsistencyProof sha m n1 n2 = Inl OutOfRange \<longleftrightarrow> \<not> (1 \<le> n1 \<and> n1 < n2 \<and> n2 \<le> int (log_size m)))"
  by (auto simp: InclusionProof_def ConsistencyProof_def log_size_def)

section \<open>Properties of the observer\<close>

text \<open>
  Whatever tree heads and proofs reach an observer, in any order, the head it trusts verifies under
  the log key, and its size never shrinks.
\<close>

theorem gossip_trust:
  "gossip_inv P (fold (gossip_step P) obs (NewGossipNode pub None))
   \<and> gossip_le (fold (gossip_step P) obs (NewGossipNode pub None))
       (fold (gossip_step P) (obs @ obs') (NewGossipNode pub None))"
  using gossip.run_inv [of P "NewGossipNode pub None" obs] gossip.run_le [of P "fold (gossip_step P) obs (NewGossipNode pub None)" obs']
  by (simp add: gossip_inv_def NewGossipNode_def)

text \<open>
  An observer fed by one honest log, in any order of sizes, accepts every head and never alarms.
\<close>

theorem gossip_honest:
  assumes "sha_ok P" "ed_keypair P key" "digests ls"
  shows "let g = fold (\<lambda>h g. snd (honest_observe P key ls h g)) hs (NewGossipNode (ed_public key) None)
    in g_alarm g = Healthy \<and> fst (honest_observe P key ls h g) = (True, False)"
proof -
  have "honest_inv P key ls (fold (\<lambda>h g. snd (honest_observe P key ls h g)) hs (NewGossipNode (ed_public key) None))"
    using honest_gossip.run_inv [of P key ls "NewGossipNode (ed_public key) None" hs] assms
    by (simp add: honest_inv_def honest_trust_def NewGossipNode_def)
  then show ?thesis using honest_observe_step unfolding honest_inv_def honest_trust_def Let_def by blast
qed

theorem gossip_honest_witness:
  "g_alarm (fold (\<lambda>h g. snd (honest_observe toy (toy_key 7) (leaves log3) h g)) [(1, 10), (3, 20), (2, 30)]
     (NewGossipNode (ed_public (toy_key 7)) None)) = Healthy"
  using gossip_honest [of toy "toy_key 7" "leaves log3" "[(1, 10), (3, 20), (2, 30)]" "(1, 10)"] toy_ok toy_key_pair log3_digests
  by (simp only: Let_def)

text \<open>
  An observer that trusts the tree over \<open>old\<close> and adopts a larger head over \<open>new\<close> has checked that
  \<open>new\<close> extends \<open>old\<close> (or the hashes collide); two heads of one size with different roots raise the split-brain
  alarm and change nothing in what is trusted.
\<close>

theorem gossip_rewrite:
  assumes "sha_ok P" "digests old" "digests new" "digests prf" "old \<noteq> []"
    and "g_trusted g = Some t" "TreeSize t = int (length old)" "sth_Root t = Root (sha256 P) \<lparr>leaves = old\<rparr>"
    and "TreeSize sth = int (length new)" "sth_Root sth = Root (sha256 P) \<lparr>leaves = new\<rparr>"
    and "sth_Verify P (Some sth) (g_pub g)" "Observe P (Some sth) prf start g = ((ok, al), g')"
  shows "(g_trusted g' \<noteq> g_trusted g \<longrightarrow> take (length old) new = old \<or> consistency_clash (sha256 P) old new prf)
    \<and> (length new = length old \<and> sth_Root sth \<noteq> sth_Root t \<longrightarrow>
        al \<and> \<not> ok \<and> g_trusted g' = Some t \<and> g_alarm g' = SplitBrain (TreeSize sth))"
proof -
  have "take (length old) new = old \<or> consistency_clash (sha256 P) old new prf" if "g_trusted g' \<noteq> g_trusted g"
  proof -
    have "VerifyConsistency (sha256 P) (sth_Root t) (sth_Root sth) (TreeSize t) (TreeSize sth) prf"
      using that assms(5,6,7,11,12) by (auto simp: Observe_def Let_def split: if_splits)
    then show ?thesis using consistency_clash [OF assms(1-5)] assms(7-10) by simp
  qed
  moreover have "al \<and> \<not> ok \<and> g_trusted g' = Some t \<and> g_alarm g' = SplitBrain (TreeSize sth)"
    if "length new = length old" "sth_Root sth \<noteq> sth_Root t"
    using that assms(5,6,7,9,11,12) by (auto simp: Observe_def Let_def split: if_splits)
  ultimately show ?thesis by blast
qed

theorem gossip_rewrite_witness:
  "g_alarm (snd (Observe toy (Some (SignSTH toy (toy_key 7) (Root (sha256 toy) \<lparr>leaves = [LeafHash (sha256 toy) [2]]\<rparr>) 1 0)) [] 0
     (NewGossipNode (ed_public (toy_key 7)) (Some (SignSTH toy (toy_key 7) (Root (sha256 toy) \<lparr>leaves = [LeafHash (sha256 toy) [1]]\<rparr>) 1 0))))) = SplitBrain 1"
proof -
  let ?old = "[LeafHash (sha256 toy) [1]]" and ?new = "[LeafHash (sha256 toy) [2]]"
  let ?t = "SignSTH toy (toy_key 7) (Root (sha256 toy) \<lparr>leaves = ?old\<rparr>) 1 0"
  let ?s = "SignSTH toy (toy_key 7) (Root (sha256 toy) \<lparr>leaves = ?new\<rparr>) 1 0"
  have d: "digests ?old" "digests ?new" "digests []" by (simp_all add: digests_def LeafHash_def toy_def)
  have v: "sth_Verify toy (Some ?s) (ed_public (toy_key 7))"
    using Verify_SignSTH [OF toy_key_pair] .
  have r: "sth_Root ?s \<noteq> sth_Root ?t"
    by (simp add: Root_def LeafHash_def toy_def pad_def)
  obtain ok al g' where o: "Observe toy (Some ?s) [] 0 (NewGossipNode (ed_public (toy_key 7)) (Some ?t)) = ((ok, al), g')"
    by (metis prod.collapse)
  show ?thesis
    using gossip_rewrite [OF toy_ok(1) d _ _ _ _ _ _ _ o, of ?t] v r o by (simp add: NewGossipNode_def)
qed

text \<open>
  The comment on \<open>GossipNode\<close> says a false alarm is impossible; yet an honest, consistent larger
  head whose proof starts at another size than the trusted one raises the alarm, and is not adopted.
\<close>

theorem gossip_false_alarm:
  assumes "ed_keypair P key" "0 < m" "m < n" "n \<le> length ls" "start \<noteq> int m"
  shows "Observe P (Some (SignSTH P key (mth (sha256 P) ls 0 n) (int n) ts')) prf start
      (NewGossipNode (ed_public key) (Some (SignSTH P key (mth (sha256 P) ls 0 m) (int m) ts))) =
    ((False, True), \<lparr>g_pub = ed_public key, g_trusted = Some (SignSTH P key (mth (sha256 P) ls 0 m) (int m) ts),
      g_alarm = ProofStartsElsewhere start (int m)\<rparr>)"
  using assms Verify_SignSTH [OF assms(1)] by (simp add: Observe_def NewGossipNode_def Let_def)

theorem gossip_false_alarm_witness:
  "fst (Observe toy (Some (SignSTH toy (toy_key 7) (mth (sha256 toy) (leaves log3) 0 3) 3 0)) [] 2
      (NewGossipNode (ed_public (toy_key 7)) (Some (SignSTH toy (toy_key 7) (mth (sha256 toy) (leaves log3) 0 1) 1 0)))) = (False, True)"
  using gossip_false_alarm [of toy "toy_key 7" 1 3 "leaves log3" 2 0 "[]" 0] toy_key_pair by (simp add: log3_leaves)

end
