(* ===== verification/Chain.thy ===== *)
theory Chain
  imports Prims
begin

text \<open>
  The trust timeline of \<open>timeline.go\<close> and the chain digests of \<open>hash.go\<close>: signed events, the hash
  chain, key rotation, the council handoff, verification, fork, and the JSON form of a timeline.  The
  mutex of the Go type makes every operation one step; an operation is a function on the \<open>Timeline\<close> record.
\<close>

section \<open>Events\<close>

abbreviation EvKeyGen :: string where "EvKeyGen \<equiv> ''KEY_GEN''"
abbreviation EvIssue :: string where "EvIssue \<equiv> ''ISSUE''"
abbreviation EvRevoke :: string where "EvRevoke \<equiv> ''REVOKE''"
abbreviation EvPolicyChange :: string where "EvPolicyChange \<equiv> ''POLICY_CHANGE''"
abbreviation EvRecovery :: string where "EvRecovery \<equiv> ''RECOVERY''"
abbreviation EvCommit :: string where "EvCommit \<equiv> ''COMMIT''"
abbreviation EvShardActivity :: string where "EvShardActivity \<equiv> ''SHARD_ACTIVITY''"
abbreviation EvDetected :: string where "EvDetected \<equiv> ''DETECTED''"
abbreviation EvKeyRotate :: string where "EvKeyRotate \<equiv> ''KEY_ROTATE''"

record TrustEvent =
  ev_Type :: string
  ev_Timestamp :: int
  ev_Payload :: slice
  ev_ParentHash :: slice
  ev_Signature :: slice

definition ev_zero :: TrustEvent where
  "ev_zero = \<lparr>ev_Type = [], ev_Timestamp = 0, ev_Payload = None, ev_ParentHash = None, ev_Signature = None\<rparr>"

definition ev_json :: "prims \<Rightarrow> TrustEvent \<Rightarrow> json" where
  "ev_json P e = JObj
     [(''Type'', JStr (ev_Type e)), (''Timestamp'', JInt (ev_Timestamp e)),
      (''Payload'', slice_json P (ev_Payload e)), (''ParentHash'', slice_json P (ev_ParentHash e)),
      (''Signature'', slice_json P (ev_Signature e))]"

definition ev_fields :: "prims \<Rightarrow> TrustEvent field list" where
  "ev_fields P =
     [string_field ''Type'' (\<lambda>x e. e\<lparr>ev_Type := x\<rparr>), int_field ''Timestamp'' (\<lambda>x e. e\<lparr>ev_Timestamp := x\<rparr>),
      slice_field (b64_dec P) ''Payload'' (\<lambda>x e. e\<lparr>ev_Payload := x\<rparr>),
      slice_field (b64_dec P) ''ParentHash'' (\<lambda>x e. e\<lparr>ev_ParentHash := x\<rparr>),
      slice_field (b64_dec P) ''Signature'' (\<lambda>x e. e\<lparr>ev_Signature := x\<rparr>)]"

text \<open>\<open>canonical\<close> is the signed text; \<open>ev_blob\<close> is what the chain hashes.\<close>

definition canonical :: "prims \<Rightarrow> TrustEvent \<Rightarrow> bytes" where
  "canonical P e = json_text P (ev_json P (e\<lparr>ev_Signature := None\<rparr>))"

definition ev_sig :: "TrustEvent \<Rightarrow> bytes" where
  "ev_sig e = slice_bytes (ev_Signature e)"

definition ev_blob :: "prims \<Rightarrow> TrustEvent \<Rightarrow> bytes" where
  "ev_blob P e = canonical P e @ ev_sig e"

definition ev_Hash :: "prims \<Rightarrow> TrustEvent \<Rightarrow> bytes" where
  "ev_Hash P e = sha256 P (ev_blob P e)"

section \<open>Chain digests\<close>

datatype hashAlgo = algoSHA256 | algoDual

definition algoNames :: "hashAlgo \<Rightarrow> string" where
  "algoNames a = (case a of algoSHA256 \<Rightarrow> '''' | algoDual \<Rightarrow> ''dual'')"

definition algoCodes :: "string \<Rightarrow> hashAlgo option" where
  "algoCodes s = (if s = '''' then Some algoSHA256 else if s = ''sha256'' then Some algoSHA256
     else if s = ''dual'' then Some algoDual else None)"

definition hashWith :: "prims \<Rightarrow> hashAlgo \<Rightarrow> bytes \<Rightarrow> bytes" where
  "hashWith P a b = (case a of algoSHA256 \<Rightarrow> sha256 P b | algoDual \<Rightarrow> sha256 P b @ sha3_256 P b)"

section \<open>The timeline\<close>

record Timeline =
  tl_events :: "TrustEvent list"
  tl_key :: slice
  tl_pub :: bytes
  tl_start :: slice
  tl_council :: slice
  tl_rotations :: "(nat \<times> bytes) list"
  tl_algo :: hashAlgo

text \<open>
  \<open>KeyPanic\<close> is a Go panic of crypto/ed25519 on a key of the wrong length (or nil); the others are the
  errors of the code.
\<close>

datatype tl_error =
    ReadOnly
  | KeyPanic
  | CheckpointNotFound bytes
  | BadJson
  | BadPubLength nat
  | BadStartLength nat
  | BadKeyLength nat
  | BadCouncilLength nat
  | UnknownAlgo string

definition newTimeline :: "slice \<Rightarrow> hashAlgo \<Rightarrow> tl_error + Timeline" where
  "newTimeline key algo = (if length (slice_bytes key) < 32 then Inl KeyPanic
     else Inr \<lparr>tl_events = [], tl_key = key, tl_pub = ed_public (slice_bytes key),
       tl_start = Some (ed_public (slice_bytes key)), tl_council = None, tl_rotations = [], tl_algo = algo\<rparr>)"

definition NewTimeline :: "slice \<Rightarrow> tl_error + Timeline" where
  "NewTimeline key = newTimeline key algoSHA256"

definition NewDualTimeline :: "slice \<Rightarrow> tl_error + Timeline" where
  "NewDualTimeline key = newTimeline key algoDual"

definition eventDigest :: "prims \<Rightarrow> Timeline \<Rightarrow> TrustEvent \<Rightarrow> bytes" where
  "eventDigest P t e = hashWith P (tl_algo t) (ev_blob P e)"

definition Head :: "prims \<Rightarrow> Timeline \<Rightarrow> slice" where
  "Head P t = (if tl_events t = [] then None else Some (eventDigest P t (last (tl_events t))))"

definition tl_append ::
  "prims \<Rightarrow> Timeline \<Rightarrow> string \<Rightarrow> slice \<Rightarrow> int \<Rightarrow> tl_error + (bytes \<times> Timeline)" where
  "tl_append P t typ payload ts = (case tl_key t of
     None \<Rightarrow> Inl ReadOnly
   | Some k \<Rightarrow>
      if length k \<noteq> 64 then Inl KeyPanic
      else (let e0 = \<lparr>ev_Type = typ, ev_Timestamp = ts, ev_Payload = payload, ev_ParentHash = Head P t, ev_Signature = None\<rparr>;
                e = e0\<lparr>ev_Signature := Some (ed_sign P k (canonical P e0))\<rparr>
            in Inr (ev_Hash P e, t\<lparr>tl_events := tl_events t @ [e]\<rparr>)))"

definition SetCouncilPub :: "bytes \<Rightarrow> Timeline \<Rightarrow> Timeline" where
  "SetCouncilPub p t = t\<lparr>tl_council := (if p = [] then None else Some p)\<rparr>"

definition CouncilPub :: "Timeline \<Rightarrow> slice" where
  "CouncilPub t = (if slice_bytes (tl_council t) = [] then None else tl_council t)"

section \<open>The council handoff\<close>

record FrostCommit =
  fc_Epoch :: int
  fc_Checkpoint :: slice
  fc_Prev :: int
  fc_NewPub :: slice
  fc_Payload :: slice
  fc_Sig :: slice
  fc_Members :: "string list"

definition fc_zero :: FrostCommit where
  "fc_zero = \<lparr>fc_Epoch = 0, fc_Checkpoint = None, fc_Prev = 0, fc_NewPub = None, fc_Payload = None,
     fc_Sig = None, fc_Members = []\<rparr>"

definition fc_signed_members :: "prims \<Rightarrow> FrostCommit \<Rightarrow> (string \<times> json) list" where
  "fc_signed_members P c =
     [(''epoch'', JInt (fc_Epoch c)), (''checkpoint'', slice_json P (fc_Checkpoint c)),
      (''prev'', JInt (fc_Prev c)), (''new_pub'', slice_json P (fc_NewPub c)),
      (''payload'', slice_json P (fc_Payload c))]"

definition descriptor :: "prims \<Rightarrow> FrostCommit \<Rightarrow> bytes" where
  "descriptor P c = json_text P (JObj (fc_signed_members P c))"

definition fc_json :: "prims \<Rightarrow> FrostCommit \<Rightarrow> json" where
  "fc_json P c = JObj (fc_signed_members P c @
     [(''sig'', slice_json P (fc_Sig c)), (''members'', JArr (map JStr (fc_Members c)))])"

definition fc_fields :: "prims \<Rightarrow> FrostCommit field list" where
  "fc_fields P =
     [int_field ''epoch'' (\<lambda>x c. c\<lparr>fc_Epoch := x\<rparr>), slice_field (b64_dec P) ''checkpoint'' (\<lambda>x c. c\<lparr>fc_Checkpoint := x\<rparr>),
      int_field ''prev'' (\<lambda>x c. c\<lparr>fc_Prev := x\<rparr>), slice_field (b64_dec P) ''new_pub'' (\<lambda>x c. c\<lparr>fc_NewPub := x\<rparr>),
      slice_field (b64_dec P) ''payload'' (\<lambda>x c. c\<lparr>fc_Payload := x\<rparr>), slice_field (b64_dec P) ''sig'' (\<lambda>x c. c\<lparr>fc_Sig := x\<rparr>),
      strings_field ''members'' (\<lambda>x c. c\<lparr>fc_Members := x\<rparr>)]"

definition fc_Valid :: "prims \<Rightarrow> FrostCommit \<Rightarrow> bytes \<Rightarrow> int \<Rightarrow> bool" where
  "fc_Valid P c groupPub mn \<longleftrightarrow>
     (if int (length (fc_Members c)) < mn \<or> length (slice_bytes (fc_NewPub c)) \<noteq> 32 then False
      else ed_verify P groupPub (descriptor P c) (slice_bytes (fc_Sig c)))"

definition rotate_json :: "prims \<Rightarrow> bytes \<Rightarrow> json" where
  "rotate_json P p = JObj [(''pub'', slice_json P (Some p))]"

definition rotate_fields :: "prims \<Rightarrow> slice field list" where
  "rotate_fields P = [slice_field (b64_dec P) ''pub'' (\<lambda>x _. x)]"

definition RotateKey :: "prims \<Rightarrow> Timeline \<Rightarrow> bytes \<Rightarrow> int \<Rightarrow> tl_error + (bytes \<times> Timeline)" where
  "RotateKey P t newKey ts = (case tl_key t of
     None \<Rightarrow> Inl ReadOnly
   | Some k \<Rightarrow>
      if length newKey < 32 then Inl KeyPanic
      else (case tl_append P t EvKeyRotate (Some (json_text P (rotate_json P (ed_public newKey)))) ts of
          Inl e \<Rightarrow> Inl e
        | Inr (h, t') \<Rightarrow> Inr (h, t'\<lparr>tl_rotations := tl_rotations t' @ [(length (tl_events t') - 1, k)],
            tl_key := Some newKey, tl_pub := ed_public newKey\<rparr>)))"

section \<open>Verification\<close>

text \<open>
  One round of the loop of \<open>walkVerify\<close>: \<open>prev\<close> is the event before, \<open>None\<close> at index 0; the result is
  the verification key after the event, or None where the loop returns the index.
\<close>

definition link_of :: "prims \<Rightarrow> hashAlgo \<Rightarrow> TrustEvent option \<Rightarrow> slice" where
  "link_of P algo prev = map_option (\<lambda>p. hashWith P algo (ev_blob P p)) prev"

definition check_event ::
  "prims \<Rightarrow> hashAlgo \<Rightarrow> slice \<Rightarrow> TrustEvent option \<Rightarrow> bytes \<Rightarrow> TrustEvent \<Rightarrow> bytes option" where
  "check_event P algo council prev pub e =
     (if prev = None \<and> ev_ParentHash e \<noteq> None then None
      else if prev \<noteq> None \<and> \<not> bytes_equal (ev_ParentHash e) (link_of P algo prev) then None
      else
        let handoff = (if ev_Type e = EvRecovery then
              (if length (slice_bytes council) \<noteq> 32 then None
               else (case unmarshal P (fc_fields P) fc_zero (slice_bytes (ev_Payload e)) of
                   None \<Rightarrow> None
                 | Some fc \<Rightarrow>
                     if \<not> fc_Valid P fc (slice_bytes council) 1 then None
                     else if \<not> bytes_equal (fc_Checkpoint fc) (link_of P algo prev) then None
                     else Some (slice_bytes (fc_NewPub fc))))
            else Some pub)
        in case handoff of None \<Rightarrow> None
           | Some pub1 \<Rightarrow>
              if \<not> ed_verify P pub1 (canonical P e) (ev_sig e) then None
              else if ev_Type e = EvKeyRotate then
                (case unmarshal P (rotate_fields P) None (slice_bytes (ev_Payload e)) of
                   None \<Rightarrow> None
                 | Some p \<Rightarrow> if length (slice_bytes p) \<noteq> 32 then None else Some (slice_bytes p))
              else Some pub1)"

fun walk_from ::
  "prims \<Rightarrow> hashAlgo \<Rightarrow> slice \<Rightarrow> TrustEvent option \<Rightarrow> bytes \<Rightarrow> int \<Rightarrow> TrustEvent list \<Rightarrow> int" where
  "walk_from P algo council prev pub i [] = - 1"
| "walk_from P algo council prev pub i (e # es) =
     (case check_event P algo council prev pub e of
        None \<Rightarrow> i
      | Some pub' \<Rightarrow> walk_from P algo council (Some e) pub' (i + 1) es)"

definition walkVerify ::
  "prims \<Rightarrow> TrustEvent list \<Rightarrow> bytes \<Rightarrow> slice \<Rightarrow> hashAlgo \<Rightarrow> int \<Rightarrow> int" where
  "walkVerify P es startPub council algo n = walk_from P algo council None startPub 0 (take (nat n) es)"

definition startPub :: "Timeline \<Rightarrow> bytes" where
  "startPub t = (case tl_start t of Some s \<Rightarrow> s | None \<Rightarrow> tl_pub t)"

definition LocateBadEvent :: "prims \<Rightarrow> Timeline \<Rightarrow> int" where
  "LocateBadEvent P t =
     walkVerify P (tl_events t) (startPub t) (tl_council t) (tl_algo t) (int (length (tl_events t)))"

definition tl_Verify :: "prims \<Rightarrow> Timeline \<Rightarrow> bool" where
  "tl_Verify P t \<longleftrightarrow> LocateBadEvent P t = - 1"

definition VerifyPrefix :: "prims \<Rightarrow> Timeline \<Rightarrow> int \<Rightarrow> bool" where
  "VerifyPrefix P t n \<longleftrightarrow>
     (let n' = (if int (length (tl_events t)) < n then int (length (tl_events t)) else n)
      in walkVerify P (tl_events t) (startPub t) (tl_council t) (tl_algo t) n' = - 1)"

section \<open>Fork\<close>

text \<open>\<open>pubForPrefix\<close> over the events \<open>es = events[0..idx]\<close>.\<close>

definition pub_after :: "prims \<Rightarrow> TrustEvent \<Rightarrow> bytes \<Rightarrow> bytes" where
  "pub_after P e pub =
     (if ev_Type e = EvKeyRotate then
        (case unmarshal P (rotate_fields P) None (slice_bytes (ev_Payload e)) of
           Some p \<Rightarrow> if length (slice_bytes p) = 32 then slice_bytes p else pub | None \<Rightarrow> pub)
      else if ev_Type e = EvRecovery then
        (case unmarshal P (fc_fields P) fc_zero (slice_bytes (ev_Payload e)) of
           Some fc \<Rightarrow> if length (slice_bytes (fc_NewPub fc)) = 32 then slice_bytes (fc_NewPub fc) else pub
         | None \<Rightarrow> pub)
      else pub)"

definition pubForPrefix :: "prims \<Rightarrow> TrustEvent list \<Rightarrow> bytes \<Rightarrow> nat \<Rightarrow> bytes" where
  "pubForPrefix P es start idx = fold (pub_after P) (take (Suc idx) es) start"

definition keyAt :: "Timeline \<Rightarrow> nat \<Rightarrow> slice" where
  "keyAt t idx = (case find (\<lambda>(j, k). idx \<le> j) (tl_rotations t) of Some (j, k) \<Rightarrow> Some k | None \<Rightarrow> tl_key t)"

definition fork_index :: "prims \<Rightarrow> TrustEvent list \<Rightarrow> bytes \<Rightarrow> nat option" where
  "fork_index P es h = (let is = filter (\<lambda>i. ev_Hash P (es ! i) = h) [0..<length es]
     in if is = [] then None else Some (last is))"

definition Fork :: "prims \<Rightarrow> Timeline \<Rightarrow> bytes \<Rightarrow> tl_error + Timeline" where
  "Fork P t atHash = (case fork_index P (tl_events t) atHash of
     None \<Rightarrow> Inl (CheckpointNotFound atHash)
   | Some idx \<Rightarrow>
      (let st = pubForPrefix P (tl_events t) (startPub t) idx in
       Inr \<lparr>tl_events = take (Suc idx) (tl_events t), tl_key = keyAt t idx, tl_pub = st, tl_start = Some st,
         tl_council = tl_council t, tl_rotations = [], tl_algo = tl_algo t\<rparr>))"

section \<open>The JSON form\<close>

record timelineFile =
  tf_Events :: "TrustEvent list"
  tf_Pub :: slice
  tf_StartPub :: slice
  tf_CouncilPub :: slice
  tf_Key :: slice
  tf_HashAlgo :: string

definition tf_zero :: timelineFile where
  "tf_zero = \<lparr>tf_Events = [], tf_Pub = None, tf_StartPub = None, tf_CouncilPub = None, tf_Key = None, tf_HashAlgo = []\<rparr>"

definition tf_fields :: "prims \<Rightarrow> timelineFile field list" where
  "tf_fields P =
     [structs_field (ev_fields P) ev_zero ''events'' (\<lambda>x f. f\<lparr>tf_Events := x\<rparr>),
      slice_field (b64_dec P) ''public_key'' (\<lambda>x f. f\<lparr>tf_Pub := x\<rparr>),
      slice_field (b64_dec P) ''start_pub'' (\<lambda>x f. f\<lparr>tf_StartPub := x\<rparr>),
      slice_field (b64_dec P) ''council_pub'' (\<lambda>x f. f\<lparr>tf_CouncilPub := x\<rparr>),
      slice_field (b64_dec P) ''key'' (\<lambda>x f. f\<lparr>tf_Key := x\<rparr>),
      string_field ''hash_algo'' (\<lambda>x f. f\<lparr>tf_HashAlgo := x\<rparr>)]"

text \<open>\<open>omitempty\<close> drops a member whose slice or string is empty; a nil event list is \<open>null\<close>.\<close>

definition omit_slice :: "prims \<Rightarrow> string \<Rightarrow> slice \<Rightarrow> (string \<times> json) list" where
  "omit_slice P name s = (if slice_bytes s = [] then [] else [(name, slice_json P s)])"

definition omit_string :: "string \<Rightarrow> string \<Rightarrow> (string \<times> json) list" where
  "omit_string name s = (if s = [] then [] else [(name, JStr s)])"

definition tf_json :: "prims \<Rightarrow> timelineFile \<Rightarrow> json" where
  "tf_json P f = JObj
     ([(''events'', if tf_Events f = [] then JNull else JArr (map (ev_json P) (tf_Events f))),
       (''public_key'', slice_json P (tf_Pub f))]
      @ omit_slice P ''start_pub'' (tf_StartPub f) @ omit_slice P ''council_pub'' (tf_CouncilPub f)
      @ omit_slice P ''key'' (tf_Key f) @ omit_string ''hash_algo'' (tf_HashAlgo f))"

definition tl_Marshal :: "prims \<Rightarrow> Timeline \<Rightarrow> bool \<Rightarrow> bytes" where
  "tl_Marshal P t includeKey = json_text P (tf_json P
     \<lparr>tf_Events = tl_events t, tf_Pub = Some (tl_pub t), tf_StartPub = tl_start t, tf_CouncilPub = tl_council t,
      tf_Key = (if includeKey then tl_key t else None), tf_HashAlgo = algoNames (tl_algo t)\<rparr>)"

definition UnmarshalTimeline :: "prims \<Rightarrow> bytes \<Rightarrow> tl_error + Timeline" where
  "UnmarshalTimeline P b = (case unmarshal P (tf_fields P) tf_zero b of
     None \<Rightarrow> Inl BadJson
   | Some f \<Rightarrow>
      let np = length (slice_bytes (tf_Pub f)); ns = length (slice_bytes (tf_StartPub f));
          nk = length (slice_bytes (tf_Key f)); nc = length (slice_bytes (tf_CouncilPub f)) in
      if np \<noteq> 32 then Inl (BadPubLength np)
      else if ns \<noteq> 0 \<and> ns \<noteq> 32 then Inl (BadStartLength ns)
      else if nk \<noteq> 0 \<and> nk \<noteq> 64 then Inl (BadKeyLength nk)
      else if nc \<noteq> 0 \<and> nc \<noteq> 32 then Inl (BadCouncilLength nc)
      else (case algoCodes (tf_HashAlgo f) of None \<Rightarrow> Inl (UnknownAlgo (tf_HashAlgo f))
        | Some algo \<Rightarrow> Inr
           \<lparr>tl_events = tf_Events f, tl_key = tf_Key f, tl_pub = slice_bytes (tf_Pub f),
            tl_start = (if ns = 32 then tf_StartPub f else tf_Pub f),
            tl_council = (if nc = 32 then tf_CouncilPub f else None), tl_rotations = [], tl_algo = algo\<rparr>))"

end
