(* ===== verification/ChainProps.thy ===== *)
theory ChainProps
  imports Chain
begin

text \<open>
  What the timeline promises: the JSON round trips, the meaning of \<open>walkVerify\<close> (a fold of
  \<open>check_event\<close>), that every sequence of appends, rotations and handoffs keeps a chain that verifies,
  that the head digest commits to the whole chain, and how far \<open>Fork\<close> keeps verification.
\<close>

section \<open>JSON round trips\<close>

lemmas decode_eval = decode_struct_def field_defs same_key_def lower_def Let_def

lemma ev_roundtrip:
  assumes "json_ok P" "int64 (ev_Timestamp e)"
  shows "decode_struct (ev_fields P) ev_zero (ev_json P e) = Some e"
  using assms by (simp add: decode_eval ev_json_def ev_fields_def ev_zero_def)

lemma fc_roundtrip:
  assumes "json_ok P" "int64 (fc_Epoch c)" "int64 (fc_Prev c)"
  shows "decode_struct (fc_fields P) fc_zero (fc_json P c) = Some c"
  using assms by (simp add: decode_eval fc_json_def fc_signed_members_def fc_fields_def fc_zero_def)

lemma rotate_roundtrip:
  "json_ok P \<Longrightarrow> decode_struct (rotate_fields P) None (rotate_json P p) = Some (Some p)"
  by (simp add: decode_eval rotate_json_def rotate_fields_def)

lemma ascii_lits:
  "ascii ''Type''" "ascii ''Timestamp''" "ascii ''Payload''" "ascii ''ParentHash''" "ascii ''Signature''"
  "ascii ''epoch''" "ascii ''checkpoint''" "ascii ''prev''" "ascii ''new_pub''" "ascii ''payload''" "ascii ''sig''"
  "ascii ''members''" "ascii ''pub''" "ascii ''events''" "ascii ''public_key''" "ascii ''start_pub''"
  "ascii ''council_pub''" "ascii ''key''" "ascii ''hash_algo''" "ascii ''dual''"
  by (simp_all add: ascii_def)

lemma ev_plain: "json_ok P \<Longrightarrow> ascii (ev_Type e) \<Longrightarrow> plain (ev_json P e)"
  by (simp add: ev_json_def ascii_lits)

lemma fc_plain: "json_ok P \<Longrightarrow> \<forall>m \<in> set (fc_Members c). ascii m \<Longrightarrow> plain (fc_json P c)"
  by (auto simp: fc_json_def fc_signed_members_def ascii_lits)

lemma rotate_plain: "json_ok P \<Longrightarrow> plain (rotate_json P p)"
  by (simp add: rotate_json_def ascii_lits)

lemma fc_unmarshal:
  assumes "json_ok P" "int64 (fc_Epoch c)" "int64 (fc_Prev c)" "\<forall>m \<in> set (fc_Members c). ascii m"
  shows "unmarshal P (fc_fields P) fc_zero (json_text P (fc_json P c)) = Some c"
  using assms by (simp add: unmarshal_text fc_plain fc_roundtrip)

lemma rotate_unmarshal:
  "json_ok P \<Longrightarrow> unmarshal P (rotate_fields P) None (json_text P (rotate_json P p)) = Some (Some p)"
  by (simp add: unmarshal_text rotate_plain rotate_roundtrip)

text \<open>The signed text determines the event up to its signature.\<close>

lemma canonical_inject:
  assumes "json_ok P" "ascii (ev_Type e)" "ascii (ev_Type e')" "canonical P e = canonical P e'"
  shows "e\<lparr>ev_Signature := None\<rparr> = e'\<lparr>ev_Signature := None\<rparr>"
  using assms unfolding canonical_def
  by (subst (asm) json_text_inject) (auto simp: ev_plain, auto simp: ev_json_def slice_json_inject)

text \<open>The two members of the timeline file that can be dropped, in any combination.\<close>

definition ev_wf :: "TrustEvent \<Rightarrow> bool" where
  "ev_wf e \<longleftrightarrow> int64 (ev_Timestamp e) \<and> ascii (ev_Type e)"

lemma decode_events:
  "json_ok P \<Longrightarrow> \<forall>e \<in> set es. ev_wf e \<Longrightarrow> those (map (decode_struct (ev_fields P) ev_zero) (map (ev_json P) es)) = Some es"
  by (induction es) (auto simp: ev_roundtrip ev_wf_def)

lemma decode_members_append:
  "decode_members fs (xs @ ys) r = Option.bind (decode_members fs xs r) (decode_members fs ys)"
  by (induction fs xs r rule: decode_members.induct) (auto split: option.splits)

lemma tf_members:
  assumes "json_ok P"
  shows "decode_members (tf_fields P) (omit_slice P ''start_pub'' s) f = Some (f\<lparr>tf_StartPub := if slice_bytes s = [] then tf_StartPub f else s\<rparr>)"
    "decode_members (tf_fields P) (omit_slice P ''council_pub'' s) f = Some (f\<lparr>tf_CouncilPub := if slice_bytes s = [] then tf_CouncilPub f else s\<rparr>)"
    "decode_members (tf_fields P) (omit_slice P ''key'' s) f = Some (f\<lparr>tf_Key := if slice_bytes s = [] then tf_Key f else s\<rparr>)"
    "decode_members (tf_fields P) (omit_string ''hash_algo'' h) f = Some (f\<lparr>tf_HashAlgo := if h = [] then tf_HashAlgo f else h\<rparr>)"
    "decode_members (tf_fields P) [(''public_key'', slice_json P s)] f = Some (f\<lparr>tf_Pub := s\<rparr>)"
  using assms by (auto simp: omit_slice_def omit_string_def decode_eval tf_fields_def)

lemma tf_event_member:
  assumes "json_ok P" "\<forall>e \<in> set es. ev_wf e"
  shows "decode_members (tf_fields P) [(''events'', if es = [] then JNull else JArr (map (ev_json P) es))] f = Some (f\<lparr>tf_Events := es\<rparr>)"
  using decode_events [OF assms] by (auto simp: decode_eval tf_fields_def simp del: map_map)

text \<open>What \<open>Marshal\<close> keeps: a timeline whose keys have their lengths, without its rotated-away keys.\<close>

definition len_in :: "slice \<Rightarrow> nat \<Rightarrow> bool" where
  "len_in s n \<longleftrightarrow> (case s of None \<Rightarrow> True | Some b \<Rightarrow> length b = n)"

definition tl_wf :: "Timeline \<Rightarrow> bool" where
  "tl_wf t \<longleftrightarrow> (\<forall>e \<in> set (tl_events t). ev_wf e) \<and> length (tl_pub t) = 32 \<and> len_in (tl_start t) 32
     \<and> len_in (tl_council t) 32 \<and> len_in (tl_key t) 64"

lemma plain_tf:
  assumes "json_ok P" "\<forall>e \<in> set (tf_Events f). ev_wf e" "ascii (tf_HashAlgo f)"
  shows "plain (tf_json P f)"
  using assms by (auto simp: tf_json_def omit_slice_def omit_string_def ascii_lits ev_plain ev_wf_def)

lemma tf_roundtrip:
  assumes "json_ok P" "\<forall>e \<in> set (tf_Events f). ev_wf e" "ascii (tf_HashAlgo f)"
    "tf_StartPub f \<noteq> Some []" "tf_CouncilPub f \<noteq> Some []" "tf_Key f \<noteq> Some []"
  shows "unmarshal P (tf_fields P) tf_zero (json_text P (tf_json P f)) = Some f"
proof -
  have n: "slice_bytes s = [] \<longleftrightarrow> s = None" if "s \<noteq> Some []" for s
    using that by (cases s) auto
  have "unmarshal P (tf_fields P) tf_zero (json_text P (tf_json P f)) = decode_members (tf_fields P)
     ([(''events'', if tf_Events f = [] then JNull else JArr (map (ev_json P) (tf_Events f)))]
      @ [(''public_key'', slice_json P (tf_Pub f))]
      @ omit_slice P ''start_pub'' (tf_StartPub f) @ omit_slice P ''council_pub'' (tf_CouncilPub f)
      @ omit_slice P ''key'' (tf_Key f) @ omit_string ''hash_algo'' (tf_HashAlgo f)) tf_zero"
    unfolding unmarshal_text [OF assms(1) plain_tf [OF assms(1-3)]] by (simp add: decode_struct_def tf_json_def)
  also have "\<dots> = Some f"
    unfolding decode_members_append tf_members [OF assms(1)] tf_event_member [OF assms(1,2)] bind.bind_lunit
    using n [OF assms(4)] n [OF assms(5)] n [OF assms(6)] by (simp add: tf_zero_def)
  finally show ?thesis .
qed

lemma algo_codes [simp]: "algoCodes (algoNames a) = Some a"
  by (cases a) (simp_all add: algoCodes_def algoNames_def)

lemma ascii_algo [simp]: "ascii (algoNames a)"
  by (cases a) (simp_all add: algoNames_def ascii_lits, simp add: ascii_def)

lemma unmarshal_marshal:
  assumes "json_ok P" "tl_wf t"
  shows "UnmarshalTimeline P (tl_Marshal P t b) =
    Inr (t\<lparr>tl_start := Some (startPub t), tl_key := (if b then tl_key t else None), tl_rotations := []\<rparr>)"
proof -
  have r: "unmarshal P (tf_fields P) tf_zero (tl_Marshal P t b) = Some
     \<lparr>tf_Events = tl_events t, tf_Pub = Some (tl_pub t), tf_StartPub = tl_start t, tf_CouncilPub = tl_council t,
      tf_Key = (if b then tl_key t else None), tf_HashAlgo = algoNames (tl_algo t)\<rparr>"
    unfolding tl_Marshal_def using assms by (subst tf_roundtrip) (auto simp: tl_wf_def len_in_def split: option.splits)
  show ?thesis
    unfolding UnmarshalTimeline_def r using assms(2)
    by (auto simp: Let_def startPub_def tl_wf_def len_in_def split: option.splits)
qed

section \<open>Walking the chain\<close>

text \<open>The key that is current after a stretch of events, None when one of them is bad.\<close>

fun walk_key :: "prims \<Rightarrow> hashAlgo \<Rightarrow> slice \<Rightarrow> TrustEvent option \<Rightarrow> bytes \<Rightarrow> TrustEvent list \<Rightarrow> bytes option" where
  "walk_key P a c prev pub [] = Some pub"
| "walk_key P a c prev pub (e # es) =
     (case check_event P a c prev pub e of None \<Rightarrow> None | Some pub' \<Rightarrow> walk_key P a c (Some e) pub' es)"

definition last_ev :: "TrustEvent option \<Rightarrow> TrustEvent list \<Rightarrow> TrustEvent option" where
  "last_ev prev es = (if es = [] then prev else Some (last es))"

lemma walk_key_append:
  "walk_key P a c prev pub (xs @ ys) =
     (case walk_key P a c prev pub xs of None \<Rightarrow> None | Some p \<Rightarrow> walk_key P a c (last_ev prev xs) p ys)"
  by (induction P a c prev pub xs rule: walk_key.induct) (auto simp: last_ev_def split: option.splits)

lemma walk_from_ok: "0 \<le> i \<Longrightarrow> walk_from P a c prev pub i es = - 1 \<longleftrightarrow> walk_key P a c prev pub es \<noteq> None"
  by (induction P a c prev pub i es rule: walk_from.induct) (auto split: option.splits)

lemma walk_from_bad:
  assumes "0 \<le> i"
  shows "walk_from P a c prev pub i es = i + int n \<longleftrightarrow>
    n < length es \<and> walk_key P a c prev pub (take n es) \<noteq> None \<and> walk_key P a c prev pub (take (Suc n) es) = None"
  using assms
proof (induction P a c prev pub i es arbitrary: n rule: walk_from.induct)
  case (2 P a c prev pub i e es)
  show ?case
  proof (cases n)
    case 0
    have "walk_from P a c (Some e) p (i + 1) es \<noteq> i" for p
    proof -
      have "walk_from P a c x q k es = - 1 \<or> k \<le> walk_from P a c x q k es" for x q k
        by (induction P a c x q k es rule: walk_from.induct) (fastforce split: option.splits)+
      from this [of "Some e" p "i + 1"] show ?thesis using 2(2) by linarith
    qed
    then show ?thesis using 0 by (auto split: option.splits)
  next
    case (Suc m)
    have e: "i + int n = i + 1 + int m" using Suc by simp
    show ?thesis
    proof (cases "check_event P a c prev pub e")
      case None
      with Suc show ?thesis by auto
    next
      case (Some p)
      with 2(1) [OF Some, of m] 2(2) Suc show ?thesis unfolding e by simp
    qed
  qed
qed auto

definition chain_key :: "prims \<Rightarrow> Timeline \<Rightarrow> bytes option" where
  "chain_key P t = walk_key P (tl_algo t) (tl_council t) None (startPub t) (tl_events t)"

lemma tl_Verify_key: "tl_Verify P t \<longleftrightarrow> chain_key P t \<noteq> None"
  by (simp add: tl_Verify_def LocateBadEvent_def walkVerify_def walk_from_ok chain_key_def)

lemma VerifyPrefix_key:
  "VerifyPrefix P t n \<longleftrightarrow> walk_key P (tl_algo t) (tl_council t) None (startPub t) (take (nat n) (tl_events t)) \<noteq> None"
  by (auto simp: VerifyPrefix_def walkVerify_def walk_from_ok Let_def)

lemma VerifyPrefix_all: "VerifyPrefix P t (int (length (tl_events t))) \<longleftrightarrow> tl_Verify P t"
  by (simp add: VerifyPrefix_key tl_Verify_key chain_key_def)

lemma VerifyPrefix_mono:
  assumes "VerifyPrefix P t n" "m \<le> n" shows "VerifyPrefix P t m"
proof -
  have "take (nat n) (tl_events t) = take (nat m) (tl_events t) @ take (nat n - nat m) (drop (nat m) (tl_events t))"
    using assms(2) by (metis le_add_diff_inverse nat_mono take_add)
  then show ?thesis using assms(1) unfolding VerifyPrefix_key
    by (auto simp: walk_key_append split: option.splits)
qed

lemma LocateBadEvent_iff:
  "LocateBadEvent P t = int n \<longleftrightarrow> n < length (tl_events t) \<and> VerifyPrefix P t (int n) \<and> \<not> VerifyPrefix P t (int n + 1)"
  using walk_from_bad [of 0 P "tl_algo t" "tl_council t" None "startPub t" "tl_events t" n]
  by (simp add: LocateBadEvent_def walkVerify_def VerifyPrefix_key nat_add_distrib)

section \<open>A timeline in use\<close>

text \<open>
  The steps of a writer: \<open>Append\<close> of ordinary events, \<open>RotateKey\<close>, the council handoff as the recovery
  code performs it (the new key is installed, then the \<open>RECOVERY\<close> event is appended), and
  \<open>SetCouncilPub\<close> before any handoff is in the chain.
\<close>

definition handoff :: "prims \<Rightarrow> Timeline \<Rightarrow> FrostCommit \<Rightarrow> bytes \<Rightarrow> int \<Rightarrow> tl_error + (bytes \<times> Timeline)" where
  "handoff P t fc newKey ts =
     tl_append P (t\<lparr>tl_key := Some newKey, tl_pub := ed_public newKey\<rparr>) EvRecovery (Some (json_text P (fc_json P fc))) ts"

definition fc_wf :: "FrostCommit \<Rightarrow> bool" where
  "fc_wf fc \<longleftrightarrow> int64 (fc_Epoch fc) \<and> int64 (fc_Prev fc) \<and> (\<forall>m \<in> set (fc_Members fc). ascii m)"

definition handoff_ok :: "prims \<Rightarrow> Timeline \<Rightarrow> FrostCommit \<Rightarrow> bytes \<Rightarrow> bool" where
  "handoff_ok P t fc newKey \<longleftrightarrow> fc_wf fc \<and> length (slice_bytes (tl_council t)) = 32
     \<and> fc_Valid P fc (slice_bytes (tl_council t)) 1 \<and> fc_NewPub fc = Some (ed_public newKey)
     \<and> bytes_equal (fc_Checkpoint fc) (Head P t)"

inductive tl_step :: "prims \<Rightarrow> Timeline \<Rightarrow> Timeline \<Rightarrow> bool" for P where
  Appends: "tl_append P t typ payload ts = Inr (h, t') \<Longrightarrow> typ \<noteq> EvRecovery \<Longrightarrow> typ \<noteq> EvKeyRotate \<Longrightarrow> tl_step P t t'"
| Rotates: "RotateKey P t k ts = Inr (h, t') \<Longrightarrow> ed_keypair P k \<Longrightarrow> tl_step P t t'"
| HandsOff: "handoff P t fc k ts = Inr (h, t') \<Longrightarrow> ed_keypair P k \<Longrightarrow> handoff_ok P t fc k \<Longrightarrow> tl_step P t t'"
| SetsCouncil: "\<forall>e \<in> set (tl_events t). ev_Type e \<noteq> EvRecovery \<Longrightarrow> tl_step P t (SetCouncilPub p t)"

inductive_cases tl_stepE [consumes 1, case_names 1 2 3 4]: "tl_step P t t'"

definition tl_live :: "prims \<Rightarrow> Timeline \<Rightarrow> bool" where
  "tl_live P t \<longleftrightarrow> (\<exists>k. tl_key t = Some k \<and> ed_keypair P k \<and> tl_pub t = ed_public k
     \<and> tl_start t \<noteq> None \<and> chain_key P t = Some (ed_public k))"

lemma Head_link: "Head P t = link_of P (tl_algo t) (last_ev None (tl_events t))"
  by (simp add: Head_def link_of_def last_ev_def eventDigest_def)

lemma canonical_sig [simp]: "canonical P (e\<lparr>ev_Signature := s\<rparr>) = canonical P e"
  by (simp add: canonical_def)

lemma bytes_equal_refl [simp]: "bytes_equal a a"
  by (simp add: bytes_equal_def)

lemma link_None [simp]: "link_of P a prev = None \<longleftrightarrow> prev = None"
  by (simp add: link_of_def)

text \<open>An appended event is checked with the head it was chained to.\<close>

lemma tl_append_event:
  assumes "tl_append P t typ payload ts = Inr (h, t')" "tl_key t = Some k"
  obtains e where "t' = t\<lparr>tl_events := tl_events t @ [e]\<rparr>" "h = ev_Hash P e" "ev_Type e = typ" "ev_Payload e = payload"
    "ev_Timestamp e = ts"
    "ev_ParentHash e = Head P t" "ev_sig e = ed_sign P k (canonical P e)" "length k = 64"
proof (rule that)
  let ?e0 = "\<lparr>ev_Type = typ, ev_Timestamp = ts, ev_Payload = payload, ev_ParentHash = Head P t, ev_Signature = None\<rparr>"
  let ?e = "?e0\<lparr>ev_Signature := Some (ed_sign P k (canonical P ?e0))\<rparr>"
  show "t' = t\<lparr>tl_events := tl_events t @ [?e]\<rparr>" "h = ev_Hash P ?e" "length k = 64"
    using assms by (auto simp: tl_append_def Let_def split: if_splits)
  show "ev_sig ?e = ed_sign P k (canonical P ?e)"
    unfolding canonical_sig by (simp add: ev_sig_def)
qed simp_all

lemma chain_key_snoc:
  "chain_key P (t\<lparr>tl_events := tl_events t @ [e]\<rparr>) =
     (case chain_key P t of None \<Rightarrow> None
      | Some p \<Rightarrow> check_event P (tl_algo t) (tl_council t) (last_ev None (tl_events t)) p e)"
  by (auto simp: chain_key_def walk_key_append startPub_def split: option.splits)

lemma check_appended:
  assumes "ev_ParentHash e = Head P t" "ev_sig e = ed_sign P k (canonical P e)" "ed_keypair P k"
  shows "ev_Type e \<noteq> EvRecovery \<Longrightarrow> ev_Type e \<noteq> EvKeyRotate \<Longrightarrow>
      check_event P (tl_algo t) (tl_council t) (last_ev None (tl_events t)) (ed_public k) e = Some (ed_public k)"
    "json_ok P \<Longrightarrow> ev_Type e = EvKeyRotate \<Longrightarrow> ev_Payload e = Some (json_text P (rotate_json P (ed_public k'))) \<Longrightarrow>
      check_event P (tl_algo t) (tl_council t) (last_ev None (tl_events t)) (ed_public k) e = Some (ed_public k')"
    "json_ok P \<Longrightarrow> ev_Type e = EvRecovery \<Longrightarrow> ev_Payload e = Some (json_text P (fc_json P fc)) \<Longrightarrow> handoff_ok P t fc k \<Longrightarrow>
      check_event P (tl_algo t) (tl_council t) (last_ev None (tl_events t)) p e = Some (ed_public k)"
  using assms by (auto simp: check_event_def Head_link ed_sign_verify rotate_unmarshal Let_def
      handoff_ok_def fc_wf_def fc_unmarshal)

lemma walk_key_no_recovery:
  "\<forall>e \<in> set es. ev_Type e \<noteq> EvRecovery \<Longrightarrow> walk_key P a c prev pub es = walk_key P a c' prev pub es"
  by (induction P a c prev pub es rule: walk_key.induct) (auto simp: check_event_def Let_def split: option.splits)

text \<open>A handoff needs a chain that verifies, not its key: the new key takes over.\<close>

lemma handoff_live:
  assumes "json_ok P" "handoff P t fc k' ts = Inr (h, t')" "ed_keypair P k'" "handoff_ok P t fc k'"
    and "tl_start t \<noteq> None" "chain_key P t = Some p"
  shows "tl_live P t'"
proof -
  let ?t = "t\<lparr>tl_key := Some k', tl_pub := ed_public k'\<rparr>"
  have same: "Head P ?t = Head P t" "chain_key P ?t = chain_key P t" "handoff_ok P ?t fc k' = handoff_ok P t fc k'"
    using assms(5) by (auto simp: Head_def eventDigest_def chain_key_def startPub_def handoff_ok_def)
  from tl_append_event [OF assms(2) [unfolded handoff_def], of k'] obtain e where e: "t' = ?t\<lparr>tl_events := tl_events ?t @ [e]\<rparr>"
      "ev_Type e = EvRecovery" "ev_Payload e = Some (json_text P (fc_json P fc))"
      "ev_ParentHash e = Head P ?t" "ev_sig e = ed_sign P k' (canonical P e)" by auto
  have "chain_key P t' = Some (ed_public k')"
    using check_appended(3) [OF e(4,5) assms(3,1) e(2,3), of p] assms(4,6) same
    unfolding e(1) chain_key_snoc by simp
  then show ?thesis using assms(3,5) unfolding tl_live_def e(1) by auto
qed

lemma tl_step_live:
  assumes "json_ok P" "tl_step P t t'" "tl_live P t"
  shows "tl_live P t'"
  using assms(2)
proof (cases rule: tl_stepE)
  case (1 ty payload ts h)
  from assms(3) obtain k where k: "tl_key t = Some k" "ed_keypair P k" "tl_pub t = ed_public k"
    "tl_start t \<noteq> None" "chain_key P t = Some (ed_public k)" by (auto simp: tl_live_def)
  from tl_append_event [OF 1(1) k(1)] obtain e where e: "t' = t\<lparr>tl_events := tl_events t @ [e]\<rparr>" "ev_Type e = ty"
      "ev_ParentHash e = Head P t" "ev_sig e = ed_sign P k (canonical P e)" by metis
  from check_appended(1) [OF e(3,4) k(2)] 1(2,3) e(2) k show ?thesis
    unfolding e(1) tl_live_def chain_key_snoc by simp
next
  case (2 k' ts h)
  from assms(3) obtain k where k: "tl_key t = Some k" "ed_keypair P k" "tl_pub t = ed_public k"
    "tl_start t \<noteq> None" "chain_key P t = Some (ed_public k)" by (auto simp: tl_live_def)
  let ?pl = "Some (json_text P (rotate_json P (ed_public k')))"
  from 2(1) k(1) obtain t1 where t1: "tl_append P t EvKeyRotate ?pl ts = Inr (h, t1)"
    and t': "t' = t1\<lparr>tl_rotations := tl_rotations t1 @ [(length (tl_events t1) - 1, k)], tl_key := Some k', tl_pub := ed_public k'\<rparr>"
    by (auto simp: RotateKey_def split: if_splits sum.splits)
  from tl_append_event [OF t1 k(1)] obtain e where e: "t1 = t\<lparr>tl_events := tl_events t @ [e]\<rparr>" "ev_Type e = EvKeyRotate"
      "ev_ParentHash e = Head P t" "ev_sig e = ed_sign P k (canonical P e)" "ev_Payload e = ?pl" by metis
  have "chain_key P t' = chain_key P t1" unfolding t' chain_key_def startPub_def using e(1) k(4) by auto
  also have "\<dots> = Some (ed_public k')"
    using check_appended(2) [OF e(3,4) k(2) assms(1) e(2,5)] k unfolding e(1) chain_key_snoc by simp
  finally show ?thesis using 2(2) k(4) e(1) unfolding tl_live_def t' by auto
next
  case (3 fc k' ts h)
  from assms(3) obtain k where "tl_start t \<noteq> None" "chain_key P t = Some (ed_public k)" by (auto simp: tl_live_def)
  with 3 show ?thesis by (intro handoff_live [OF assms(1) 3])
next
  case (4 p)
  have same: "startPub t' = startPub t" "tl_algo t' = tl_algo t" "tl_events t' = tl_events t"
    by (auto simp: 4(1) SetCouncilPub_def startPub_def split: option.splits)
  have "chain_key P t' = chain_key P t"
    unfolding chain_key_def same by (rule walk_key_no_recovery [OF 4(2)])
  with assms(3) show ?thesis unfolding tl_live_def by (simp add: 4(1) SetCouncilPub_def)
qed

lemma RotateKey_event:
  assumes "RotateKey P t k' ts = Inr (h, t')" "tl_key t = Some k"
  shows "\<exists>e. tl_events t' = tl_events t @ [e] \<and> ev_Type e = EvKeyRotate
    \<and> ev_Payload e = Some (json_text P (rotate_json P (ed_public k')))"
proof -
  let ?pl = "Some (json_text P (rotate_json P (ed_public k')))"
  from assms obtain t1 where t1: "tl_append P t EvKeyRotate ?pl ts = Inr (h, t1)"
    and t': "t' = t1\<lparr>tl_rotations := tl_rotations t1 @ [(length (tl_events t1) - 1, k)], tl_key := Some k', tl_pub := ed_public k'\<rparr>"
    by (auto simp: RotateKey_def split: if_splits sum.splits)
  from tl_append_event [OF t1 assms(2)] obtain e where "t1 = t\<lparr>tl_events := tl_events t @ [e]\<rparr>" "ev_Type e = EvKeyRotate"
    "ev_Payload e = ?pl" by metis
  then show ?thesis unfolding t' by auto
qed

lemma newTimeline_live: "ed_keypair P k \<Longrightarrow> \<exists>t. newTimeline (Some k) a = Inr t \<and> tl_live P t \<and> tl_algo t = a"
  by (auto simp: newTimeline_def tl_live_def chain_key_def startPub_def ed_keypair_length)

lemma tl_steps_live: "(tl_step P)\<^sup>*\<^sup>* t t' \<Longrightarrow> json_ok P \<Longrightarrow> tl_live P t \<Longrightarrow> tl_live P t'"
  by (induction rule: rtranclp_induct) (auto intro: tl_step_live)

lemma tl_live_Verify: "tl_live P t \<Longrightarrow> tl_Verify P t"
  by (auto simp: tl_live_def tl_Verify_key)

section \<open>The head commits to the chain\<close>

definition digest_collision :: "prims \<Rightarrow> hashAlgo \<Rightarrow> bytes list \<Rightarrow> bytes list \<Rightarrow> bool" where
  "digest_collision P a xs ys \<longleftrightarrow> (\<exists>x \<in> set xs. \<exists>y \<in> set ys. x \<noteq> y \<and> hashWith P a x = hashWith P a y)"

lemma hashWith_nonempty: "sha_ok P \<Longrightarrow> hashWith P a b \<noteq> []"
  by (cases a) (auto simp: hashWith_def sha256_nonempty)

lemma check_event_facts:
  assumes "check_event P a c prev pub e = Some p" "sha_ok P" "ed_ok P"
  shows "length (ev_sig e) = 64" "prev = None \<longleftrightarrow> ev_ParentHash e = None"
    "slice_bytes (ev_ParentHash e) = slice_bytes (link_of P a prev)"
proof -
  show "length (ev_sig e) = 64"
    using assms(1) ed_verify_length [OF assms(3)]
    by (auto simp: check_event_def Let_def split: if_splits option.splits)
  show "slice_bytes (ev_ParentHash e) = slice_bytes (link_of P a prev)"
    using assms(1) by (cases prev) (auto simp: check_event_def bytes_equal_def link_of_def split: if_splits)
  then show "prev = None \<longleftrightarrow> ev_ParentHash e = None"
    using assms(1) hashWith_nonempty [OF assms(2), of a, THEN not_sym]
    by (cases prev; cases "ev_ParentHash e") (auto simp: check_event_def link_of_def split: if_splits)
qed

lemma walk_key_last:
  assumes "walk_key P a c None pub (es @ [e]) = Some p"
  obtains q where "walk_key P a c None pub es = Some q" "check_event P a c (last_ev None es) q e = Some p"
  using assms by (auto simp: walk_key_append split: option.splits)

lemma event_eqI:
  assumes "json_ok P" "ascii (ev_Type e)" "ascii (ev_Type e')" "length (ev_sig e) = 64" "length (ev_sig e') = 64"
    "ev_blob P e = ev_blob P e'"
  shows "e = e'"
proof -
  have "canonical P e = canonical P e'" "ev_sig e = ev_sig e'"
    using assms(4-6) by (auto simp: ev_blob_def append_eq_append_conv)
  from canonical_inject [OF assms(1-3) this(1)] this(2) assms(4,5) show ?thesis
    by (cases e; cases e'; cases "ev_Signature e"; cases "ev_Signature e'") (auto simp: ev_sig_def)
qed

lemma chain_binding:
  assumes "sha_ok P" "ed_ok P" "json_ok P"
    and "walk_key P a c None pub es \<noteq> None" "walk_key P a c' None pub' es' \<noteq> None"
    and "\<forall>e \<in> set es \<union> set es'. ascii (ev_Type e)"
    and "link_of P a (last_ev None es) = link_of P a (last_ev None es')"
  shows "es = es' \<or> digest_collision P a (map (ev_blob P) es) (map (ev_blob P) es')"
  using assms(4-7)
proof (induction es arbitrary: es' rule: rev_induct)
  case Nil
  then show ?case by (auto simp: last_ev_def link_of_def split: if_splits)
next
  case (snoc e es)
  then have "es' \<noteq> []" by (auto simp: last_ev_def link_of_def split: if_splits)
  then obtain fs f where es': "es' = fs @ [f]" by (metis rev_exhaust)
  from snoc.prems(1) obtain p q where w: "walk_key P a c None pub es = Some q" "check_event P a c (last_ev None es) q e = Some p"
    by (auto elim: walk_key_last)
  from snoc.prems(2) obtain p' q' where w': "walk_key P a c' None pub' fs = Some q'" "check_event P a c' (last_ev None fs) q' f = Some p'"
    unfolding es' by (auto elim: walk_key_last)
  note F = check_event_facts [OF w(2) assms(1,2)] and F' = check_event_facts [OF w'(2) assms(1,2)]
  have h: "hashWith P a (ev_blob P e) = hashWith P a (ev_blob P f)"
    using snoc.prems(4) by (simp add: es' last_ev_def link_of_def)
  show ?case
  proof (cases "ev_blob P e = ev_blob P f")
    case True
    then have ef: "e = f" using event_eqI [OF assms(3)] snoc.prems(3) F(1) F'(1) es' by auto
    with F(2,3) F'(2,3) have "link_of P a (last_ev None es) = link_of P a (last_ev None fs)"
      by (cases "last_ev None es"; cases "last_ev None fs") (auto simp: link_of_def)
    from snoc.IH [OF _ _ _ this] w(1) w'(1) snoc.prems(3) show ?thesis
      unfolding es' ef by (auto simp: digest_collision_def)
  next
    case False
    with h show ?thesis unfolding es' by (auto simp: digest_collision_def)
  qed
qed

section \<open>Forks\<close>

lemma fork_index_hash:
  assumes "fork_index P es h = Some i" shows "i < length es" "ev_Hash P (es ! i) = h"
proof -
  let ?is = "filter (\<lambda>i. ev_Hash P (es ! i) = h) [0..<length es]"
  have "?is \<noteq> []" "i = last ?is" using assms by (auto simp: fork_index_def Let_def split: if_splits)
  then have "i \<in> set ?is" using last_in_set by blast
  then show "i < length es" "ev_Hash P (es ! i) = h" by auto
qed

lemma fork_index_Some:
  assumes "i < length es" shows "fork_index P es (ev_Hash P (es ! i)) \<noteq> None"
  using assms by (auto simp: fork_index_def Let_def filter_empty_conv)

definition no_key_change :: "TrustEvent list \<Rightarrow> bool" where
  "no_key_change es \<longleftrightarrow> (\<forall>e \<in> set es. ev_Type e \<noteq> EvKeyRotate \<and> ev_Type e \<noteq> EvRecovery)"

lemma pubForPrefix_same: "no_key_change (take (Suc i) es) \<Longrightarrow> pubForPrefix P es st i = st"
proof -
  have "no_key_change xs \<Longrightarrow> fold (pub_after P) xs st = st" for xs
    by (induction xs) (auto simp: no_key_change_def pub_after_def)
  then show "no_key_change (take (Suc i) es) \<Longrightarrow> ?thesis" by (simp add: pubForPrefix_def)
qed

text \<open>On a verified prefix \<open>pubForPrefix\<close> is the key that \<open>walkVerify\<close> ends with.\<close>

lemma walk_key_pub:
  "walk_key P a c prev pub es = Some p \<Longrightarrow> p = fold (pub_after P) es pub"
proof (induction P a c prev pub es rule: walk_key.induct)
  case (2 P a c prev pub e es)
  then obtain q where q: "check_event P a c prev pub e = Some q" "p = fold (pub_after P) es q"
    by (auto split: option.splits)
  have "q = pub_after P e pub"
    using q(1) by (auto simp: check_event_def pub_after_def fc_Valid_def Let_def split: if_splits option.splits)
  with q(2) show ?case by simp
qed simp

lemma walk_key_none_changed:
  "no_key_change es \<Longrightarrow> walk_key P a c prev pub es = Some p \<Longrightarrow> p = pub"
  using walk_key_pub [of P a c prev pub es p] pubForPrefix_same [of "length es" es P pub] by (simp add: pubForPrefix_def)

lemma Fork_verifies:
  assumes "fork_index P (tl_events t) h = Some i" "VerifyPrefix P t (int i + 1)" "no_key_change (take (Suc i) (tl_events t))"
  shows "\<exists>f. Fork P t h = Inr f \<and> tl_events f = take (Suc i) (tl_events t) \<and> chain_key P f = Some (startPub t) \<and> tl_pub f = startPub t"
proof -
  have e: "nat (int i + 1) = Suc i" by simp
  obtain p where "walk_key P (tl_algo t) (tl_council t) None (startPub t) (take (Suc i) (tl_events t)) = Some p"
    using assms(2) unfolding VerifyPrefix_key e by auto
  moreover from walk_key_none_changed [OF assms(3) this] have "p = startPub t" .
  ultimately show ?thesis
    using assms(1,3) by (simp add: Fork_def Let_def chain_key_def startPub_def pubForPrefix_same)
qed

section \<open>Properties\<close>

lemma LocateBadEvent_range: "LocateBadEvent P t = - 1 \<or> (\<exists>n. LocateBadEvent P t = int n)"
proof -
  have "0 \<le> i \<Longrightarrow> walk_from P a c prev pub i es = - 1 \<or> 0 \<le> walk_from P a c prev pub i es" for a c prev pub i es
    by (induction P a c prev pub i es rule: walk_from.induct) (auto split: option.splits)
  from this [OF order_refl] show ?thesis unfolding LocateBadEvent_def walkVerify_def using zero_le_imp_eq_int by blast
qed

text \<open>
  C6: from a fresh timeline, any sequence of appends, key rotations, council handoffs and (before the first
  handoff) changes of the council anchor leaves a chain that verifies in full, with the private key in hand
  matching the verification key the walk ends with.
\<close>

theorem chain_live:
  assumes "json_ok P" "ed_keypair P k" "newTimeline (Some k) algo = Inr t0" "(tl_step P)\<^sup>*\<^sup>* t0 t"
  shows "tl_Verify P t \<and> VerifyPrefix P t n \<and>
    (\<exists>k'. tl_key t = Some k' \<and> ed_keypair P k' \<and> tl_pub t = ed_public k' \<and> chain_key P t = Some (tl_pub t))"
proof -
  have "tl_live P t0" using newTimeline_live [OF assms(2), of algo] assms(3) by auto
  then have "tl_live P t" using tl_steps_live [OF assms(4,1)] by blast
  moreover have "VerifyPrefix P t n"
  proof (cases "n \<le> int (length (tl_events t))")
    case True
    then show ?thesis using tl_live_Verify [OF calculation] VerifyPrefix_mono VerifyPrefix_all by blast
  next
    case False
    then show ?thesis using tl_live_Verify [OF calculation]
      by (simp add: VerifyPrefix_key tl_Verify_key chain_key_def)
  qed
  ultimately show ?thesis using tl_live_Verify [of P t] by (auto simp: tl_live_def)
qed

definition demo0 :: Timeline where
  "demo0 = projr (newTimeline (Some (toy_key 1)) algoSHA256)"

definition demo1 :: Timeline where
  "demo1 = snd (projr (tl_append toy demo0 EvIssue (Some [1]) 10))"

definition demo2 :: Timeline where
  "demo2 = snd (projr (RotateKey toy demo1 (toy_key 2) 20))"

lemma demo0: "newTimeline (Some (toy_key 1)) algoSHA256 = Inr demo0" "tl_key demo0 = Some (toy_key 1)" "tl_live toy demo0"
  using newTimeline_live [OF toy_key_pair [of 1], of algoSHA256] by (auto simp: demo0_def newTimeline_def split: if_splits)

lemma tl_append_ok: "tl_key t = Some k \<Longrightarrow> ed_keypair P k \<Longrightarrow> \<exists>h. tl_append P t ty pl ts = Inr (h, snd (projr (tl_append P t ty pl ts)))"
  by (auto simp: tl_append_def Let_def ed_keypair_length)

lemma RotateKey_ok:
  "tl_key t = Some k \<Longrightarrow> ed_keypair P k \<Longrightarrow> ed_keypair P k' \<Longrightarrow> \<exists>h. RotateKey P t k' ts = Inr (h, snd (projr (RotateKey P t k' ts)))"
proof -
  assume k: "tl_key t = Some k" "ed_keypair P k" "ed_keypair P k'"
  from tl_append_ok [OF k(1,2)] obtain h t1
    where "tl_append P t EvKeyRotate (Some (json_text P (rotate_json P (ed_public k')))) ts = Inr (h, t1)" by blast
  with k have "\<exists>h t'. RotateKey P t k' ts = Inr (h, t')" by (simp add: RotateKey_def ed_keypair_length)
  then show "\<exists>h. RotateKey P t k' ts = Inr (h, snd (projr (RotateKey P t k' ts)))" by auto
qed

lemma demo1: "\<exists>h. tl_append toy demo0 EvIssue (Some [1]) 10 = Inr (h, demo1)" "tl_key demo1 = Some (toy_key 1)"
proof -
  obtain h where h: "tl_append toy demo0 EvIssue (Some [1]) 10 = Inr (h, demo1)"
    using tl_append_ok [OF demo0(2) toy_key_pair] unfolding demo1_def by blast
  then show "\<exists>h. tl_append toy demo0 EvIssue (Some [1]) 10 = Inr (h, demo1)" ..
  from tl_append_event [OF h demo0(2)] obtain e where "demo1 = demo0\<lparr>tl_events := tl_events demo0 @ [e]\<rparr>" by metis
  from arg_cong [OF this, of tl_key] show "tl_key demo1 = Some (toy_key 1)" using demo0(2) by simp
qed

lemma demo2: "\<exists>h. RotateKey toy demo1 (toy_key 2) 20 = Inr (h, demo2)"
  using RotateKey_ok [OF demo1(2) toy_key_pair toy_key_pair] unfolding demo2_def by blast

lemma demo_steps: "(tl_step toy)\<^sup>*\<^sup>* demo0 demo2"
proof -
  have "tl_step toy demo0 demo1" using demo1(1) by (auto intro: tl_step.Appends)
  moreover have "tl_step toy demo1 demo2" using demo2 by (auto intro: tl_step.Rotates toy_key_pair)
  ultimately show ?thesis by auto
qed

theorem chain_live_witness: "tl_Verify toy demo2 \<and> VerifyPrefix toy demo2 1"
  using chain_live [OF toy_ok(3) toy_key_pair demo0(1) demo_steps] by blast

text \<open>
  \<open>LocateBadEvent\<close> is the boundary of verification: a prefix verifies exactly when it ends at or
  before the reported index, and -1 means that all of the chain verifies.
\<close>

theorem chain_first_bad:
  "VerifyPrefix P t n = (LocateBadEvent P t = - 1 \<or> n \<le> LocateBadEvent P t)
   \<and> LocateBadEvent P t < int (length (tl_events t))"
proof (cases "LocateBadEvent P t = - 1")
  case True
  then have v: "VerifyPrefix P t (int (length (tl_events t)))" by (simp add: VerifyPrefix_all tl_Verify_def)
  have "VerifyPrefix P t n"
  proof (cases "n \<le> int (length (tl_events t))")
    case False
    with v show ?thesis by (simp add: VerifyPrefix_key)
  qed (use v VerifyPrefix_mono in blast)
  then show ?thesis using True by simp
next
  case False
  then obtain m where m: "LocateBadEvent P t = int m" using LocateBadEvent_range by blast
  then have b: "m < length (tl_events t)" "VerifyPrefix P t (int m)" "\<not> VerifyPrefix P t (int m + 1)"
    using LocateBadEvent_iff by blast+
  then have "VerifyPrefix P t n \<longleftrightarrow> n \<le> int m"
    using VerifyPrefix_mono [of P t n "int m + 1"] VerifyPrefix_mono [of P t "int m" n] by linarith
  then show ?thesis using m b(1) by simp
qed


lemma demo1_events: "\<exists>e. tl_events demo1 = [e] \<and> ev_Type e = EvIssue \<and> ev_sig e = ed_sign toy (toy_key 1) (canonical toy e)"
proof -
  from demo1 obtain h where h: "tl_append toy demo0 EvIssue (Some [1]) 10 = Inr (h, demo1)" by blast
  from tl_append_event [OF this demo0(2)] obtain e where e: "demo1 = demo0\<lparr>tl_events := tl_events demo0 @ [e]\<rparr>" "ev_Type e = EvIssue"
    "ev_sig e = ed_sign toy (toy_key 1) (canonical toy e)" by metis
  have "tl_events demo0 = []" by (simp add: demo0_def newTimeline_def toy_key_def toy_sel)
  then show ?thesis using arg_cong [OF e(1), of tl_events] e(2,3) by (intro exI [of _ e]) simp
qed

lemma demo2_events: "\<exists>e e'. tl_events demo2 = [e, e'] \<and> ev_Type e = EvIssue \<and> ev_sig e = ed_sign toy (toy_key 1) (canonical toy e)
  \<and> ev_Type e' = EvKeyRotate \<and> ev_Payload e' = Some (json_text toy (rotate_json toy (ed_public (toy_key 2))))"
proof -
  from demo2 obtain h where "RotateKey toy demo1 (toy_key 2) 20 = Inr (h, demo2)" by blast
  from RotateKey_event [OF this demo1(2)] demo1_events show ?thesis by force
qed

lemma demo2_ascii: "\<forall>e \<in> set (tl_events demo2). ascii (ev_Type e)"
  using demo2_events by (auto simp: ascii_def)


text \<open>
  A dual link binds both digests: two texts share a dual digest exactly when they collide in SHA-256
  and in SHA3-256 at once.
\<close>

theorem chain_dual:
  assumes "sha_ok P"
  shows "hashWith P algoDual x = hashWith P algoDual y \<longleftrightarrow> sha256 P x = sha256 P y \<and> sha3_256 P x = sha3_256 P y"
  using assms by (simp add: hashWith_def sha256_length append_eq_append_conv)

theorem chain_dual_witness:
  "hashWith toy algoDual [1] \<noteq> hashWith toy algoDual [2]"
  unfolding chain_dual [OF toy_ok(1)] by (simp add: toy_sel pad_def)

text \<open>
  C35: \<open>UnmarshalTimeline\<close> restores what \<open>Marshal\<close> wrote (the rotated-away keys aside), so the verdict of
  \<open>Verify\<close> survives the file, and the private key is in it only when asked for.
\<close>

theorem chain_roundtrip:
  assumes "json_ok P" "tl_wf t"
  shows "UnmarshalTimeline P (tl_Marshal P t inc) =
      Inr (t\<lparr>tl_start := Some (startPub t), tl_key := (if inc then tl_key t else None), tl_rotations := []\<rparr>)
    \<and> tl_Verify P (t\<lparr>tl_start := Some (startPub t), tl_key := (if inc then tl_key t else None), tl_rotations := []\<rparr>) = tl_Verify P t"
  using unmarshal_marshal [OF assms] by (simp add: tl_Verify_key chain_key_def startPub_def)

theorem chain_roundtrip_witness:
  "UnmarshalTimeline toy (tl_Marshal toy demo0 False) = Inr (demo0\<lparr>tl_start := Some (startPub demo0), tl_key := None, tl_rotations := []\<rparr>)"
proof -
  have "tl_wf demo0" by (simp add: demo0_def newTimeline_def toy_key_def toy_sel tl_wf_def len_in_def)
  from chain_roundtrip [OF toy_ok(3) this, of False] show ?thesis by simp
qed

text \<open>
  Forking at an event of a verified prefix in which no key changed gives a timeline with exactly
  that prefix, which verifies and goes on under the start key.
\<close>

theorem fork_verifies:
  assumes "fork_index P (tl_events t) h = Some i" "VerifyPrefix P t (int i + 1)" "no_key_change (take (Suc i) (tl_events t))"
  shows "\<exists>f. Fork P t h = Inr f \<and> tl_events f = take (Suc i) (tl_events t) \<and> tl_Verify P f \<and> tl_pub f = startPub t"
  using Fork_verifies [OF assms] by (auto simp: tl_Verify_key)

theorem fork_verifies_witness:
  "\<exists>h f. Fork toy demo1 h = Inr f \<and> tl_Verify toy f"
proof -
  obtain e where e: "tl_events demo1 = [e]" "ev_Type e = EvIssue" using demo1_events by blast
  have i: "fork_index toy (tl_events demo1) (ev_Hash toy e) = Some 0" using e(1) by (simp add: fork_index_def Let_def)
  have "tl_live toy demo1"
    using tl_step_live [OF toy_ok(3) _ demo0(3), of demo1] demo1(1) by (auto intro: tl_step.Appends)
  then have "VerifyPrefix toy demo1 (int 0 + 1)" using tl_live_Verify VerifyPrefix_all [of toy demo1] e(1) by simp
  from fork_verifies [OF i this] e show ?thesis by (auto simp: no_key_change_def)
qed

text \<open>
  When the key current at the fork point does not verify event 0 (the prefix rotated away from the
  start key), the forked timeline is bad at event 0: \<open>Fork\<close> stores the rotated key as the start key.
\<close>

theorem fork_rotation:
  assumes "fork_index P (tl_events t) h = Some i" "ev_Type (hd (tl_events t)) \<noteq> EvRecovery"
    and "\<not> ed_verify P (pubForPrefix P (tl_events t) (startPub t) i) (canonical P (hd (tl_events t))) (ev_sig (hd (tl_events t)))"
  shows "\<exists>f. Fork P t h = Inr f \<and> LocateBadEvent P f = 0 \<and> \<not> tl_Verify P f"
proof -
  from fork_index_hash(1) [OF assms(1)] obtain e es where es: "tl_events t = e # es" by (cases "tl_events t") auto
  have "check_event P a c None (pubForPrefix P (tl_events t) (startPub t) i) e = None" for a c
    using assms(2,3) by (auto simp: es check_event_def Let_def)
  then show ?thesis
    using assms(1) es by (simp add: Fork_def Let_def tl_Verify_def LocateBadEvent_def walkVerify_def startPub_def)
qed

theorem fork_rotation_witness:
  "\<exists>h f. Fork toy demo2 h = Inr f \<and> tl_Verify toy demo2 \<and> LocateBadEvent toy f = 0"
proof -
  obtain e e' where e: "tl_events demo2 = [e, e']" "ev_Type e = EvIssue" "ev_sig e = ed_sign toy (toy_key 1) (canonical toy e)"
    "ev_Type e' = EvKeyRotate" "ev_Payload e' = Some (json_text toy (rotate_json toy (ed_public (toy_key 2))))"
    using demo2_events by blast
  let ?h = "ev_Hash toy e'"
  have i: "fork_index toy (tl_events demo2) ?h = Some 1" using e(1) by (simp add: fork_index_def Let_def)
  have "pubForPrefix toy (tl_events demo2) (startPub demo2) 1 = ed_public (toy_key 2)"
    using e by (simp add: pubForPrefix_def pub_after_def rotate_unmarshal [OF toy_ok(3)])
  moreover have "\<not> ed_verify toy (ed_public (toy_key 2)) m (ed_sign toy (toy_key 1) m)" for m
    by (simp add: toy_sel toy_key_def ed_public_def pad_def)
  ultimately have nv: "\<not> ed_verify toy (pubForPrefix toy (tl_events demo2) (startPub demo2) 1)
      (canonical toy (hd (tl_events demo2))) (ev_sig (hd (tl_events demo2)))"
    using e(1,3) by simp
  have "ev_Type (hd (tl_events demo2)) \<noteq> EvRecovery" using e(1,2) by simp
  from fork_rotation [OF i this nv] tl_live_Verify [OF tl_steps_live [OF demo_steps toy_ok(3) demo0(3)]] show ?thesis by blast
qed

end
