(* ===== verification/TrustState.thy ===== *)
theory TrustState
  imports ChainProps "HOL-Library.AList"
begin

text \<open>
  The derived trust state (\<open>Fold\<close> in \<open>timeline.go\<close>), the security graph (\<open>graph.go\<close>), rollback, blast
  radius and recovery checks (\<open>rollback.go\<close>) and the state observers (\<open>consumer.go\<close>).  A Go map is an
  association list without duplicate keys, in some order; what the code ranges over is that list, so
  a statement about every list is a statement about every iteration order.
\<close>

section \<open>Payloads\<close>

record issuePayload =
  ip_CertID :: string
  ip_Identity :: string
  ip_Via :: string

definition ip_zero :: issuePayload where
  "ip_zero = \<lparr>ip_CertID = [], ip_Identity = [], ip_Via = []\<rparr>"

definition ip_fields :: "issuePayload field list" where
  "ip_fields = [string_field ''cert_id'' (\<lambda>x p. p\<lparr>ip_CertID := x\<rparr>), string_field ''identity'' (\<lambda>x p. p\<lparr>ip_Identity := x\<rparr>),
     string_field ''via'' (\<lambda>x p. p\<lparr>ip_Via := x\<rparr>)]"

definition ip_json :: "issuePayload \<Rightarrow> json" where
  "ip_json p = JObj ([(''cert_id'', JStr (ip_CertID p)), (''identity'', JStr (ip_Identity p))] @ omit_string ''via'' (ip_Via p))"

definition revoke_fields :: "string field list" where
  "revoke_fields = [string_field ''cert_id'' (\<lambda>x _. x)]"

definition revoke_json :: "string \<Rightarrow> json" where
  "revoke_json c = JObj [(''cert_id'', JStr c)]"

section \<open>Fold\<close>

record Cert =
  Identity :: string
  Revoked :: bool

type_synonym State = "(string \<times> Cert) list"

text \<open>What an event says: the certificate it issues, or revokes.\<close>

definition issue_of :: "prims \<Rightarrow> TrustEvent \<Rightarrow> issuePayload option" where
  "issue_of P e = (if ev_Type e = EvIssue then unmarshal P ip_fields ip_zero (slice_bytes (ev_Payload e)) else None)"

definition revoke_of :: "prims \<Rightarrow> TrustEvent \<Rightarrow> string option" where
  "revoke_of P e = (if ev_Type e = EvRevoke then unmarshal P revoke_fields [] (slice_bytes (ev_Payload e)) else None)"

definition fold_event :: "prims \<Rightarrow> TrustEvent \<Rightarrow> State \<Rightarrow> State" where
  "fold_event P e s =
     (if ev_Type e = EvIssue then
        (case issue_of P e of
           None \<Rightarrow> s
         | Some p \<Rightarrow>
             (case map_of s (ip_CertID p) of
                Some c \<Rightarrow> if Revoked c then s else AList.update (ip_CertID p) \<lparr>Identity = ip_Identity p, Revoked = False\<rparr> s
              | None \<Rightarrow> AList.update (ip_CertID p) \<lparr>Identity = ip_Identity p, Revoked = False\<rparr> s))
      else if ev_Type e = EvRevoke then
        (case revoke_of P e of
           None \<Rightarrow> s
         | Some cid \<Rightarrow>
             (case map_of s cid of None \<Rightarrow> s | Some c \<Rightarrow> AList.update cid (c\<lparr>Revoked := True\<rparr>) s))
      else s)"

definition Fold :: "prims \<Rightarrow> Timeline \<Rightarrow> State" where
  "Fold P t = fold (fold_event P) (tl_events t) []"

section \<open>The security graph\<close>

text \<open>\<open>edges[src][dst] = via\<close>.\<close>

type_synonym SecurityGraph = "(string \<times> (string \<times> string) list) list"

definition out_edges :: "SecurityGraph \<Rightarrow> string \<Rightarrow> (string \<times> string) list" where
  "out_edges g src = (case map_of g src of None \<Rightarrow> [] | Some m \<Rightarrow> m)"

definition AddEdge :: "SecurityGraph \<Rightarrow> string \<Rightarrow> string \<Rightarrow> string \<Rightarrow> SecurityGraph" where
  "AddEdge g src dst via = AList.update src (AList.update dst via (out_edges g src)) g"

definition targets :: "SecurityGraph \<Rightarrow> string set" where
  "targets g = (\<Union>(_, m) \<in> set g. fst ` set m)"

text \<open>The body of the search: the unseen successors of \<open>cur\<close>, in map order, are marked and queued.\<close>

fun visit :: "string list \<Rightarrow> string list \<times> string list \<Rightarrow> string list \<times> string list" where
  "visit [] sq = sq"
| "visit (d # ds) (seen, queue) =
     (if d \<in> set seen then visit ds (seen, queue) else visit ds (seen @ [d], queue @ [d]))"

lemma finite_targets: "finite (targets g)"
  by (auto simp: targets_def)

lemma out_edges_targets: "set (map fst (out_edges g x)) \<subseteq> targets g"
proof (cases "map_of g x")
  case (Some m)
  then have "(x, m) \<in> set g" by (rule map_of_SomeD)
  with Some show ?thesis by (force simp: out_edges_def targets_def)
qed (simp add: out_edges_def)

lemma visit_new:
  "\<exists>new. visit ds (seen, queue) = (seen @ new, queue @ new) \<and> set new = set ds - set seen \<and> distinct new"
proof (induction ds arbitrary: seen queue)
  case (Cons d ds)
  show ?case
  proof (cases "d \<in> set seen")
    case True
    then show ?thesis using Cons [of seen queue] by auto
  next
    case False
    from Cons [of "seen @ [d]" "queue @ [d]"] obtain new where
      "visit ds (seen @ [d], queue @ [d]) = (seen @ [d] @ new, queue @ [d] @ new)"
      "set new = set ds - set (seen @ [d])" "distinct new" by auto
    with False show ?thesis by (intro exI [of _ "d # new"]) auto
  qed
qed simp

function bfs :: "SecurityGraph \<Rightarrow> string list \<Rightarrow> string list \<Rightarrow> string list" where
  "bfs g seen [] = seen"
| "bfs g seen (cur # queue) =
     (let (seen', queue') = visit (map fst (out_edges g cur)) (seen, queue) in bfs g seen' queue')"
  by pat_completeness auto
termination
proof (relation "measures [\<lambda>(g, seen, q). card (targets g - set seen), \<lambda>(g, seen, q). length q]")
  fix g :: SecurityGraph and seen cur queue sq seen' queue'
  assume sq: "sq = visit (map fst (out_edges g cur)) (seen, queue)" "(seen', queue') = sq"
  obtain new where new: "seen' = seen @ new" "queue' = queue @ new" "set new = set (map fst (out_edges g cur)) - set seen"
    using visit_new [of "map fst (out_edges g cur)" seen queue] sq by auto
  show "((g, seen', queue'), g, seen, cur # queue)
      \<in> measures [\<lambda>(g, seen, q). card (targets g - set seen), \<lambda>(g, seen, q). length q]"
  proof (cases new)
    case Nil
    with new show ?thesis by simp
  next
    case (Cons n ns)
    have "set new \<subseteq> targets g" using out_edges_targets [of g cur] new(3) by auto
    moreover have "n \<in> set new" "n \<notin> set seen" using Cons new(3) by auto
    ultimately have "targets g - set seen' \<subset> targets g - set seen" using new(1) by auto
    then have "card (targets g - set seen') < card (targets g - set seen)"
      by (intro psubset_card_mono) (auto simp: finite_targets)
    then show ?thesis by simp
  qed
qed simp

definition Reachable :: "SecurityGraph \<Rightarrow> string \<Rightarrow> string list" where
  "Reachable g from = bfs g [from] [from]"

definition graph_event :: "prims \<Rightarrow> TrustEvent \<Rightarrow> SecurityGraph \<Rightarrow> SecurityGraph" where
  "graph_event P e g = (case issue_of P e of
     None \<Rightarrow> g
   | Some p \<Rightarrow>
      (let g1 = AddEdge g (''id:'' @ ip_Identity p) (''cert:'' @ ip_CertID p) (''issue:'' @ ip_CertID p) in
       if ip_Via p \<noteq> [] then AddEdge g1 (''cert:'' @ ip_Via p) (''cert:'' @ ip_CertID p) (''issue:'' @ ip_CertID p) else g1))"

definition BuildGraph :: "prims \<Rightarrow> Timeline \<Rightarrow> SecurityGraph" where
  "BuildGraph P t = fold (graph_event P) (tl_events t) []"

section \<open>Rollback and blast radius\<close>

text \<open>\<open>Rollback\<close> indexes the events with \<open>badIdx - 1\<close>; an index out of range is a Go panic.\<close>

datatype rb_error = Timeline_error tl_error | IndexPanic

definition Rollback :: "prims \<Rightarrow> Timeline \<Rightarrow> int \<Rightarrow> rb_error + Timeline" where
  "Rollback P t badIdx =
     (if badIdx \<le> 0 then map_sum Timeline_error id (NewTimeline (tl_key t))
      else if int (length (tl_events t)) < badIdx then Inl IndexPanic
      else map_sum Timeline_error id (Fork P t (ev_Hash P (tl_events t ! nat (badIdx - 1)))))"

definition add_key :: "string \<Rightarrow> string list \<Rightarrow> string list" where
  "add_key k ks = (if k \<in> set ks then ks else ks @ [k])"

definition window_event :: "prims \<Rightarrow> TrustEvent \<Rightarrow> string list \<times> string list \<Rightarrow> string list \<times> string list" where
  "window_event P e si = (case si of (seeds, ids) \<Rightarrow>
     (let (seeds1, ids1) = (case issue_of P e of
            Some p \<Rightarrow> (add_key (''cert:'' @ ip_CertID p) seeds, add_key (ip_Identity p) ids)
          | None \<Rightarrow> (seeds, ids))
      in case revoke_of P e of Some c \<Rightarrow> (add_key (''cert:'' @ c) seeds1, ids1) | None \<Rightarrow> (seeds1, ids1)))"

definition has_prefix :: "string \<Rightarrow> string \<Rightarrow> bool" where
  "has_prefix p s \<longleftrightarrow> take (length p) s = p"

definition trim_prefix :: "string \<Rightarrow> string \<Rightarrow> string" where
  "trim_prefix p s = (if has_prefix p s then drop (length p) s else s)"

definition InvalidationSet :: "prims \<Rightarrow> Timeline \<Rightarrow> int \<Rightarrow> (string list \<times> string list) option" where
  "InvalidationSet P t badIdx =
     (if badIdx < 0 \<or> int (length (tl_events t)) < badIdx then None
      else
        (let g = BuildGraph P t;
             (seeds, ids) = fold (window_event P) (drop (nat badIdx) (tl_events t)) ([], []);
             certs = fold (\<lambda>s cs. fold (\<lambda>node cs.
                 if has_prefix ''cert:'' node then add_key (trim_prefix ''cert:'' node) cs else cs) (Reachable g s) cs) seeds []
         in Some (certs, ids)))"

section \<open>Recovery checks\<close>

text \<open>The report's map has the two keys P3 and P5.\<close>

record VerifyReport =
  P3 :: bool
  P5 :: bool

definition Pass :: "VerifyReport option \<Rightarrow> bool" where
  "Pass r = (case r of None \<Rightarrow> False | Some r \<Rightarrow> P3 r \<and> P5 r)"

definition check_pre :: "State \<Rightarrow> string list \<Rightarrow> string \<times> Cert \<Rightarrow> VerifyReport \<Rightarrow> VerifyReport" where
  "check_pre post affected ic r = (case ic of (i, c) \<Rightarrow>
     (let pc = map_of post i;
          r1 = (if Revoked c \<and> (case pc of None \<Rightarrow> True | Some d \<Rightarrow> \<not> Revoked d \<or> Identity d \<noteq> Identity c)
                then r\<lparr>P3 := False\<rparr> else r)
      in if i \<notin> set affected \<and> (case pc of None \<Rightarrow> True | Some d \<Rightarrow> d \<noteq> c) then r1\<lparr>P5 := False\<rparr> else r1))"

definition check_post :: "State \<Rightarrow> string list \<Rightarrow> string \<times> Cert \<Rightarrow> VerifyReport \<Rightarrow> VerifyReport" where
  "check_post pre affIds ic r = (case ic of (i, pc) \<Rightarrow>
     (if map_of pre i \<noteq> None then r else if Identity pc \<notin> set affIds then r\<lparr>P5 := False\<rparr> else r))"

definition VerifyRecovery :: "State \<Rightarrow> State \<Rightarrow> string list \<Rightarrow> string list \<Rightarrow> VerifyReport" where
  "VerifyRecovery pre post affectedCerts affectedIdentities =
     fold (check_post pre affectedIdentities) post
       (fold (check_pre post affectedCerts) pre \<lparr>P3 = True, P5 = True\<rparr>)"

section \<open>Consumers\<close>

record Consumer =
  c_State :: "State option"
  Restarts :: int

record Delta =
  d_Revoked :: "string list"
  d_Issued :: "string list"

definition NewConsumer :: "State option \<Rightarrow> Consumer" where
  "NewConsumer s = \<lparr>c_State = s, Restarts = 0\<rparr>"

text \<open>\<open>Diff\<close> reads both maps; on a nil state it is a nil-pointer panic (None).\<close>

definition Diff :: "Consumer \<Rightarrow> State option \<Rightarrow> Delta option" where
  "Diff c po = (case (c_State c, po) of
     (Some cur, Some post) \<Rightarrow> Some
       \<lparr>d_Revoked = map fst (filter (\<lambda>(i, cert). case map_of post i of None \<Rightarrow> True | Some pc \<Rightarrow> Revoked cert \<noteq> Revoked pc) cur),
        d_Issued = map fst (filter (\<lambda>(i, pc). (case map_of cur i of None \<Rightarrow> [] | Some c \<Rightarrow> Identity c) \<noteq> Identity pc) post)\<rparr>
   | _ \<Rightarrow> None)"

definition ApplyDelta :: "Consumer \<Rightarrow> Delta \<Rightarrow> State option \<Rightarrow> Consumer" where
  "ApplyDelta c d post = (if c_State c = None \<or> post = None then c else c\<lparr>c_State := post\<rparr>)"

definition ApplyDiff :: "Consumer \<Rightarrow> State option \<Rightarrow> Consumer option" where
  "ApplyDiff c post = map_option (\<lambda>d. ApplyDelta c d post) (Diff c post)"

end
