(* ===== verification/TrustStateProps.thy ===== *)
theory TrustStateProps
  imports TrustState
begin

text \<open>
  What the trust state promises: revocation is sticky and read off the events, reachability is the
  closure of the edges, the blast radius is the closure of the bad window under via-edges, and the
  recovery report means what the two invariants say.
\<close>

section \<open>Fold\<close>

definition state_le :: "State \<Rightarrow> State \<Rightarrow> bool" where
  "state_le s s' \<longleftrightarrow> (\<forall>i c. map_of s i = Some c \<longrightarrow> (\<exists>c'. map_of s' i = Some c' \<and> (Revoked c \<longrightarrow> c' = c)))"

lemma update_lookup [simp]: "map_of (AList.update k v al) i = (if i = k then Some v else map_of al i)"
  by (simp add: update_conv')

interpretation trust: growing_machine "fold_event P" "\<lambda>s. distinct (map fst s)" state_le for P
proof
  show "distinct (map fst s) \<Longrightarrow> distinct (map fst (fold_event P a s))" for s a
    by (auto simp: fold_event_def distinct_update split: option.splits)
  show "state_le s (fold_event P a s)" for s a
    by (auto simp: state_le_def fold_event_def split: option.splits)
  show "state_le s s" for s by (auto simp: state_le_def)
  show "state_le s t \<Longrightarrow> state_le t u \<Longrightarrow> state_le s u" for s t u
    by (fastforce simp: state_le_def)
qed

definition revoked_in :: "State \<Rightarrow> string \<Rightarrow> bool" where
  "revoked_in s i \<longleftrightarrow> (\<exists>c. map_of s i = Some c \<and> Revoked c)"

definition issues :: "prims \<Rightarrow> string \<Rightarrow> TrustEvent \<Rightarrow> bool" where
  "issues P i e \<longleftrightarrow> (\<exists>p. issue_of P e = Some p \<and> ip_CertID p = i)"

lemma fold_event_dom: "(map_of (fold_event P e s) i \<noteq> None) = (map_of s i \<noteq> None \<or> issues P i e)"
  by (auto simp: fold_event_def issues_def issue_of_def split: option.splits)

lemma fold_event_revoked:
  "revoked_in (fold_event P e s) i = (revoked_in s i \<or> (map_of s i \<noteq> None \<and> revoke_of P e = Some i))"
  by (auto simp: fold_event_def revoked_in_def revoke_of_def split: option.splits)

lemma fold_dom: "(map_of (fold (fold_event P) es s) i \<noteq> None) = (map_of s i \<noteq> None \<or> (\<exists>e \<in> set es. issues P i e))"
proof (induction es arbitrary: s)
  case (Cons e es)
  show ?case unfolding fold.simps comp_apply Cons.IH fold_event_dom by auto
qed simp

lemma fold_revoked:
  "revoked_in (fold (fold_event P) es s) i =
     (revoked_in s i \<or> (\<exists>xs e ys. es = xs @ e # ys \<and> revoke_of P e = Some i \<and> (map_of s i \<noteq> None \<or> (\<exists>x \<in> set xs. issues P i x))))"
proof (induction es rule: rev_induct)
  case (snoc e es)
  have split: "(\<exists>xs f ys. es @ [e] = xs @ f # ys \<and> Q xs f) = (Q es e \<or> (\<exists>xs f ys. es = xs @ f # ys \<and> Q xs f))" for Q
  proof
    assume "\<exists>xs f ys. es @ [e] = xs @ f # ys \<and> Q xs f"
    then obtain xs f ys where q: "es @ [e] = xs @ f # ys" "Q xs f" by blast
    show "Q es e \<or> (\<exists>xs f ys. es = xs @ f # ys \<and> Q xs f)"
      using q by (cases ys rule: rev_cases) auto
  next
    assume "Q es e \<or> (\<exists>xs f ys. es = xs @ f # ys \<and> Q xs f)"
    then show "\<exists>xs f ys. es @ [e] = xs @ f # ys \<and> Q xs f"
    proof
      assume "Q es e"
      then show ?thesis by (intro exI [of _ es] exI [of _ e] exI [of _ "[]"]) simp
    next
      assume "\<exists>xs f ys. es = xs @ f # ys \<and> Q xs f"
      then obtain xs f ys where "es = xs @ f # ys" "Q xs f" by blast
      then show ?thesis by (intro exI [of _ xs] exI [of _ f] exI [of _ "ys @ [e]"]) simp
    qed
  qed
  have "revoked_in (fold (fold_event P) (es @ [e]) s) i =
      (revoked_in (fold (fold_event P) es s) i \<or> ((map_of s i \<noteq> None \<or> (\<exists>x \<in> set es. issues P i x)) \<and> revoke_of P e = Some i))"
    by (simp only: fold_append comp_apply fold.simps id_apply fold_event_revoked fold_dom)
  then show ?case unfolding snoc
    unfolding split [of "\<lambda>xs f. revoke_of P f = Some i \<and> (map_of s i \<noteq> None \<or> (\<exists>x \<in> set xs. issues P i x))"] by blast
qed simp

section \<open>Reachability\<close>

definition edge_rel :: "SecurityGraph \<Rightarrow> (string \<times> string) set" where
  "edge_rel g = {(a, b). b \<in> fst ` set (out_edges g a)}"

definition bfs_inv :: "SecurityGraph \<Rightarrow> string \<Rightarrow> string list \<Rightarrow> string list \<Rightarrow> bool" where
  "bfs_inv g s seen queue \<longleftrightarrow> s \<in> set seen \<and> set queue \<subseteq> set seen \<and> distinct seen
     \<and> set seen \<subseteq> (edge_rel g)\<^sup>* `` {s}
     \<and> (\<forall>x \<in> set seen - set queue. \<forall>y. (x, y) \<in> edge_rel g \<longrightarrow> y \<in> set seen)"

lemma bfs_inv_step:
  assumes "bfs_inv g s seen (cur # queue)" "visit (map fst (out_edges g cur)) (seen, queue) = (seen', queue')"
  shows "bfs_inv g s seen' queue'"
proof -
  obtain new where new: "seen' = seen @ new" "queue' = queue @ new"
    "set new = set (map fst (out_edges g cur)) - set seen" "distinct new"
    using visit_new [of "map fst (out_edges g cur)" seen queue] assms(2) by auto
  have cur: "cur \<in> set seen" "(s, cur) \<in> (edge_rel g)\<^sup>*" using assms(1) by (auto simp: bfs_inv_def)
  have succ: "(cur, y) \<in> edge_rel g \<longleftrightarrow> y \<in> set (map fst (out_edges g cur))" for y
    by (auto simp: edge_rel_def)
  have "y \<in> set seen'" if "x \<in> set seen' - set queue'" "(x, y) \<in> edge_rel g" for x y
  proof (cases "x = cur")
    case True
    then show ?thesis using that(2) succ new by auto
  next
    case False
    then show ?thesis using that assms(1) new(1,2) by (auto simp: bfs_inv_def)
  qed
  moreover have "(s, y) \<in> (edge_rel g)\<^sup>*" if "y \<in> set new" for y
    using that new(3) succ cur(2) by (auto intro: rtrancl_into_rtrancl)
  moreover have "s \<in> set seen'" "set queue' \<subseteq> set seen'" "distinct seen'"
    "set seen \<subseteq> (edge_rel g)\<^sup>* `` {s}"
    using assms(1) new by (auto simp: bfs_inv_def)
  ultimately show ?thesis unfolding bfs_inv_def new(1) by auto
qed

lemma bfs_inv_end: "bfs_inv g s seen q \<Longrightarrow> bfs_inv g s (bfs g seen q) []"
proof (induction g seen q rule: bfs.induct)
  case (2 g seen cur queue)
  obtain seen' queue' where v: "visit (map fst (out_edges g cur)) (seen, queue) = (seen', queue')" by fastforce
  from 2(1) [OF v [symmetric] refl bfs_inv_step [OF 2(2) v]] v show ?case by simp
qed simp

lemma Reachable_set: "set (Reachable g s) = (edge_rel g)\<^sup>* `` {s}" "distinct (Reachable g s)"
proof -
  have i: "bfs_inv g s (Reachable g s) []"
    unfolding Reachable_def by (rule bfs_inv_end) (auto simp: bfs_inv_def)
  then show "distinct (Reachable g s)" by (simp add: bfs_inv_def)
  have "(s, y) \<in> (edge_rel g)\<^sup>* \<Longrightarrow> y \<in> set (Reachable g s)" for y
    by (induction rule: rtrancl_induct) (use i in \<open>auto simp: bfs_inv_def\<close>)
  with i show "set (Reachable g s) = (edge_rel g)\<^sup>* `` {s}" by (auto simp: bfs_inv_def)
qed

section \<open>The graph of a timeline\<close>

lemma AddEdge_rel: "edge_rel (AddEdge g a b v) = insert (a, b) (edge_rel g)"
proof -
  have "out_edges (AddEdge g a b v) x = (if x = a then AList.update b v (out_edges g a) else out_edges g x)" for x
    by (simp add: AddEdge_def out_edges_def)
  then show ?thesis by (auto simp: edge_rel_def dom_update [symmetric] dom_map_of_conv_image_fst [symmetric]
      update_conv' split: if_splits)
qed

definition event_edges :: "prims \<Rightarrow> TrustEvent \<Rightarrow> (string \<times> string) set" where
  "event_edges P e = (case issue_of P e of None \<Rightarrow> {}
     | Some p \<Rightarrow> insert (''id:'' @ ip_Identity p, ''cert:'' @ ip_CertID p)
         (if ip_Via p \<noteq> [] then {(''cert:'' @ ip_Via p, ''cert:'' @ ip_CertID p)} else {}))"

lemma BuildGraph_rel: "edge_rel (BuildGraph P t) = (\<Union>e \<in> set (tl_events t). event_edges P e)"
proof -
  have "edge_rel (graph_event P e g) = event_edges P e \<union> edge_rel g" for e g
    by (auto simp: graph_event_def event_edges_def Let_def AddEdge_rel split: option.splits)
  then have "edge_rel (fold (graph_event P) es g) = (\<Union>e \<in> set es. event_edges P e) \<union> edge_rel g" for es g
    by (induction es arbitrary: g) auto
  then show ?thesis by (simp add: BuildGraph_def edge_rel_def out_edges_def)
qed

text \<open>Trust passed on by a certificate: \<open>(v, c)\<close> when \<open>c\<close> was issued via \<open>v\<close>.\<close>

definition via_rel :: "prims \<Rightarrow> TrustEvent list \<Rightarrow> (string \<times> string) set" where
  "via_rel P es = {(ip_Via p, ip_CertID p) |p e. e \<in> set es \<and> issue_of P e = Some p \<and> ip_Via p \<noteq> []}"

lemma cert_edges: "(''cert:'' @ v, n) \<in> edge_rel (BuildGraph P t) \<longleftrightarrow> (\<exists>c. n = ''cert:'' @ c \<and> (v, c) \<in> via_rel P (tl_events t))"
proof
  assume "(''cert:'' @ v, n) \<in> edge_rel (BuildGraph P t)"
  then obtain e p where "e \<in> set (tl_events t)" "issue_of P e = Some p" "ip_Via p \<noteq> []" "v = ip_Via p" "n = ''cert:'' @ ip_CertID p"
    by (auto simp: BuildGraph_rel event_edges_def split: option.splits if_splits)
  then show "\<exists>c. n = ''cert:'' @ c \<and> (v, c) \<in> via_rel P (tl_events t)" unfolding via_rel_def by blast
next
  assume "\<exists>c. n = ''cert:'' @ c \<and> (v, c) \<in> via_rel P (tl_events t)"
  then show "(''cert:'' @ v, n) \<in> edge_rel (BuildGraph P t)"
    by (force simp: BuildGraph_rel event_edges_def via_rel_def)
qed

lemma cert_closure:
  "(''cert:'' @ v, n) \<in> (edge_rel (BuildGraph P t))\<^sup>* \<longleftrightarrow> (\<exists>c. n = ''cert:'' @ c \<and> (v, c) \<in> (via_rel P (tl_events t))\<^sup>*)"
proof
  show "\<exists>c. n = ''cert:'' @ c \<and> (v, c) \<in> (via_rel P (tl_events t))\<^sup>*"
    if "(''cert:'' @ v, n) \<in> (edge_rel (BuildGraph P t))\<^sup>*"
    using that by (induction rule: rtrancl_induct) (auto simp: cert_edges simp del: append.simps intro: rtrancl_into_rtrancl)
next
  have "(v, c) \<in> (via_rel P (tl_events t))\<^sup>* \<Longrightarrow> (''cert:'' @ v, ''cert:'' @ c) \<in> (edge_rel (BuildGraph P t))\<^sup>*" for c
    by (induction rule: rtrancl_induct) (auto simp: cert_edges simp del: append.simps intro: rtrancl_into_rtrancl)
  then show "\<exists>c. n = ''cert:'' @ c \<and> (v, c) \<in> (via_rel P (tl_events t))\<^sup>* \<Longrightarrow> (''cert:'' @ v, n) \<in> (edge_rel (BuildGraph P t))\<^sup>*"
    by blast
qed

section \<open>The blast radius\<close>

definition window_seeds :: "prims \<Rightarrow> TrustEvent list \<Rightarrow> string set" where
  "window_seeds P es = {c. \<exists>e \<in> set es. issues P c e \<or> revoke_of P e = Some c}"

definition window_identities :: "prims \<Rightarrow> TrustEvent list \<Rightarrow> string set" where
  "window_identities P es = {ip_Identity p |p e. e \<in> set es \<and> issue_of P e = Some p}"

lemma set_add_key [simp]: "set (add_key k ks) = insert k (set ks)"
  by (auto simp: add_key_def)

lemma distinct_add_key [simp]: "distinct (add_key k ks) = distinct ks"
  by (auto simp: add_key_def)

lemma window_fold:
  "fold (window_event P) es (seeds, ids) = (seeds', ids') \<Longrightarrow>
     set seeds' = set seeds \<union> (\<lambda>c. ''cert:'' @ c) ` window_seeds P es \<and> set ids' = set ids \<union> window_identities P es
     \<and> (distinct ids \<longrightarrow> distinct ids')"
proof (induction es arbitrary: seeds ids)
  case Nil
  then show ?case by (auto simp: window_seeds_def window_identities_def)
next
  case (Cons e es)
  obtain s1 i1 where w: "window_event P e (seeds, ids) = (s1, i1)" by fastforce
  have "set s1 = set seeds \<union> (\<lambda>c. ''cert:'' @ c) ` window_seeds P [e]" "set i1 = set ids \<union> window_identities P [e]"
    "distinct ids \<longrightarrow> distinct i1"
    using w by (auto simp: window_event_def window_seeds_def window_identities_def issues_def split: option.splits)
  moreover have "window_seeds P (e # es) = window_seeds P [e] \<union> window_seeds P es"
    "window_identities P (e # es) = window_identities P [e] \<union> window_identities P es"
    by (auto simp: window_seeds_def window_identities_def)
  ultimately show ?case using Cons.IH [of s1 i1] Cons.prems w by (simp add: image_Un Un_assoc)
qed

lemma has_prefix_app [simp]: "has_prefix p (p @ s)" "trim_prefix p (p @ s) = s"
  by (simp_all add: has_prefix_def trim_prefix_def)

lemma has_prefix_iff: "has_prefix p n \<longleftrightarrow> (\<exists>c. n = p @ c)"
  by (metis append_take_drop_id has_prefix_app(1) has_prefix_def)

lemma cert_fold:
  "set (fold (\<lambda>node cs. if has_prefix p node then add_key (trim_prefix p node) cs else cs) ns cs) = set cs \<union> {c. p @ c \<in> set ns}"
proof (induction ns arbitrary: cs)
  case (Cons n ns)
  then show ?case by (cases "has_prefix p n") (auto simp: has_prefix_iff)
qed simp

lemma InvalidationSet_ok:
  assumes "0 \<le> badIdx" "badIdx \<le> int (length (tl_events t))"
  shows "\<exists>certs ids. InvalidationSet P t badIdx = Some (certs, ids)
    \<and> set certs = (via_rel P (tl_events t))\<^sup>* `` window_seeds P (drop (nat badIdx) (tl_events t))
    \<and> set ids = window_identities P (drop (nat badIdx) (tl_events t)) \<and> distinct ids"
proof -
  let ?g = "BuildGraph P t"
  obtain seeds ids where w: "fold (window_event P) (drop (nat badIdx) (tl_events t)) ([], []) = (seeds, ids)" by fastforce
  note W = window_fold [OF w]
  have "set (fold (\<lambda>s cs. fold (\<lambda>node cs. if has_prefix ''cert:'' node then add_key (trim_prefix ''cert:'' node) cs else cs)
      (Reachable ?g s) cs) ss cs0) = set cs0 \<union> {c. \<exists>s \<in> set ss. ''cert:'' @ c \<in> set (Reachable ?g s)}" for ss cs0
    by (induction ss arbitrary: cs0) (auto simp: cert_fold simp del: append.simps)
  moreover have "{c. \<exists>s \<in> set seeds. ''cert:'' @ c \<in> set (Reachable ?g s)}
      = (via_rel P (tl_events t))\<^sup>* `` window_seeds P (drop (nat badIdx) (tl_events t))"
    using W by (auto simp: Reachable_set cert_closure simp del: append.simps)
  ultimately show ?thesis using assms w W by (simp add: InvalidationSet_def Let_def)
qed

section \<open>The recovery report\<close>

definition no_resurrection :: "State \<Rightarrow> State \<Rightarrow> bool" where
  "no_resurrection pre post \<longleftrightarrow> (\<forall>(i, c) \<in> set pre. Revoked c \<longrightarrow>
     (\<exists>d. map_of post i = Some d \<and> Revoked d \<and> Identity d = Identity c))"

definition minimal_blast :: "State \<Rightarrow> State \<Rightarrow> string set \<Rightarrow> string set \<Rightarrow> bool" where
  "minimal_blast pre post certs ids \<longleftrightarrow> (\<forall>(i, c) \<in> set pre. i \<notin> certs \<longrightarrow> map_of post i = Some c)
     \<and> (\<forall>(i, d) \<in> set post. map_of pre i = None \<longrightarrow> Identity d \<in> ids)"

lemma check_pre_fold:
  "fold (check_pre post aff) xs r =
     \<lparr>P3 = (P3 r \<and> no_resurrection xs post), P5 = (P5 r \<and> (\<forall>(i, c) \<in> set xs. i \<notin> set aff \<longrightarrow> map_of post i = Some c))\<rparr>"
proof (induction xs arbitrary: r)
  case (Cons x xs)
  obtain i c where x: "x = (i, c)" by fastforce
  have "check_pre post aff x r = \<lparr>P3 = (P3 r \<and> (Revoked c \<longrightarrow> (\<exists>d. map_of post i = Some d \<and> Revoked d \<and> Identity d = Identity c))),
      P5 = (P5 r \<and> (i \<notin> set aff \<longrightarrow> map_of post i = Some c))\<rparr>"
    by (auto simp: check_pre_def x Let_def split: option.splits intro!: VerifyReport.equality)
  with Cons x show ?case by (auto simp: no_resurrection_def intro!: VerifyReport.equality)
qed (auto simp: no_resurrection_def intro!: VerifyReport.equality)

lemma check_post_fold:
  "fold (check_post pre ids) xs r =
     \<lparr>P3 = P3 r, P5 = (P5 r \<and> (\<forall>(i, d) \<in> set xs. map_of pre i = None \<longrightarrow> Identity d \<in> set ids))\<rparr>"
proof (induction xs arbitrary: r)
  case (Cons x xs)
  obtain i d where x: "x = (i, d)" by fastforce
  have "check_post pre ids x r = \<lparr>P3 = P3 r, P5 = (P5 r \<and> (map_of pre i = None \<longrightarrow> Identity d \<in> set ids))\<rparr>"
    by (auto simp: check_post_def x split: option.splits intro!: VerifyReport.equality)
  with Cons x show ?case by (auto intro!: VerifyReport.equality)
qed (auto intro!: VerifyReport.equality)

lemma VerifyRecovery_spec:
  "VerifyRecovery pre post certs ids =
     \<lparr>P3 = no_resurrection pre post, P5 = minimal_blast pre post (set certs) (set ids)\<rparr>"
  by (auto simp: VerifyRecovery_def check_pre_fold check_post_fold minimal_blast_def intro!: VerifyReport.equality)

section \<open>Properties\<close>

text \<open>
  C27: a certificate is in the folded state exactly when some event issues it, and it is revoked exactly when
  some event revokes it after an event that issued it: re-issuing never re-validates.
\<close>

theorem fold_spec:
  "(map_of (Fold P t) i \<noteq> None) = (\<exists>e \<in> set (tl_events t). issues P i e)
   \<and> revoked_in (Fold P t) i =
      (\<exists>xs e ys. tl_events t = xs @ e # ys \<and> revoke_of P e = Some i \<and> (\<exists>x \<in> set xs. issues P i x))"
  unfolding Fold_def fold_dom fold_revoked by (simp add: revoked_in_def)

text \<open>
  Folding more events keeps every certificate, and a revoked certificate unchanged, identity included.
\<close>

theorem fold_sticky:
  "state_le (Fold P t) (fold (fold_event P) es (Fold P t)) \<and> distinct (map fst (fold (fold_event P) es (Fold P t)))"
proof -
  have d: "distinct (map fst (Fold P t))" using trust.run_inv [of "[]" P "tl_events t"] by (simp add: Fold_def)
  show ?thesis using trust.run_le [OF d] trust.run_inv [OF d] by blast
qed

text \<open>
  Breadth-first search terminates on every graph and returns exactly the nodes reachable along edges,
  each once, whatever order the maps are ranged over in.
\<close>

theorem reachable_spec:
  "set (Reachable g s) = (edge_rel g)\<^sup>* `` {s} \<and> distinct (Reachable g s)"
  using Reachable_set by blast

text \<open>
  C28: the invalidated certificates are those issued or revoked in the bad window and, transitively, those
  issued via them anywhere in the chain; the affected identities are those of the certificates issued in the window.
\<close>

theorem blast_spec:
  assumes "0 \<le> badIdx" "badIdx \<le> int (length (tl_events t))" "InvalidationSet P t badIdx = Some (certs, ids)"
  shows "set certs = (via_rel P (tl_events t))\<^sup>* `` window_seeds P (drop (nat badIdx) (tl_events t))
    \<and> set ids = window_identities P (drop (nat badIdx) (tl_events t))"
  using InvalidationSet_ok [OF assms(1,2), of P] assms(3) by simp

theorem blast_spec_witness:
  "\<exists>certs ids. InvalidationSet toy demo2 1 = Some (certs, ids)
    \<and> set ids = window_identities toy (drop 1 (tl_events demo2))"
proof -
  have l: "1 \<le> int (length (tl_events demo2))" using demo2_events by auto
  then obtain certs ids where i: "InvalidationSet toy demo2 1 = Some (certs, ids)"
    using InvalidationSet_ok [of 1 demo2 toy] by auto
  from blast_spec [OF _ l i] i show ?thesis by simp
qed

text \<open>
  The recovery report passes exactly when no revoked certificate of the pre-state is missing, valid or
  renamed, nothing outside the invalidation set changed, and every addition belongs to an affected identity.
\<close>

theorem report_spec:
  "Pass (Some (VerifyRecovery pre post certs ids)) =
     (no_resurrection pre post \<and> minimal_blast pre post (set certs) (set ids))"
  by (simp add: Pass_def VerifyRecovery_spec)

lemma Rollback_take:
  assumes "0 < b" "b \<le> int (length (tl_events t))" "VerifyPrefix P t b"
    and "no_key_change (take (nat b) (tl_events t))"
    and "fork_index P (tl_events t) (ev_Hash P (tl_events t ! nat (b - 1))) = Some (nat (b - 1))"
  shows "\<exists>f. Rollback P t b = Inr f \<and> tl_events f = take (nat b) (tl_events t) \<and> chain_key P f = Some (startPub t)
    \<and> tl_pub f = startPub t \<and> tl_start f = Some (startPub t) \<and> tl_algo f = tl_algo t \<and> tl_council f = tl_council t"
proof -
  have n: "Suc (nat (b - 1)) = nat b" "int (nat (b - 1)) + 1 = b" using assms(1) by auto
  from Fork_verifies [OF assms(5), unfolded n] assms(3,4)
  obtain f where f: "Fork P t (ev_Hash P (tl_events t ! nat (b - 1))) = Inr f"
    "tl_events f = take (nat b) (tl_events t)" "chain_key P f = Some (startPub t)" "tl_pub f = startPub t" by blast
  moreover have "tl_start f = Some (tl_pub f) \<and> tl_algo f = tl_algo t \<and> tl_council f = tl_council t"
    using f(1) assms(5) by (auto simp: Fork_def Let_def)
  ultimately show ?thesis using assms(1,2) by (simp add: Rollback_def)
qed

text \<open>
  Rolling a chain without key changes back to a verified prefix gives a timeline that verifies, holds
  exactly the events before the bad index, and folds to the trust state of that prefix.
\<close>

theorem rollback_fold:
  assumes "0 < b" "b \<le> int (length (tl_events t))" "VerifyPrefix P t b"
    and "no_key_change (take (nat b) (tl_events t))"
    and "fork_index P (tl_events t) (ev_Hash P (tl_events t ! nat (b - 1))) = Some (nat (b - 1))"
  shows "\<exists>f. Rollback P t b = Inr f \<and> tl_events f = take (nat b) (tl_events t) \<and> tl_Verify P f
    \<and> Fold P f = fold (fold_event P) (take (nat b) (tl_events t)) []"
  using Rollback_take [OF assms] by (auto simp: tl_Verify_key Fold_def)

theorem rollback_fold_witness: "\<exists>f. Rollback toy demo1 1 = Inr f \<and> tl_Verify toy f"
proof -
  obtain e where e: "tl_events demo1 = [e]" "ev_Type e = EvIssue" using demo1_events by blast
  have "tl_live toy demo1"
    using tl_step_live [OF toy_ok(3) _ demo0(3), of demo1] demo1(1) by (auto intro: tl_step.Appends)
  then have v: "VerifyPrefix toy demo1 1" using tl_live_Verify VerifyPrefix_all [of toy demo1] e(1) by simp
  have i: "fork_index toy (tl_events demo1) (ev_Hash toy (tl_events demo1 ! nat (1 - 1))) = Some (nat (1 - 1))"
    using e(1) by (simp add: fork_index_def Let_def)
  from rollback_fold [OF _ _ v _ i] e show ?thesis by (auto simp: no_key_change_def)
qed

text \<open>
  A bad index beyond the chain passes \<open>VerifyPrefix\<close> (which clamps it) but makes \<open>Rollback\<close> index out of
  range; and a rollback to genesis of a read-only timeline (no key) panics instead of returning an error.
\<close>

theorem rollback_panics:
  assumes "tl_Verify P t" "int (length (tl_events t)) < b"
  shows "VerifyPrefix P t b \<and> Rollback P t b = Inl IndexPanic \<and> InvalidationSet P t b = None
    \<and> Rollback P (t\<lparr>tl_key := None\<rparr>) 0 = Inl (Timeline_error KeyPanic)"
  using assms by (simp add: VerifyPrefix_key tl_Verify_key chain_key_def Rollback_def InvalidationSet_def NewTimeline_def newTimeline_def)

theorem rollback_panics_witness:
  "VerifyPrefix toy demo2 9 \<and> Rollback toy demo2 9 = Inl IndexPanic"
proof -
  have v: "tl_Verify toy demo2" by (rule tl_live_Verify [OF tl_steps_live [OF demo_steps toy_ok(3) demo0(3)]])
  have "int (length (tl_events demo2)) < 9" using demo2_events by auto
  from rollback_panics [OF v this] show ?thesis by simp
qed

text \<open>
  A consumer that applies a diff holds the new state and has not restarted; an empty delta means that
  its certificates are all in the new state, unchanged in identity and revocation, and additions have no identity.
\<close>

theorem consumer_delta:
  assumes "distinct (map fst cur)" "distinct (map fst post)"
  shows "ApplyDiff \<lparr>c_State = Some cur, Restarts = n\<rparr> (Some post) = Some \<lparr>c_State = Some post, Restarts = n\<rparr>
    \<and> (Diff \<lparr>c_State = Some cur, Restarts = n\<rparr> (Some post) = Some \<lparr>d_Revoked = [], d_Issued = []\<rparr> \<longleftrightarrow>
        (\<forall>i c. map_of cur i = Some c \<longrightarrow> map_of post i = Some c)
        \<and> (\<forall>i d. map_of post i = Some d \<and> map_of cur i = None \<longrightarrow> Identity d = []))"
proof -
  have "(\<forall>(i, c) \<in> set cur. \<exists>pc. map_of post i = Some pc \<and> Revoked c = Revoked pc)
      \<and> (\<forall>(i, pc) \<in> set post. (case map_of cur i of None \<Rightarrow> [] | Some c \<Rightarrow> Identity c) = Identity pc) \<longleftrightarrow>
      (\<forall>i c. map_of cur i = Some c \<longrightarrow> map_of post i = Some c)
        \<and> (\<forall>i d. map_of post i = Some d \<and> map_of cur i = None \<longrightarrow> Identity d = [])" (is "?l = ?r")
  proof
    assume l: ?l
    have "map_of post i = Some c" if c: "map_of cur i = Some c" for i c
    proof -
      obtain pc where pc: "map_of post i = Some pc" "Revoked c = Revoked pc" using l map_of_SomeD [OF c] by blast
      then have "Identity c = Identity pc" using l map_of_SomeD [OF pc(1)] c by force
      with pc show ?thesis by (metis (full_types) Cert.equality old.unit.exhaust)
    qed
    moreover have "Identity d = []" if "map_of post i = Some d" "map_of cur i = None" for i d
      using l map_of_SomeD [OF that(1)] that(2) by force
    ultimately show ?r by blast
  next
    assume r: ?r
    have "\<exists>pc. map_of post i = Some pc \<and> Revoked c = Revoked pc" if "(i, c) \<in> set cur" for i c
      using r map_of_is_SomeI [OF assms(1) that] by blast
    moreover have "(case map_of cur i of None \<Rightarrow> [] | Some c \<Rightarrow> Identity c) = Identity pc" if "(i, pc) \<in> set post" for i pc
      using r map_of_is_SomeI [OF assms(2) that] by (auto split: option.splits)
    ultimately show ?l by blast
  qed
  moreover have "(\<not> (case m of None \<Rightarrow> True | Some pc \<Rightarrow> Revoked c \<noteq> Revoked pc)) = (\<exists>pc. m = Some pc \<and> Revoked c = Revoked pc)"
    for m :: "Cert option" and c :: Cert
    by (cases m) auto
  then have "Diff \<lparr>c_State = Some cur, Restarts = n\<rparr> (Some post) = Some \<lparr>d_Revoked = [], d_Issued = []\<rparr> \<longleftrightarrow>
      (\<forall>(i, c) \<in> set cur. \<exists>pc. map_of post i = Some pc \<and> Revoked c = Revoked pc)
      \<and> (\<forall>(i, pc) \<in> set post. (case map_of cur i of None \<Rightarrow> [] | Some c \<Rightarrow> Identity c) = Identity pc)"
    by (simp add: Diff_def filter_empty_conv split_beta)
  moreover have "ApplyDiff \<lparr>c_State = Some cur, Restarts = n\<rparr> (Some post) = Some \<lparr>c_State = Some post, Restarts = n\<rparr>"
    by (simp add: ApplyDiff_def ApplyDelta_def Diff_def)
  ultimately show ?thesis by (simp only: simp_thms)
qed

theorem consumer_delta_witness:
  "ApplyDiff \<lparr>c_State = Some [], Restarts = 0\<rparr> (Some [(''c1'', \<lparr>Identity = ''bob'', Revoked = False\<rparr>)])
     = Some \<lparr>c_State = Some [(''c1'', \<lparr>Identity = ''bob'', Revoked = False\<rparr>)], Restarts = 0\<rparr>"
  using consumer_delta [of "[]" "[(''c1'', \<lparr>Identity = ''bob'', Revoked = False\<rparr>)]" 0] by simp

end
