(* ===== verification/FieldShares.thy ===== *)
theory FieldShares
  imports TO_Prelude
begin

text \<open>
  Interpolation at 0, shared by Shamir (\<open>shamir.go\<close>, modulo \<open>p\<close>) and FROST (\<open>frost.go\<close>, modulo
  \<open>L\<close>).  Divided differences give the identity over any field; the locale \<open>share_field\<close> transfers it
  to a modulus to which the differences of share coordinates are coprime, which is what
  \<open>big.Int.ModInverse\<close> needs and can be computed for the two moduli, without their primality.
\<close>

section \<open>Divided differences\<close>

definition dd :: "'a::field set \<Rightarrow> ('a \<Rightarrow> 'a) \<Rightarrow> 'a" where
  "dd A g = (\<Sum>x\<in>A. g x / (\<Prod>y\<in>A - {x}. x - y))"

lemma dd_add: "dd A (\<lambda>x. f x + g x) = dd A f + dd A g"
  by (simp add: dd_def add_divide_distrib sum.distrib)

lemma dd_scale: "dd A (\<lambda>x. c * f x) = c * dd A f"
  by (simp add: dd_def sum_distrib_left)

lemma dd_minus: "dd A (\<lambda>x. f x - g x) = dd A f - dd A g"
  using dd_add [of A f "\<lambda>x. - 1 * g x"] dd_scale [of A "- 1" g] by simp

lemma dd_remove:
  assumes "finite A" "a \<in> A"
  shows "dd A (\<lambda>x. (x - a) * g x) = dd (A - {a}) g"
proof -
  have "dd A (\<lambda>x. (x - a) * g x) = (\<Sum>x\<in>A - {a}. (x - a) * g x / (\<Prod>y\<in>A - {x}. x - y))"
    using assms by (simp add: dd_def sum.remove)
  also have "\<dots> = (\<Sum>x\<in>A - {a}. g x / (\<Prod>y\<in>A - {a} - {x}. x - y))"
  proof (rule sum.cong [OF refl])
    fix x assume x: "x \<in> A - {a}"
    have "(\<Prod>y\<in>A - {x}. x - y) = (x - a) * (\<Prod>y\<in>A - {x} - {a}. x - y)"
      using assms x by (intro prod.remove) auto
    moreover have "A - {x} - {a} = A - {a} - {x}" by auto
    moreover have "x - a \<noteq> 0" using x by auto
    ultimately show "(x - a) * g x / (\<Prod>y\<in>A - {x}. x - y) = g x / (\<Prod>y\<in>A - {a} - {x}. x - y)" by simp
  qed
  finally show ?thesis by (simp add: dd_def)
qed

lemma dd_one: "finite A \<Longrightarrow> 2 \<le> card A \<Longrightarrow> dd A (\<lambda>x. 1) = 0"
proof (induction "card A" arbitrary: A rule: less_induct)
  case less
  have "\<not> card A \<le> Suc 0" using less.prems(2) by simp
  then obtain a b where ab: "a \<in> A" "b \<in> A" "a \<noteq> b"
    using card_le_Suc0_iff_eq [OF less.prems(1)] by blast
  have eq: "dd A (\<lambda>x. 1) * (b - a) = dd (A - {a}) (\<lambda>x. 1) - dd (A - {b}) (\<lambda>x. 1)"
  proof -
    have "dd A (\<lambda>x. (b - a) * 1) = dd A (\<lambda>x. (x - a) * 1 - (x - b) * 1)" by simp
    also have "\<dots> = dd (A - {a}) (\<lambda>x. 1) - dd (A - {b}) (\<lambda>x. 1)"
      unfolding dd_minus using less.prems(1) ab by (simp only: dd_remove)
    finally show ?thesis unfolding dd_scale by (simp add: mult.commute)
  qed
  have "dd (A - {a}) (\<lambda>x. 1) = dd (A - {b}) (\<lambda>x. 1)"
  proof (cases "card A = 2")
    case True
    then have "A = {a, b}" using ab by (auto simp: card_2_iff)
    then have "A - {a} = {b}" "A - {b} = {a}" using ab by auto
    then show ?thesis by (simp add: dd_def)
  next
    case False
    with less.prems ab have "2 \<le> card (A - {a})" "2 \<le> card (A - {b})" "card (A - {a}) < card A" "card (A - {b}) < card A"
      by auto
    with less.hyps less.prems(1) show ?thesis by simp
  qed
  with eq ab(3) show ?case by simp
qed

lemma dd_power: "finite A \<Longrightarrow> i + 2 \<le> card A \<Longrightarrow> dd A (\<lambda>x. x ^ i) = 0"
proof (induction i arbitrary: A)
  case 0
  then show ?case using dd_one [of A] by simp
next
  case (Suc i)
  then obtain a where a: "a \<in> A" by fastforce
  have "dd A (\<lambda>x. x ^ Suc i) = dd A (\<lambda>x. (x - a) * x ^ i + a * x ^ i)" by (simp add: algebra_simps)
  also have "\<dots> = dd (A - {a}) (\<lambda>x. x ^ i) + a * dd A (\<lambda>x. x ^ i)"
    using Suc.prems a by (simp only: dd_add dd_scale dd_remove)
  also have "\<dots> = 0" using Suc.IH [of A] Suc.IH [of "A - {a}"] Suc.prems a by simp
  finally show ?case .
qed

text \<open>A polynomial as its coefficient list, constant first.\<close>

fun eval_poly :: "'a::comm_semiring_1 list \<Rightarrow> 'a \<Rightarrow> 'a" where
  "eval_poly [] x = 0"
| "eval_poly (c # cs) x = c + x * eval_poly cs x"

lemma dd_shift_poly:
  "finite A \<Longrightarrow> i + length cs + 1 \<le> card A \<Longrightarrow> dd A (\<lambda>x. x ^ i * eval_poly cs x) = 0"
proof (induction cs arbitrary: i)
  case Nil
  then show ?case by (simp add: dd_def)
next
  case (Cons c cs)
  have "dd A (\<lambda>x. x ^ i * eval_poly (c # cs) x) = dd A (\<lambda>x. c * x ^ i + x ^ Suc i * eval_poly cs x)"
    by (simp add: algebra_simps)
  also have "\<dots> = c * dd A (\<lambda>x. x ^ i) + dd A (\<lambda>x. x ^ Suc i * eval_poly cs x)"
    by (simp only: dd_add dd_scale)
  also have "\<dots> = 0" using Cons.IH [of "Suc i"] dd_power [of A i] Cons.prems by simp
  finally show ?case .
qed

lemma dd_poly: "finite A \<Longrightarrow> length cs < card A \<Longrightarrow> dd A (eval_poly cs) = 0"
  using dd_shift_poly [of A 0 cs] by simp

text \<open>Interpolation at 0: the divided difference over the points and 0 vanishes.\<close>

lemma lagrange_zero:
  fixes A :: "'a::field set"
  assumes "finite A" "0 \<notin> A" "length cs \<le> card A"
  shows "(\<Sum>x\<in>A. eval_poly cs x * (\<Prod>y\<in>A - {x}. y / (y - x))) = eval_poly cs 0"
proof -
  let ?f = "eval_poly cs"
  let ?N = "(\<Prod>y\<in>A. - y)"
  have N: "?N \<noteq> 0" using assms by (simp add: prod_zero_iff)
  have "0 = dd (insert 0 A) ?f" using dd_poly [of "insert 0 A" cs] assms by simp
  also have "\<dots> = ?f 0 / (\<Prod>y\<in>A. 0 - y) + (\<Sum>x\<in>A. ?f x / (\<Prod>y\<in>insert 0 A - {x}. x - y))"
    using assms by (simp add: dd_def)
  finally have z: "?f 0 / ?N + (\<Sum>x\<in>A. ?f x / (\<Prod>y\<in>insert 0 A - {x}. x - y)) = 0" by simp
  have "?f x * (\<Prod>y\<in>A - {x}. y / (y - x)) = - (?N * (?f x / (\<Prod>y\<in>insert 0 A - {x}. x - y)))" if "x \<in> A" for x
  proof -
    have x0: "x \<noteq> 0" using that assms by auto
    have i: "insert 0 A - {x} = insert 0 (A - {x})" using x0 by auto
    have P: "(\<Prod>y\<in>insert 0 A - {x}. x - y) = x * (\<Prod>y\<in>A - {x}. x - y)"
      unfolding i using assms by (subst prod.insert) auto
    have N': "?N = - x * (\<Prod>y\<in>A - {x}. - y)" using assms(1) that by (simp add: prod.remove)
    have "(\<Prod>y\<in>A - {x}. y / (y - x)) = (\<Prod>y\<in>A - {x}. (- y) / (x - y))"
      by (rule prod.cong [OF refl]) (metis minus_diff_eq minus_divide_divide minus_minus)
    also have "\<dots> = (\<Prod>y\<in>A - {x}. - y) / (\<Prod>y\<in>A - {x}. x - y)" by (rule prod_dividef)
    finally show ?thesis unfolding P N' using x0 by simp
  qed
  then have "(\<Sum>x\<in>A. ?f x * (\<Prod>y\<in>A - {x}. y / (y - x))) = - (?N * (\<Sum>x\<in>A. ?f x / (\<Prod>y\<in>insert 0 A - {x}. x - y)))"
    by (simp add: sum_negf sum_distrib_left)
  also have "\<dots> = ?f 0" using z N by (simp add: field_simps add_eq_0_iff)
  finally show ?thesis .
qed

section \<open>Modular inverse\<close>

text \<open>\<open>big.Int.ModInverse\<close>: the inverse in \<open>[0, m)\<close>, or nil when there is none.\<close>

definition mod_inverse :: "int \<Rightarrow> int \<Rightarrow> int option" where
  "mod_inverse a m = (if gcd (a mod m) m = 1 then Some (fst (bezw (nat (a mod m)) (nat m)) mod m) else None)"

lemma mod_inverse_ok:
  assumes "1 < m" "coprime a m"
  obtains i where "mod_inverse a m = Some i" "0 \<le> i" "i < m" "(a * i) mod m = 1"
proof -
  have g: "gcd (a mod m) m = 1" using assms by (metis coprime_iff_gcd_eq_1 gcd_red_int gcd.commute)
  let ?x = "nat (a mod m)"
  let ?u = "fst (bezw ?x (nat m))" and ?v = "snd (bezw ?x (nat m))"
  have nn: "int ?x = a mod m" "int (nat m) = m" using assms(1) by auto
  have "?u * int ?x + ?v * int (nat m) = int (gcd ?x (nat m))" by (rule bezw_aux [symmetric])
  also have "int (gcd ?x (nat m)) = gcd (a mod m) m" using nn by (metis gcd_int_int_eq)
  finally have "?u * (a mod m) + ?v * m = 1" using g nn by simp
  then have "(?u * (a mod m)) mod m = 1 mod m" by (metis mod_mult_self3 add.commute mult.commute mod_mult_self1)
  then have "(a * (?u mod m)) mod m = 1" using assms(1) by (simp add: mod_mult_left_eq mod_mult_right_eq mult.commute)
  then show ?thesis using g assms(1) by (intro that [of "?u mod m"]) (simp_all add: mod_inverse_def)
qed

section \<open>Interpolation modulo a share modulus\<close>

lemma of_int_eval_poly: "of_int (eval_poly cs x) = (eval_poly (map of_int cs) (of_int x) :: rat)"
  by (induction cs) auto

lemma lagrange_int:
  fixes A :: "int set"
  assumes "finite A" "0 \<notin> A" "length cs \<le> card A"
  defines "num \<equiv> \<lambda>x. \<Prod>y\<in>A - {x}. y" and "den \<equiv> \<lambda>x. \<Prod>y\<in>A - {x}. y - x"
  shows "(\<Sum>x\<in>A. eval_poly cs x * num x * (\<Prod>z\<in>A - {x}. den z)) = (\<Prod>z\<in>A. den z) * eval_poly cs 0"
proof -
  let ?B = "of_int ` A :: rat set"
  let ?f = "eval_poly (map of_int cs) :: rat \<Rightarrow> rat"
  have inj: "inj_on (of_int :: int \<Rightarrow> rat) A" by (simp add: inj_on_def)
  have rm: "of_int ` A - {of_int x :: rat} = of_int ` (A - {x})" for x :: int by auto
  have den0: "den x \<noteq> 0" for x using assms(1) by (auto simp: den_def prod_zero_iff)
  have "?f 0 = (\<Sum>x\<in>?B. ?f x * (\<Prod>y\<in>?B - {x}. y / (y - x)))"
    using assms inj by (intro lagrange_zero [symmetric]) (auto simp: card_image)
  also have "\<dots> = (\<Sum>x\<in>A. ?f (of_int x) * (\<Prod>y\<in>A - {x}. of_int y / (of_int y - of_int x)))"
    by (subst sum.reindex [OF inj]) (simp only: comp_def rm prod.reindex [OF inj_on_subset [OF inj Diff_subset]])
  also have "\<dots> = (\<Sum>x\<in>A. of_int (eval_poly cs x) * of_int (num x) / of_int (den x))"
    by (simp add: num_def den_def prod_dividef of_int_eval_poly)
  finally have f0: "?f 0 = \<dots>" .
  have "of_int (\<Prod>z\<in>A. den z) * ?f 0 = (\<Sum>x\<in>A. of_int (eval_poly cs x) * of_int (num x) * of_int (\<Prod>z\<in>A - {x}. den z))"
    unfolding f0 sum_distrib_left
  proof (rule sum.cong [OF refl])
    fix x assume "x \<in> A"
    then have "(\<Prod>z\<in>A. den z) = den x * (\<Prod>z\<in>A - {x}. den z)" using assms(1) by (simp add: prod.remove)
    then show "of_int (\<Prod>z\<in>A. den z) * (of_int (eval_poly cs x) * of_int (num x) / of_int (den x))
      = of_int (eval_poly cs x) * of_int (num x) * (of_int (\<Prod>z\<in>A - {x}. den z) :: rat)"
      using den0 [of x] by simp
  qed
  moreover have "?f 0 = of_int (eval_poly cs 0)" using of_int_eval_poly [of cs 0] by simp
  ultimately have "(of_int ((\<Prod>z\<in>A. den z) * eval_poly cs 0) :: rat)
      = of_int (\<Sum>x\<in>A. eval_poly cs x * num x * (\<Prod>z\<in>A - {x}. den z))"
    by simp
  then show ?thesis by (simp only: of_int_eq_iff)
qed

text \<open>
  Coprimality to every number below 256 is decided on the primes below 256.
\<close>

definition low_primes :: "int list" where
  "low_primes = [2, 3, 5, 7, 11, 13]"

definition high_primes :: "int list" where
  "high_primes = [17, 19, 23, 29, 31, 37, 41, 43, 47, 53, 59, 61, 67, 71, 73, 79, 83, 89, 97, 101, 103, 107, 109, 113,
     127, 131, 137, 139, 149, 151, 157, 163, 167, 173, 179, 181, 191, 193, 197, 199, 211, 223, 227, 229, 233, 239, 241, 251]"

definition small_primes :: "int list" where
  "small_primes = low_primes @ high_primes"

lemma small_factors: "list_all (\<lambda>k::int. k = 1 \<or> list_ex (\<lambda>q. k mod q = 0) low_primes \<or> k \<in> set high_primes) [1..255]"
  unfolding low_primes_def high_primes_def by code_simp

lemma small_factor:
  assumes "1 < k" "k < (256 :: int)"
  obtains q where "q \<in> set small_primes" "q dvd k"
proof -
  have "k \<in> set [1..255]" using assms by simp
  from bspec [OF small_factors [unfolded list_all_iff] this] have "\<exists>q \<in> set small_primes. q dvd k"
  proof (elim disjE)
    assume "k = 1"
    then show ?thesis using assms(1) by simp
  next
    assume "k \<in> set high_primes"
    then show ?thesis by (intro bexI [of _ k]) (simp_all add: small_primes_def)
  qed (auto simp: small_primes_def list_ex_iff dvd_eq_mod_eq_0)
  then show ?thesis using that by blast
qed

lemma small_primes_pos: "q \<in> set small_primes \<Longrightarrow> 1 < q"
  by (auto simp: small_primes_def low_primes_def high_primes_def)

lemma dvd_prod_list: "x \<in> set xs \<Longrightarrow> x dvd (prod_list xs :: int)"
  by (induction xs) auto

lemma small_primes_prod:
  "prod_list small_primes = 64266330917908644872330635228106713310880186591609208114244758680898150367880703152525200743234420230"
  by (simp add: small_primes_def low_primes_def high_primes_def)

text \<open>\<open>u\<close> and \<open>w\<close> are Bezout coefficients of the product of the small primes and \<open>m\<close>.\<close>

lemma coprime_below_256:
  assumes "u * prod_list small_primes + w * m = 1" "0 < k" "k < 256"
  shows "coprime k (m :: int)"
  using assms(2,3)
proof (induction "nat k" arbitrary: k rule: less_induct)
  case less
  show ?case
  proof (cases "k = 1")
    case False
    with less.prems obtain q where q: "q \<in> set small_primes" "q dvd k" using small_factor [of k] by auto
    then obtain j where j: "k = q * j" by (elim dvdE)
    have "1 < q" using q(1) small_primes_pos by simp
    with j less.prems have "0 < j" "j < k" by (auto simp: zero_less_mult_iff)
    then have "coprime j m" using less by simp
    moreover have "coprime q m"
    proof (rule coprimeI)
      fix d assume d: "d dvd q" "d dvd m"
      have "q dvd prod_list small_primes" using q(1) by (rule dvd_prod_list)
      then have "d dvd u * prod_list small_primes + w * m" using d by (auto intro: dvd_trans)
      then show "is_unit d" unfolding assms(1) .
    qed
    ultimately show ?thesis by (simp add: j)
  qed simp
qed

lemma mod_mult_one: "b mod m = 1 \<Longrightarrow> (a * b) mod m = a mod (m :: int)"
  by (subst mod_mult_right_eq [symmetric]) simp

locale share_field =
  fixes m :: int and bound :: int
  assumes m_gt: "1 < m" and small_coprime: "0 < k \<Longrightarrow> k < bound \<Longrightarrow> coprime k m"
begin

lemma diff_coprime:
  assumes "0 \<le> x" "x < bound" "0 \<le> y" "y < bound" "x \<noteq> y"
  shows "coprime (y - x) m"
proof (cases "x < y")
  case True
  then show ?thesis using assms small_coprime [of "y - x"] by auto
next
  case False
  then have "coprime (x - y) m" using assms small_coprime [of "x - y"] by auto
  then show ?thesis by (metis coprime_minus_left_iff minus_diff_eq)
qed

text \<open>
  Points with distinct coordinates in \<open>(0, bound)\<close>: for any inverses of the denominators, the
  weighted sum of the values of a polynomial of degree below their number is its value at 0.
\<close>

lemma interpolate:
  assumes "finite A" "\<And>x. x \<in> A \<Longrightarrow> 0 < x \<and> x < bound" "length cs \<le> card A"
    and num: "\<And>x. x \<in> A \<Longrightarrow> num x mod m = (\<Prod>y\<in>A - {x}. y) mod m"
    and iv: "\<And>x. x \<in> A \<Longrightarrow> ((\<Prod>y\<in>A - {x}. y - x) * iv x) mod m = 1"
    and val: "\<And>x. x \<in> A \<Longrightarrow> v x mod m = eval_poly cs x mod m"
  shows "(\<Sum>x\<in>A. v x * num x * iv x) mod m = eval_poly cs 0 mod m"
proof -
  let ?den = "\<lambda>x. \<Prod>y\<in>A - {x}. y - x" and ?num = "\<lambda>x. \<Prod>y\<in>A - {x}. y"
  let ?D = "\<Prod>z\<in>A. ?den z" and ?S = "\<Sum>x\<in>A. v x * num x * iv x"
  have "0 \<notin> A" using assms(2) by force
  note L = lagrange_int [OF assms(1) this assms(3)]
  have tm: "(eval_poly cs x * ?num x * (\<Prod>z\<in>A - {x}. ?den z)) mod m = (?D * (v x * num x * iv x)) mod m" if x: "x \<in> A" for x
  proof -
    have D: "?D = ?den x * (\<Prod>z\<in>A - {x}. ?den z)" using assms(1) x by (simp add: prod.remove)
    have "(?D * (v x * num x * iv x)) mod m = ((v x * num x * (\<Prod>z\<in>A - {x}. ?den z)) * (?den x * iv x)) mod m"
      unfolding D by (simp add: ac_simps)
    also have "\<dots> = (v x * num x * (\<Prod>z\<in>A - {x}. ?den z)) mod m"
      using iv [OF x] by (rule mod_mult_one)
    also have "\<dots> = (eval_poly cs x * ?num x * (\<Prod>z\<in>A - {x}. ?den z)) mod m"
      using num [OF x] val [OF x] by (intro mod_mult_cong refl)
    finally show ?thesis ..
  qed
  have "(\<Sum>x\<in>A. eval_poly cs x * ?num x * (\<Prod>z\<in>A - {x}. ?den z)) mod m = (\<Sum>x\<in>A. ?D * (v x * num x * iv x)) mod m"
    (is "(\<Sum>x\<in>A. ?l x) mod m = (\<Sum>x\<in>A. ?r x) mod m")
  proof -
    have "(\<Sum>x\<in>A. ?l x) mod m = (\<Sum>x\<in>A. ?l x mod m) mod m" by (rule mod_sum_eq [symmetric])
    also have "(\<Sum>x\<in>A. ?l x mod m) = (\<Sum>x\<in>A. ?r x mod m)" using tm by (rule sum.cong [OF refl])
    also have "\<dots> mod m = (\<Sum>x\<in>A. ?r x) mod m" by (rule mod_sum_eq)
    finally show ?thesis .
  qed
  then have "(?D * eval_poly cs 0) mod m = (?D * ?S) mod m"
    unfolding L by (simp add: sum_distrib_left)
  then have "m dvd ?D * (eval_poly cs 0 - ?S)" by (simp add: mod_eq_dvd_iff right_diff_distrib)
  moreover have "coprime ?D m"
    using assms(2) by (intro prod_coprime_left diff_coprime) (auto simp: less_imp_le)
  ultimately have "m dvd eval_poly cs 0 - ?S"
    by (simp add: coprime_commute coprime_dvd_mult_right_iff)
  then show ?thesis by (simp add: mod_eq_dvd_iff dvd_diff_commute)
qed

end

section \<open>Evaluating shares\<close>

text \<open>
  The loop \<open>evalPoly\<close> and \<open>evalPolyL\<close> share, on the accumulator and the power of \<open>x\<close>.
\<close>

fun eval_loop :: "int \<Rightarrow> int \<Rightarrow> int list \<Rightarrow> int \<Rightarrow> int \<Rightarrow> int" where
  "eval_loop m x [] acc xp = acc"
| "eval_loop m x (c # cs) acc xp = eval_loop m x cs ((acc + c * xp) mod m) ((xp * x) mod m)"

lemma eval_loop_mod: "eval_loop m x cs acc xp mod m = (acc + xp * eval_poly cs x) mod m"
proof (induction cs arbitrary: acc xp)
  case (Cons c cs)
  have "((acc + c * xp) mod m + (xp * x) mod m * eval_poly cs x) mod m = (acc + c * xp + xp * x * eval_poly cs x) mod m"
    by (metis mod_add_cong mod_mod_trivial mod_mult_left_eq)
  then show ?case using Cons by (simp add: algebra_simps)
qed simp

lemma eval_loop_poly: "eval_loop m x cs s x mod m = eval_poly (s # cs) x mod m"
  by (simp add: eval_loop_mod)

end
