(* ===== verification/Shamir.thy ===== *)
theory Shamir
  imports FieldShares
begin

text \<open>
  Shamir sharing over the field of \<open>shamir.go\<close>: split, evaluation, and reconstruction at 0 with the
  padding of leading zero bytes.  \<open>rand.Int\<close> is the argument \<open>rnd\<close>, its i-th draw or None on failure.
\<close>

definition shamir_p :: int where
  "shamir_p = 2 ^ 256 - 189"

record Shard =
  sh_X :: "int option"
  sh_Y :: "int option"
  sh_Len :: int

datatype shamir_error = BadThreshold | SecretTooBig | RandFailed | NoShards | NilShard | DuplicateX | Singular

text \<open>\<open>SetBytes\<close> and \<open>Bytes\<close> of big.Int: big-endian, without leading zeros on the way out.\<close>

definition set_bytes :: "bytes \<Rightarrow> int" where
  "set_bytes b = foldl (\<lambda>n x. n * 256 + uint x) 0 b"

function big_bytes :: "int \<Rightarrow> bytes" where
  "big_bytes n = (if n \<le> 0 then [] else big_bytes (n div 256) @ [word_of_int (n mod 256)])"
  by pat_completeness auto
termination
  by (relation "measure nat") auto

declare big_bytes.simps [simp del, loop_unfold]

definition evalPoly :: "int list \<Rightarrow> int \<Rightarrow> int \<Rightarrow> int" where
  "evalPoly coeff s x = eval_loop shamir_p x coeff s x"

definition ShamirSplit :: "(nat \<Rightarrow> int option) \<Rightarrow> bytes \<Rightarrow> int \<Rightarrow> int \<Rightarrow> shamir_error + Shard list" where
  "ShamirSplit rnd secret n k =
     (if n < k \<or> k < 1 then Inl BadThreshold
      else let s = set_bytes secret in
        if shamir_p \<le> s then Inl SecretTooBig
        else (case those (map rnd [0..<nat (k - 1)]) of
            None \<Rightarrow> Inl RandFailed
          | Some coeff \<Rightarrow>
              Inr (map (\<lambda>x. \<lparr>sh_X = Some x, sh_Y = Some (evalPoly coeff s x), sh_Len = int (length secret)\<rparr>) [1..n])))"

text \<open>The first loop of \<open>ShamirJoin\<close>: nil checks and duplicate coordinates, in the order of the points.\<close>

fun join_check :: "int list \<Rightarrow> Shard option list \<Rightarrow> shamir_error + (int \<times> int) list" where
  "join_check seen [] = Inr []"
| "join_check seen (pt # pts) = (case pt of
     None \<Rightarrow> Inl NilShard
   | Some s \<Rightarrow> (case (sh_X s, sh_Y s) of
       (Some x, Some y) \<Rightarrow> if x \<in> set seen then Inl DuplicateX
         else map_sum id ((#) (x, y)) (join_check (x # seen) pts)
     | _ \<Rightarrow> Inl NilShard))"

text \<open>The inner loop at point \<open>j\<close>: numerator and denominator of its weight.\<close>

definition join_weight :: "(int \<times> int) list \<Rightarrow> nat \<Rightarrow> int \<times> int" where
  "join_weight pts j = fold (\<lambda>(i, (xm, _)) (num, den).
     if i = j then (num, den) else ((num * xm) mod shamir_p, (den * (xm - fst (pts ! j))) mod shamir_p)) (enumerate 0 pts) (1, 1)"

fun join_sum :: "(int \<times> int) list \<Rightarrow> nat list \<Rightarrow> int \<Rightarrow> shamir_error + int" where
  "join_sum pts [] secret = Inr secret"
| "join_sum pts (j # js) secret =
     (case join_weight pts j of (num, den) \<Rightarrow>
       (case mod_inverse den shamir_p of
          None \<Rightarrow> Inl Singular
        | Some iv \<Rightarrow> join_sum pts js ((secret + (snd (pts ! j) * num * iv) mod shamir_p) mod shamir_p)))"

definition ShamirJoin :: "Shard option list \<Rightarrow> shamir_error + bytes" where
  "ShamirJoin pts =
     (if pts = [] then Inl NoShards
      else (case join_check [] pts of
          Inl e \<Rightarrow> Inl e
        | Inr xys \<Rightarrow> (case join_sum xys [0..<length xys] 0 of
            Inl e \<Rightarrow> Inl e
          | Inr secret \<Rightarrow>
             (let b = big_bytes secret; n = (case hd pts of Some s \<Rightarrow> sh_Len s | None \<Rightarrow> 0) in
              Inr (if int (length b) < n then replicate (nat n - length b) 0 @ b else b)))))"

section \<open>The field\<close>

lemma shamir_p_gt: "1 < shamir_p"
  by (simp add: shamir_p_def)

interpretation shamir: share_field shamir_p 256
proof
  show "1 < shamir_p" by (rule shamir_p_gt)
  have "(47678943941963405149293527584473565286590117217712734393755411650098787236011) *
      prod_list small_primes +
     (-26462522693675995939468280621067183040091228044604616064717781690180599942305501246419089303427116907) * shamir_p = 1"
    by (simp add: small_primes_prod shamir_p_def)
  then show "0 < k \<Longrightarrow> k < 256 \<Longrightarrow> coprime k shamir_p" for k by (rule coprime_below_256)
qed

section \<open>Bytes\<close>

lemma set_bytes_snoc: "set_bytes (b @ [x]) = set_bytes b * 256 + uint x"
  by (simp add: set_bytes_def)

lemma set_bytes_nonneg: "0 \<le> set_bytes b"
  by (induction b rule: rev_induct) (simp_all add: set_bytes_snoc, simp add: set_bytes_def)

lemma uint_byte: "uint (x :: byte) < 256" "0 \<le> uint (x :: byte)"
  using unsigned_less [of x, where 'a = int] by simp_all

lemma big_bytes_zero [simp]: "big_bytes 0 = []"
  by (simp add: big_bytes.simps)

lemma big_bytes_snoc:
  assumes "0 < set_bytes (b @ [x])"
  shows "big_bytes (set_bytes (b @ [x])) = big_bytes (set_bytes b) @ [x]"
proof -
  have "(set_bytes b * 256 + uint x) div 256 = set_bytes b" "(set_bytes b * 256 + uint x) mod 256 = uint x"
    using uint_byte [of x] by auto
  then show ?thesis using assms unfolding set_bytes_snoc by (subst big_bytes.simps) simp
qed

lemma big_bytes_pad:
  "length (big_bytes (set_bytes b)) \<le> length b \<and>
   replicate (length b - length (big_bytes (set_bytes b))) 0 @ big_bytes (set_bytes b) = b"
proof (induction b rule: rev_induct)
  case Nil
  then show ?case by (simp add: set_bytes_def)
next
  case (snoc x b)
  show ?case
  proof (cases "set_bytes (b @ [x]) = 0")
    case True
    then have "set_bytes b = 0" "uint x = 0"
      using set_bytes_nonneg [of b] uint_byte [of x] unfolding set_bytes_snoc by linarith+
    with snoc have b: "replicate (length b) 0 = b" "x = 0" by (simp_all add: unsigned_eq_0_iff)
    have "replicate (length (b @ [x])) 0 = b @ [x]"
      using b by (metis length_append_singleton replicate_append_same replicate_Suc)
    then show ?thesis using True by simp
  next
    case False
    then show ?thesis using snoc set_bytes_nonneg [of "b @ [x]"] by (simp add: big_bytes_snoc)
  qed
qed

section \<open>Reconstruction\<close>

lemma evalPoly_mod: "evalPoly cs s x mod shamir_p = eval_poly (s # cs) x mod shamir_p"
  by (simp add: evalPoly_def eval_loop_mod)

lemma join_check_ok:
  assumes "distinct (seen @ map fst xys)"
  shows "join_check seen (map (\<lambda>(x, y). Some \<lparr>sh_X = Some x, sh_Y = Some y, sh_Len = n\<rparr>) xys) = Inr xys"
  using assms
proof (induction xys arbitrary: seen)
  case (Cons a xys)
  obtain x y where a: "a = (x, y)" by fastforce
  with Cons show ?case by (simp add: Cons.IH [of "x # seen"])
qed simp

text \<open>The weight loop skips the point itself, so it multiplies over the other coordinates.\<close>

lemma weight_fold:
  fixes d :: "int \<Rightarrow> int"
  shows "fold (\<lambda>(i, (xm, _ :: int)) (num, den). if i = j then (num, den) else ((num * xm) mod m, (den * d xm) mod m)) (enumerate s pts) (a, b)
    = (a', b') \<Longrightarrow>
    a' mod m = (a * (\<Prod>(i, x, y)\<leftarrow>filter (\<lambda>ip. fst ip \<noteq> j) (enumerate s pts). x)) mod m
    \<and> b' mod m = (b * (\<Prod>(i, x, y)\<leftarrow>filter (\<lambda>ip. fst ip \<noteq> j) (enumerate s pts). d x)) mod m"
proof (induction pts arbitrary: s a b)
  case (Cons p pts)
  obtain x y where p: "p = (x, y)" by fastforce
  show ?case
  proof (cases "s = j")
    case True
    then show ?thesis using Cons.IH [of "Suc s" a b] Cons.prems p by simp
  next
    case False
    then have "a' mod m = ((a * x) mod m * (\<Prod>(i, x, y)\<leftarrow>filter (\<lambda>ip. fst ip \<noteq> j) (enumerate (Suc s) pts). x)) mod m
      \<and> b' mod m = ((b * d x) mod m * (\<Prod>(i, x, y)\<leftarrow>filter (\<lambda>ip. fst ip \<noteq> j) (enumerate (Suc s) pts). d x)) mod m"
      using Cons.IH [of "Suc s" "(a * x) mod m" "(b * d x) mod m"] Cons.prems p by simp
    then show ?thesis using False p by (simp add: mod_mult_left_eq mult.assoc)
  qed
qed simp

lemma filter_enumerate:
  assumes "distinct (map fst pts)" "j < length pts"
  shows "set (map (\<lambda>(i, x, y). x) (filter (\<lambda>ip. fst ip \<noteq> j) (enumerate 0 pts))) = fst ` set pts - {fst (pts ! j)}"
    "distinct (map (\<lambda>(i, x, y). x) (filter (\<lambda>ip. fst ip \<noteq> j) (enumerate 0 pts)))"
proof -
  let ?f = "filter (\<lambda>ip. fst ip \<noteq> j) (enumerate 0 pts)"
  have n: "fst (pts ! i) = fst (pts ! j) \<longleftrightarrow> i = j" if "i < length pts" for i
    using assms that nth_eq_iff_index_eq [OF assms(1), of i j] by simp
  have "set ?f = {(i, pts ! i) |i. i < length pts \<and> i \<noteq> j}"
    by (auto simp: in_set_enumerate_eq)
  then have "set (map (\<lambda>(i, x, y). x) ?f) = {fst (pts ! i) |i. i < length pts \<and> i \<noteq> j}"
    by (force simp: case_prod_unfold image_def)
  also have "\<dots> = fst ` set pts - {fst (pts ! j)}"
    using n by (auto simp: in_set_conv_nth image_def) (metis fst_conv nth_mem)+
  finally show "set (map (\<lambda>(i, x, y). x) ?f) = fst ` set pts - {fst (pts ! j)}" .
  have "map (\<lambda>(i, x, y). x) (enumerate 0 pts) = map fst pts"
    by (rule nth_equalityI) (auto simp: nth_enumerate_eq case_prod_unfold)
  then have "distinct (map (\<lambda>(i, x, y). x) (enumerate 0 pts))" using assms(1) by simp
  then show "distinct (map (\<lambda>(i, x, y). x) ?f)" by (rule distinct_map_filter)
qed

lemma prod_list_set: "distinct (map f xs) \<Longrightarrow> (\<Prod>x\<leftarrow>xs. g (f x)) = (\<Prod>y\<in>set (map f xs). (g y :: int))"
  by (induction xs) auto

lemma join_weight_spec:
  assumes "distinct (map fst pts)" "j < length pts" "join_weight pts j = (num, den)"
  defines "A \<equiv> fst ` set pts" and "x \<equiv> fst (pts ! j)"
  shows "num mod shamir_p = (\<Prod>y\<in>A - {x}. y) mod shamir_p"
    "den mod shamir_p = (\<Prod>y\<in>A - {x}. y - x) mod shamir_p"
proof -
  let ?f = "filter (\<lambda>ip. fst ip \<noteq> j) (enumerate 0 pts)" and ?x = "\<lambda>(i :: nat, x :: int, y :: int). x"
  note F = filter_enumerate [OF assms(1,2)]
  have "(\<Prod>(i, x, y)\<leftarrow>?f. g x) = (\<Prod>y\<in>A - {x}. g y)" for g :: "int \<Rightarrow> int"
    using prod_list_set [OF F(2), of g] unfolding F(1) A_def x_def by (simp add: case_prod_unfold)
  from this [of "\<lambda>y. y"] this [of "\<lambda>y. y - x"]
  show "num mod shamir_p = (\<Prod>y\<in>A - {x}. y) mod shamir_p" "den mod shamir_p = (\<Prod>y\<in>A - {x}. y - x) mod shamir_p"
    using weight_fold [where d = "\<lambda>xm. xm - fst (pts ! j)", OF assms(3) [unfolded join_weight_def]]
    by (simp_all add: x_def)
qed

lemma join_sum_spec:
  assumes "distinct (map fst pts)" "\<forall>(x, y) \<in> set pts. 0 < x \<and> x < 256" "set js \<subseteq> {..<length pts}"
  shows "\<exists>s iv. join_sum pts js s0 = Inr s \<and> (js \<noteq> [] \<longrightarrow> 0 \<le> s \<and> s < shamir_p) \<and>
    (\<forall>j \<in> set js. ((\<Prod>y\<in>fst ` set pts - {fst (pts ! j)}. y - fst (pts ! j)) * iv j) mod shamir_p = 1) \<and>
    s mod shamir_p = (s0 + (\<Sum>j\<leftarrow>js. snd (pts ! j) * fst (join_weight pts j) * iv j)) mod shamir_p"
proof -
  define iv where "iv j = the (mod_inverse (snd (join_weight pts j)) shamir_p)" for j
  let ?den = "\<lambda>j. \<Prod>y\<in>fst ` set pts - {fst (pts ! j)}. y - fst (pts ! j)"
  have inv: "mod_inverse (snd (join_weight pts j)) shamir_p = Some (iv j) \<and> (?den j * iv j) mod shamir_p = 1" if j: "j < length pts" for j
  proof -
    obtain num den where w: "join_weight pts j = (num, den)" by fastforce
    note W = join_weight_spec(2) [OF assms(1) j w]
    have in_range: "0 < fst p \<and> fst p < 256" if "p \<in> set pts" for p
      using assms(2) that by (cases p) auto
    have "coprime (?den j) shamir_p"
    proof (rule prod_coprime_left)
      fix y assume y: "y \<in> fst ` set pts - {fst (pts ! j)}"
      then show "coprime (y - fst (pts ! j)) shamir_p"
        using in_range nth_mem [OF j] by (intro shamir.diff_coprime) (auto simp: less_imp_le)
    qed
    then have "coprime den shamir_p" using W by (metis coprime_mod_left_iff shamir_p_gt less_irrefl zero_less_one order.strict_trans)
    then obtain i where i: "mod_inverse den shamir_p = Some i" "(den * i) mod shamir_p = 1"
      using mod_inverse_ok [OF shamir_p_gt] by metis
    then have "(?den j * i) mod shamir_p = 1" using W by (metis mod_mult_left_eq)
    then show ?thesis using i w by (simp add: iv_def)
  qed
  have p0: "0 < shamir_p" using shamir_p_gt by simp
  have "\<exists>s. join_sum pts js s0 = Inr s \<and> (js \<noteq> [] \<longrightarrow> 0 \<le> s \<and> s < shamir_p) \<and>
      s mod shamir_p = (s0 + (\<Sum>j\<leftarrow>js. snd (pts ! j) * fst (join_weight pts j) * iv j)) mod shamir_p"
    using assms(3)
  proof (induction js arbitrary: s0)
    case (Cons j js)
    then have "j < length pts" by simp
    obtain num den where w: "join_weight pts j = (num, den)" by fastforce
    let ?s1 = "(s0 + (snd (pts ! j) * num * iv j) mod shamir_p) mod shamir_p"
    have step: "join_sum pts (j # js) s0 = join_sum pts js ?s1"
      using inv [OF \<open>j < length pts\<close>] w by simp
    from Cons.IH [of ?s1] Cons.prems obtain s where s: "join_sum pts js ?s1 = Inr s" "js \<noteq> [] \<longrightarrow> 0 \<le> s \<and> s < shamir_p"
      "s mod shamir_p = (?s1 + (\<Sum>j\<leftarrow>js. snd (pts ! j) * fst (join_weight pts j) * iv j)) mod shamir_p" by auto
    have "0 \<le> s \<and> s < shamir_p"
    proof (cases js)
      case Nil
      then have "s = ?s1" using s(1) by simp
      then show ?thesis using p0 by simp
    qed (use s(2) in simp)
    moreover have "s mod shamir_p = (s0 + (\<Sum>j\<leftarrow>j # js. snd (pts ! j) * fst (join_weight pts j) * iv j)) mod shamir_p"
    proof -
      have m: "((a + b mod n) mod n + c) mod n = (a + (b + c)) mod n" for a b c n :: int
        by (simp only: mod_add_left_eq mod_add_right_eq add.assoc)
      show ?thesis unfolding s(3) m by (simp add: w)
    qed
    ultimately show ?case unfolding step using s(1) by blast
  qed simp
  then obtain s where "join_sum pts js s0 = Inr s \<and> (js \<noteq> [] \<longrightarrow> 0 \<le> s \<and> s < shamir_p) \<and>
      s mod shamir_p = (s0 + (\<Sum>j\<leftarrow>js. snd (pts ! j) * fst (join_weight pts j) * iv j)) mod shamir_p" by blast
  moreover have "\<forall>j \<in> set js. (?den j * iv j) mod shamir_p = 1" using inv assms(3) by blast
  ultimately show ?thesis by blast
qed

lemma join_sum_secret:
  assumes "distinct (map fst pts)" "\<forall>(x, y) \<in> set pts. 0 < x \<and> x < 256 \<and> y mod shamir_p = eval_poly cs x mod shamir_p"
    and "length cs \<le> length pts" "pts \<noteq> []"
  shows "join_sum pts [0..<length pts] 0 = Inr (eval_poly cs 0 mod shamir_p)"
proof -
  let ?A = "fst ` set pts" and ?x = "\<lambda>j. fst (pts ! j)" and ?J = "{..<length pts}"
  have A: "?A = ?x ` ?J" by (auto simp: in_set_conv_nth image_def) (metis fst_conv nth_mem lessThan_iff)+
  have inj: "inj_on ?x ?J"
    using assms(1) by (auto simp: inj_on_def distinct_conv_nth)
  define i where "i = inv_into ?J ?x"
  have ix: "i (?x j) = j" if "j < length pts" for j using inv_into_f_f [OF inj, of j] that by (simp add: i_def)
  obtain s iv where js: "join_sum pts [0..<length pts] 0 = Inr s" "0 \<le> s" "s < shamir_p"
    and iv: "\<forall>j < length pts. ((\<Prod>y\<in>?A - {?x j}. y - ?x j) * iv j) mod shamir_p = 1"
    and sm: "s mod shamir_p = (\<Sum>j\<leftarrow>[0..<length pts]. snd (pts ! j) * fst (join_weight pts j) * iv j) mod shamir_p"
  proof -
    have r: "\<forall>(x, y) \<in> set pts. 0 < x \<and> x < 256" using assms(2) by auto
    have "set [0..<length pts] \<subseteq> {..<length pts}" "[0..<length pts] \<noteq> []" using assms(4) by auto
    from join_sum_spec [OF assms(1) r this(1), of 0] this(2) that show ?thesis by auto
  qed
  have "(\<Sum>j\<leftarrow>[0..<length pts]. snd (pts ! j) * fst (join_weight pts j) * iv j)
      = (\<Sum>j\<in>?J. snd (pts ! j) * fst (join_weight pts j) * iv j)"
    by (simp add: sum_list_distinct_conv_sum_set atLeast0LessThan)
  also have "\<dots> = (\<Sum>x\<in>?A. snd (pts ! i x) * fst (join_weight pts (i x)) * iv (i x))"
    unfolding A sum.reindex [OF inj] by (rule sum.cong [OF refl]) (simp add: ix)
  finally have "s mod shamir_p = (\<Sum>x\<in>?A. snd (pts ! i x) * fst (join_weight pts (i x)) * iv (i x)) mod shamir_p"
    using sm by simp
  also have "\<dots> = eval_poly cs 0 mod shamir_p"
  proof (rule shamir.interpolate)
    show "finite ?A" by simp
    show "length cs \<le> card ?A" using assms(1,3) by (metis distinct_card length_map list.set_map)
    fix x assume "x \<in> ?A"
    then obtain j where j: "j < length pts" "x = ?x j" unfolding A by auto
    have m: "pts ! j \<in> set pts" using j(1) by simp
    show "0 < x \<and> x < 256" using assms(2) m j(2) by (cases "pts ! j") auto
    have "snd (pts ! j) mod shamir_p = eval_poly cs (fst (pts ! j)) mod shamir_p"
      using assms(2) m by (cases "pts ! j") auto
    then show "snd (pts ! i x) mod shamir_p = eval_poly cs x mod shamir_p"
      using j ix by simp
    obtain num den where w: "join_weight pts j = (num, den)" by fastforce
    show "fst (join_weight pts (i x)) mod shamir_p = (\<Prod>y\<in>?A - {x}. y) mod shamir_p"
      using join_weight_spec(1) [OF assms(1) j(1) w] j ix w by simp
    show "((\<Prod>y\<in>?A - {x}. y - x) * iv (i x)) mod shamir_p = 1" using iv j ix by simp
  qed
  finally have "s = eval_poly cs 0 mod shamir_p" using js by simp
  then show ?thesis using js(1) by simp
qed

text \<open>The points behind some shards of a split.\<close>

lemma split_points:
  assumes "ShamirSplit rnd secret n k = Inr shards" "n < 256" "set pts \<subseteq> set shards" "distinct pts"
  obtains coeff xys where "1 \<le> k" "set_bytes secret < shamir_p" "length coeff = nat (k - 1)" "length xys = length pts"
    "distinct (map fst xys)" "\<forall>(x, y) \<in> set xys. 0 < x \<and> x < 256 \<and> y mod shamir_p = eval_poly (set_bytes secret # coeff) x mod shamir_p"
    "join_check [] (map Some pts) = Inr xys" "\<forall>p \<in> set pts. sh_Len p = int (length secret)"
proof -
  let ?s = "set_bytes secret"
  obtain coeff where k: "1 \<le> k" and lt: "?s < shamir_p" and c: "those (map rnd [0..<nat (k - 1)]) = Some coeff"
    and sh: "shards = map (\<lambda>x. \<lparr>sh_X = Some x, sh_Y = Some (evalPoly coeff ?s x), sh_Len = int (length secret)\<rparr>) [1..n]"
    using assms(1) by (auto simp: ShamirSplit_def Let_def not_le not_less split: if_splits option.splits)
  have "length cs = length xs" if "those xs = Some cs" for xs :: "int option list" and cs
    using that by (induction xs arbitrary: cs) (auto split: option.splits)
  with c have lc: "length coeff = nat (k - 1)" by fastforce
  define xys where "xys = map (\<lambda>p. (the (sh_X p), the (sh_Y p))) pts"
  have mem: "\<exists>x. 1 \<le> x \<and> x \<le> n \<and> p = \<lparr>sh_X = Some x, sh_Y = Some (evalPoly coeff ?s x), sh_Len = int (length secret)\<rparr>"
    if "p \<in> set pts" for p
    using that assms(3) unfolding sh by auto
  have pts: "map Some pts = map (\<lambda>(x, y). Some \<lparr>sh_X = Some x, sh_Y = Some y, sh_Len = int (length secret)\<rparr>) xys"
    unfolding xys_def map_map by (rule map_cong [OF refl]) (use mem in fastforce)
  have "inj_on (\<lambda>p. the (sh_X p)) (set pts)"
  proof (rule inj_onI)
    fix a b assume ab: "a \<in> set pts" "b \<in> set pts" "the (sh_X a) = the (sh_X b)"
    from mem [OF ab(1)] mem [OF ab(2)] ab(3) show "a = b" by auto
  qed
  then have d: "distinct (map fst xys)"
    using assms(4) by (simp add: xys_def comp_def distinct_map)
  have v: "\<forall>(x, y) \<in> set xys. 0 < x \<and> x < 256 \<and> y mod shamir_p = eval_poly (?s # coeff) x mod shamir_p"
    unfolding xys_def using mem assms(2) by (fastforce simp: evalPoly_mod)
  have "join_check [] (map Some pts) = Inr xys" unfolding pts by (rule join_check_ok) (use d in simp)
  moreover have "\<forall>p \<in> set pts. sh_Len p = int (length secret)" using mem by fastforce
  ultimately show thesis using that [OF k lt lc _ d v] by (simp add: xys_def)
qed

lemma shamir_join:
  assumes "ShamirSplit rnd secret n k = Inr shards" "n < 256"
    and "set pts \<subseteq> set shards" "distinct pts" "k \<le> int (length pts)"
  shows "ShamirJoin (map Some pts) = Inr secret"
proof -
  let ?s = "set_bytes secret"
  obtain coeff xys where p: "1 \<le> k" "?s < shamir_p" "length coeff = nat (k - 1)" "length xys = length pts" "distinct (map fst xys)"
    "\<forall>(x, y) \<in> set xys. 0 < x \<and> x < 256 \<and> y mod shamir_p = eval_poly (?s # coeff) x mod shamir_p"
    and jc: "join_check [] (map Some pts) = Inr xys" and len: "\<forall>p \<in> set pts. sh_Len p = int (length secret)"
    by (rule split_points [OF assms(1-4)]) (rule that)
  have ne: "pts \<noteq> []" "xys \<noteq> []" using assms(5) p(1,4) by auto
  have "length (?s # coeff) \<le> length xys" using assms(5) p(1,3,4) by simp
  from join_sum_secret [OF p(5,6) this ne(2)]
  have "join_sum xys [0..<length xys] 0 = Inr ?s" using p(2) set_bytes_nonneg [of secret] by simp
  moreover have "sh_Len (hd pts) = int (length secret)" using len ne(1) by simp
  ultimately show ?thesis
    using jc big_bytes_pad [of secret] ne(1) by (cases pts) (auto simp: ShamirJoin_def Let_def)
qed

text \<open>Any distinct shards of a split join to something, of the length of the secret when that has 32 bytes.\<close>

lemma big_bytes_bound: "n < 256 ^ k \<Longrightarrow> length (big_bytes n) \<le> k"
proof (induction k arbitrary: n)
  case 0
  then show ?case by (simp add: big_bytes.simps)
next
  case (Suc k)
  show ?case
  proof (cases "n \<le> 0")
    case False
    have "n div 256 < 256 ^ k" using Suc.prems by (simp add: less_mult_imp_div_less div_less_iff_less_mult)
    from Suc.IH [OF this] show ?thesis using False by (subst big_bytes.simps) simp
  qed (simp add: big_bytes.simps)
qed

lemma shamir_join_any:
  assumes "ShamirSplit rnd secret n k = Inr shards" "n < 256" "set pts \<subseteq> set shards" "distinct pts" "pts \<noteq> []" "length secret = 32"
  shows "\<exists>b. ShamirJoin (map Some pts) = Inr b \<and> length b = 32"
proof -
  obtain coeff xys where x: "length xys = length pts" "distinct (map fst xys)"
    and v: "\<forall>(x, y) \<in> set xys. 0 < x \<and> x < 256 \<and> y mod shamir_p = eval_poly (set_bytes secret # coeff) x mod shamir_p"
    and jc: "join_check [] (map Some pts) = Inr xys" and len: "\<forall>p \<in> set pts. sh_Len p = int (length secret)"
    by (rule split_points [OF assms(1-4)]) (rule that)
  have r: "\<forall>(x, y) \<in> set xys. 0 < x \<and> x < 256" using v by fast
  have "set [0..<length xys] \<subseteq> {..<length xys}" "[0..<length xys] \<noteq> []" using assms(5) x(1) by auto
  then obtain s where s: "join_sum xys [0..<length xys] 0 = Inr s" "s < shamir_p"
    using join_sum_spec [OF x(2) r, of "[0..<length xys]" 0] by auto
  then have "length (big_bytes s) \<le> 32" by (intro big_bytes_bound) (simp add: shamir_p_def)
  moreover have "sh_Len (hd pts) = 32" using len assms(5,6) by simp
  ultimately show ?thesis using s jc assms(5) by (cases pts) (auto simp: ShamirJoin_def Let_def)
qed

text \<open>
  C26: any k or more distinct shards of a split, in any order, reconstruct the secret byte for byte,
  leading zero bytes included (coordinates below 256).
\<close>

theorem shamir_roundtrip:
  assumes "ShamirSplit rnd secret n k = Inr shards" "n < 256"
    and "set pts \<subseteq> set shards" "distinct pts" "k \<le> int (length pts)"
  shows "ShamirJoin (map Some pts) = Inr secret"
  by (rule shamir_join [OF assms])

theorem shamir_roundtrip_witness:
  "\<exists>shards. ShamirSplit (\<lambda>i. Some (int i + 7)) [0, 5] 5 3 = Inr shards \<and> ShamirJoin (map Some [shards ! 4, shards ! 0, shards ! 2]) = Inr [0, 5]"
proof -
  obtain shards where s: "ShamirSplit (\<lambda>i. Some (int i + 7)) [0, 5] 5 3 = Inr shards"
    by (auto simp: ShamirSplit_def Let_def set_bytes_def shamir_p_def upt_rec upto.simps)
  then have sh: "shards = map (\<lambda>x. \<lparr>sh_X = Some x, sh_Y = Some (evalPoly [7, 8] 5 x), sh_Len = 2\<rparr>) [1, 2, 3, 4, 5]"
    by (auto simp: ShamirSplit_def Let_def set_bytes_def shamir_p_def upt_rec upto.simps)
  have "ShamirJoin (map Some [shards ! 4, shards ! 0, shards ! 2]) = Inr [0, 5]"
    by (rule shamir_roundtrip [OF s]) (auto simp: sh)
  with s show ?thesis by blast
qed

text \<open>
  A shard list that is empty, holds a nil shard or repeats a coordinate is refused, and the
  singular-denominator error cannot arise for distinct coordinates between 1 and 255.
\<close>

theorem shamir_reject:
  "ShamirJoin [] = Inl NoShards
   \<and> (\<forall>e. join_check [] pts = Inl e \<longrightarrow> pts \<noteq> [] \<longrightarrow> ShamirJoin pts = Inl e)
   \<and> (\<forall>xys. join_check [] pts = Inr xys \<longrightarrow> (\<forall>(x, y) \<in> set xys. 0 < x \<and> x < 256) \<longrightarrow> ShamirJoin pts \<noteq> Inl Singular)"
proof -
  have d: "join_check seen pts = Inr xys \<Longrightarrow> distinct (map fst xys) \<and> set seen \<inter> fst ` set xys = {}" for seen xys pts
  proof (induction pts arbitrary: seen xys)
    case (Cons pt pts)
    then obtain s x y zs where "pt = Some s" "sh_X s = Some x" "sh_Y s = Some y" "x \<notin> set seen"
      "join_check (x # seen) pts = Inr zs" "xys = (x, y) # zs"
      by (cases "join_check (the (sh_X (the pt)) # seen) pts") (auto split: option.splits if_splits)
    with Cons.IH [of "x # seen" zs] show ?case by auto
  qed simp
  have "ShamirJoin pts \<noteq> Inl Singular" if j: "join_check [] pts = Inr xys" and r: "\<forall>(x, y) \<in> set xys. 0 < x \<and> x < 256" for xys
    using join_sum_spec [of xys "[0..<length xys]" 0] d [OF j] r j
    by (auto simp: ShamirJoin_def Let_def atLeast0LessThan split: if_splits sum.splits)
  then show ?thesis by (auto simp: ShamirJoin_def)
qed

theorem shamir_reject_witness:
  "ShamirJoin [Some \<lparr>sh_X = Some 2, sh_Y = Some 9, sh_Len = 1\<rparr>, Some \<lparr>sh_X = Some 2, sh_Y = Some 9, sh_Len = 1\<rparr>] = Inl DuplicateX"
  using shamir_reject [of "[Some \<lparr>sh_X = Some 2, sh_Y = Some 9, sh_Len = 1\<rparr>, Some \<lparr>sh_X = Some 2, sh_Y = Some 9, sh_Len = 1\<rparr>]"]
  by simp

end
