(* ===== verification/Frost.thy ===== *)
theory Frost
  imports Shamir Prims "HOL-Library.Char_ord" "HOL-Library.List_Lexorder" "HOL-Library.AList"
begin

unbundle bit_operations_syntax

text \<open>
  FROST threshold signatures of \<open>frost.go\<close>.  The arithmetic of edwards25519 is given as the code has it
  (\<open>pointAdd\<close>, \<open>scalarMult\<close>, \<open>encode\<close>, \<open>decodePoint\<close> on big integers); the protocol is written over a
  record \<open>curve\<close> of the five operations it uses, of which \<open>ed25519\<close> is the instance of the code.
  Randomness is an argument: the 32 bytes a \<open>rand.Read\<close> fills, or None when it fails.
\<close>

section \<open>Field and group constants\<close>

definition fp :: int where
  "fp = 0x7fffffffffffffffffffffffffffffffffffffffffffffffffffffffffffffed"

definition fl :: int where
  "fl = 0x1000000000000000000000000000000014def9dea2f79cd65812631a5cf5d3ed"

record point =
  pX :: int
  pY :: int
  pZ :: int
  pT :: int

definition fieldNeg :: "int \<Rightarrow> int" where
  "fieldNeg a = fp - a mod fp"

definition fieldDiv :: "int \<Rightarrow> int \<Rightarrow> int" where
  "fieldDiv a b = (a mod fp * the (mod_inverse (b mod fp) fp)) mod fp"

text \<open>\<open>big.Int.Exp\<close> by squaring.\<close>

function pow_mod :: "int \<Rightarrow> nat \<Rightarrow> int \<Rightarrow> int" where
  "pow_mod b n m = (if n = 0 then 1 mod m
     else let h = pow_mod b (n div 2) m; s = (h * h) mod m in if odd n then (s * b) mod m else s)"
  by pat_completeness auto
termination
  by (relation "measure (\<lambda>(b, n, m). n)") auto

declare pow_mod.simps [simp del, loop_unfold]

definition fd :: int where
  "fd = fieldDiv (fieldNeg 121665) 121666"

definition sqrtM1 :: int where
  "sqrtM1 = pow_mod 2 (nat ((fp - 1) div 4)) fp"

definition identity :: point where
  "identity = \<lparr>pX = 0, pY = 1, pZ = 1, pT = 0\<rparr>"

definition basePoint :: point where
  "basePoint = (let x = 0x216936d3cd6e53fec0a4e231fdd6dc5c692cc7609525a7b2c9562d608f25d51a;
     y = 0x6666666666666666666666666666666666666666666666666666666666666658
   in \<lparr>pX = x, pY = y, pZ = 1, pT = x * y\<rparr>)"

definition pointAdd :: "point \<Rightarrow> point \<Rightarrow> point" where
  "pointAdd p q =
     (let a = ((pY p - pX p) * (pY q - pX q)) mod fp;
          b = ((pY p + pX p) * (pY q + pX q)) mod fp;
          c = (pT p * pT q * fd * 2) mod fp;
          d = (pZ p * pZ q * 2) mod fp;
          e = (b - a) mod fp; f = (d - c) mod fp; g = (d + c) mod fp; h = (b + a) mod fp
      in \<lparr>pX = (e * f) mod fp, pY = (g * h) mod fp, pZ = (f * g) mod fp, pT = (e * h) mod fp\<rparr>)"

definition byte_bits :: "byte \<Rightarrow> bool list" where
  "byte_bits b = map (bit b) [7, 6, 5, 4, 3, 2, 1, 0]"

definition scalarMult :: "int \<Rightarrow> point \<Rightarrow> point" where
  "scalarMult k P = foldl (\<lambda>Q b. let Q2 = pointAdd Q Q in if b then pointAdd Q2 P else Q2)
     identity (concat (map byte_bits (big_bytes \<bar>k\<bar>)))"

definition fillLE :: "nat \<Rightarrow> int \<Rightarrow> bytes" where
  "fillLE n v = map (\<lambda>i. word_of_int (v div 256 ^ i)) [0..<n]"

definition leToInt :: "bytes \<Rightarrow> int" where
  "leToInt b = set_bytes (rev b)"

text \<open>
  \<open>encode\<close>; a point with \<open>Z = 0\<close> has no inverse and the Go code panics, which the empty string marks
  (the addition formula is complete, so no point of the curve gets there).
\<close>

definition encode :: "point \<Rightarrow> bytes" where
  "encode p = (case mod_inverse (pZ p) fp of None \<Rightarrow> []
     | Some z \<Rightarrow> (let x = (pX p * z) mod fp; y = (pY p * z) mod fp; b = fillLE 32 y
        in if odd x then b[31 := b ! 31 OR 0x80] else b))"

datatype frost_error =
    PointLength | YTooBig | SingularPoint | NotOnCurve | ScalarLength
  | BadHex | BadShareValue | BadKeyLengths | ShareMismatch | Threshold | NoRandom
  | NoMaterial string | MissingShare string | InvalidShare string
  | Reused | NoCommitmentMade | EmptyTranscript | CommitLength | UnknownSigner string | DuplicateCommit string
  | NeedCommitments | NoCommitmentFor string | NoPubShare string | NoChallenge | NoIndices | NeedShares
  | TooFewSigners | Panicked

definition decodePoint :: "bytes \<Rightarrow> frost_error + point" where
  "decodePoint b =
     (if length b \<noteq> 32 then Inl PointLength
      else let sign = drop_bit 7 (b ! 31); y = leToInt (b[31 := b ! 31 AND 0x7f]) in
        if fp \<le> y then Inl YTooBig
        else let y2 = (y * y) mod fp; u = (y2 - 1) mod fp; v = (fd * y2 + 1) mod fp in
          (case mod_inverse v fp of None \<Rightarrow> Inl SingularPoint
           | Some iv \<Rightarrow>
              let x2 = (u * iv) mod fp;
                  x0 = pow_mod x2 (nat ((fp + 3) div 8)) fp;
                  x1 = (if (x0 * x0) mod fp \<noteq> x2 then (x0 * sqrtM1) mod fp else x0) in
              if (x1 * x1) mod fp \<noteq> x2 then Inl NotOnCurve
              else let x = (if x1 mod 2 \<noteq> uint sign then fp - x1 else x1) in
                Inr \<lparr>pX = x, pY = y, pZ = 1, pT = (x * y) mod fp\<rparr>))"

section \<open>Scalars\<close>

definition ed25519Scalar :: "prims \<Rightarrow> bytes \<Rightarrow> int" where
  "ed25519Scalar P seed =
     (let h = sha512 P seed; h1 = h[0 := h ! 0 AND 248];
          h2 = h1[31 := (h1 ! 31 AND 63) OR 64] in leToInt (take 32 h2))"

definition randomScalar :: "bytes option \<Rightarrow> int option" where
  "randomScalar r = map_option (\<lambda>b. leToInt b mod fl) r"

definition hashToScalar :: "prims \<Rightarrow> bytes list \<Rightarrow> int" where
  "hashToScalar P parts = leToInt (sha512 P (concat parts)) mod fl"

definition scalarBytes :: "int \<Rightarrow> bytes" where
  "scalarBytes s = fillLE 32 (s mod fl)"

definition scalarFromBytes :: "bytes \<Rightarrow> frost_error + int" where
  "scalarFromBytes b = (if length b \<noteq> 32 then Inl ScalarLength else Inr (leToInt b mod fl))"

section \<open>The group the protocol runs over\<close>

record 'g curve =
  g_add :: "'g \<Rightarrow> 'g \<Rightarrow> 'g"
  g_mul :: "int \<Rightarrow> 'g \<Rightarrow> 'g"
  g_base :: 'g
  g_id :: 'g
  g_enc :: "'g \<Rightarrow> bytes"
  g_dec :: "bytes \<Rightarrow> frost_error + 'g"

definition ed25519 :: "point curve" where
  "ed25519 = \<lparr>g_add = pointAdd, g_mul = scalarMult, g_base = basePoint, g_id = identity,
     g_enc = encode, g_dec = decodePoint\<rparr>"

definition g_exp :: "'g curve \<Rightarrow> int \<Rightarrow> 'g" where
  "g_exp C k = g_mul C k (g_base C)"

section \<open>Sharing\<close>

definition evalPolyL :: "int list \<Rightarrow> int \<Rightarrow> int \<Rightarrow> int" where
  "evalPolyL coeff secret x = eval_loop fl x coeff secret x"

text \<open>The loop of \<open>ShareVerifies\<close>: \<open>xp\<close> is not reduced.\<close>

fun commit_sum :: "'g curve \<Rightarrow> int \<Rightarrow> 'g list \<Rightarrow> 'g \<Rightarrow> int \<Rightarrow> 'g" where
  "commit_sum C x [] acc xp = acc"
| "commit_sum C x (c # cs) acc xp = commit_sum C x cs (g_add C acc (g_mul C xp c)) (xp * x)"

definition ShareVerifies :: "'g curve \<Rightarrow> 'g list \<Rightarrow> int \<Rightarrow> int \<Rightarrow> bool" where
  "ShareVerifies C commit x share \<longleftrightarrow> g_enc C (commit_sum C x commit (g_id C) 1) = g_enc C (g_exp C share)"

record DkgCommitJSON =
  dc_ID :: string
  dc_Commits :: "string list"

record 'g FrostSigner =
  fs_ID :: string
  fs_X :: int
  fs_Share :: int
  fs_GroupPub :: bytes
  fs_PubShare :: bytes
  fs_VK :: "'g list"
  fs_GlobalVK :: "DkgCommitJSON list"
  fs_d :: "int option"
  fs_e :: "int option"
  fs_used :: bool

text \<open>\<open>Sprintf "%d"\<close> of a non-negative index.\<close>

fun digits :: "nat \<Rightarrow> string" where
  "digits n = (if n < 10 then [char_of (48 + n)] else digits (n div 10) @ [char_of (48 + n mod 10)])"

declare digits.simps [simp del, loop_unfold]

definition member_id :: "nat \<Rightarrow> string" where
  "member_id x = ''M'' @ digits x"

definition rand_coeffs :: "bytes option list \<Rightarrow> nat \<Rightarrow> int list option" where
  "rand_coeffs rs n = those (map (\<lambda>i. if i < length rs then randomScalar (rs ! i) else None) [0..<n])"

definition commitments :: "'g curve \<Rightarrow> int list \<Rightarrow> 'g list" where
  "commitments C cs = map (g_exp C) cs"

definition FrostSplit ::
  "prims \<Rightarrow> 'g curve \<Rightarrow> bytes option list \<Rightarrow> bytes \<Rightarrow> int \<Rightarrow> int \<Rightarrow> frost_error + ('g FrostSigner list \<times> bytes)" where
  "FrostSplit P C rs seed n t =
     (if n < t \<or> t < 1 then Inl Threshold
      else let a = ed25519Scalar P seed in
        (case rand_coeffs rs (nat (t - 1)) of None \<Rightarrow> Inl NoRandom
         | Some coeff \<Rightarrow>
            let commit = commitments C (a # coeff); gp = g_enc C (hd commit) in
            Inr (map (\<lambda>x. let share = evalPolyL coeff a x in
                \<lparr>fs_ID = member_id (nat x), fs_X = x, fs_Share = share, fs_GroupPub = gp,
                 fs_PubShare = g_enc C (g_exp C share), fs_VK = commit, fs_GlobalVK = [],
                 fs_d = None, fs_e = None, fs_used = False\<rparr>) [1..n], gp)))"

section \<open>Share files\<close>

record FrostShareFile =
  sf_ID :: string
  sf_X :: int
  sf_Y :: "int option"
  sf_GroupPub :: bytes
  sf_PubShare :: bytes
  sf_VK :: "string list"
  sf_GlobalVK :: "DkgCommitJSON list"

fun parsePoints :: "'g curve \<Rightarrow> string list \<Rightarrow> frost_error + 'g list" where
  "parsePoints C [] = Inr []"
| "parsePoints C (s # ss) = (case hex_decode s of None \<Rightarrow> Inl BadHex
    | Some raw \<Rightarrow> (case g_dec C raw of Inl e \<Rightarrow> Inl e
        | Inr p \<Rightarrow> (case parsePoints C ss of Inl e \<Rightarrow> Inl e | Inr ps \<Rightarrow> Inr (p # ps))))"

definition sf_Signer :: "'g curve \<Rightarrow> FrostShareFile \<Rightarrow> frost_error + 'g FrostSigner" where
  "sf_Signer C f = (case sf_Y f of None \<Rightarrow> Inl BadShareValue
     | Some y \<Rightarrow>
       if fl \<le> y \<or> y < 0 then Inl BadShareValue
       else if length (sf_GroupPub f) \<noteq> 32 \<or> length (sf_PubShare f) \<noteq> 32 then Inl BadKeyLengths
       else
         let s = \<lparr>fs_ID = sf_ID f, fs_X = sf_X f, fs_Share = y, fs_GroupPub = sf_GroupPub f, fs_PubShare = sf_PubShare f,
               fs_VK = [], fs_GlobalVK = [], fs_d = None, fs_e = None, fs_used = False\<rparr>;
             vk = (if sf_VK f = [] \<and> sf_GlobalVK f \<noteq> []
                   then foldl (\<lambda>v g. if dc_ID g = sf_ID f then dc_Commits g else v) [] (sf_GlobalVK f) else sf_VK f)
         in if vk = [] then Inr s
            else (case parsePoints C vk of Inl e \<Rightarrow> Inl e
              | Inr pts \<Rightarrow> if ShareVerifies C pts (sf_X f) y then Inr (s\<lparr>fs_VK := pts\<rparr>) else Inl ShareMismatch))"

section \<open>Distributed key generation\<close>

record 'g DkgMaterial =
  dm_ID :: string
  dm_Commits :: "'g list"
  dm_Shares :: "(string \<times> int) list"

definition DkgGenerate :: "'g curve \<Rightarrow> bytes option list \<Rightarrow> string \<Rightarrow> int \<Rightarrow> int \<Rightarrow> frost_error + 'g DkgMaterial" where
  "DkgGenerate C rs pid n t =
     (if n < t \<or> t < 1 then Inl Threshold
      else (case rand_coeffs rs (nat t) of
          Some (a # coeff) \<Rightarrow>
            Inr \<lparr>dm_ID = pid, dm_Commits = commitments C (a # coeff),
                 dm_Shares = map (\<lambda>x. (member_id (nat x), evalPolyL coeff a x)) [1..n]\<rparr>
        | _ \<Rightarrow> Inl NoRandom))"

fun parse_digits :: "string \<Rightarrow> int \<Rightarrow> int option" where
  "parse_digits [] x = Some x"
| "parse_digits (c # cs) x = (let n = (of_char c :: nat) in
     if n < 48 \<or> 57 < n then None else parse_digits cs (wrap64 (x * 10 + int (n - 48))))"

definition memberX :: "string \<Rightarrow> int" where
  "memberX pid = (if length pid < 2 \<or> hd pid \<noteq> CHR ''M'' then 0
     else case parse_digits (tl pid) 0 of None \<Rightarrow> 0 | Some x \<Rightarrow> x)"

text \<open>The loop of \<open>DkgFinalize\<close> over the materials, in map order; \<open>m.Commits[0]\<close> panics on an empty vector.\<close>

fun finalize_loop ::
  "'g curve \<Rightarrow> string \<Rightarrow> 'g DkgMaterial list \<Rightarrow> int \<Rightarrow> 'g \<Rightarrow> frost_error + (int \<times> 'g)" where
  "finalize_loop C pid [] share grp = Inr (share, grp)"
| "finalize_loop C pid (m # ms) share grp =
     (case dm_Commits m of [] \<Rightarrow> Inl Panicked
      | c0 # _ \<Rightarrow> (case map_of (dm_Shares m) pid of None \<Rightarrow> Inl (MissingShare (dm_ID m))
          | Some s \<Rightarrow>
            if \<not> ShareVerifies C (dm_Commits m) (memberX pid) s then Inl (InvalidShare (dm_ID m))
            else finalize_loop C pid ms (share + s) (g_add C grp c0)))"

definition DkgFinalize ::
  "'g curve \<Rightarrow> string \<Rightarrow> (string \<times> 'g DkgMaterial) list \<Rightarrow> frost_error + ('g FrostSigner \<times> bytes)" where
  "DkgFinalize C pid mats =
     (if map_of mats pid = None then Inl (NoMaterial pid)
      else (case finalize_loop C pid (map snd mats) 0 (g_id C) of Inl e \<Rightarrow> Inl e
        | Inr (acc, grp) \<Rightarrow>
           let share = acc mod fl in
           Inr (\<lparr>fs_ID = pid, fs_X = memberX pid, fs_Share = share, fs_GroupPub = g_enc C grp,
                 fs_PubShare = g_enc C (g_exp C share), fs_VK = [], fs_GlobalVK = [],
                 fs_d = None, fs_e = None, fs_used = False\<rparr>, g_enc C grp)))"

section \<open>Signing\<close>

definition fs_Commit ::
  "'g curve \<Rightarrow> bytes option \<Rightarrow> bytes option \<Rightarrow> 'g FrostSigner \<Rightarrow> (frost_error + bytes) \<times> 'g FrostSigner" where
  "fs_Commit C r1 r2 s =
     (if fs_used s then (Inl Reused, s)
      else let s1 = s\<lparr>fs_used := True, fs_d := randomScalar r1\<rparr> in
        (case randomScalar r1 of None \<Rightarrow> (Inl NoRandom, s1)
         | Some d \<Rightarrow> let s2 = s1\<lparr>fs_e := randomScalar r2\<rparr> in
            (case randomScalar r2 of None \<Rightarrow> (Inl NoRandom, s2)
             | Some e \<Rightarrow> (Inr (g_enc C (g_exp C d) @ g_enc C (g_exp C e)), s2))))"

record FrostTranscript =
  tr_M :: bytes
  tr_Commits :: "(string \<times> bytes) list"
  tr_Xs :: "(string \<times> int) list"
  tr_R :: bytes
  tr_C :: bytes

definition sortedIDs :: "FrostTranscript \<Rightarrow> string list" where
  "sortedIDs t = sort (map fst (tr_Commits t))"

definition bindingFactor :: "prims \<Rightarrow> FrostTranscript \<Rightarrow> bytes \<Rightarrow> string \<Rightarrow> int" where
  "bindingFactor P t groupPub pid = hashToScalar P
     ([str_bytes ''to-binding'', groupPub, tr_M t] @ map (\<lambda>sid. the (map_of (tr_Commits t) sid)) (sortedIDs t) @ [str_bytes pid])"

fun lagrange_loop :: "int \<Rightarrow> int list \<Rightarrow> int \<Rightarrow> int \<Rightarrow> int \<times> int" where
  "lagrange_loop xi [] num den = (num, den)"
| "lagrange_loop xi (xj # xs) num den =
     (if xj = xi then lagrange_loop xi xs num den
      else lagrange_loop xi xs (num * xj) (den * wrap64 (xj - xi)))"

text \<open>None is the nil-pointer panic when the denominator has no inverse.\<close>

definition lagrange :: "int \<Rightarrow> int list \<Rightarrow> int option" where
  "lagrange xi xs = (case lagrange_loop xi xs 1 1 of (num, den) \<Rightarrow>
     map_option (\<lambda>iv. (num mod fl * iv) mod fl) (mod_inverse (den mod fl) fl))"

definition map_index :: "(string \<times> int) list \<Rightarrow> string \<Rightarrow> int" where
  "map_index xs pid = (case map_of xs pid of None \<Rightarrow> 0 | Some x \<Rightarrow> x)"

definition participantXs :: "FrostTranscript \<Rightarrow> int list" where
  "participantXs t = map (map_index (tr_Xs t)) (sortedIDs t)"

definition SignShare :: "prims \<Rightarrow> 'g FrostSigner \<Rightarrow> FrostTranscript \<Rightarrow> frost_error + bytes" where
  "SignShare P s t = (case (fs_d s, fs_e s) of
     (Some d, Some e) \<Rightarrow>
       if tr_Commits t = [] \<or> tr_Xs t = [] then Inl EmptyTranscript
       else let rho = bindingFactor P t (fs_GroupPub s) (fs_ID s); c = leToInt (tr_C t) mod fl in
         (case lagrange (fs_X s) (participantXs t) of None \<Rightarrow> Inl Panicked
          | Some lam \<Rightarrow> Inr (scalarBytes ((rho * e + d + c * (lam * fs_Share s)) mod fl)))
   | _ \<Rightarrow> Inl NoCommitmentMade)"

section \<open>Aggregation\<close>

record 'g FrostAggregator =
  ag_groupPub :: bytes
  ag_pubs :: "(string \<times> 'g) list"
  ag_commits :: "(string \<times> bytes) list"
  ag_shares :: "(string \<times> int) list"
  ag_R :: "'g option"
  ag_c :: int
  ag_m :: bytes
  ag_xs :: "(string \<times> int) list"

definition NewFrostAggregator :: "'g curve \<Rightarrow> bytes \<Rightarrow> (string \<times> bytes) list \<Rightarrow> 'g FrostAggregator" where
  "NewFrostAggregator C groupPub pubs =
     \<lparr>ag_groupPub = groupPub,
      ag_pubs = List.map_filter (\<lambda>(pid, b). case g_dec C b of Inl _ \<Rightarrow> None | Inr p \<Rightarrow> Some (pid, p)) pubs,
      ag_commits = [], ag_shares = [], ag_R = None, ag_c = 0, ag_m = [], ag_xs = []\<rparr>"

definition SetXs :: "(string \<times> int) list \<Rightarrow> 'g FrostAggregator \<Rightarrow> 'g FrostAggregator" where
  "SetXs xs a = a\<lparr>ag_xs := xs\<rparr>"

definition AddCommit :: "string \<Rightarrow> bytes \<Rightarrow> 'g FrostAggregator \<Rightarrow> frost_error + 'g FrostAggregator" where
  "AddCommit pid de a =
     (if length de \<noteq> 64 then Inl CommitLength
      else if map_of (ag_pubs a) pid = None then Inl (UnknownSigner pid)
      else if map_of (ag_commits a) pid \<noteq> None then Inl (DuplicateCommit pid)
      else Inr (a\<lparr>ag_commits := ag_commits a @ [(pid, de)]\<rparr>))"

text \<open>A commitment of less than 32 bytes is sliced out of range, which panics.\<close>

fun nonce_loop ::
  "prims \<Rightarrow> 'g curve \<Rightarrow> FrostTranscript \<Rightarrow> bytes \<Rightarrow> (string \<times> bytes) list \<Rightarrow> 'g \<Rightarrow> frost_error + 'g" where
  "nonce_loop P C t groupPub [] R = Inr R"
| "nonce_loop P C t groupPub ((pid, de) # cs) R =
     (if length de < 32 then Inl Panicked else case g_dec C (take 32 de) of Inl e \<Rightarrow> Inl e
      | Inr D \<Rightarrow> (case g_dec C (drop 32 de) of Inl e \<Rightarrow> Inl e
         | Inr E \<Rightarrow> nonce_loop P C t groupPub cs
             (g_add C R (g_add C D (g_mul C (bindingFactor P t groupPub pid) E)))))"

definition aggregateNonce :: "prims \<Rightarrow> 'g curve \<Rightarrow> bytes \<Rightarrow> bytes \<Rightarrow> (string \<times> bytes) list \<Rightarrow> frost_error + 'g" where
  "aggregateNonce P C groupPub m commits =
     (if commits = [] then Inl NeedCommitments
      else nonce_loop P C \<lparr>tr_M = m, tr_Commits = commits, tr_Xs = [], tr_R = [], tr_C = []\<rparr> groupPub commits (g_id C))"

definition ComputeChallenge ::
  "prims \<Rightarrow> 'g curve \<Rightarrow> bytes \<Rightarrow> bytes \<Rightarrow> (string \<times> bytes) list \<Rightarrow> frost_error + (bytes \<times> bytes)" where
  "ComputeChallenge P C groupPub m commits = (case aggregateNonce P C groupPub m commits of
     Inl e \<Rightarrow> Inl e
   | Inr R \<Rightarrow> Inr (g_enc C R, scalarBytes (hashToScalar P [g_enc C R, groupPub, m])))"

definition UseBlindedChallenge :: "bytes \<Rightarrow> 'g \<Rightarrow> bytes \<Rightarrow> 'g FrostAggregator \<Rightarrow> 'g FrostAggregator" where
  "UseBlindedChallenge cPrime Rp m a = a\<lparr>ag_c := leToInt cPrime mod fl, ag_R := Some Rp, ag_m := m\<rparr>"

definition Challenge ::
  "prims \<Rightarrow> 'g curve \<Rightarrow> bytes \<Rightarrow> 'g FrostAggregator \<Rightarrow> frost_error + ((bytes \<times> bytes) \<times> 'g FrostAggregator)" where
  "Challenge P C m a =
     (if ag_commits a = [] \<or> length (ag_commits a) \<noteq> length (ag_pubs a) then Inl NeedCommitments
      else (case ComputeChallenge P C (ag_groupPub a) m (ag_commits a) of Inl e \<Rightarrow> Inl e
        | Inr (r, c) \<Rightarrow> (case g_dec C r of Inl e \<Rightarrow> Inl e
           | Inr R \<Rightarrow> Inr ((r, c), a\<lparr>ag_R := Some R, ag_c := leToInt c mod fl, ag_m := m\<rparr>))))"

text \<open>
  \<open>AddShare\<close> drops the decoding errors of D and E: the challenge has decoded them before.
\<close>

definition AddShare ::
  "prims \<Rightarrow> 'g curve \<Rightarrow> string \<Rightarrow> bytes \<Rightarrow> 'g FrostAggregator \<Rightarrow> frost_error + 'g FrostAggregator" where
  "AddShare P C pid z a = (case scalarFromBytes z of Inl e \<Rightarrow> Inl e
     | Inr zi \<Rightarrow> (case map_of (ag_commits a) pid of None \<Rightarrow> Inl (NoCommitmentFor pid)
        | Some de \<Rightarrow> (case map_of (ag_pubs a) pid of None \<Rightarrow> Inl (NoPubShare pid)
           | Some Ai \<Rightarrow>
              if ag_R a = None then Inl NoChallenge
              else if length (ag_xs a) \<noteq> length (ag_pubs a) then Inl NoIndices
              else
                let t = \<lparr>tr_M = ag_m a, tr_Commits = ag_commits a, tr_Xs = ag_xs a, tr_R = [], tr_C = []\<rparr>;
                    rho = bindingFactor P t (ag_groupPub a) pid in
                (case (g_dec C (take 32 de), g_dec C (drop 32 de), lagrange (map_index (ag_xs a) pid) (participantXs t)) of
                   (Inr D, Inr E, Some lam) \<Rightarrow>
                     if g_enc C (g_exp C zi)
                          = g_enc C (g_add C (g_add C D (g_mul C rho E)) (g_mul C (ag_c a * lam) Ai))
                     then Inr (a\<lparr>ag_shares := AList.update pid zi (ag_shares a)\<rparr>)
                     else Inl (InvalidShare pid)
                 | _ \<Rightarrow> Inl Panicked))))"

definition Aggregate :: "'g curve \<Rightarrow> 'g FrostAggregator \<Rightarrow> frost_error + bytes" where
  "Aggregate C a =
     (if length (ag_shares a) \<noteq> length (ag_pubs a) then Inl NeedShares
      else case ag_R a of None \<Rightarrow> Inl NoChallenge
        | Some R \<Rightarrow> Inr (g_enc C R @ scalarBytes (sum_list (map snd (ag_shares a)) mod fl)))"

section \<open>The round\<close>

text \<open>
  Every signer commits in turn; a failure stops the round with the signers as they are by then.  The
  signers of the list are distinct objects.
\<close>

fun commit_all ::
  "'g curve \<Rightarrow> (bytes option \<times> bytes option) list \<Rightarrow> 'g FrostSigner list \<Rightarrow>
     (frost_error + (string \<times> bytes) list) \<times> 'g FrostSigner list" where
  "commit_all C rs [] = (Inr [], [])"
| "commit_all C rs (s # ss) =
     (let (r1, r2) = (case rs of [] \<Rightarrow> (None, None) | r # _ \<Rightarrow> r) in
      (case fs_Commit C r1 r2 s of
         (Inl e, s') \<Rightarrow> (Inl e, s' # ss)
       | (Inr de, s') \<Rightarrow> (case commit_all C (tl rs) ss of
            (Inl e, ss') \<Rightarrow> (Inl e, s' # ss')
          | (Inr cs, ss') \<Rightarrow> (Inr ((fs_ID s, de) # cs), s' # ss'))))"

fun add_commits :: "(string \<times> bytes) list \<Rightarrow> 'g FrostAggregator \<Rightarrow> frost_error + 'g FrostAggregator" where
  "add_commits [] a = Inr a"
| "add_commits ((pid, de) # cs) a = (case AddCommit pid de a of Inl e \<Rightarrow> Inl e | Inr a' \<Rightarrow> add_commits cs a')"

fun add_shares ::
  "prims \<Rightarrow> 'g curve \<Rightarrow> FrostTranscript \<Rightarrow> 'g FrostSigner list \<Rightarrow> 'g FrostAggregator \<Rightarrow> frost_error + 'g FrostAggregator" where
  "add_shares P C t [] a = Inr a"
| "add_shares P C t (s # ss) a = (case SignShare P s t of Inl e \<Rightarrow> Inl e
    | Inr z \<Rightarrow> (case AddShare P C (fs_ID s) z a of Inl e \<Rightarrow> Inl e | Inr a' \<Rightarrow> add_shares P C t ss a'))"

text \<open>The maps of the round are keyed by signer id: a later entry replaces an earlier one.\<close>

definition keyed :: "(string \<times> 'v) list \<Rightarrow> (string \<times> 'v) list" where
  "keyed kvs = fold (\<lambda>(k, v) m. AList.update k v m) kvs []"

definition round_maps :: "'g FrostSigner list \<Rightarrow> (string \<times> bytes) list \<times> (string \<times> int) list" where
  "round_maps signers = (keyed (map (\<lambda>s. (fs_ID s, fs_PubShare s)) signers), keyed (map (\<lambda>s. (fs_ID s, fs_X s)) signers))"

definition FrostRound ::
  "prims \<Rightarrow> 'g curve \<Rightarrow> (bytes option \<times> bytes option) list \<Rightarrow> bytes \<Rightarrow> 'g FrostSigner list \<Rightarrow> bytes \<Rightarrow>
     (frost_error + bytes) \<times> 'g FrostSigner list" where
  "FrostRound P C rs groupPub signers m =
     (if length signers < 2 then (Inl TooFewSigners, signers)
      else let (pubs, xs) = round_maps signers;
               agg = SetXs xs (NewFrostAggregator C groupPub pubs) in
        (case commit_all C rs signers of
           (Inl e, signers') \<Rightarrow> (Inl e, signers')
         | (Inr cs, signers') \<Rightarrow>
           let commits = keyed cs in
           ((case add_commits commits agg of Inl e \<Rightarrow> Inl e
            | Inr agg1 \<Rightarrow> (case Challenge P C m agg1 of Inl e \<Rightarrow> Inl e
               | Inr ((r, c), agg2) \<Rightarrow>
                 (case add_shares P C \<lparr>tr_M = m, tr_Commits = commits, tr_Xs = xs, tr_R = r, tr_C = c\<rparr> signers' agg2 of
                    Inl e \<Rightarrow> Inl e
                  | Inr agg3 \<Rightarrow> Aggregate C agg3))), signers')))"

end
