(* ===== verification/FrostLaws.thy ===== *)
theory FrostLaws
  imports Frost
begin

text \<open>
  Lemmas on the FROST operations: little-endian scalars, the laws of the group (\<open>curve_ok\<close>, over a relation
  \<open>rep\<close> saying that a point represents a multiple of the base point), Feldman checks, Lagrange coefficients,
  member ids.
\<close>

section \<open>The order of the group\<close>

lemma fl_gt: "1 < fl" by (simp add: fl_def)

lemma fl_pos [simp]: "0 < fl" "0 \<le> fl" "fl \<noteq> 0" by (simp_all add: fl_def)

lemma mod_fl_range [simp]: "0 \<le> x mod fl" "x mod fl < fl" by simp_all

interpretation frost: share_field fl 256
proof
  show "1 < fl" by (rule fl_gt)
  have "(- 3304400077658284377089614222923152991290520997038171728798383378045610030317) * prod_list small_primes +
      29343858672861773443685736308432359283188427059522132588803851302704974649969164407932715212898885099 * fl = 1"
    by (simp add: small_primes_prod fl_def)
  then show "0 < k \<Longrightarrow> k < 256 \<Longrightarrow> coprime k fl" for k by (rule coprime_below_256)
qed

section \<open>Little-endian scalars\<close>

lemma leToInt_Cons: "leToInt (x # b) = leToInt b * 256 + uint x"
  by (simp add: leToInt_def set_bytes_snoc)

lemma leToInt_Nil [simp]: "leToInt [] = 0"
  by (simp add: leToInt_def set_bytes_def)

lemma leToInt_nonneg [simp]: "0 \<le> leToInt b"
  by (simp add: leToInt_def set_bytes_nonneg)

lemma fillLE_Suc: "fillLE (Suc n) v = word_of_int v # fillLE n (v div 256)"
  unfolding fillLE_def by (simp only: map_upt_Suc) (simp add: zdiv_zmult2_eq mult.commute)

lemma length_fillLE [simp]: "length (fillLE n v) = n"
  by (simp add: fillLE_def)

lemma leToInt_fillLE: "0 \<le> v \<Longrightarrow> v < 256 ^ n \<Longrightarrow> leToInt (fillLE n v) = v"
proof (induction n arbitrary: v)
  case 0
  then show ?case by (simp add: fillLE_def)
next
  case (Suc n)
  have "v div 256 < 256 ^ n" using Suc.prems by (simp add: int_div_less_self div_less_iff_less_mult mult.commute)
  then have "leToInt (fillLE n (v div 256)) = v div 256" using Suc by simp
  moreover have "uint (word_of_int v :: byte) = v mod 256" by (simp add: uint_word_of_int)
  ultimately show ?case by (simp add: fillLE_Suc leToInt_Cons)
qed

lemma length_scalarBytes [simp]: "length (scalarBytes s) = 32"
  by (simp add: scalarBytes_def)

lemma leToInt_scalarBytes [simp]: "leToInt (scalarBytes s) = s mod fl"
proof -
  have "s mod fl < fl" by simp
  also have "fl < 256 ^ 32" by (simp add: fl_def)
  finally show ?thesis by (simp add: scalarBytes_def leToInt_fillLE)
qed

lemma scalarFromBytes_scalarBytes [simp]: "scalarFromBytes (scalarBytes s) = Inr (s mod fl)"
  by (simp add: scalarFromBytes_def)

lemma scalarBytes_inject: "scalarBytes a = scalarBytes b \<longleftrightarrow> a mod fl = b mod fl"
  by (metis leToInt_scalarBytes scalarBytes_def)

lemma hashToScalar_range [simp]: "0 \<le> hashToScalar P ps" "hashToScalar P ps < fl"
  by (simp_all add: hashToScalar_def)

lemma randomScalar_nonneg: "randomScalar r = Some d \<Longrightarrow> 0 \<le> d"
  by (auto simp: randomScalar_def)

section \<open>The group laws\<close>

text \<open>
  \<open>rep p a\<close>: the point p is a valid representation of a times the base point.  For edwards25519 these are
  the group laws of the curve, the order L of the base point and the injectivity of the compressed encoding.
\<close>

definition curve_ok :: "'g curve \<Rightarrow> ('g \<Rightarrow> int \<Rightarrow> bool) \<Rightarrow> bool" where
  "curve_ok C rep \<longleftrightarrow> rep (g_base C) 1 \<and> rep (g_id C) 0
     \<and> (\<forall>p a q b. rep p a \<longrightarrow> rep q b \<longrightarrow> rep (g_add C p q) (a + b) \<and> (g_enc C p = g_enc C q \<longleftrightarrow> a mod fl = b mod fl))
     \<and> (\<forall>p a k. rep p a \<longrightarrow> 0 \<le> k \<longrightarrow> rep (g_mul C k p) (k * a))
     \<and> (\<forall>p a. rep p a \<longrightarrow> length (g_enc C p) = 32 \<and> (\<exists>q. g_dec C (g_enc C p) = Inr q \<and> rep q a))"

text \<open>RFC 8032 verification, on encodings of multiples of the base point.\<close>

definition ed_verify_eq :: "prims \<Rightarrow> 'g curve \<Rightarrow> ('g \<Rightarrow> int \<Rightarrow> bool) \<Rightarrow> bool" where
  "ed_verify_eq P C rep \<longleftrightarrow> (\<forall>A a R r m z. rep A a \<longrightarrow> rep R r \<longrightarrow>
     (ed_verify P (g_enc C A) m (g_enc C R @ scalarBytes z)
        \<longleftrightarrow> z mod fl = (r + hashToScalar P [g_enc C R, g_enc C A, m] * a) mod fl))"

lemma rep_base: "curve_ok C rep \<Longrightarrow> rep (g_base C) 1"
  by (simp only: curve_ok_def)

lemma rep_id: "curve_ok C rep \<Longrightarrow> rep (g_id C) 0"
  by (simp only: curve_ok_def)

lemma rep_add: "curve_ok C rep \<Longrightarrow> rep p a \<Longrightarrow> rep q b \<Longrightarrow> rep (g_add C p q) (a + b)"
  unfolding curve_ok_def by blast

lemma rep_mul: "curve_ok C rep \<Longrightarrow> rep p a \<Longrightarrow> 0 \<le> k \<Longrightarrow> rep (g_mul C k p) (k * a)"
  unfolding curve_ok_def by blast

lemma rep_exp:
  assumes "curve_ok C rep" "0 \<le> a"
  shows "rep (g_exp C a) a"
  using rep_mul [OF assms(1) rep_base [OF assms(1)] assms(2)] by (simp add: g_exp_def)

lemma rep_enc:
  assumes "curve_ok C rep" "rep p a" "rep q b"
  shows "g_enc C p = g_enc C q \<longleftrightarrow> a mod fl = b mod fl"
proof -
  from assms(1) have "\<forall>p a q b. rep p a \<longrightarrow> rep q b \<longrightarrow> rep (g_add C p q) (a + b) \<and> (g_enc C p = g_enc C q \<longleftrightarrow> a mod fl = b mod fl)"
    unfolding curve_ok_def by (elim conjE)
  from this [rule_format, OF assms(2,3)] show ?thesis by (rule conjunct2)
qed

lemma rep_coding:
  assumes "curve_ok C rep" "rep p a"
  shows "length (g_enc C p) = 32 \<and> (\<exists>q. g_dec C (g_enc C p) = Inr q \<and> rep q a)"
proof -
  from assms(1) have "\<forall>p a. rep p a \<longrightarrow> length (g_enc C p) = 32 \<and> (\<exists>q. g_dec C (g_enc C p) = Inr q \<and> rep q a)"
    unfolding curve_ok_def by (elim conjE)
  from this [rule_format, OF assms(2)] show ?thesis .
qed

lemma rep_length: "curve_ok C rep \<Longrightarrow> rep p a \<Longrightarrow> length (g_enc C p) = 32"
  using rep_coding by (rule conjunct1)

lemma rep_dec:
  assumes "curve_ok C rep" "rep p a"
  obtains q where "g_dec C (g_enc C p) = Inr q" "rep q a"
  using conjunct2 [OF rep_coding [OF assms]] by (elim exE conjE)

lemma length_exp:
  assumes "curve_ok C rep" "0 \<le> a"
  shows "length (g_enc C (g_exp C a)) = 32"
  by (rule rep_length [OF assms(1) rep_exp [OF assms]])

section \<open>Feldman commitments\<close>

lemma commit_sum_rep:
  assumes "curve_ok C rep" "list_all2 rep commits cs" "rep acc a" "0 \<le> xp" "0 \<le> x"
  shows "rep (commit_sum C x commits acc xp) (a + xp * eval_poly cs x)"
  using assms(2-5)
proof (induction commits cs arbitrary: acc a xp rule: list_all2_induct)
  case (Cons c commits d cs)
  have "rep (g_add C acc (g_mul C xp c)) (a + xp * d)"
    by (rule rep_add [OF assms(1) Cons.prems(1) rep_mul [OF assms(1) Cons.hyps(1) Cons.prems(2)]])
  from Cons.IH [OF this, of "xp * x"] Cons.prems show ?case by (simp add: algebra_simps)
qed simp

lemma ShareVerifies_iff:
  assumes "curve_ok C rep" "list_all2 rep commits cs" "0 \<le> x" "0 \<le> share"
  shows "ShareVerifies C commits x share \<longleftrightarrow> share mod fl = eval_poly cs x mod fl"
proof -
  have "rep (commit_sum C x commits (g_id C) 1) (0 + 1 * eval_poly cs x)"
    by (intro commit_sum_rep [OF assms(1,2)] rep_id [OF assms(1)] assms) simp
  from rep_enc [OF assms(1) this rep_exp [OF assms(1,4)]] show ?thesis by (auto simp: ShareVerifies_def)
qed

lemma commitments_rep:
  "curve_ok C rep \<Longrightarrow> \<forall>c \<in> set cs. 0 \<le> c \<Longrightarrow> list_all2 rep (commitments C cs) cs"
  by (auto simp: commitments_def list_all2_conv_all_nth rep_exp)

lemma evalPolyL_mod: "evalPolyL coeff a x mod fl = eval_poly (a # coeff) x mod fl"
  by (simp add: evalPolyL_def eval_loop_poly)

lemma eval_loop_range: "0 \<le> acc \<Longrightarrow> 0 \<le> eval_loop fl x cs acc xp"
  by (induction cs arbitrary: acc xp) auto

lemma evalPolyL_nonneg: "0 \<le> a \<Longrightarrow> 0 \<le> evalPolyL coeff a x"
  unfolding evalPolyL_def by (rule eval_loop_range)

lemma eval_loop_reduced: "cs \<noteq> [] \<or> acc < fl \<Longrightarrow> 0 \<le> acc \<Longrightarrow> eval_loop fl x cs acc xp < fl"
  by (induction cs arbitrary: acc xp) auto

lemma rand_coeffs_spec:
  assumes "rand_coeffs rs n = Some cs"
  shows "length cs = n" "\<forall>c \<in> set cs. 0 \<le> c \<and> c < fl"
proof -
  have "those xs = Some ys \<Longrightarrow> length ys = length xs \<and> (\<forall>y \<in> set ys. Some y \<in> set xs)" for xs :: "int option list" and ys
    by (induction xs arbitrary: ys) (auto split: option.splits)
  note C = this [OF assms [unfolded rand_coeffs_def]]
  then show "length cs = n" by simp
  show "\<forall>c \<in> set cs. 0 \<le> c \<and> c < fl"
  proof
    fix c assume "c \<in> set cs"
    with C have "Some c \<in> set (map (\<lambda>i. if i < length rs then randomScalar (rs ! i) else None) [0..<n])" by blast
    then obtain i where "Some c = (if i < length rs then randomScalar (rs ! i) else None)" unfolding set_map by (elim imageE)
    then show "0 \<le> c \<and> c < fl" by (cases "rs ! i") (auto simp: randomScalar_def split: if_splits)
  qed
qed

section \<open>Lagrange coefficients\<close>

definition lag_coeff :: "int set \<Rightarrow> int \<Rightarrow> int option" where
  "lag_coeff A x = map_option (\<lambda>iv. ((\<Prod>y\<in>A - {x}. y) mod fl * iv) mod fl) (mod_inverse ((\<Prod>y\<in>A - {x}. y - x) mod fl) fl)"

lemma wrap64_small: "0 < x \<Longrightarrow> x < 256 \<Longrightarrow> 0 < y \<Longrightarrow> y < 256 \<Longrightarrow> wrap64 (y - x) = y - x"
  by (rule wrap64_id) (auto simp: int64_def)

lemma lagrange_loop_prod:
  assumes "distinct xs" "\<forall>y \<in> insert x (set xs). 0 < y \<and> y < 256"
  shows "lagrange_loop x xs num den = (num * (\<Prod>y\<in>set xs - {x}. y), den * (\<Prod>y\<in>set xs - {x}. y - x))"
  using assms
proof (induction xs arbitrary: num den)
  case (Cons y ys)
  show ?case
  proof (cases "y = x")
    case True
    then have "set (y # ys) - {x} = set ys - {x}" by auto
    then show ?thesis using Cons True by simp
  next
    case False
    then have s: "set (y # ys) - {x} = insert y (set ys - {x})" by auto
    have "wrap64 (y - x) = y - x" using Cons.prems by (intro wrap64_small) auto
    moreover have "y \<notin> set ys - {x}" using Cons.prems by simp
    ultimately show ?thesis unfolding s using Cons False by (simp add: mult.assoc)
  qed
qed simp

lemma lagrange_set:
  "distinct xs \<Longrightarrow> \<forall>y \<in> insert x (set xs). 0 < y \<and> y < 256 \<Longrightarrow> lagrange x xs = lag_coeff (set xs) x"
  unfolding lagrange_def lag_coeff_def by (simp add: lagrange_loop_prod)

lemma lag_coeff_ok:
  assumes "finite A" "\<forall>y \<in> insert x A. 0 < y \<and> y < 256"
  obtains iv where "lag_coeff A x = Some (((\<Prod>y\<in>A - {x}. y) mod fl * iv) mod fl)" "((\<Prod>y\<in>A - {x}. y - x) * iv) mod fl = 1"
proof -
  let ?den = "\<Prod>y\<in>A - {x}. y - x"
  have "coprime ?den fl" using assms by (intro prod_coprime_left frost.diff_coprime) (auto simp: less_imp_le)
  then have "coprime (?den mod fl) fl" by simp
  then obtain i where i: "mod_inverse (?den mod fl) fl = Some i" "(?den mod fl * i) mod fl = 1"
    using mod_inverse_ok [OF fl_gt] by metis
  show ?thesis
  proof (rule that [of i])
    show "lag_coeff A x = Some (((\<Prod>y\<in>A - {x}. y) mod fl * i) mod fl)" using i by (simp add: lag_coeff_def)
    show "(?den * i) mod fl = 1" using i(2) by (simp add: mod_mult_left_eq)
  qed
qed

lemma lag_interpolate:
  assumes "finite A" "\<forall>x \<in> A. 0 < x \<and> x < 256" "length cs \<le> card A"
    and "\<forall>x \<in> A. v x mod fl = eval_poly cs x mod fl"
  shows "(\<Sum>x\<in>A. the (lag_coeff A x) * v x) mod fl = eval_poly cs 0 mod fl"
proof -
  let ?num = "\<lambda>x. \<Prod>y\<in>A - {x}. y"
  have "\<forall>x \<in> A. \<exists>iv. lag_coeff A x = Some ((?num x mod fl * iv) mod fl) \<and> ((\<Prod>y\<in>A - {x}. y - x) * iv) mod fl = 1"
  proof
    fix x assume "x \<in> A"
    then have "\<forall>y \<in> insert x A. 0 < y \<and> y < 256" using assms(2) by blast
    from lag_coeff_ok [OF assms(1) this]
    show "\<exists>iv. lag_coeff A x = Some ((?num x mod fl * iv) mod fl) \<and> ((\<Prod>y\<in>A - {x}. y - x) * iv) mod fl = 1" by blast
  qed
  from bchoice [OF this] obtain iv where iv: "\<forall>x \<in> A. lag_coeff A x = Some ((?num x mod fl * iv x) mod fl)"
    "\<forall>x \<in> A. ((\<Prod>y\<in>A - {x}. y - x) * iv x) mod fl = 1" by metis
  have "(\<Sum>x\<in>A. the (lag_coeff A x) * v x) mod fl = (\<Sum>x\<in>A. v x * ?num x * iv x) mod fl"
  proof -
    have "(the (lag_coeff A x) * v x) mod fl = (v x * ?num x * iv x) mod fl" if "x \<in> A" for x
    proof -
      have "(the (lag_coeff A x) * v x) mod fl = ((?num x mod fl * iv x) mod fl * v x) mod fl" using iv(1) that by simp
      also have "\<dots> = (?num x * iv x * v x) mod fl" by (metis mod_mult_left_eq)
      also have "?num x * iv x * v x = v x * ?num x * iv x" by (simp only: ac_simps)
      finally show ?thesis .
    qed
    then have "(\<Sum>x\<in>A. the (lag_coeff A x) * v x mod fl) = (\<Sum>x\<in>A. v x * ?num x * iv x mod fl)" by (rule sum.cong [OF refl])
    then show ?thesis by (simp only: mod_sum_eq [of "\<lambda>x. the (lag_coeff A x) * v x", symmetric] mod_sum_eq [of "\<lambda>x. v x * ?num x * iv x", symmetric])
  qed
  also have "\<dots> = eval_poly cs 0 mod fl"
    by (rule frost.interpolate [OF assms(1) _ assms(3)]) (use assms iv in auto)
  finally show ?thesis .
qed

section \<open>Maps keyed by member id\<close>

lemma update_fresh: "k \<notin> fst ` set m \<Longrightarrow> AList.update k v m = m @ [(k, v)]"
  by (induction m) auto

lemma keyed_fold:
  "distinct (map fst (m @ kvs)) \<Longrightarrow> fold (\<lambda>(k, v) m. AList.update k v m) kvs m = m @ kvs"
proof (induction kvs arbitrary: m)
  case (Cons kv kvs)
  then obtain k v where kv: "kv = (k, v)" "k \<notin> fst ` set m" by (cases kv) auto
  have "fold (\<lambda>(k, v) m. AList.update k v m) kvs (m @ [kv]) = (m @ [kv]) @ kvs"
    using Cons.prems by (intro Cons.IH) simp
  then show ?case using kv by (simp add: update_fresh)
qed simp

lemma keyed_distinct: "distinct (map fst kvs) \<Longrightarrow> keyed kvs = kvs"
  unfolding keyed_def using keyed_fold [of "[]" kvs] by simp

lemma map_of_table: "distinct (map k ss) \<Longrightarrow> s \<in> set ss \<Longrightarrow> map_of (map (\<lambda>s. (k s, f s)) ss) (k s) = Some (f s)"
  by (simp add: comp_def)

section \<open>Member ids\<close>

lemma of_char_digit: "d < 10 \<Longrightarrow> (of_char (char_of (48 + d) :: char) :: nat) = 48 + d"
  by (simp add: of_char_of)

lemma parse_digits_app: "parse_digits (a @ b) x = Option.bind (parse_digits a x) (parse_digits b)"
  by (induction a arbitrary: x) (auto simp: Let_def)

lemma parse_digits_digits: "n < 10 ^ 18 \<Longrightarrow> parse_digits (digits n) 0 = Some (int n)"
proof (induction n rule: digits.induct)
  case (1 n)
  show ?case
  proof (cases "n < 10")
    case True
    then have "wrap64 (int n) = int n" by (intro wrap64_id) (simp add: int64_def)
    then show ?thesis using True by (simp add: digits.simps [of n] of_char_digit Let_def del: of_char_of)
  next
    case False
    then have "parse_digits (digits (n div 10)) 0 = Some (int (n div 10))" using 1 by simp
    moreover have "wrap64 (int (n div 10) * 10 + int (n mod 10)) = int n"
      using 1(2) proof -
      have "int (n div 10) * 10 + int (n mod 10) = int n" by (metis div_mult_mod_eq of_nat_add of_nat_mult of_nat_numeral)
      then show ?thesis using 1(2) by (simp add: wrap64_id int64_def)
    qed
    ultimately show ?thesis
      using False of_char_digit [of "n mod 10"] by (simp add: digits.simps [of n] parse_digits_app Let_def del: of_char_of)
  qed
qed

lemma digits_ne: "digits n \<noteq> []"
  by (subst digits.simps) simp

lemma memberX_member_id: "n < 10 ^ 18 \<Longrightarrow> memberX (member_id n) = int n"
  using digits_ne [of n] by (auto simp: memberX_def member_id_def parse_digits_digits Suc_le_eq not_less length_greater_0_conv)

lemma memberX_index: "0 < j \<Longrightarrow> j < 256 \<Longrightarrow> memberX (member_id (nat j)) = j"
  using memberX_member_id [of "nat j"] by (simp add: nat_less_iff)

end
