(* ===== verification/FrostProps.thy ===== *)
theory FrostProps
  imports FrostLaws "HOL-Library.Multiset"
begin

text \<open>
  The two-round FROST flow: what a round of two or more fresh signers produces, and when the signature it
  returns is one that Ed25519 accepts under the group key.
\<close>

section \<open>Signers\<close>

text \<open>A signer whose pubkey share is its share times the base point, for the group key \<open>gp\<close>.\<close>

definition signer_ok :: "'g curve \<Rightarrow> bytes \<Rightarrow> 'g FrostSigner \<Rightarrow> bool" where
  "signer_ok C gp s \<longleftrightarrow> fs_GroupPub s = gp \<and> fs_PubShare s = g_enc C (g_exp C (fs_Share s)) \<and> 0 \<le> fs_Share s
     \<and> 0 < fs_X s \<and> fs_X s < 256"

definition signers_ok :: "'g curve \<Rightarrow> bytes \<Rightarrow> 'g FrostSigner list \<Rightarrow> bool" where
  "signers_ok C gp ss \<longleftrightarrow> (\<forall>s \<in> set ss. signer_ok C gp s) \<and> distinct (map fs_ID ss) \<and> distinct (map fs_X ss)"

definition committed :: "'g FrostSigner \<Rightarrow> bool" where
  "committed s \<longleftrightarrow> (\<exists>d e. fs_d s = Some d \<and> fs_e s = Some e \<and> 0 \<le> d \<and> 0 \<le> e)"

definition nonce_pair :: "'g curve \<Rightarrow> 'g FrostSigner \<Rightarrow> bytes" where
  "nonce_pair C s = g_enc C (g_exp C (the (fs_d s))) @ g_enc C (g_exp C (the (fs_e s)))"

definition same_signer :: "'g FrostSigner \<Rightarrow> 'g FrostSigner \<Rightarrow> bool" where
  "same_signer s s' \<longleftrightarrow> fs_ID s' = fs_ID s \<and> fs_X s' = fs_X s \<and> fs_Share s' = fs_Share s \<and> fs_GroupPub s' = fs_GroupPub s
     \<and> fs_PubShare s' = fs_PubShare s"

lemma same_signers:
  assumes "list_all2 same_signer ss ss'"
  shows "map fs_ID ss' = map fs_ID ss" "map fs_X ss' = map fs_X ss" "map fs_Share ss' = map fs_Share ss"
    "map fs_PubShare ss' = map fs_PubShare ss" "map fs_GroupPub ss' = map fs_GroupPub ss" "length ss' = length ss"
  using assms by (induction rule: list_all2_induct) (auto simp: same_signer_def)

lemma signers_ok_same:
  assumes "list_all2 same_signer ss ss'" "signers_ok C gp ss"
  shows "signers_ok C gp ss'"
proof -
  have "signer_ok C gp s'" if "same_signer s s'" "signer_ok C gp s" for s s'
    using that unfolding same_signer_def signer_ok_def by (elim conjE) simp
  then have "\<forall>s \<in> set ss'. signer_ok C gp s"
    using assms unfolding signers_ok_def list_all2_conv_all_nth by (metis in_set_conv_nth)
  then show ?thesis using assms same_signers [OF assms(1)] by (simp add: signers_ok_def)
qed

section \<open>Round one\<close>

lemma fs_Commit_ok:
  assumes "\<not> fs_used s" "r1 \<noteq> None" "r2 \<noteq> None"
  obtains s' where "fs_Commit C r1 r2 s = (Inr (nonce_pair C s'), s')" "same_signer s s'" "committed s'" "fs_used s'"
  using assms by (cases r1; cases r2)
    (auto simp: fs_Commit_def randomScalar_def nonce_pair_def same_signer_def committed_def Let_def)

text \<open>A signer signs one message: a second commitment is refused and changes nothing.\<close>

lemma fs_Commit_used: "fs_used s \<Longrightarrow> fs_Commit C r1 r2 s = (Inl Reused, s)"
  by (simp add: fs_Commit_def)

lemma fs_Commit_marks: "fs_used (snd (fs_Commit C r1 r2 s))"
  by (auto simp: fs_Commit_def Let_def split: option.splits)

definition nonces_ok :: "(bytes option \<times> bytes option) list \<Rightarrow> nat \<Rightarrow> bool" where
  "nonces_ok rs n \<longleftrightarrow> n \<le> length rs \<and> (\<forall>r \<in> set rs. fst r \<noteq> None \<and> snd r \<noteq> None)"

lemma commit_all_ok:
  assumes "\<forall>s \<in> set ss. \<not> fs_used s" "nonces_ok rs (length ss)"
  shows "\<exists>ss'. commit_all C rs ss = (Inr (map (\<lambda>s. (fs_ID s, nonce_pair C s)) ss'), ss')
    \<and> list_all2 same_signer ss ss' \<and> (\<forall>s \<in> set ss'. committed s \<and> fs_used s)"
  using assms
proof (induction ss arbitrary: rs)
  case (Cons s ss)
  then obtain r1 r2 rs' where rs: "rs = (r1, r2) # rs'" "r1 \<noteq> None" "r2 \<noteq> None" "nonces_ok rs' (length ss)"
    by (cases rs) (simp_all add: nonces_ok_def, metis list.set_intros list.simps(15) prod.collapse)
  obtain s' where s': "fs_Commit C r1 r2 s = (Inr (nonce_pair C s'), s')" "same_signer s s'" "committed s'" "fs_used s'"
    using fs_Commit_ok [of s r1 r2 C] Cons.prems(1) rs by auto
  obtain ss' where ss': "commit_all C rs' ss = (Inr (map (\<lambda>s. (fs_ID s, nonce_pair C s)) ss'), ss')"
    "list_all2 same_signer ss ss'" "\<forall>s \<in> set ss'. committed s \<and> fs_used s"
    using Cons.IH [of rs'] Cons.prems(1) rs(4) by auto
  have "fs_ID s' = fs_ID s" using s'(2) by (simp add: same_signer_def)
  with s' ss' rs(1) show ?case by (intro exI [of _ "s' # ss'"]) simp
qed simp

section \<open>The aggregator on the members of a round\<close>

lemma map_filter_dec:
  assumes "\<forall>s \<in> set ss. g_dec C (f s) = Inr (q s)"
  shows "List.map_filter (\<lambda>(pid, b). case g_dec C b of Inl _ \<Rightarrow> None | Inr p \<Rightarrow> Some (pid, p)) (map (\<lambda>s. (fs_ID s, f s)) ss)
    = map (\<lambda>s. (fs_ID s, q s)) ss"
  using assms by (induction ss) (auto simp: List.map_filter_def)

lemma add_commits_ok:
  assumes "distinct (map fst (ag_commits a @ cs))" "\<forall>(pid, de) \<in> set cs. length de = 64 \<and> map_of (ag_pubs a) pid \<noteq> None"
  shows "add_commits cs a = Inr (a\<lparr>ag_commits := ag_commits a @ cs\<rparr>)"
  using assms
proof (induction cs arbitrary: a)
  case (Cons c cs)
  obtain pid de where c: "c = (pid, de)" by (cases c)
  have "map_of (ag_commits a) pid = None" using Cons.prems(1) c by (auto simp: map_of_eq_None_iff)
  then have "AddCommit pid de a = Inr (a\<lparr>ag_commits := ag_commits a @ [c]\<rparr>)"
    using Cons.prems(2) c by (auto simp: AddCommit_def)
  moreover have "add_commits cs (a\<lparr>ag_commits := ag_commits a @ [c]\<rparr>) = Inr (a\<lparr>ag_commits := ag_commits a @ c # cs\<rparr>)"
    using Cons.prems by (subst Cons.IH) auto
  ultimately show ?case using c by simp
qed simp

definition binding :: "prims \<Rightarrow> bytes \<Rightarrow> bytes \<Rightarrow> (string \<times> bytes) list \<Rightarrow> string \<Rightarrow> int" where
  "binding P gp m cs pid = bindingFactor P \<lparr>tr_M = m, tr_Commits = cs, tr_Xs = [], tr_R = [], tr_C = []\<rparr> gp pid"

lemma bindingFactor_eq: "bindingFactor P t gp pid = binding P gp (tr_M t) (tr_Commits t) pid"
  by (simp add: binding_def bindingFactor_def sortedIDs_def)

lemma binding_range [simp]: "0 \<le> binding P gp m cs pid"
  by (simp add: binding_def bindingFactor_def)

definition nonce_exp :: "prims \<Rightarrow> bytes \<Rightarrow> bytes \<Rightarrow> (string \<times> bytes) list \<Rightarrow> 'g FrostSigner \<Rightarrow> int" where
  "nonce_exp P gp m cs s = the (fs_d s) + binding P gp m cs (fs_ID s) * the (fs_e s)"

lemma nonce_pair_dec:
  assumes "curve_ok C rep" "committed s"
  obtains D E where "g_dec C (take 32 (nonce_pair C s)) = Inr D" "rep D (the (fs_d s))"
    "g_dec C (drop 32 (nonce_pair C s)) = Inr E" "rep E (the (fs_e s))" "length (nonce_pair C s) = 64"
proof -
  obtain d e where de: "fs_d s = Some d" "fs_e s = Some e" "0 \<le> d" "0 \<le> e" using assms(2) by (auto simp: committed_def)
  obtain D where D: "g_dec C (g_enc C (g_exp C d)) = Inr D" "rep D d"
    using rep_dec [OF assms(1) rep_exp [OF assms(1) de(3)]] by blast
  obtain E where E: "g_dec C (g_enc C (g_exp C e)) = Inr E" "rep E e"
    using rep_dec [OF assms(1) rep_exp [OF assms(1) de(4)]] by blast
  note L = length_exp [OF assms(1) de(3)] length_exp [OF assms(1) de(4)]
  show ?thesis by (rule that [of D E]) (use de D E L in \<open>simp_all add: nonce_pair_def\<close>)
qed

lemma nonce_loop_ok:
  assumes "curve_ok C rep" "\<forall>s \<in> set ss. committed s" "rep R r"
  obtains R' where "nonce_loop P C t gp (map (\<lambda>s. (fs_ID s, nonce_pair C s)) ss) R = Inr R'"
    "rep R' (r + (\<Sum>s\<leftarrow>ss. nonce_exp P gp (tr_M t) (tr_Commits t) s))"
  using assms(2,3)
proof (induction ss arbitrary: R r thesis)
  case (Cons s ss)
  then have "committed s" by simp
  from nonce_pair_dec [OF assms(1) this] obtain D E where de: "g_dec C (take 32 (nonce_pair C s)) = Inr D" "rep D (the (fs_d s))"
    "g_dec C (drop 32 (nonce_pair C s)) = Inr E" "rep E (the (fs_e s))" "length (nonce_pair C s) = 64" by metis
  let ?R = "g_add C R (g_add C D (g_mul C (bindingFactor P t gp (fs_ID s)) E))"
  have "rep ?R (r + (the (fs_d s) + bindingFactor P t gp (fs_ID s) * the (fs_e s)))"
    by (rule rep_add [OF assms(1) Cons.prems(3) rep_add [OF assms(1) de(2) rep_mul [OF assms(1) de(4)]]])
      (simp add: bindingFactor_eq)
  then have R: "rep ?R (r + nonce_exp P gp (tr_M t) (tr_Commits t) s)"
    by (simp add: nonce_exp_def bindingFactor_eq)
  show ?case
  proof (rule Cons.IH [OF _ _ R])
    show "\<forall>s \<in> set ss. committed s" using Cons.prems(2) by simp
    fix R' assume "nonce_loop P C t gp (map (\<lambda>s. (fs_ID s, nonce_pair C s)) ss) ?R = Inr R'"
      "rep R' (r + nonce_exp P gp (tr_M t) (tr_Commits t) s + (\<Sum>s\<leftarrow>ss. nonce_exp P gp (tr_M t) (tr_Commits t) s))"
    with de show thesis by (intro Cons.prems(1) [of R']) (simp_all add: add.assoc)
  qed
qed simp

section \<open>Round two\<close>

definition ids_commits :: "'g curve \<Rightarrow> 'g FrostSigner list \<Rightarrow> (string \<times> bytes) list" where
  "ids_commits C ss = map (\<lambda>s. (fs_ID s, nonce_pair C s)) ss"

definition ids_xs :: "'g FrostSigner list \<Rightarrow> (string \<times> int) list" where
  "ids_xs ss = map (\<lambda>s. (fs_ID s, fs_X s)) ss"

definition lam :: "'g FrostSigner list \<Rightarrow> 'g FrostSigner \<Rightarrow> int" where
  "lam ss s = the (lag_coeff (fs_X ` set ss) (fs_X s))"

lemma map_index_ids: "distinct (map fs_ID ss) \<Longrightarrow> s \<in> set ss \<Longrightarrow> map_index (ids_xs ss) (fs_ID s) = fs_X s"
  by (simp add: map_index_def ids_xs_def map_of_table)

lemma participantXs_members:
  assumes "distinct (map fs_ID ss)" "distinct (map fs_X ss)" "tr_Commits t = ids_commits C ss" "tr_Xs t = ids_xs ss"
  shows "distinct (participantXs t)" "set (participantXs t) = fs_X ` set ss"
proof -
  have "mset (participantXs t) = image_mset (map_index (ids_xs ss)) (mset (map fs_ID ss))"
    by (simp add: participantXs_def sortedIDs_def assms(3,4) ids_commits_def comp_def)
  also have "\<dots> = mset (map (\<lambda>s. map_index (ids_xs ss) (fs_ID s)) ss)" by (simp add: multiset.map_comp comp_def)
  also have "map (\<lambda>s. map_index (ids_xs ss) (fs_ID s)) ss = map fs_X ss"
    by (rule map_cong [OF refl]) (rule map_index_ids [OF assms(1)])
  finally have m: "mset (participantXs t) = mset (map fs_X ss)" .
  show "distinct (participantXs t)" using mset_eq_imp_distinct_iff [OF m] assms(2) by simp
  show "set (participantXs t) = fs_X ` set ss" using mset_eq_setD [OF m] by simp
qed

lemma lagrange_members:
  assumes "signers_ok C gp ss" "s \<in> set ss" "tr_Commits t = ids_commits C ss" "tr_Xs t = ids_xs ss"
  shows "lagrange (fs_X s) (participantXs t) = Some (lam ss s)" "0 \<le> lam ss s"
proof -
  have d: "distinct (map fs_ID ss)" "distinct (map fs_X ss)" and r: "\<forall>y \<in> fs_X ` set ss. 0 < y \<and> y < 256"
    using assms(1) by (auto simp: signers_ok_def signer_ok_def)
  note P = participantXs_members [OF d assms(3,4)]
  have r': "\<forall>y \<in> insert (fs_X s) (fs_X ` set ss). 0 < y \<and> y < 256" using r assms(2) by blast
  obtain l where l: "lag_coeff (fs_X ` set ss) (fs_X s) = Some l" "0 \<le> l"
    using lag_coeff_ok [OF _ r'] by (metis finite_imageI finite_set mod_fl_range(1))
  have "lagrange (fs_X s) (participantXs t) = lag_coeff (fs_X ` set ss) (fs_X s)"
    using lagrange_set [OF P(1)] r' unfolding P(2) by blast
  then show "lagrange (fs_X s) (participantXs t) = Some (lam ss s)" "0 \<le> lam ss s" using l by (simp_all add: lam_def)
qed

definition partial_sig :: "prims \<Rightarrow> 'g curve \<Rightarrow> bytes \<Rightarrow> bytes \<Rightarrow> int \<Rightarrow> 'g FrostSigner list \<Rightarrow> 'g FrostSigner \<Rightarrow> int" where
  "partial_sig P C gp m c ss s = (nonce_exp P gp m (ids_commits C ss) s + c * (lam ss s * fs_Share s)) mod fl"

lemma partial_sig_range [simp]: "0 \<le> partial_sig P C gp m c ss s" "partial_sig P C gp m c ss s mod fl = partial_sig P C gp m c ss s"
  by (simp_all add: partial_sig_def)

lemma SignShare_ok:
  assumes "signers_ok C gp ss" "s \<in> set ss" "committed s"
    and t: "tr_M t = m" "tr_Commits t = ids_commits C ss" "tr_Xs t = ids_xs ss" "leToInt (tr_C t) mod fl = c"
  shows "SignShare P s t = Inr (scalarBytes (partial_sig P C gp m c ss s))"
proof -
  obtain d e where de: "fs_d s = Some d" "fs_e s = Some e" using assms(3) by (auto simp: committed_def)
  have gp: "fs_GroupPub s = gp" using assms(1,2) by (auto simp: signers_ok_def signer_ok_def)
  have ne: "tr_Commits t \<noteq> []" "tr_Xs t \<noteq> []" using assms(2) t by (auto simp: ids_commits_def ids_xs_def)
  note L = lagrange_members(1) [OF assms(1,2) t(2,3)]
  show ?thesis using de ne
    by (simp add: SignShare_def L gp t bindingFactor_eq Let_def partial_sig_def nonce_exp_def add.commute mult.commute)
qed

text \<open>What the aggregator holds before the shares come in.\<close>

definition agg_ok :: "'g curve \<Rightarrow> ('g \<Rightarrow> int \<Rightarrow> bool) \<Rightarrow> bytes \<Rightarrow> bytes \<Rightarrow> int \<Rightarrow> 'g FrostSigner list \<Rightarrow> 'g FrostAggregator \<Rightarrow> bool" where
  "agg_ok C rep gp m c ss a \<longleftrightarrow> ag_groupPub a = gp \<and> ag_m a = m \<and> ag_c a = c \<and> ag_R a \<noteq> None
     \<and> ag_commits a = ids_commits C ss \<and> ag_xs a = ids_xs ss
     \<and> (\<exists>q. ag_pubs a = map (\<lambda>s. (fs_ID s, q s)) ss \<and> (\<forall>s \<in> set ss. rep (q s) (fs_Share s)))"

text \<open>The check of \<open>AddShare\<close> is exactly the partial signature equation.\<close>

lemma AddShare_iff:
  assumes "curve_ok C rep" "signers_ok C gp ss" "\<forall>s \<in> set ss. committed s" "s \<in> set ss" "agg_ok C rep gp m c ss a"
    and "0 \<le> c" "length z = 32"
  shows "AddShare P C (fs_ID s) z a =
    (if leToInt z mod fl = partial_sig P C gp m c ss s
     then Inr (a\<lparr>ag_shares := AList.update (fs_ID s) (partial_sig P C gp m c ss s) (ag_shares a)\<rparr>)
     else Inl (InvalidShare (fs_ID s)))"
proof -
  have d: "distinct (map fs_ID ss)" using assms(2) by (simp add: signers_ok_def)
  obtain q where q: "ag_pubs a = map (\<lambda>s. (fs_ID s, q s)) ss" "\<forall>s \<in> set ss. rep (q s) (fs_Share s)"
    and a: "ag_groupPub a = gp" "ag_m a = m" "ag_c a = c" "ag_R a \<noteq> None" "ag_commits a = ids_commits C ss" "ag_xs a = ids_xs ss"
    using assms(5) by (auto simp: agg_ok_def)
  let ?t = "\<lparr>tr_M = m, tr_Commits = ids_commits C ss, tr_Xs = ids_xs ss, tr_R = [], tr_C = []\<rparr>"
  have cm: "committed s" using assms(3,4) by blast
  from nonce_pair_dec [OF assms(1) cm] obtain D E where de: "g_dec C (take 32 (nonce_pair C s)) = Inr D" "rep D (the (fs_d s))"
    "g_dec C (drop 32 (nonce_pair C s)) = Inr E" "rep E (the (fs_e s))" by metis
  have m1: "map_of (ids_commits C ss) (fs_ID s) = Some (nonce_pair C s)" "map_of (ag_pubs a) (fs_ID s) = Some (q s)"
    unfolding q(1) ids_commits_def by (rule map_of_table [OF d assms(4)])+
  have len: "length (ids_xs ss) = length (ag_pubs a)" by (simp add: q(1) ids_xs_def)
  note L = lagrange_members [OF assms(2,4), of ?t]
  have L1: "lagrange (fs_X s) (participantXs ?t) = Some (lam ss s)" "0 \<le> lam ss s" using L by simp_all
  let ?rho = "binding P gp m (ids_commits C ss) (fs_ID s)" and ?zi = "leToInt z mod fl"
  have rhs: "rep (g_add C (g_add C D (g_mul C ?rho E)) (g_mul C (c * lam ss s) (q s)))
      (the (fs_d s) + ?rho * the (fs_e s) + c * lam ss s * fs_Share s)"
    by (rule rep_add [OF assms(1) rep_add [OF assms(1) de(2) rep_mul [OF assms(1) de(4)]] rep_mul [OF assms(1)]])
      (use q(2) assms(4,6) L1(2) in simp_all)
  have lhs: "rep (g_exp C ?zi) ?zi" by (rule rep_exp [OF assms(1)]) simp
  have "?zi mod fl = (the (fs_d s) + ?rho * the (fs_e s) + c * lam ss s * fs_Share s) mod fl
      \<longleftrightarrow> ?zi = partial_sig P C gp m c ss s"
    by (simp add: partial_sig_def nonce_exp_def mult.assoc)
  with rep_enc [OF assms(1) lhs rhs]
  have "g_enc C (g_exp C ?zi) = g_enc C (g_add C (g_add C D (g_mul C ?rho E)) (g_mul C (c * lam ss s) (q s)))
      \<longleftrightarrow> ?zi = partial_sig P C gp m c ss s" by (rule trans)
  then show ?thesis using a(4)
    by (simp add: AddShare_def scalarFromBytes_def assms(7) a m1 len bindingFactor_eq map_index_ids [OF d assms(4)] L1 de Let_def)
qed

definition ids_shares :: "prims \<Rightarrow> 'g curve \<Rightarrow> bytes \<Rightarrow> bytes \<Rightarrow> int \<Rightarrow> 'g FrostSigner list \<Rightarrow> 'g FrostSigner list \<Rightarrow> (string \<times> int) list" where
  "ids_shares P C gp m c all ss = map (\<lambda>s. (fs_ID s, partial_sig P C gp m c all s)) ss"

lemma add_shares_ok:
  assumes "curve_ok C rep" "signers_ok C gp all" "\<forall>s \<in> set all. committed s" "0 \<le> c"
    and t: "tr_M t = m" "tr_Commits t = ids_commits C all" "tr_Xs t = ids_xs all" "leToInt (tr_C t) mod fl = c"
    and "all = done @ ss" "agg_ok C rep gp m c all a" "ag_shares a = ids_shares P C gp m c all done"
  shows "add_shares P C t ss a = Inr (a\<lparr>ag_shares := ids_shares P C gp m c all all\<rparr>)"
  using assms(9-)
proof (induction ss arbitrary: "done" a)
  case Nil
  then show ?case by simp
next
  case (Cons s ss)
  let ?z = "partial_sig P C gp m c all s"
  have s: "s \<in> set all" "committed s" using Cons.prems(1) assms(3) by auto
  note S = SignShare_ok [OF assms(2) s t]
  have "fs_ID s \<notin> fst ` set (ids_shares P C gp m c all done)"
    using assms(2) Cons.prems(1) by (force simp: signers_ok_def ids_shares_def)
  then have "AList.update (fs_ID s) ?z (ag_shares a) = ids_shares P C gp m c all (done @ [s])"
    using Cons.prems(3) by (simp add: update_fresh ids_shares_def)
  then have "AddShare P C (fs_ID s) (scalarBytes ?z) a = Inr (a\<lparr>ag_shares := ids_shares P C gp m c all (done @ [s])\<rparr>)"
    using AddShare_iff [OF assms(1-3) s(1) Cons.prems(2) assms(4), of "scalarBytes ?z" P] by simp
  moreover have "add_shares P C t ss (a\<lparr>ag_shares := ids_shares P C gp m c all (done @ [s])\<rparr>)
      = Inr (a\<lparr>ag_shares := ids_shares P C gp m c all (done @ [s]), ag_shares := ids_shares P C gp m c all all\<rparr>)"
    using Cons.prems by (intro Cons.IH [of "done @ [s]"]) (simp_all add: agg_ok_def)
  ultimately show ?case using S by simp
qed

section \<open>The round\<close>

text \<open>The signature a set of signers produces: the nonce point's exponent and the response.\<close>

definition nonce_sum :: "prims \<Rightarrow> 'g curve \<Rightarrow> bytes \<Rightarrow> bytes \<Rightarrow> 'g FrostSigner list \<Rightarrow> int" where
  "nonce_sum P C gp m ss = (\<Sum>s\<leftarrow>ss. nonce_exp P gp m (ids_commits C ss) s)"

definition share_sum :: "'g FrostSigner list \<Rightarrow> int" where
  "share_sum ss = (\<Sum>s\<leftarrow>ss. lam ss s * fs_Share s)"

lemma partial_sum: "(\<Sum>s\<leftarrow>xs. partial_sig P C gp m c ss s) mod fl
    = ((\<Sum>s\<leftarrow>xs. nonce_exp P gp m (ids_commits C ss) s) + c * (\<Sum>s\<leftarrow>xs. lam ss s * fs_Share s)) mod fl"
proof (induction xs)
  case (Cons x xs)
  let ?A = "nonce_exp P gp m (ids_commits C ss) x + c * (lam ss x * fs_Share x)"
  have "(\<Sum>s\<leftarrow>x # xs. partial_sig P C gp m c ss s) mod fl = (?A + (\<Sum>s\<leftarrow>xs. partial_sig P C gp m c ss s)) mod fl"
    by (simp add: partial_sig_def [of _ _ _ _ _ _ x] mod_add_left_eq)
  also have "\<dots> = (?A + ((\<Sum>s\<leftarrow>xs. nonce_exp P gp m (ids_commits C ss) s) + c * (\<Sum>s\<leftarrow>xs. lam ss s * fs_Share s))) mod fl"
    using Cons by (rule mod_add_cong [OF refl])
  finally show ?case by (simp add: algebra_simps)
qed simp

lemma share_sum_same:
  assumes "list_all2 same_signer ss ss'"
  shows "share_sum ss' = share_sum ss"
proof -
  note S = same_signers [OF assms]
  have "fs_X ` set ss' = fs_X ` set ss" using S(2) by (metis list.set_map)
  then have "map (\<lambda>s. lam ss' s * fs_Share s) ss' = map (\<lambda>s. lam ss s * fs_Share s) ss"
    using list_all2_nthD [OF assms] S(6) unfolding lam_def
    by (intro nth_equalityI) (simp_all add: same_signer_def)
  then show ?thesis by (simp add: share_sum_def)
qed

lemma new_aggregator:
  assumes "curve_ok C rep" "signers_ok C gp ss"
  obtains q where "ag_pubs (NewFrostAggregator C gp (map (\<lambda>s. (fs_ID s, fs_PubShare s)) ss)) = map (\<lambda>s. (fs_ID s, q s)) ss"
    "\<forall>s \<in> set ss. rep (q s) (fs_Share s)"
proof -
  have "\<forall>s \<in> set ss. \<exists>p. g_dec C (fs_PubShare s) = Inr p \<and> rep p (fs_Share s)"
  proof
    fix s assume "s \<in> set ss"
    then have "fs_PubShare s = g_enc C (g_exp C (fs_Share s))" "0 \<le> fs_Share s"
      using assms(2) by (auto simp: signers_ok_def signer_ok_def)
    then show "\<exists>p. g_dec C (fs_PubShare s) = Inr p \<and> rep p (fs_Share s)"
      using conjunct2 [OF rep_coding [OF assms(1) rep_exp [OF assms(1)]]] by simp
  qed
  from bchoice [OF this] obtain q where q: "\<forall>s \<in> set ss. g_dec C (fs_PubShare s) = Inr (q s)" "\<forall>s \<in> set ss. rep (q s) (fs_Share s)" by blast
  show ?thesis by (rule that [OF _ q(2)]) (simp add: NewFrostAggregator_def map_filter_dec [OF q(1)])
qed

lemma commit_phase:
  assumes "curve_ok C rep" "signers_ok C gp ss" "\<forall>s \<in> set ss. committed s" "ss \<noteq> []"
    and "ag_groupPub a = gp" "ag_pubs a = map (\<lambda>s. (fs_ID s, q s)) ss" "\<forall>s \<in> set ss. rep (q s) (fs_Share s)"
    and "ag_xs a = ids_xs ss" "ag_commits a = []"
  shows "add_commits (ids_commits C ss) a = Inr (a\<lparr>ag_commits := ids_commits C ss\<rparr>)"
proof -
  have d: "distinct (map fs_ID ss)" using assms(2) by (simp add: signers_ok_def)
  have "add_commits (ids_commits C ss) a = Inr (a\<lparr>ag_commits := ag_commits a @ ids_commits C ss\<rparr>)"
  proof (rule add_commits_ok)
    show "distinct (map fst (ag_commits a @ ids_commits C ss))" using d by (simp add: assms(9) ids_commits_def comp_def)
    show "\<forall>(pid, de) \<in> set (ids_commits C ss). length de = 64 \<and> map_of (ag_pubs a) pid \<noteq> None"
    proof clarify
      fix pid de assume "(pid, de) \<in> set (ids_commits C ss)"
      then obtain s where s: "s \<in> set ss" "pid = fs_ID s" "de = nonce_pair C s" by (auto simp: ids_commits_def)
      obtain D E where "length (nonce_pair C s) = 64" using nonce_pair_dec [OF assms(1)] s(1) assms(3) by blast
      then show "length de = 64 \<and> map_of (ag_pubs a) pid \<noteq> None"
        using s map_of_table [OF d s(1), of q] by (simp add: assms(6))
    qed
  qed
  then show ?thesis by (simp add: assms(9))
qed

lemma finish_round:
  assumes "curve_ok C rep" "signers_ok C gp ss" "\<forall>s \<in> set ss. committed s" "0 \<le> c"
    and t: "tr_M t = m" "tr_Commits t = ids_commits C ss" "tr_Xs t = ids_xs ss" "leToInt (tr_C t) mod fl = c"
    and "agg_ok C rep gp m c ss a" "ag_shares a = []" "ag_R a = Some R"
  obtains a' z where "add_shares P C t ss a = Inr a'" "Aggregate C a' = Inr (g_enc C R @ scalarBytes z)"
    "z mod fl = (nonce_sum P C gp m ss + c * share_sum ss) mod fl"
proof -
  let ?a = "a\<lparr>ag_shares := ids_shares P C gp m c ss ss\<rparr>" and ?z = "\<Sum>s\<leftarrow>ss. partial_sig P C gp m c ss s"
  have l: "length (ag_pubs a) = length ss" using assms(9) by (auto simp: agg_ok_def)
  have "add_shares P C t ss a = Inr ?a"
    by (rule add_shares_ok [OF assms(1-4) t, of "[]"]) (use assms(9,10) in \<open>simp_all add: ids_shares_def\<close>)
  moreover have "Aggregate C ?a = Inr (g_enc C R @ scalarBytes (?z mod fl))"
    using l assms(11) by (simp add: Aggregate_def ids_shares_def comp_def)
  moreover have "?z mod fl mod fl = (nonce_sum P C gp m ss + c * share_sum ss) mod fl"
    unfolding mod_mod_trivial partial_sum nonce_sum_def share_sum_def by (rule refl)
  ultimately show ?thesis by (rule that)
qed

lemma round_maps_ok:
  assumes "distinct (map fs_ID ss)"
  shows "round_maps ss = (map (\<lambda>s. (fs_ID s, fs_PubShare s)) ss, ids_xs ss)"
  using assms by (simp add: round_maps_def keyed_distinct comp_def ids_xs_def)

lemma tables_same:
  assumes "list_all2 same_signer ss ss'"
  shows "map (\<lambda>s. (fs_ID s, fs_PubShare s)) ss = map (\<lambda>s. (fs_ID s, fs_PubShare s)) ss'" "ids_xs ss = ids_xs ss'"
  using list_all2_nthD [OF assms] list_all2_lengthD [OF assms] unfolding ids_xs_def
  by (auto intro!: nth_equalityI simp: same_signer_def)

text \<open>Where the first round leaves the signers, the aggregator and the commitments.\<close>

lemma round_setup:
  assumes "curve_ok C rep" "signers_ok C gp ss" "2 \<le> length ss" "\<forall>s \<in> set ss. \<not> fs_used s" "nonces_ok rs (length ss)"
  obtains pubs ss' q a where "round_maps ss = (pubs, ids_xs ss')" "commit_all C rs ss = (Inr (ids_commits C ss'), ss')"
    "list_all2 same_signer ss ss'" "\<forall>s \<in> set ss'. committed s" "\<forall>s \<in> set ss'. fs_used s" "signers_ok C gp ss'" "ss' \<noteq> []"
    "keyed (ids_commits C ss') = ids_commits C ss'"
    "add_commits (ids_commits C ss') (SetXs (ids_xs ss') (NewFrostAggregator C gp pubs)) = Inr a"
    "ag_groupPub a = gp" "ag_xs a = ids_xs ss'" "ag_commits a = ids_commits C ss'" "ag_shares a = []"
    "ag_pubs a = map (\<lambda>s. (fs_ID s, q s)) ss'" "\<forall>s \<in> set ss'. rep (q s) (fs_Share s)"
proof -
  obtain ss' where c: "commit_all C rs ss = (Inr (ids_commits C ss'), ss')" "list_all2 same_signer ss ss'"
    "\<forall>s \<in> set ss'. committed s" "\<forall>s \<in> set ss'. fs_used s"
    using commit_all_ok [OF assms(4,5), of C] by (auto simp: ids_commits_def)
  note ok = signers_ok_same [OF c(2) assms(2)]
  have d: "distinct (map fs_ID ss)" "distinct (map fs_ID ss')" using assms(2) ok by (simp_all add: signers_ok_def)
  have ne: "ss' \<noteq> []" using c(2) assms(3) by auto
  let ?pubs = "map (\<lambda>s. (fs_ID s, fs_PubShare s)) ss'"
  let ?a = "SetXs (ids_xs ss') (NewFrostAggregator C gp ?pubs)"
  obtain q where q: "ag_pubs (NewFrostAggregator C gp ?pubs) = map (\<lambda>s. (fs_ID s, q s)) ss'" "\<forall>s \<in> set ss'. rep (q s) (fs_Share s)"
    using new_aggregator [OF assms(1) ok] by blast
  have a: "ag_groupPub ?a = gp" "ag_xs ?a = ids_xs ss'" "ag_commits ?a = []" "ag_shares ?a = []" "ag_pubs ?a = map (\<lambda>s. (fs_ID s, q s)) ss'"
    by (simp_all add: SetXs_def NewFrostAggregator_def q(1) [unfolded NewFrostAggregator_def, simplified])
  have ac: "add_commits (ids_commits C ss') ?a = Inr (?a\<lparr>ag_commits := ids_commits C ss'\<rparr>)"
    using commit_phase [OF assms(1) ok c(3) ne a(1,5) q(2) a(2,3)] by metis
  have k: "keyed (ids_commits C ss') = ids_commits C ss'" using d(2) by (simp add: keyed_distinct ids_commits_def comp_def)
  have rm: "round_maps ss = (?pubs, ids_xs ss')" by (simp add: round_maps_ok [OF d(1)] tables_same [OF c(2)])
  show ?thesis by (rule that [OF rm c ok ne k ac _ _ _ _ _ q(2)]) (simp_all add: a)
qed

lemma nonce_point:
  assumes "curve_ok C rep" "\<forall>s \<in> set ss. committed s" "ss \<noteq> []"
  obtains R where "aggregateNonce P C gp m (ids_commits C ss) = Inr R" "rep R (nonce_sum P C gp m ss)"
proof -
  obtain R where "nonce_loop P C \<lparr>tr_M = m, tr_Commits = ids_commits C ss, tr_Xs = [], tr_R = [], tr_C = []\<rparr> gp
      (map (\<lambda>s. (fs_ID s, nonce_pair C s)) ss) (g_id C) = Inr R" "rep R (0 + nonce_sum P C gp m ss)"
    using nonce_loop_ok [OF assms(1,2) rep_id [OF assms(1)], of P
        "\<lparr>tr_M = m, tr_Commits = ids_commits C ss, tr_Xs = [], tr_R = [], tr_C = []\<rparr>" gp] by (auto simp: nonce_sum_def)
  moreover have "ids_commits C ss \<noteq> []" using assms(3) by (simp add: ids_commits_def)
  ultimately show ?thesis using that by (simp add: aggregateNonce_def ids_commits_def [symmetric])
qed

lemma FrostRound_result:
  assumes "curve_ok C rep" "signers_ok C gp ss" "2 \<le> length ss" "\<forall>s \<in> set ss. \<not> fs_used s" "nonces_ok rs (length ss)"
  obtains R r z ss' where "FrostRound P C rs gp ss m = (Inr (g_enc C R @ scalarBytes z), ss')" "rep R r"
    "z mod fl = (r + hashToScalar P [g_enc C R, gp, m] * share_sum ss) mod fl"
    "list_all2 same_signer ss ss'" "\<forall>s \<in> set ss'. fs_used s"
proof -
  obtain pubs ss' q a1 where S: "round_maps ss = (pubs, ids_xs ss')" "commit_all C rs ss = (Inr (ids_commits C ss'), ss')"
    "list_all2 same_signer ss ss'" "\<forall>s \<in> set ss'. committed s" "\<forall>s \<in> set ss'. fs_used s" "signers_ok C gp ss'" "ss' \<noteq> []"
    "keyed (ids_commits C ss') = ids_commits C ss'"
    "add_commits (ids_commits C ss') (SetXs (ids_xs ss') (NewFrostAggregator C gp pubs)) = Inr a1"
    and a: "ag_groupPub a1 = gp" "ag_xs a1 = ids_xs ss'" "ag_commits a1 = ids_commits C ss'" "ag_shares a1 = []"
      "ag_pubs a1 = map (\<lambda>s. (fs_ID s, q s)) ss'" and q: "\<forall>s \<in> set ss'. rep (q s) (fs_Share s)"
    by (rule round_setup [OF assms]) (rule that; assumption)
  obtain R where R: "aggregateNonce P C gp m (ids_commits C ss') = Inr R" "rep R (nonce_sum P C gp m ss')"
    using nonce_point [OF assms(1) S(4,7)] by metis
  obtain R' where R': "g_dec C (g_enc C R) = Inr R'" "rep R' (nonce_sum P C gp m ss')"
    using rep_dec [OF assms(1) R(2)] by blast
  have enc: "g_enc C R' = g_enc C R" using rep_enc [OF assms(1) R'(2) R(2)] by simp
  let ?c = "hashToScalar P [g_enc C R, gp, m]"
  let ?a2 = "a1\<lparr>ag_R := Some R', ag_c := ?c, ag_m := m\<rparr>"
  have lc: "length (ids_commits C ss') = length ss'" "ids_commits C ss' \<noteq> []" using S(7) by (simp_all add: ids_commits_def)
  have ch: "Challenge P C m a1 = Inr ((g_enc C R, scalarBytes ?c), ?a2)"
    using lc by (simp add: Challenge_def a ComputeChallenge_def R(1) R'(1))
  let ?t = "\<lparr>tr_M = m, tr_Commits = ids_commits C ss', tr_Xs = ids_xs ss', tr_R = g_enc C R, tr_C = scalarBytes ?c\<rparr>"
  have ag: "agg_ok C rep gp m ?c ss' ?a2" using q a by (auto simp: agg_ok_def)
  have c0: "0 \<le> ?c" by simp
  have t: "tr_M ?t = m" "tr_Commits ?t = ids_commits C ss'" "tr_Xs ?t = ids_xs ss'" "leToInt (tr_C ?t) mod fl = ?c"
    by (simp_all add: hashToScalar_def)
  have sh: "ag_shares ?a2 = []" "ag_R ?a2 = Some R'" by (simp_all add: a)
  obtain a3 z where z: "add_shares P C ?t ss' ?a2 = Inr a3" "Aggregate C a3 = Inr (g_enc C R' @ scalarBytes z)"
    "z mod fl = (nonce_sum P C gp m ss' + ?c * share_sum ss') mod fl"
    using finish_round [OF assms(1) S(6,4) c0 t ag sh, where P = P] by blast
  have "FrostRound P C rs gp ss m = (Inr (g_enc C R' @ scalarBytes z), ss')"
    using assms(3) by (simp add: FrostRound_def S(1,2,8,9) ch z(1,2) Let_def)
  then show ?thesis
    using R'(2) z(3) S(3,5) by (intro that [of R' z ss' "nonce_sum P C gp m ss'"]) (simp_all add: enc share_sum_same [OF S(3)])
qed

text \<open>Shares on a polynomial of degree below the number of signers add up to its value at 0.\<close>

lemma share_sum_poly:
  assumes "signers_ok C gp ss" "length cs \<le> length ss"
    and "\<forall>s \<in> set ss. fs_Share s mod fl = eval_poly cs (fs_X s) mod fl"
  shows "share_sum ss mod fl = eval_poly cs 0 mod fl"
proof -
  let ?A = "fs_X ` set ss"
  have d: "distinct (map fs_X ss)" and r: "\<forall>x \<in> ?A. 0 < x \<and> x < 256"
    using assms(1) by (auto simp: signers_ok_def signer_ok_def)
  have inj: "inj_on fs_X (set ss)" and ds: "distinct ss" using d by (simp_all add: distinct_map)
  have "share_sum ss = (\<Sum>s\<in>set ss. the (lag_coeff ?A (fs_X s)) * fs_Share s)"
    using ds by (simp add: share_sum_def lam_def sum_list_distinct_conv_sum_set)
  also have "\<dots> = (\<Sum>x\<in>?A. the (lag_coeff ?A x) * fs_Share (inv_into (set ss) fs_X x))"
    using inj by (simp add: sum.reindex)
  also have "\<dots> mod fl = eval_poly cs 0 mod fl"
  proof (rule lag_interpolate)
    show "length cs \<le> card ?A" using assms(2) inj ds by (simp add: card_image distinct_card)
    show "\<forall>x \<in> ?A. fs_Share (inv_into (set ss) fs_X x) mod fl = eval_poly cs x mod fl"
      using inj assms(3) by auto
  qed (use r in auto)
  finally show ?thesis .
qed

end
