(* ===== verification/FrostThreshold.thy ===== *)
theory FrostThreshold
  imports FrostProps
begin

text \<open>
  The properties of FROST: threshold signing, sets below the threshold, single use of a signer, Feldman checks
  and share files; with a concrete group (exponents modulo L) on which the witnesses run.
\<close>

section \<open>A concrete group\<close>

definition zcurve :: "int curve" where
  "zcurve = \<lparr>g_add = (\<lambda>p q. (p + q) mod fl), g_mul = (\<lambda>k p. (k * p) mod fl), g_base = 1, g_id = 0,
     g_enc = scalarBytes, g_dec = (\<lambda>b. if length b = 32 then Inr (leToInt b mod fl) else Inl PointLength)\<rparr>"

definition zrep :: "int \<Rightarrow> int \<Rightarrow> bool" where
  "zrep p a \<longleftrightarrow> p = a mod fl"

lemma zcurve_ok: "curve_ok zcurve zrep"
  by (auto simp: curve_ok_def zcurve_def zrep_def scalarBytes_inject mod_add_eq mod_mult_right_eq fl_def)

definition zprims :: prims where
  "zprims = toy
     \<lparr>ed_sign := (\<lambda>k m. replicate 32 0 @ scalarBytes (hashToScalar toy [replicate 32 0, ed_public k, m] * leToInt (ed_public k))),
      ed_verify := (\<lambda>p m s. length s = 64 \<and> leToInt (drop 32 s) mod fl
        = (leToInt (take 32 s) + hashToScalar toy [take 32 s, p, m] * leToInt p) mod fl)\<rparr>"

lemma zprims_sel [simp]: "sha512 zprims = sha512 toy" "hashToScalar zprims = hashToScalar toy"
  by (simp_all add: zprims_def hashToScalar_def fun_eq_iff)

lemma zprims_verify: "ed_verify_eq zprims zcurve zrep"
proof -
  have "(a mod fl + c * (b mod fl)) mod fl = (a + c * b) mod fl" for a b c :: int
    by (metis mod_add_cong mod_mod_trivial mod_mult_right_eq)
  then show ?thesis
    unfolding ed_verify_eq_def zprims_def zcurve_def zrep_def by (simp add: hashToScalar_def toy_sel)
qed

lemma leToInt_zeros: "leToInt (replicate n 0) = 0"
proof -
  have "foldl (\<lambda>v b. v * 256 + uint (b :: byte)) 0 (replicate n 0) = (0 :: int)" by (induction n) auto
  then show ?thesis by (simp add: leToInt_def set_bytes_def)
qed

lemma zprims_ok: "sha_ok zprims" "ed_ok zprims" "json_ok zprims"
proof -
  show "sha_ok zprims" "json_ok zprims" using toy_ok by (simp_all add: zprims_def sha_ok_def json_ok_def)
  show "ed_ok zprims"
    by (auto simp: ed_ok_def ed_keypair_def zprims_def toy_sel leToInt_zeros)
qed

section \<open>Dealer shares\<close>

lemma FrostSplit_signers:
  assumes "curve_ok C rep" "FrostSplit P C rs seed n t = Inr (ss, gp)" "n < 256"
  obtains coeff where "signers_ok C gp ss" "length coeff = nat (t - 1)" "1 \<le> t" "t \<le> n" "length ss = nat n"
    "\<forall>s \<in> set ss. \<not> fs_used s \<and> fs_ID s = member_id (nat (fs_X s)) \<and> fs_VK s = commitments C (ed25519Scalar P seed # coeff)
       \<and> fs_Share s = evalPolyL coeff (ed25519Scalar P seed) (fs_X s)"
    "gp = g_enc C (g_exp C (ed25519Scalar P seed))" "\<forall>c \<in> set coeff. 0 \<le> c" "0 \<le> ed25519Scalar P seed"
proof -
  let ?a = "ed25519Scalar P seed"
  have a0: "0 \<le> ?a" by (simp add: ed25519Scalar_def Let_def)
  obtain coeff where t: "1 \<le> t" "t \<le> n" and c: "rand_coeffs rs (nat (t - 1)) = Some coeff"
    and gp: "gp = g_enc C (g_exp C ?a)"
    and ss: "ss = map (\<lambda>x. \<lparr>fs_ID = member_id (nat x), fs_X = x, fs_Share = evalPolyL coeff ?a x, fs_GroupPub = gp,
        fs_PubShare = g_enc C (g_exp C (evalPolyL coeff ?a x)), fs_VK = commitments C (?a # coeff), fs_GlobalVK = [],
        fs_d = None, fs_e = None, fs_used = False\<rparr>) [1..n]"
    using assms(2) by (auto simp: FrostSplit_def Let_def commitments_def not_le not_less split: if_splits option.splits)
  note R = rand_coeffs_spec [OF c]
  have X: "map fs_X ss = [1..n]" by (simp add: ss comp_def)
  have mx: "memberX (member_id (nat x)) = x" if "x \<in> {1..n}" for x
    using that assms(3) memberX_index by simp
  have "distinct (map fs_ID ss)"
  proof -
    have "map memberX (map fs_ID ss) = [1..n]" by (rule nth_equalityI) (use mx in \<open>simp_all add: ss\<close>)
    then show ?thesis by (metis distinct_upto distinct_map)
  qed
  then have ok: "signers_ok C gp ss"
    using assms(3) a0 by (auto simp: signers_ok_def X) (auto simp: ss signer_ok_def evalPolyL_nonneg)
  show ?thesis by (rule that [OF ok R(1)]) (use t gp R(2) a0 in \<open>auto simp: ss\<close>)
qed

lemma signers_ok_subset: "signers_ok C gp ss \<Longrightarrow> set qs \<subseteq> set ss \<Longrightarrow> distinct qs \<Longrightarrow> signers_ok C gp qs"
  unfolding signers_ok_def distinct_map by (meson inj_on_subset subset_eq)

lemma split_share_sum:
  assumes "curve_ok C rep" "FrostSplit P C rs seed n t = Inr (ss, gp)" "n < 256"
    and "set qs \<subseteq> set ss" "distinct qs" "t \<le> int (length qs)"
  shows "signers_ok C gp qs \<and> (\<forall>s \<in> set qs. \<not> fs_used s) \<and> gp = g_enc C (g_exp C (ed25519Scalar P seed))
    \<and> 0 \<le> ed25519Scalar P seed \<and> share_sum qs mod fl = ed25519Scalar P seed mod fl"
proof -
  let ?a = "ed25519Scalar P seed"
  obtain coeff where S: "signers_ok C gp ss" "length coeff = nat (t - 1)" "1 \<le> t"
    "\<forall>s \<in> set ss. \<not> fs_used s \<and> fs_Share s = evalPolyL coeff ?a (fs_X s)" "gp = g_enc C (g_exp C ?a)" "0 \<le> ?a"
    using FrostSplit_signers [OF assms(1-3)] by metis
  note ok = signers_ok_subset [OF S(1) assms(4,5)]
  have "share_sum qs mod fl = eval_poly (?a # coeff) 0 mod fl"
    by (rule share_sum_poly [OF ok]) (use assms(4,6) S(2-4) in \<open>auto simp: evalPolyL_mod\<close>)
  then show ?thesis using ok S assms(4) by auto
qed

lemma round_accepts:
  assumes "curve_ok C rep" "ed_verify_eq P C rep" "signers_ok C gp qs" "2 \<le> length qs" "\<forall>s \<in> set qs. \<not> fs_used s"
    "nonces_ok ns (length qs)" "gp = g_enc C (g_exp C a)" "0 \<le> a" "share_sum qs mod fl = a mod fl"
  shows "\<exists>sig qs'. FrostRound P C ns gp qs m = (Inr sig, qs') \<and> ed_verify P gp m sig \<and> (\<forall>s \<in> set qs'. fs_used s)"
proof -
  obtain R r z qs' where R: "FrostRound P C ns gp qs m = (Inr (g_enc C R @ scalarBytes z), qs')" "rep R r"
    "z mod fl = (r + hashToScalar P [g_enc C R, gp, m] * share_sum qs) mod fl" "\<forall>s \<in> set qs'. fs_used s"
    using FrostRound_result [OF assms(1,3-6), where P = P and m = m] by metis
  have "(r + hashToScalar P [g_enc C R, gp, m] * share_sum qs) mod fl = (r + hashToScalar P [g_enc C R, gp, m] * a) mod fl"
    using assms(9) by (intro mod_add_cong mod_mult_cong refl)
  with R(3) have "ed_verify P gp m (g_enc C R @ scalarBytes z)"
    using assms(2) [unfolded ed_verify_eq_def, rule_format, OF rep_exp [OF assms(1,8)] R(2)] assms(7) by simp
  with R show ?thesis by blast
qed

text \<open>
  C1: any t or more distinct fresh signers of a dealt t-of-n group (n below 256, at least two
  signers, working randomness) produce together a signature that Ed25519 accepts for the message under the group
  key; afterwards every one of them is used up.
\<close>

theorem frost_threshold:
  assumes "curve_ok C rep" "ed_verify_eq P C rep" "FrostSplit P C rs seed n t = Inr (ss, gp)" "n < 256"
    and "set qs \<subseteq> set ss" "distinct qs" "t \<le> int (length qs)" "2 \<le> length qs" "nonces_ok ns (length qs)"
  shows "\<exists>sig qs'. FrostRound P C ns gp qs m = (Inr sig, qs') \<and> ed_verify P gp m sig \<and> (\<forall>s \<in> set qs'. fs_used s)"
proof -
  let ?a = "ed25519Scalar P seed"
  have ok: "signers_ok C gp qs" "\<forall>s \<in> set qs. \<not> fs_used s" and gp: "gp = g_enc C (g_exp C ?a)" "0 \<le> ?a"
    and s: "share_sum qs mod fl = ?a mod fl"
    using split_share_sum [OF assms(1,3-7)] by blast+
  show ?thesis by (rule round_accepts [OF assms(1,2) ok(1) assms(8) ok(2) assms(9) gp s])
qed

lemma split_two_of_three:
  obtains ss gp where "FrostSplit zprims zcurve [Some []] [] 3 2 = Inr (ss, gp)" "length ss = 3" "distinct ss"
    "signers_ok zcurve gp ss" "\<forall>s \<in> set ss. \<not> fs_used s"
proof -
  obtain ss gp where ss: "FrostSplit zprims zcurve [Some []] [] 3 2 = Inr (ss, gp)"
    by (auto simp: FrostSplit_def Let_def rand_coeffs_def randomScalar_def)
  from FrostSplit_signers [OF zcurve_ok ss]
  have "signers_ok zcurve gp ss \<and> length ss = nat 3 \<and> (\<forall>s \<in> set ss. \<not> fs_used s)" by (metis numeral_less_iff semiring_norm(76,77,78,81))
  then show ?thesis using ss that by (simp add: signers_ok_def distinct_map)
qed

theorem frost_threshold_witness:
  "\<exists>ss gp sig qs'. FrostSplit zprims zcurve [Some []] [] 3 2 = Inr (ss, gp)
     \<and> FrostRound zprims zcurve [(Some [1], Some [2]), (Some [3], Some [4])] gp [ss ! 2, ss ! 0] [9] = (Inr sig, qs')
     \<and> ed_verify zprims gp [9] sig"
proof -
  obtain ss gp where ss: "FrostSplit zprims zcurve [Some []] [] 3 2 = Inr (ss, gp)" "length ss = 3" "distinct ss"
    by (rule split_two_of_three)
  have "\<exists>sig qs'. FrostRound zprims zcurve [(Some [1], Some [2]), (Some [3], Some [4])] gp [ss ! 2, ss ! 0] [9] = (Inr sig, qs')
     \<and> ed_verify zprims gp [9] sig \<and> (\<forall>s \<in> set qs'. fs_used s)"
    by (rule frost_threshold [OF zcurve_ok zprims_verify ss(1)]) (use ss in \<open>auto simp: nonces_ok_def nth_eq_iff_index_eq\<close>)
  with ss(1) show ?thesis by blast
qed

text \<open>
  Two or more fresh signers of a dealt group, however few against the threshold, complete the round
  without an error; what they return is accepted by Ed25519 exactly when the challenge times the difference between
  their interpolated value and the group secret vanishes modulo L.
\<close>

theorem frost_below:
  assumes "curve_ok C rep" "ed_verify_eq P C rep" "FrostSplit P C rs seed n t = Inr (ss, gp)" "n < 256"
    and "set qs \<subseteq> set ss" "distinct qs" "2 \<le> length qs" "nonces_ok ns (length qs)"
  shows "\<exists>sig qs'. FrostRound P C ns gp qs m = (Inr sig, qs') \<and> length sig = 64 \<and>
    (ed_verify P gp m sig \<longleftrightarrow> fl dvd hashToScalar P [take 32 sig, gp, m] * (share_sum qs - ed25519Scalar P seed))"
proof -
  let ?a = "ed25519Scalar P seed"
  obtain coeff where S: "signers_ok C gp ss" "\<forall>s \<in> set ss. \<not> fs_used s" "gp = g_enc C (g_exp C ?a)" "0 \<le> ?a"
    using FrostSplit_signers [OF assms(1,3,4)] by metis
  note ok = signers_ok_subset [OF S(1) assms(5,6)]
  have fresh: "\<forall>s \<in> set qs. \<not> fs_used s" using S(2) assms(5) by blast
  obtain R r z qs' where R: "FrostRound P C ns gp qs m = (Inr (g_enc C R @ scalarBytes z), qs')" "rep R r"
    "z mod fl = (r + hashToScalar P [g_enc C R, gp, m] * share_sum qs) mod fl"
    using FrostRound_result [OF assms(1) ok assms(7) fresh assms(8), where P = P and m = m] by metis
  note L = rep_length [OF assms(1) R(2)]
  let ?c = "hashToScalar P [g_enc C R, gp, m]"
  have "ed_verify P gp m (g_enc C R @ scalarBytes z) \<longleftrightarrow> z mod fl = (r + ?c * ?a) mod fl"
    using assms(2) [unfolded ed_verify_eq_def, rule_format, OF rep_exp [OF assms(1) S(4)] R(2)] S(3) by simp
  also have "\<dots> \<longleftrightarrow> fl dvd ?c * (share_sum qs - ?a)"
    unfolding R(3) mod_eq_dvd_iff by (simp add: algebra_simps)
  finally show ?thesis using R(1) L by (intro exI [of _ "g_enc C R @ scalarBytes z"] exI [of _ qs']) simp
qed

theorem frost_below_witness:
  "\<exists>ss gp sig qs'. FrostSplit zprims zcurve [Some [], Some []] [] 3 3 = Inr (ss, gp)
     \<and> FrostRound zprims zcurve [(Some [1], Some [2]), (Some [3], Some [4])] gp [ss ! 0, ss ! 1] [9] = (Inr sig, qs')
     \<and> length sig = 64"
proof -
  obtain ss gp where ss: "FrostSplit zprims zcurve [Some [], Some []] [] 3 3 = Inr (ss, gp)"
    by (auto simp: FrostSplit_def Let_def rand_coeffs_def randomScalar_def upt_rec)
  from FrostSplit_signers [OF zcurve_ok ss]
  have l: "length ss = 3" "signers_ok zcurve gp ss" by auto
  then have d: "distinct ss" by (simp add: signers_ok_def distinct_map)
  have "\<exists>sig qs'. FrostRound zprims zcurve [(Some [1], Some [2]), (Some [3], Some [4])] gp [ss ! 0, ss ! 1] [9] = (Inr sig, qs')
     \<and> length sig = 64 \<and> (ed_verify zprims gp [9] sig
        \<longleftrightarrow> fl dvd hashToScalar zprims [take 32 sig, gp, [9]] * (share_sum [ss ! 0, ss ! 1] - ed25519Scalar zprims []))"
    by (rule frost_below [OF zcurve_ok zprims_verify ss]) (use l d in \<open>auto simp: nonces_ok_def nth_eq_iff_index_eq\<close>)
  with ss show ?thesis by blast
qed

section \<open>One message per signer\<close>

lemma commit_all_used: "s \<in> set ss \<Longrightarrow> fs_used s \<Longrightarrow> \<exists>e. fst (commit_all C rs ss) = Inl e"
proof (induction ss arbitrary: rs)
  case (Cons x ss)
  let ?r = "case rs of [] \<Rightarrow> (None, None) | r # _ \<Rightarrow> r"
  show ?case
  proof (cases "fs_used x")
    case True
    then show ?thesis by (simp add: fs_Commit_used split: prod.splits)
  next
    case False
    with Cons.prems have "s \<in> set ss" by auto
    then obtain e ss' where "commit_all C (tl rs) ss = (Inl e, ss')" using Cons by (metis prod.collapse)
    then show ?thesis by (auto simp: Let_def split: prod.splits sum.splits)
  qed
qed simp

lemma commit_all_marks: "commit_all C rs ss = (Inr cs, ss') \<Longrightarrow> (\<forall>s \<in> set ss'. fs_used s) \<and> length ss' = length ss"
proof (induction ss arbitrary: rs cs ss')
  case (Cons x ss)
  then show ?case
    using fs_Commit_marks [of C "fst (case rs of [] \<Rightarrow> (None, None) | r # _ \<Rightarrow> r)" "snd (case rs of [] \<Rightarrow> (None, None) | r # _ \<Rightarrow> r)" x]
    by (fastforce simp: Let_def split: prod.splits sum.splits)
qed simp

lemma FrostRound_used: "s \<in> set ss \<Longrightarrow> fs_used s \<Longrightarrow> \<exists>e. fst (FrostRound P C rs gp ss m) = Inl e"
  using commit_all_used [of s ss C rs] by (auto simp: FrostRound_def Let_def split: prod.splits sum.splits)

text \<open>
  A signer commits once (a second commitment is refused and leaves it as it is), and the
  signers a successful round leaves behind cannot take part in any later one: it stops with an error, whatever the
  message, the group key and the randomness, also for a set of signers of any size holding one of them.
\<close>

theorem frost_single_use:
  assumes "FrostRound P C rs gp ss m = (Inr sig, ss')" "s \<in> set ss'" "s \<in> set qs"
  shows "fs_Commit C r1 r2 s = (Inl Reused, s) \<and> (\<exists>e. fst (FrostRound P C rs' gp' qs m') = Inl e)"
proof -
  have "\<forall>s \<in> set ss'. fs_used s"
    using assms(1) commit_all_marks by (fastforce simp: FrostRound_def Let_def split: if_splits prod.splits sum.splits)
  then have "fs_used s" using assms(2) by blast
  then show ?thesis using assms(3) FrostRound_used [of s qs P C rs' gp' m'] by (simp add: fs_Commit_used)
qed

theorem frost_single_use_witness:
  "\<exists>ss gp sig qs'. FrostRound zprims zcurve [(Some [1], Some [2]), (Some [3], Some [4])] gp ss [9] = (Inr sig, qs')
     \<and> (\<exists>e. fst (FrostRound zprims zcurve [(Some [1], Some [2]), (Some [3], Some [4])] gp qs' [9]) = Inl e)"
proof -
  obtain ss gp where ss: "FrostSplit zprims zcurve [Some []] [] 3 2 = Inr (ss, gp)" "length ss = 3" "distinct ss"
    and ok: "signers_ok zcurve gp ss" "\<forall>s \<in> set ss. \<not> fs_used s"
    by (rule split_two_of_three)
  obtain a b c where abc: "ss = [a, b, c]" using ss(2) by (auto simp: length_Suc_conv numeral_3_eq_3)
  have ok2: "signers_ok zcurve gp [a, b]" by (rule signers_ok_subset [OF ok(1)]) (use abc ss(3) in auto)
  have fr: "\<forall>s \<in> set [a, b]. \<not> fs_used s" using ok(2) abc by simp
  have n: "nonces_ok [(Some [1], Some [2]), (Some [3], Some [4])] (length [a, b])" by (simp add: nonces_ok_def)
  have l2: "2 \<le> length [a, b]" by simp
  obtain sig qs' where r: "FrostRound zprims zcurve [(Some [1], Some [2]), (Some [3], Some [4])] gp [a, b] [9] = (Inr sig, qs')"
    "list_all2 same_signer [a, b] qs'"
    using FrostRound_result [OF zcurve_ok ok2 l2 fr n, where P = zprims and m = "[9]"] by metis
  then obtain q where "q \<in> set qs'" by (cases qs') auto
  from frost_single_use [OF r(1) this this] r(1) show ?thesis by blast
qed

end
