(* ===== verification/FrostExt.thy ===== *)
theory FrostExt
  imports Frost
begin

text \<open>
  What is built on FROST: the in-process key generation ceremony (\<open>DkgCeremony\<close> of \<open>frost.go\<close>), one member of
  the distributed ceremony (\<open>dkg.go\<close>), membership rotation under a fixed group key (\<open>reshare.go\<close>) and threshold
  blind signatures (\<open>blindfrost.go\<close>).
\<close>

section \<open>The ceremony in one process\<close>

definition finish_signer :: "DkgCommitJSON list \<Rightarrow> 'g FrostSigner \<Rightarrow> 'g FrostSigner" where
  "finish_signer gv s = s\<lparr>fs_GlobalVK := gv\<rparr>"

text \<open>Component-wise addition into the global vector; a component not set yet (\<open>X == nil\<close>) takes the point.\<close>

definition add_vec :: "'g curve \<Rightarrow> 'g option list \<Rightarrow> 'g list \<Rightarrow> 'g option list" where
  "add_vec C g cs = map2 (\<lambda>u c. Some (case u of None \<Rightarrow> c | Some p \<Rightarrow> g_add C p c)) g cs @ drop (length cs) g"

fun generate_all :: "'g curve \<Rightarrow> (int \<Rightarrow> bytes option list) \<Rightarrow> int list \<Rightarrow> int \<Rightarrow> int \<Rightarrow> frost_error + (string \<times> 'g DkgMaterial) list" where
  "generate_all C rss [] n t = Inr []"
| "generate_all C rss (i # is) n t = (case DkgGenerate C (rss i) (member_id (nat i)) n t of Inl e \<Rightarrow> Inl e
    | Inr m \<Rightarrow> (case generate_all C rss is n t of Inl e \<Rightarrow> Inl e | Inr ms \<Rightarrow> Inr ((dm_ID m, m) # ms)))"

fun finalize_all :: "'g curve \<Rightarrow> (string \<times> 'g DkgMaterial) list \<Rightarrow> (string \<times> 'g DkgMaterial) list \<Rightarrow> bytes \<Rightarrow>
    frost_error + ('g FrostSigner list \<times> bytes)" where
  "finalize_all C mats [] grp = Inr ([], grp)"
| "finalize_all C mats ((pid, m) # ms) grp = (case DkgFinalize C (dm_ID m) mats of Inl e \<Rightarrow> Inl e
    | Inr (s, g) \<Rightarrow> (case finalize_all C mats ms g of Inl e \<Rightarrow> Inl e | Inr (ss, g') \<Rightarrow> Inr (s # ss, g')))"

definition vec_hex :: "'g curve \<Rightarrow> 'g option list \<Rightarrow> string list" where
  "vec_hex C g = map (\<lambda>u. hex_encode (g_enc C (the u))) g"

definition DkgCeremony ::
  "'g curve \<Rightarrow> (int \<Rightarrow> bytes option list) \<Rightarrow> int \<Rightarrow> int \<Rightarrow> frost_error + ('g FrostSigner list \<times> bytes)" where
  "DkgCeremony C rss n t = (case generate_all C rss [1..n] n t of Inl e \<Rightarrow> Inl e
    | Inr mats \<Rightarrow> (case finalize_all C mats mats [] of Inl e \<Rightarrow> Inl e
       | Inr (signers, grp) \<Rightarrow>
          if t < 0 then Inl Panicked
          else let glob = fold (\<lambda>(pid, m) g. add_vec C g (dm_Commits m)) mats (replicate (nat t) None);
                   gv = map (\<lambda>(pid, m). \<lparr>dc_ID = dm_ID m, dc_Commits = vec_hex C glob\<rparr>) mats
               in Inr (map (finish_signer gv) signers, grp)))"

section \<open>The distributed ceremony\<close>

text \<open>The nil slice and the empty one are the same here: \<open>append([]point(nil), m.Commits...)\<close> of no points is nil.\<close>

fun global_vk :: "'g curve \<Rightarrow> (string \<times> 'g DkgMaterial) list \<Rightarrow> 'g list \<Rightarrow> 'g list" where
  "global_vk C [] out = out"
| "global_vk C ((pid, m) # ms) out =
     (if out = [] then global_vk C ms (dm_Commits m)
      else if length (dm_Commits m) \<noteq> length out then []
      else global_vk C ms (map2 (g_add C) out (dm_Commits m)))"

definition DkgGlobalVK :: "'g curve \<Rightarrow> (string \<times> 'g DkgMaterial) list \<Rightarrow> 'g list" where
  "DkgGlobalVK C mats = global_vk C mats []"

definition DkgGlobalCommitments :: "'g curve \<Rightarrow> (string \<times> 'g DkgMaterial) list \<Rightarrow> DkgCommitJSON list" where
  "DkgGlobalCommitments C mats = (let glob = DkgGlobalVK C mats in
     if glob = [] then []
     else map (\<lambda>(pid, m). \<lparr>dc_ID = dm_ID m, dc_Commits = map (\<lambda>p. hex_encode (g_enc C p)) glob\<rparr>) mats)"

record 'g DkgNode =
  dn_ID :: string
  dn_N :: int
  dn_T :: int
  dn_peers :: "(string \<times> string) list"
  dn_session :: bytes
  dn_mat :: "'g DkgMaterial"
  dn_ownHex :: "string list"
  dn_peerCommits :: "(string \<times> string list) list"
  dn_received :: "(string \<times> int) list"
  dn_done :: nat
  dn_signer :: "'g FrostSigner option"

datatype dkg_error = DkgBadParams | DkgNoSelf | DkgBadIds | DkgFrost frost_error | DkgBadSession | DkgIdentity
  | DkgDuplicate | DkgVectorLength | DkgBadShare | DkgShareFails | DkgBadReply

fun ids_ok :: "string list \<Rightarrow> int \<Rightarrow> int list \<Rightarrow> bool" where
  "ids_ok [] n seen \<longleftrightarrow> True"
| "ids_ok (p # ps) n seen \<longleftrightarrow> (let x = memberX p in 1 \<le> x \<and> x \<le> n \<and> x \<notin> set seen \<and> ids_ok ps n (x # seen))"

definition session_id :: "prims \<Rightarrow> (string \<times> string) list \<Rightarrow> bytes" where
  "session_id P peers = sha256 P (concat (map (\<lambda>k. str_bytes (k @ ''|'' @ the (map_of peers k)) @ [0]) (sort (map fst peers))))"

definition NewDkgNode ::
  "prims \<Rightarrow> 'g curve \<Rightarrow> bytes option list \<Rightarrow> string \<Rightarrow> int \<Rightarrow> int \<Rightarrow> (string \<times> string) list \<Rightarrow> dkg_error + 'g DkgNode" where
  "NewDkgNode P C rs pid n t peers =
     (if t < 2 \<or> n < t \<or> int (length peers) \<noteq> n then Inl DkgBadParams
      else if map_of peers pid = None then Inl DkgNoSelf
      else if \<not> ids_ok (map fst peers) n [] then Inl DkgBadIds
      else (case DkgGenerate C rs pid n t of Inl e \<Rightarrow> Inl (DkgFrost e)
        | Inr mat \<Rightarrow> Inr \<lparr>dn_ID = pid, dn_N = n, dn_T = t, dn_peers = peers, dn_session = session_id P peers,
            dn_mat = mat, dn_ownHex = map (\<lambda>p. hex_encode (g_enc C p)) (dm_Commits mat),
            dn_peerCommits = [], dn_received = [], dn_done = 0, dn_signer = None\<rparr>))"

definition recordPeer ::
  "'g curve \<Rightarrow> string \<Rightarrow> string list \<Rightarrow> bytes \<Rightarrow> 'g DkgNode \<Rightarrow> dkg_error + 'g DkgNode" where
  "recordPeer C pid hexCommits shareVal d =
     (if map_of (dn_received d) pid \<noteq> None then Inl DkgDuplicate
      else (case parsePoints C hexCommits of Inl e \<Rightarrow> Inl (DkgFrost e)
        | Inr pts \<Rightarrow>
          if int (length pts) \<noteq> dn_T d then Inl DkgVectorLength
          else (case scalarFromBytes shareVal of Inl _ \<Rightarrow> Inl DkgBadShare
            | Inr v \<Rightarrow>
              if v \<le> 0 \<or> fl \<le> v then Inl DkgBadShare
              else if \<not> ShareVerifies C pts (memberX (dn_ID d)) v then Inl DkgShareFails
              else Inr (d\<lparr>dn_peerCommits := AList.update pid hexCommits (dn_peerCommits d),
                          dn_received := AList.update pid v (dn_received d), dn_done := dn_done d + 1\<rparr>))))"

record DkgMsg =
  dk_exchange :: bool
  dk_session :: bytes
  dk_from :: string
  dk_commits :: "string list"
  dk_share :: bytes

text \<open>What a node sends to a peer; a peer outside the ceremony has no share and the nil scalar panics.\<close>

definition exchange_msg :: "'g DkgNode \<Rightarrow> string \<Rightarrow> dkg_error + DkgMsg" where
  "exchange_msg d pid = (case map_of (dm_Shares (dn_mat d)) pid of None \<Rightarrow> Inl (DkgFrost Panicked)
     | Some s \<Rightarrow> Inr \<lparr>dk_exchange = True, dk_session = dn_session d, dk_from = dn_ID d, dk_commits = dn_ownHex d,
         dk_share = scalarBytes s\<rparr>)"

text \<open>\<open>peer_ok\<close>: the TLS peer certificate carries the identity the frame claims.\<close>

definition handleFrame ::
  "'g curve \<Rightarrow> (string \<Rightarrow> bool) \<Rightarrow> DkgMsg \<Rightarrow> 'g DkgNode \<Rightarrow> (dkg_error + DkgMsg) \<times> 'g DkgNode" where
  "handleFrame C peer_ok m d =
     (if \<not> dk_exchange m \<or> dk_session m \<noteq> dn_session d then (Inl DkgBadSession, d)
      else if \<not> peer_ok (dk_from m) then (Inl DkgIdentity, d)
      else (case recordPeer C (dk_from m) (dk_commits m) (dk_share m) d of Inl e \<Rightarrow> (Inl e, d)
        | Inr d' \<Rightarrow> (exchange_msg d' (dk_from m), d')))"

text \<open>The dialling side: the peer's reply is checked and recorded.\<close>

definition exchange_reply :: "'g curve \<Rightarrow> string \<Rightarrow> DkgMsg \<Rightarrow> 'g DkgNode \<Rightarrow> dkg_error + 'g DkgNode" where
  "exchange_reply C pid resp d =
     (if \<not> dk_exchange resp \<or> dk_session resp \<noteq> dn_session d \<or> dk_from resp \<noteq> pid then Inl DkgBadReply
      else recordPeer C pid (dk_commits resp) (dk_share resp) d)"

fun peer_mats ::
  "'g curve \<Rightarrow> 'g DkgNode \<Rightarrow> (string \<times> string list) list \<Rightarrow> (string \<times> 'g DkgMaterial) list \<Rightarrow>
     frost_error + (string \<times> 'g DkgMaterial) list" where
  "peer_mats C d [] acc = Inr acc"
| "peer_mats C d ((pid, hexC) # ps) acc = (case parsePoints C hexC of Inl e \<Rightarrow> Inl e
    | Inr pts \<Rightarrow> peer_mats C d ps
        (AList.update pid \<lparr>dm_ID = pid, dm_Commits = pts, dm_Shares = [(dn_ID d, the (map_of (dn_received d) pid))]\<rparr> acc))"

definition dkg_finish :: "'g curve \<Rightarrow> 'g DkgNode \<Rightarrow> (frost_error + bytes) \<times> 'g DkgNode" where
  "dkg_finish C d = (case peer_mats C d (dn_peerCommits d) [(dn_ID d, dn_mat d)] of Inl e \<Rightarrow> (Inl e, d)
     | Inr mats \<Rightarrow> (case DkgFinalize C (dn_ID d) mats of Inl e \<Rightarrow> (Inl e, d)
        | Inr (s, grp) \<Rightarrow> (Inr grp, d\<lparr>dn_signer := Some (finish_signer (DkgGlobalCommitments C mats) s)\<rparr>)))"

text \<open>\<open>RunOn\<close> polls until all pairs are done.\<close>

definition dkg_complete :: "'g DkgNode \<Rightarrow> bool" where
  "dkg_complete d \<longleftrightarrow> dn_N d - 1 \<le> int (dn_done d)"

section \<open>Rotation of the members\<close>

record ReshareCommit =
  rc_From :: string
  rc_Commits :: "string list"

datatype reshare_error = ReshareBadShare | ReshareBadThreshold | ReshareBadId | ReshareNoRandom | ReshareBadIndex
  | ReshareCount | ReshareFrost frost_error | ReshareMissing string | ReshareUnverifiable string | ReshareLength | ResharePanic

definition ReshareSplit ::
  "'g curve \<Rightarrow> bytes option list \<Rightarrow> string \<Rightarrow> int option \<Rightarrow> int list \<Rightarrow> int list \<Rightarrow> int \<Rightarrow>
     reshare_error + (ReshareCommit \<times> (int \<times> int) list)" where
  "ReshareSplit C rs me yo oldSet newSet tNew = (case yo of None \<Rightarrow> Inl ReshareBadShare
     | Some y \<Rightarrow>
       if y \<le> 0 \<or> fl \<le> y then Inl ReshareBadShare
       else if tNew < 1 \<or> int (length newSet) < tNew then Inl ReshareBadThreshold
       else let xi = memberX me in
         if xi = 0 then Inl ReshareBadId
         else (case lagrange xi oldSet of None \<Rightarrow> Inl ResharePanic
           | Some l \<Rightarrow> let a0 = (l * y) mod fl in
             (case rand_coeffs rs (nat (tNew - 1)) of None \<Rightarrow> Inl ReshareNoRandom
              | Some coeff \<Rightarrow>
                  Inr (\<lparr>rc_From = me, rc_Commits = map (\<lambda>p. hex_encode (g_enc C p)) (commitments C (a0 # coeff))\<rparr>,
                       fold (\<lambda>j m. AList.update j (evalPolyL coeff a0 j) m) newSet []))))"

fun combine_loop ::
  "'g curve \<Rightarrow> int \<Rightarrow> (string \<times> ReshareCommit) list \<Rightarrow> (string \<times> int option) list \<Rightarrow> string list \<Rightarrow> int \<Rightarrow> 'g list option \<Rightarrow>
     reshare_error + (int \<times> 'g list option)" where
  "combine_loop C j commits subs [] y comb = Inr (y, comb)"
| "combine_loop C j commits subs (f # fs) y comb =
     (case parsePoints C (rc_Commits (the (map_of commits f))) of Inl e \<Rightarrow> Inl (ReshareFrost e)
      | Inr pts \<Rightarrow> (case map_of subs f of
           Some (Some g) \<Rightarrow>
             if \<not> ShareVerifies C pts j g then Inl (ReshareUnverifiable f)
             else (case comb of None \<Rightarrow> combine_loop C j commits subs fs (y + g) (Some pts)
               | Some cs \<Rightarrow>
                   if pts \<noteq> [] \<and> cs \<noteq> [] \<and> length pts \<noteq> length cs then Inl ReshareLength
                   else if pts \<noteq> [] \<and> cs = [] then Inl ResharePanic
                   else combine_loop C j commits subs fs (y + g) (Some (if pts = [] then cs else map2 (g_add C) cs pts)))
         | _ \<Rightarrow> Inl (ReshareMissing f)))"

definition ReshareCombine ::
  "'g curve \<Rightarrow> string \<Rightarrow> int \<Rightarrow> (string \<times> ReshareCommit) list \<Rightarrow> (string \<times> int option) list \<Rightarrow> bytes \<Rightarrow>
     reshare_error + 'g FrostSigner" where
  "ReshareCombine C me j commits subs groupPub =
     (if j \<le> 0 then Inl ReshareBadIndex
      else if commits = [] \<or> length commits \<noteq> length subs then Inl ReshareCount
      else (case combine_loop C j commits subs (sort (map fst commits)) 0 None of Inl e \<Rightarrow> Inl e
        | Inr (y, comb) \<Rightarrow>
           let y' = y mod fl in
           Inr \<lparr>fs_ID = me, fs_X = j, fs_Share = y', fs_GroupPub = groupPub, fs_PubShare = g_enc C (g_exp C y'),
                fs_VK = (case comb of None \<Rightarrow> [] | Some cs \<Rightarrow> cs), fs_GlobalVK = [],
                fs_d = None, fs_e = None, fs_used = False\<rparr>))"

section \<open>Blind signatures\<close>

record 'g BlindState =
  bs_mBlind :: bytes
  bs_cPrime :: int
  bs_a :: int
  bs_Rp :: 'g

definition BlindSetup ::
  "prims \<Rightarrow> 'g curve \<Rightarrow> bytes option \<times> bytes option \<times> bytes option \<Rightarrow> bytes \<Rightarrow> bytes \<Rightarrow> (string \<times> bytes) list \<Rightarrow>
     frost_error + ('g BlindState \<times> bytes)" where
  "BlindSetup P C rnd groupPub m commits =
     (if commits = [] then Inl NeedCommitments
      else (case (randomScalar (fst rnd), randomScalar (fst (snd rnd)), randomScalar (snd (snd rnd))) of
         (Some r, Some a, Some b) \<Rightarrow>
           let mBlind = scalarBytes (hashToScalar P [str_bytes ''to-blind'', m, scalarBytes r]) in
           (case aggregateNonce P C groupPub mBlind commits of Inl e \<Rightarrow> Inl e
            | Inr R \<Rightarrow> (case g_dec C groupPub of Inl e \<Rightarrow> Inl e
               | Inr X \<Rightarrow>
                 let Rp = g_add C R (g_add C (g_exp C a) (g_mul C b X));
                     c = hashToScalar P [g_enc C Rp, groupPub, m]; c' = (c + b) mod fl in
                 Inr (\<lparr>bs_mBlind = mBlind, bs_cPrime = c', bs_a = a, bs_Rp = Rp\<rparr>, scalarBytes c')))
       | _ \<Rightarrow> Inl NoRandom))"

definition blind_Transcript :: "'g BlindState \<Rightarrow> (string \<times> bytes) list \<Rightarrow> (string \<times> int) list \<Rightarrow> FrostTranscript" where
  "blind_Transcript bs commits xs = \<lparr>tr_M = bs_mBlind bs, tr_Commits = commits, tr_Xs = xs, tr_R = [], tr_C = scalarBytes (bs_cPrime bs)\<rparr>"

definition Unblind :: "'g curve \<Rightarrow> 'g BlindState \<Rightarrow> bytes \<Rightarrow> frost_error + bytes" where
  "Unblind C bs aggregated =
     (if length aggregated \<noteq> 64 then Inl ScalarLength
      else (case scalarFromBytes (drop 32 aggregated) of Inl e \<Rightarrow> Inl e
        | Inr zs \<Rightarrow> Inr (g_enc C (bs_Rp bs) @ scalarBytes ((zs + bs_a bs) mod fl))))"

definition BlindRound ::
  "prims \<Rightarrow> 'g curve \<Rightarrow> (bytes option \<times> bytes option) list \<Rightarrow> bytes option \<times> bytes option \<times> bytes option \<Rightarrow>
     bytes \<Rightarrow> 'g FrostSigner list \<Rightarrow> bytes \<Rightarrow> (frost_error + bytes) \<times> 'g FrostSigner list" where
  "BlindRound P C rs rnd groupPub signers m =
     (if length signers < 2 then (Inl TooFewSigners, signers)
      else let (pubs, xs) = round_maps signers in
        (case commit_all C rs signers of
           (Inl e, signers') \<Rightarrow> (Inl e, signers')
         | (Inr cs, signers') \<Rightarrow>
           let commits = keyed cs; agg = SetXs xs (NewFrostAggregator C groupPub pubs) in
           ((case add_commits commits agg of Inl e \<Rightarrow> Inl e
             | Inr agg1 \<Rightarrow> (case BlindSetup P C rnd groupPub m commits of Inl e \<Rightarrow> Inl e
                | Inr (bs, c') \<Rightarrow>
                  (case add_shares P C (blind_Transcript bs commits xs) signers'
                      (UseBlindedChallenge c' (bs_Rp bs) (bs_mBlind bs) agg1) of Inl e \<Rightarrow> Inl e
                   | Inr agg3 \<Rightarrow> (case Aggregate C agg3 of Inl e \<Rightarrow> Inl e | Inr sig \<Rightarrow> Unblind C bs sig)))), signers')))"

definition BlindVerify :: "prims \<Rightarrow> bytes \<Rightarrow> bytes \<Rightarrow> bytes \<Rightarrow> bool" where
  "BlindVerify P groupPub m sig \<longleftrightarrow> ed_verify P groupPub m sig"

end
