(* ===== verification/FrostExtProps.thy ===== *)
theory FrostExtProps
  imports FrostThreshold FrostExt
begin

text \<open>
  Properties of blind rounds, of membership rotation and of the key generation ceremonies.
\<close>

section \<open>Blind signatures\<close>

lemma BlindSetup_ok:
  assumes "curve_ok C rep" "gp = g_enc C (g_exp C a)" "0 \<le> a" "commits \<noteq> []"
    and "aggregateNonce P C gp (scalarBytes (hashToScalar P [str_bytes ''to-blind'', m, scalarBytes (leToInt r mod fl)])) commits = Inr R"
    and "rep R n"
  obtains bs Rp u v where "BlindSetup P C (Some r, Some u0, Some v0) gp m commits = Inr (bs, scalarBytes (bs_cPrime bs))"
    "bs_mBlind bs = scalarBytes (hashToScalar P [str_bytes ''to-blind'', m, scalarBytes (leToInt r mod fl)])"
    "bs_Rp bs = Rp" "rep Rp (n + (u + v * a))" "bs_a bs = u" "bs_cPrime bs = (hashToScalar P [g_enc C Rp, gp, m] + v) mod fl"
proof -
  let ?u = "leToInt u0 mod fl" and ?v = "leToInt v0 mod fl"
  obtain X where X: "g_dec C gp = Inr X" "rep X a"
    using rep_dec [OF assms(1) rep_exp [OF assms(1,3)]] assms(2) by blast
  let ?Rp = "g_add C R (g_add C (g_exp C ?u) (g_mul C ?v X))"
  let ?bs = "\<lparr>bs_mBlind = scalarBytes (hashToScalar P [str_bytes ''to-blind'', m, scalarBytes (leToInt r mod fl)]),
    bs_cPrime = (hashToScalar P [g_enc C ?Rp, gp, m] + ?v) mod fl, bs_a = ?u, bs_Rp = ?Rp\<rparr>"
  have u0: "0 \<le> ?u" and v0: "0 \<le> ?v" by simp_all
  have "rep ?Rp (n + (?u + ?v * a))"
    by (rule rep_add [OF assms(1,6) rep_add [OF assms(1) rep_exp [OF assms(1) u0] rep_mul [OF assms(1) X(2) v0]]])
  then show ?thesis
    by (intro that [of ?bs ?Rp ?u ?v]) (simp_all add: BlindSetup_def randomScalar_def assms(4,5) X(1) Let_def)
qed

lemma blind_equation:
  "z mod fl = (n + ((c + v) mod fl) * s) mod fl \<Longrightarrow> s mod fl = a mod fl \<Longrightarrow>
    ((z mod fl + u) mod fl) mod fl = (n + (u + v * a) + c * a) mod (fl :: int)"
proof -
  assume z: "z mod fl = (n + ((c + v) mod fl) * s) mod fl" and s: "s mod fl = a mod fl"
  have "(z mod fl + u) mod fl = (n + ((c + v) mod fl) * s + u) mod fl" unfolding z by (simp add: mod_add_left_eq)
  also have "\<dots> = (n + (c + v) * a + u) mod fl"
  proof -
    have "(((c + v) mod fl) * s) mod fl = ((c + v) * a) mod fl" using s by (intro mod_mult_cong) simp_all
    then show ?thesis by (intro mod_add_cong refl)
  qed
  finally show ?thesis by (simp add: algebra_simps)
qed

lemma BlindRound_result:
  assumes "curve_ok C rep" "ed_verify_eq P C rep" "signers_ok C gp ss" "2 \<le> length ss" "\<forall>s \<in> set ss. \<not> fs_used s"
    "nonces_ok rs (length ss)" "gp = g_enc C (g_exp C a)" "0 \<le> a" "share_sum ss mod fl = a mod fl"
  shows "\<exists>sig ss'. BlindRound P C rs (Some r, Some u0, Some v0) gp ss m = (Inr sig, ss') \<and> BlindVerify P gp m sig
    \<and> (\<forall>s \<in> set ss'. fs_used s)"
proof -
  obtain pubs ss' q a1 where S: "round_maps ss = (pubs, ids_xs ss')" "commit_all C rs ss = (Inr (ids_commits C ss'), ss')"
    "list_all2 same_signer ss ss'" "\<forall>s \<in> set ss'. committed s" "\<forall>s \<in> set ss'. fs_used s" "signers_ok C gp ss'" "ss' \<noteq> []"
    "keyed (ids_commits C ss') = ids_commits C ss'"
    "add_commits (ids_commits C ss') (SetXs (ids_xs ss') (NewFrostAggregator C gp pubs)) = Inr a1"
    and a1: "ag_groupPub a1 = gp" "ag_xs a1 = ids_xs ss'" "ag_commits a1 = ids_commits C ss'" "ag_shares a1 = []"
      "ag_pubs a1 = map (\<lambda>s. (fs_ID s, q s)) ss'" and q: "\<forall>s \<in> set ss'. rep (q s) (fs_Share s)"
    by (rule round_setup [OF assms(1,3-6)]) (rule that; assumption)
  define mb where "mb = scalarBytes (hashToScalar P [str_bytes ''to-blind'', m, scalarBytes (leToInt r mod fl)])"
  obtain R where R: "aggregateNonce P C gp mb (ids_commits C ss') = Inr R" "rep R (nonce_sum P C gp mb ss')"
    using nonce_point [OF assms(1) S(4,7)] by metis
  have ne: "ids_commits C ss' \<noteq> []" using S(7) by (simp add: ids_commits_def)
  obtain bs Rp u v where B: "BlindSetup P C (Some r, Some u0, Some v0) gp m (ids_commits C ss') = Inr (bs, scalarBytes (bs_cPrime bs))"
    "bs_mBlind bs = mb" "bs_Rp bs = Rp" "rep Rp (nonce_sum P C gp mb ss' + (u + v * a))" "bs_a bs = u"
    "bs_cPrime bs = (hashToScalar P [g_enc C Rp, gp, m] + v) mod fl"
    using BlindSetup_ok [where rep = rep and ?u0.0 = u0 and ?v0.0 = v0, OF assms(1,7,8) ne R(1) [unfolded mb_def] R(2)] unfolding mb_def [symmetric] by metis
  let ?c = "bs_cPrime bs" and ?t = "blind_Transcript bs (ids_commits C ss') (ids_xs ss')"
  let ?a2 = "UseBlindedChallenge (scalarBytes ?c) Rp mb a1"
  have cm: "?c mod fl = ?c" and c0: "0 \<le> ?c" by (simp_all add: B(6))
  have t: "tr_M ?t = mb" "tr_Commits ?t = ids_commits C ss'" "tr_Xs ?t = ids_xs ss'" "leToInt (tr_C ?t) mod fl = ?c"
    by (simp_all add: blind_Transcript_def B(2) cm)
  have ag: "agg_ok C rep gp mb ?c ss' ?a2" using q a1 by (auto simp: agg_ok_def UseBlindedChallenge_def cm)
  have sh: "ag_shares ?a2 = []" "ag_R ?a2 = Some Rp" by (simp_all add: a1 UseBlindedChallenge_def)
  obtain a3 z where z: "add_shares P C ?t ss' ?a2 = Inr a3" "Aggregate C a3 = Inr (g_enc C Rp @ scalarBytes z)"
    "z mod fl = (nonce_sum P C gp mb ss' + ?c * share_sum ss') mod fl"
    using finish_round [OF assms(1) S(6,4) c0 t ag sh, where P = P] by blast
  let ?s = "(z mod fl + u) mod fl"
  have len: "length (g_enc C Rp) = 32" by (rule rep_length [OF assms(1) B(4)])
  have "BlindRound P C rs (Some r, Some u0, Some v0) gp ss m = (Inr (g_enc C Rp @ scalarBytes ?s), ss')"
    using assms(4) len by (simp add: BlindRound_def S(1,2,8,9) B(1-3,5) z(1,2) Unblind_def Let_def)
  moreover have "ed_verify P gp m (g_enc C Rp @ scalarBytes ?s)"
    using assms(2) [unfolded ed_verify_eq_def, rule_format, OF rep_exp [OF assms(1,8)] B(4), of m ?s]
      blind_equation [OF z(3) [unfolded B(6)], of a u] assms(7,9) by (simp add: share_sum_same [OF S(3)])
  ultimately show ?thesis using S(5) by (auto simp: BlindVerify_def)
qed

text \<open>
  C22: a blind round of t or more distinct fresh signers of a dealt group ends in a signature that
  Ed25519 accepts for the true message under the group key, although the signers only ever see the blinded message
  and challenge; the signers are used up.
\<close>

theorem blind_threshold:
  assumes "curve_ok C rep" "ed_verify_eq P C rep" "FrostSplit P C rs seed n t = Inr (ss, gp)" "n < 256"
    and "set qs \<subseteq> set ss" "distinct qs" "t \<le> int (length qs)" "2 \<le> length qs" "nonces_ok ns (length qs)"
  shows "\<exists>sig qs'. BlindRound P C ns (Some r, Some u, Some v) gp qs m = (Inr sig, qs') \<and> BlindVerify P gp m sig
    \<and> (\<forall>s \<in> set qs'. fs_used s)"
proof -
  note S = split_share_sum [OF assms(1,3-7)]
  show ?thesis
    by (rule BlindRound_result [OF assms(1,2) _ assms(8) _ assms(9), where a = "ed25519Scalar P seed"]) (use S in blast)+
qed

theorem blind_threshold_witness:
  "\<exists>ss gp sig qs'. FrostSplit zprims zcurve [Some []] [] 3 2 = Inr (ss, gp)
     \<and> BlindRound zprims zcurve [(Some [1], Some [2]), (Some [3], Some [4])] (Some [7], Some [8], Some [9]) gp [ss ! 2, ss ! 0] [9] = (Inr sig, qs')
     \<and> BlindVerify zprims gp [9] sig"
proof -
  obtain ss gp where ss: "FrostSplit zprims zcurve [Some []] [] 3 2 = Inr (ss, gp)" "length ss = 3" "distinct ss"
    by (rule split_two_of_three)
  have "\<exists>sig qs'. BlindRound zprims zcurve [(Some [1], Some [2]), (Some [3], Some [4])] (Some [7], Some [8], Some [9]) gp [ss ! 2, ss ! 0] [9] = (Inr sig, qs')
     \<and> BlindVerify zprims gp [9] sig \<and> (\<forall>s \<in> set qs'. fs_used s)"
    by (rule blind_threshold [OF zcurve_ok zprims_verify ss(1)]) (use ss in \<open>auto simp: nonces_ok_def nth_eq_iff_index_eq\<close>)
  with ss(1) show ?thesis by blast
qed

end
