(* ===== verification/ReshareProps.thy ===== *)
theory ReshareProps
  imports FrostExtProps
begin

text \<open>
  Rotation of the members and key generation: the sums of Feldman-shared polynomials the two run on, and
  that the members they produce sign under the one group key.
\<close>

section \<open>Sums of polynomials\<close>

definition vadd :: "int list \<Rightarrow> int list \<Rightarrow> int list" where
  "vadd F G = map2 (+) F G"

lemma eval_vadd: "length F = length G \<Longrightarrow> eval_poly (vadd F G) x = eval_poly F x + eval_poly G x"
  unfolding vadd_def by (induction F G rule: list_induct2) (simp_all add: algebra_simps)

lemma length_vadd [simp]: "length (vadd F G) = min (length F) (length G)"
  by (simp add: vadd_def)

definition vsum :: "('i \<Rightarrow> int list) \<Rightarrow> 'i list \<Rightarrow> int list \<Rightarrow> int list" where
  "vsum G fs F = foldl (\<lambda>F f. vadd F (G f)) F fs"

lemma vsum_simps [simp]: "vsum G [] F = F" "vsum G (f # fs) F = vsum G fs (vadd F (G f))"
  by (simp_all add: vsum_def)

lemma length_vsum: "\<forall>f \<in> set fs. length (G f) = length F \<Longrightarrow> length (vsum G fs F) = length F"
  by (induction fs arbitrary: F) simp_all

lemma eval_vsum: "\<forall>f \<in> set fs. length (G f) = length F \<Longrightarrow>
    eval_poly (vsum G fs F) x = eval_poly F x + (\<Sum>f\<leftarrow>fs. eval_poly (G f) x)"
  by (induction fs arbitrary: F) (simp_all add: eval_vadd)

lemma rep_vadd: "curve_ok C rep \<Longrightarrow> list_all2 rep ps F \<Longrightarrow> list_all2 rep qs G \<Longrightarrow> list_all2 rep (map2 (g_add C) ps qs) (vadd F G)"
  unfolding list_all2_conv_all_nth vadd_def by (auto intro: rep_add)

section \<open>Points in hex\<close>

lemma parsePoints_enc:
  assumes "curve_ok C rep" "list_all2 rep ps cs"
  obtains qs where "parsePoints C (map (\<lambda>p. hex_encode (g_enc C p)) ps) = Inr qs" "list_all2 rep qs cs"
  using assms(2)
proof (induction ps cs arbitrary: thesis rule: list_all2_induct)
  case (Cons p ps c cs)
  obtain q where "g_dec C (g_enc C p) = Inr q" "rep q c" using rep_dec [OF assms(1) Cons.hyps(1)] by blast
  moreover obtain qs where "parsePoints C (map (\<lambda>p. hex_encode (g_enc C p)) ps) = Inr qs" "list_all2 rep qs cs"
    using Cons.IH by blast
  ultimately show ?case by (intro Cons.prems [of "q # qs"]) (simp_all add: hex_roundtrip)
qed simp

section \<open>Combining sub-shares\<close>

text \<open>What a new member holds of one old member: the published polynomial and its value at \<open>j\<close>.\<close>

definition sub_ok :: "'g curve \<Rightarrow> ('g \<Rightarrow> int \<Rightarrow> bool) \<Rightarrow> int \<Rightarrow> (string \<times> ReshareCommit) list \<Rightarrow> (string \<times> int option) list \<Rightarrow>
    (string \<Rightarrow> int list) \<Rightarrow> (string \<Rightarrow> int) \<Rightarrow> string \<Rightarrow> bool" where
  "sub_ok C rep j commits subs G g f \<longleftrightarrow> (\<exists>pts. parsePoints C (rc_Commits (the (map_of commits f))) = Inr pts \<and> list_all2 rep pts (G f))
     \<and> map_of subs f = Some (Some (g f)) \<and> 0 \<le> g f \<and> g f mod fl = eval_poly (G f) j mod fl"

lemma combine_step:
  assumes "curve_ok C rep" "0 \<le> j" "sub_ok C rep j commits subs G g f"
  obtains pts where "parsePoints C (rc_Commits (the (map_of commits f))) = Inr pts" "list_all2 rep pts (G f)"
    "map_of subs f = Some (Some (g f))" "ShareVerifies C pts j (g f)"
proof -
  obtain pts where p: "parsePoints C (rc_Commits (the (map_of commits f))) = Inr pts" "list_all2 rep pts (G f)"
    and s: "map_of subs f = Some (Some (g f))" "0 \<le> g f" "g f mod fl = eval_poly (G f) j mod fl"
    using assms(3) by (auto simp: sub_ok_def)
  have "ShareVerifies C pts j (g f)" using ShareVerifies_iff [OF assms(1) p(2) assms(2) s(2)] s(3) by simp
  then show ?thesis using that p s(1) by blast
qed

lemma combine_loop_ok:
  assumes "curve_ok C rep" "0 \<le> j" "\<forall>f \<in> set fs. sub_ok C rep j commits subs G g f \<and> length (G f) = t" "0 < t"
    and "list_all2 rep cs F" "length F = t"
  shows "\<exists>cs'. combine_loop C j commits subs fs y (Some cs) = Inr (y + (\<Sum>f\<leftarrow>fs. g f), Some cs') \<and> list_all2 rep cs' (vsum G fs F)"
  using assms(3,5,6)
proof (induction fs arbitrary: y cs F)
  case (Cons f fs)
  obtain pts where p: "parsePoints C (rc_Commits (the (map_of commits f))) = Inr pts" "list_all2 rep pts (G f)"
    "map_of subs f = Some (Some (g f))" "ShareVerifies C pts j (g f)"
    using combine_step [OF assms(1,2)] Cons.prems(1) by (metis list.set_intros(1))
  have l: "length pts = t" "length cs = t" "length (G f) = t"
    using p(2) Cons.prems by (auto dest!: list_all2_lengthD)
  have "list_all2 rep (map2 (g_add C) cs pts) (vadd F (G f))" by (rule rep_vadd [OF assms(1) Cons.prems(2) p(2)])
  with Cons.IH [of "map2 (g_add C) cs pts" "vadd F (G f)" "y + g f"] Cons.prems l
  obtain cs' where "combine_loop C j commits subs fs (y + g f) (Some (map2 (g_add C) cs pts)) = Inr (y + g f + (\<Sum>f\<leftarrow>fs. g f), Some cs')"
    "list_all2 rep cs' (vsum G fs (vadd F (G f)))" by auto
  moreover have "pts \<noteq> []" "cs \<noteq> []" using l assms(4) by auto
  ultimately show ?case using p l by (auto simp: add.assoc)
qed simp

lemma ReshareCombine_ok:
  assumes "curve_ok C rep" "0 < j" "\<forall>f \<in> fst ` set commits. sub_ok C rep j commits subs G g f \<and> length (G f) = t" "0 < t"
    and "commits \<noteq> []" "length subs = length commits" "distinct (map fst commits)"
  obtains s where "ReshareCombine C me j commits subs gp = Inr s" "fs_ID s = me" "fs_X s = j" "fs_GroupPub s = gp"
    "fs_Share s = (\<Sum>f\<leftarrow>map fst commits. g f) mod fl" "fs_PubShare s = g_enc C (g_exp C (fs_Share s))" "\<not> fs_used s"
    "list_all2 rep (fs_VK s) (vsum G (tl (sort (map fst commits))) (G (hd (sort (map fst commits)))))"
proof -
  let ?fs = "sort (map fst commits)"
  have ne: "?fs \<noteq> []" using assms(5) by (metis length_0_conv length_map length_sort)
  then obtain f fs where f: "?fs = f # fs" by (cases ?fs) auto
  have set_fs: "set (f # fs) = fst ` set commits" unfolding f [symmetric] by simp
  then have ok: "\<forall>f \<in> set (f # fs). sub_ok C rep j commits subs G g f \<and> length (G f) = t" using assms(3) by blast
  have j0: "0 \<le> j" using assms(2) by simp
  obtain pts where p: "parsePoints C (rc_Commits (the (map_of commits f))) = Inr pts" "list_all2 rep pts (G f)"
    "map_of subs f = Some (Some (g f))" "ShareVerifies C pts j (g f)"
    using combine_step [OF assms(1) j0] ok by (metis list.set_intros(1))
  obtain cs' where c: "combine_loop C j commits subs fs (0 + g f) (Some pts) = Inr (0 + g f + (\<Sum>f\<leftarrow>fs. g f), Some cs')"
    "list_all2 rep cs' (vsum G fs (G f))"
    using combine_loop_ok [OF assms(1) j0 _ assms(4) p(2), where fs = fs and y = "0 + g f" and commits = commits
        and subs = subs and G = G and g = g] ok by auto
  have "(\<Sum>f\<leftarrow>map fst commits. g f) = (\<Sum>f\<leftarrow>?fs. g f)"
    by (metis mset_map mset_sort sum_mset_sum_list)
  then have s: "(\<Sum>f\<leftarrow>map fst commits. g f) = 0 + g f + (\<Sum>f\<leftarrow>fs. g f)" using f by simp
  let ?y = "(0 + g f + (\<Sum>f\<leftarrow>fs. g f)) mod fl"
  let ?s = "\<lparr>fs_ID = me, fs_X = j, fs_Share = ?y, fs_GroupPub = gp, fs_PubShare = g_enc C (g_exp C ?y), fs_VK = cs', fs_GlobalVK = [],
    fs_d = None, fs_e = None, fs_used = False\<rparr>"
  have "ReshareCombine C me j commits subs gp = Inr ?s"
    using assms(2,5,6) p c f by (simp add: ReshareCombine_def Let_def)
  then show ?thesis by (rule that) (use c(2) f s in simp_all)
qed

section \<open>Splitting a share\<close>

lemma sum_list_cong_mod: "(\<And>x. x \<in> set xs \<Longrightarrow> f x mod m = h x mod m) \<Longrightarrow> (\<Sum>x\<leftarrow>xs. f x) mod m = (\<Sum>x\<leftarrow>xs. h x) mod (m :: int)"
proof (induction xs)
  case (Cons x xs)
  then have "f x mod m = h x mod m" "(\<Sum>x\<leftarrow>xs. f x) mod m = (\<Sum>x\<leftarrow>xs. h x) mod m" by auto
  from mod_add_cong [OF this] show ?case by simp
qed simp

lemma sum_list_mod: "(\<Sum>x\<leftarrow>xs. f x mod m) mod m = (\<Sum>x\<leftarrow>xs. f x) mod (m :: int)"
  by (rule sum_list_cong_mod) simp

lemma map_of_fold_update:
  "map_of (fold (\<lambda>j m. AList.update j (f j) m) xs m) j = (if j \<in> set xs then Some (f j) else map_of m j)"
  by (induction xs arbitrary: m) (auto simp: update_conv')

lemma ReshareSplit_ok:
  assumes "ReshareSplit C rs me (Some y) oldSet newSet tNew = Inr (cm, sh)" "lagrange (memberX me) oldSet = Some l"
  obtains coeff where "length coeff = nat (tNew - 1)" "1 \<le> tNew" "\<forall>c \<in> set coeff. 0 \<le> c"
    "rc_Commits cm = map (\<lambda>p. hex_encode (g_enc C p)) (commitments C ((l * y) mod fl # coeff))"
    "\<And>j. j \<in> set newSet \<Longrightarrow> map_of sh j = Some (evalPolyL coeff ((l * y) mod fl) j)"
proof -
  obtain coeff where c: "rand_coeffs rs (nat (tNew - 1)) = Some coeff" "1 \<le> tNew"
    "cm = \<lparr>rc_From = me, rc_Commits = map (\<lambda>p. hex_encode (g_enc C p)) (commitments C ((l * y) mod fl # coeff))\<rparr>"
    "sh = fold (\<lambda>j m. AList.update j (evalPolyL coeff ((l * y) mod fl) j) m) newSet []"
    using assms by (auto simp: ReshareSplit_def Let_def split: if_splits option.splits)
  note R = rand_coeffs_spec [OF c(1)]
  show ?thesis
    by (rule that [OF R(1) c(2)]) (use R(2) c(3,4) in \<open>auto simp: map_of_fold_update\<close>)
qed

lemma lagrange_of_set:
  "signers_ok C gp qs \<Longrightarrow> s \<in> set qs \<Longrightarrow> lagrange (fs_X s) (map fs_X qs) = Some (lam qs s)"
proof -
  assume ok: "signers_ok C gp qs" and s: "s \<in> set qs"
  have d: "distinct (map fs_X qs)" and r: "\<forall>y \<in> insert (fs_X s) (set (map fs_X qs)). 0 < y \<and> y < 256"
    using ok s by (auto simp: signers_ok_def signer_ok_def)
  have "\<forall>y \<in> insert (fs_X s) (fs_X ` set qs). 0 < y \<and> y < 256" using r by simp
  then obtain l where "lag_coeff (fs_X ` set qs) (fs_X s) = Some l" using lag_coeff_ok by (metis finite_imageI finite_set)
  then show ?thesis using lagrange_set [OF d r] by (simp add: lam_def)
qed

text \<open>
  The new shares: values of one polynomial of length \<open>tNew\<close> whose constant term is the old share sum.
\<close>

lemma reshare_polynomial:
  assumes "curve_ok C rep" "signers_ok C gp qs" "qs \<noteq> []" "\<forall>s \<in> set qs. memberX (fs_ID s) = fs_X s"
    and "\<forall>s \<in> set qs. ReshareSplit C (rnd s) (fs_ID s) (Some (fs_Share s)) (map fs_X qs) newSet tNew = Inr (cm s, sh s)"
    and "\<forall>j \<in> set newSet. 0 < j"
  obtains F nw where "length F = nat tNew" "eval_poly F 0 mod fl = share_sum qs mod fl"
    "\<forall>j \<in> set newSet. ReshareCombine C (member_id (nat j)) j (map (\<lambda>s. (fs_ID s, cm s)) qs)
        (map (\<lambda>s. (fs_ID s, map_of (sh s) j)) qs) gp = Inr (nw j)
      \<and> fs_ID (nw j) = member_id (nat j) \<and> fs_X (nw j) = j \<and> fs_GroupPub (nw j) = gp
      \<and> fs_PubShare (nw j) = g_enc C (g_exp C (fs_Share (nw j))) \<and> 0 \<le> fs_Share (nw j) \<and> \<not> fs_used (nw j)
      \<and> fs_Share (nw j) mod fl = eval_poly F j mod fl \<and> list_all2 rep (fs_VK (nw j)) F"
proof -
  have d: "distinct (map fs_ID qs)" using assms(2) by (simp add: signers_ok_def)
  have lg: "lagrange (memberX (fs_ID s)) (map fs_X qs) = Some (lam qs s)" if "s \<in> set qs" for s
    using lagrange_of_set [OF assms(2) that] assms(4) that by simp
  let ?a = "\<lambda>s. (lam qs s * fs_Share s) mod fl"
  have "\<forall>s \<in> set qs. \<exists>coeff. length coeff = nat (tNew - 1) \<and> 1 \<le> tNew \<and> (\<forall>c \<in> set coeff. 0 \<le> c)
      \<and> rc_Commits (cm s) = map (\<lambda>p. hex_encode (g_enc C p)) (commitments C (?a s # coeff))
      \<and> (\<forall>j \<in> set newSet. map_of (sh s) j = Some (evalPolyL coeff (?a s) j))"
    using ReshareSplit_ok [OF assms(5) [rule_format] lg] by metis
  from bchoice [OF this] obtain co where co: "\<And>s. s \<in> set qs \<Longrightarrow> length (co s) = nat (tNew - 1) \<and> 1 \<le> tNew \<and> (\<forall>c \<in> set (co s). 0 \<le> c)
      \<and> rc_Commits (cm s) = map (\<lambda>p. hex_encode (g_enc C p)) (commitments C (?a s # co s))
      \<and> (\<forall>j \<in> set newSet. map_of (sh s) j = Some (evalPolyL (co s) (?a s) j))" by blast
  have t: "1 \<le> tNew" using co assms(3) by (metis list.set_sel(1))
  define own where "own f = the (map_of (map (\<lambda>s. (fs_ID s, s)) qs) f)" for f
  have own: "own (fs_ID s) = s" if "s \<in> set qs" for s using map_of_table [OF d that, of "\<lambda>s. s"] by (simp add: own_def)
  define G where "G f = ?a (own f) # co (own f)" for f
  have lG: "length (G (fs_ID s)) = nat tNew" if "s \<in> set qs" for s
    using co [OF that] own [OF that] by (simp add: G_def Suc_nat_eq_nat_zadd1)
  define fs where "fs = sort (map fs_ID qs)"
  have fs: "set fs = fs_ID ` set qs" "fs \<noteq> []" using assms(3) unfolding fs_def by (auto simp flip: length_greater_0_conv)
  define F where "F = vsum G (tl fs) (G (hd fs))"
  have lGf: "\<forall>f \<in> set fs. length (G f) = nat tNew" using lG fs(1) by auto
  have tlfs: "\<forall>f \<in> set (tl fs). length (G f) = length (G (hd fs))" using lGf fs(2) by (metis list.set_sel)
  have lF: "length F = nat tNew" using length_vsum [OF tlfs] lGf fs(2) by (simp add: F_def)
  have evF: "eval_poly F x = (\<Sum>s\<leftarrow>qs. eval_poly (G (fs_ID s)) x)" for x
  proof -
    have "eval_poly F x = (\<Sum>f\<leftarrow>fs. eval_poly (G f) x)"
      unfolding F_def eval_vsum [OF tlfs] using fs(2) by (cases fs) simp_all
    also have "\<dots> = (\<Sum>f\<leftarrow>map fs_ID qs. eval_poly (G f) x)" 
    proof -
      have "mset (map (\<lambda>f. eval_poly (G f) x) fs) = mset (map (\<lambda>f. eval_poly (G f) x) (map fs_ID qs))" unfolding fs_def mset_map mset_sort by simp
      then show ?thesis by (simp only: sum_mset_sum_list [symmetric])
    qed
    finally show ?thesis by (simp add: comp_def)
  qed
  have F0: "eval_poly F 0 mod fl = share_sum qs mod fl"
  proof -
    have "eval_poly F 0 = (\<Sum>s\<leftarrow>qs. (lam qs s * fs_Share s) mod fl)"
      unfolding evF by (rule arg_cong [where f = sum_list], rule map_cong [OF refl]) (simp add: G_def own)
    then show ?thesis by (simp only: share_sum_def sum_list_mod)
  qed
  have comb: "\<exists>s. ReshareCombine C (member_id (nat j)) j (map (\<lambda>s. (fs_ID s, cm s)) qs) (map (\<lambda>s. (fs_ID s, map_of (sh s) j)) qs) gp = Inr s
      \<and> fs_ID s = member_id (nat j) \<and> fs_X s = j \<and> fs_GroupPub s = gp \<and> fs_PubShare s = g_enc C (g_exp C (fs_Share s)) \<and> 0 \<le> fs_Share s
      \<and> \<not> fs_used s \<and> fs_Share s mod fl = eval_poly F j mod fl \<and> list_all2 rep (fs_VK s) F" if j: "j \<in> set newSet" for j
  proof -
    let ?commits = "map (\<lambda>s. (fs_ID s, cm s)) qs" and ?subs = "map (\<lambda>s. (fs_ID s, map_of (sh s) j)) qs"
    define g where "g f = evalPolyL (co (own f)) (?a (own f)) j" for f
    have gm: "g (fs_ID s) mod fl = eval_poly (G (fs_ID s)) j mod fl" for s
      by (simp only: g_def G_def evalPolyL_mod)
    have "sub_ok C rep j ?commits ?subs G g (fs_ID s) \<and> length (G (fs_ID s)) = nat tNew" if s: "s \<in> set qs" for s
    proof -
      have nn: "\<forall>c \<in> set (?a s # co s). 0 \<le> c" using co [OF s] by simp
      obtain pts where "parsePoints C (map (\<lambda>p. hex_encode (g_enc C p)) (commitments C (?a s # co s))) = Inr pts" "list_all2 rep pts (?a s # co s)"
        using parsePoints_enc [OF assms(1) commitments_rep [OF assms(1) nn]] by blast
      moreover have "map_of ?commits (fs_ID s) = Some (cm s)" "map_of ?subs (fs_ID s) = Some (map_of (sh s) j)"
        by (rule map_of_table [OF d s])+
      moreover have "map_of (sh s) j = Some (g (fs_ID s))" using co [OF s] j by (simp add: g_def own s)
      moreover have "G (fs_ID s) = ?a s # co s" by (simp add: G_def own s)
      moreover have "0 \<le> g (fs_ID s)" unfolding g_def by (rule evalPolyL_nonneg) simp
      ultimately show ?thesis using co [OF s] gm [of s] lG [OF s] by (auto simp: sub_ok_def)
    qed
    then have "\<forall>f \<in> fst ` set ?commits. sub_ok C rep j ?commits ?subs G g f \<and> length (G f) = nat tNew" by auto
    from ReshareCombine_ok [OF assms(1) _ this, of "member_id (nat j)" gp]
    obtain s where s: "ReshareCombine C (member_id (nat j)) j ?commits ?subs gp = Inr s" "fs_ID s = member_id (nat j)" "fs_X s = j" "fs_GroupPub s = gp"
      "fs_Share s = (\<Sum>f\<leftarrow>map fst ?commits. g f) mod fl" "fs_PubShare s = g_enc C (g_exp C (fs_Share s))" "\<not> fs_used s"
      "list_all2 rep (fs_VK s) (vsum G (tl (sort (map fst ?commits))) (G (hd (sort (map fst ?commits)))))"
      using assms(3,6) d t j by (auto simp: comp_def)
    have "(\<Sum>s\<leftarrow>qs. g (fs_ID s)) mod fl = (\<Sum>s\<leftarrow>qs. eval_poly (G (fs_ID s)) j) mod fl"
      by (rule sum_list_cong_mod) (rule gm)
    then have "fs_Share s mod fl = eval_poly F j mod fl" using s(5) by (simp add: evF comp_def)
    moreover have "list_all2 rep (fs_VK s) F" using s(8) by (simp add: F_def fs_def comp_def)
    moreover have "0 \<le> fs_Share s" by (simp add: s(5))
    ultimately show ?thesis using s(1-4,6,7) by blast
  qed
  then have "\<forall>j \<in> set newSet. \<exists>s. ReshareCombine C (member_id (nat j)) j (map (\<lambda>s. (fs_ID s, cm s)) qs) (map (\<lambda>s. (fs_ID s, map_of (sh s) j)) qs) gp = Inr s
      \<and> fs_ID s = member_id (nat j) \<and> fs_X s = j \<and> fs_GroupPub s = gp \<and> fs_PubShare s = g_enc C (g_exp C (fs_Share s)) \<and> 0 \<le> fs_Share s
      \<and> \<not> fs_used s \<and> fs_Share s mod fl = eval_poly F j mod fl \<and> list_all2 rep (fs_VK s) F" by blast
  from bchoice [OF this] that [OF lF F0] show ?thesis by blast
qed

text \<open>
  C18: when t or more members of a dealt group re-share to a new index set, every new member combines
  its sub-shares without an error, and any tNew or more of the new members (at least two) sign messages that Ed25519
  accepts under the unchanged group key.
\<close>

theorem reshare_keeps_key:
  assumes "curve_ok C rep" "ed_verify_eq P C rep" "FrostSplit P C rs seed n t = Inr (ss, gp)" "n < 256"
    and "set qs \<subseteq> set ss" "distinct qs" "t \<le> int (length qs)"
    and "\<forall>s \<in> set qs. ReshareSplit C (rnd s) (fs_ID s) (Some (fs_Share s)) (map fs_X qs) newSet tNew = Inr (cm s, sh s)"
    and "\<forall>j \<in> set newSet. 0 < j \<and> j < 256" "set js \<subseteq> set newSet" "distinct js" "tNew \<le> int (length js)" "2 \<le> length js"
    and "nonces_ok ns (length js)"
  shows "\<exists>nw. (\<forall>j \<in> set newSet. ReshareCombine C (member_id (nat j)) j (map (\<lambda>s. (fs_ID s, cm s)) qs)
        (map (\<lambda>s. (fs_ID s, map_of (sh s) j)) qs) gp = Inr (nw j))
    \<and> (\<exists>sig ss'. FrostRound P C ns gp (map nw js) m = (Inr sig, ss') \<and> ed_verify P gp m sig)"
proof -
  let ?a = "ed25519Scalar P seed"
  have ok: "signers_ok C gp qs" and gp: "gp = g_enc C (g_exp C ?a)" "0 \<le> ?a" and sm: "share_sum qs mod fl = ?a mod fl"
    using split_share_sum [OF assms(1,3-7)] by blast+
  have t1: "1 \<le> t" and ids: "\<forall>s \<in> set ss. fs_ID s = member_id (nat (fs_X s))"
    using FrostSplit_signers [OF assms(1,3,4)] by metis+
  have ne: "qs \<noteq> []" using assms(7) t1 by auto
  have mx: "\<forall>s \<in> set qs. memberX (fs_ID s) = fs_X s"
  proof
    fix s assume s: "s \<in> set qs"
    then have "0 < fs_X s \<and> fs_X s < 256" using ok by (auto simp: signers_ok_def signer_ok_def)
    then show "memberX (fs_ID s) = fs_X s" using ids s assms(5) memberX_index by auto
  qed
  have pos: "\<forall>j \<in> set newSet. 0 < j" using assms(9) by blast
  obtain F nw where F: "length F = nat tNew" "eval_poly F 0 mod fl = share_sum qs mod fl"
    and nw: "\<forall>j \<in> set newSet. ReshareCombine C (member_id (nat j)) j (map (\<lambda>s. (fs_ID s, cm s)) qs)
        (map (\<lambda>s. (fs_ID s, map_of (sh s) j)) qs) gp = Inr (nw j)
      \<and> fs_ID (nw j) = member_id (nat j) \<and> fs_X (nw j) = j \<and> fs_GroupPub (nw j) = gp
      \<and> fs_PubShare (nw j) = g_enc C (g_exp C (fs_Share (nw j))) \<and> 0 \<le> fs_Share (nw j) \<and> \<not> fs_used (nw j)
      \<and> fs_Share (nw j) mod fl = eval_poly F j mod fl \<and> list_all2 rep (fs_VK (nw j)) F"
    by (rule reshare_polynomial [OF assms(1) ok ne mx assms(8) pos]) (rule that; assumption)
  have X: "map fs_X (map nw js) = js" by (rule nth_equalityI) (use nw assms(10) in \<open>auto simp: subset_eq\<close>)
  have "map memberX (map fs_ID (map nw js)) = js"
  proof (rule nth_equalityI)
    fix i assume i: "i < length (map memberX (map fs_ID (map nw js)))"
    then have "js ! i \<in> set newSet" using assms(10) by auto
    then show "map memberX (map fs_ID (map nw js)) ! i = js ! i"
      using i nw assms(9) memberX_index by simp
  qed simp
  then have "distinct (map fs_ID (map nw js))" using assms(11) by (metis distinct_map)
  then have okn: "signers_ok C gp (map nw js)"
    using nw assms(9-11) X by (auto simp: signers_ok_def signer_ok_def subset_eq)
  have l2: "2 \<le> length (map nw js)" and fr: "\<forall>s \<in> set (map nw js). \<not> fs_used s" and nn: "nonces_ok ns (length (map nw js))"
    using assms(10,13,14) nw by auto
  have "share_sum (map nw js) mod fl = eval_poly F 0 mod fl"
    by (rule share_sum_poly [OF okn]) (use F(1) assms(10,12) nw in \<open>auto simp: subset_eq\<close>)
  then have sa: "share_sum (map nw js) mod fl = ?a mod fl" using F(2) sm by simp
  from round_accepts [OF assms(1,2) okn l2 fr nn gp sa] nw show ?thesis by blast
qed

lemma ReshareSplit_runs:
  assumes "signers_ok C gp qs" "s \<in> set qs" "memberX (fs_ID s) = fs_X s" "0 < fs_Share s" "fs_Share s < fl"
    and "1 \<le> tNew" "tNew \<le> int (length newSet)" "rand_coeffs rs (nat (tNew - 1)) \<noteq> None"
  shows "\<exists>r. ReshareSplit C rs (fs_ID s) (Some (fs_Share s)) (map fs_X qs) newSet tNew = Inr r"
proof -
  have "0 < fs_X s" using assms(1,2) by (auto simp: signers_ok_def signer_ok_def)
  then show ?thesis using assms(3-8) lagrange_of_set [OF assms(1,2)] by (auto simp: ReshareSplit_def Let_def)
qed

lemma zscalar: "ed25519Scalar zprims [] = 2 ^ 254"
proof -
  have "sha512 zprims [] = replicate 64 0" by (simp add: toy_sel pad_def)
  then show ?thesis unfolding ed25519Scalar_def Let_def by (simp add: leToInt_def set_bytes_def numeral_eq_Suc, simp add: take_bit_eq_mod)
qed

theorem reshare_keeps_key_witness:
  "\<exists>ss gp cm sh nw sig ss'. FrostSplit zprims zcurve [Some []] [] 3 2 = Inr (ss, gp)
    \<and> (\<forall>s \<in> set ss. ReshareSplit zcurve [Some []] (fs_ID s) (Some (fs_Share s)) (map fs_X ss) [2, 4] 2 = Inr (cm s, sh s))
    \<and> FrostRound zprims zcurve [(Some [1], Some [2]), (Some [3], Some [4])] gp (map nw [4, 2 :: int]) [9] = (Inr sig, ss')
    \<and> ed_verify zprims gp [9] sig"
proof -
  obtain ss gp where ss: "FrostSplit zprims zcurve [Some []] [] 3 2 = Inr (ss, gp)" "length ss = 3" "distinct ss"
    and ok: "signers_ok zcurve gp ss"
    by (rule split_two_of_three)
  have lt: "3 < (256 :: int)" by simp
  have co: "\<forall>s \<in> set ss. fs_ID s = member_id (nat (fs_X s))"
    using FrostSplit_signers [OF zcurve_ok ss(1) lt] by metis
  have rc1: "rand_coeffs [Some []] 1 = Some [0]" by (simp add: rand_coeffs_def randomScalar_def)
  have sh: "fs_Share s = 2 ^ 254 mod fl" if s: "s \<in> set ss" for s
    using ss(1) s by (auto simp: FrostSplit_def rc1 [simplified] evalPolyL_def zscalar Let_def)
  have mx: "memberX (fs_ID s) = fs_X s" if s: "s \<in> set ss" for s
    using co s ok memberX_index [of "fs_X s"] by (auto simp: signers_ok_def signer_ok_def)
  have rc: "rand_coeffs [Some []] (nat (2 - 1)) \<noteq> None" by (simp add: rand_coeffs_def randomScalar_def)
  have "\<exists>r. ReshareSplit zcurve [Some []] (fs_ID s) (Some (fs_Share s)) (map fs_X ss) [2, 4] 2 = Inr r" if s: "s \<in> set ss" for s
    by (rule ReshareSplit_runs [OF ok s mx [OF s] _ _ _ _ rc]) (simp_all add: sh [OF s], simp add: fl_def)
  then have sp: "\<forall>s \<in> set ss. ReshareSplit zcurve [Some []] (fs_ID s) (Some (fs_Share s)) (map fs_X ss) [2, 4] 2
      = Inr (fst (projr (ReshareSplit zcurve [Some []] (fs_ID s) (Some (fs_Share s)) (map fs_X ss) [2, 4] 2)),
             snd (projr (ReshareSplit zcurve [Some []] (fs_ID s) (Some (fs_Share s)) (map fs_X ss) [2, 4] 2)))" by fastforce
  have h: "set ss \<subseteq> set ss" "2 \<le> int (length ss)" "\<forall>j \<in> set [2, 4]. 0 < j \<and> j < (256 :: int)" "set [4, 2] \<subseteq> set [2, 4 :: int]"
    "distinct [4, 2 :: int]" "2 \<le> int (length [4, 2 :: int])" "2 \<le> length [4, 2 :: int]"
    "nonces_ok [(Some [1], Some [2]), (Some [3], Some [4])] (length [4, 2 :: int])" "3 < (256 :: int)"
    using ss(2) by (simp_all add: nonces_ok_def)
  from reshare_keeps_key [OF zcurve_ok zprims_verify ss(1) h(9,1) ss(3) h(2) sp h(3-8), of "[9]"]
  obtain nw sig ss' where "FrostRound zprims zcurve [(Some [1], Some [2]), (Some [3], Some [4])] gp (map nw [4, 2 :: int]) [9] = (Inr sig, ss')"
    "ed_verify zprims gp [9] sig" by blast
  with ss(1) sp show ?thesis by (intro exI conjI)
qed

end
