(* ===== verification/DkgProps.thy ===== *)
theory DkgProps
  imports ReshareProps
begin

text \<open>
  Key generation: the in-process ceremony yields shares of one polynomial under the published key, and the state
  of a node of the distributed ceremony.
\<close>

section \<open>Materials\<close>

lemma DkgGenerate_ok:
  assumes "rand_coeffs rs (nat t) = Some cs" "1 \<le> t" "t \<le> n"
  obtains a coeff where "cs = a # coeff" "DkgGenerate C rs pid n t = Inr \<lparr>dm_ID = pid, dm_Commits = commitments C cs,
      dm_Shares = map (\<lambda>x. (member_id (nat x), evalPolyL coeff a x)) [1..n]\<rparr>"
    "length cs = nat t" "\<forall>c \<in> set cs. 0 \<le> c"
proof -
  note R = rand_coeffs_spec [OF assms(1)]
  obtain a coeff where c: "cs = a # coeff" using R(1) assms(2) by (cases cs) auto
  then show ?thesis using that R assms by (simp add: DkgGenerate_def)
qed

text \<open>What a member needs of a material: commitments to a polynomial and its value at the member's index.\<close>

definition mat_ok :: "('g \<Rightarrow> int \<Rightarrow> bool) \<Rightarrow> string \<Rightarrow> nat \<Rightarrow> ('g DkgMaterial \<Rightarrow> int list) \<Rightarrow> ('g DkgMaterial \<Rightarrow> int) \<Rightarrow> 'g DkgMaterial \<Rightarrow> bool" where
  "mat_ok rep pid t G g m \<longleftrightarrow> list_all2 rep (dm_Commits m) (G m) \<and> length (G m) = t \<and> map_of (dm_Shares m) pid = Some (g m)
     \<and> 0 \<le> g m \<and> g m mod fl = eval_poly (G m) (memberX pid) mod fl"

lemma finalize_loop_ok:
  assumes "curve_ok C rep" "0 \<le> memberX pid" "0 < t" "\<forall>m \<in> set ms. mat_ok rep pid t G g m" "rep grp a"
  shows "\<exists>grp'. finalize_loop C pid ms y grp = Inr (y + (\<Sum>m\<leftarrow>ms. g m), grp') \<and> rep grp' (a + (\<Sum>m\<leftarrow>ms. hd (G m)))
    \<and> grp' = foldl (\<lambda>p m. g_add C p (hd (dm_Commits m))) grp ms"
  using assms(4,5)
proof (induction ms arbitrary: y grp a)
  case (Cons m ms)
  have M: "list_all2 rep (dm_Commits m) (G m)" "length (G m) = t" "map_of (dm_Shares m) pid = Some (g m)"
    "0 \<le> g m" "g m mod fl = eval_poly (G m) (memberX pid) mod fl" using Cons.prems(1) by (auto simp: mat_ok_def)
  obtain c0 cs where c: "dm_Commits m = c0 # cs" using list_all2_lengthD [OF M(1)] M(2) assms(3) by (cases "dm_Commits m") auto
  then have r0: "rep c0 (hd (G m))" using M(1) by (cases "G m") auto
  have "ShareVerifies C (dm_Commits m) (memberX pid) (g m)" using ShareVerifies_iff [OF assms(1) M(1) assms(2) M(4)] M(5) by simp
  moreover have "rep (g_add C grp c0) (a + hd (G m))" by (rule rep_add [OF assms(1) Cons.prems(2) r0])
  ultimately show ?case
    using Cons.IH [of "g_add C grp c0" "a + hd (G m)" "y + g m"] Cons.prems(1) M(3) c by (auto simp: add.assoc)
qed simp

lemma eval_poly_zero: "eval_poly (replicate n 0) x = (0 :: int)"
  by (induction n) simp_all

lemma generate_all_ok:
  assumes "1 \<le> t" "t \<le> n" "\<forall>i \<in> set is. rand_coeffs (rss i) (nat t) \<noteq> None"
  obtains mats where "generate_all C rss is n t = Inr mats" "length mats = length is"
    "\<And>k. k < length is \<Longrightarrow> fst (mats ! k) = member_id (nat (is ! k)) \<and> dm_ID (snd (mats ! k)) = member_id (nat (is ! k))
       \<and> (\<exists>a coeff. length coeff + 1 = nat t \<and> (\<forall>c \<in> set (a # coeff). 0 \<le> c) \<and> dm_Commits (snd (mats ! k)) = commitments C (a # coeff)
          \<and> dm_Shares (snd (mats ! k)) = map (\<lambda>x. (member_id (nat x), evalPolyL coeff a x)) [1..n])"
  using assms(3)
proof (induction "is" arbitrary: thesis)
  case (Cons i "is")
  obtain mats where M: "generate_all C rss is n t = Inr mats" "length mats = length is"
    "\<And>k. k < length is \<Longrightarrow> fst (mats ! k) = member_id (nat (is ! k)) \<and> dm_ID (snd (mats ! k)) = member_id (nat (is ! k))
       \<and> (\<exists>a coeff. length coeff + 1 = nat t \<and> (\<forall>c \<in> set (a # coeff). 0 \<le> c) \<and> dm_Commits (snd (mats ! k)) = commitments C (a # coeff)
          \<and> dm_Shares (snd (mats ! k)) = map (\<lambda>x. (member_id (nat x), evalPolyL coeff a x)) [1..n])"
    using Cons.IH Cons.prems(2) by auto
  obtain cs where "rand_coeffs (rss i) (nat t) = Some cs" using Cons.prems(2) by auto
  from DkgGenerate_ok [OF this assms(1,2), of C "member_id (nat i)"]
  obtain a coeff where g: "cs = a # coeff" "DkgGenerate C (rss i) (member_id (nat i)) n t = Inr \<lparr>dm_ID = member_id (nat i), dm_Commits = commitments C cs,
      dm_Shares = map (\<lambda>x. (member_id (nat x), evalPolyL coeff a x)) [1..n]\<rparr>"
    "length cs = nat t" "\<forall>c \<in> set cs. 0 \<le> c" by metis
  show ?case
  proof (rule Cons.prems(1))
    let ?m = "\<lparr>dm_ID = member_id (nat i), dm_Commits = commitments C cs, dm_Shares = map (\<lambda>x. (member_id (nat x), evalPolyL coeff a x)) [1..n]\<rparr>"
    show "generate_all C rss (i # is) n t = Inr ((member_id (nat i), ?m) # mats)" using g(2) M(1) by simp
    show "length ((member_id (nat i), ?m) # mats) = length (i # is)" using M(2) by simp
    show "fst (((member_id (nat i), ?m) # mats) ! k) = member_id (nat ((i # is) ! k)) \<and>
      dm_ID (snd (((member_id (nat i), ?m) # mats) ! k)) = member_id (nat ((i # is) ! k))
       \<and> (\<exists>a coeff. length coeff + 1 = nat t \<and> (\<forall>c \<in> set (a # coeff). 0 \<le> c) \<and> dm_Commits (snd (((member_id (nat i), ?m) # mats) ! k)) = commitments C (a # coeff)
          \<and> dm_Shares (snd (((member_id (nat i), ?m) # mats) ! k)) = map (\<lambda>x. (member_id (nat x), evalPolyL coeff a x)) [1..n])"
      if "k < length (i # is)" for k
      using that g(1,3,4) M(3) by (cases k) (auto intro!: exI [of _ a] exI [of _ coeff])
  qed
qed simp

section \<open>The ceremony\<close>

lemma distinct_ids: "n < 256 \<Longrightarrow> distinct (map (\<lambda>x. member_id (nat x)) [1..n])"
proof -
  assume n: "n < 256"
  have "map memberX (map (\<lambda>x. member_id (nat x)) [1..n]) = [1..n]"
    by (rule nth_equalityI) (use n memberX_index in simp_all)
  then show ?thesis by (metis distinct_upto distinct_map)
qed

lemma map_of_ids:
  assumes "n < 256" "1 \<le> x" "x \<le> n"
  shows "map_of (map (\<lambda>x. (member_id (nat x), f x)) [1..n]) (member_id (nat x)) = Some (f x)"
  by (rule map_of_is_SomeI) (use distinct_ids [OF assms(1)] assms in \<open>auto simp: comp_def\<close>)

lemma finalize_all_ok:
  assumes "\<forall>m \<in> snd ` set ms. DkgFinalize C (dm_ID m) mats = Inr (h (dm_ID m), gp)"
  shows "finalize_all C mats ms g0 = Inr (map (\<lambda>(pid, m). h (dm_ID m)) ms, if ms = [] then g0 else gp)"
  using assms by (induction ms arbitrary: g0) auto

lemma ceremony_shares:
  fixes C :: "'g curve"
  assumes "curve_ok C rep" "1 \<le> t" "t \<le> n" "n < 256" "\<forall>i \<in> set [1..n]. rand_coeffs (rss i) (nat t) \<noteq> None"
  obtains ss gp F where "DkgCeremony C rss n t = Inr (ss, gp)" "signers_ok C gp ss" "length ss = nat n" "length F = nat t"
    "\<forall>s \<in> set ss. \<not> fs_used s \<and> fs_Share s mod fl = eval_poly F (fs_X s) mod fl" "gp = g_enc C (g_exp C (eval_poly F 0))"
    "0 \<le> eval_poly F 0"
proof -
  obtain mats where M: "generate_all C rss [1..n] n t = Inr mats" "length mats = length [1..n]"
    "\<And>k. k < length [1..n] \<Longrightarrow> fst (mats ! k) = member_id (nat ([1..n] ! k)) \<and> dm_ID (snd (mats ! k)) = member_id (nat ([1..n] ! k))
       \<and> (\<exists>a coeff. length coeff + 1 = nat t \<and> (\<forall>c \<in> set (a # coeff). 0 \<le> c) \<and> dm_Commits (snd (mats ! k)) = commitments C (a # coeff)
          \<and> dm_Shares (snd (mats ! k)) = map (\<lambda>x. (member_id (nat x), evalPolyL coeff a x)) [1..n])"
    by (rule generate_all_ok [OF assms(2,3,5)]) (rule that; assumption)
  define ms where "ms = map snd mats"
  have ids: "map fst mats = map (\<lambda>x. member_id (nat x)) [1..n]" "map dm_ID ms = map (\<lambda>x. member_id (nat x)) [1..n]"
    unfolding ms_def by (rule nth_equalityI; use M(2,3) in simp)+
  have "\<forall>m \<in> set ms. \<exists>cs. length cs = nat t \<and> (\<forall>c \<in> set cs. 0 \<le> c) \<and> dm_Commits m = commitments C cs
      \<and> dm_Shares m = map (\<lambda>x. (member_id (nat x), evalPolyL (tl cs) (hd cs) x)) [1..n]"
  proof
    fix m assume "m \<in> set ms"
    then obtain k where k: "k < length [1..n]" "m = snd (mats ! k)" using M(2) unfolding ms_def by (auto simp: in_set_conv_nth)
    from M(3) [OF k(1)] obtain a coeff where "length coeff + 1 = nat t" "\<forall>c \<in> set (a # coeff). 0 \<le> c" "dm_Commits m = commitments C (a # coeff)"
      "dm_Shares m = map (\<lambda>x. (member_id (nat x), evalPolyL coeff a x)) [1..n]" unfolding k(2) by blast
    then show "\<exists>cs. length cs = nat t \<and> (\<forall>c \<in> set cs. 0 \<le> c) \<and> dm_Commits m = commitments C cs
      \<and> dm_Shares m = map (\<lambda>x. (member_id (nat x), evalPolyL (tl cs) (hd cs) x)) [1..n]" by (intro exI [of _ "a # coeff"]) simp
  qed
  from bchoice [OF this] obtain G where G: "\<And>m. m \<in> set ms \<Longrightarrow> length (G m) = nat t \<and> (\<forall>c \<in> set (G m). 0 \<le> c) \<and> dm_Commits m = commitments C (G m)
      \<and> dm_Shares m = map (\<lambda>x. (member_id (nat x), evalPolyL (tl (G m)) (hd (G m)) x)) [1..n]" by blast
  have t0: "0 < nat t" using assms(2) by simp
  have Gne: "G m = hd (G m) # tl (G m)" if "m \<in> set ms" for m using G [OF that] t0 by (cases "G m") auto
  define F where "F = vsum G ms (replicate (nat t) 0)"
  have lG: "\<forall>m \<in> set ms. length (G m) = length (replicate (nat t) (0 :: int))" using G by simp
  have lF: "length F = nat t" unfolding F_def length_vsum [OF lG] by simp
  have evF: "eval_poly F x = (\<Sum>m\<leftarrow>ms. eval_poly (G m) x)" for x
    unfolding F_def eval_vsum [OF lG] by (simp add: eval_poly_zero)
  have F0: "(\<Sum>m\<leftarrow>ms. hd (G m)) = eval_poly F 0"
    unfolding evF by (rule arg_cong [where f = sum_list], rule map_cong [OF refl]) (metis Gne add.right_neutral eval_poly.simps(2) mult_zero_left)
  have F0n: "0 \<le> eval_poly F 0"
    unfolding F0 [symmetric] by (rule sum_list_nonneg) (use G Gne in \<open>auto, metis list.set_intros(1)\<close>)
  define grp where "grp = foldl (\<lambda>p m. g_add C p (hd (dm_Commits m))) (g_id C) ms"
  define g where "g x m = evalPolyL (tl (G m)) (hd (G m)) x" for x m
  define s :: "int \<Rightarrow> 'g FrostSigner" where "s x = \<lparr>fs_ID = member_id (nat x), fs_X = x, fs_Share = (\<Sum>m\<leftarrow>ms. g x m) mod fl, fs_GroupPub = g_enc C grp,
    fs_PubShare = g_enc C (g_exp C ((\<Sum>m\<leftarrow>ms. g x m) mod fl)), fs_VK = [], fs_GlobalVK = [], fs_d = None, fs_e = None, fs_used = False\<rparr>" for x
  have fin: "DkgFinalize C (member_id (nat x)) mats = Inr (s x, g_enc C grp) \<and> rep grp (eval_poly F 0)" if x: "1 \<le> x" "x \<le> n" for x
  proof -
    let ?pid = "member_id (nat x)"
    have mx: "memberX ?pid = x" using x assms(4) memberX_index by simp
    have "\<forall>m \<in> set ms. mat_ok rep ?pid (nat t) G (g x) m"
    proof
      fix m assume m: "m \<in> set ms"
      have "list_all2 rep (dm_Commits m) (G m)" using G [OF m] commitments_rep [OF assms(1)] by metis
      moreover have "0 \<le> hd (G m)" using G [OF m] Gne [OF m] by (metis list.set_intros(1))
      moreover have "g x m mod fl = eval_poly (G m) x mod fl" unfolding g_def evalPolyL_mod using Gne [OF m] by simp
      ultimately show "mat_ok rep ?pid (nat t) G (g x) m"
        using G [OF m] map_of_ids [OF assms(4) x] by (simp add: mat_ok_def mx g_def evalPolyL_nonneg)
    qed
    from finalize_loop_ok [OF assms(1) _ t0 this rep_id [OF assms(1)], of 0] mx x
    have "finalize_loop C ?pid ms 0 (g_id C) = Inr ((\<Sum>m\<leftarrow>ms. g x m), grp)" "rep grp (0 + (\<Sum>m\<leftarrow>ms. hd (G m)))"
      by (auto simp: grp_def)
    moreover have "map_of mats ?pid \<noteq> None"
      using x ids(1) unfolding map_of_eq_None_iff by (metis atLeastAtMost_iff image_eqI list.set_map set_upto)
    ultimately show ?thesis using F0 mx by (simp add: DkgFinalize_def ms_def s_def Let_def)
  qed
  define h where "h pid = s (memberX pid)" for pid
  have "\<forall>m \<in> snd ` set mats. DkgFinalize C (dm_ID m) mats = Inr (h (dm_ID m), g_enc C grp)"
  proof
    fix m assume "m \<in> snd ` set mats"
    then have "dm_ID m \<in> set (map dm_ID ms)" by (auto simp: ms_def)
    then obtain x where x: "1 \<le> x" "x \<le> n" "dm_ID m = member_id (nat x)" unfolding ids(2) by auto
    then have "memberX (dm_ID m) = x" using assms(4) memberX_index by simp
    then show "DkgFinalize C (dm_ID m) mats = Inr (h (dm_ID m), g_enc C grp)" using fin [OF x(1,2)] x(3) by (simp add: h_def)
  qed
  from finalize_all_ok [OF this, of "[]"]
  have "finalize_all C mats mats [] = Inr (map (\<lambda>(pid, m). h (dm_ID m)) mats, if mats = [] then [] else g_enc C grp)" .
  moreover have "mats \<noteq> []" using M(2) assms(2,3) by auto
  moreover have "map (\<lambda>(pid, m). h (dm_ID m)) mats = map s [1..n]"
  proof -
    have "map (\<lambda>(pid, m). h (dm_ID m)) mats = map h (map dm_ID ms)" by (simp add: ms_def case_prod_unfold)
    also have "\<dots> = map s [1..n]" unfolding ids(2) map_map
      by (rule map_cong [OF refl]) (use assms(4) memberX_index in \<open>simp add: h_def\<close>)
    finally show ?thesis .
  qed
  ultimately have fa: "finalize_all C mats mats [] = Inr (map s [1..n], g_enc C grp)" by simp
  define gv where "gv = map (\<lambda>(pid, m). \<lparr>dc_ID = dm_ID m,
    dc_Commits = vec_hex C (fold (\<lambda>(pid, m) g. add_vec C g (dm_Commits m)) mats (replicate (nat t) None))\<rparr>) mats"
  have C: "DkgCeremony C rss n t = Inr (map (finish_signer gv) (map s [1..n]), g_enc C grp)"
    using M(1) fa assms(2) by (simp add: DkgCeremony_def Let_def gv_def)
  have rg: "rep grp (eval_poly F 0)" using fin [of 1] assms(2,3) by simp
  have gp: "g_enc C grp = g_enc C (g_exp C (eval_poly F 0))"
    using rep_enc [OF assms(1) rg rep_exp [OF assms(1) F0n]] by simp
  have sh: "(\<Sum>m\<leftarrow>ms. g x m) mod fl = eval_poly F x mod fl" for x
    unfolding evF by (rule sum_list_cong_mod) (metis Gne evalPolyL_mod g_def)
  let ?ss = "map (finish_signer gv) (map s [1..n])"
  have "distinct (map fs_ID ?ss)" "distinct (map fs_X ?ss)"
    using distinct_ids [OF assms(4)] by (simp_all add: comp_def finish_signer_def s_def)
  then have ok: "signers_ok C (g_enc C grp) ?ss"
    using assms(4) by (auto simp: signers_ok_def signer_ok_def finish_signer_def s_def)
  have "length ?ss = nat n" by simp
  then show ?thesis
    by (rule that [OF C ok _ lF _ gp F0n]) (use sh in \<open>auto simp: finish_signer_def s_def\<close>)
qed

text \<open>
  C7: with working randomness and 1 <= t <= n < 256 the ceremony succeeds with n signers that agree on the
  group key, and any t or more of them (at least two) sign messages Ed25519 accepts under it, although no
  step of it holds the group secret.
\<close>

theorem dkg_ceremony:
  assumes "curve_ok C rep" "ed_verify_eq P C rep" "1 \<le> t" "t \<le> n" "n < 256" "\<forall>i \<in> set [1..n]. rand_coeffs (rss i) (nat t) \<noteq> None"
  shows "\<exists>ss gp. DkgCeremony C rss n t = Inr (ss, gp) \<and> length ss = nat n \<and> (\<forall>s \<in> set ss. fs_GroupPub s = gp)
    \<and> (\<forall>qs ns m. set qs \<subseteq> set ss \<and> distinct qs \<and> t \<le> int (length qs) \<and> 2 \<le> length qs \<and> nonces_ok ns (length qs)
        \<longrightarrow> (\<exists>sig qs'. FrostRound P C ns gp qs m = (Inr sig, qs') \<and> ed_verify P gp m sig))"
proof -
  obtain ss gp F where S: "DkgCeremony C rss n t = Inr (ss, gp)" "signers_ok C gp ss" "length ss = nat n" "length F = nat t"
    "\<forall>s \<in> set ss. \<not> fs_used s \<and> fs_Share s mod fl = eval_poly F (fs_X s) mod fl" "gp = g_enc C (g_exp C (eval_poly F 0))"
    "0 \<le> eval_poly F 0"
    by (rule ceremony_shares [OF assms(1,3-6)]) (rule that; assumption)
  have "\<exists>sig qs'. FrostRound P C ns gp qs m = (Inr sig, qs') \<and> ed_verify P gp m sig"
    if q: "set qs \<subseteq> set ss" "distinct qs" "t \<le> int (length qs)" "2 \<le> length qs" "nonces_ok ns (length qs)" for qs ns m
  proof -
    note ok = signers_ok_subset [OF S(2) q(1,2)]
    have fr: "\<forall>s \<in> set qs. \<not> fs_used s" using S(5) q(1) by blast
    have "share_sum qs mod fl = eval_poly F 0 mod fl"
      by (rule share_sum_poly [OF ok]) (use S(4,5) q in auto)
    from round_accepts [OF assms(1,2) ok q(4) fr q(5) S(6,7) this] show ?thesis by blast
  qed
  then show ?thesis using S(1-3) by (auto simp: signers_ok_def signer_ok_def)
qed

theorem dkg_ceremony_witness:
  "\<exists>ss gp. DkgCeremony zcurve (\<lambda>i. [Some [1], Some [2]]) 3 2 = Inr (ss, gp) \<and> length ss = 3"
proof -
  have "\<forall>i \<in> set [1..3 :: int]. rand_coeffs [Some [1], Some [2]] (nat 2) \<noteq> None"
    by (simp add: rand_coeffs_def randomScalar_def eval_nat_numeral)
  from dkg_ceremony [OF zcurve_ok zprims_verify _ _ _ this] show ?thesis by force
qed

end
