(* ===== verification/DkgNodeProps.thy ===== *)
theory DkgNodeProps
  imports DkgProps
begin

text \<open>
  One node of the distributed ceremony as a state machine over the frames and replies it receives.
\<close>

section \<open>The events of a node\<close>

text \<open>A frame over a connection whose certificate names \<open>cert\<close>, or the reply to the node's own exchange.\<close>

datatype dkg_event = Frame string DkgMsg | Reply string DkgMsg

fun dkg_step :: "'g curve \<Rightarrow> dkg_event \<Rightarrow> 'g DkgNode \<Rightarrow> 'g DkgNode" where
  "dkg_step C (Frame cert m) d = snd (handleFrame C (\<lambda>f. f = cert) m d)"
| "dkg_step C (Reply pid m) d = (case exchange_reply C pid m d of Inl e \<Rightarrow> d | Inr d' \<Rightarrow> d')"

definition verified :: "'g curve \<Rightarrow> 'g DkgNode \<Rightarrow> string \<Rightarrow> string list \<Rightarrow> bool" where
  "verified C d pid hexC \<longleftrightarrow> (\<exists>pts v. parsePoints C hexC = Inr pts \<and> int (length pts) = dn_T d
     \<and> map_of (dn_received d) pid = Some v \<and> 0 < v \<and> v < fl \<and> ShareVerifies C pts (memberX (dn_ID d)) v)"

definition node_ok :: "'g curve \<Rightarrow> 'g DkgNode \<Rightarrow> bool" where
  "node_ok C d \<longleftrightarrow> dn_done d = length (dn_received d) \<and> map fst (dn_peerCommits d) = map fst (dn_received d)
     \<and> distinct (map fst (dn_received d)) \<and> (\<forall>(pid, hexC) \<in> set (dn_peerCommits d). verified C d pid hexC)"

definition node_le :: "'g DkgNode \<Rightarrow> 'g DkgNode \<Rightarrow> bool" where
  "node_le d d' \<longleftrightarrow> dn_ID d' = dn_ID d \<and> dn_T d' = dn_T d \<and> dn_N d' = dn_N d \<and> dn_session d' = dn_session d \<and> dn_mat d' = dn_mat d
     \<and> (\<exists>xs. dn_received d' = dn_received d @ xs) \<and> (\<exists>ys. dn_peerCommits d' = dn_peerCommits d @ ys)"

lemma recordPeer_cases:
  assumes "recordPeer C pid hexC sv d = Inr d'"
  obtains pts v where "map_of (dn_received d) pid = None" "parsePoints C hexC = Inr pts" "int (length pts) = dn_T d"
    "scalarFromBytes sv = Inr v" "0 < v" "v < fl" "ShareVerifies C pts (memberX (dn_ID d)) v"
    "d' = d\<lparr>dn_peerCommits := AList.update pid hexC (dn_peerCommits d), dn_received := AList.update pid v (dn_received d), dn_done := dn_done d + 1\<rparr>"
  using assms by (auto simp: recordPeer_def split: if_splits sum.splits)

lemma recordPeer_ok:
  assumes "node_ok C d" "recordPeer C pid hexC sv d = Inr d'"
  shows "node_ok C d' \<and> node_le d d'"
proof -
  obtain pts v where r: "map_of (dn_received d) pid = None" "parsePoints C hexC = Inr pts" "int (length pts) = dn_T d"
    "0 < v" "v < fl" "ShareVerifies C pts (memberX (dn_ID d)) v"
    and d': "d' = d\<lparr>dn_peerCommits := AList.update pid hexC (dn_peerCommits d), dn_received := AList.update pid v (dn_received d), dn_done := dn_done d + 1\<rparr>"
    using recordPeer_cases [OF assms(2)] by metis
  have n: "pid \<notin> fst ` set (dn_received d)" using r(1) by (simp add: map_of_eq_None_iff)
  moreover have "pid \<notin> fst ` set (dn_peerCommits d)"
    using n assms(1) unfolding node_ok_def by (metis list.set_map)
  ultimately have u: "dn_peerCommits d' = dn_peerCommits d @ [(pid, hexC)]" "dn_received d' = dn_received d @ [(pid, v)]"
    by (simp_all add: d' update_fresh)
  have old: "verified C d' q h" if "(q, h) \<in> set (dn_peerCommits d)" for q h
  proof -
    have "verified C d q h" using assms(1) that by (auto simp: node_ok_def)
    then obtain pts v where "parsePoints C h = Inr pts" "int (length pts) = dn_T d" "map_of (dn_received d) q = Some v" "0 < v" "v < fl"
      "ShareVerifies C pts (memberX (dn_ID d)) v" by (auto simp: verified_def)
    then show ?thesis unfolding verified_def u by (intro exI [of _ pts] exI [of _ v]) (simp add: d' map_add_Some_iff)
  qed
  have new: "verified C d' pid hexC" using r n unfolding verified_def u by (simp add: d' map_add_def)
  have "node_ok C d'"
    using assms(1) n old new by (auto simp: node_ok_def u) (simp add: d')
  moreover have "node_le d d'" using u by (simp add: node_le_def d')
  ultimately show ?thesis by simp
qed

lemma node_le_refl: "node_le d d"
  by (simp add: node_le_def)

lemma dkg_step_ok:
  assumes "node_ok C d"
  shows "node_ok C (dkg_step C ev d) \<and> node_le d (dkg_step C ev d)"
proof (cases ev)
  case (Frame cert m)
  then show ?thesis using assms recordPeer_ok [OF assms] node_le_refl [of d]
    by (auto simp: handleFrame_def split: sum.splits)
next
  case (Reply pid m)
  then show ?thesis using assms recordPeer_ok [OF assms] node_le_refl [of d]
    by (auto simp: exchange_reply_def split: sum.splits if_splits)
qed

interpretation dkg_node: growing_machine "dkg_step C" "node_ok C" node_le for C
proof
  show "node_ok C s \<Longrightarrow> node_ok C (dkg_step C a s)" for a and s :: "'a DkgNode" using dkg_step_ok by blast
  show "node_ok C s \<Longrightarrow> node_le s (dkg_step C a s)" for a and s :: "'a DkgNode" using dkg_step_ok by blast
  show "node_le s t \<Longrightarrow> node_le t u \<Longrightarrow> node_le s u" for s t u :: "'a DkgNode" unfolding node_le_def by auto
qed (rule node_le_refl)

lemma NewDkgNode_ok: "NewDkgNode P C rs pid n t peers = Inr d \<Longrightarrow> node_ok C d \<and> dn_ID d = pid \<and> dn_N d = n \<and> dn_T d = t"
  by (auto simp: NewDkgNode_def node_ok_def split: if_splits sum.splits)

text \<open>
  C23: whatever frames and replies a fresh node receives, in whatever order, the number of completed
  exchanges is the number of distinct peers recorded, a share once recorded is never replaced, and every recorded
  share is a non-zero scalar below L that passes the Feldman check against commitments of exactly T points of its sender.
\<close>

theorem dkg_node_run:
  assumes "NewDkgNode P C rs pid n t peers = Inr d" "d1 = fold (dkg_step C) evs1 d" "d2 = fold (dkg_step C) evs2 d1"
  shows "dn_done d2 = card (fst ` set (dn_received d2))
    \<and> (\<forall>q v. map_of (dn_received d1) q = Some v \<longrightarrow> map_of (dn_received d2) q = Some v)
    \<and> (\<forall>(q, h) \<in> set (dn_peerCommits d2). \<exists>pts v. parsePoints C h = Inr pts \<and> int (length pts) = t
        \<and> map_of (dn_received d2) q = Some v \<and> 0 < v \<and> v < fl \<and> ShareVerifies C pts (memberX pid) v)"
proof -
  note N = NewDkgNode_ok [OF assms(1)]
  have 1: "node_ok C d1" and l1: "node_le d d1" unfolding assms(2) using N dkg_node.run_inv dkg_node.run_le by blast+
  have 2: "node_ok C d2" and l2: "node_le d1 d2" unfolding assms(3) using 1 dkg_node.run_inv dkg_node.run_le by blast+
  have id: "dn_ID d2 = pid" "dn_T d2 = t" using l1 l2 N by (simp_all add: node_le_def)
  have "dn_done d2 = card (fst ` set (dn_received d2))"
    using 2 by (metis distinct_card length_map list.set_map node_ok_def)
  moreover have "map_of (dn_received d2) q = Some v" if "map_of (dn_received d1) q = Some v" for q v
  proof -
    obtain xs where x: "dn_received d2 = dn_received d1 @ xs" using l2 by (auto simp: node_le_def)
    have "distinct (map fst (dn_received d2))" using 2 by (simp add: node_ok_def)
    moreover have "(q, v) \<in> set (dn_received d2)" using map_of_SomeD [OF that] x by simp
    ultimately show ?thesis by (rule map_of_is_SomeI)
  qed
  ultimately show ?thesis using 2 by (auto simp: node_ok_def verified_def id)
qed

lemma node_M1:
  obtains d where "NewDkgNode zprims zcurve [Some [1], Some [2]] ''M1'' 3 2 [(''M1'', ''a''), (''M2'', ''b''), (''M3'', ''c'')] = Inr d"
    "dn_mat d = \<lparr>dm_ID = ''M1'', dm_Commits = commitments zcurve [1, 2],
      dm_Shares = map (\<lambda>x. (member_id (nat x), evalPolyL [2] 1 x)) [1..3]\<rparr>"
proof -
  have m: "memberX ''M1'' = 1" "memberX ''M2'' = 2" "memberX ''M3'' = 3" by (simp_all add: memberX_def wrap64_def)
  have r: "rand_coeffs [Some [1], Some [2]] (nat 2) = Some [1, 2]"
    by (simp add: rand_coeffs_def randomScalar_def eval_nat_numeral leToInt_Cons fl_def)
  obtain d where "NewDkgNode zprims zcurve [Some [1], Some [2]] ''M1'' 3 2 [(''M1'', ''a''), (''M2'', ''b''), (''M3'', ''c'')] = Inr d"
    by (auto simp: NewDkgNode_def DkgGenerate_def r [simplified] m Let_def)
  moreover from this have "dn_mat d = \<lparr>dm_ID = ''M1'', dm_Commits = commitments zcurve [1, 2],
      dm_Shares = map (\<lambda>x. (member_id (nat x), evalPolyL [2] 1 x)) [1..3]\<rparr>"
    by (auto simp: NewDkgNode_def DkgGenerate_def r [simplified] m Let_def)
  ultimately show ?thesis by (rule that)
qed

theorem dkg_node_run_witness:
  "\<exists>d. NewDkgNode zprims zcurve [Some [1], Some [2]] ''M1'' 3 2 [(''M1'', ''a''), (''M2'', ''b''), (''M3'', ''c'')] = Inr d
     \<and> dn_done (fold (dkg_step zcurve) [Reply ''M2'' \<lparr>dk_exchange = True, dk_session = [], dk_from = ''M2'', dk_commits = [], dk_share = []\<rparr>] d)
       = card (fst ` set (dn_received (fold (dkg_step zcurve) [Reply ''M2'' \<lparr>dk_exchange = True, dk_session = [], dk_from = ''M2'', dk_commits = [], dk_share = []\<rparr>] d)))"
proof -
  obtain d where d: "NewDkgNode zprims zcurve [Some [1], Some [2]] ''M1'' 3 2 [(''M1'', ''a''), (''M2'', ''b''), (''M3'', ''c'')] = Inr d"
    by (rule node_M1)
  have "d = fold (dkg_step zcurve) [] d" by simp
  from conjunct1 [OF dkg_node_run [OF d this refl]] d show ?thesis by blast
qed

section \<open>Finishing\<close>

lemma peer_mats_ok:
  assumes "\<forall>(pid, h) \<in> set ps. verified C d pid h" "distinct (map fst acc @ map fst ps)"
  shows "\<exists>ms. peer_mats C d ps acc = Inr (acc @ ms) \<and> list_all2 (\<lambda>(pid, h) (q, m). q = pid \<and> parsePoints C h = Inr (dm_Commits m)
    \<and> dm_Shares m = [(dn_ID d, the (map_of (dn_received d) pid))]) ps ms"
  using assms
proof (induction ps arbitrary: acc)
  case (Cons x ps)
  obtain pid h where x: "x = (pid, h)" by (cases x)
  obtain pts where p: "parsePoints C h = Inr pts" using Cons.prems(1) x by (auto simp: verified_def)
  let ?m = "\<lparr>dm_ID = pid, dm_Commits = pts, dm_Shares = [(dn_ID d, the (map_of (dn_received d) pid))]\<rparr>"
  have u: "AList.update pid ?m acc = acc @ [(pid, ?m)]" using Cons.prems(2) x by (intro update_fresh) auto
  have "\<exists>ms. peer_mats C d ps (acc @ [(pid, ?m)]) = Inr ((acc @ [(pid, ?m)]) @ ms) \<and> list_all2 (\<lambda>(pid, h) (q, m). q = pid
      \<and> parsePoints C h = Inr (dm_Commits m) \<and> dm_Shares m = [(dn_ID d, the (map_of (dn_received d) pid))]) ps ms"
    using Cons.prems x by (intro Cons.IH) auto
  then show ?case using p u x by (fastforce intro: exI [of _ "(pid, ?m) # _"])
qed simp

lemma finalize_loop_sum:
  assumes "\<forall>m \<in> set ms. dm_Commits m \<noteq> [] \<and> map_of (dm_Shares m) pid = Some (g m) \<and> ShareVerifies C (dm_Commits m) (memberX pid) (g m)"
  shows "\<exists>grp'. finalize_loop C pid ms y grp = Inr (y + (\<Sum>m\<leftarrow>ms. g m), grp')"
  using assms
proof (induction ms arbitrary: y grp)
  case (Cons m ms)
  then obtain c cs where c: "dm_Commits m = c # cs" by (auto simp: neq_Nil_conv)
  from Cons.prems have ms: "\<forall>m \<in> set ms. dm_Commits m \<noteq> [] \<and> map_of (dm_Shares m) pid = Some (g m)
    \<and> ShareVerifies C (dm_Commits m) (memberX pid) (g m)" by simp
  obtain grp' where "finalize_loop C pid ms (y + g m) (g_add C grp c) = Inr (y + g m + (\<Sum>m\<leftarrow>ms. g m), grp')"
    using Cons.IH [OF ms] by blast
  then show ?case using Cons.prems c by (auto simp: add.assoc)
qed simp

text \<open>
  Once its own material checks out and no peer was recorded under its own id, finishing cannot
  fail, and the node's share is its own value plus every value received, modulo L.
\<close>

theorem dkg_node_finish:
  fixes C :: "'g curve"
  assumes "node_ok C d" "0 < dn_T d" "dn_ID d \<notin> fst ` set (dn_received d)" "dm_Commits (dn_mat d) \<noteq> []"
    and "map_of (dm_Shares (dn_mat d)) (dn_ID d) = Some y" "ShareVerifies C (dm_Commits (dn_mat d)) (memberX (dn_ID d)) y"
  shows "\<exists>grp d' s. dkg_finish C d = (Inr grp, d') \<and> dn_signer d' = Some s \<and> fs_ID s = dn_ID d \<and> fs_GroupPub s = grp
    \<and> fs_Share s = (y + (\<Sum>(q, v)\<leftarrow>dn_received d. v)) mod fl"
proof -
  have k: "map fst (dn_peerCommits d) = map fst (dn_received d)" "distinct (map fst (dn_received d))"
    using assms(1) by (simp_all add: node_ok_def)
  have v: "\<forall>(pid, h) \<in> set (dn_peerCommits d). verified C d pid h" using assms(1) by (auto simp: node_ok_def)
  have "distinct (map fst [(dn_ID d, dn_mat d)] @ map fst (dn_peerCommits d))"
    unfolding k(1) using k(2) assms(3) by simp
  from peer_mats_ok [OF v this]
  obtain ms where ms: "peer_mats C d (dn_peerCommits d) [(dn_ID d, dn_mat d)] = Inr ((dn_ID d, dn_mat d) # ms)"
    "list_all2 (\<lambda>(pid, h) (q, m). q = pid \<and> parsePoints C h = Inr (dm_Commits m)
       \<and> dm_Shares m = [(dn_ID d, the (map_of (dn_received d) pid))]) (dn_peerCommits d) ms"
    by auto
  have len: "length ms = length (dn_received d)" using list_all2_lengthD [OF ms(2)] k(1) by (metis length_map)
  define g where "g m = the (map_of (dm_Shares m) (dn_ID d))" for m :: "'g DkgMaterial"
  have nth: "dm_Commits (snd (ms ! i)) \<noteq> [] \<and> map_of (dm_Shares (snd (ms ! i))) (dn_ID d) = Some (g (snd (ms ! i)))
      \<and> ShareVerifies C (dm_Commits (snd (ms ! i))) (memberX (dn_ID d)) (g (snd (ms ! i))) \<and> g (snd (ms ! i)) = snd (dn_received d ! i)"
    if i: "i < length ms" for i
  proof -
    obtain pid h where ph: "dn_peerCommits d ! i = (pid, h)" by fastforce
    obtain q m where qm: "ms ! i = (q, m)" by fastforce
    have M: "q = pid" "parsePoints C h = Inr (dm_Commits m)" "dm_Shares m = [(dn_ID d, the (map_of (dn_received d) pid))]"
      using list_all2_nthD2 [OF ms(2) i] ph qm by auto
    have i': "i < length (dn_peerCommits d)" using i list_all2_lengthD [OF ms(2)] by simp
    then have "(pid, h) \<in> set (dn_peerCommits d)" using ph by (metis nth_mem)
    then have "verified C d pid h" using v by blast
    then obtain w where w: "int (length (dm_Commits m)) = dn_T d" "map_of (dn_received d) pid = Some w"
      "ShareVerifies C (dm_Commits m) (memberX (dn_ID d)) w" using M(2) by (auto simp: verified_def)
    have "fst (dn_received d ! i) = pid" using k(1) i i' len ph by (metis fst_conv nth_map)
    then have "map_of (dn_received d) pid = Some (snd (dn_received d ! i))"
      using k(2) i len by (metis map_of_is_SomeI nth_mem prod.collapse)
    then show ?thesis using M w assms(2) qm by (auto simp: g_def)
  qed
  have all: "\<forall>m \<in> set (dn_mat d # map snd ms). dm_Commits m \<noteq> [] \<and> map_of (dm_Shares m) (dn_ID d) = Some (g m)
      \<and> ShareVerifies C (dm_Commits m) (memberX (dn_ID d)) (g m)"
  proof -
    have own: "g (dn_mat d) = y" using assms(5) by (simp add: g_def)
    show ?thesis
    proof
      fix m assume "m \<in> set (dn_mat d # map snd ms)"
      then consider "m = dn_mat d" | i where "i < length ms" "m = snd (ms ! i)"
        unfolding list.set insert_iff in_set_conv_nth [of m "map snd ms"] by (elim disjE exE conjE) simp_all
      then show "dm_Commits m \<noteq> [] \<and> map_of (dm_Shares m) (dn_ID d) = Some (g m) \<and> ShareVerifies C (dm_Commits m) (memberX (dn_ID d)) (g m)"
      proof cases
        case 1
        then show ?thesis using assms(4-6) own by simp
      next
        case 2
        then show ?thesis using nth [OF 2(1)] by blast
      qed
    qed
  qed
  obtain grp where f: "finalize_loop C (dn_ID d) (dn_mat d # map snd ms) 0 (g_id C) = Inr (0 + (\<Sum>m\<leftarrow>dn_mat d # map snd ms. g m), grp)"
    using finalize_loop_sum [OF all] by blast
  have "map g (map snd ms) = map snd (dn_received d)" by (rule nth_equalityI) (use len nth in auto)
  then have "(\<Sum>m\<leftarrow>dn_mat d # map snd ms. g m) = y + (\<Sum>(q, v)\<leftarrow>dn_received d. v)"
    using assms(5) by (simp add: g_def case_prod_unfold comp_def)
  then have fl: "finalize_loop C (dn_ID d) (map snd ((dn_ID d, dn_mat d) # ms)) 0 (g_id C) = Inr (y + (\<Sum>(q, v)\<leftarrow>dn_received d. v), grp)"
    using f by simp
  then show ?thesis unfolding dkg_finish_def ms(1) sum.case DkgFinalize_def fl
    by (simp add: Let_def finish_signer_def)
qed

lemma member_one: "member_id (Suc 0) = ''M1''"
  by (simp add: member_id_def digits.simps) (code_simp)

theorem dkg_node_finish_witness:
  "\<exists>d grp d' s. NewDkgNode zprims zcurve [Some [1], Some [2]] ''M1'' 3 2 [(''M1'', ''a''), (''M2'', ''b''), (''M3'', ''c'')] = Inr d
     \<and> dkg_finish zcurve d = (Inr grp, d') \<and> dn_signer d' = Some s \<and> fs_Share s = 3"
proof -
  obtain d where d: "NewDkgNode zprims zcurve [Some [1], Some [2]] ''M1'' 3 2 [(''M1'', ''a''), (''M2'', ''b''), (''M3'', ''c'')] = Inr d"
    "dn_mat d = \<lparr>dm_ID = ''M1'', dm_Commits = commitments zcurve [1, 2],
      dm_Shares = map (\<lambda>x. (member_id (nat x), evalPolyL [2] 1 x)) [1..3]\<rparr>" by (rule node_M1)
  have rcv: "dn_received d = []" using d(1) by (auto simp: NewDkgNode_def split: if_splits sum.splits)
  note N = NewDkgNode_ok [OF d(1)]
  have y: "evalPolyL [2] 1 1 = 3" by (simp add: evalPolyL_def fl_def)
  have own: "map_of (dm_Shares (dn_mat d)) (dn_ID d) = Some 3"
    using N map_of_ids [of 3 1 "evalPolyL [2] 1"] by (simp add: d(2) y member_one del: upto.simps)
  have mx: "memberX (dn_ID d) = 1" using N by (simp add: memberX_def wrap64_def)
  have "ShareVerifies zcurve (dm_Commits (dn_mat d)) (memberX (dn_ID d)) 3"
    using ShareVerifies_iff [OF zcurve_ok commitments_rep [OF zcurve_ok], of "[1, 2]" 1 3] by (simp add: d(2) mx)
  then have "\<exists>grp d' s. dkg_finish zcurve d = (Inr grp, d') \<and> dn_signer d' = Some s \<and> fs_ID s = dn_ID d \<and> fs_GroupPub s = grp
    \<and> fs_Share s = (3 + (\<Sum>(q, v)\<leftarrow>dn_received d. v)) mod fl"
    by (intro dkg_node_finish own) (use N d(2) rcv in \<open>simp_all add: commitments_def\<close>)
  then obtain grp d' s where "dkg_finish zcurve d = (Inr grp, d')" "dn_signer d' = Some s" "fs_Share s = 3"
    using rcv by (auto simp: fl_def)
  with d(1) show ?thesis by blast
qed

text \<open>
  A frame from an identity that is not one of the ceremony's members, whose commitments and share are
  consistent, is recorded and counted, and then the reply panics on the missing share: nothing checks the sender
  against the member list.
\<close>

theorem dkg_stranger:
  assumes "dk_exchange m" "dk_session m = dn_session d" "recordPeer C (dk_from m) (dk_commits m) (dk_share m) d = Inr d'"
    and "map_of (dm_Shares (dn_mat d)) (dk_from m) = None"
  shows "handleFrame C (\<lambda>f. f = dk_from m) m d = (Inl (DkgFrost Panicked), d') \<and> dn_done d' = dn_done d + 1"
proof -
  obtain pts v where "d' = d\<lparr>dn_peerCommits := AList.update (dk_from m) (dk_commits m) (dn_peerCommits d),
      dn_received := AList.update (dk_from m) v (dn_received d), dn_done := dn_done d + 1\<rparr>"
    using recordPeer_cases [OF assms(3)] by metis
  then show ?thesis using assms by (simp add: handleFrame_def exchange_msg_def)
qed

theorem dkg_stranger_witness:
  "\<exists>d d'. NewDkgNode zprims zcurve [Some [1], Some [2]] ''M1'' 3 2 [(''M1'', ''a''), (''M2'', ''b''), (''M3'', ''c'')] = Inr d
     \<and> handleFrame zcurve (\<lambda>f. f = ''X'') \<lparr>dk_exchange = True, dk_session = dn_session d, dk_from = ''X'',
         dk_commits = map (\<lambda>p. hex_encode (g_enc zcurve p)) [1, 1], dk_share = scalarBytes 2\<rparr> d = (Inl (DkgFrost Panicked), d')"
proof -
  obtain d where d: "NewDkgNode zprims zcurve [Some [1], Some [2]] ''M1'' 3 2 [(''M1'', ''a''), (''M2'', ''b''), (''M3'', ''c'')] = Inr d"
    "dn_mat d = \<lparr>dm_ID = ''M1'', dm_Commits = commitments zcurve [1, 2],
      dm_Shares = map (\<lambda>x. (member_id (nat x), evalPolyL [2] 1 x)) [1..3]\<rparr>" by (rule node_M1)
  have rcv: "dn_received d = []" using d(1) by (auto simp: NewDkgNode_def split: if_splits sum.splits)
  note N = NewDkgNode_ok [OF d(1)]
  have mx: "memberX (dn_ID d) = 1" using N by (simp add: memberX_def wrap64_def)
  define cs where "cs = map (\<lambda>p. hex_encode (g_enc zcurve p)) [1, 1]"
  let ?m = "\<lparr>dk_exchange = True, dk_session = dn_session d, dk_from = ''X'', dk_commits = cs, dk_share = scalarBytes 2\<rparr>"
  have z11: "list_all2 zrep [1, 1] [1, 1]" by (simp add: zrep_def fl_def)
  obtain pts where p: "parsePoints zcurve cs = Inr pts" "list_all2 zrep pts [1, 1]"
    using parsePoints_enc [OF zcurve_ok z11] unfolding cs_def by blast
  have l: "length pts = 2" using list_all2_lengthD [OF p(2)] by simp
  have sv: "ShareVerifies zcurve pts 1 2" using ShareVerifies_iff [OF zcurve_ok p(2), of 1 2] by simp
  have two: "2 mod fl = 2" "fl > 2" by (simp_all add: fl_def)
  have tt: "dn_T d = 2" using N by simp
  obtain d' where r: "recordPeer zcurve ''X'' cs (scalarBytes 2) d = Inr d'"
    using p(1) l sv tt two(2) by (simp add: recordPeer_def rcv mx two(1))
  have "''X'' \<noteq> member_id k" for k by (simp add: member_id_def)
  then have "map_of (dm_Shares (dn_mat d)) ''X'' = None" by (auto simp: d(2) map_of_eq_None_iff member_id_def simp del: upto.simps)
  then have "handleFrame zcurve (\<lambda>f. f = dk_from ?m) ?m d = (Inl (DkgFrost Panicked), d') \<and> dn_done d' = dn_done d + 1"
    using r by (intro dkg_stranger) simp_all
  with d(1) show ?thesis unfolding cs_def by (intro exI conjI) (assumption, simp only: DkgMsg.select_convs)
qed

end
