(* ===== verification/ShareFileProps.thy ===== *)
theory ShareFileProps
  imports DkgNodeProps
begin

text \<open>
  Share files: what the offline tool writes for a dealt signer (\<open>shard\<close> of \<open>cmd/to/main.go\<close>) and what loading
  it gives back.
\<close>

definition shard_file :: "'g curve \<Rightarrow> 'g FrostSigner \<Rightarrow> FrostShareFile" where
  "shard_file C s = \<lparr>sf_ID = fs_ID s, sf_X = fs_X s, sf_Y = Some (fs_Share s), sf_GroupPub = fs_GroupPub s,
     sf_PubShare = fs_PubShare s, sf_VK = map (\<lambda>c. hex_encode (g_enc C c)) (fs_VK s), sf_GlobalVK = []\<rparr>"

text \<open>
  For a threshold of two or more, the file of every dealt signer loads into a fresh signer with
  the same id, index, share and keys (its share is reduced, the commitments decode, the Feldman check passes).
\<close>

theorem share_file_loads:
  assumes "curve_ok C rep" "FrostSplit P C rs seed n t = Inr (ss, gp)" "n < 256" "2 \<le> t" "s \<in> set ss"
  shows "\<exists>s'. sf_Signer C (shard_file C s) = Inr s' \<and> same_signer s s' \<and> \<not> fs_used s'"
proof -
  let ?a = "ed25519Scalar P seed"
  obtain coeff where S: "signers_ok C gp ss" "length coeff = nat (t - 1)"
    "\<forall>s \<in> set ss. fs_VK s = commitments C (?a # coeff) \<and> fs_Share s = evalPolyL coeff ?a (fs_X s)"
    "gp = g_enc C (g_exp C ?a)" "\<forall>c \<in> set coeff. 0 \<le> c" "0 \<le> ?a"
    using FrostSplit_signers [OF assms(1-3)] by metis
  have ok: "fs_GroupPub s = gp" "fs_PubShare s = g_enc C (g_exp C (fs_Share s))" "0 \<le> fs_Share s" "0 < fs_X s"
    using S(1) assms(5) by (auto simp: signers_ok_def signer_ok_def)
  have sh: "fs_VK s = commitments C (?a # coeff)" "fs_Share s = evalPolyL coeff ?a (fs_X s)" using S(3) assms(5) by blast+
  have ne: "coeff \<noteq> []" using S(2) assms(4) by auto
  have lt: "fs_Share s < fl" unfolding sh(2) evalPolyL_def by (rule eval_loop_reduced) (use ne S(6) in auto)
  have nn: "\<forall>c \<in> set (?a # coeff). 0 \<le> c" using S(5,6) by simp
  obtain pts where p: "parsePoints C (map (\<lambda>c. hex_encode (g_enc C c)) (fs_VK s)) = Inr pts" "list_all2 rep pts (?a # coeff)"
    using parsePoints_enc [OF assms(1) commitments_rep [OF assms(1) nn]] unfolding sh(1) by blast
  have X0: "0 \<le> fs_X s" using ok(4) by simp
  have v: "ShareVerifies C pts (fs_X s) (fs_Share s)"
    unfolding ShareVerifies_iff [OF assms(1) p(2) X0 ok(3)] unfolding sh(2) by (rule evalPolyL_mod)
  have l: "length (fs_GroupPub s) = 32" "length (fs_PubShare s) = 32"
    using ok length_exp [OF assms(1)] S(4,6) by simp_all
  have "fs_VK s \<noteq> []" by (simp add: sh(1) commitments_def)
  then show ?thesis using ok(3) lt l p(1) v
    by (simp add: sf_Signer_def shard_file_def Let_def same_signer_def)
qed

theorem share_file_loads_witness:
  "\<exists>ss gp s'. FrostSplit zprims zcurve [Some []] [] 3 2 = Inr (ss, gp) \<and> sf_Signer zcurve (shard_file zcurve (ss ! 0)) = Inr s'"
proof -
  obtain ss gp where ss: "FrostSplit zprims zcurve [Some []] [] 3 2 = Inr (ss, gp)" "length ss = 3"
    by (rule split_two_of_three)
  have "ss ! 0 \<in> set ss" using ss(2) by simp
  from share_file_loads [OF zcurve_ok ss(1) _ _ this] ss(1) show ?thesis by force
qed

lemma leToInt_append: "leToInt (b @ c) = leToInt b + 256 ^ length b * leToInt c"
  by (induction b) (simp_all add: leToInt_Cons algebra_simps)

text \<open>The clamped scalar of a seed is never below the group order.\<close>

lemma clamped_large: "sha_ok P \<Longrightarrow> fl \<le> ed25519Scalar P seed"
proof -
  assume "sha_ok P"
  then have l: "length (sha512 P seed) = 64" by (simp add: sha_ok_def)
  define h where "h = (sha512 P seed)[0 := sha512 P seed ! 0 AND 248]"
  define b where "b = h ! 31 AND 63 OR 64"
  have "take 32 (h[31 := b]) = take 31 h @ [b]"
  proof (rule nth_equalityI)
    fix i assume i: "i < length (take 32 (h[31 := b]))"
    then show "take 32 (h[31 := b]) ! i = (take 31 h @ [b]) ! i"
      using l by (cases "i = 31") (auto simp: h_def nth_append)
  qed (use l in \<open>simp add: h_def\<close>)
  then have e: "ed25519Scalar P seed = leToInt (take 31 h) + 256 ^ 31 * uint b"
    using l by (simp add: ed25519Scalar_def h_def b_def Let_def leToInt_append leToInt_Cons)
  have "64 \<le> uint b"
  proof -
    have "bit (uint b) 6" by (simp add: b_def bit_uint_iff bit_simps bit_numeral_rec(1))
    moreover have "\<not> bit (uint b) 6" if "uint b < 64"
    proof -
      have "take_bit 6 (uint b) = uint b" using that by (simp add: take_bit_int_eq_self)
      then show ?thesis using bit_take_bit_iff [of 6 "uint b" 6] by simp
    qed
    ultimately show ?thesis by linarith
  qed
  then have "256 ^ 31 * 64 \<le> 256 ^ 31 * uint b" by (rule mult_left_mono) simp
  then have "256 ^ 31 * 64 \<le> ed25519Scalar P seed" unfolding e using leToInt_nonneg [of "take 31 h"] by (rule add_increasing [rotated])
  then show ?thesis by (simp add: fl_def)
qed

text \<open>
  With threshold 1, which \<open>FrostSplit\<close> accepts, the share is the unreduced clamped scalar, which is
  at least L: none of the files written for such a group loads.
\<close>

theorem share_file_t1:
  assumes "sha_ok P" "FrostSplit P C rs seed n 1 = Inr (ss, gp)" "s \<in> set ss"
  shows "sf_Signer C (shard_file C s) = Inl BadShareValue"
proof -
  have "fs_Share s = ed25519Scalar P seed"
    using assms(2,3) by (auto simp: FrostSplit_def Let_def rand_coeffs_def evalPolyL_def split: if_splits)
  then show ?thesis using clamped_large [OF assms(1), of seed] by (simp add: sf_Signer_def shard_file_def)
qed

theorem share_file_t1_witness:
  "\<exists>ss gp. FrostSplit toy zcurve [] [] 3 1 = Inr (ss, gp) \<and> sf_Signer zcurve (shard_file zcurve (ss ! 2)) = Inl BadShareValue"
proof -
  obtain ss gp where ss: "FrostSplit toy zcurve [] [] 3 1 = Inr (ss, gp)"
    by (auto simp: FrostSplit_def Let_def rand_coeffs_def)
  then have "length ss = 3" by (auto simp: FrostSplit_def Let_def rand_coeffs_def)
  then have "ss ! 2 \<in> set ss" by simp
  from share_file_t1 [OF toy_ok(1) ss this] ss show ?thesis by blast
qed

end
