(* ===== verification/Council.thy ===== *)
theory Council
  imports TrustStateProps FrostThreshold
begin

text \<open>
  The recovery council of \<open>council.go\<close>: the threshold-signed epoch handoff, the choice of the canonical
  fork, and the recovery state machine (evidence, vote, rollback under a new root, handoff, re-issue,
  commit, verify).  Members hold pointers to their shares, so an operation returns the council as it is left,
  with the shares it has used up; a pointer into the members is an index.  A Go map keyed by share id is
  an association list in the order of its insertions.
\<close>

section \<open>The council\<close>

record 'g CouncilMember =
  cm_ID :: string
  cm_Key :: bytes
  cm_Share :: "'g FrostSigner option"

record 'g Council =
  co_members :: "'g CouncilMember list"
  co_epoch :: int
  co_group :: bytes

definition NewCouncil :: "'g CouncilMember list \<Rightarrow> 'g Council" where
  "NewCouncil ms = \<lparr>co_members = ms, co_epoch = 0,
     co_group = (case List.map_filter cm_Share ms of [] \<Rightarrow> [] | s # _ \<Rightarrow> fs_GroupPub s)\<rparr>"

text \<open>The members with a share, as indices.\<close>

definition shareHolders :: "'g Council \<Rightarrow> nat list" where
  "shareHolders c = filter (\<lambda>i. cm_Share (co_members c ! i) \<noteq> None) [0..<length (co_members c)]"

definition share_at :: "'g Council \<Rightarrow> nat \<Rightarrow> 'g FrostSigner" where
  "share_at c i = the (cm_Share (co_members c ! i))"

definition memberIDs :: "'g Council \<Rightarrow> string list" where
  "memberIDs c = map (\<lambda>i. fs_ID (share_at c i)) (shareHolders c)"

definition by_id :: "'g Council \<Rightarrow> string list \<Rightarrow> (string \<times> nat) list" where
  "by_id c ids = keyed (map (\<lambda>i. (fs_ID (share_at c i), i)) (filter (\<lambda>i. fs_ID (share_at c i) \<in> set ids) (shareHolders c)))"

definition put_share :: "nat \<times> 'g FrostSigner \<Rightarrow> 'g Council \<Rightarrow> 'g Council" where
  "put_share p c = (case p of (i, s) \<Rightarrow>
     c\<lparr>co_members := (co_members c)[i := (co_members c ! i)\<lparr>cm_Share := Some s\<rparr>]\<rparr>)"

definition put_shares :: "nat list \<Rightarrow> 'g FrostSigner list \<Rightarrow> 'g Council \<Rightarrow> 'g Council" where
  "put_shares is ss c = fold put_share (zip is ss) c"

section \<open>The handoff signature\<close>

text \<open>Both rounds over the selected shares, with the aggregator \<open>agg\<close>.\<close>

definition sign_rounds ::
  "prims \<Rightarrow> 'g curve \<Rightarrow> (bytes option \<times> bytes option) list \<Rightarrow> 'g FrostAggregator \<Rightarrow> (string \<times> int) list \<Rightarrow>
     'g FrostSigner list \<Rightarrow> bytes \<Rightarrow> (frost_error + bytes) \<times> 'g FrostSigner list" where
  "sign_rounds P C rs agg xs signers m = (case commit_all C rs signers of
     (Inl e, signers') \<Rightarrow> (Inl e, signers')
   | (Inr cs, signers') \<Rightarrow>
      ((case add_commits (keyed cs) agg of Inl e \<Rightarrow> Inl e
       | Inr agg1 \<Rightarrow> (case Challenge P C m agg1 of Inl e \<Rightarrow> Inl e
          | Inr ((r, c), agg2) \<Rightarrow>
            (case add_shares P C \<lparr>tr_M = m, tr_Commits = keyed cs, tr_Xs = xs, tr_R = r, tr_C = c\<rparr> signers' agg2 of
               Inl e \<Rightarrow> Inl e
             | Inr agg3 \<Rightarrow> Aggregate C agg3))), signers'))"

datatype commit_result = Committed FrostCommit | Refused | CommitPanic

definition SignCommit ::
  "prims \<Rightarrow> 'g curve \<Rightarrow> (bytes option \<times> bytes option) list \<Rightarrow> 'g Council \<Rightarrow> int \<Rightarrow> slice \<Rightarrow> int \<Rightarrow> slice \<Rightarrow> slice \<Rightarrow>
     int \<Rightarrow> string list \<Rightarrow> commit_result \<times> 'g Council" where
  "SignCommit P C rs c epoch checkpoint prev newPub payload mn ids =
     (if epoch \<noteq> wrap64 (prev + 1) then (Refused, c)
      else if int (length (shareHolders c)) < mn then (Refused, c)
      else let sel = by_id c ids;
               fc = \<lparr>fc_Epoch = epoch, fc_Checkpoint = checkpoint, fc_Prev = prev, fc_NewPub = newPub,
                     fc_Payload = payload, fc_Sig = None, fc_Members = []\<rparr> in
        if int (length sel) < mn then (Refused, c)
        else let pubs = map (\<lambda>(k, i). (k, fs_PubShare (share_at c i))) sel;
                 xs = map (\<lambda>(k, i). (k, memberX k)) sel;
                 agg = SetXs xs (NewFrostAggregator C (co_group c) pubs) in
          (case sign_rounds P C rs agg xs (map (\<lambda>(k, i). share_at c i) sel) (descriptor P fc) of
             (r, signers') \<Rightarrow>
               let c' = put_shares (map snd sel) signers' c in
               (case r of
                  Inl e \<Rightarrow> (if e = Panicked then CommitPanic else Refused, c')
                | Inr sg \<Rightarrow>
                    let fc' = fc\<lparr>fc_Sig := Some sg, fc_Members := map fst sel\<rparr> in
                    if \<not> fc_Valid P fc' (co_group c) mn then (Refused, c')
                    else (Committed fc', c'\<lparr>co_epoch := epoch\<rparr>))))"

section \<open>The canonical fork\<close>

text \<open>The loop over one chain: the last epoch, or None where the chain is rejected.\<close>

fun epoch_loop :: "prims \<Rightarrow> bytes \<Rightarrow> int \<Rightarrow> int \<Rightarrow> FrostCommit list \<Rightarrow> int option" where
  "epoch_loop P groupPub mn prev [] = Some prev"
| "epoch_loop P groupPub mn prev (fc # fcs) =
     (if fc_Epoch fc \<noteq> wrap64 (prev + 1) then None
      else if \<not> fc_Valid P fc groupPub mn then None
      else epoch_loop P groupPub mn (fc_Epoch fc) fcs)"

definition pick_chain ::
  "prims \<Rightarrow> bytes \<Rightarrow> int \<Rightarrow> FrostCommit list \<Rightarrow> FrostCommit list option \<times> int \<Rightarrow> FrostCommit list option \<times> int" where
  "pick_chain P groupPub mn chain b = (case epoch_loop P groupPub mn 0 chain of
     None \<Rightarrow> b
   | Some prev \<Rightarrow> if chain \<noteq> [] \<and> snd b < prev then (Some chain, prev) else b)"

definition HighestValidEpoch :: "prims \<Rightarrow> FrostCommit list list \<Rightarrow> bytes \<Rightarrow> int \<Rightarrow> FrostCommit list option" where
  "HighestValidEpoch P forks groupPub mn = fst (fold (pick_chain P groupPub mn) forks (None, - 1))"

section \<open>Recovery\<close>

datatype recover_error =
    NotDetected | MalformedEvidence | PrefixFailed | BlockedQuorum | SeedFailed | CAFailed
  | RecoverTimeline tl_error | CommitFailed | CrossCheck | RecoverPanic

definition evidence_fields :: "int field list" where
  "evidence_fields = [int_field ''bad_index'' (\<lambda>x _. x)]"

definition evidenceBadIndex :: "prims \<Rightarrow> TrustEvent option \<Rightarrow> recover_error + int" where
  "evidenceBadIndex P ev = (case ev of
     None \<Rightarrow> Inl NotDetected
   | Some e \<Rightarrow>
      if ev_Type e \<noteq> EvDetected then Inl NotDetected
      else (case unmarshal P evidence_fields 0 (slice_bytes (ev_Payload e)) of
          None \<Rightarrow> Inl MalformedEvidence
        | Some i \<Rightarrow> if i < 0 then Inl MalformedEvidence else Inr i))"

definition fmt_int :: "int \<Rightarrow> string" where
  "fmt_int n = (if n < 0 then ''-'' @ digits (nat (- n)) else digits (nat n))"

text \<open>A panic of a callee is a panic of the recovery.\<close>

definition timeline_error :: "tl_error \<Rightarrow> recover_error" where
  "timeline_error e = (if e = KeyPanic then RecoverPanic else RecoverTimeline e)"

definition rollback_error :: "rb_error \<Rightarrow> recover_error" where
  "rollback_error e = (case e of IndexPanic \<Rightarrow> RecoverPanic | Timeline_error te \<Rightarrow> timeline_error te)"

record rollback_result =
  rb_fork :: Timeline
  rb_affected :: "string list"
  rb_identities :: "string list"
  rb_cert :: slice
  rb_pub :: bytes

text \<open>\<open>ca\<close> is \<open>NewIdentityCA\<close> (crypto/x509): a certificate for a key and a common name, or an error.\<close>

definition recoverRollback ::
  "prims \<Rightarrow> (bytes \<Rightarrow> string \<Rightarrow> bytes option) \<Rightarrow> Timeline \<Rightarrow> int \<Rightarrow> bytes \<Rightarrow> int \<Rightarrow> recover_error + rollback_result" where
  "recoverRollback P ca tml badIdx seed epoch =
     (let newRoot = ed_newkey P seed in
      (case ca newRoot (''to root epoch '' @ fmt_int (wrap64 (epoch + 1))) of
         None \<Rightarrow> Inl CAFailed
       | Some cert \<Rightarrow>
          (case Rollback P tml badIdx of
             Inl e \<Rightarrow> Inl (rollback_error e)
           | Inr fork \<Rightarrow>
              let fork' = fork\<lparr>tl_key := Some newRoot, tl_pub := ed_public newRoot, tl_council := tl_council tml\<rparr> in
              (case InvalidationSet P tml badIdx of
                 None \<Rightarrow> Inl RecoverPanic
               | Some (affected, identities) \<Rightarrow>
                   Inr \<lparr>rb_fork = fork', rb_affected = affected, rb_identities = identities, rb_cert = Some cert,
                     rb_pub = ed_public newRoot\<rparr>))))"

definition reissue_id :: "int \<Rightarrow> string \<Rightarrow> string" where
  "reissue_id epoch ident = ident @ ''-re'' @ fmt_int (wrap64 (epoch + 1))"

text \<open>The two loops of \<open>reissueOnFork\<close>; an error of \<open>Append\<close> is skipped, a panic is not.\<close>

fun issue_loop :: "prims \<Rightarrow> int \<Rightarrow> string list \<Rightarrow> Timeline \<Rightarrow> tl_error + (string list \<times> Timeline)" where
  "issue_loop P epoch [] t = Inr ([], t)"
| "issue_loop P epoch (i # is) t =
     (case tl_append P t EvIssue (Some (json_text P (ip_json \<lparr>ip_CertID = reissue_id epoch i, ip_Identity = i, ip_Via = []\<rparr>))) 0 of
        Inl e \<Rightarrow> if e = KeyPanic then Inl e else issue_loop P epoch is t
      | Inr (h, t') \<Rightarrow> map_sum id (apfst ((#) (reissue_id epoch i))) (issue_loop P epoch is t'))"

fun revoke_loop :: "prims \<Rightarrow> string list \<Rightarrow> Timeline \<Rightarrow> tl_error + Timeline" where
  "revoke_loop P [] t = Inr t"
| "revoke_loop P (c # cs) t =
     (case tl_append P t EvRevoke (Some (json_text P (revoke_json c))) 0 of
        Inl e \<Rightarrow> if e = KeyPanic then Inl e else revoke_loop P cs t
      | Inr (h, t') \<Rightarrow> revoke_loop P cs t')"

definition reissueOnFork ::
  "prims \<Rightarrow> Timeline \<Rightarrow> string list \<Rightarrow> string list \<Rightarrow> int \<Rightarrow> tl_error + (string list \<times> Timeline)" where
  "reissueOnFork P fork affected identities epoch = (case issue_loop P epoch identities fork of
     Inl e \<Rightarrow> Inl e
   | Inr (issued, t) \<Rightarrow> map_sum id (Pair issued) (revoke_loop P affected t))"

text \<open>Indexing the events out of range is a Go panic (the outer None); \<open>Hash\<close> is SHA-256.\<close>

definition rollbackCheckpoint :: "prims \<Rightarrow> Timeline \<Rightarrow> int \<Rightarrow> slice option" where
  "rollbackCheckpoint P tml badIdx =
     (if badIdx \<le> 0 then Some None
      else if int (length (tl_events tml)) < badIdx then None
      else Some (Some (ev_Hash P (tl_events tml ! nat (badIdx - 1)))))"

text \<open>A failing rollback makes \<open>prefixForCheck\<close> call \<open>NewTimeline(nil)\<close>, which panics.\<close>

definition prefixForCheck :: "prims \<Rightarrow> Timeline \<Rightarrow> int \<Rightarrow> Timeline option" where
  "prefixForCheck P tml badIdx = (case Rollback P tml badIdx of
     Inr pre \<Rightarrow> Some pre
   | Inl _ \<Rightarrow> (case NewTimeline None of Inr t \<Rightarrow> Some t | Inl _ \<Rightarrow> None))"

record RecoveryReport =
  rr_Commit :: FrostCommit
  rr_Timeline :: Timeline
  rr_Issued :: "string list"
  rr_Verify :: VerifyReport
  rr_RootSeed :: bytes

definition commit_json :: "prims \<Rightarrow> FrostCommit \<Rightarrow> json" where
  "commit_json P fc = JObj [(''checkpoint'', slice_json P (fc_Checkpoint fc)), (''epoch'', JInt (fc_Epoch fc)),
     (''new_pub'', slice_json P (fc_NewPub fc))]"

text \<open>What follows the threshold signature: the handoff event, re-issuance, the checks, the commit event.\<close>

definition recovery_tail ::
  "prims \<Rightarrow> Timeline \<Rightarrow> int \<Rightarrow> rollback_result \<Rightarrow> int \<Rightarrow> FrostCommit \<Rightarrow> bytes \<Rightarrow> recover_error + RecoveryReport" where
  "recovery_tail P tml badIdx rb prevEpoch fc seed =
     (case tl_append P (rb_fork rb) EvRecovery (Some (json_text P (fc_json P fc))) 0 of
        Inl e \<Rightarrow> Inl (timeline_error e)
      | Inr (h1, t1) \<Rightarrow>
         (case reissueOnFork P t1 (rb_affected rb) (rb_identities rb) prevEpoch of
            Inl e \<Rightarrow> Inl (timeline_error e)
          | Inr (issued, t2) \<Rightarrow>
             (case prefixForCheck P tml badIdx of
                None \<Rightarrow> Inl RecoverPanic
              | Some pre \<Rightarrow>
                 let preState = Fold P pre;
                     r1 = VerifyRecovery preState (Fold P t2) (rb_affected rb) (rb_identities rb);
                     r2 = VerifyRecovery preState (Fold P t2) (rb_affected rb) (rb_identities rb) in
                 if Pass (Some r1) \<noteq> Pass (Some r2) then Inl CrossCheck
                 else (case tl_append P t2 EvCommit (Some (json_text P (commit_json P fc))) 0 of
                    Inl e \<Rightarrow> Inl (timeline_error e)
                  | Inr (h3, t3) \<Rightarrow> Inr \<lparr>rr_Commit = fc, rr_Timeline = t3, rr_Issued = issued, rr_Verify = r1,
                      rr_RootSeed = seed\<rparr>))))"

text \<open>The randomness is the seed (None where the source fails) and the nonces of the signers.\<close>

definition finishRecovery ::
  "prims \<Rightarrow> 'g curve \<Rightarrow> (bytes \<Rightarrow> string \<Rightarrow> bytes option) \<Rightarrow> bytes option \<Rightarrow> (bytes option \<times> bytes option) list \<Rightarrow>
     'g Council \<Rightarrow> Timeline \<Rightarrow> int \<Rightarrow> int \<Rightarrow> string list \<Rightarrow> (recover_error + RecoveryReport) \<times> 'g Council" where
  "finishRecovery P C ca seed rs c tml badIdx minVotes ids = (case seed of
     None \<Rightarrow> (Inl SeedFailed, c)
   | Some sd \<Rightarrow>
      (case recoverRollback P ca tml badIdx sd (co_epoch c) of
         Inl e \<Rightarrow> (Inl e, c)
       | Inr rb \<Rightarrow>
          (case rollbackCheckpoint P tml badIdx of
             None \<Rightarrow> (Inl RecoverPanic, c)
           | Some checkpoint \<Rightarrow>
              (case SignCommit P C rs c (wrap64 (co_epoch c + 1)) checkpoint (co_epoch c) (Some (rb_pub rb)) (rb_cert rb) minVotes ids of
                 (Refused, c') \<Rightarrow> (Inl CommitFailed, c')
               | (CommitPanic, c') \<Rightarrow> (Inl RecoverPanic, c')
               | (Committed fc, c') \<Rightarrow> (recovery_tail P tml badIdx rb (co_epoch c) fc sd, c')))))"

definition Recover ::
  "prims \<Rightarrow> 'g curve \<Rightarrow> (bytes \<Rightarrow> string \<Rightarrow> bytes option) \<Rightarrow> bytes option \<Rightarrow> (bytes option \<times> bytes option) list \<Rightarrow>
     'g Council \<Rightarrow> Timeline \<Rightarrow> TrustEvent option \<Rightarrow> int \<Rightarrow> (recover_error + RecoveryReport) \<times> 'g Council" where
  "Recover P C ca seed rs c tml evidence minVotes = (case evidenceBadIndex P evidence of
     Inl e \<Rightarrow> (Inl e, c)
   | Inr badIdx \<Rightarrow>
      if \<not> VerifyPrefix P tml badIdx then (Inl PrefixFailed, c)
      else if int (length (shareHolders c)) < minVotes then (Inl BlockedQuorum, c)
      else finishRecovery P C ca seed rs c tml badIdx minVotes (memberIDs c))"

end
