(* ===== verification/CouncilProps.thy ===== *)
theory CouncilProps
  imports Council
begin

text \<open>
  What the council promises: enough fresh shares produce a handoff that every verifier accepts, the canonical
  fork is the longest valid chain, and a recovery ends in a chain that verifies under the old start key, signs
  with the new root, keeps every revocation and revokes the blast radius.
\<close>

section \<open>The threshold signature of a handoff\<close>

definition picked :: "'g Council \<Rightarrow> string list \<Rightarrow> nat list" where
  "picked c ids = filter (\<lambda>i. fs_ID (share_at c i) \<in> set ids) (shareHolders c)"

definition shares :: "'g Council \<Rightarrow> 'g FrostSigner list" where
  "shares c = map (share_at c) (shareHolders c)"

text \<open>A council in order: its shares belong to one group, and their ids name their indices.\<close>

definition council_ok :: "'g curve \<Rightarrow> bytes \<Rightarrow> 'g Council \<Rightarrow> bool" where
  "council_ok C gp c \<longleftrightarrow> signers_ok C gp (shares c) \<and> co_group c = gp \<and> (\<forall>s \<in> set (shares c). memberX (fs_ID s) = fs_X s)"

lemma distinct_picked: "distinct (picked c ids)" "set (picked c ids) \<subseteq> {..<length (co_members c)}" "set (picked c ids) \<subseteq> set (shareHolders c)"
  by (auto simp: picked_def shareHolders_def)

lemma picked_all: "picked c (memberIDs c) = shareHolders c"
  by (simp add: picked_def memberIDs_def)

lemma picked_ok:
  assumes "council_ok C gp c"
  shows "signers_ok C gp (map (share_at c) (picked c ids))" "distinct (map (\<lambda>i. fs_ID (share_at c i)) (picked c ids))"
    "\<forall>s \<in> set (map (share_at c) (picked c ids)). memberX (fs_ID s) = fs_X s"
proof -
  have ok: "signers_ok C gp (shares c)" using assms by (simp add: council_ok_def)
  then have "distinct (map (\<lambda>i. fs_ID (share_at c i)) (shareHolders c))" by (simp add: signers_ok_def shares_def comp_def)
  then have "inj_on (\<lambda>i. fs_ID (share_at c i)) (set (shareHolders c))" by (simp add: distinct_map)
  then have inj: "inj_on (\<lambda>i. fs_ID (share_at c i)) (set (picked c ids))" using distinct_picked(3) by (rule inj_on_subset)
  then show d: "distinct (map (\<lambda>i. fs_ID (share_at c i)) (picked c ids))" using distinct_picked(1) by (simp add: distinct_map)
  then have "distinct (map fs_ID (map (share_at c) (picked c ids)))" by (simp add: comp_def)
  then have "distinct (map (share_at c) (picked c ids))" by (simp only: distinct_map [of fs_ID])
  then show "signers_ok C gp (map (share_at c) (picked c ids))"
    using distinct_picked(3) [of c ids] by (intro signers_ok_subset [OF ok]) (auto simp: shares_def)
  show "\<forall>s \<in> set (map (share_at c) (picked c ids)). memberX (fs_ID s) = fs_X s"
    using assms distinct_picked(3) [of c ids] by (auto simp: council_ok_def shares_def)
qed

lemma by_id_ok: "council_ok C gp c \<Longrightarrow> by_id c ids = map (\<lambda>i. (fs_ID (share_at c i), i)) (picked c ids)"
  using picked_ok(2) [of C gp c ids] by (simp add: by_id_def picked_def [symmetric] keyed_distinct comp_def)

lemma sign_rounds_FrostRound:
  assumes "2 \<le> length ss" "round_maps ss = (pubs, xs)"
  shows "sign_rounds P C rs (SetXs xs (NewFrostAggregator C gp pubs)) xs ss m = FrostRound P C rs gp ss m"
  using assms unfolding sign_rounds_def FrostRound_def Let_def by (simp cong: sum.case_cong split: prod.splits)

lemma put_shares_ok:
  assumes "distinct is" "length ss = length is" "set is \<subseteq> {..<length (co_members c)}"
  shows "co_group (put_shares is ss c) = co_group c \<and> co_epoch (put_shares is ss c) = co_epoch c
    \<and> length (co_members (put_shares is ss c)) = length (co_members c)
    \<and> (\<forall>k < length is. share_at (put_shares is ss c) (is ! k) = ss ! k)
    \<and> (\<forall>i. i \<notin> set is \<longrightarrow> co_members (put_shares is ss c) ! i = co_members c ! i)"
  using assms
proof (induction "is" arbitrary: ss c)
  case (Cons i "is")
  then obtain s ss' where ss: "ss = s # ss'" "length ss' = length is" by (cases ss) auto
  let ?c = "put_share (i, s) c"
  have c: "length (co_members ?c) = length (co_members c)" "co_group ?c = co_group c" "co_epoch ?c = co_epoch c"
    "share_at ?c i = s" "\<forall>j. j \<noteq> i \<longrightarrow> co_members ?c ! j = co_members c ! j"
    using Cons.prems(3) by (auto simp: put_share_def share_at_def)
  have p: "put_shares (i # is) ss c = put_shares is ss' ?c" by (simp add: put_shares_def ss)
  have IH: "co_group (put_shares is ss' ?c) = co_group ?c \<and> co_epoch (put_shares is ss' ?c) = co_epoch ?c
    \<and> length (co_members (put_shares is ss' ?c)) = length (co_members ?c)
    \<and> (\<forall>k < length is. share_at (put_shares is ss' ?c) (is ! k) = ss' ! k)
    \<and> (\<forall>j. j \<notin> set is \<longrightarrow> co_members (put_shares is ss' ?c) ! j = co_members ?c ! j)"
    using Cons.prems ss(2) c(1) by (intro Cons.IH) auto
  have "share_at (put_shares is ss' ?c) i = s" using IH c(4) Cons.prems(1) by (simp add: share_at_def)
  then show ?case using IH c ss(1) unfolding p by (auto simp: nth_Cons split: nat.splits)
qed (simp add: put_shares_def)

lemma SignCommit_ok:
  fixes c :: "'g Council" and ids :: "string list"
  assumes "curve_ok C rep" "ed_verify_eq P C rep" "council_ok C gp c" "epoch = wrap64 (prev + 1)"
  defines "qs \<equiv> map (share_at c) (picked c ids)"
  assumes "2 \<le> length qs" "mn \<le> int (length qs)" "\<forall>s \<in> set qs. \<not> fs_used s" "nonces_ok rs (length qs)"
    and "gp = g_enc C (g_exp C a)" "0 \<le> a" "share_sum qs mod fl = a mod fl" "length newPub = 32"
  obtains sg c' where "SignCommit P C rs c epoch cp prev (Some newPub) payload mn ids =
      (Committed \<lparr>fc_Epoch = epoch, fc_Checkpoint = cp, fc_Prev = prev, fc_NewPub = Some newPub, fc_Payload = payload,
         fc_Sig = Some sg, fc_Members = map fs_ID qs\<rparr>, c')"
    "\<And>k. k \<le> mn \<Longrightarrow> fc_Valid P \<lparr>fc_Epoch = epoch, fc_Checkpoint = cp, fc_Prev = prev, fc_NewPub = Some newPub, fc_Payload = payload,
         fc_Sig = Some sg, fc_Members = map fs_ID qs\<rparr> gp k"
    "co_epoch c' = epoch" "co_group c' = gp" "\<forall>i \<in> set (picked c ids). fs_used (share_at c' i)"
proof -
  let ?fc = "\<lparr>fc_Epoch = epoch, fc_Checkpoint = cp, fc_Prev = prev, fc_NewPub = Some newPub, fc_Payload = payload,
     fc_Sig = None, fc_Members = []\<rparr>"
  note ok = picked_ok [OF assms(3), of ids, folded qs_def]
  obtain sg qs' where r: "FrostRound P C rs gp qs (descriptor P ?fc) = (Inr sg, qs')" "ed_verify P gp (descriptor P ?fc) sg"
    "\<forall>s \<in> set qs'. fs_used s"
    using round_accepts [OF assms(1,2) ok(1) assms(6,8,9,10,11,12)] by blast
  have l: "length qs' = length qs"
  proof -
    obtain ss' where "snd (FrostRound P C rs gp qs (descriptor P ?fc)) = ss'" "list_all2 same_signer qs ss'"
      using FrostRound_result [OF assms(1) ok(1) assms(6,8,9), where P = P and m = "descriptor P ?fc"] by (metis snd_conv)
    then show ?thesis using r(1) by (simp add: list_all2_lengthD)
  qed
  have sel: "by_id c ids = map (\<lambda>i. (fs_ID (share_at c i), i)) (picked c ids)" by (rule by_id_ok [OF assms(3)])
  have d: "distinct (map fs_ID qs)" using ok(2) by (simp add: qs_def comp_def)
  have maps: "round_maps qs = (map (\<lambda>(k, i). (k, fs_PubShare (share_at c i))) (by_id c ids), map (\<lambda>(k, i). (k, memberX k)) (by_id c ids))"
    unfolding round_maps_ok [OF d] sel using ok(3) by (simp add: qs_def ids_xs_def comp_def)
  have lens: "length (picked c ids) = length qs" "length (picked c ids) \<le> length (shareHolders c)"
    by (simp_all add: qs_def picked_def)
  have g: "co_group c = gp" using assms(3) by (simp add: council_ok_def)
  have desc: "descriptor P (?fc\<lparr>fc_Sig := s, fc_Members := ms\<rparr>) = descriptor P ?fc" for s ms
    by (simp add: descriptor_def fc_signed_members_def)
  have valid: "fc_Valid P (?fc\<lparr>fc_Sig := Some sg, fc_Members := map fs_ID qs\<rparr>) gp k" if "k \<le> mn" for k
    using r(2) assms(7,13) that unfolding fc_Valid_def desc by simp
  have ids: "map fst (by_id c ids) = map fs_ID qs" "map (\<lambda>(k, i). share_at c i) (by_id c ids) = qs" "map snd (by_id c ids) = picked c ids"
    by (simp_all add: sel qs_def comp_def)
  let ?c = "put_shares (picked c ids) qs' c"
  have sr: "sign_rounds P C rs (SetXs (map (\<lambda>(k, i). (k, memberX k)) (by_id c ids))
      (NewFrostAggregator C (co_group c) (map (\<lambda>(k, i). (k, fs_PubShare (share_at c i))) (by_id c ids))))
      (map (\<lambda>(k, i). (k, memberX k)) (by_id c ids)) (map (\<lambda>(k, i). share_at c i) (by_id c ids)) (descriptor P ?fc) = (Inr sg, qs')"
    unfolding ids g sign_rounds_FrostRound [OF assms(6) maps] r(1) by (rule refl)
  have n1: "\<not> int (length (shareHolders c)) < mn" using assms(7) lens by linarith
  have n2: "\<not> int (length (by_id c ids)) < mn" using assms(7) lens(1) by (simp add: sel)
  have "SignCommit P C rs c epoch cp prev (Some newPub) payload mn ids =
      (Committed (?fc\<lparr>fc_Sig := Some sg, fc_Members := map fs_ID qs\<rparr>), ?c\<lparr>co_epoch := epoch\<rparr>)"
    unfolding SignCommit_def Let_def sr using assms(4) n1 n2 valid [OF order_refl]
    by (simp add: ids g del: fc_Valid_def)
  moreover have put: "co_group ?c = gp" "\<forall>k < length (picked c ids). share_at ?c (picked c ids ! k) = qs' ! k"
    using put_shares_ok [OF distinct_picked(1) [of c ids] _ distinct_picked(2), of qs'] l lens(1) g by simp_all
  have "\<forall>i \<in> set (picked c ids). fs_used (share_at ?c i)"
  proof
    fix i assume "i \<in> set (picked c ids)"
    then obtain k where k: "k < length (picked c ids)" "i = picked c ids ! k" by (auto simp: in_set_conv_nth)
    then have "share_at ?c i = qs' ! k" "qs' ! k \<in> set qs'" using put(2) l lens(1) by auto
    then show "fs_used (share_at ?c i)" using r(3) by simp
  qed
  ultimately show ?thesis using valid put(1)
    by (intro that [of sg "?c\<lparr>co_epoch := epoch\<rparr>"]) (simp_all add: share_at_def)
qed

section \<open>The canonical fork\<close>

definition valid_chain :: "prims \<Rightarrow> bytes \<Rightarrow> int \<Rightarrow> FrostCommit list \<Rightarrow> bool" where
  "valid_chain P gp mn ch \<longleftrightarrow> ch \<noteq> [] \<and> (\<forall>k < length ch. fc_Epoch (ch ! k) = int k + 1 \<and> fc_Valid P (ch ! k) gp mn)"

lemma epoch_loop_spec:
  assumes "0 \<le> p" "p + int (length ch) < 2 ^ 63"
  shows "epoch_loop P gp mn p ch = Some n \<longleftrightarrow>
    n = p + int (length ch) \<and> (\<forall>k < length ch. fc_Epoch (ch ! k) = p + int k + 1 \<and> fc_Valid P (ch ! k) gp mn)"
  using assms
proof (induction ch arbitrary: p)
  case (Cons fc ch)
  have w: "wrap64 (p + 1) = p + 1" using Cons.prems by (intro wrap64_id) (simp add: int64_def)
  have IH: "epoch_loop P gp mn (p + 1) ch = Some n \<longleftrightarrow>
    n = p + 1 + int (length ch) \<and> (\<forall>k < length ch. fc_Epoch (ch ! k) = p + 1 + int k + 1 \<and> fc_Valid P (ch ! k) gp mn)"
    using Cons.prems by (intro Cons.IH) simp_all
  have all: "(\<forall>k < length (fc # ch). Q k ((fc # ch) ! k)) \<longleftrightarrow> Q 0 fc \<and> (\<forall>k < length ch. Q (Suc k) (ch ! k))" for Q
    by (auto simp: All_less_Suc2 simp del: not_less)
  have e: "epoch_loop P gp mn p (fc # ch) = (if fc_Epoch fc = p + 1 \<and> fc_Valid P fc gp mn then epoch_loop P gp mn (p + 1) ch else None)"
    by (simp add: w)
  show ?case unfolding all [of "\<lambda>k c. fc_Epoch c = p + int k + 1 \<and> fc_Valid P c gp mn"] e
    using IH by (auto simp: algebra_simps)
qed auto

lemma epoch_loop_valid:
  assumes "int (length ch) < 2 ^ 63"
  shows "epoch_loop P gp mn 0 ch = (if ch = [] then Some 0 else if valid_chain P gp mn ch then Some (int (length ch)) else None)"
proof (cases "epoch_loop P gp mn 0 ch")
  case None
  then show ?thesis using epoch_loop_spec [of 0 ch P gp mn "int (length ch)"] assms by (auto simp: valid_chain_def)
next
  case (Some n)
  then show ?thesis using epoch_loop_spec [of 0 ch P gp mn n] assms by (auto simp: valid_chain_def)
qed

lemma pick_chain_spec:
  assumes "\<forall>ch \<in> set forks. int (length ch) < 2 ^ 63" "snd b = (case fst b of None \<Rightarrow> - 1 | Some c \<Rightarrow> int (length c))"
    and "fst b \<noteq> Some []"
  shows "case fst (fold (pick_chain P gp mn) forks b) of
      None \<Rightarrow> fst b = None \<and> (\<forall>d \<in> set forks. \<not> valid_chain P gp mn d)
    | Some c \<Rightarrow> (fst b = Some c \<or> c \<in> set forks \<and> valid_chain P gp mn c)
        \<and> (\<forall>d \<in> set forks. valid_chain P gp mn d \<longrightarrow> length d \<le> length c) \<and> (\<forall>d. fst b = Some d \<longrightarrow> length d \<le> length c)"
  using assms
proof (induction forks arbitrary: b)
  case (Cons ch forks)
  let ?b = "pick_chain P gp mn ch b"
  have v: "valid_chain P gp mn ch \<Longrightarrow> ch \<noteq> []" by (simp add: valid_chain_def)
  have b: "?b = (if valid_chain P gp mn ch \<and> snd b < int (length ch) then (Some ch, int (length ch)) else b)"
    using Cons.prems(1) v by (auto simp: pick_chain_def epoch_loop_valid)
  have inv: "snd ?b = (case fst ?b of None \<Rightarrow> - 1 | Some c \<Rightarrow> int (length c))" "fst ?b \<noteq> Some []"
    using Cons.prems(2,3) v by (auto simp: b)
  show ?case
  proof (cases "fst (fold (pick_chain P gp mn) forks ?b)")
    case None
    with Cons.IH [OF _ inv] Cons.prems(1) have "fst ?b = None" "\<forall>d \<in> set forks. \<not> valid_chain P gp mn d" by auto
    with None show ?thesis using Cons.prems(2) by (auto simp: b split: if_splits)
  next
    case (Some c)
    with Cons.IH [OF _ inv] Cons.prems(1)
    have c: "fst ?b = Some c \<or> c \<in> set forks \<and> valid_chain P gp mn c"
      "\<forall>d \<in> set forks. valid_chain P gp mn d \<longrightarrow> length d \<le> length c" "\<forall>d. fst ?b = Some d \<longrightarrow> length d \<le> length c" by auto
    have "valid_chain P gp mn ch \<longrightarrow> length ch \<le> length c"
      using c(3) Cons.prems(2) by (auto simp: b split: if_splits option.splits)
    moreover have "\<forall>d. fst b = Some d \<longrightarrow> length d \<le> length c"
      using c(3) Cons.prems(2) by (fastforce simp: b split: if_splits)
    ultimately show ?thesis using Some c(1,2) by (auto simp: b split: if_splits)
  qed
qed (auto split: option.splits)

text \<open>
  The canonical fork is a longest chain among the offered chains whose handoffs are all valid and whose
  epochs count 1, 2, 3, ...; there is none exactly when no offered chain is of that kind.
\<close>

theorem highest_epoch:
  assumes "\<forall>ch \<in> set forks. int (length ch) < 2 ^ 63"
  shows "case HighestValidEpoch P forks gp mn of
      None \<Rightarrow> \<forall>d \<in> set forks. \<not> valid_chain P gp mn d
    | Some c \<Rightarrow> c \<in> set forks \<and> valid_chain P gp mn c \<and> (\<forall>d \<in> set forks. valid_chain P gp mn d \<longrightarrow> length d \<le> length c)"
  using pick_chain_spec [OF assms, of "(None, - 1)" P gp mn] unfolding HighestValidEpoch_def
  by (auto split: option.splits)

definition demo_handoff :: "int \<Rightarrow> FrostCommit" where
  "demo_handoff n = (let fc = \<lparr>fc_Epoch = n, fc_Checkpoint = None, fc_Prev = n - 1, fc_NewPub = Some (replicate 32 0),
      fc_Payload = None, fc_Sig = None, fc_Members = [''M1'', ''M2'']\<rparr>
    in fc\<lparr>fc_Sig := Some (pad 64 (replicate 32 1 @ descriptor toy fc))\<rparr>)"

lemma demo_handoff_valid: "fc_Valid toy (demo_handoff n) (replicate 32 1) 2" "fc_Epoch (demo_handoff n) = n"
  by (simp_all add: demo_handoff_def fc_Valid_def Let_def descriptor_def fc_signed_members_def toy_sel)

theorem highest_epoch_witness:
  "HighestValidEpoch toy [[demo_handoff 1], [demo_handoff 1, demo_handoff 2], [demo_handoff 2]] (replicate 32 1) 2
     = Some [demo_handoff 1, demo_handoff 2]"
proof -
  let ?forks = "[[demo_handoff 1], [demo_handoff 1, demo_handoff 2], [demo_handoff 2]]" and ?gp = "replicate 32 1"
  have v: "valid_chain toy ?gp 2 [demo_handoff 1, demo_handoff 2]"
    using demo_handoff_valid by (auto simp: valid_chain_def less_Suc_eq)
  from highest_epoch [of ?forks toy ?gp 2] v show ?thesis by (auto split: option.splits)
qed

section \<open>The recovered chain\<close>

text \<open>The two changes of the trust state a recovery makes.\<close>

definition st_issue :: "string \<Rightarrow> string \<Rightarrow> State \<Rightarrow> State" where
  "st_issue c i s = (case map_of s c of
     Some d \<Rightarrow> if Revoked d then s else AList.update c \<lparr>Identity = i, Revoked = False\<rparr> s
   | None \<Rightarrow> AList.update c \<lparr>Identity = i, Revoked = False\<rparr> s)"

definition st_revoke :: "string \<Rightarrow> State \<Rightarrow> State" where
  "st_revoke c s = (case map_of s c of None \<Rightarrow> s | Some d \<Rightarrow> AList.update c (d\<lparr>Revoked := True\<rparr>) s)"

lemma ascii_payload: "ascii ''cert_id''" "ascii ''identity''" "ascii ''bad_index''" "ascii ''via''"
  by (simp_all add: ascii_def)

lemma issue_of_event:
  assumes "json_ok P" "ev_Type e = EvIssue" "ev_Payload e = Some (json_text P (ip_json \<lparr>ip_CertID = c, ip_Identity = i, ip_Via = []\<rparr>))"
    and "ascii c" "ascii i"
  shows "fold_event P e s = st_issue c i s"
proof -
  have "plain (ip_json \<lparr>ip_CertID = c, ip_Identity = i, ip_Via = []\<rparr>)"
    using assms(4,5) by (simp add: ip_json_def omit_string_def ascii_payload)
  then have "issue_of P e = Some \<lparr>ip_CertID = c, ip_Identity = i, ip_Via = []\<rparr>"
    using assms(1-3) by (simp add: issue_of_def unmarshal_text decode_eval ip_json_def omit_string_def ip_fields_def ip_zero_def)
  then show ?thesis using assms(2) by (simp add: fold_event_def st_issue_def split: option.splits)
qed

lemma revoke_of_event:
  assumes "json_ok P" "ev_Type e = EvRevoke" "ev_Payload e = Some (json_text P (revoke_json c))" "ascii c"
  shows "fold_event P e s = st_revoke c s"
proof -
  have "plain (revoke_json c)" using assms(4) by (simp add: revoke_json_def ascii_payload)
  then have "revoke_of P e = Some c"
    using assms(1-3) by (simp add: revoke_of_def unmarshal_text decode_eval revoke_json_def revoke_fields_def)
  then show ?thesis using assms(2) by (simp add: fold_event_def st_revoke_def)
qed

lemma ascii_digits: "ascii (digits n)"
proof (induction n rule: digits.induct)
  case (1 n)
  then show ?case by (subst digits.simps) (auto simp: ascii_def)
qed

lemma ascii_reissue: "ascii i \<Longrightarrow> ascii (reissue_id ep i)"
  using ascii_digits by (auto simp: reissue_id_def fmt_int_def ascii_def)

definition extends :: "Timeline \<Rightarrow> Timeline \<Rightarrow> bool" where
  "extends t t' \<longleftrightarrow> (\<exists>es. t' = t\<lparr>tl_events := tl_events t @ es\<rparr>)"

lemma extends_refl [simp]: "extends t t"
  unfolding extends_def by (intro exI [of _ "[]"]) simp

lemma extends_trans: "extends t u \<Longrightarrow> extends u v \<Longrightarrow> extends t v"
  by (auto simp: extends_def)

definition has_key :: "prims \<Rightarrow> Timeline \<Rightarrow> bool" where
  "has_key P t \<longleftrightarrow> (\<exists>k. tl_key t = Some k \<and> ed_keypair P k)"

text \<open>An extension by the holder of the key: it goes through, and a chain that verified still does.\<close>

definition grown :: "prims \<Rightarrow> Timeline \<Rightarrow> Timeline \<Rightarrow> bool" where
  "grown P t t' \<longleftrightarrow> extends t t' \<and> has_key P t' \<and> (tl_live P t \<longrightarrow> tl_live P t')"

lemma grown_trans: "grown P t u \<Longrightarrow> grown P u v \<Longrightarrow> grown P t v"
  by (auto simp: grown_def intro: extends_trans)

lemma append_live:
  assumes "json_ok P" "has_key P t" "ty \<noteq> EvRecovery" "ty \<noteq> EvKeyRotate"
  obtains h t' e where "tl_append P t ty pl ts = Inr (h, t')" "grown P t t'"
    "Fold P t' = fold_event P e (Fold P t)" "ev_Type e = ty" "ev_Payload e = pl"
proof -
  obtain k where k: "tl_key t = Some k" "ed_keypair P k" using assms(2) by (auto simp: has_key_def)
  obtain h t' where a: "tl_append P t ty pl ts = Inr (h, t')" using tl_append_ok [OF k] by blast
  from tl_append_event [OF a k(1)] obtain e where e: "t' = t\<lparr>tl_events := tl_events t @ [e]\<rparr>" "ev_Type e = ty" "ev_Payload e = pl"
    by metis
  have "tl_live P t \<Longrightarrow> tl_live P t'" using tl_step_live [OF assms(1) tl_step.Appends [OF a assms(3,4)]] .
  then have "grown P t t'" using e(1) k by (auto simp: grown_def extends_def has_key_def)
  then show ?thesis using that [OF a] e by (auto simp: Fold_def)
qed

lemma issue_loop_live:
  assumes "json_ok P" "has_key P t" "\<forall>i \<in> set ids. ascii i"
  obtains t' where "issue_loop P ep ids t = Inr (map (reissue_id ep) ids, t')" "grown P t t'"
    "Fold P t' = fold (\<lambda>i. st_issue (reissue_id ep i) i) ids (Fold P t)"
  using assms(2,3)
proof (induction ids arbitrary: t thesis)
  case (Cons i ids)
  obtain h t1 e where t1: "tl_append P t EvIssue (Some (json_text P (ip_json \<lparr>ip_CertID = reissue_id ep i, ip_Identity = i, ip_Via = []\<rparr>))) 0 = Inr (h, t1)"
    "grown P t t1" "Fold P t1 = fold_event P e (Fold P t)" "ev_Type e = EvIssue"
    "ev_Payload e = Some (json_text P (ip_json \<lparr>ip_CertID = reissue_id ep i, ip_Identity = i, ip_Via = []\<rparr>))"
    by (rule append_live [OF assms(1) Cons.prems(2), where ty = EvIssue and ts = 0 and
        pl = "Some (json_text P (ip_json \<lparr>ip_CertID = reissue_id ep i, ip_Identity = i, ip_Via = []\<rparr>))"]) auto
  have f: "Fold P t1 = st_issue (reissue_id ep i) i (Fold P t)"
    unfolding t1(3) using Cons.prems(3) by (intro issue_of_event [OF assms(1) t1(4,5)]) (simp_all add: ascii_reissue)
  obtain t2 where "issue_loop P ep ids t1 = Inr (map (reissue_id ep) ids, t2)" "grown P t1 t2"
    "Fold P t2 = fold (\<lambda>i. st_issue (reissue_id ep i) i) ids (Fold P t1)"
    by (rule Cons.IH) (use Cons.prems(3) t1(2) in \<open>auto simp: grown_def\<close>)
  with t1(1,2) f show ?case by (intro Cons.prems(1) [of t2]) (auto intro: grown_trans)
qed (simp add: grown_def)

lemma revoke_loop_live:
  assumes "json_ok P" "has_key P t" "\<forall>i \<in> set cs. ascii i"
  obtains t' where "revoke_loop P cs t = Inr t'" "grown P t t'" "Fold P t' = fold st_revoke cs (Fold P t)"
  using assms(2,3)
proof (induction cs arbitrary: t thesis)
  case (Cons c cs)
  obtain h t1 e where t1: "tl_append P t EvRevoke (Some (json_text P (revoke_json c))) 0 = Inr (h, t1)"
    "grown P t t1" "Fold P t1 = fold_event P e (Fold P t)" "ev_Type e = EvRevoke"
    "ev_Payload e = Some (json_text P (revoke_json c))"
    by (rule append_live [OF assms(1) Cons.prems(2), where ty = EvRevoke and ts = 0 and
        pl = "Some (json_text P (revoke_json c))"]) auto
  have f: "Fold P t1 = st_revoke c (Fold P t)"
    unfolding t1(3) using Cons.prems(3) by (intro revoke_of_event [OF assms(1) t1(4,5)]) simp
  obtain t2 where "revoke_loop P cs t1 = Inr t2" "grown P t1 t2" "Fold P t2 = fold st_revoke cs (Fold P t1)"
    by (rule Cons.IH) (use Cons.prems(3) t1(2) in \<open>auto simp: grown_def\<close>)
  with t1(1,2) f show ?case by (intro Cons.prems(1) [of t2]) (auto intro: grown_trans)
qed (simp add: grown_def)

section \<open>The recovery\<close>

text \<open>The shares the council holds were dealt together, at least a threshold of them, and none has signed yet.\<close>

definition dealt_council :: "prims \<Rightarrow> 'g curve \<Rightarrow> bytes \<Rightarrow> 'g Council \<Rightarrow> bool" where
  "dealt_council P C gp c \<longleftrightarrow> (\<exists>rs seed n t ss. FrostSplit P C rs seed n t = Inr (ss, gp) \<and> n < 256
     \<and> set (shares c) \<subseteq> set ss \<and> distinct (shares c) \<and> t \<le> int (length (shares c)) \<and> 2 \<le> length (shares c)
     \<and> co_group c = gp)"

lemma dealt_council_ok:
  assumes "curve_ok C rep" "dealt_council P C gp c"
  obtains a where "council_ok C gp c" "gp = g_enc C (g_exp C a)" "0 \<le> a" "share_sum (shares c) mod fl = a mod fl"
    "\<forall>s \<in> set (shares c). \<not> fs_used s \<and> ascii (fs_ID s)" "length gp = 32" "2 \<le> length (shares c)"
proof -
  obtain rs seed n t ss where s: "FrostSplit P C rs seed n t = Inr (ss, gp)" "n < 256" "set (shares c) \<subseteq> set ss"
    "distinct (shares c)" "t \<le> int (length (shares c))" "2 \<le> length (shares c)" "co_group c = gp"
    using assms(2) by (auto simp: dealt_council_def)
  let ?a = "ed25519Scalar P seed"
  from split_share_sum [OF assms(1) s(1-5)]
  have q: "signers_ok C gp (shares c)" "\<forall>s \<in> set (shares c). \<not> fs_used s" "gp = g_enc C (g_exp C ?a)" "0 \<le> ?a"
    "share_sum (shares c) mod fl = ?a mod fl" by blast+
  have ss: "signers_ok C gp ss" "\<forall>s \<in> set ss. fs_ID s = member_id (nat (fs_X s))"
    using FrostSplit_signers [OF assms(1) s(1,2)] by metis+
  have id: "fs_ID s = member_id (nat (fs_X s))" "0 < fs_X s" "fs_X s < 256" if "s \<in> set (shares c)" for s
    using that s(3) ss by (auto simp: signers_ok_def signer_ok_def)
  have "memberX (fs_ID s) = fs_X s" if "s \<in> set (shares c)" for s
    using id [OF that] memberX_index [of "nat (fs_X s)"] by simp
  then have "council_ok C gp c" using q(1) s(7) by (simp add: council_ok_def)
  moreover have "ascii (fs_ID s)" if "s \<in> set (shares c)" for s
    unfolding id(1) [OF that] member_id_def using ascii_digits by (simp add: ascii_def)
  ultimately show ?thesis using q s(6) rep_length [OF assms(1) rep_exp [OF assms(1) q(4)]] by (intro that [of ?a]) auto
qed

text \<open>
  A timeline that can be rolled back before event \<open>b\<close>: the prefix verifies and changes no key, the hash of
  its last event names no later event, and the names in the blast radius are ASCII.
\<close>

definition recoverable :: "prims \<Rightarrow> Timeline \<Rightarrow> int \<Rightarrow> string list \<Rightarrow> string list \<Rightarrow> bool" where
  "recoverable P t b affected ids \<longleftrightarrow> 0 < b \<and> b \<le> int (length (tl_events t)) \<and> VerifyPrefix P t b
     \<and> no_key_change (take (nat b) (tl_events t))
     \<and> fork_index P (tl_events t) (ev_Hash P (tl_events t ! nat (b - 1))) = Some (nat (b - 1))
     \<and> InvalidationSet P t b = Some (affected, ids) \<and> (\<forall>x \<in> set affected \<union> set ids. ascii x)"

definition recovered_state :: "prims \<Rightarrow> Timeline \<Rightarrow> int \<Rightarrow> int \<Rightarrow> string list \<Rightarrow> string list \<Rightarrow> State" where
  "recovered_state P t b epoch affected ids =
     fold st_revoke affected (fold (\<lambda>i. st_issue (reissue_id epoch i) i) ids (fold (fold_event P) (take (nat b) (tl_events t)) []))"

lemma tail_run:
  assumes "json_ok P" "has_key P t1" "Rollback P tml b = Inr pre"
    and "tl_append P (rb_fork rb) EvRecovery (Some (json_text P (fc_json P fc))) 0 = Inr (h, t1)" "Fold P t1 = Fold P pre"
    and "\<forall>x \<in> set (rb_affected rb) \<union> set (rb_identities rb). ascii x"
  obtains t3 where "recovery_tail P tml b rb ep fc sd = Inr \<lparr>rr_Commit = fc, rr_Timeline = t3,
      rr_Issued = map (reissue_id ep) (rb_identities rb),
      rr_Verify = VerifyRecovery (Fold P pre) (Fold P t3) (rb_affected rb) (rb_identities rb), rr_RootSeed = sd\<rparr>"
    "grown P t1 t3"
    "Fold P t3 = fold st_revoke (rb_affected rb) (fold (\<lambda>i. st_issue (reissue_id ep i) i) (rb_identities rb) (Fold P pre))"
proof -
  have asc: "\<forall>x \<in> set (rb_identities rb). ascii x" "\<forall>x \<in> set (rb_affected rb). ascii x" using assms(6) by auto
  obtain t2 where t2: "issue_loop P ep (rb_identities rb) t1 = Inr (map (reissue_id ep) (rb_identities rb), t2)" "grown P t1 t2" "Fold P t2 = fold (\<lambda>i. st_issue (reissue_id ep i) i) (rb_identities rb) (Fold P t1)"
    by (rule issue_loop_live [OF assms(1,2) asc(1)])
  obtain t2' where t2': "revoke_loop P (rb_affected rb) t2 = Inr t2'" "grown P t2 t2'"
    "Fold P t2' = fold st_revoke (rb_affected rb) (Fold P t2)"
    by (rule revoke_loop_live [OF assms(1) _ asc(2)]) (use t2(2) in \<open>auto simp: grown_def\<close>)
  obtain h3 t3 e where t3: "tl_append P t2' EvCommit (Some (json_text P (commit_json P fc))) 0 = Inr (h3, t3)" "grown P t2' t3" "Fold P t3 = fold_event P e (Fold P t2')" "ev_Type e = EvCommit"
    by (rule append_live [OF assms(1), of t2', where ty = EvCommit and ts = 0 and pl = "Some (json_text P (commit_json P fc))"])
      (use t2'(2) in \<open>auto simp: grown_def\<close>)
  have "Fold P t3 = Fold P t2'" using t3(3,4) by (simp add: fold_event_def)
  moreover have "prefixForCheck P tml b = Some pre" using assms(3) by (simp add: prefixForCheck_def)
  ultimately show ?thesis using t2 t2' t3 assms(4,5)
    by (intro that [of t3]) (auto simp: recovery_tail_def reissueOnFork_def Let_def intro: grown_trans)
qed

lemma check_handoff_refused:
  assumes "ev_Type e = EvRecovery" "unmarshal P (fc_fields P) fc_zero (slice_bytes (ev_Payload e)) = Some fc"
    and "\<not> bytes_equal (fc_Checkpoint fc) (link_of P a prev)"
  shows "check_event P a council prev pub e = None"
  using assms by (auto simp: check_event_def Let_def)

text \<open>
  The fork a recovery rolls back to, and what any handoff for it that is valid under the council key and bound to its
  checkpoint leads to.
\<close>

definition prefix_state :: "prims \<Rightarrow> Timeline \<Rightarrow> int \<Rightarrow> State" where
  "prefix_state P tml b = fold (fold_event P) (take (nat b) (tl_events tml)) []"

definition good_tail ::
  "prims \<Rightarrow> Timeline \<Rightarrow> int \<Rightarrow> int \<Rightarrow> string list \<Rightarrow> string list \<Rightarrow> bytes \<Rightarrow> bytes \<Rightarrow> FrostCommit \<Rightarrow> RecoveryReport \<Rightarrow> bool" where
  "good_tail P tml b ep affected ids k sd fc r \<longleftrightarrow> rr_Commit r = fc \<and> rr_RootSeed r = sd \<and> rr_Issued r = map (reissue_id ep) ids
     \<and> (tl_algo tml = algoSHA256 \<longrightarrow> tl_live P (rr_Timeline r)) \<and> (tl_algo tml = algoDual \<longrightarrow> LocateBadEvent P (rr_Timeline r) = b)
     \<and> tl_key (rr_Timeline r) = Some k \<and> startPub (rr_Timeline r) = startPub tml
     \<and> take (nat b) (tl_events (rr_Timeline r)) = take (nat b) (tl_events tml)
     \<and> Fold P (rr_Timeline r) = recovered_state P tml b ep affected ids
     \<and> rr_Verify r = VerifyRecovery (prefix_state P tml b) (Fold P (rr_Timeline r)) affected ids"

definition base_of :: "prims \<Rightarrow> Timeline \<Rightarrow> int \<Rightarrow> bytes \<Rightarrow> Timeline \<Rightarrow> bool" where
  "base_of P tml b k f \<longleftrightarrow> tl_events f = take (nat b) (tl_events tml) \<and> chain_key P f = Some (startPub tml)
     \<and> tl_start f = Some (startPub tml) \<and> tl_algo f = tl_algo tml \<and> tl_council f = tl_council tml
     \<and> tl_key f = Some k \<and> tl_pub f = ed_public k"

lemma recover_middle:
  assumes "sha_ok P" "ed_ok P" "json_ok P" "recoverable P tml b affected ids" "tl_council tml = Some gp" "length gp = 32"
    and "length sd = 32" "\<forall>k cn. ca k cn \<noteq> None"
  defines "k \<equiv> ed_newkey P sd" and "cp \<equiv> Some (ev_Hash P (tl_events tml ! nat (b - 1)))"
  obtains rb cert where "recoverRollback P ca tml b sd ep = Inr rb" "rb_affected rb = affected" "rb_identities rb = ids"
    "rb_pub rb = ed_public k" "rb_cert rb = Some cert" "base_of P tml b k (rb_fork rb)" "rollbackCheckpoint P tml b = Some cp"
    "\<And>fc sd'. fc_Checkpoint fc = cp \<Longrightarrow> fc_NewPub fc = Some (ed_public k) \<Longrightarrow> fc_Valid P fc gp 1 \<Longrightarrow> fc_wf fc \<Longrightarrow>
       \<exists>r. recovery_tail P tml b rb ep fc sd' = Inr r \<and> good_tail P tml b ep affected ids k sd' fc r"
proof -
  have R: "0 < b" "b \<le> int (length (tl_events tml))" "VerifyPrefix P tml b" "no_key_change (take (nat b) (tl_events tml))"
    "fork_index P (tl_events tml) (ev_Hash P (tl_events tml ! nat (b - 1))) = Some (nat (b - 1))"
    "InvalidationSet P tml b = Some (affected, ids)" "\<forall>x \<in> set affected \<union> set ids. ascii x"
    using assms(4) by (auto simp: recoverable_def)
  obtain f where f: "Rollback P tml b = Inr f" "tl_events f = take (nat b) (tl_events tml)" "chain_key P f = Some (startPub tml)"
    "tl_start f = Some (startPub tml)" "tl_algo f = tl_algo tml" "tl_council f = tl_council tml"
    using Rollback_take [OF R(1-5)] by auto
  let ?f = "f\<lparr>tl_key := Some k, tl_pub := ed_public k, tl_council := tl_council tml\<rparr>"
  obtain cert where "ca k (''to root epoch '' @ fmt_int (wrap64 (ep + 1))) = Some cert" using assms(8) by blast
  then have rb: "recoverRollback P ca tml b sd ep = Inr \<lparr>rb_fork = ?f, rb_affected = affected, rb_identities = ids,
      rb_cert = Some cert, rb_pub = ed_public k\<rparr>"
    using f(1) R(6) by (simp add: recoverRollback_def Let_def k_def)
  let ?rb = "\<lparr>rb_fork = ?f, rb_affected = affected, rb_identities = ids, rb_cert = Some cert, rb_pub = ed_public k\<rparr>"
  have cp: "rollbackCheckpoint P tml b = Some cp" using R(1,2) by (simp add: rollbackCheckpoint_def cp_def)
  have kp: "ed_keypair P k" unfolding k_def by (rule ed_newkey_pair [OF assms(2,7)])
  obtain n where n: "nat b = Suc n" "nat (b - 1) = n" "n < length (tl_events tml)"
    using R(1,2) by (cases "nat b") auto
  have last: "tl_events f \<noteq> []" "last (tl_events f) = tl_events tml ! nat (b - 1)"
    using n by (auto simp: f(2) n take_Suc_conv_app_nth)
  have same: "?f = f\<lparr>tl_key := Some k, tl_pub := ed_public k\<rparr>" using f(6) by simp
  have fold0: "Fold P f = prefix_state P tml b" by (simp add: Fold_def f(2) prefix_state_def)
  have base: "base_of P tml b k ?f"
    using f R(2) by (simp add: base_of_def chain_key_def startPub_def)
  show ?thesis
  proof (rule that [OF rb])
    fix fc sd'
    assume fc: "fc_Checkpoint fc = cp" "fc_NewPub fc = Some (ed_public k)" "fc_Valid P fc gp 1" "fc_wf fc"
    obtain h t1 where t1: "tl_append P ?f EvRecovery (Some (json_text P (fc_json P fc))) 0 = Inr (h, t1)"
      using tl_append_ok [of ?f k P] kp by fastforce
    have live: "tl_live P t1" if "tl_algo tml = algoSHA256"
    proof -
      have "Head P f = cp" using that f(5) last by (simp add: Head_def eventDigest_def hashWith_def ev_Hash_def cp_def)
      then have ho: "handoff_ok P f fc k" using assms(5,6) fc f(6) by (simp add: handoff_ok_def)
      show ?thesis
        by (rule handoff_live [OF assms(3) _ kp ho, of 0 h t1 "startPub tml"]) (use t1 f(3,4) in \<open>simp_all add: handoff_def same\<close>)
    qed
    obtain e where e: "t1 = ?f\<lparr>tl_events := tl_events ?f @ [e]\<rparr>" "ev_Type e = EvRecovery" "ev_Payload e = Some (json_text P (fc_json P fc))"
      by (rule tl_append_event [OF t1]) auto
    have dual: "chain_key P t1 = None" if a: "tl_algo tml = algoDual"
    proof -
      have "link_of P (tl_algo f) (last_ev None (tl_events f)) = Some (hashWith P algoDual (ev_blob P (tl_events tml ! nat (b - 1))))"
        using last a f(5) by (simp add: last_ev_def link_of_def)
      moreover have "hashWith P algoDual x \<noteq> ev_Hash P x'" for x x'
      proof -
        have "length (hashWith P algoDual x) = 64" "length (ev_Hash P x') = 32"
          using assms(1) by (simp_all add: hashWith_def sha256_length sha3_length ev_Hash_def)
        then show ?thesis by auto
      qed
      ultimately have "\<not> bytes_equal (fc_Checkpoint fc) (link_of P (tl_algo f) (last_ev None (tl_events f)))"
        unfolding fc(1) cp_def by (metis bytes_equal_simps(1))
      then have "check_event P (tl_algo f) (tl_council f) (last_ev None (tl_events f)) p e = None" for p
        using e(3) fc_unmarshal [OF assms(3), of fc] fc(4) by (intro check_handoff_refused [OF e(2), where fc = fc]) (simp_all add: fc_wf_def)
      moreover have "chain_key P t1 = (case chain_key P f of None \<Rightarrow> None
          | Some p \<Rightarrow> check_event P (tl_algo f) (tl_council f) (last_ev None (tl_events f)) p e)"
        using chain_key_snoc [of P f e] f(4,6) e(1) by (simp add: chain_key_def startPub_def)
      ultimately show ?thesis using f(3) by simp
    qed
    have fold1: "Fold P t1 = Fold P f" using e by (simp add: Fold_def fold_event_def)
    have hk: "has_key P t1" using kp e(1) by (simp add: has_key_def)
    obtain t3 where t3: "recovery_tail P tml b ?rb ep fc sd' = Inr \<lparr>rr_Commit = fc, rr_Timeline = t3,
        rr_Issued = map (reissue_id ep) ids, rr_Verify = VerifyRecovery (Fold P f) (Fold P t3) affected ids, rr_RootSeed = sd'\<rparr>"
      "grown P t1 t3"
      "Fold P t3 = fold st_revoke affected (fold (\<lambda>i. st_issue (reissue_id ep i) i) ids (Fold P f))"
      by (rule tail_run [OF assms(3) hk f(1), where rb = ?rb and fc = fc and h = h and sd = sd' and ep = ep]) (use t1 fold1 R(7) in auto)
    have "startPub t3 = startPub tml" "tl_key t3 = Some k" "take (nat b) (tl_events t3) = take (nat b) (tl_events tml)"
      using t3(2) e(1) f(2,4) R(2) by (auto simp: grown_def extends_def startPub_def nat_le_iff)
    moreover have "tl_algo tml = algoSHA256 \<Longrightarrow> tl_live P t3" using live t3(2) by (simp add: grown_def)
    moreover have "LocateBadEvent P t3 = b" if "tl_algo tml = algoDual"
    proof -
      obtain es where es: "tl_events t3 = tl_events f @ e # es" "tl_algo t3 = tl_algo f" "tl_council t3 = tl_council f" "startPub t3 = startPub f"
        using t3(2) e(1) f(4,6) by (auto simp: grown_def extends_def startPub_def)
      have l: "length (tl_events f) = nat b" using f(2) R(2) by simp
      have "VerifyPrefix P t3 b" using f(3) R(1) unfolding VerifyPrefix_key es chain_key_def by (simp add: l)
      moreover have "\<not> VerifyPrefix P t3 (b + 1)"
      proof -
        have "take (nat (b + 1)) (tl_events t3) = tl_events t1" using R(1) l e(1) by (simp add: es nat_add_distrib)
        moreover have "tl_algo t1 = tl_algo f" "tl_council t1 = tl_council f" "startPub t1 = startPub f" using e(1) f(4,6) by (simp_all add: startPub_def)
        ultimately show ?thesis using dual [OF that] unfolding VerifyPrefix_key es chain_key_def by simp
      qed
      ultimately show ?thesis using LocateBadEvent_iff [of P t3 "nat b"] R(1) l by (simp add: es)
    qed
    ultimately show "\<exists>r. recovery_tail P tml b ?rb ep fc sd' = Inr r \<and> good_tail P tml b ep affected ids k sd' fc r"
      using t3 unfolding good_tail_def fold0 by (intro exI) (auto simp: recovered_state_def prefix_state_def)
  qed (use base cp in simp_all)
qed

lemma recover_run:
  assumes "curve_ok C rep" "ed_verify_eq P C rep" "sha_ok P" "ed_ok P" "json_ok P"
    and "dealt_council P C gp c" "0 \<le> co_epoch c" "co_epoch c < 2 ^ 63 - 1" "mn \<le> int (length (shares c))"
    and "recoverable P tml b affected ids" "tl_council tml = Some gp"
    and "evidenceBadIndex P ev = Inr b" "length sd = 32" "\<forall>k cn. ca k cn \<noteq> None" "nonces_ok rs (length (shares c))"
  obtains r c' where "Recover P C ca (Some sd) rs c tml ev mn = (Inr r, c')"
    "tl_algo tml = algoSHA256 \<Longrightarrow> tl_live P (rr_Timeline r)" "tl_algo tml = algoDual \<Longrightarrow> LocateBadEvent P (rr_Timeline r) = b"
    "tl_key (rr_Timeline r) = Some (ed_newkey P sd)" "startPub (rr_Timeline r) = startPub tml"
    "take (nat b) (tl_events (rr_Timeline r)) = take (nat b) (tl_events tml)"
    "rr_Issued r = map (reissue_id (co_epoch c)) ids" "fc_Epoch (rr_Commit r) = co_epoch c + 1" "co_epoch c' = co_epoch c + 1"
    "Fold P (rr_Timeline r) = recovered_state P tml b (co_epoch c) affected ids"
    "rr_Verify r = VerifyRecovery (fold (fold_event P) (take (nat b) (tl_events tml)) []) (Fold P (rr_Timeline r)) affected ids"
proof -
  obtain a where D: "council_ok C gp c" "gp = g_enc C (g_exp C a)" "0 \<le> a" "share_sum (shares c) mod fl = a mod fl"
    "\<forall>s \<in> set (shares c). \<not> fs_used s \<and> ascii (fs_ID s)" "length gp = 32" "2 \<le> length (shares c)"
    using dealt_council_ok [OF assms(1,6)] by metis
  let ?k = "ed_newkey P sd" and ?cp = "Some (ev_Hash P (tl_events tml ! nat (b - 1)))"
  obtain rb cert where rb: "recoverRollback P ca tml b sd (co_epoch c) = Inr rb"
    "rb_pub rb = ed_public ?k" "rb_cert rb = Some cert" "rollbackCheckpoint P tml b = Some ?cp"
    "\<And>fc sd'. fc_Checkpoint fc = ?cp \<Longrightarrow> fc_NewPub fc = Some (ed_public ?k) \<Longrightarrow> fc_Valid P fc gp 1 \<Longrightarrow> fc_wf fc \<Longrightarrow>
       \<exists>r. recovery_tail P tml b rb (co_epoch c) fc sd' = Inr r \<and> good_tail P tml b (co_epoch c) affected ids ?k sd' fc r"
    by (rule recover_middle [OF assms(3,4,5,10,11) D(6) assms(13,14), of "co_epoch c"]) (rule that; assumption)
  have w: "wrap64 (co_epoch c + 1) = co_epoch c + 1" using assms(7,8) by (intro wrap64_id) (simp add: int64_def)
  let ?fc = "\<lambda>sg. \<lparr>fc_Epoch = wrap64 (co_epoch c + 1), fc_Checkpoint = ?cp, fc_Prev = co_epoch c, fc_NewPub = Some (ed_public ?k),
      fc_Payload = Some cert, fc_Sig = Some sg, fc_Members = map fs_ID (shares c)\<rparr>"
  obtain sg c' where S: "SignCommit P C rs c (wrap64 (co_epoch c + 1)) ?cp (co_epoch c) (Some (ed_public ?k)) (Some cert) mn (memberIDs c) =
      (Committed (?fc sg), c')" "\<And>k. k \<le> mn \<Longrightarrow> fc_Valid P (?fc sg) gp k" "co_epoch c' = wrap64 (co_epoch c + 1)"
    by (rule SignCommit_ok [OF assms(1,2) D(1) refl, where ids = "memberIDs c", unfolded picked_all, folded shares_def,
          OF D(7) assms(9) _ assms(15) D(2-4)])
      (use D(5) in auto)
  have valid: "fc_Valid P (?fc sg) gp 1"
    using S(2) [OF order_refl] D(7) by (auto simp: fc_Valid_def split: if_splits)
  have wf: "fc_wf (?fc sg)" using D(5) assms(7,8) by (auto simp: fc_wf_def w int64_def)
  obtain r where r: "recovery_tail P tml b rb (co_epoch c) (?fc sg) sd = Inr r" "good_tail P tml b (co_epoch c) affected ids ?k sd (?fc sg) r"
    using rb(5) [OF _ _ valid wf] by auto
  have "VerifyPrefix P tml b" using assms(10) by (simp add: recoverable_def)
  moreover have "int (length (shareHolders c)) \<ge> mn" using assms(9) by (simp add: shares_def)
  ultimately have "Recover P C ca (Some sd) rs c tml ev mn = (Inr r, c')"
    using assms(12) rb(1-4) S(1) r(1) by (simp add: Recover_def finishRecovery_def)
  then show ?thesis using r(2) S(3) w
    by (intro that [of r c']) (simp_all add: good_tail_def prefix_state_def)
qed

text \<open>
  C2: with at least a threshold of fresh dealt shares, a recovery of a recoverable SHA-256 timeline returns
  a chain that verifies from the old start key, keeps every event before the bad one, signs with the new root, re-issues
  a certificate for every affected identity, and moves the council to the next epoch.
\<close>

theorem council_recover:
  assumes "curve_ok C rep" "ed_verify_eq P C rep" "sha_ok P" "ed_ok P" "json_ok P"
    and "dealt_council P C gp c" "0 \<le> co_epoch c" "co_epoch c < 2 ^ 63 - 1" "mn \<le> int (length (shares c))"
    and "recoverable P tml b affected ids" "tl_algo tml = algoSHA256" "tl_council tml = Some gp"
    and "evidenceBadIndex P ev = Inr b" "length sd = 32" "\<forall>k cn. ca k cn \<noteq> None" "nonces_ok rs (length (shares c))"
  shows "\<exists>r c'. Recover P C ca (Some sd) rs c tml ev mn = (Inr r, c')
    \<and> tl_Verify P (rr_Timeline r) \<and> startPub (rr_Timeline r) = startPub tml
    \<and> take (nat b) (tl_events (rr_Timeline r)) = take (nat b) (tl_events tml)
    \<and> tl_key (rr_Timeline r) = Some (ed_newkey P sd) \<and> rr_Issued r = map (reissue_id (co_epoch c)) ids
    \<and> fc_Epoch (rr_Commit r) = co_epoch c + 1 \<and> co_epoch c' = co_epoch c + 1"
  by (rule recover_run [OF assms(1-10,12-16)]) (use assms(11) in \<open>auto intro!: exI simp: tl_live_Verify\<close>)

subsection \<open>The trust state after a recovery\<close>

lemma st_issue_lookup: "map_of (st_issue c i s) x = (if x = c \<and> \<not> revoked_in s c then Some \<lparr>Identity = i, Revoked = False\<rparr> else map_of s x)"
  by (auto simp: st_issue_def revoked_in_def split: option.splits)

lemma st_revoke_lookup:
  "map_of (fold st_revoke cs s) x = (if x \<in> set cs then map_option (\<lambda>d. d\<lparr>Revoked := True\<rparr>) (map_of s x) else map_of s x)"
proof (induction cs arbitrary: s)
  case (Cons c cs)
  have "map_of (st_revoke c s) x = (if x = c then map_option (\<lambda>d. d\<lparr>Revoked := True\<rparr>) (map_of s x) else map_of s x)"
    by (auto simp: st_revoke_def split: option.splits)
  then show ?case unfolding fold_simps Cons.IH by (auto simp: option.map_comp comp_def)
qed simp

lemma reissue_inject [simp]: "reissue_id ep i = reissue_id ep j \<longleftrightarrow> i = j"
  by (simp add: reissue_id_def)

lemma issue_fold_lookup:
  "map_of (fold (\<lambda>i. st_issue (reissue_id ep i) i) ids s) x =
     (if \<exists>i \<in> set ids. x = reissue_id ep i \<and> \<not> revoked_in s x then Some \<lparr>Identity = (THE i. x = reissue_id ep i), Revoked = False\<rparr>
      else map_of s x)"
proof (induction ids arbitrary: s)
  case (Cons i ids)
  let ?s = "st_issue (reissue_id ep i) i s"
  have r: "revoked_in ?s x = revoked_in s x" by (auto simp: revoked_in_def st_issue_lookup)
  have "(THE j. reissue_id ep i = reissue_id ep j) = i" by (rule the_equality) simp_all
  then show ?case unfolding fold_simps Cons.IH r by (auto simp: st_issue_lookup)
qed simp

lemma recovered_lookup:
  assumes "\<forall>i \<in> set ids. map_of pre (reissue_id ep i) = None"
  shows "map_of (fold st_revoke affected (fold (\<lambda>i. st_issue (reissue_id ep i) i) ids pre)) x =
    (let v = (if \<exists>i \<in> set ids. x = reissue_id ep i then Some \<lparr>Identity = (THE i. x = reissue_id ep i), Revoked = False\<rparr> else map_of pre x)
     in if x \<in> set affected then map_option (\<lambda>d. d\<lparr>Revoked := True\<rparr>) v else v)"
  using assms unfolding st_revoke_lookup issue_fold_lookup by (auto simp: revoked_in_def Let_def)

text \<open>
  C8: when no re-issued name is taken, the recovery's own report passes; the certificates revoked on the
  recovered chain are those revoked before the bad event and those of the blast radius; and every affected identity holds
  a valid re-issued certificate, unless the attacker used that very name in the window rolled back, which leaves it revoked.
\<close>

theorem recovered_trust:
  assumes "curve_ok C rep" "ed_verify_eq P C rep" "sha_ok P" "ed_ok P" "json_ok P"
    and "dealt_council P C gp c" "0 \<le> co_epoch c" "co_epoch c < 2 ^ 63 - 1" "mn \<le> int (length (shares c))"
    and "recoverable P tml b affected ids" "tl_algo tml = algoSHA256" "tl_council tml = Some gp"
    and "evidenceBadIndex P ev = Inr b" "length sd = 32" "\<forall>k cn. ca k cn \<noteq> None" "nonces_ok rs (length (shares c))"
    and "Recover P C ca (Some sd) rs c tml ev mn = (Inr r, c')"
  defines "pre \<equiv> fold (fold_event P) (take (nat b) (tl_events tml)) []" and "post \<equiv> Fold P (rr_Timeline r)"
  assumes "\<forall>i \<in> set ids. map_of pre (reissue_id (co_epoch c) i) = None"
  shows "Pass (Some (rr_Verify r))
    \<and> (\<forall>x. revoked_in post x \<longleftrightarrow> revoked_in pre x \<or> x \<in> set affected \<and> (map_of pre x \<noteq> None \<or> x \<in> reissue_id (co_epoch c) ` set ids))
    \<and> (\<forall>i \<in> set ids. map_of post (reissue_id (co_epoch c) i)
          = Some \<lparr>Identity = i, Revoked = (reissue_id (co_epoch c) i \<in> set affected)\<rparr>)"
proof -
  obtain r' c'' where r: "Recover P C ca (Some sd) rs c tml ev mn = (Inr r', c'')"
    "Fold P (rr_Timeline r') = recovered_state P tml b (co_epoch c) affected ids"
    "rr_Verify r' = VerifyRecovery (fold (fold_event P) (take (nat b) (tl_events tml)) []) (Fold P (rr_Timeline r')) affected ids"
    by (rule recover_run [OF assms(1-10,12-16)]) (rule that; assumption)
  then have R: "post = fold st_revoke affected (fold (\<lambda>i. st_issue (reissue_id (co_epoch c) i) i) ids pre)"
    "rr_Verify r = VerifyRecovery pre post affected ids"
    using assms(17) by (simp_all add: post_def pre_def recovered_state_def)
  have the_id: "(THE j. reissue_id (co_epoch c) i = reissue_id (co_epoch c) j) = i" for i by (rule the_equality) simp_all
  note L = recovered_lookup [OF assms(20), of affected, folded R(1)]
  have dpre: "distinct (map fst pre)" unfolding pre_def by (rule trust.run_inv) simp
  have old: "map_of post i = Some (if i \<in> set affected then d\<lparr>Revoked := True\<rparr> else d)" if "(i, d) \<in> set pre" for i d
  proof -
    have m: "map_of pre i = Some d" using dpre that by simp
    then have "\<not> (\<exists>j \<in> set ids. i = reissue_id (co_epoch c) j)" using assms(20) by auto
    then show ?thesis by (simp add: L Let_def m)
  qed
  have added: "Identity d \<in> set ids" if q: "(i, d) \<in> set post" "map_of pre i = None" for i d
  proof -
    have "distinct (map fst post)" unfolding post_def Fold_def by (rule trust.run_inv) simp
    then have "map_of post i = Some d" using q(1) by simp
    then obtain j where j: "j \<in> set ids" "i = reissue_id (co_epoch c) j" using q(2) by (auto simp: L Let_def split: if_splits)
    then show ?thesis using \<open>map_of post i = Some d\<close> by (auto simp: L Let_def the_id split: if_splits)
  qed
  have "no_resurrection pre post"
    unfolding no_resurrection_def by (auto dest!: old)
  moreover have "minimal_blast pre post (set affected) (set ids)"
    unfolding minimal_blast_def using old added by auto
  moreover have "revoked_in post x \<longleftrightarrow> revoked_in pre x \<or> x \<in> set affected \<and> (map_of pre x \<noteq> None \<or> x \<in> reissue_id (co_epoch c) ` set ids)" for x
    using assms(20) by (auto simp: revoked_in_def L Let_def the_id)
  moreover have "\<forall>i \<in> set ids. map_of post (reissue_id (co_epoch c) i) = Some \<lparr>Identity = i, Revoked = (reissue_id (co_epoch c) i \<in> set affected)\<rparr>"
    by (auto simp: L Let_def the_id)
  ultimately show ?thesis by (simp add: R(2) Pass_def VerifyRecovery_spec)
qed

lemma keyed_keys: "distinct (map fst (keyed kvs))" "fst ` set (keyed kvs) \<subseteq> fst ` set kvs"
proof -
  have "distinct (map fst m) \<Longrightarrow> distinct (map fst (fold (\<lambda>(k, v) m. AList.update k v m) kvs m))
      \<and> fst ` set (fold (\<lambda>(k, v) m. AList.update k v m) kvs m) \<subseteq> fst ` set m \<union> fst ` set kvs" for m
  proof (induction kvs arbitrary: m)
    case (Cons kv kvs)
    have "fst ` set (AList.update (fst kv) (snd kv) m) \<subseteq> insert (fst kv) (fst ` set m)" by (simp add: dom_update)
    moreover have "distinct (map fst (AList.update (fst kv) (snd kv) m))" using Cons.prems by (simp add: distinct_update)
    note Cons.IH [OF this]
    ultimately show ?case unfolding fold_simps list.set image_insert split_beta by blast
  qed simp
  from this [of "[]"] show "distinct (map fst (keyed kvs))" "fst ` set (keyed kvs) \<subseteq> fst ` set kvs" by (simp_all add: keyed_def)
qed

lemma SignCommit_safe:
  assumes "SignCommit P C rs c epoch cp prev np pl mn ids = (Committed fc, c')"
  shows "fc_Valid P fc (co_group c) mn \<and> fc_Epoch fc = epoch \<and> fc_Checkpoint fc = cp \<and> fc_NewPub fc = np \<and> epoch = wrap64 (prev + 1)
    \<and> distinct (fc_Members fc) \<and> set (fc_Members fc) \<subseteq> set (memberIDs c) \<inter> set ids \<and> mn \<le> int (length (fc_Members fc)) \<and> co_epoch c' = epoch"
proof -
  have "set (map fst (by_id c ids)) \<subseteq> set (memberIDs c) \<inter> set ids" "distinct (map fst (by_id c ids))"
    using keyed_keys [of "map (\<lambda>i. (fs_ID (share_at c i), i)) (filter (\<lambda>i. fs_ID (share_at c i) \<in> set ids) (shareHolders c))"]
    by (auto simp: by_id_def memberIDs_def)
  then show ?thesis using assms
    by (auto simp: SignCommit_def Let_def split: if_splits prod.splits sum.splits)
qed

text \<open>
  C9: whatever the evidence, the timeline and the shares, a recovery that returns a report had a verified
  prefix and a quorum of share holders, and its handoff is for the next epoch, is bound to the checkpoint of the
  rollback, names only distinct share holders, at least the quorum of them, and verifies under the council's group key.
\<close>

theorem recover_safe:
  assumes "Recover P C ca seed rs c tml ev mn = (Inr r, c')"
  shows "\<exists>b. evidenceBadIndex P ev = Inr b \<and> VerifyPrefix P tml b \<and> mn \<le> int (length (shareHolders c))
    \<and> rollbackCheckpoint P tml b = Some (fc_Checkpoint (rr_Commit r)) \<and> fc_Valid P (rr_Commit r) (co_group c) mn
    \<and> fc_Epoch (rr_Commit r) = wrap64 (co_epoch c + 1) \<and> co_epoch c' = wrap64 (co_epoch c + 1)
    \<and> distinct (fc_Members (rr_Commit r)) \<and> set (fc_Members (rr_Commit r)) \<subseteq> set (memberIDs c)
    \<and> mn \<le> int (length (fc_Members (rr_Commit r)))"
proof -
  obtain b where b: "evidenceBadIndex P ev = Inr b" "VerifyPrefix P tml b" "mn \<le> int (length (shareHolders c))"
    "finishRecovery P C ca seed rs c tml b mn (memberIDs c) = (Inr r, c')"
    using assms by (auto simp: Recover_def not_less split: sum.splits if_splits)
  then obtain rb cp sd fc where f: "rollbackCheckpoint P tml b = Some cp"
    "SignCommit P C rs c (wrap64 (co_epoch c + 1)) cp (co_epoch c) (Some (rb_pub rb)) (rb_cert rb) mn (memberIDs c) = (Committed fc, c')"
    "recovery_tail P tml b rb (co_epoch c) fc sd = Inr r"
    by (auto simp: finishRecovery_def split: option.splits sum.splits prod.splits commit_result.splits)
  have "rr_Commit r = fc"
    using f(3) by (auto simp: recovery_tail_def Let_def split: option.splits sum.splits prod.splits if_splits)
  with b f SignCommit_safe [OF f(2)] show ?thesis by blast
qed

text \<open>
  A timeline under the dual digest cannot be recovered: under the conditions of a recovery it returns a
  report, but the handoff is bound to the SHA-256 hash where the chain expects the dual digest, and the returned chain
  fails verification at the handoff.
\<close>

theorem recover_dual:
  assumes "curve_ok C rep" "ed_verify_eq P C rep" "sha_ok P" "ed_ok P" "json_ok P"
    and "dealt_council P C gp c" "0 \<le> co_epoch c" "co_epoch c < 2 ^ 63 - 1" "mn \<le> int (length (shares c))"
    and "recoverable P tml b affected ids" "tl_algo tml = algoDual" "tl_council tml = Some gp"
    and "evidenceBadIndex P ev = Inr b" "length sd = 32" "\<forall>k cn. ca k cn \<noteq> None" "nonces_ok rs (length (shares c))"
  shows "\<exists>r c'. Recover P C ca (Some sd) rs c tml ev mn = (Inr r, c')
    \<and> LocateBadEvent P (rr_Timeline r) = b \<and> \<not> tl_Verify P (rr_Timeline r)"
proof -
  have b: "b \<noteq> - 1" using assms(10) by (simp add: recoverable_def)
  obtain r c' where r: "Recover P C ca (Some sd) rs c tml ev mn = (Inr r, c')"
    "tl_algo tml = algoDual \<Longrightarrow> LocateBadEvent P (rr_Timeline r) = b"
    by (rule recover_run [OF assms(1-10,12-16)]) (rule that; assumption)
  have "LocateBadEvent P (rr_Timeline r) = b" by (rule r(2) [OF assms(11)])
  with r(1) b show ?thesis by (auto simp: tl_Verify_def)
qed

section \<open>A concrete recovery\<close>

text \<open>
  A three-member council over a 2-of-3 dealing, and a timeline with a good first event and a fraudulent issue
  (certificate c9 for bob) that the recovery takes back.
\<close>

definition demo_council :: "int FrostSigner list \<Rightarrow> int Council" where
  "demo_council ss = NewCouncil (map (\<lambda>s. \<lparr>cm_ID = fs_ID s, cm_Key = [], cm_Share = Some s\<rparr>) ss)"

lemma demo_council_shares: "shares (demo_council ss) = ss"
proof -
  have "shareHolders (demo_council ss) = [0..<length ss]"
    by (simp add: shareHolders_def demo_council_def NewCouncil_def)
  then show ?thesis
    by (intro nth_equalityI) (simp_all add: shares_def share_at_def demo_council_def NewCouncil_def)
qed

lemma demo_council_dealt:
  obtains ss gp where "dealt_council zprims zcurve gp (demo_council ss)" "length ss = 3" "length gp = 32"
proof -
  obtain ss gp where ss: "FrostSplit zprims zcurve [Some []] [] 3 2 = Inr (ss, gp)" "length ss = 3" "distinct ss"
    "signers_ok zcurve gp ss" by (rule split_two_of_three)
  obtain s ss' where c: "ss = s # ss'" using ss(2) by (cases ss) auto
  then have "fs_GroupPub s = gp" using ss(4) by (simp add: signers_ok_def signer_ok_def)
  then have g: "co_group (demo_council ss) = gp" by (simp add: demo_council_def NewCouncil_def map_filter_simps c)
  have d: "dealt_council zprims zcurve gp (demo_council ss)"
    unfolding dealt_council_def demo_council_shares using ss(1-3) g
    by (intro exI [of _ "[Some []]"] exI [of _ "[]"] exI [of _ 3] exI [of _ 2] exI [of _ ss]) simp
  then show ?thesis using dealt_council_ok [OF zcurve_ok d] ss(2) by (intro that [OF d]) metis+
qed

definition zkey :: bytes where "zkey = ed_newkey zprims (replicate 32 1)"

definition ev_at :: "Timeline \<Rightarrow> string \<Rightarrow> json \<Rightarrow> TrustEvent" where
  "ev_at t ty j = last (tl_events (snd (projr (tl_append zprims t ty (Some (json_text zprims j)) 0))))"

definition demo_base :: "hashAlgo \<Rightarrow> bytes \<Rightarrow> Timeline" where
  "demo_base algo gp = SetCouncilPub gp (projr (newTimeline (Some zkey) algo))"

definition demo_fraud :: issuePayload where
  "demo_fraud = \<lparr>ip_CertID = ''c9'', ip_Identity = ''bob'', ip_Via = []\<rparr>"

lemma zkey_pair: "ed_keypair zprims zkey" and zkey_length: "length zkey = 64"
  using ed_newkey_pair [OF zprims_ok(2), of "replicate 32 1"] by (simp_all add: zkey_def ed_keypair_def)

lemma demo_chain_wf:
  assumes "length gp = 32"
  obtains t e e' where "tl_live zprims t" "tl_events t = [e, e']" "tl_algo t = algo" "tl_council t = Some gp"
    "ev_Type e = EvPolicyChange" "ev_Type e' = EvIssue" "ev_Payload e' = Some (json_text zprims (ip_json demo_fraud))" "tl_wf t"
proof -
  let ?t0 = "projr (newTimeline (Some zkey) algo)"
  have t0: "newTimeline (Some zkey) algo = Inr ?t0" "tl_live zprims ?t0" "tl_events ?t0 = []" "tl_algo ?t0 = algo"
    using newTimeline_live [OF zkey_pair, of algo] zkey_length by (auto simp: newTimeline_def)
  let ?t1 = "SetCouncilPub gp ?t0"
  have l1: "tl_live zprims ?t1" by (rule tl_step_live [OF zprims_ok(3) tl_step.SetsCouncil t0(2)]) (simp add: t0(3))
  have "gp \<noteq> []" using assms by auto
  then have b: "tl_events ?t1 = []" "tl_algo ?t1 = algo" "tl_council ?t1 = Some gp" "tl_key ?t1 = Some zkey"
    using t0(3,4) zkey_length by (simp_all add: SetCouncilPub_def newTimeline_def)
  obtain h t2 where a: "tl_append zprims ?t1 EvPolicyChange None 0 = Inr (h, t2)" using tl_append_ok [OF b(4) zkey_pair] by blast
  obtain e where e: "t2 = ?t1\<lparr>tl_events := tl_events ?t1 @ [e]\<rparr>" "ev_Type e = EvPolicyChange" "ev_Timestamp e = 0"
    by (rule tl_append_event [OF a b(4)]) auto
  have l2: "tl_live zprims t2" by (rule tl_step_live [OF zprims_ok(3) tl_step.Appends [OF a] l1]) simp_all
  have k2: "tl_key t2 = Some zkey" using e(1) b(4) by simp
  obtain h' t3 where a': "tl_append zprims t2 EvIssue (Some (json_text zprims (ip_json demo_fraud))) 0 = Inr (h', t3)"
    using tl_append_ok [OF k2 zkey_pair] by blast
  obtain e' where e': "t3 = t2\<lparr>tl_events := tl_events t2 @ [e']\<rparr>" "ev_Type e' = EvIssue"
    "ev_Payload e' = Some (json_text zprims (ip_json demo_fraud))" "ev_Timestamp e' = 0"
    by (rule tl_append_event [OF a' k2]) auto
  have "tl_live zprims t3" by (rule tl_step_live [OF zprims_ok(3) tl_step.Appends [OF a'] l2]) simp_all
  moreover have "tl_wf t3"
    using e e' b(1) zkey_length assms
    by (simp add: tl_wf_def ev_wf_def int64_def ascii_def len_in_def SetCouncilPub_def newTimeline_def)
  ultimately show ?thesis using e e' b by (intro that [of t3 e e']) simp_all
qed

lemma demo_chain:
  assumes "length gp = 32"
  obtains t e e' where "tl_live zprims t" "tl_events t = [e, e']" "tl_algo t = algo" "tl_council t = Some gp"
    "ev_Type e = EvPolicyChange" "ev_Type e' = EvIssue" "ev_Payload e' = Some (json_text zprims (ip_json demo_fraud))"
  using demo_chain_wf [OF assms] by metis

lemma demo_fraud_issue:
  assumes "ev_Type e' = EvIssue" "ev_Payload e' = Some (json_text zprims (ip_json demo_fraud))"
  shows "issue_of zprims e' = Some demo_fraud"
proof -
  have "plain (ip_json demo_fraud)" by (simp add: ip_json_def omit_string_def ascii_payload demo_fraud_def ascii_def)
  then show ?thesis using assms
    by (simp add: issue_of_def unmarshal_text [OF zprims_ok(3)] decode_eval ip_json_def omit_string_def ip_fields_def ip_zero_def demo_fraud_def)
qed

lemma demo_hashes: "ev_Type e = EvPolicyChange \<Longrightarrow> ev_Type e' = EvIssue \<Longrightarrow> ev_Hash zprims e \<noteq> ev_Hash zprims e'"
proof -
  assume t: "ev_Type e = EvPolicyChange" "ev_Type e' = EvIssue"
  have "ev_Hash zprims e ! 22 \<noteq> ev_Hash zprims e' ! 22"
    unfolding ev_Hash_def ev_blob_def canonical_def ev_json_def
    by (simp add: zprims_def toy_sel pad_def t nth_append enc_nat_def enc_str_def str_bytes_def nth_Cons')
  then show ?thesis by metis
qed

lemma demo_recoverable:
  assumes "tl_live zprims t" "tl_events t = [e, e']" "ev_Type e = EvPolicyChange" "ev_Type e' = EvIssue"
    "ev_Payload e' = Some (json_text zprims (ip_json demo_fraud))"
  shows "recoverable zprims t 1 [''c9''] [''bob'']"
proof -
  note i = demo_fraud_issue [OF assms(4,5)]
  have none: "issue_of zprims e = None" "revoke_of zprims e = None" "revoke_of zprims e' = None"
    using assms(3,4) by (simp_all add: issue_of_def revoke_of_def)
  let ?g = "AddEdge [] ''id:bob'' ''cert:c9'' ''issue:c9''"
  have "BuildGraph zprims t = ?g"
    using assms(2) i none by (simp add: BuildGraph_def graph_event_def demo_fraud_def Let_def)
  moreover have "Reachable ?g ''cert:c9'' = [''cert:c9'']"
    by (simp add: Reachable_def AddEdge_def out_edges_def)
  moreover have "fold (window_event zprims) (drop (nat 1) (tl_events t)) ([], []) = ([''cert:c9''], [''bob''])"
    using assms(2) i none by (simp add: window_event_def add_key_def demo_fraud_def)
  ultimately have inv: "InvalidationSet zprims t 1 = Some ([''c9''], [''bob''])"
    using assms(2) by (simp add: InvalidationSet_def Let_def has_prefix_def trim_prefix_def add_key_def)
  have "VerifyPrefix zprims t 2" using tl_live_Verify [OF assms(1)] VerifyPrefix_all [of zprims t] assms(2) by simp
  then have v: "VerifyPrefix zprims t 1" by (rule VerifyPrefix_mono) simp
  have "fork_index zprims (tl_events t) (ev_Hash zprims e) = Some 0"
    using demo_hashes [OF assms(3,4)] assms(2) by (simp add: fork_index_def Let_def upt_rec)
  then show ?thesis using inv v assms(2,3) by (simp add: recoverable_def no_key_change_def ascii_def)
qed

definition demo_evidence :: TrustEvent where
  "demo_evidence = ev_zero\<lparr>ev_Type := EvDetected, ev_Payload := Some (json_text zprims (JObj [(''bad_index'', JInt 1)]))\<rparr>"

lemma demo_evidence: "evidenceBadIndex zprims (Some demo_evidence) = Inr 1"
  by (simp add: evidenceBadIndex_def demo_evidence_def ev_zero_def unmarshal_text [OF zprims_ok(3)] ascii_payload
      evidence_fields_def decode_eval int64_def)

definition demo_nonces :: "(bytes option \<times> bytes option) list" where
  "demo_nonces = [(Some [1], Some [2]), (Some [3], Some [4]), (Some [5], Some [6])]"

lemma demo_epoch: "co_epoch (demo_council ss) = 0"
  by (simp add: demo_council_def NewCouncil_def)

theorem council_recover_witness:
  "\<exists>ss t r c'. Recover zprims zcurve (\<lambda>k cn. Some k) (Some (replicate 32 7)) demo_nonces (demo_council ss) t (Some demo_evidence) 2 = (Inr r, c')
     \<and> tl_Verify zprims (rr_Timeline r) \<and> rr_Issued r = [reissue_id 0 ''bob''] \<and> co_epoch c' = 1"
proof -
  obtain ss gp where d: "dealt_council zprims zcurve gp (demo_council ss)" "length ss = 3" "length gp = 32" by (rule demo_council_dealt)
  obtain t e e' where t: "tl_live zprims t" "tl_events t = [e, e']" "tl_algo t = algoSHA256" "tl_council t = Some gp"
    "ev_Type e = EvPolicyChange" "ev_Type e' = EvIssue" "ev_Payload e' = Some (json_text zprims (ip_json demo_fraud))"
    by (rule demo_chain [OF d(3)])
  note r = demo_recoverable [OF t(1,2,5-7)]
  have "\<exists>r c'. Recover zprims zcurve (\<lambda>k cn. Some k) (Some (replicate 32 7)) demo_nonces (demo_council ss) t (Some demo_evidence) 2 = (Inr r, c')
    \<and> tl_Verify zprims (rr_Timeline r) \<and> startPub (rr_Timeline r) = startPub t
    \<and> take (nat 1) (tl_events (rr_Timeline r)) = take (nat 1) (tl_events t)
    \<and> tl_key (rr_Timeline r) = Some (ed_newkey zprims (replicate 32 7)) \<and> rr_Issued r = map (reissue_id (co_epoch (demo_council ss))) [''bob'']
    \<and> fc_Epoch (rr_Commit r) = co_epoch (demo_council ss) + 1 \<and> co_epoch c' = co_epoch (demo_council ss) + 1"
    by (rule council_recover [OF zcurve_ok zprims_verify zprims_ok d(1) _ _ _ r t(3,4) demo_evidence])
      (simp_all add: demo_epoch demo_council_shares d(2) demo_nonces_def nonces_ok_def)
  then show ?thesis by (auto simp: demo_epoch)
qed

theorem recover_dual_witness:
  "\<exists>ss t r c'. Recover zprims zcurve (\<lambda>k cn. Some k) (Some (replicate 32 7)) demo_nonces (demo_council ss) t (Some demo_evidence) 2 = (Inr r, c')
     \<and> tl_Verify zprims t \<and> \<not> tl_Verify zprims (rr_Timeline r)"
proof -
  obtain ss gp where d: "dealt_council zprims zcurve gp (demo_council ss)" "length ss = 3" "length gp = 32" by (rule demo_council_dealt)
  obtain t e e' where t: "tl_live zprims t" "tl_events t = [e, e']" "tl_algo t = algoDual" "tl_council t = Some gp"
    "ev_Type e = EvPolicyChange" "ev_Type e' = EvIssue" "ev_Payload e' = Some (json_text zprims (ip_json demo_fraud))"
    by (rule demo_chain [OF d(3)])
  note r = demo_recoverable [OF t(1,2,5-7)]
  have "\<exists>r c'. Recover zprims zcurve (\<lambda>k cn. Some k) (Some (replicate 32 7)) demo_nonces (demo_council ss) t (Some demo_evidence) 2 = (Inr r, c')
    \<and> LocateBadEvent zprims (rr_Timeline r) = 1 \<and> \<not> tl_Verify zprims (rr_Timeline r)"
    by (rule recover_dual [OF zcurve_ok zprims_verify zprims_ok d(1) _ _ _ r t(3,4) demo_evidence])
      (simp_all add: demo_epoch demo_council_shares d(2) demo_nonces_def nonces_ok_def)
  then show ?thesis using tl_live_Verify [OF t(1)] by blast
qed

lemma demo_recovers:
  obtains ss t gp r c' where "dealt_council zprims zcurve gp (demo_council ss)" "length ss = 3" "recoverable zprims t 1 [''c9''] [''bob'']"
    "tl_algo t = algoSHA256" "tl_council t = Some gp"
    "Recover zprims zcurve (\<lambda>k cn. Some k) (Some (replicate 32 7)) demo_nonces (demo_council ss) t (Some demo_evidence) 2 = (Inr r, c')"
    "fold (fold_event zprims) (take (nat 1) (tl_events t)) [] = []"
proof -
  obtain ss gp where d: "dealt_council zprims zcurve gp (demo_council ss)" "length ss = 3" "length gp = 32" by (rule demo_council_dealt)
  obtain t e e' where t: "tl_live zprims t" "tl_events t = [e, e']" "tl_algo t = algoSHA256" "tl_council t = Some gp"
    "ev_Type e = EvPolicyChange" "ev_Type e' = EvIssue" "ev_Payload e' = Some (json_text zprims (ip_json demo_fraud))"
    by (rule demo_chain [OF d(3)])
  note r = demo_recoverable [OF t(1,2,5-7)]
  have f: "fold (fold_event zprims) (take (nat 1) (tl_events t)) [] = []" using t(2,5) by (simp add: fold_event_def)
  obtain r c' where "Recover zprims zcurve (\<lambda>k cn. Some k) (Some (replicate 32 7)) demo_nonces (demo_council ss) t (Some demo_evidence) 2 = (Inr r, c')"
    by (rule recover_run [OF zcurve_ok zprims_verify zprims_ok d(1) _ _ _ r t(4) demo_evidence,
          where sd = "replicate 32 7" and ca = "\<lambda>k cn. Some k" and rs = demo_nonces and mn = 2])
      (simp_all add: demo_epoch demo_council_shares d(2) demo_nonces_def nonces_ok_def)
  then show ?thesis using d(1,2) r t(3,4) f by (intro that) assumption+
qed

theorem recovered_trust_witness:
  "\<exists>ss t r c'. Recover zprims zcurve (\<lambda>k cn. Some k) (Some (replicate 32 7)) demo_nonces (demo_council ss) t (Some demo_evidence) 2 = (Inr r, c')
     \<and> Pass (Some (rr_Verify r)) \<and> map_of (Fold zprims (rr_Timeline r)) (reissue_id 0 ''bob'') = Some \<lparr>Identity = ''bob'', Revoked = False\<rparr>"
proof -
  obtain ss t gp r c' where d: "dealt_council zprims zcurve gp (demo_council ss)" "length ss = 3" "recoverable zprims t 1 [''c9''] [''bob'']"
    "tl_algo t = algoSHA256" "tl_council t = Some gp"
    "Recover zprims zcurve (\<lambda>k cn. Some k) (Some (replicate 32 7)) demo_nonces (demo_council ss) t (Some demo_evidence) 2 = (Inr r, c')"
    "fold (fold_event zprims) (take (nat 1) (tl_events t)) [] = []" by (rule demo_recovers)
  have h: "0 \<le> co_epoch (demo_council ss)" "co_epoch (demo_council ss) < 2 ^ 63 - 1" "2 \<le> int (length (shares (demo_council ss)))"
    "length (replicate 32 (7 :: byte)) = 32" "\<forall>(k :: bytes) (cn :: string). Some k \<noteq> None" "nonces_ok demo_nonces (length (shares (demo_council ss)))"
    by (simp_all add: demo_epoch demo_council_shares d(2) demo_nonces_def nonces_ok_def)
  from recovered_trust [OF zcurve_ok zprims_verify zprims_ok d(1) h(1-3) d(3-5) demo_evidence h(4-6) d(6)] d(7)
  have "Pass (Some (rr_Verify r)) \<and> map_of (Fold zprims (rr_Timeline r)) (reissue_id 0 ''bob'')
      = Some \<lparr>Identity = ''bob'', Revoked = (reissue_id 0 ''bob'' \<in> set [''c9''])\<rparr>" by (simp add: demo_epoch)
  moreover have "reissue_id 0 ''bob'' \<noteq> ''c9''" by (simp add: reissue_id_def)
  ultimately show ?thesis using d(6) by auto
qed

theorem recover_safe_witness:
  "\<exists>ss t r c' gp. Recover zprims zcurve (\<lambda>k cn. Some k) (Some (replicate 32 7)) demo_nonces (demo_council ss) t (Some demo_evidence) 2 = (Inr r, c')
     \<and> fc_Valid zprims (rr_Commit r) gp 2"
proof -
  obtain ss t gp r c' where "Recover zprims zcurve (\<lambda>k cn. Some k) (Some (replicate 32 7)) demo_nonces (demo_council ss) t (Some demo_evidence) 2 = (Inr r, c')"
    by (rule demo_recovers) blast
  from recover_safe [OF this] this show ?thesis by blast
qed

end
