(* ===== verification/Float64.thy ===== *)
theory Float64
  imports TO_Prelude
begin

text \<open>
  Go's \<open>float64\<close> as the engine uses it: comparison, addition, subtraction, \<open>math.Max\<close> and conversion from
  integers.  A finite value is a rational; the rounding of a result is the parameter \<open>rnd\<close> (IEEE 754
  round-to-nearest, which may overflow to an infinity), with the laws \<open>round_ok\<close> the theorems rely on.
  The sign of zero is not kept: no operation of the engine observes it.
\<close>

datatype f64 = NaN | PInf | NInf | Fin rat

fun f_lt :: "f64 \<Rightarrow> f64 \<Rightarrow> bool" where
  "f_lt (Fin a) (Fin b) \<longleftrightarrow> a < b"
| "f_lt NaN _ \<longleftrightarrow> False"
| "f_lt _ NaN \<longleftrightarrow> False"
| "f_lt NInf NInf \<longleftrightarrow> False"
| "f_lt NInf _ \<longleftrightarrow> True"
| "f_lt PInf _ \<longleftrightarrow> False"
| "f_lt (Fin _) PInf \<longleftrightarrow> True"
| "f_lt (Fin _) NInf \<longleftrightarrow> False"

fun f_le :: "f64 \<Rightarrow> f64 \<Rightarrow> bool" where
  "f_le (Fin a) (Fin b) \<longleftrightarrow> a \<le> b"
| "f_le NaN _ \<longleftrightarrow> False"
| "f_le _ NaN \<longleftrightarrow> False"
| "f_le NInf _ \<longleftrightarrow> True"
| "f_le _ PInf \<longleftrightarrow> True"
| "f_le PInf _ \<longleftrightarrow> False"
| "f_le (Fin _) NInf \<longleftrightarrow> False"

type_synonym rounding = "rat \<Rightarrow> f64"

fun f_neg :: "f64 \<Rightarrow> f64" where
  "f_neg NaN = NaN"
| "f_neg PInf = NInf"
| "f_neg NInf = PInf"
| "f_neg (Fin a) = Fin (- a)"

fun f_add :: "rounding \<Rightarrow> f64 \<Rightarrow> f64 \<Rightarrow> f64" where
  "f_add rnd (Fin a) (Fin b) = rnd (a + b)"
| "f_add rnd NaN _ = NaN"
| "f_add rnd _ NaN = NaN"
| "f_add rnd PInf NInf = NaN"
| "f_add rnd NInf PInf = NaN"
| "f_add rnd PInf _ = PInf"
| "f_add rnd _ PInf = PInf"
| "f_add rnd NInf _ = NInf"
| "f_add rnd _ NInf = NInf"

definition f_sub :: "rounding \<Rightarrow> f64 \<Rightarrow> f64 \<Rightarrow> f64" where
  "f_sub rnd a b = f_add rnd a (f_neg b)"

fun f_sgn :: "f64 \<Rightarrow> rat" where
  "f_sgn NaN = 0"
| "f_sgn PInf = 1"
| "f_sgn NInf = - 1"
| "f_sgn (Fin a) = sgn a"

definition f_mul :: "rounding \<Rightarrow> f64 \<Rightarrow> f64 \<Rightarrow> f64" where
  "f_mul rnd a b = (case (a, b) of
     (Fin x, Fin y) \<Rightarrow> rnd (x * y)
   | _ \<Rightarrow> if f_sgn a * f_sgn b = 0 then NaN else if 0 < f_sgn a * f_sgn b then PInf else NInf)"

text \<open>\<open>math.Max(0, x)\<close> and \<open>float64(n)\<close>.\<close>

definition f_max0 :: "f64 \<Rightarrow> f64" where
  "f_max0 x = (case x of PInf \<Rightarrow> PInf | NaN \<Rightarrow> NaN | NInf \<Rightarrow> Fin 0 | Fin q \<Rightarrow> Fin (max 0 q))"

definition f_of_int :: "rounding \<Rightarrow> int \<Rightarrow> f64" where
  "f_of_int rnd n = rnd (of_int n)"

text \<open>Rounding keeps the order, represents the integers below \<open>2 ^ 53\<close> exactly, and never gives NaN.\<close>

definition round_ok :: "rounding \<Rightarrow> bool" where
  "round_ok rnd \<longleftrightarrow> (\<forall>a b. a \<le> b \<longrightarrow> f_le (rnd a) (rnd b)) \<and> (\<forall>n :: int. \<bar>n\<bar> \<le> 2 ^ 53 \<longrightarrow> rnd (of_int n) = Fin (of_int n))
     \<and> (\<forall>a. rnd a \<noteq> NaN)"

lemma round_ok_exact: "round_ok Fin"
  by (simp add: round_ok_def)

lemma round_int: "round_ok rnd \<Longrightarrow> \<bar>n\<bar> \<le> 2 ^ 53 \<Longrightarrow> rnd (of_int n) = Fin (of_int n)"
  by (simp add: round_ok_def)

lemma round_numeral:
  assumes "round_ok rnd"
  shows "rnd 0 = Fin 0" "rnd 1 = Fin 1"
  using round_int [OF assms, of 0] round_int [OF assms, of 1] by simp_all

lemma round_mono: "round_ok rnd \<Longrightarrow> a \<le> b \<Longrightarrow> f_le (rnd a) (rnd b)"
  by (simp add: round_ok_def)

lemma f_le_trans: "f_le a b \<Longrightarrow> f_le b c \<Longrightarrow> f_le a c"
  by (cases a; cases b; cases c) auto

end
