(* ===== verification/Ensemble.thy ===== *)
theory Ensemble
  imports Float64 Council
begin

text \<open>
  Detection: the fusion rule (\<open>ensemble.go\<close>), the CUSUM detector (\<open>detect.go\<close>), the five watchdogs
  (\<open>watchdogs.go\<close>) and the auditor plane (\<open>audit.go\<close>).  The timeline and the auditor log a watchdog holds
  pointers to are arguments of its operations.  \<open>fmt2\<close> is the \<open>%.2f\<close> form of a float and \<open>qt\<close> the
  \<open>%q\<close> form of a string (package fmt).
\<close>

section \<open>The fusion rule\<close>

record Score =
  s_NodeID :: string
  s_Score :: f64
  s_PValue :: f64
  s_Evidence :: bytes

definition Detect :: "Score list \<Rightarrow> f64 \<Rightarrow> int \<Rightarrow> bool" where
  "Detect scores threshold quorum \<longleftrightarrow> quorum \<le> int (length (filter (\<lambda>s. f_lt (s_Score s) threshold) scores))"

section \<open>CUSUM\<close>

record CUSUM =
  cu_mu0 :: f64
  cu_delta :: f64
  cu_h :: f64
  cu_S :: f64

definition NewCUSUM :: "f64 \<Rightarrow> f64 \<Rightarrow> f64 \<Rightarrow> CUSUM" where
  "NewCUSUM mu0 delta h = \<lparr>cu_mu0 = mu0, cu_delta = delta, cu_h = h, cu_S = Fin 0\<rparr>"

definition Alarmed :: "CUSUM \<Rightarrow> bool" where
  "Alarmed c \<longleftrightarrow> f_le (cu_h c) (cu_S c)"

definition Observe :: "rounding \<Rightarrow> f64 \<Rightarrow> CUSUM \<Rightarrow> bool \<times> CUSUM" where
  "Observe rnd x c =
     (let c' = c\<lparr>cu_S := f_max0 (f_sub rnd (f_add rnd (cu_S c) (f_sub rnd x (cu_mu0 c))) (cu_delta c))\<rparr>
      in (f_le (cu_h c') (cu_S c'), c'))"

section \<open>The auditor plane\<close>

record AuditorLog =
  al_events :: "TrustEvent list"
  al_head :: slice
  al_algo :: hashAlgo

definition NewAuditorLog :: "hashAlgo \<Rightarrow> AuditorLog" where
  "NewAuditorLog algo = \<lparr>al_events = [], al_head = None, al_algo = algo\<rparr>"

definition Mirror :: "prims \<Rightarrow> TrustEvent \<Rightarrow> AuditorLog \<Rightarrow> AuditorLog" where
  "Mirror P e a = a\<lparr>al_events := al_events a @ [e], al_head := Some (ev_Hash P e)\<rparr>"

fun al_links :: "prims \<Rightarrow> hashAlgo \<Rightarrow> TrustEvent option \<Rightarrow> TrustEvent list \<Rightarrow> bool" where
  "al_links P algo prev [] \<longleftrightarrow> True"
| "al_links P algo prev (e # es) \<longleftrightarrow>
     (case prev of
        None \<Rightarrow> ev_ParentHash e = None
      | Some p \<Rightarrow> bytes_equal (ev_ParentHash e) (Some (hashWith P algo (ev_blob P p))))
     \<and> al_links P algo (Some e) es"

definition al_Verify :: "prims \<Rightarrow> AuditorLog \<Rightarrow> bool" where
  "al_Verify P a \<longleftrightarrow> al_links P (al_algo a) None (al_events a)"

definition count_key :: "string \<Rightarrow> (string \<times> int) list \<Rightarrow> (string \<times> int) list" where
  "count_key k m = AList.update k (case map_of m k of None \<Rightarrow> 1 | Some n \<Rightarrow> n + 1) m"

definition policy_counts :: "prims \<Rightarrow> TrustEvent list \<Rightarrow> (string \<times> int) list" where
  "policy_counts P es = fold (\<lambda>e m. case issue_of P e of None \<Rightarrow> m | Some p \<Rightarrow> count_key (ip_Identity p) m) es []"

definition CheckPolicy :: "prims \<Rightarrow> TrustEvent list \<Rightarrow> int \<Rightarrow> string list" where
  "CheckPolicy P es maxIssues = List.map_filter (\<lambda>(k, n).
     if maxIssues < n then Some (k @ '': '' @ fmt_int n @ '' issues > '' @ fmt_int maxIssues) else None) (policy_counts P es)"

record Escalation =
  esc_AuditorIDs :: "string list"
  esc_Target :: string
  esc_Reason :: string

definition distinctIDs :: "string list \<Rightarrow> string list" where
  "distinctIDs ids = fold add_key ids []"

definition DetectEscalated :: "Score list \<Rightarrow> Escalation \<Rightarrow> int \<Rightarrow> f64 \<Rightarrow> int \<Rightarrow> bool" where
  "DetectEscalated scores esc minAuditors threshold quorum \<longleftrightarrow>
     (if minAuditors \<le> int (length (distinctIDs (esc_AuditorIDs esc)))
         \<and> (\<exists>s \<in> set scores. s_NodeID s = esc_Target esc \<and> f_lt (s_Score s) threshold) then True
      else Detect scores threshold quorum)"

section \<open>The watchdogs\<close>

abbreviation WDIssuanceRate :: string where "WDIssuanceRate \<equiv> ''rate_cusum''"
abbreviation WDLogIntegrity :: string where "WDLogIntegrity \<equiv> ''log_integrity''"
abbreviation WDGraphAnomaly :: string where "WDGraphAnomaly \<equiv> ''graph_anomaly''"
abbreviation WDExternalProbe :: string where "WDExternalProbe \<equiv> ''external_probe''"
abbreviation WDBehaviorBaseline :: string where "WDBehaviorBaseline \<equiv> ''behavior_baseline''"

record Watchdog =
  wd_ID :: string
  wd_Kind :: string
  wd_delta :: f64
  wd_h :: f64
  wd_cusum :: CUSUM
  wd_perID :: "(string \<times> CUSUM) list"
  wd_baseline :: "(string \<times> f64) list"
  wd_firstIdx :: int
  wd_badStart :: int
  wd_checked :: int
  wd_cycles :: int
  wd_cached :: "Score option"

text \<open>The code allocates the shared detector for the two kinds that read it.\<close>

definition NewWatchdogBaseline ::
  "string \<Rightarrow> string \<Rightarrow> f64 \<Rightarrow> f64 \<Rightarrow> f64 \<Rightarrow> (string \<times> f64) list \<Rightarrow> Watchdog" where
  "NewWatchdogBaseline ident kind mu0 delta h baseline =
     \<lparr>wd_ID = ident, wd_Kind = kind, wd_delta = delta, wd_h = h, wd_cusum = NewCUSUM mu0 delta h, wd_perID = [],
      wd_baseline = baseline, wd_firstIdx = 0, wd_badStart = - 1, wd_checked = - 1, wd_cycles = 0, wd_cached = None\<rparr>"

definition NewWatchdog :: "string \<Rightarrow> string \<Rightarrow> f64 \<Rightarrow> f64 \<Rightarrow> f64 \<Rightarrow> Watchdog" where
  "NewWatchdog ident kind mu0 delta h = NewWatchdogBaseline ident kind mu0 delta h []"

text \<open>The loop over the batch: issues, edges, and issues per identity.\<close>

definition count_event ::
  "prims \<Rightarrow> TrustEvent \<Rightarrow> int \<times> int \<times> (string \<times> int) list \<Rightarrow> int \<times> int \<times> (string \<times> int) list" where
  "count_event P e c = (case c of (n, edges, perID) \<Rightarrow>
     (if ev_Type e \<noteq> EvIssue then c
      else (case issue_of P e of
          None \<Rightarrow> (n + 1, edges, perID)
        | Some p \<Rightarrow> (n + 1, if ip_Via p \<noteq> [] then edges + 1 else edges,
            if ip_Identity p \<noteq> [] then count_key (ip_Identity p) perID else perID))))"

definition observeShift :: "CUSUM \<Rightarrow> int \<Rightarrow> Watchdog \<Rightarrow> Watchdog" where
  "observeShift c firstIdx w = (if f_lt (Fin 0) (cu_S c) \<and> wd_badStart w < 0 then w\<lparr>wd_badStart := firstIdx\<rparr> else w)"

definition observe_shared :: "rounding \<Rightarrow> int \<Rightarrow> int \<Rightarrow> Watchdog \<Rightarrow> Watchdog" where
  "observe_shared rnd n firstIdx w =
     (let c = snd (Observe rnd (f_of_int rnd n) (wd_cusum w)) in observeShift c firstIdx (w\<lparr>wd_cusum := c\<rparr>))"

definition observe_identity :: "rounding \<Rightarrow> int \<Rightarrow> string \<times> int \<Rightarrow> Watchdog \<Rightarrow> Watchdog" where
  "observe_identity rnd firstIdx kn w = (case kn of (k, n) \<Rightarrow>
     (let c0 = (case map_of (wd_perID w) k of Some c \<Rightarrow> c
          | None \<Rightarrow> NewCUSUM (case map_of (wd_baseline w) k of None \<Rightarrow> Fin 0 | Some m \<Rightarrow> m) (wd_delta w) (wd_h w));
          c = snd (Observe rnd (f_of_int rnd n) c0)
      in observeShift c firstIdx (w\<lparr>wd_perID := AList.update k c (wd_perID w)\<rparr>)))"

definition ObserveBatch :: "prims \<Rightarrow> rounding \<Rightarrow> TrustEvent list \<Rightarrow> int \<Rightarrow> Watchdog \<Rightarrow> Watchdog" where
  "ObserveBatch P rnd events firstIdx w =
     (let w0 = w\<lparr>wd_cached := None, wd_firstIdx := firstIdx\<rparr>;
          (n, edges, perID) = fold (count_event P) events (0, 0, [])
      in if wd_Kind w = WDIssuanceRate then observe_shared rnd n firstIdx w0
         else if wd_Kind w = WDGraphAnomaly then observe_shared rnd edges firstIdx w0
         else if wd_Kind w = WDBehaviorBaseline then fold (observe_identity rnd firstIdx) perID w0
         else w0)"

text \<open>The delta scan of W2 from index \<open>i\<close>, with the event before it; -1 where no event fails.\<close>

fun delta_scan :: "prims \<Rightarrow> Timeline \<Rightarrow> int \<Rightarrow> TrustEvent option \<Rightarrow> TrustEvent list \<Rightarrow> int" where
  "delta_scan P t i prev [] = - 1"
| "delta_scan P t i prev (e # es) =
     (if prev \<noteq> None \<and> \<not> bytes_equal (ev_ParentHash e) (Some (eventDigest P t (the prev))) then i
      else if \<not> ed_verify P (tl_pub t) (canonical P e) (ev_sig e) then i
      else delta_scan P t (i + 1) (Some e) es)"

definition scan_from :: "prims \<Rightarrow> Timeline \<Rightarrow> int \<Rightarrow> int" where
  "scan_from P t checked = (let n = nat checked in
     delta_scan P t (int n) (if n = 0 \<or> length (tl_events t) < n then None else Some (tl_events t ! (n - 1))) (drop n (tl_events t)))"

definition index_evidence :: "int \<Rightarrow> string" where
  "index_evidence i = ''{\"bad_index\":'' @ fmt_int i"

definition computeScore ::
  "prims \<Rightarrow> rounding \<Rightarrow> (f64 \<Rightarrow> string) \<Rightarrow> (string \<Rightarrow> string) \<Rightarrow> Timeline \<Rightarrow> AuditorLog option \<Rightarrow> Watchdog \<Rightarrow> Score \<times> Watchdog" where
  "computeScore P rnd fmt2 qt t mirror w =
     (let (alarm, evidence, w') =
        (if wd_Kind w = WDIssuanceRate \<or> wd_Kind w = WDGraphAnomaly then
           (if Alarmed (wd_cusum w)
            then (True, index_evidence (wd_badStart w) @ '',\"S\":'' @ fmt2 (cu_S (wd_cusum w)) @ ''}'', w) else (False, [], w))
         else if wd_Kind w = WDLogIntegrity then
           (let w1 = w\<lparr>wd_cycles := wrap64 (wd_cycles w + 1), wd_checked := (if wd_checked w < 0 then 0 else wd_checked w)\<rparr>;
                bad = (if wd_cycles w1 mod 10 = 0 then LocateBadEvent P t else scan_from P t (wd_checked w1))
            in if 0 \<le> bad then (True, index_evidence bad @ ''}'', w1\<lparr>wd_badStart := bad\<rparr>)
               else (False, [], w1\<lparr>wd_checked := int (length (tl_events t))\<rparr>))
         else if wd_Kind w = WDExternalProbe then
           (case mirror of
              None \<Rightarrow> (False, [], w)
            | Some a \<Rightarrow>
                if bytes_equal (Head P t) (al_head a) then (False, [], w)
                else (let i = int (length (al_events a)) in
                  (True, index_evidence i @ '',\"local\":'' @ hex_encode (slice_bytes (Head P t)) @ '',\"mirror\":''
                     @ hex_encode (slice_bytes (al_head a)) @ ''}'', w\<lparr>wd_badStart := i\<rparr>)))
         else if wd_Kind w = WDBehaviorBaseline then
           (case find (\<lambda>(k, c). Alarmed c) (wd_perID w) of
              None \<Rightarrow> (False, [], w)
            | Some (k, c) \<Rightarrow> (True, index_evidence (wd_badStart w) @ '',\"identity\":'' @ qt k @ '',\"S\":'' @ fmt2 (cu_S c) @ ''}'', w))
         else (False, [], w))
      in (\<lparr>s_NodeID = wd_ID w, s_Score = Fin (if alarm then 0 else 100), s_PValue = (if alarm then rnd (1 / 100) else Fin 1),
           s_Evidence = str_bytes evidence\<rparr>, w'))"

definition wd_Score ::
  "prims \<Rightarrow> rounding \<Rightarrow> (f64 \<Rightarrow> string) \<Rightarrow> (string \<Rightarrow> string) \<Rightarrow> Timeline \<Rightarrow> AuditorLog option \<Rightarrow> Watchdog \<Rightarrow> Score \<times> Watchdog" where
  "wd_Score P rnd fmt2 qt t mirror w = (case wd_cached w of
     Some s \<Rightarrow> (s, w)
   | None \<Rightarrow> (let (s, w') = computeScore P rnd fmt2 qt t mirror w in (s, w'\<lparr>wd_cached := Some s\<rparr>)))"

end
