(* ===== verification/EnsembleProps.thy ===== *)
theory EnsembleProps
  imports Ensemble CouncilProps
begin

text \<open>
  What detection promises: how many watchdogs can lie to the fusion rule, when the rate watchdog alarms (the
  suffix form of CUSUM), what the log watchdog catches and when it errs, and what the mirror sees.
\<close>

section \<open>Fusion\<close>

definition low_at :: "f64 \<Rightarrow> Score list \<Rightarrow> nat set" where
  "low_at th xs = {i. i < length xs \<and> f_lt (s_Score (xs ! i)) th}"

lemma Detect_card: "Detect xs th q \<longleftrightarrow> q \<le> int (card (low_at th xs))"
  by (simp add: Detect_def low_at_def length_filter_conv_card)

lemma finite_low [simp]: "finite (low_at th xs)"
  by (simp add: low_at_def)

text \<open>
  C19: let the watchdogs at the positions B report anything instead of their true scores.  A quorum of low
  scores outside B detects whatever B says; fewer than a quorum of low scores outside B, even counting all of B, do not.
  A NaN score is never low.
\<close>

theorem detect_byzantine:
  assumes "length ys = length xs" "\<forall>i < length xs. i \<notin> B \<longrightarrow> ys ! i = xs ! i" "B \<subseteq> {..<length xs}"
  shows "(q \<le> int (card (low_at th xs - B)) \<longrightarrow> Detect ys th q)
    \<and> (int (card (low_at th xs - B) + card B) < q \<longrightarrow> \<not> Detect ys th q)
    \<and> (\<forall>s \<in> set ys. s_Score s = NaN \<longrightarrow> \<not> f_lt (s_Score s) th)"
proof -
  have same: "low_at th ys - B = low_at th xs - B" using assms(1,2) by (auto simp: low_at_def)
  have fin: "finite B" using assms(3) finite_subset by blast
  have "card (low_at th xs - B) \<le> card (low_at th ys)" unfolding same [symmetric] by (intro card_mono) auto
  moreover have "card (low_at th ys) \<le> card ((low_at th ys - B) \<union> B)" using fin by (intro card_mono) auto
  moreover have "card ((low_at th ys - B) \<union> B) \<le> card (low_at th xs - B) + card B" unfolding same by (rule card_Un_le)
  ultimately show ?thesis by (auto simp: Detect_card)
qed

text \<open>Three of five agreeing watchdogs, and two liars.\<close>

theorem detect_byzantine_witness:
  "Detect [\<lparr>s_NodeID = ''a'', s_Score = Fin 0, s_PValue = Fin 1, s_Evidence = []\<rparr>, \<lparr>s_NodeID = ''b'', s_Score = NaN, s_PValue = Fin 1, s_Evidence = []\<rparr>]
     (Fin 50) 1"
  using detect_byzantine [of "[\<lparr>s_NodeID = ''a'', s_Score = Fin 0, s_PValue = Fin 1, s_Evidence = []\<rparr>, \<lparr>s_NodeID = ''b'', s_Score = NaN, s_PValue = Fin 1, s_Evidence = []\<rparr>]"
      "[\<lparr>s_NodeID = ''a'', s_Score = Fin 0, s_PValue = Fin 1, s_Evidence = []\<rparr>, \<lparr>s_NodeID = ''b'', s_Score = Fin 9, s_PValue = Fin 1, s_Evidence = []\<rparr>]"
      "{1}" 1 "Fin 50"]
  by (simp add: low_at_def less_Suc_eq nth_Cons' Detect_def)

section \<open>CUSUM\<close>

text \<open>The accumulated drift, and a run of the detector in which no result is rounded.\<close>

fun drift :: "rat \<Rightarrow> rat list \<Rightarrow> rat" where
  "drift s [] = s"
| "drift s (d # ds) = drift (max 0 (s + d)) ds"

fun exact_run :: "rounding \<Rightarrow> rat \<Rightarrow> rat \<Rightarrow> rat \<Rightarrow> int list \<Rightarrow> bool" where
  "exact_run rnd mu de s [] \<longleftrightarrow> True"
| "exact_run rnd mu de s (n # ns) \<longleftrightarrow> rnd (of_int n) = Fin (of_int n) \<and> rnd (of_int n - mu) = Fin (of_int n - mu)
     \<and> rnd (s + (of_int n - mu)) = Fin (s + (of_int n - mu)) \<and> rnd (s + (of_int n - mu) - de) = Fin (s + (of_int n - mu) - de)
     \<and> exact_run rnd mu de (max 0 (s + (of_int n - mu - de))) ns"

lemma drift_snoc: "drift s (ds @ [d]) = max 0 (drift s ds + d)"
  by (induction ds arbitrary: s) auto

lemma drift_suffix: "h \<le> drift 0 ds \<longleftrightarrow> (\<exists>k \<le> length ds. h \<le> sum_list (drop k ds))"
proof -
  have ge: "k \<le> length ds \<Longrightarrow> sum_list (drop k ds) \<le> drift 0 ds" for k
  proof (induction ds arbitrary: k rule: rev_induct)
    case (snoc d ds)
    show ?case
    proof (cases "k \<le> length ds")
      case True
      then have "sum_list (drop k ds) + d \<le> drift 0 ds + d" using snoc.IH by simp
      then show ?thesis using True by (simp add: drift_snoc le_max_iff_disj)
    next
      case False
      then show ?thesis using snoc.prems by (simp add: drift_snoc)
    qed
  qed simp
  have ex: "\<exists>k \<le> length ds. sum_list (drop k ds) = drift 0 ds"
  proof (induction ds rule: rev_induct)
    case (snoc d ds)
    then obtain k where k: "k \<le> length ds" "sum_list (drop k ds) = drift 0 ds" by blast
    show ?case
    proof (cases "0 \<le> drift 0 ds + d")
      case True
      then show ?thesis using k by (intro exI [of _ k]) (simp add: drift_snoc max_def)
    next
      case False
      then show ?thesis by (intro exI [of _ "Suc (length ds)"]) (simp add: drift_snoc max_def)
    qed
  qed simp
  show ?thesis using ge ex by (metis order.trans)
qed

text \<open>The rate watchdog over a sequence of batches: its detector has run over the issue counts.\<close>

definition issue_count :: "TrustEvent list \<Rightarrow> int" where
  "issue_count es = int (length (filter (\<lambda>e. ev_Type e = EvIssue) es))"

lemma count_events: "fst (fold (count_event P) es (n, m, l)) = n + issue_count es"
proof (induction es arbitrary: n m l)
  case (Cons e es)
  obtain n' m' l' where c: "count_event P e (n, m, l) = (n', m', l')" by (metis prod_cases3)
  then have "n' = n + issue_count [e]" by (auto simp: count_event_def issue_count_def split: option.splits if_splits)
  then show ?case using Cons [of n' m' l'] by (simp add: c issue_count_def)
qed (simp add: issue_count_def)

lemma Observe_exact:
  assumes "exact_run rnd mu de s (n # ns)" "cu_mu0 c = Fin mu" "cu_delta c = Fin de" "cu_S c = Fin s"
  shows "cu_S (snd (Observe rnd (f_of_int rnd n) c)) = Fin (max 0 (s + (of_int n - mu - de)))"
    "cu_mu0 (snd (Observe rnd (f_of_int rnd n) c)) = Fin mu" "cu_delta (snd (Observe rnd (f_of_int rnd n) c)) = Fin de"
    "cu_h (snd (Observe rnd (f_of_int rnd n) c)) = cu_h c"
  using assms by (simp_all add: Observe_def Let_def f_of_int_def f_sub_def f_max0_def algebra_simps)

lemma observe_rate:
  assumes "wd_Kind w = WDIssuanceRate"
  shows "wd_cusum (ObserveBatch P rnd es i w) = snd (Observe rnd (f_of_int rnd (issue_count es)) (wd_cusum w))"
    "wd_Kind (ObserveBatch P rnd es i w) = wd_Kind w" "wd_cached (ObserveBatch P rnd es i w) = None"
  using count_events [of P es 0 0 "[]"] assms
  by (auto simp: ObserveBatch_def observe_shared_def observeShift_def Let_def split: prod.splits)

lemma rate_run:
  assumes "wd_Kind w = WDIssuanceRate" "cu_mu0 (wd_cusum w) = Fin mu" "cu_delta (wd_cusum w) = Fin de" "cu_S (wd_cusum w) = Fin s"
    and "exact_run rnd mu de s (map (\<lambda>b. issue_count (fst b)) bs)"
  shows "cu_S (wd_cusum (fold (\<lambda>b w. ObserveBatch P rnd (fst b) (snd b) w) bs w)) = Fin (drift s (map (\<lambda>b. of_int (issue_count (fst b)) - mu - de) bs))
    \<and> cu_h (wd_cusum (fold (\<lambda>b w. ObserveBatch P rnd (fst b) (snd b) w) bs w)) = cu_h (wd_cusum w)
    \<and> wd_Kind (fold (\<lambda>b w. ObserveBatch P rnd (fst b) (snd b) w) bs w) = WDIssuanceRate"
  using assms
proof (induction bs arbitrary: w s)
  case (Cons b bs)
  note O = Observe_exact [OF Cons.prems(5) [unfolded list.map] Cons.prems(2-4)]
  note W = observe_rate [OF Cons.prems(1), of P rnd "fst b" "snd b"]
  have "exact_run rnd mu de (max 0 (s + (of_int (issue_count (fst b)) - mu - de))) (map (\<lambda>b. issue_count (fst b)) bs)" using Cons.prems(5) by simp
  from Cons.IH [of "ObserveBatch P rnd (fst b) (snd b) w", OF _ _ _ _ this] show ?case
    using O W Cons.prems(1) by simp
qed simp

text \<open>
  C20: as long as no intermediate result is rounded, the rate watchdog scores 0 exactly when the batches since
  some point issued more certificates than the baseline and the tolerated shift allow, by at least the bound h; otherwise
  it scores 100.  Asking again gives the same score and changes nothing.
\<close>

theorem rate_watchdog:
  fixes P :: prims and bs :: "(TrustEvent list \<times> int) list" and ident :: string and h :: rat
  assumes "bs \<noteq> []" "exact_run rnd mu de 0 (map (\<lambda>b. issue_count (fst b)) bs)"
  defines "w \<equiv> fold (\<lambda>b w. ObserveBatch P rnd (fst b) (snd b) w) bs (NewWatchdog ident WDIssuanceRate (Fin mu) (Fin de) (Fin h))"
  shows "s_Score (fst (wd_Score P rnd fmt2 qt t m w)) =
      (if \<exists>k \<le> length bs. h \<le> (\<Sum>b\<leftarrow>drop k bs. of_int (issue_count (fst b)) - mu - de) then Fin 0 else Fin 100)
    \<and> wd_Score P rnd fmt2 qt t m (snd (wd_Score P rnd fmt2 qt t m w)) = wd_Score P rnd fmt2 qt t m w"
proof -
  let ?w0 = "NewWatchdog ident WDIssuanceRate (Fin mu) (Fin de) (Fin h)"
  have r: "cu_S (wd_cusum w) = Fin (drift 0 (map (\<lambda>b. of_int (issue_count (fst b)) - mu - de) bs))" "cu_h (wd_cusum w) = Fin h"
    "wd_Kind w = WDIssuanceRate"
    unfolding w_def using rate_run [of ?w0 mu de 0 rnd bs P] assms(2)
    by (simp_all add: NewWatchdog_def NewWatchdogBaseline_def NewCUSUM_def)
  obtain b bs' where bs: "bs = bs' @ [b]" using assms(1) by (cases bs rule: rev_cases) auto
  have kind: "wd_Kind (fold (\<lambda>b w. ObserveBatch P rnd (fst b) (snd b) w) bs' ?w0) = WDIssuanceRate"
  proof -
    have "exact_run rnd mu de s (xs @ ys) \<Longrightarrow> exact_run rnd mu de s xs" for s xs ys by (induction xs arbitrary: s) auto
    then have "exact_run rnd mu de 0 (map (\<lambda>b. issue_count (fst b)) bs')" using assms(2) by (simp add: bs)
    then show ?thesis using rate_run [of ?w0 mu de 0 rnd bs' P]
      by (simp add: NewWatchdog_def NewWatchdogBaseline_def NewCUSUM_def)
  qed
  have c: "wd_cached w = None" unfolding w_def bs using observe_rate(3) [OF kind] by simp
  have al: "Alarmed (wd_cusum w) \<longleftrightarrow> (\<exists>k \<le> length bs. h \<le> (\<Sum>b\<leftarrow>drop k bs. of_int (issue_count (fst b)) - mu - de))"
    using drift_suffix [of h "map (\<lambda>b. of_int (issue_count (fst b)) - mu - de) bs"] by (simp add: Alarmed_def r drop_map)
  obtain s w' where cs: "computeScore P rnd fmt2 qt t m w = (s, w')" by fastforce
  then have "s_Score s = (if Alarmed (wd_cusum w) then Fin 0 else Fin 100)"
    using r(3) by (auto simp: computeScore_def Let_def split: if_splits)
  then show ?thesis unfolding al [symmetric] by (simp add: wd_Score_def c cs)
qed

definition issue_ev :: TrustEvent where
  "issue_ev = ev_zero\<lparr>ev_Type := EvIssue\<rparr>"

theorem rate_watchdog_witness:
  "s_Score (fst (wd_Score toy Fin (\<lambda>x. []) (\<lambda>x. x) demo1 None (ObserveBatch toy Fin [issue_ev, issue_ev] 0 (NewWatchdog ''w'' WDIssuanceRate (Fin 0) (Fin 1) (Fin 1))))) = Fin 0"
proof -
  have c: "issue_count [issue_ev, issue_ev] = 2" by (simp add: issue_count_def issue_ev_def ev_zero_def)
  then have e: "\<exists>k \<le> length [([issue_ev, issue_ev], 0 :: int)]. (1 :: rat) \<le> (\<Sum>b\<leftarrow>drop k [([issue_ev, issue_ev], 0 :: int)]. of_int (issue_count (fst b)) - 0 - 1)"
    by (intro exI [of _ 0]) simp
  have x: "exact_run Fin 0 1 0 (map (\<lambda>b. issue_count (fst b)) [([issue_ev, issue_ev], 0 :: int)])" by simp
  from rate_watchdog [of "[([issue_ev, issue_ev], 0)]" Fin 0 1 toy "\<lambda>x. []" "\<lambda>x. x" demo1 None "''w''" 1, OF _ x] e show ?thesis by simp
qed

section \<open>The log watchdog\<close>

text \<open>The scores of a watchdog over a sequence of cycles on one timeline.\<close>

fun watch_run ::
  "prims \<Rightarrow> rounding \<Rightarrow> (f64 \<Rightarrow> string) \<Rightarrow> (string \<Rightarrow> string) \<Rightarrow> Timeline \<Rightarrow> AuditorLog option \<Rightarrow> (TrustEvent list \<times> int) list \<Rightarrow> Watchdog \<Rightarrow> Score list" where
  "watch_run P rnd fmt2 qt t m [] w = []"
| "watch_run P rnd fmt2 qt t m (b # bs) w =
     (let (s, w') = wd_Score P rnd fmt2 qt t m (ObserveBatch P rnd (fst b) (snd b) w) in s # watch_run P rnd fmt2 qt t m bs w')"

text \<open>The index a cycle of W2 reports, and the cycle's score.\<close>

definition w2_bad :: "prims \<Rightarrow> Timeline \<Rightarrow> Watchdog \<Rightarrow> int" where
  "w2_bad P t w = (if wrap64 (wd_cycles w + 1) mod 10 = 0 then LocateBadEvent P t
     else scan_from P t (if wd_checked w < 0 then 0 else wd_checked w))"

lemma w2_cycle:
  assumes "wd_Kind w = WDLogIntegrity"
  obtains s w' where "wd_Score P rnd fmt2 qt t m (ObserveBatch P rnd es i w) = (s, w')" "wd_Kind w' = WDLogIntegrity"
    "wd_cycles w' = wrap64 (wd_cycles w + 1)"
    "s_Score s = (if 0 \<le> w2_bad P t w then Fin 0 else Fin 100)"
    "0 \<le> w2_bad P t w \<Longrightarrow> s_Evidence s = str_bytes (index_evidence (w2_bad P t w) @ ''}'')"
proof -
  let ?w = "ObserveBatch P rnd es i w"
  have o: "wd_Kind ?w = WDLogIntegrity" "wd_cached ?w = None" "wd_cycles ?w = wd_cycles w" "wd_checked ?w = wd_checked w"
    using assms by (simp_all add: ObserveBatch_def Let_def split: prod.splits)
  obtain s w' where c: "computeScore P rnd fmt2 qt t m ?w = (s, w')" by fastforce
  then have "wd_Kind w' = WDLogIntegrity" "wd_cycles w' = wrap64 (wd_cycles w + 1)"
    "s_Score s = (if 0 \<le> w2_bad P t w then Fin 0 else Fin 100)"
    "0 \<le> w2_bad P t w \<Longrightarrow> s_Evidence s = str_bytes (index_evidence (w2_bad P t w) @ ''}'')"
    using o by (auto simp: computeScore_def Let_def w2_bad_def split: if_splits)
  then show ?thesis using o(2) c by (intro that [of s "w'\<lparr>wd_cached := Some s\<rparr>"]) (simp_all add: wd_Score_def)
qed

lemma w2_run_catches:
  assumes "wd_Kind w = WDLogIntegrity" "0 \<le> wd_cycles w" "wd_cycles w + int (length bs) < 2 ^ 62" "0 \<le> LocateBadEvent P t"
    and "k < length bs" "(wd_cycles w + int k + 1) mod 10 = 0"
  shows "s_Score (watch_run P rnd fmt2 qt t m bs w ! k) = Fin 0
    \<and> s_Evidence (watch_run P rnd fmt2 qt t m bs w ! k) = str_bytes (index_evidence (LocateBadEvent P t) @ ''}'')"
  using assms
proof (induction bs arbitrary: w k)
  case (Cons b bs)
  obtain s w' where c: "wd_Score P rnd fmt2 qt t m (ObserveBatch P rnd (fst b) (snd b) w) = (s, w')" "wd_Kind w' = WDLogIntegrity"
    "wd_cycles w' = wrap64 (wd_cycles w + 1)" "s_Score s = (if 0 \<le> w2_bad P t w then Fin 0 else Fin 100)"
    "0 \<le> w2_bad P t w \<Longrightarrow> s_Evidence s = str_bytes (index_evidence (w2_bad P t w) @ ''}'')"
    by (rule w2_cycle [OF Cons.prems(1), of P rnd fmt2 qt t m "fst b" "snd b"]) (rule that; assumption)
  have w: "wrap64 (wd_cycles w + 1) = wd_cycles w + 1" using Cons.prems(2,3) by (intro wrap64_id) (simp add: int64_def)
  show ?case
  proof (cases k)
    case 0
    then have "w2_bad P t w = LocateBadEvent P t" using Cons.prems(6) by (simp add: w2_bad_def w)
    then show ?thesis using 0 c(1,4,5) Cons.prems(4) by simp
  next
    case (Suc j)
    have "(wd_cycles w' + int j + 1) mod 10 = 0" using Cons.prems(6) Suc by (simp add: c(3) [unfolded w] algebra_simps)
    from Cons.IH [OF c(2) _ _ Cons.prems(4) _ this] show ?thesis using Cons.prems(2,3,5) Suc c(1,3) w by simp
  qed
qed simp

text \<open>
  C21: a chain that does not verify is caught by the log watchdog within any ten consecutive cycles, whatever
  it had checked before: one of the ten scores is 0 and its evidence is the index of the first bad event.
\<close>

theorem w2_catches:
  assumes "wd_Kind w = WDLogIntegrity" "0 \<le> wd_cycles w" "wd_cycles w < 2 ^ 61" "\<not> tl_Verify P t" "length bs = 10"
  shows "\<exists>s \<in> set (watch_run P rnd fmt2 qt t m bs w). s_Score s = Fin 0
    \<and> s_Evidence s = str_bytes (index_evidence (LocateBadEvent P t) @ ''}'')"
proof -
  obtain q r where qr: "wd_cycles w = 10 * q + r" "0 \<le> r" "r < 10"
    by (rule that [of "wd_cycles w div 10" "wd_cycles w mod 10"]) simp_all
  define k where "k = nat (9 - r)"
  have "wd_cycles w + int k + 1 = 10 * (q + 1)" using qr by (simp add: k_def)
  moreover have "k < length bs" using qr assms(5) by (simp add: k_def)
  ultimately have k: "k < length bs" "(wd_cycles w + int k + 1) mod 10 = 0" by simp_all
  have l: "length (watch_run P rnd fmt2 qt t m bs w) = length bs" by (induction bs arbitrary: w) (auto split: prod.splits)
  have "0 \<le> LocateBadEvent P t" using assms(4) LocateBadEvent_range [of P t] by (auto simp: tl_Verify_def)
  moreover have "wd_cycles w + int (length bs) < 2 ^ 62" using assms(3,5) by simp
  ultimately have c: "s_Score (watch_run P rnd fmt2 qt t m bs w ! k) = Fin 0
    \<and> s_Evidence (watch_run P rnd fmt2 qt t m bs w ! k) = str_bytes (index_evidence (LocateBadEvent P t) @ ''}'')"
    using w2_run_catches [OF assms(1,2) _ _ k] by blast
  have "watch_run P rnd fmt2 qt t m bs w ! k \<in> set (watch_run P rnd fmt2 qt t m bs w)" using k(1) l by (intro nth_mem) simp
  with c show ?thesis by blast
qed

definition demo_tampered :: Timeline where
  "demo_tampered = demo0\<lparr>tl_events := [ev_zero\<lparr>ev_ParentHash := Some []\<rparr>]\<rparr>"

theorem w2_catches_witness:
  "\<exists>s \<in> set (watch_run toy Fin (\<lambda>x. []) (\<lambda>x. x) demo_tampered None (replicate 10 ([], 0)) (NewWatchdog ''w2'' WDLogIntegrity (Fin 0) (Fin 0) (Fin 0))).
     s_Score s = Fin 0"
proof -
  have "check_event P a c None pub (ev_zero\<lparr>ev_ParentHash := Some []\<rparr>) = None" for P a c pub by (simp add: check_event_def)
  then have "\<not> tl_Verify toy demo_tampered"
    by (simp add: tl_Verify_def LocateBadEvent_def walkVerify_def demo_tampered_def)
  from w2_catches [of "NewWatchdog ''w2'' WDLogIntegrity (Fin 0) (Fin 0) (Fin 0)", OF _ _ _ this, of "replicate 10 ([], 0)" Fin "\<lambda>x. []" "\<lambda>x. x" None]
  show ?thesis by (auto simp: NewWatchdog_def NewWatchdogBaseline_def)
qed

lemma delta_scan_ok:
  "walk_key P (tl_algo t) c prev (tl_pub t) es = Some p \<Longrightarrow> no_key_change es \<Longrightarrow> delta_scan P t i prev es = - 1"
proof (induction es arbitrary: prev i)
  case (Cons e es)
  have ne: "ev_Type e \<noteq> EvRecovery" "ev_Type e \<noteq> EvKeyRotate" "no_key_change es" using Cons.prems(2) by (auto simp: no_key_change_def)
  then have ck: "check_event P (tl_algo t) c prev (tl_pub t) e = (if prev = None \<and> ev_ParentHash e \<noteq> None then None
      else if prev \<noteq> None \<and> \<not> bytes_equal (ev_ParentHash e) (link_of P (tl_algo t) prev) then None
      else if ed_verify P (tl_pub t) (canonical P e) (ev_sig e) then Some (tl_pub t) else None)"
    by (simp add: check_event_def Let_def)
  obtain q where q: "check_event P (tl_algo t) c prev (tl_pub t) e = Some q" "walk_key P (tl_algo t) c (Some e) q es = Some p"
    using Cons.prems(1) by (auto split: option.splits)
  then have "q = tl_pub t" using ck by (auto split: if_splits)
  with q(2) Cons.IH [OF _ ne(3)] have "delta_scan P t (i + 1) (Some e) es = - 1" by simp
  then show ?case using q(1) ck by (cases prev) (auto simp: link_of_def eventDigest_def split: if_splits)
qed simp

lemma scan_quiet:
  assumes "tl_Verify P t" "no_key_change (tl_events t)" "tl_pub t = startPub t"
  shows "scan_from P t n = - 1"
proof (cases "length (tl_events t) < nat n")
  case False
  let ?xs = "take (nat n) (tl_events t)" and ?ys = "drop (nat n) (tl_events t)"
  obtain p where p: "walk_key P (tl_algo t) (tl_council t) None (tl_pub t) (?xs @ ?ys) = Some p"
    using assms(1,3) by (auto simp: tl_Verify_key chain_key_def)
  have nk: "no_key_change ?xs" "no_key_change ?ys" using assms(2) by (auto simp: no_key_change_def dest: in_set_takeD in_set_dropD)
  obtain q where q: "walk_key P (tl_algo t) (tl_council t) None (tl_pub t) ?xs = Some q"
    "walk_key P (tl_algo t) (tl_council t) (last_ev None ?xs) q ?ys = Some p"
    using p unfolding walk_key_append by (auto split: option.splits)
  have "q = tl_pub t" by (rule walk_key_none_changed [OF nk(1) q(1)])
  moreover have "last_ev None ?xs = (if nat n = 0 \<or> length (tl_events t) < nat n then None else Some (tl_events t ! (nat n - 1)))"
    using False by (cases "nat n") (auto simp: last_ev_def take_Suc_conv_app_nth)
  ultimately show ?thesis using delta_scan_ok [OF _ nk(2)] q(2) by (simp add: scan_from_def Let_def)
qed (simp add: scan_from_def Let_def)

text \<open>
  On a chain that verifies and changes no key the log watchdog never alarms, whatever it had checked before
  and however the batches fall.
\<close>

theorem w2_quiet:
  assumes "tl_Verify P t" "no_key_change (tl_events t)" "tl_pub t = startPub t" "wd_Kind w = WDLogIntegrity"
  shows "\<forall>s \<in> set (watch_run P rnd fmt2 qt t m bs w). s_Score s = Fin 100"
  using assms(4)
proof (induction bs arbitrary: w)
  case (Cons b bs)
  obtain s w' where c: "wd_Score P rnd fmt2 qt t m (ObserveBatch P rnd (fst b) (snd b) w) = (s, w')" "wd_Kind w' = WDLogIntegrity"
    "s_Score s = (if 0 \<le> w2_bad P t w then Fin 0 else Fin 100)"
    by (rule w2_cycle [OF Cons.prems, of P rnd fmt2 qt t m "fst b" "snd b"]) (rule that; assumption)
  have "w2_bad P t w = - 1" using assms(1) scan_quiet [OF assms(1-3)] by (simp add: w2_bad_def tl_Verify_def)
  then show ?case using c Cons.IH [OF c(2)] by simp
qed simp

theorem w2_quiet_witness:
  "\<forall>s \<in> set (watch_run toy Fin (\<lambda>x. []) (\<lambda>x. x) demo1 None (replicate 3 ([], 0)) (NewWatchdog ''w2'' WDLogIntegrity (Fin 0) (Fin 0) (Fin 0))).
     s_Score s = Fin 100"
proof -
  obtain e where e: "tl_events demo1 = [e]" "ev_Type e = EvIssue" using demo1_events by blast
  obtain h where h: "tl_append toy demo0 EvIssue (Some [1]) 10 = Inr (h, demo1)" using demo1(1) by blast
  have l: "tl_live toy demo1" using tl_step_live [OF toy_ok(3) tl_step.Appends [OF h] demo0(3)] by simp
  obtain x where d: "demo1 = demo0\<lparr>tl_events := tl_events demo0 @ [x]\<rparr>" by (rule tl_append_event [OF h demo0(2)]) auto
  have "tl_pub demo1 = startPub demo1"
    unfolding startPub_def d by (simp add: demo0_def newTimeline_def toy_key_def toy_sel)
  with e show ?thesis
    by (intro w2_quiet [OF tl_live_Verify [OF l]]) (simp_all add: no_key_change_def NewWatchdog_def NewWatchdogBaseline_def)
qed

text \<open>
  After an honest key rotation the log watchdog alarms on a chain that verifies: a cycle of the delta scan
  checks the rotation event, which the old key signed, under the new key.
\<close>

theorem w2_rotation:
  assumes "json_ok P" "tl_live P t" "RotateKey P t k' ts = Inr (h, t')" "ed_keypair P k'"
    and "\<not> ed_verify P (ed_public k') (canonical P (last (tl_events t'))) (ev_sig (last (tl_events t')))"
    and "wd_Kind w = WDLogIntegrity" "wd_checked w = int (length (tl_events t))" "wrap64 (wd_cycles w + 1) mod 10 \<noteq> 0"
  shows "tl_Verify P t' \<and> s_Score (fst (wd_Score P rnd fmt2 qt t' m (ObserveBatch P rnd es i w))) = Fin 0"
proof -
  have v: "tl_Verify P t'" by (rule tl_live_Verify [OF tl_step_live [OF assms(1) tl_step.Rotates [OF assms(3,4)] assms(2)]])
  obtain k where "tl_key t = Some k" using assms(2) by (auto simp: tl_live_def)
  from RotateKey_event [OF assms(3) this] obtain e where e: "tl_events t' = tl_events t @ [e]" by blast
  have p: "tl_pub t' = ed_public k'" using assms(3) by (auto simp: RotateKey_def split: option.splits if_splits sum.splits)
  have "0 \<le> scan_from P t' (int (length (tl_events t)))" using assms(5) e p by (auto simp: scan_from_def Let_def)
  then have "0 \<le> w2_bad P t' w" using assms(7,8) by (simp add: w2_bad_def)
  with w2_cycle [OF assms(6), of P rnd fmt2 qt t' m es i] v show ?thesis by (metis fst_conv)
qed

theorem w2_rotation_witness:
  "tl_Verify toy demo2 \<and> s_Score (fst (wd_Score toy Fin (\<lambda>x. []) (\<lambda>x. x) demo2 None
     (ObserveBatch toy Fin [] 1 ((NewWatchdog ''w2'' WDLogIntegrity (Fin 0) (Fin 0) (Fin 0))\<lparr>wd_checked := 1\<rparr>)))) = Fin 0"
proof -
  obtain h where h: "RotateKey toy demo1 (toy_key 2) 20 = Inr (h, demo2)" using demo2 by blast
  obtain h' where h': "tl_append toy demo0 EvIssue (Some [1]) 10 = Inr (h', demo1)" using demo1(1) by blast
  have l: "tl_live toy demo1" using tl_step_live [OF toy_ok(3) tl_step.Appends [OF h'] demo0(3)] by simp
  obtain t1 where t1: "tl_append toy demo1 EvKeyRotate (Some (json_text toy (rotate_json toy (ed_public (toy_key 2))))) 20 = Inr (h, t1)"
    and d2: "demo2 = t1\<lparr>tl_rotations := tl_rotations t1 @ [(length (tl_events t1) - 1, toy_key 1)], tl_key := Some (toy_key 2), tl_pub := ed_public (toy_key 2)\<rparr>"
    using h demo1(2) by (auto simp: RotateKey_def split: sum.splits if_splits)
  obtain e where t1e: "t1 = demo1\<lparr>tl_events := tl_events demo1 @ [e]\<rparr>" and sig: "ev_sig e = ed_sign toy (toy_key 1) (canonical toy e)"
    by (rule tl_append_event [OF t1 demo1(2)]) (rule that; assumption)
  have "tl_events demo2 = tl_events demo1 @ [e]" unfolding d2 t1e by simp
  with sig have e: "last (tl_events demo2) = e" "ev_sig e = ed_sign toy (toy_key 1) (canonical toy e)" by simp_all
  have n: "\<not> ed_verify toy (ed_public (toy_key 2)) (canonical toy e) (ev_sig e)"
    unfolding e(2) by (simp add: toy_sel toy_key_def ed_public_def pad_def)
  obtain x where "tl_events demo1 = [x]" using demo1_events by blast
  with n show ?thesis unfolding e(1) [symmetric]
    by (intro w2_rotation [OF toy_ok(3) l h toy_key_pair]) (simp_all add: NewWatchdog_def NewWatchdogBaseline_def wrap64_def)
qed

section \<open>The auditor mirror\<close>

definition mirror_of :: "prims \<Rightarrow> Timeline \<Rightarrow> AuditorLog" where
  "mirror_of P t = fold (Mirror P) (tl_events t) (NewAuditorLog (tl_algo t))"

lemma mirror_fold:
  "al_events (fold (Mirror P) es a) = al_events a @ es" "al_algo (fold (Mirror P) es a) = al_algo a"
  "al_head (fold (Mirror P) es a) = (if es = [] then al_head a else Some (ev_Hash P (last es)))"
  by (induction es arbitrary: a) (auto simp: Mirror_def)

lemma links_ok: "walk_key P a c prev pub es = Some p \<Longrightarrow> al_links P a prev es"
proof (induction es arbitrary: prev pub)
  case (Cons e es)
  then obtain q where "check_event P a c prev pub e = Some q" "walk_key P a c (Some e) q es = Some p"
    by (auto split: option.splits)
  then show ?case using Cons.IH by (cases prev) (auto simp: check_event_def link_of_def split: if_splits)
qed simp

text \<open>
  An auditor that mirrored every event of a verifying chain holds a log that verifies, and the external
  probe is quiet on a SHA-256 timeline; on a non-empty timeline under the dual digest it alarms although nothing is wrong,
  because the mirror's head is always the SHA-256 hash.
\<close>

theorem mirror_probe:
  assumes "sha_ok P" "tl_Verify P t" "wd_Kind w = WDExternalProbe"
  shows "al_Verify P (mirror_of P t)
    \<and> s_Score (fst (computeScore P rnd fmt2 qt t (Some (mirror_of P t)) w)) =
        (if tl_algo t = algoSHA256 \<or> tl_events t = [] then Fin 100 else Fin 0)"
proof -
  obtain p where "walk_key P (tl_algo t) (tl_council t) None (startPub t) (tl_events t) = Some p"
    using assms(2) by (auto simp: tl_Verify_key chain_key_def)
  from links_ok [OF this] have "al_Verify P (mirror_of P t)"
    by (simp add: al_Verify_def mirror_of_def mirror_fold NewAuditorLog_def)
  moreover have "bytes_equal (Head P t) (al_head (mirror_of P t)) \<longleftrightarrow> tl_algo t = algoSHA256 \<or> tl_events t = []"
  proof -
    have "hashWith P algoDual x \<noteq> ev_Hash P y" for x y
    proof -
      have "length (hashWith P algoDual x) = 64" "length (ev_Hash P y) = 32"
        using assms(1) by (simp_all add: hashWith_def sha256_length sha3_length ev_Hash_def)
      then show ?thesis by auto
    qed
    then show ?thesis
      by (cases "tl_algo t")
        (auto simp: Head_def eventDigest_def mirror_of_def mirror_fold NewAuditorLog_def, simp add: hashWith_def ev_Hash_def)
  qed
  ultimately show ?thesis using assms(3) by (simp add: computeScore_def Let_def)
qed

theorem mirror_probe_witness:
  "s_Score (fst (computeScore toy Fin (\<lambda>x. []) (\<lambda>x. x) demo1 (Some (mirror_of toy demo1)) (NewWatchdog ''w4'' WDExternalProbe (Fin 0) (Fin 0) (Fin 0)))) = Fin 100"
proof -
  obtain h where h: "tl_append toy demo0 EvIssue (Some [1]) 10 = Inr (h, demo1)" using demo1(1) by blast
  have l: "tl_live toy demo1" using tl_step_live [OF toy_ok(3) tl_step.Appends [OF h] demo0(3)] by simp
  obtain x where d: "demo1 = demo0\<lparr>tl_events := tl_events demo0 @ [x]\<rparr>" by (rule tl_append_event [OF h demo0(2)]) auto
  have "tl_algo demo1 = algoSHA256" unfolding d by (simp add: demo0_def newTimeline_def toy_key_def toy_sel)
  then show ?thesis
    using mirror_probe [OF toy_ok(1) tl_live_Verify [OF l], of "NewWatchdog ''w4'' WDExternalProbe (Fin 0) (Fin 0) (Fin 0)" Fin "\<lambda>x. []" "\<lambda>x. x"]
    by (simp add: NewWatchdog_def NewWatchdogBaseline_def)
qed

section \<open>Policy and escalation\<close>

lemma count_key_lookup: "map_of (count_key k m) i = (if i = k then Some (case map_of m k of None \<Rightarrow> 1 | Some n \<Rightarrow> n + 1) else map_of m i)"
  by (simp add: count_key_def)

lemma policy_lookup:
  "map_of (policy_counts P es) i = (let n = length (filter (\<lambda>e. \<exists>p. issue_of P e = Some p \<and> ip_Identity p = i) es)
     in if n = 0 then None else Some (int n))"
proof (induction es rule: rev_induct)
  case (snoc e es)
  then show ?case by (auto simp: policy_counts_def count_key_lookup Let_def split: option.splits)
qed (simp add: policy_counts_def)

lemma policy_distinct: "distinct (map fst (policy_counts P es))"
proof -
  have "distinct (map fst m) \<Longrightarrow> distinct (map fst (fold (\<lambda>e m. case issue_of P e of None \<Rightarrow> m | Some p \<Rightarrow> count_key (ip_Identity p) m) es m))" for m
    by (induction es arbitrary: m) (auto simp: count_key_def distinct_update split: option.splits)
  from this [of "[]"] show ?thesis by (simp add: policy_counts_def)
qed

text \<open>
  The policy check reports exactly the identities with more issued certificates than allowed; and an
  escalation detects exactly when the quorum does, or when enough different auditors name a watchdog that itself is low:
  a repeated auditor counts once, and auditors alone never detect.
\<close>

theorem policy_escalation:
  "(0 \<le> maxIssues \<longrightarrow> (let issued = (\<lambda>i. int (length (filter (\<lambda>e. \<exists>p. issue_of P e = Some p \<and> ip_Identity p = i) es))) in
      set (CheckPolicy P es maxIssues) = {i @ '': '' @ fmt_int (issued i) @ '' issues > '' @ fmt_int maxIssues | i. maxIssues < issued i}))
    \<and> (DetectEscalated scores esc mn th q \<longleftrightarrow> Detect scores th q
        \<or> mn \<le> int (card (set (esc_AuditorIDs esc))) \<and> (\<exists>s \<in> set scores. s_NodeID s = esc_Target esc \<and> f_lt (s_Score s) th))"
proof -
  have d: "distinct (fold add_key ids ks) = distinct ks \<and> set (fold add_key ids ks) = set ks \<union> set ids" if "distinct ks" for ids ks
    using that by (induction ids arbitrary: ks) (auto simp: add_key_def)
  have "length (distinctIDs ids) = card (set ids)" for ids
    using d [of "[]" ids] distinct_card [of "distinctIDs ids"] by (simp add: distinctIDs_def)
  then have "DetectEscalated scores esc mn th q \<longleftrightarrow> Detect scores th q
        \<or> mn \<le> int (card (set (esc_AuditorIDs esc))) \<and> (\<exists>s \<in> set scores. s_NodeID s = esc_Target esc \<and> f_lt (s_Score s) th)"
    by (auto simp: DetectEscalated_def)
  moreover have "set (CheckPolicy P es maxIssues) = {i @ '': '' @ fmt_int (issued i) @ '' issues > '' @ fmt_int maxIssues | i. maxIssues < issued i}"
    if mx: "0 \<le> maxIssues" and issued: "issued = (\<lambda>i. int (length (filter (\<lambda>e. \<exists>p. issue_of P e = Some p \<and> ip_Identity p = i) es)))" for issued
  proof -
    have L: "map_of (policy_counts P es) k = Some n \<longleftrightarrow> n = issued k \<and> issued k \<noteq> 0" for k n
      unfolding policy_lookup issued Let_def by (auto simp: filter_empty_conv)
    have M: "(k, n) \<in> set (policy_counts P es) \<longleftrightarrow> n = issued k \<and> issued k \<noteq> 0" for k n
      unfolding map_of_eq_Some_iff [OF policy_distinct, symmetric] by (rule L)
    have "set (CheckPolicy P es maxIssues) =
        (\<lambda>(k, n). k @ '': '' @ fmt_int n @ '' issues > '' @ fmt_int maxIssues) ` {kn \<in> set (policy_counts P es). maxIssues < snd kn}"
      by (auto simp: CheckPolicy_def List.map_filter_def image_def split: if_splits prod.splits)
    also have "{kn \<in> set (policy_counts P es). maxIssues < snd kn} = {(k, issued k) | k. maxIssues < issued k}"
      using mx by (auto simp: M)
    finally show ?thesis by auto
  qed
  ultimately show ?thesis unfolding Let_def by blast
qed

theorem policy_escalation_witness:
  "CheckPolicy toy [] 3 = [] \<and> \<not> DetectEscalated [] \<lparr>esc_AuditorIDs = [''a'', ''a''], esc_Target = ''w1'', esc_Reason = []\<rparr> 1 (Fin 50) 1"
  using policy_escalation [where maxIssues = 3 and es = "[]" and P = toy and scores = "[]" and mn = 1 and th = "Fin 50" and q = 1 and
      esc = "\<lparr>esc_AuditorIDs = [''a'', ''a''], esc_Target = ''w1'', esc_Reason = []\<rparr>"]
  by (simp add: Detect_def Let_def fmt_int_def)

end
