(* ===== verification/Fleet.thy ===== *)
theory Fleet
  imports Ensemble
begin

text \<open>
  The production wire: the token-bucket limiter (\<open>ratelimit.go\<close>) and the fleet server (\<open>fleet.go\<close>) that
  takes score frames from its peers, keeps the live view and broadcasts verdicts.  Times are nanoseconds of
  the monotonic clock, passed to the operations; a channel is the list of what it buffers.  Accepting
  connections, dialling and the mutexes are outside: each operation is one step.
\<close>

section \<open>The limiter\<close>

definition apiRate :: f64 where "apiRate = Fin 20"
definition apiBurst :: f64 where "apiBurst = Fin 40"
definition wireRate :: f64 where "wireRate = Fin 1"
definition wireBurst :: f64 where "wireBurst = Fin 4"

record bucket =
  bk_tokens :: f64
  bk_last :: int

record limiter =
  li_rate :: f64
  li_burst :: f64
  li_buckets :: "(string \<times> bucket) list"

definition newLimiter :: "f64 \<Rightarrow> f64 \<Rightarrow> limiter" where
  "newLimiter rate burst = \<lparr>li_rate = rate, li_burst = burst, li_buckets = []\<rparr>"

text \<open>\<open>Duration.Seconds\<close> of a non-negative duration.\<close>

definition seconds :: "rounding \<Rightarrow> int \<Rightarrow> f64" where
  "seconds rnd d = f_add rnd (rnd (of_int (d div 10 ^ 9))) (rnd (of_int (d mod 10 ^ 9) / 10 ^ 9))"

definition refill :: "rounding \<Rightarrow> int \<Rightarrow> limiter \<Rightarrow> bucket option \<Rightarrow> bucket" where
  "refill rnd now l b = (case b of
     None \<Rightarrow> \<lparr>bk_tokens = li_burst l, bk_last = now\<rparr>
   | Some b \<Rightarrow>
      (let t = f_add rnd (bk_tokens b) (f_mul rnd (seconds rnd (now - bk_last b)) (li_rate l))
       in \<lparr>bk_tokens = (if f_lt (li_burst l) t then li_burst l else t), bk_last = now\<rparr>))"

definition allow :: "rounding \<Rightarrow> int \<Rightarrow> string \<Rightarrow> limiter \<Rightarrow> bool \<times> limiter" where
  "allow rnd now key l =
     (let b = refill rnd now l (map_of (li_buckets l) key) in
      if f_lt (bk_tokens b) (Fin 1) then (False, l\<lparr>li_buckets := AList.update key b (li_buckets l)\<rparr>)
      else (True, l\<lparr>li_buckets := AList.update key (b\<lparr>bk_tokens := f_sub rnd (bk_tokens b) (Fin 1)\<rparr>) (li_buckets l)\<rparr>))"

section \<open>The fleet server\<close>

record WireMsg =
  wm_NodeID :: string
  wm_Score :: f64
  wm_PValue :: f64
  wm_Kind :: string
  wm_BadIdx :: int
  wm_Evidence :: bytes

text \<open>\<open>WireMsgFromScore\<close>: the index of the evidence, where it parses.\<close>

definition WireMsgFromScore :: "prims \<Rightarrow> Score \<Rightarrow> string \<Rightarrow> WireMsg" where
  "WireMsgFromScore P s kind =
     \<lparr>wm_NodeID = s_NodeID s, wm_Score = s_Score s, wm_PValue = s_PValue s, wm_Kind = kind,
      wm_BadIdx = (if s_Evidence s = [] then 0
        else (case unmarshal P evidence_fields 0 (s_Evidence s) of Some i \<Rightarrow> i | None \<Rightarrow> 0)),
      wm_Evidence = s_Evidence s\<rparr>"

record FleetVerdict =
  fv_Detected :: bool
  fv_Count :: int
  fv_Total :: int
  fv_Scores :: "Score list"

record scoreAt =
  sa_s :: Score
  sa_t :: int

record FleetServer =
  fl_threshold :: f64
  fl_quorum :: int
  fl_staleFor :: int
  fl_scores :: "(string \<times> scoreAt) list"
  fl_enrolled :: "string list"
  fl_fans :: "FleetVerdict list list"
  fl_frames :: limiter

definition NewFleet :: "f64 \<Rightarrow> int \<Rightarrow> int \<Rightarrow> FleetServer" where
  "NewFleet threshold quorum staleFor =
     \<lparr>fl_threshold = threshold, fl_quorum = (if quorum < 1 then 3 else quorum),
      fl_staleFor = (if staleFor \<le> 0 then 150 * 10 ^ 9 else staleFor), fl_scores = [], fl_enrolled = [], fl_fans = [],
      fl_frames = newLimiter wireRate wireBurst\<rparr>"

definition Subscribe :: "FleetServer \<Rightarrow> nat \<times> FleetServer" where
  "Subscribe f = (length (fl_fans f), f\<lparr>fl_fans := fl_fans f @ [[]]\<rparr>)"

text \<open>A channel buffers 16 verdicts; a full one drops the verdict.\<close>

definition broadcast :: "FleetVerdict \<Rightarrow> FleetServer \<Rightarrow> FleetServer" where
  "broadcast v f = f\<lparr>fl_fans := map (\<lambda>ch. if length ch < 16 then ch @ [v] else ch) (fl_fans f)\<rparr>"

definition fresh_scores :: "int \<Rightarrow> FleetServer \<Rightarrow> Score list" where
  "fresh_scores now f = List.map_filter (\<lambda>(k, sa). if fl_staleFor f < now - sa_t sa then None else Some (sa_s sa)) (fl_scores f)"

definition live_verdict :: "int \<Rightarrow> FleetServer \<Rightarrow> FleetVerdict" where
  "live_verdict now f = (let fresh = fresh_scores now f in
     \<lparr>fv_Detected = Detect fresh (fl_threshold f) (fl_quorum f), fv_Count = int (length fresh),
      fv_Total = int (length (fl_enrolled f)), fv_Scores = fresh\<rparr>)"

definition emit :: "int \<Rightarrow> FleetServer \<Rightarrow> FleetServer" where
  "emit now f = broadcast (live_verdict now f) f"

definition score_of_msg :: "WireMsg \<Rightarrow> Score" where
  "score_of_msg m = \<lparr>s_NodeID = wm_NodeID m, s_Score = wm_Score m, s_PValue = wm_PValue m, s_Evidence = wm_Evidence m\<rparr>"

definition put_score :: "int \<Rightarrow> WireMsg \<Rightarrow> FleetServer \<Rightarrow> FleetServer" where
  "put_score now m f = f\<lparr>fl_enrolled := (if map_of (fl_scores f) (wm_NodeID m) = None then fl_enrolled f @ [wm_NodeID m] else fl_enrolled f),
     fl_scores := AList.update (wm_NodeID m) \<lparr>sa_s = score_of_msg m, sa_t = now\<rparr> (fl_scores f)\<rparr>"

definition Ingest :: "int \<Rightarrow> WireMsg \<Rightarrow> FleetServer \<Rightarrow> FleetServer" where
  "Ingest now m f = emit now (put_score now m f)"

text \<open>One frame of a connection from \<open>addr\<close>: False where the handler's error drops the peer.\<close>

definition handle_wire :: "rounding \<Rightarrow> int \<Rightarrow> string \<Rightarrow> WireMsg \<Rightarrow> FleetServer \<Rightarrow> bool \<times> FleetServer" where
  "handle_wire rnd now addr m f = (let (ok, l) = allow rnd now addr (fl_frames f); f' = f\<lparr>fl_frames := l\<rparr> in
     if ok then (True, Ingest now m f') else (False, f'))"

text \<open>All frames a connection delivers at one moment: the loop of \<open>ServeWire\<close> with that handler.\<close>

fun handle_conn :: "rounding \<Rightarrow> int \<Rightarrow> string \<Rightarrow> WireMsg list \<Rightarrow> FleetServer \<Rightarrow> FleetServer" where
  "handle_conn rnd now addr [] f = f"
| "handle_conn rnd now addr (m # ms) f =
     (case handle_wire rnd now addr m f of (True, f') \<Rightarrow> handle_conn rnd now addr ms f' | (False, f') \<Rightarrow> f')"

end
