(* ===== verification/FleetProps.thy ===== *)
theory FleetProps
  imports Fleet
begin

text \<open>
  What the wire promises: buckets stay between nothing and their burst, grants at one moment are exactly the burst, the
  live view is each node's latest frame; and what it does not: one peer can speak for every node.
\<close>

section \<open>The limiter\<close>

definition limiter_ok :: "int \<Rightarrow> rat \<Rightarrow> int \<Rightarrow> limiter \<Rightarrow> bool" where
  "limiter_ok b r now l \<longleftrightarrow> li_burst l = Fin (of_int b) \<and> 1 \<le> b \<and> b \<le> 2 ^ 53 \<and> li_rate l = Fin r \<and> 1 \<le> r
     \<and> (\<forall>k bk. map_of (li_buckets l) k = Some bk \<longrightarrow> bk_last bk \<le> now \<and> (\<exists>q. bk_tokens bk = Fin q \<and> 0 \<le> q \<and> q \<le> of_int b))"

lemma round_nonneg: "round_ok rnd \<Longrightarrow> 0 \<le> a \<Longrightarrow> f_le (Fin 0) (rnd a)"
  using round_mono [of rnd 0 a] round_numeral [of rnd] by simp

lemma f_add_nonneg: "round_ok rnd \<Longrightarrow> f_le (Fin 0) a \<Longrightarrow> f_le (Fin 0) b \<Longrightarrow> f_le (Fin 0) (f_add rnd a b)"
  by (cases a; cases b) (auto simp: round_nonneg)

lemma seconds_nonneg: "round_ok rnd \<Longrightarrow> 0 \<le> d \<Longrightarrow> f_le (Fin 0) (seconds rnd d)"
  unfolding seconds_def by (intro f_add_nonneg round_nonneg) (simp_all add: pos_imp_zdiv_nonneg_iff)

lemma f_mul_nonneg: "round_ok rnd \<Longrightarrow> f_le (Fin 0) a \<Longrightarrow> 1 \<le> r \<Longrightarrow> f_le (Fin 0) (f_mul rnd a (Fin r))"
  by (cases a) (auto simp: f_mul_def round_nonneg)

lemma refill_ok:
  assumes "round_ok rnd" "limiter_ok b r now l" "now \<le> now'"
  shows "\<exists>p. bk_tokens (refill rnd now' l (map_of (li_buckets l) k)) = Fin p \<and> 0 \<le> p \<and> p \<le> of_int b
      \<and> bk_last (refill rnd now' l (map_of (li_buckets l) k)) = now'"
proof (cases "map_of (li_buckets l) k")
  case None
  then show ?thesis using assms by (auto simp: refill_def limiter_ok_def)
next
  case (Some bk)
  then obtain q where q: "bk_last bk \<le> now" "bk_tokens bk = Fin q" "0 \<le> q" "q \<le> of_int b"
    using assms(2) by (auto simp: limiter_ok_def)
  have r: "li_rate l = Fin r" "1 \<le> r" "li_burst l = Fin (of_int b)" using assms(2) by (auto simp: limiter_ok_def)
  let ?t = "f_add rnd (Fin q) (f_mul rnd (seconds rnd (now' - bk_last bk)) (Fin r))"
  have "f_le (Fin 0) ?t"
    by (intro f_add_nonneg f_mul_nonneg seconds_nonneg) (use assms(1,3) q r in auto)
  then show ?thesis using Some q r order_trans [OF q(3,4)]
    by (cases ?t) (auto simp: refill_def Let_def not_less)
qed

lemma allow_ok:
  assumes "round_ok rnd" "limiter_ok b r now l" "now \<le> now'"
  shows "limiter_ok b r now' (snd (allow rnd now' k l))"
proof -
  obtain q where q: "bk_tokens (refill rnd now' l (map_of (li_buckets l) k)) = Fin q" "0 \<le> q" "q \<le> of_int b"
    "bk_last (refill rnd now' l (map_of (li_buckets l) k)) = now'" using refill_ok [OF assms] by metis
  have l: "li_burst l = Fin (of_int b)" "1 \<le> b" "b \<le> 2 ^ 53" "li_rate l = Fin r" "1 \<le> r"
    using assms(2) by (auto simp: limiter_ok_def)
  have sub: "\<exists>p. f_sub rnd (Fin q) (Fin 1) = Fin p \<and> 0 \<le> p \<and> p \<le> of_int b" if "1 \<le> q"
  proof -
    have "f_le (Fin 0) (rnd (q - 1))" using that by (intro round_nonneg assms) simp
    moreover have "f_le (rnd (q - 1)) (rnd (of_int b))" using q(3) by (intro round_mono assms) simp
    moreover have "rnd (of_int b) = Fin (of_int b)" using l by (intro round_int assms) simp
    ultimately show ?thesis by (cases "rnd (q - 1)") (auto simp: f_sub_def)
  qed
  have old: "\<And>j bk. map_of (li_buckets l) j = Some bk \<Longrightarrow> bk_last bk \<le> now' \<and> (\<exists>q. bk_tokens bk = Fin q \<and> 0 \<le> q \<and> q \<le> of_int b)"
    using assms(2,3) unfolding limiter_ok_def by force
  show ?thesis unfolding limiter_ok_def
    using l q sub old by (auto simp: allow_def Let_def not_less)
qed

text \<open>A limiter in use: each call comes some time after the one before.\<close>

definition limit_step :: "rounding \<Rightarrow> string \<times> nat \<Rightarrow> int \<times> limiter \<Rightarrow> int \<times> limiter" where
  "limit_step rnd a s = (case (a, s) of ((k, dt), (now, l)) \<Rightarrow> (now + int dt, snd (allow rnd (now + int dt) k l)))"

definition limit_inv :: "rounding \<Rightarrow> int \<Rightarrow> rat \<Rightarrow> int \<times> limiter \<Rightarrow> bool" where
  "limit_inv rnd b r s \<longleftrightarrow> round_ok rnd \<and> limiter_ok b r (fst s) (snd s)"

interpretation limiter: machine "limit_step rnd" "limit_inv rnd b r" for rnd b r
  by unfold_locales (auto simp: limit_step_def limit_inv_def intro!: allow_ok split: prod.splits)

text \<open>The grants of \<open>n\<close> calls for one key at one moment.\<close>

fun grants :: "rounding \<Rightarrow> int \<Rightarrow> string \<Rightarrow> nat \<Rightarrow> limiter \<Rightarrow> bool list" where
  "grants rnd now k 0 l = []"
| "grants rnd now k (Suc n) l = (let (ok, l') = allow rnd now k l in ok # grants rnd now k n l')"

lemma refill_same_time:
  assumes "round_ok rnd" "map_of (li_buckets l) k = Some \<lparr>bk_tokens = Fin (of_int n), bk_last = now\<rparr>" "li_rate l = Fin r"
    "li_burst l = Fin (of_int b)" "0 \<le> n" "n \<le> b" "b \<le> 2 ^ 53"
  shows "refill rnd now l (map_of (li_buckets l) k) = \<lparr>bk_tokens = Fin (of_int n), bk_last = now\<rparr>"
proof -
  have "rnd 0 = Fin 0" "rnd (of_int n) = Fin (of_int n)" using assms(1,5-7) by (simp_all add: round_numeral round_int)
  then show ?thesis using assms(2-6) by (simp add: refill_def seconds_def f_mul_def Let_def)
qed

lemma allow_same_time:
  assumes "round_ok rnd" "refill rnd now l (map_of (li_buckets l) k) = \<lparr>bk_tokens = Fin (of_int n), bk_last = now\<rparr>"
    "0 \<le> n" "n \<le> 2 ^ 53"
  shows "allow rnd now k l = (1 \<le> n, l\<lparr>li_buckets := AList.update k \<lparr>bk_tokens = Fin (of_int (if 1 \<le> n then n - 1 else n)), bk_last = now\<rparr> (li_buckets l)\<rparr>)"
proof -
  have "rnd (of_int n - 1) = Fin (of_int n - 1)" if "1 \<le> n" using round_int [OF assms(1), of "n - 1"] assms(3,4) that by simp
  then show ?thesis using assms(3) unfolding allow_def assms(2) Let_def by (auto simp: f_sub_def)
qed

lemma grants_from:
  assumes "round_ok rnd" "li_rate l = Fin r" "li_burst l = Fin (of_int b)" "b \<le> 2 ^ 53" "0 \<le> n" "n \<le> b"
    and "refill rnd now l (map_of (li_buckets l) k) = \<lparr>bk_tokens = Fin (of_int n), bk_last = now\<rparr>"
  shows "grants rnd now k m l = map (\<lambda>i. int i < n) [0..<m]"
  using assms
proof (induction m arbitrary: n l)
  case (Suc m)
  have "n \<le> 2 ^ 53" using Suc.prems(4,6) by simp
  note A = allow_same_time [OF Suc.prems(1,7,5) this]
  let ?n = "if 1 \<le> n then n - 1 else n"
  let ?l = "l\<lparr>li_buckets := AList.update k \<lparr>bk_tokens = Fin (of_int ?n), bk_last = now\<rparr> (li_buckets l)\<rparr>"
  have "refill rnd now ?l (map_of (li_buckets ?l) k) = \<lparr>bk_tokens = Fin (of_int ?n), bk_last = now\<rparr>"
    by (rule refill_same_time [OF Suc.prems(1) _ _ _ _ _ Suc.prems(4)]) (use Suc.prems(2,3,5,6) in \<open>auto simp: update_conv'\<close>)
  from Suc.IH [OF Suc.prems(1) _ _ Suc.prems(4) _ _ this] have "grants rnd now k m ?l = map (\<lambda>i. int i < ?n) [0..<m]"
    using Suc.prems(2,3,5,6) by auto
  then show ?case using Suc.prems(5) unfolding grants.simps A Let_def
    by (auto simp: upt_conv_Cons map_Suc_upt [symmetric] simp del: upt_Suc)
qed simp

text \<open>
  From a fresh limiter, along any sequence of calls, every bucket holds between 0 and the burst of
  tokens, and a key not seen before passes exactly its burst of requests at one moment, whatever the other keys did;
  under every rounding that keeps the order and the small integers.
\<close>

theorem limiter_bounds:
  assumes "round_ok rnd" "1 \<le> r" "1 \<le> b" "b \<le> 2 ^ 53"
    and "fold (limit_step rnd) calls (t0, newLimiter (Fin r) (Fin (of_int b))) = (now, l)"
  shows "(\<forall>k bk. map_of (li_buckets l) k = Some bk \<longrightarrow> (\<exists>q. bk_tokens bk = Fin q \<and> 0 \<le> q \<and> q \<le> of_int b))
    \<and> (map_of (li_buckets l) k = None \<longrightarrow> grants rnd now k n l = map (\<lambda>i. int i < b) [0..<n])"
proof -
  have "limit_inv rnd b r (t0, newLimiter (Fin r) (Fin (of_int b)))"
    using assms(1-4) by (simp add: limit_inv_def limiter_ok_def newLimiter_def)
  from limiter.run_inv [OF this, of calls] have l: "limiter_ok b r now l" by (simp add: assms(5) limit_inv_def)
  have "grants rnd now k n l = map (\<lambda>i. int i < b) [0..<n]" if "map_of (li_buckets l) k = None"
    by (rule grants_from [OF assms(1)]) (use that l assms(3) in \<open>auto simp: limiter_ok_def refill_def\<close>)
  then show ?thesis using l by (simp add: limiter_ok_def)
qed

theorem limiter_bounds_witness:
  "grants Fin 0 ''10.0.0.1:5000'' 6 (newLimiter wireRate wireBurst) = [True, True, True, True, False, False]"
  using limiter_bounds [OF round_ok_exact, of 1 4 "[]" 0 0 "newLimiter wireRate wireBurst" "''10.0.0.1:5000''" 6]
  by (simp add: newLimiter_def wireRate_def wireBurst_def upt_rec)

section \<open>The live view\<close>

lemma Ingest_fields:
  "fl_scores (Ingest now m f) = AList.update (wm_NodeID m) \<lparr>sa_s = score_of_msg m, sa_t = now\<rparr> (fl_scores f)"
  "fl_enrolled (Ingest now m f) = (if map_of (fl_scores f) (wm_NodeID m) = None then fl_enrolled f @ [wm_NodeID m] else fl_enrolled f)"
  "fl_threshold (Ingest now m f) = fl_threshold f" "fl_quorum (Ingest now m f) = fl_quorum f" "fl_staleFor (Ingest now m f) = fl_staleFor f"
  "fl_frames (Ingest now m f) = fl_frames f"
  by (simp_all add: Ingest_def emit_def broadcast_def put_score_def)

definition fleet_inv :: "FleetServer \<Rightarrow> bool" where
  "fleet_inv f \<longleftrightarrow> distinct (map fst (fl_scores f)) \<and> distinct (fl_enrolled f) \<and> set (fl_enrolled f) = dom (map_of (fl_scores f))"

interpretation fleet: machine "\<lambda>(now, m). Ingest now m" fleet_inv
  by unfold_locales
    (auto simp: fleet_inv_def Ingest_fields distinct_update update_conv' split: prod.splits if_splits)

text \<open>The frames of one node among those that came in, and what the view should hold for it.\<close>

definition frames_of :: "string \<Rightarrow> (int \<times> WireMsg) list \<Rightarrow> (int \<times> WireMsg) list" where
  "frames_of k ms = filter (\<lambda>tm. wm_NodeID (snd tm) = k) ms"

definition latest :: "string \<Rightarrow> (int \<times> WireMsg) list \<Rightarrow> scoreAt option" where
  "latest k ms = (if frames_of k ms = [] then None
     else Some \<lparr>sa_s = score_of_msg (snd (last (frames_of k ms))), sa_t = fst (last (frames_of k ms))\<rparr>)"

lemma ingest_latest:
  "map_of (fl_scores (fold (\<lambda>(now, m). Ingest now m) ms (NewFleet th q st))) k = latest k ms"
proof (induction ms rule: rev_induct)
  case (snoc tm ms)
  obtain now m where tm: "tm = (now, m)" by (cases tm)
  show ?case using snoc by (auto simp: tm Ingest_fields update_conv' latest_def frames_of_def)
qed (simp add: NewFleet_def latest_def frames_of_def)

lemma ingest_params:
  "fl_threshold (fold (\<lambda>(now, m). Ingest now m) ms f) = fl_threshold f" "fl_quorum (fold (\<lambda>(now, m). Ingest now m) ms f) = fl_quorum f"
  "fl_staleFor (fold (\<lambda>(now, m). Ingest now m) ms f) = fl_staleFor f"
  by (induction ms arbitrary: f) (auto simp: Ingest_fields)

lemma fresh_filter:
  assumes "distinct (map fst (fl_scores f))"
  shows "length (filter (\<lambda>s. Q s) (fresh_scores now f)) =
    card {k. \<exists>sa. map_of (fl_scores f) k = Some sa \<and> now - sa_t sa \<le> fl_staleFor f \<and> Q (sa_s sa)}"
proof -
  have "length (filter (\<lambda>s. Q s) (List.map_filter (\<lambda>(k, sa). if st < now - sa_t sa then None else Some (sa_s sa)) al))
      = length (filter (\<lambda>(k, sa). now - sa_t sa \<le> st \<and> Q (sa_s sa)) al)" for st al
    by (induction al) (auto simp: map_filter_simps split: if_splits)
  then have "length (filter (\<lambda>s. Q s) (fresh_scores now f)) = length (filter (\<lambda>(k, sa). now - sa_t sa \<le> fl_staleFor f \<and> Q (sa_s sa)) (fl_scores f))"
    by (simp add: fresh_scores_def)
  also have "\<dots> = card (fst ` set (filter (\<lambda>(k, sa). now - sa_t sa \<le> fl_staleFor f \<and> Q (sa_s sa)) (fl_scores f)))"
    by (rule distinct_card [OF distinct_map_filter [OF assms], unfolded list.set_map length_map, symmetric])
  also have "fst ` set (filter (\<lambda>(k, sa). now - sa_t sa \<le> fl_staleFor f \<and> Q (sa_s sa)) (fl_scores f))
      = {k. \<exists>sa. map_of (fl_scores f) k = Some sa \<and> now - sa_t sa \<le> fl_staleFor f \<and> Q (sa_s sa)}"
    using assms by (force simp: image_def)
  finally show ?thesis .
qed

definition fresh_view :: "int \<Rightarrow> int \<Rightarrow> (int \<times> WireMsg) list \<Rightarrow> string \<Rightarrow> Score option" where
  "fresh_view stale now ms k = (case latest k ms of None \<Rightarrow> None
     | Some sa \<Rightarrow> if now - sa_t sa \<le> stale then Some (sa_s sa) else None)"

text \<open>
  C40: after any frames, in any order, the verdict broadcast is that of the abstract view "each node's latest
  frame, unless it is older than the staleness bound": it detects exactly when a quorum of nodes has a fresh low score,
  it counts the fresh nodes, and its total is the number of nodes ever heard of.
\<close>

theorem fleet_view:
  fixes th :: f64 and q st now :: int and ms :: "(int \<times> WireMsg) list"
  defines "f \<equiv> fold (\<lambda>(now, m). Ingest now m) ms (NewFleet th q st)"
    and "view \<equiv> fresh_view (if st \<le> 0 then 150 * 10 ^ 9 else st) now ms"
  shows "fv_Detected (live_verdict now f) = ((if q < 1 then 3 else q) \<le> int (card {k. \<exists>s. view k = Some s \<and> f_lt (s_Score s) th}))
    \<and> fv_Count (live_verdict now f) = int (card (dom view))
    \<and> fv_Total (live_verdict now f) = int (card (wm_NodeID ` snd ` set ms))"
proof -
  have inv: "fleet_inv f" unfolding f_def by (rule fleet.run_inv) (simp add: fleet_inv_def NewFleet_def)
  have p: "fl_threshold f = th" "fl_quorum f = (if q < 1 then 3 else q)" "fl_staleFor f = (if st \<le> 0 then 150 * 10 ^ 9 else st)"
    unfolding f_def ingest_params by (simp_all add: NewFleet_def)
  have view: "view k = (case map_of (fl_scores f) k of None \<Rightarrow> None | Some sa \<Rightarrow> if now - sa_t sa \<le> fl_staleFor f then Some (sa_s sa) else None)" for k
    unfolding p(3) unfolding view_def fresh_view_def f_def ingest_latest by (rule refl)
  have sel: "{k. \<exists>sa. map_of (fl_scores f) k = Some sa \<and> now - sa_t sa \<le> fl_staleFor f \<and> Q (sa_s sa)} = {k. \<exists>s. view k = Some s \<and> Q s}" for Q
    by (auto simp: view split: option.splits)
  have d: "distinct (map fst (fl_scores f))" using inv by (simp add: fleet_inv_def)
  have "length (fresh_scores now f) = card (dom view)"
    using fresh_filter [OF d, of "\<lambda>_. True" now] sel [of "\<lambda>_. True"] by (simp add: dom_def)
  moreover have "length (fl_enrolled f) = card (wm_NodeID ` snd ` set ms)"
  proof -
    have "dom (map_of (fl_scores f)) = wm_NodeID ` snd ` set ms"
      unfolding f_def ingest_latest dom_def by (auto simp: latest_def frames_of_def filter_empty_conv image_iff)
    then show ?thesis using inv distinct_card [of "fl_enrolled f"] by (simp add: fleet_inv_def)
  qed
  moreover have "length (filter (\<lambda>s. f_lt (s_Score s) th) (fresh_scores now f)) = card {k. \<exists>s. view k = Some s \<and> f_lt (s_Score s) th}"
    unfolding fresh_filter [OF d] by (rule arg_cong [OF sel])
  ultimately show ?thesis by (simp add: live_verdict_def Let_def Detect_def p)
qed

lemma handle_wire_granted:
  assumes "round_ok rnd" "refill rnd now (fl_frames f) (map_of (li_buckets (fl_frames f)) addr) = \<lparr>bk_tokens = Fin (of_int n), bk_last = now\<rparr>"
    and "1 \<le> n" "n \<le> 4" "li_rate (fl_frames f) = wireRate" "li_burst (fl_frames f) = wireBurst" "fleet_inv f"
  shows "\<exists>f'. handle_wire rnd now addr m f = (True, f') \<and> fleet_inv f'
    \<and> refill rnd now (fl_frames f') (map_of (li_buckets (fl_frames f')) addr) = \<lparr>bk_tokens = Fin (of_int (n - 1)), bk_last = now\<rparr>
    \<and> li_rate (fl_frames f') = wireRate \<and> li_burst (fl_frames f') = wireBurst
    \<and> fl_scores f' = AList.update (wm_NodeID m) \<lparr>sa_s = score_of_msg m, sa_t = now\<rparr> (fl_scores f)
    \<and> fl_threshold f' = fl_threshold f \<and> fl_quorum f' = fl_quorum f \<and> fl_staleFor f' = fl_staleFor f"
proof -
  have n: "0 \<le> n" "n \<le> 2 ^ 53" using assms(3,4) by simp_all
  let ?l = "(fl_frames f)\<lparr>li_buckets := AList.update addr \<lparr>bk_tokens = Fin (of_int (n - 1)), bk_last = now\<rparr> (li_buckets (fl_frames f))\<rparr>"
  have a: "allow rnd now addr (fl_frames f) = (True, ?l)" using allow_same_time [OF assms(1,2) n] assms(3) by simp
  have i: "fleet_inv (Ingest now m (f\<lparr>fl_frames := ?l\<rparr>))"
    using fleet.step_inv [of "f\<lparr>fl_frames := ?l\<rparr>" "(now, m)"] assms(7) by (simp add: fleet_inv_def)
  have r: "refill rnd now ?l (map_of (li_buckets ?l) addr) = \<lparr>bk_tokens = Fin (of_int (n - 1)), bk_last = now\<rparr>"
    by (rule refill_same_time [OF assms(1), where b = 4 and r = 1])
      (use assms(3-6) in \<open>simp_all add: update_conv' wireRate_def wireBurst_def\<close>)
  show ?thesis using a i r assms(5,6) by (simp add: handle_wire_def Ingest_fields)
qed

text \<open>
  Node ids are not tied to the peer: from any state with a quorum of at most three, one connection with
  a full bucket that sends three low scores under three names makes the server report a detection, whatever every real
  watchdog has said.
\<close>

theorem fleet_spoof:
  assumes "round_ok rnd" "fleet_inv f" "map_of (li_buckets (fl_frames f)) addr = None"
    and "li_rate (fl_frames f) = wireRate" "li_burst (fl_frames f) = wireBurst" "fl_quorum f \<le> 3" "0 \<le> fl_staleFor f"
    and "distinct (map wm_NodeID [m1, m2, m3])" "\<forall>m \<in> set [m1, m2, m3]. f_lt (wm_Score m) (fl_threshold f)"
  shows "fv_Detected (live_verdict now (handle_conn rnd now addr [m1, m2, m3] f))"
proof -
  have "refill rnd now (fl_frames f) (map_of (li_buckets (fl_frames f)) addr) = \<lparr>bk_tokens = Fin (of_int 4), bk_last = now\<rparr>"
    using assms(3,5) by (simp add: refill_def wireBurst_def)
  from handle_wire_granted [OF assms(1) this _ _ assms(4,5,2), of m1] obtain f1 where
    f1: "handle_wire rnd now addr m1 f = (True, f1)" "fleet_inv f1"
      "refill rnd now (fl_frames f1) (map_of (li_buckets (fl_frames f1)) addr) = \<lparr>bk_tokens = Fin (of_int (4 - 1)), bk_last = now\<rparr>"
      "li_rate (fl_frames f1) = wireRate" "li_burst (fl_frames f1) = wireBurst"
    and s1: "fl_scores f1 = AList.update (wm_NodeID m1) \<lparr>sa_s = score_of_msg m1, sa_t = now\<rparr> (fl_scores f)"
      "fl_threshold f1 = fl_threshold f" "fl_quorum f1 = fl_quorum f" "fl_staleFor f1 = fl_staleFor f" by auto
  from handle_wire_granted [OF assms(1) f1(3) _ _ f1(4,5,2), of m2] obtain f2 where
    f2: "handle_wire rnd now addr m2 f1 = (True, f2)" "fleet_inv f2"
      "refill rnd now (fl_frames f2) (map_of (li_buckets (fl_frames f2)) addr) = \<lparr>bk_tokens = Fin (of_int (4 - 1 - 1)), bk_last = now\<rparr>"
      "li_rate (fl_frames f2) = wireRate" "li_burst (fl_frames f2) = wireBurst"
    and s2: "fl_scores f2 = AList.update (wm_NodeID m2) \<lparr>sa_s = score_of_msg m2, sa_t = now\<rparr> (fl_scores f1)"
      "fl_threshold f2 = fl_threshold f1" "fl_quorum f2 = fl_quorum f1" "fl_staleFor f2 = fl_staleFor f1" by auto
  from handle_wire_granted [OF assms(1) f2(3) _ _ f2(4,5,2), of m3] obtain f3 where
    f3: "handle_wire rnd now addr m3 f2 = (True, f3)" "fleet_inv f3"
    and s3: "fl_scores f3 = AList.update (wm_NodeID m3) \<lparr>sa_s = score_of_msg m3, sa_t = now\<rparr> (fl_scores f2)"
      "fl_threshold f3 = fl_threshold f2" "fl_quorum f3 = fl_quorum f2" "fl_staleFor f3 = fl_staleFor f2" by auto
  have c: "handle_conn rnd now addr [m1, m2, m3] f = f3" by (simp add: f1(1) f2(1) f3(1))
  have d: "distinct (map fst (fl_scores f3))" using f3(2) by (simp add: fleet_inv_def)
  let ?K = "{k. \<exists>sa. map_of (fl_scores f3) k = Some sa \<and> now - sa_t sa \<le> fl_staleFor f3 \<and> f_lt (s_Score (sa_s sa)) (fl_threshold f)}"
  have "wm_NodeID ` set [m1, m2, m3] \<subseteq> ?K"
    using assms(7-9) by (auto simp: s1 s2 s3 update_conv' score_of_msg_def)
  moreover have "finite ?K" by (rule finite_subset [OF _ finite_dom_map_of [of "fl_scores f3"]]) auto
  ultimately have "card (wm_NodeID ` set [m1, m2, m3]) \<le> card ?K" by (intro card_mono)
  moreover have "card (wm_NodeID ` set [m1, m2, m3]) = 3" using distinct_card [OF assms(8)] by simp
  ultimately show ?thesis unfolding c
    using fresh_filter [OF d, of "\<lambda>s. f_lt (s_Score s) (fl_threshold f)" now] assms(6)
    by (simp add: live_verdict_def Let_def Detect_def s1 s2 s3)
qed

definition lie :: "string \<Rightarrow> WireMsg" where
  "lie n = \<lparr>wm_NodeID = n, wm_Score = Fin 0, wm_PValue = Fin 0, wm_Kind = [], wm_BadIdx = 0, wm_Evidence = []\<rparr>"

theorem fleet_spoof_witness:
  "fv_Detected (live_verdict 5 (handle_conn Fin 5 ''10.0.0.1:5000'' [lie ''w1'', lie ''w2'', lie ''w3''] (NewFleet (Fin 50) 3 0)))"
  by (rule fleet_spoof [OF round_ok_exact]) (simp_all add: NewFleet_def fleet_inv_def newLimiter_def lie_def)

end
