(* ===== verification/Vault.thy ===== *)
theory Vault
  imports Shamir Prims
begin

text \<open>
  The envelope encryption of \<open>vault.go\<close> and the legacy seal of \<open>store.go\<close>.  AES-GCM and HKDF of the
  standard library are the parameter \<open>aead\<close> with the documented laws \<open>aead_ok\<close>; random bytes are
  arguments.  The key layers, the envelope format and every check are the code's.
\<close>

section \<open>The standard-library ciphers\<close>

record aead =
  gcm_seal :: "bytes \<Rightarrow> bytes \<Rightarrow> bytes \<Rightarrow> bytes"
  gcm_open :: "bytes \<Rightarrow> bytes \<Rightarrow> bytes \<Rightarrow> bytes option"
  hkdf_key :: "bytes \<Rightarrow> bytes \<Rightarrow> bytes"

text \<open>
  GCM opens what it sealed under the same key and nonce, and adds a 16-byte tag; what it opens is 16 bytes
  shorter than the box; \<open>hkdf.Key\<close> was asked for 32 bytes.
\<close>

definition aead_ok :: "aead \<Rightarrow> bool" where
  "aead_ok A \<longleftrightarrow> (\<forall>k n p. gcm_open A k n (gcm_seal A k n p) = Some p)
     \<and> (\<forall>k n p. length (gcm_seal A k n p) = length p + 16)
     \<and> (\<forall>k n c p. gcm_open A k n c = Some p \<longrightarrow> length c = length p + 16)
     \<and> (\<forall>k i. length (hkdf_key A k i) = 32)"

text \<open>An instance: the tag repeats the head of the key, and opening compares it.\<close>

definition toy_aead :: aead where
  "toy_aead = \<lparr>gcm_seal = (\<lambda>k n p. p @ pad 16 k),
     gcm_open = (\<lambda>k n c. if 16 \<le> length c \<and> drop (length c - 16) c = pad 16 k then Some (take (length c - 16) c) else None),
     hkdf_key = (\<lambda>k i. pad 32 (drop 6 i @ k))\<rparr>"

lemma toy_aead_ok: "aead_ok toy_aead"
  by (auto simp: aead_ok_def toy_aead_def)

section \<open>Integers on the wire\<close>

definition put64 :: "64 word \<Rightarrow> bytes" where
  "put64 w = be64 (uint w)"

definition get64 :: "bytes \<Rightarrow> 64 word" where
  "get64 b = word_of_int (set_bytes (take 8 b))"

section \<open>The vault\<close>

datatype vault_error =
    NotVaultFile | TruncatedEnvelope | WrongEpoch "64 word" "64 word" | DkUnwrap | BadBox | AuthFailed
  | KeySize nat | NotKeysFile | WrongKek | WrongSizedKey | NoSealKey | SealedPanic
  | UnwrapSession shamir_error | NoActiveVault

record Vault =
  va_DEK :: bytes
  va_Epoch :: "64 word"

definition vaultMagic :: bytes where "vaultMagic = str_bytes ''TOENC2''"
definition keysMagic :: bytes where "keysMagic = str_bytes ''TOKEYS1''"
definition encMagic :: bytes where "encMagic = str_bytes ''TOENC1''"

definition bytes_prefix :: "bytes \<Rightarrow> bytes \<Rightarrow> bool" where
  "bytes_prefix p b \<longleftrightarrow> take (length p) b = p"

text \<open>\<open>dek\<close> are the 32 random bytes.\<close>

definition NewVault :: "bytes \<Rightarrow> Vault" where
  "NewVault dek = \<lparr>va_DEK = dek, va_Epoch = 1\<rparr>"

definition ShareKEK :: "(nat \<Rightarrow> int option) \<Rightarrow> bytes \<Rightarrow> int \<Rightarrow> int \<Rightarrow> shamir_error + Shard list" where
  "ShareKEK rnd kek n k = ShamirSplit rnd kek n k"

definition JoinKEK :: "Shard option list \<Rightarrow> shamir_error + bytes" where
  "JoinKEK shares = ShamirJoin shares"

definition subkey_info :: "Vault \<Rightarrow> string \<Rightarrow> bytes" where
  "subkey_info v tenant = str_bytes ''vault:'' @ str_bytes tenant @ [0] @ put64 (va_Epoch v)"

definition SubKey :: "aead \<Rightarrow> Vault \<Rightarrow> string \<Rightarrow> bytes" where
  "SubKey A v tenant = hkdf_key A (va_DEK v) (subkey_info v tenant)"

text \<open>\<open>aes.NewCipher\<close> takes keys of 16, 24 and 32 bytes.\<close>

definition aesGCMSeal :: "aead \<Rightarrow> bytes \<Rightarrow> bytes \<Rightarrow> bytes \<Rightarrow> vault_error + bytes" where
  "aesGCMSeal A key nonce msg =
     (if length key \<notin> {16, 24, 32} then Inl (KeySize (length key)) else Inr (nonce @ gcm_seal A key nonce msg))"

definition aesGCMOpen :: "aead \<Rightarrow> bytes \<Rightarrow> bytes \<Rightarrow> vault_error + bytes" where
  "aesGCMOpen A key blob =
     (if length key \<noteq> 32 \<or> length blob < 28 then Inl BadBox
      else (case gcm_open A key (take 12 blob) (drop 12 blob) of None \<Rightarrow> Inl AuthFailed | Some p \<Rightarrow> Inr p))"

text \<open>The random bytes of one seal: the data key and the two nonces.\<close>

record seal_rand =
  sr_dk :: bytes
  sr_n1 :: bytes
  sr_n2 :: bytes

definition good_rand :: "seal_rand \<Rightarrow> bool" where
  "good_rand r \<longleftrightarrow> length (sr_dk r) = 32 \<and> length (sr_n1 r) = 12 \<and> length (sr_n2 r) = 12"

definition va_Seal :: "aead \<Rightarrow> seal_rand \<Rightarrow> Vault \<Rightarrow> string \<Rightarrow> bytes \<Rightarrow> vault_error + bytes" where
  "va_Seal A r v tenant msg = (case aesGCMSeal A (SubKey A v tenant) (sr_n1 r) (sr_dk r) of
     Inl e \<Rightarrow> Inl e
   | Inr dkBox \<Rightarrow> (case aesGCMSeal A (sr_dk r) (sr_n2 r) msg of
        Inl e \<Rightarrow> Inl e
      | Inr data \<Rightarrow> Inr (vaultMagic @ put64 (va_Epoch v) @ dkBox @ data)))"

definition va_Open :: "aead \<Rightarrow> Vault \<Rightarrow> string \<Rightarrow> bytes \<Rightarrow> vault_error + bytes" where
  "va_Open A v tenant blob =
     (let hdr = length vaultMagic + 8; ep = get64 (drop (length vaultMagic) blob) in
      if \<not> bytes_prefix vaultMagic blob then Inl NotVaultFile
      else if length blob < hdr + 60 then Inl TruncatedEnvelope
      else if ep \<noteq> va_Epoch v then Inl (WrongEpoch ep (va_Epoch v))
      else (case aesGCMOpen A (SubKey A v tenant) (take 60 (drop hdr blob)) of
          Inl _ \<Rightarrow> Inl DkUnwrap
        | Inr dk \<Rightarrow> aesGCMOpen A dk (drop (hdr + 60) blob)))"

section \<open>The key file\<close>

definition vault_key_file :: "aead \<Rightarrow> bytes \<Rightarrow> bytes \<Rightarrow> Vault \<Rightarrow> vault_error + bytes" where
  "vault_key_file A nonce kek v =
     map_sum id (\<lambda>box. keysMagic @ box) (aesGCMSeal A kek nonce (va_DEK v @ put64 (va_Epoch v)))"

definition read_key_file :: "aead \<Rightarrow> bytes \<Rightarrow> bytes \<Rightarrow> vault_error + Vault" where
  "read_key_file A kek b =
     (if \<not> bytes_prefix keysMagic b \<or> length b \<noteq> length keysMagic + 68 then Inl NotKeysFile
      else (case aesGCMOpen A kek (drop (length keysMagic) b) of
          Inl _ \<Rightarrow> Inl WrongKek
        | Inr sek \<Rightarrow> if length sek \<noteq> 40 then Inl WrongSizedKey
            else Inr \<lparr>va_DEK = take 32 sek, va_Epoch = get64 (drop 32 sek)\<rparr>))"

section \<open>The legacy seal\<close>

definition seal :: "aead \<Rightarrow> bytes \<Rightarrow> bytes \<Rightarrow> bytes \<Rightarrow> vault_error + bytes" where
  "seal A nonce key msg =
     (if length key \<notin> {16, 24, 32} then Inl (KeySize (length key))
      else Inr (encMagic @ nonce @ gcm_seal A key nonce msg))"

text \<open>The slice expressions of \<open>openSealed\<close> panic on a blob shorter than the magic and the nonce.\<close>

definition openSealed :: "aead \<Rightarrow> bytes \<Rightarrow> bytes \<Rightarrow> vault_error + bytes" where
  "openSealed A key blob =
     (if length key \<noteq> 32 then Inl NoSealKey
      else if length blob < length encMagic + 12 then Inl SealedPanic
      else (case gcm_open A key (take 12 (drop (length encMagic) blob)) (drop (length encMagic + 12) blob) of
          None \<Rightarrow> Inl AuthFailed | Some p \<Rightarrow> Inr p))"

end
