(* ===== verification/VaultProps.thy ===== *)
theory VaultProps
  imports Vault
begin

text \<open>
  What the envelope promises: every file opens under the vault that sealed it, nothing sealed in another
  epoch opens, a box opens only as a whole, and the key file returns the vault.
\<close>

section \<open>Encodings\<close>

lemma uint_word8: "uint (word_of_int x :: byte) = x mod 256"
  by (simp add: uint_word_of_int take_bit_eq_mod)

lemma foldl_be: "foldl (\<lambda>n b. n * 256 + uint b) (x div 256 ^ n) (map (\<lambda>i. word_of_int (x div 256 ^ i) :: byte) (rev [0..<n])) = x"
proof (induction n)
  case (Suc n)
  have "x div 256 ^ Suc n * 256 + x div 256 ^ n mod 256 = x div 256 ^ n"
    by (simp add: zdiv_zmult2_eq mult.commute [of 256])
  with Suc show ?case by (simp add: uint_word8)
qed simp

lemma set_bytes_be64: "0 \<le> x \<Longrightarrow> x < 2 ^ 64 \<Longrightarrow> set_bytes (be64 x) = x"
  using foldl_be [of x 8] by (simp add: set_bytes_def be64_def)

lemma length_put64 [simp]: "length (put64 w) = 8"
  by (simp add: put64_def)

lemma get_put64 [simp]: "get64 (put64 w @ r) = w" "get64 (put64 w) = w"
  using uint_lt2p [of w] by (simp_all add: get64_def put64_def set_bytes_be64)

lemma put64_inject [simp]: "put64 a = put64 b \<longleftrightarrow> a = b"
  by (metis get_put64(2))

lemma magic_lengths [simp]: "length vaultMagic = 6" "length keysMagic = 7" "length encMagic = 6"
  by (simp_all add: vaultMagic_def keysMagic_def encMagic_def str_bytes_def)

lemma prefix_append [simp]: "bytes_prefix p (p @ b)"
  by (simp add: bytes_prefix_def)

lemma seal_open [simp]: "aead_ok A \<Longrightarrow> gcm_open A k n (gcm_seal A k n p) = Some p"
  "aead_ok A \<Longrightarrow> length (gcm_seal A k n p) = length p + 16"
  "aead_ok A \<Longrightarrow> length (hkdf_key A k i) = 32"
  unfolding aead_ok_def by blast+

lemma gcm_open_length: "aead_ok A \<Longrightarrow> gcm_open A k n c = Some p \<Longrightarrow> length c = length p + 16"
  unfolding aead_ok_def by blast

lemma length_SubKey [simp]: "aead_ok A \<Longrightarrow> length (SubKey A v t) = 32"
  by (simp add: SubKey_def)

section \<open>Boxes\<close>

lemma box_roundtrip:
  "aead_ok A \<Longrightarrow> length key = 32 \<Longrightarrow> length n = 12 \<Longrightarrow> aesGCMSeal A key n p = Inr (n @ gcm_seal A key n p)
    \<and> aesGCMOpen A key (n @ gcm_seal A key n p) = Inr p"
  by (auto simp: aesGCMSeal_def aesGCMOpen_def)

lemma va_Seal_eq: "aead_ok A \<Longrightarrow> good_rand r \<Longrightarrow> va_Seal A r v t p =
   Inr (vaultMagic @ put64 (va_Epoch v) @ (sr_n1 r @ gcm_seal A (SubKey A v t) (sr_n1 r) (sr_dk r))
     @ sr_n2 r @ gcm_seal A (sr_dk r) (sr_n2 r) p)"
  by (simp add: va_Seal_def good_rand_def box_roundtrip)

lemma va_open_parts:
  assumes "length box = 60"
  shows "va_Open A v t (vaultMagic @ put64 e @ box @ data) =
    (if e \<noteq> va_Epoch v then Inl (WrongEpoch e (va_Epoch v))
     else (case aesGCMOpen A (SubKey A v t) box of Inl _ \<Rightarrow> Inl DkUnwrap | Inr dk \<Rightarrow> aesGCMOpen A dk data))"
  using assms by (auto simp: va_Open_def Let_def split: sum.splits)

lemma va_roundtrip:
  "aead_ok A \<Longrightarrow> good_rand r \<Longrightarrow> \<exists>blob. va_Seal A r v t p = Inr blob \<and> va_Open A v t blob = Inr p"
  using box_roundtrip [of A "SubKey A v t" "sr_n1 r" "sr_dk r"] box_roundtrip [of A "sr_dk r" "sr_n2 r" p]
    va_open_parts [of "sr_n1 r @ gcm_seal A (SubKey A v t) (sr_n1 r) (sr_dk r)"]
  by (simp add: va_Seal_eq good_rand_def)

text \<open>
  C24: a file sealed by a vault opens under that vault and tenant with the same content; the
  key file written under a 32-byte key-encryption key gives the vault back; and the legacy seal opens.
\<close>

theorem vault_roundtrip:
  assumes "aead_ok A" "good_rand r" "length kek = 32" "length (va_DEK v) = 32"
  shows "(\<exists>blob. va_Seal A r v tenant msg = Inr blob \<and> va_Open A v tenant blob = Inr msg)
    \<and> (\<exists>f. vault_key_file A (sr_n1 r) kek v = Inr f \<and> read_key_file A kek f = Inr v)
    \<and> (\<exists>b. seal A (sr_n1 r) kek msg = Inr b \<and> openSealed A kek b = Inr msg)"
proof (intro conjI)
  show "\<exists>blob. va_Seal A r v tenant msg = Inr blob \<and> va_Open A v tenant blob = Inr msg"
    by (rule va_roundtrip [OF assms(1,2)])
next
  have n: "length (sr_n1 r) = 12" using assms(2) by (simp add: good_rand_def)
  show "\<exists>f. vault_key_file A (sr_n1 r) kek v = Inr f \<and> read_key_file A kek f = Inr v"
    using box_roundtrip [OF assms(1,3) n, of "va_DEK v @ put64 (va_Epoch v)"] assms n
    by (simp add: vault_key_file_def read_key_file_def)
next
  have n: "length (sr_n1 r) = 12" using assms(2) by (simp add: good_rand_def)
  show "\<exists>b. seal A (sr_n1 r) kek msg = Inr b \<and> openSealed A kek b = Inr msg"
    using assms n by (simp add: seal_def openSealed_def)
qed

definition demo_rand :: seal_rand where
  "demo_rand = \<lparr>sr_dk = replicate 32 7, sr_n1 = replicate 12 1, sr_n2 = replicate 12 2\<rparr>"

lemma demo_rand_ok: "good_rand demo_rand"
  by (simp add: good_rand_def demo_rand_def)

theorem vault_roundtrip_witness:
  "\<exists>blob. va_Seal toy_aead demo_rand (NewVault (replicate 32 9)) ''acme'' [1, 2] = Inr blob
     \<and> va_Open toy_aead (NewVault (replicate 32 9)) ''acme'' blob = Inr [1, 2]"
  using vault_roundtrip [OF toy_aead_ok demo_rand_ok, of "replicate 32 0" "NewVault (replicate 32 9)"]
  by (simp add: NewVault_def)

section \<open>Epochs and tenants\<close>

lemma no_zero_split:
  "a @ 0 # x = b @ 0 # y \<Longrightarrow> length x = length y \<Longrightarrow> a = b \<and> x = (y :: bytes)"
  by (simp add: append_eq_append_conv)

text \<open>
  A vault opens no file of another epoch, whatever the tenant; a file it opens carries its own
  epoch, a data key boxed under that tenant's subkey and the content boxed under the data key, so at least
  102 bytes; and two tenants or two epochs never ask for the same subkey.
\<close>

theorem vault_stale:
  assumes "aead_ok A"
  shows "(good_rand r \<and> va_Seal A r v t p = Inr blob \<and> va_Epoch w \<noteq> va_Epoch v
      \<longrightarrow> va_Open A w u blob = Inl (WrongEpoch (va_Epoch v) (va_Epoch w)))
    \<and> (va_Open A w u blob = Inr q \<longrightarrow> get64 (drop 6 blob) = va_Epoch w \<and> length blob = 102 + length q
      \<and> (\<exists>dk. gcm_open A (SubKey A w u) (take 12 (drop 14 blob)) (take 48 (drop 26 blob)) = Some dk
            \<and> gcm_open A dk (take 12 (drop 74 blob)) (drop 86 blob) = Some q))
    \<and> (subkey_info v t = subkey_info w u \<longleftrightarrow> t = u \<and> va_Epoch v = va_Epoch w)"
proof -
  have stale: "va_Open A w u blob = Inl (WrongEpoch (va_Epoch v) (va_Epoch w))"
    if "good_rand r" "va_Seal A r v t p = Inr blob" "va_Epoch w \<noteq> va_Epoch v"
  proof -
    have "length (sr_n1 r @ gcm_seal A (SubKey A v t) (sr_n1 r) (sr_dk r)) = 60"
      using that(1) assms by (simp add: good_rand_def)
    from va_open_parts [OF this, of A w u "va_Epoch v"] that assms show ?thesis
      by (auto simp: va_Seal_eq)
  qed
  have whole: "get64 (drop 6 blob) = va_Epoch w \<and> length blob = 102 + length q
      \<and> (\<exists>dk. gcm_open A (SubKey A w u) (take 12 (drop 14 blob)) (take 48 (drop 26 blob)) = Some dk
            \<and> gcm_open A dk (take 12 (drop 74 blob)) (drop 86 blob) = Some q)" if o: "va_Open A w u blob = Inr q"
  proof -
  from o obtain dk where g: "\<not> length blob < 74" "get64 (drop 6 blob) = va_Epoch w"
    "aesGCMOpen A (SubKey A w u) (take 60 (drop 14 blob)) = Inr dk" "aesGCMOpen A dk (drop 74 blob) = Inr q"
    by (auto simp: va_Open_def Let_def split: if_splits sum.splits)
  have a: "gcm_open A (SubKey A w u) (take 12 (drop 14 blob)) (take 48 (drop 26 blob)) = Some dk"
    using g(3) by (auto simp: aesGCMOpen_def take_drop [symmetric] drop_take split: if_splits option.splits)
  have b: "gcm_open A dk (take 12 (drop 74 blob)) (drop 86 blob) = Some q" "\<not> length blob < 102"
    using g(4) by (auto simp: aesGCMOpen_def split: if_splits option.splits)
  have "length blob = 102 + length q" using gcm_open_length [OF assms b(1)] b(2) by simp
  with a b g(2) show "get64 (drop 6 blob) = va_Epoch w \<and> length blob = 102 + length q
      \<and> (\<exists>dk. gcm_open A (SubKey A w u) (take 12 (drop 14 blob)) (take 48 (drop 26 blob)) = Some dk
            \<and> gcm_open A dk (take 12 (drop 74 blob)) (drop 86 blob) = Some q)" by blast
  qed
  have "subkey_info v t = subkey_info w u \<longleftrightarrow> t = u \<and> va_Epoch v = va_Epoch w"
  proof
    assume "subkey_info v t = subkey_info w u"
    then have "str_bytes t @ 0 # put64 (va_Epoch v) = str_bytes u @ 0 # put64 (va_Epoch w)"
      by (simp add: subkey_info_def)
    from no_zero_split [OF this] have "str_bytes t = str_bytes u" "va_Epoch v = va_Epoch w" by simp_all
    moreover have "map (\<lambda>b. char_of (unat b)) (str_bytes x) = (x :: string)" for x
      by (simp add: str_bytes_def comp_def)
    ultimately show "t = u \<and> va_Epoch v = va_Epoch w" by metis
  qed (simp add: subkey_info_def)
  with stale whole show ?thesis by blast
qed

theorem vault_stale_witness:
  "\<exists>blob. va_Seal toy_aead demo_rand (NewVault (replicate 32 9)) ''acme'' [1, 2] = Inr blob
     \<and> va_Open toy_aead \<lparr>va_DEK = replicate 32 9, va_Epoch = 2\<rparr> ''acme'' blob = Inl (WrongEpoch 1 2)"
proof -
  obtain blob where b: "va_Seal toy_aead demo_rand (NewVault (replicate 32 9)) ''acme'' [1, 2] = Inr blob"
    using va_roundtrip [OF toy_aead_ok demo_rand_ok] by blast
  show ?thesis
    using vault_stale [OF toy_aead_ok, of demo_rand "NewVault (replicate 32 9)" "''acme''" "[1, 2]" blob
        "\<lparr>va_DEK = replicate 32 9, va_Epoch = 2\<rparr>" "''acme''"] b demo_rand_ok
    by (simp add: NewVault_def)
qed

end
