(* ===== verification/Access.thy ===== *)
theory Access
  imports Prims "HOL-Library.AList" "HOL-Library.Char_ord" "HOL-Library.List_Lexorder"
begin

text \<open>
  Users, bearer tokens and roles (\<open>auth.go\<close>) and the role check and authentication of \<open>api.go\<close>.  A token is
  kept as the hex of its SHA-256 digest.  Header and role strings are ASCII.
\<close>

section \<open>Roles and users\<close>

abbreviation RoleAdmin :: string where "RoleAdmin \<equiv> ''admin''"
abbreviation RoleOperator :: string where "RoleOperator \<equiv> ''operator''"
abbreviation RoleAuditor :: string where "RoleAuditor \<equiv> ''auditor''"
abbreviation RoleViewer :: string where "RoleViewer \<equiv> ''viewer''"

definition validRoles :: "string list" where
  "validRoles = [RoleAdmin, RoleOperator, RoleAuditor, RoleViewer]"

record User =
  us_ID :: string
  us_Role :: string
  us_Orgs :: "string list"
  us_Tokens :: "string list"
  us_TokenOrgs :: "(string \<times> string list) list"

definition inOrg :: "User \<Rightarrow> string \<Rightarrow> bool" where
  "inOrg u org \<longleftrightarrow> us_Orgs u = [] \<or> org \<in> set (us_Orgs u)"

definition tokenInOrg :: "User \<Rightarrow> string \<Rightarrow> string \<Rightarrow> bool" where
  "tokenInOrg u h org \<longleftrightarrow> (case map_of (us_TokenOrgs u) h of None \<Rightarrow> True | Some scopes \<Rightarrow> org \<in> set scopes)"

definition sha256Hex :: "prims \<Rightarrow> bytes \<Rightarrow> string" where
  "sha256Hex P b = hex_encode (sha256 P b)"

definition tokenHash :: "prims \<Rightarrow> string \<Rightarrow> string" where
  "tokenHash P raw = hex_encode (sha256 P (str_bytes raw))"

text \<open>\<open>b\<close> are the 32 random bytes; a failing reader is None at the callers.\<close>

definition NewToken :: "prims \<Rightarrow> bytes \<Rightarrow> string list \<Rightarrow> User \<Rightarrow> string \<times> User" where
  "NewToken P b orgs u = (let raw = hex_encode b; h = tokenHash P raw in
     (raw, u\<lparr>us_Tokens := us_Tokens u @ [h],
             us_TokenOrgs := (if orgs = [] then us_TokenOrgs u else AList.update h orgs (us_TokenOrgs u))\<rparr>))"

definition Authed :: "prims \<Rightarrow> string \<Rightarrow> User \<Rightarrow> bool" where
  "Authed P raw u \<longleftrightarrow> tokenHash P raw \<in> set (us_Tokens u)"

section \<open>The Authorization header\<close>

definition is_space :: "char \<Rightarrow> bool" where
  "is_space c \<longleftrightarrow> (of_char c :: nat) \<in> {9, 10, 11, 12, 13, 32}"

text \<open>\<open>strings.Fields\<close>: \<open>cur\<close> is the field being read.\<close>

fun fields_from :: "string \<Rightarrow> string \<Rightarrow> string list" where
  "fields_from cur [] = (if cur = [] then [] else [cur])"
| "fields_from cur (c # cs) =
     (if is_space c then (if cur = [] then [] else [cur]) @ fields_from [] cs else fields_from (cur @ [c]) cs)"

definition BearerToken :: "string \<Rightarrow> string option" where
  "BearerToken hdr = (case fields_from [] hdr of
     [scheme, tok] \<Rightarrow> if map lower scheme = ''bearer'' \<and> tok \<noteq> [] then Some tok else None
   | _ \<Rightarrow> None)"

definition NewUser :: "prims \<Rightarrow> bytes \<Rightarrow> string \<Rightarrow> string \<Rightarrow> string list \<Rightarrow> (User \<times> string) option" where
  "NewUser P b ident role orgs = (if role \<notin> set validRoles then None
     else (case NewToken P b [] \<lparr>us_ID = ident, us_Role = role, us_Orgs = orgs, us_Tokens = [], us_TokenOrgs = []\<rparr> of
         (raw, u) \<Rightarrow> Some (u, raw)))"

section \<open>Checks of the middleware\<close>

definition hasRole :: "string \<Rightarrow> string list \<Rightarrow> bool" where
  "hasRole role want \<longleftrightarrow> want = [] \<or> role \<in> set want"

datatype auth_error = MalformedHeader | InvalidToken

text \<open>The first user, in map order, whose tokens hold the digest.\<close>

definition authenticate :: "prims \<Rightarrow> (string \<times> User) list \<Rightarrow> string \<Rightarrow> auth_error + (User \<times> string)" where
  "authenticate P users hdr = (case BearerToken hdr of
     None \<Rightarrow> Inl MalformedHeader
   | Some raw \<Rightarrow> (case find (\<lambda>(i, u). Authed P raw u) users of
        None \<Rightarrow> Inl InvalidToken
      | Some (i, u) \<Rightarrow> Inr (u, tokenHash P raw)))"

section \<open>Facts\<close>

lemma hex_encode_inject: "hex_encode a = hex_encode b \<longleftrightarrow> a = b"
  by (metis hex_roundtrip option.inject)

lemma NewToken_authed: "NewToken P b orgs u = (raw, u') \<Longrightarrow> Authed P raw u'"
  by (auto simp: NewToken_def Authed_def Let_def)

lemma NewToken_keeps: "NewToken P b orgs u = (raw, u') \<Longrightarrow> us_ID u' = us_ID u \<and> us_Role u' = us_Role u \<and> us_Orgs u' = us_Orgs u"
  by (auto simp: NewToken_def Let_def)

lemma NewToken_only:
  "NewToken P b orgs u = (raw, u') \<Longrightarrow> Authed P r u' \<longleftrightarrow> Authed P r u \<or> tokenHash P r = tokenHash P raw"
  by (auto simp: NewToken_def Authed_def Let_def)

lemma NewToken_scope:
  "NewToken P b orgs u = (raw, u') \<Longrightarrow> orgs \<noteq> [] \<Longrightarrow> tokenInOrg u' (tokenHash P raw) org \<longleftrightarrow> org \<in> set orgs"
  by (auto simp: NewToken_def tokenInOrg_def Let_def update_Some_unfold update_conv')

lemma authenticate_user:
  "authenticate P users hdr = Inr (u, h) \<Longrightarrow> \<exists>i raw. (i, u) \<in> set users \<and> BearerToken hdr = Some raw
     \<and> h = tokenHash P raw \<and> Authed P raw u"
  by (auto simp: authenticate_def find_Some_iff split: option.splits) (metis nth_mem)

end
