(* ===== verification/Store.thy ===== *)
theory Store
  imports Access Fleet Vault Council CTLog
begin

text \<open>
  The gateway's state and its files (\<open>store.go\<close>).  A file is a path (the segments under the root, as
  \<open>filepath.Join\<close> cleans them) with its bytes; one write is the temporary file and its rename, and fails
  or happens as a whole (\<open>en_io\<close>).  Go maps are association lists in some order; a nil value in a
  decoded map, which the code would dereference, is refused.  Indented JSON is written in its compact form.
\<close>

section \<open>Paths and the environment\<close>

type_synonym path = "string list"

fun split_from :: "string \<Rightarrow> string \<Rightarrow> string list" where
  "split_from cur [] = [cur]"
| "split_from cur (c # cs) = (if c = CHR ''/'' then cur # split_from [] cs else split_from (cur @ [c]) cs)"

text \<open>\<open>filepath.Clean\<close> of a rooted path.\<close>

definition clean :: "string list \<Rightarrow> path" where
  "clean segs = fold (\<lambda>s acc. if s = [] \<or> s = ''.'' then acc else if s = ''..'' then butlast acc else acc @ [s]) segs []"

definition path_join :: "path \<Rightarrow> string list \<Rightarrow> path" where
  "path_join dir elems = clean (dir @ concat (map (split_from []) elems))"

text \<open>
  What one operation takes from outside: the clocks, the random bytes (None where the reader fails), which
  writes and renames succeed, the standard parser of URLs (scheme and host name), and the standard text form
  of numbers that are not integer literals (\<open>en_num\<close> reads it, \<open>en_fnum\<close> writes it).
\<close>

record env =
  en_now :: int
  en_nano :: int
  en_token :: "bytes option"
  en_seed :: "bytes option"
  en_dek :: "bytes option"
  en_seal :: "path \<Rightarrow> seal_rand"
  en_io :: "path \<Rightarrow> bool"
  en_url :: "string \<Rightarrow> (string \<times> string) option"
  en_num :: "string \<Rightarrow> f64 option"
  en_fnum :: "f64 \<Rightarrow> string"

section \<open>The state\<close>

definition auditCap :: nat where "auditCap = 5000"

definition gw_threshold :: f64 where "gw_threshold = Fin 25"
definition gw_quorum :: int where "gw_quorum = 3"

record AuditEntry =
  ae_Ts :: int
  ae_User :: string
  ae_Org :: string
  ae_Method :: string
  ae_Path :: string
  ae_Status :: int
  ae_Details :: string

text \<open>A tenant whose file could not be opened at boot has no timeline yet (None).\<close>

record Tenant =
  tn_ID :: string
  tn_Name :: string
  tn_Created :: int
  tn_KeyHash :: string
  tn_tl :: "Timeline option"
  tn_fleet :: FleetServer
  tn_detected :: bool
  tn_counters :: "(string \<times> int) list"
  tn_ctSize :: int
  tn_ctRoot :: bytes

record Webhook =
  wh_ID :: string
  wh_URL :: string
  wh_Secret :: string
  wh_Events :: "string list"
  wh_Active :: bool

record webhookJob =
  wj_URL :: string
  wj_Secret :: string
  wj_Events :: string
  wj_Body :: string
  wj_Attempts :: int
  wj_NextAt :: int

datatype api_error =
    MissingAuth | BadToken | InsufficientRole "string list" | RateLimited | NoSuchOrg string
  | NotScoped string string | TokenNotScoped string | HandlerPanic | EmptyBody | BadBody | IDAndRole | UserExists string
  | UnknownRole string | RandError | WriteError | NoSuchUser string | NameRequired | TenantExists string
  | NoSuchTenant string | RenameError | NoSuchWebhook string | NoSuchBackup string | BadURL | CertIDRequired
  | CertAndIdentity | NodeRequired | TimelineError tl_error | VaultFailure vault_error | VaultLocked | NotExist
  | CorruptGateway | NotABundle | BadBundleVersion int | TenantTimeline string tl_error | TenantUnverified string
  | TimelineAndCommit | NoAnchor | BadHandoff | BadFork tl_error | ForkUnverified | NoHandoff | NotDescendant
  | PrefixMismatch | EpochStale | BadRange | CTError ct_error | NoProofArgs | BadProofHex | NotScopedThat | SharesRequired

datatype rbody = RJson json | RErr api_error | RRaw bytes | RMetrics "(string \<times> string \<times> int) list"

record response =
  rs_status :: int
  rs_body :: rbody

record idemEntry =
  ie_resp :: response
  ie_ts :: int

text \<open>
  \<open>st_disk\<close> are the files; \<open>st_held\<close> says that a panic left the mutex locked: every later operation that
  locks it waits for ever.
\<close>

record Store =
  st_dir :: path
  st_sealKey :: bytes
  st_vault :: "Vault option"
  st_Users :: "(string \<times> User) list"
  st_Webhooks :: "Webhook list"
  st_Tenants :: "(string \<times> Tenant) list"
  st_CouncilPub :: slice
  st_LogKey :: slice
  st_audit :: "AuditEntry list"
  st_started :: int
  st_outbox :: "webhookJob list option"
  st_idem :: "(string \<times> idemEntry) list"
  st_apiLimiter :: limiter
  st_disk :: "(path \<times> bytes) list"
  st_held :: bool

definition new_fleet :: FleetServer where
  "new_fleet = NewFleet gw_threshold gw_quorum 0"

definition st_zero :: Store where
  "st_zero = \<lparr>st_dir = [], st_sealKey = [], st_vault = None, st_Users = [], st_Webhooks = [], st_Tenants = [],
     st_CouncilPub = None, st_LogKey = None, st_audit = [], st_started = 0, st_outbox = None, st_idem = [],
     st_apiLimiter = newLimiter apiRate apiBurst, st_disk = [], st_held = False\<rparr>"

section \<open>Documents\<close>

text \<open>A Go map is written with its keys in byte order.\<close>

definition json_map :: "(string \<times> json) list \<Rightarrow> json" where
  "json_map kvs = JObj (sort_key fst kvs)"

definition json_strs :: "string list \<Rightarrow> json" where
  "json_strs ss = (if ss = [] then JNull else JArr (map JStr ss))"

definition us_json :: "User \<Rightarrow> json" where
  "us_json u = JObj ([(''id'', JStr (us_ID u)), (''role'', JStr (us_Role u))]
     @ (if us_Orgs u = [] then [] else [(''orgs'', json_strs (us_Orgs u))])
     @ [(''tokens'', json_strs (us_Tokens u))]
     @ (if us_TokenOrgs u = [] then [] else [(''token_orgs'', json_map (map (\<lambda>(k, v). (k, json_strs v)) (us_TokenOrgs u)))]))"

definition tn_json :: "Tenant \<Rightarrow> json" where
  "tn_json t = JObj [(''id'', JStr (tn_ID t)), (''name'', JStr (tn_Name t)), (''created'', JInt (tn_Created t)),
     (''key_hash'', JStr (tn_KeyHash t))]"

definition wh_json :: "Webhook \<Rightarrow> json" where
  "wh_json h = JObj [(''id'', JStr (wh_ID h)), (''url'', JStr (wh_URL h)), (''secret'', JStr (wh_Secret h)),
     (''events'', json_strs (wh_Events h)), (''active'', JBool (wh_Active h))]"

definition wj_json :: "webhookJob \<Rightarrow> json" where
  "wj_json j = JObj [(''url'', JStr (wj_URL j)), (''secret'', JStr (wj_Secret j)), (''events'', JStr (wj_Events j)),
     (''body'', JStr (wj_Body j)), (''attempts'', JInt (wj_Attempts j)), (''next_at'', JInt (wj_NextAt j))]"

definition st_json :: "prims \<Rightarrow> Store \<Rightarrow> json" where
  "st_json P s = JObj ([(''users'', json_map (map (\<lambda>(k, u). (k, us_json u)) (st_Users s))),
      (''webhooks'', if st_Webhooks s = [] then JNull else JArr (map wh_json (st_Webhooks s))),
      (''tenants'', json_map (map (\<lambda>(k, t). (k, tn_json t)) (st_Tenants s)))]
     @ omit_slice P ''council_pub'' (st_CouncilPub s) @ omit_slice P ''log_key'' (st_LogKey s))"

text \<open>Reading a map: a repeated key keeps the last value.\<close>

fun map_members :: "(json \<Rightarrow> 'v option) \<Rightarrow> (string \<times> json) list \<Rightarrow> (string \<times> 'v) list \<Rightarrow> (string \<times> 'v) list option" where
  "map_members d [] m = Some m"
| "map_members d ((k, j) # kvs) m = (case d j of None \<Rightarrow> None | Some v \<Rightarrow> map_members d kvs (AList.update k v m))"

definition map_field ::
  "(json \<Rightarrow> 'v option) \<Rightarrow> string \<Rightarrow> ('r \<Rightarrow> (string \<times> 'v) list) \<Rightarrow> ((string \<times> 'v) list \<Rightarrow> 'r \<Rightarrow> 'r) \<Rightarrow> 'r field" where
  "map_field d name old upd = (name, \<lambda>j r. case j of
     JObj kvs \<Rightarrow> map_option (\<lambda>m. upd m r) (map_members d kvs (old r)) | JNull \<Rightarrow> Some (upd [] r) | _ \<Rightarrow> None)"

definition not_null :: "(json \<Rightarrow> 'v option) \<Rightarrow> json \<Rightarrow> 'v option" where
  "not_null d j = (if j = JNull then None else d j)"

definition us_zero :: User where
  "us_zero = \<lparr>us_ID = [], us_Role = [], us_Orgs = [], us_Tokens = [], us_TokenOrgs = []\<rparr>"

definition us_fields :: "User field list" where
  "us_fields = [string_field ''id'' (\<lambda>x u. u\<lparr>us_ID := x\<rparr>), string_field ''role'' (\<lambda>x u. u\<lparr>us_Role := x\<rparr>),
     strings_field ''orgs'' (\<lambda>x u. u\<lparr>us_Orgs := x\<rparr>), strings_field ''tokens'' (\<lambda>x u. u\<lparr>us_Tokens := x\<rparr>),
     map_field json_strings ''token_orgs'' us_TokenOrgs (\<lambda>x u. u\<lparr>us_TokenOrgs := x\<rparr>)]"

definition tn_zero :: Tenant where
  "tn_zero = \<lparr>tn_ID = [], tn_Name = [], tn_Created = 0, tn_KeyHash = [], tn_tl = None, tn_fleet = new_fleet,
     tn_detected = False, tn_counters = [], tn_ctSize = 0, tn_ctRoot = []\<rparr>"

definition tn_fields :: "Tenant field list" where
  "tn_fields = [string_field ''id'' (\<lambda>x t. t\<lparr>tn_ID := x\<rparr>), string_field ''name'' (\<lambda>x t. t\<lparr>tn_Name := x\<rparr>),
     int_field ''created'' (\<lambda>x t. t\<lparr>tn_Created := x\<rparr>), string_field ''key_hash'' (\<lambda>x t. t\<lparr>tn_KeyHash := x\<rparr>)]"

definition wh_zero :: Webhook where
  "wh_zero = \<lparr>wh_ID = [], wh_URL = [], wh_Secret = [], wh_Events = [], wh_Active = False\<rparr>"

definition wh_fields :: "Webhook field list" where
  "wh_fields = [string_field ''id'' (\<lambda>x h. h\<lparr>wh_ID := x\<rparr>), string_field ''url'' (\<lambda>x h. h\<lparr>wh_URL := x\<rparr>),
     string_field ''secret'' (\<lambda>x h. h\<lparr>wh_Secret := x\<rparr>), strings_field ''events'' (\<lambda>x h. h\<lparr>wh_Events := x\<rparr>),
     bool_field ''active'' (\<lambda>x h. h\<lparr>wh_Active := x\<rparr>)]"

definition wj_zero :: webhookJob where
  "wj_zero = \<lparr>wj_URL = [], wj_Secret = [], wj_Events = [], wj_Body = [], wj_Attempts = 0, wj_NextAt = 0\<rparr>"

definition wj_fields :: "webhookJob field list" where
  "wj_fields = [string_field ''url'' (\<lambda>x j. j\<lparr>wj_URL := x\<rparr>), string_field ''secret'' (\<lambda>x j. j\<lparr>wj_Secret := x\<rparr>),
     string_field ''events'' (\<lambda>x j. j\<lparr>wj_Events := x\<rparr>), string_field ''body'' (\<lambda>x j. j\<lparr>wj_Body := x\<rparr>),
     int_field ''attempts'' (\<lambda>x j. j\<lparr>wj_Attempts := x\<rparr>), int_field ''next_at'' (\<lambda>x j. j\<lparr>wj_NextAt := x\<rparr>)]"

definition st_fields :: "prims \<Rightarrow> Store field list" where
  "st_fields P = [map_field (not_null (decode_struct us_fields us_zero)) ''users'' st_Users (\<lambda>x s. s\<lparr>st_Users := x\<rparr>),
     structs_field wh_fields wh_zero ''webhooks'' (\<lambda>x s. s\<lparr>st_Webhooks := x\<rparr>),
     map_field (not_null (decode_struct tn_fields tn_zero)) ''tenants'' st_Tenants (\<lambda>x s. s\<lparr>st_Tenants := x\<rparr>),
     slice_field (b64_dec P) ''council_pub'' (\<lambda>x s. s\<lparr>st_CouncilPub := x\<rparr>),
     slice_field (b64_dec P) ''log_key'' (\<lambda>x s. s\<lparr>st_LogKey := x\<rparr>)]"

section \<open>Files\<close>

definition gatewayJson :: "Store \<Rightarrow> path" where "gatewayJson s = path_join (st_dir s) [''gateway.json'']"
definition gatewayKey :: "path \<Rightarrow> path" where "gatewayKey dir = path_join dir [''gateway.key'']"
definition gatewayKeys :: "Store \<Rightarrow> path" where "gatewayKeys s = path_join (st_dir s) [''gateway.keys'']"
definition tenantPath :: "path \<Rightarrow> string \<Rightarrow> path" where "tenantPath dir i = path_join dir [''tenants'', i, ''timeline.json'']"

definition writeFileAtomic :: "env \<Rightarrow> path \<Rightarrow> bytes \<Rightarrow> Store \<Rightarrow> api_error option \<times> Store" where
  "writeFileAtomic E p b s = (if en_io E p then (None, s\<lparr>st_disk := AList.update p b (st_disk s)\<rparr>) else (Some WriteError, s))"

definition saveMeta :: "prims \<Rightarrow> env \<Rightarrow> Store \<Rightarrow> api_error option \<times> Store" where
  "saveMeta P E s = writeFileAtomic E (gatewayJson s) (json_text P (st_json P s)) s"

definition saveTenantBlob :: "aead \<Rightarrow> env \<Rightarrow> Tenant \<Rightarrow> bytes \<Rightarrow> Store \<Rightarrow> api_error option \<times> Store" where
  "saveTenantBlob A E t b s =
     (let p = tenantPath (st_dir s) (tn_ID t); r = en_seal E p;
          boxed = (case st_vault s of
              Some v \<Rightarrow> va_Seal A r v (tn_ID t) b
            | None \<Rightarrow> if length (st_sealKey s) = 32 then seal A (sr_n1 r) (st_sealKey s) b else Inr b)
      in case boxed of Inl e \<Rightarrow> (Some (VaultFailure e), s) | Inr c \<Rightarrow> writeFileAtomic E p c s)"

text \<open>Marshalling a nil timeline is a panic: None.\<close>

definition saveTenant :: "prims \<Rightarrow> aead \<Rightarrow> env \<Rightarrow> Tenant \<Rightarrow> Store \<Rightarrow> (api_error option \<times> Store) option" where
  "saveTenant P A E t s = (case tn_tl t of
     None \<Rightarrow> None | Some tln \<Rightarrow> Some (saveTenantBlob A E t (tl_Marshal P tln True) s))"

definition loadTenantTimeline :: "prims \<Rightarrow> aead \<Rightarrow> Store \<Rightarrow> string \<Rightarrow> api_error + Timeline" where
  "loadTenantTimeline P A s i = (case map_of (st_disk s) (tenantPath (st_dir s) i) of
     None \<Rightarrow> Inl NotExist
   | Some b \<Rightarrow>
      let opened = (if bytes_prefix vaultMagic b
            then (case st_vault s of None \<Rightarrow> Inl VaultLocked | Some v \<Rightarrow> map_sum VaultFailure id (va_Open A v i b))
            else if \<not> bytes_prefix encMagic b then Inr b
            else map_sum VaultFailure id (openSealed A (st_sealKey s) b))
      in case opened of Inl e \<Rightarrow> Inl e | Inr raw \<Rightarrow> map_sum TimelineError id (UnmarshalTimeline P raw))"

text \<open>The anchor is stamped on a loaded timeline that carries none.\<close>

definition restamp :: "Store \<Rightarrow> Timeline \<Rightarrow> Timeline" where
  "restamp s tln = (if length (slice_bytes (st_CouncilPub s)) = 32 \<and> slice_bytes (CouncilPub tln) = []
     then SetCouncilPub (slice_bytes (st_CouncilPub s)) tln else tln)"

definition hydrate :: "Timeline option \<Rightarrow> Tenant \<Rightarrow> Tenant" where
  "hydrate tln t = t\<lparr>tn_tl := tln, tn_fleet := new_fleet, tn_counters := []\<rparr>"

definition put_tenant :: "string \<Rightarrow> Tenant \<Rightarrow> Store \<Rightarrow> Store" where
  "put_tenant i t s = s\<lparr>st_Tenants := AList.update i t (st_Tenants s)\<rparr>"

section \<open>Boot\<close>

text \<open>The loop of \<open>NewStore\<close>: a vault-sealed tenant waits for the shares, any other error stops the boot.\<close>

fun load_tenants :: "prims \<Rightarrow> aead \<Rightarrow> string list \<Rightarrow> Store \<Rightarrow> api_error + Store" where
  "load_tenants P A [] s = Inr s"
| "load_tenants P A (i # is) s = (case map_of (st_Tenants s) i of
     None \<Rightarrow> load_tenants P A is s
   | Some t \<Rightarrow> (case loadTenantTimeline P A s i of
        Inr tln \<Rightarrow> load_tenants P A is (put_tenant i (hydrate (Some (restamp s tln)) t) s)
      | Inl VaultLocked \<Rightarrow> load_tenants P A is (put_tenant i (hydrate None t) s)
      | Inl e \<Rightarrow> Inl e))"

text \<open>An outbox file that does not decode is ignored.  The outbox is nil (None) until a job was queued or loaded.\<close>

definition loadOutbox :: "prims \<Rightarrow> Store \<Rightarrow> Store" where
  "loadOutbox P s = (case map_of (st_disk s) (path_join (st_dir s) [''outbox.json'']) of
     None \<Rightarrow> s
   | Some b \<Rightarrow> (case json_parse P b of
        Some JNull \<Rightarrow> s\<lparr>st_outbox := None\<rparr>
      | Some (JArr js) \<Rightarrow> (case those (map (decode_struct wj_fields wj_zero) js) of
            None \<Rightarrow> s | Some x \<Rightarrow> s\<lparr>st_outbox := Some x\<rparr>)
      | _ \<Rightarrow> s))"

text \<open>\<open>sk\<close> and \<open>lk\<close> are the random bytes of a new seal key and a new log key.\<close>

definition NewStore ::
  "prims \<Rightarrow> aead \<Rightarrow> env \<Rightarrow> bytes \<Rightarrow> bytes \<Rightarrow> path \<Rightarrow> (path \<times> bytes) list \<Rightarrow> api_error + Store" where
  "NewStore P A E sk lk dir disk =
     (let s0 = st_zero\<lparr>st_dir := dir, st_disk := disk, st_started := en_now E\<rparr>;
          key = (case map_of disk (gatewayKey dir) of Some k \<Rightarrow> k | None \<Rightarrow> []);
          (e1, s1) = (if length key = 32 then (None, s0\<lparr>st_sealKey := key\<rparr>)
                      else writeFileAtomic E (gatewayKey dir) sk (s0\<lparr>st_sealKey := sk\<rparr>))
      in case e1 of Some e \<Rightarrow> Inl e
       | None \<Rightarrow>
         (case (case map_of (st_disk s1) (gatewayJson s1) of
              None \<Rightarrow> Inr s1
            | Some b \<Rightarrow> (case unmarshal P (st_fields P) s1 b of
                None \<Rightarrow> Inl CorruptGateway
              | Some s2 \<Rightarrow> let s3 = loadOutbox P s2 in load_tenants P A (map fst (st_Tenants s3)) s3)) of
            Inl e \<Rightarrow> Inl e
          | Inr s4 \<Rightarrow>
              if length (slice_bytes (st_LogKey s4)) = 32 then Inr s4
              else (case saveMeta P E (s4\<lparr>st_LogKey := Some lk\<rparr>) of (None, s5) \<Rightarrow> Inr s5 | (Some e, _) \<Rightarrow> Inl e)))"

section \<open>Tenants\<close>

definition SetCouncilPub_store :: "prims \<Rightarrow> env \<Rightarrow> bytes \<Rightarrow> Store \<Rightarrow> api_error option \<times> Store" where
  "SetCouncilPub_store P E pub s = saveMeta P E (s\<lparr>st_CouncilPub := (if pub = [] then None else Some pub)\<rparr>)"

text \<open>
  The new timeline of \<open>CreateTenant\<close>: an Ed25519 key from the random seed, under the council's anchor when
  one is set.
\<close>

definition new_tenant :: "prims \<Rightarrow> env \<Rightarrow> bytes \<Rightarrow> string \<Rightarrow> string \<Rightarrow> Store \<Rightarrow> api_error + Tenant" where
  "new_tenant P E seed i nm s = (case NewTimeline (Some (ed_newkey P seed)) of
     Inl e \<Rightarrow> Inl (TimelineError e)
   | Inr tln \<Rightarrow> Inr \<lparr>tn_ID = i, tn_Name = nm, tn_Created = en_now E, tn_KeyHash = sha256Hex P (take 32 (ed_newkey P seed)),
        tn_tl = Some (if length (slice_bytes (st_CouncilPub s)) = 32 then SetCouncilPub (slice_bytes (st_CouncilPub s)) tln else tln),
        tn_fleet = new_fleet, tn_detected = False, tn_counters = [], tn_ctSize = 0, tn_ctRoot = []\<rparr>)"

definition CreateTenant :: "prims \<Rightarrow> aead \<Rightarrow> env \<Rightarrow> string \<Rightarrow> string \<Rightarrow> Store \<Rightarrow> (api_error + Tenant) \<times> Store" where
  "CreateTenant P A E i nm s =
     (if map_of (st_Tenants s) i \<noteq> None then (Inl (TenantExists i), s)
      else (case en_seed E of
          None \<Rightarrow> (Inl RandError, s)
        | Some seed \<Rightarrow> (case new_tenant P E seed i nm s of
            Inl e \<Rightarrow> (Inl e, s)
          | Inr t \<Rightarrow>
             (let s1 = put_tenant i t s in
              case saveTenant P A E t s1 of
                None \<Rightarrow> (Inl HandlerPanic, s1)
              | Some (Some e, s2) \<Rightarrow> (Inl e, s2)
              | Some (None, s2) \<Rightarrow> (case saveMeta P E s2 of (Some e, s3) \<Rightarrow> (Inl e, s3) | (None, s3) \<Rightarrow> (Inr t, s3))))))"

text \<open>
  A rename moves every file under the source directory; it fails where the source is missing or the
  directory of the target does not exist.  Only \<open>tenants\<close> and \<open>backups\<close> are ever created by the gateway, so a
  directory exists when a file or one of those is in it.
\<close>

definition dir_exists :: "Store \<Rightarrow> path \<Rightarrow> bool" where
  "dir_exists s p \<longleftrightarrow> p = st_dir s \<or> p = path_join (st_dir s) [''tenants'']
     \<or> list_ex (\<lambda>(q, _). take (length p) q = p \<and> length p < length q) (st_disk s)"

definition rename_dir :: "env \<Rightarrow> path \<Rightarrow> path \<Rightarrow> Store \<Rightarrow> api_error option \<times> Store" where
  "rename_dir E src dst s =
     (if \<not> dir_exists s src \<or> \<not> dir_exists s (butlast dst) \<or> \<not> en_io E dst then (Some RenameError, s)
      else (None, s\<lparr>st_disk := map (\<lambda>(q, b). (if take (length src) q = src then dst @ drop (length src) q else q, b)) (st_disk s)\<rparr>))"

definition DeleteTenant :: "prims \<Rightarrow> env \<Rightarrow> string \<Rightarrow> Store \<Rightarrow> api_error option \<times> Store" where
  "DeleteTenant P E i s =
     (if map_of (st_Tenants s) i = None then (Some (NoSuchTenant i), s)
      else (let s1 = s\<lparr>st_Tenants := AList.delete i (st_Tenants s)\<rparr> in
        case rename_dir E (path_join (st_dir s) [''tenants'', i])
               (path_join (st_dir s) [''trash'', i @ ''-'' @ fmt_int (en_now E)]) s1 of
          (Some e, s2) \<Rightarrow> (Some e, s2)
        | (None, s2) \<Rightarrow> saveMeta P E s2))"

section \<open>The audit ring\<close>

definition Audit :: "AuditEntry \<Rightarrow> Store \<Rightarrow> Store" where
  "Audit e s = (let a = st_audit s @ [e] in
     s\<lparr>st_audit := (if auditCap < length a then drop (length a - auditCap) a else a)\<rparr>)"

definition audit_match :: "string \<Rightarrow> string \<Rightarrow> string \<Rightarrow> int \<Rightarrow> int \<Rightarrow> AuditEntry \<Rightarrow> bool" where
  "audit_match org user method since until e \<longleftrightarrow> \<not> (org \<noteq> [] \<and> ae_Org e \<noteq> org) \<and> \<not> (user \<noteq> [] \<and> ae_User e \<noteq> user)
     \<and> \<not> (method \<noteq> [] \<and> ae_Method e \<noteq> method) \<and> \<not> (0 < since \<and> ae_Ts e < since \<or> 0 < until \<and> until < ae_Ts e)"

definition last_n :: "int \<Rightarrow> 'a list \<Rightarrow> 'a list" where
  "last_n k xs = (if k < int (length xs) then drop (length xs - nat k) xs else xs)"

definition SearchAudit :: "Store \<Rightarrow> string \<Rightarrow> string \<Rightarrow> string \<Rightarrow> int \<Rightarrow> int \<Rightarrow> int \<Rightarrow> AuditEntry list" where
  "SearchAudit s org user method since until limit =
     (let out = filter (audit_match org user method since until) (st_audit s) in
      if 0 < limit then last_n limit out else out)"

section \<open>Backup and restore\<close>

text \<open>The tree of \<open>tl_Marshal\<close>, as the raw member of the bundle.\<close>

definition tl_tree :: "prims \<Rightarrow> Timeline \<Rightarrow> json" where
  "tl_tree P t = tf_json P \<lparr>tf_Events = tl_events t, tf_Pub = Some (tl_pub t), tf_StartPub = tl_start t,
     tf_CouncilPub = tl_council t, tf_Key = tl_key t, tf_HashAlgo = algoNames (tl_algo t)\<rparr>"

definition Backup :: "prims \<Rightarrow> env \<Rightarrow> Store \<Rightarrow> bytes option" where
  "Backup P E s = (if \<exists>t \<in> set (st_Tenants s). tn_tl (snd t) = None then None
     else Some (json_text P (JObj [(''created'', JInt (en_now E)), (''gateway'', st_json P s),
        (''tenants'', json_map (map (\<lambda>(i, t). (i, tl_tree P (the (tn_tl t)))) (st_Tenants s))), (''version'', JInt 1)])))"

record BackupBundle =
  bn_Version :: int
  bn_Gateway :: "Store option"
  bn_Tenants :: "(string \<times> json) list"

definition bn_zero :: BackupBundle where
  "bn_zero = \<lparr>bn_Version = 0, bn_Gateway = None, bn_Tenants = []\<rparr>"

definition bn_fields :: "prims \<Rightarrow> BackupBundle field list" where
  "bn_fields P = [int_field ''version'' (\<lambda>x b. b\<lparr>bn_Version := x\<rparr>),
     (''gateway'', \<lambda>j b. if j = JNull then Some (b\<lparr>bn_Gateway := None\<rparr>)
        else map_option (\<lambda>g. b\<lparr>bn_Gateway := Some g\<rparr>)
          (decode_struct (st_fields P) (case bn_Gateway b of None \<Rightarrow> st_zero | Some g \<Rightarrow> g) j)),
     map_field Some ''tenants'' bn_Tenants (\<lambda>x b. b\<lparr>bn_Tenants := x\<rparr>)]"

text \<open>The loop over the bundle: every timeline must parse and verify.\<close>

fun restore_tenants :: "prims \<Rightarrow> Store \<Rightarrow> (string \<times> json) list \<Rightarrow> (string \<times> Tenant) list \<Rightarrow> api_error + (string \<times> Tenant) list" where
  "restore_tenants P gw [] nt = Inr nt"
| "restore_tenants P gw ((i, raw) # rest) nt = (case UnmarshalTimeline P (json_text P raw) of
     Inl e \<Rightarrow> Inl (TenantTimeline i e)
   | Inr tln \<Rightarrow>
      if \<not> tl_Verify P tln then Inl (TenantUnverified i)
      else (let meta = (case map_of (st_Tenants gw) i of Some t \<Rightarrow> t | None \<Rightarrow> tn_zero\<lparr>tn_ID := i, tn_Name := i\<rparr>)
            in restore_tenants P gw rest (AList.update i (meta\<lparr>tn_tl := Some tln, tn_fleet := new_fleet\<rparr>) nt)))"

fun save_tenants :: "prims \<Rightarrow> aead \<Rightarrow> env \<Rightarrow> (string \<times> Tenant) list \<Rightarrow> Store \<Rightarrow> (api_error option \<times> Store) option" where
  "save_tenants P A E [] s = Some (None, s)"
| "save_tenants P A E ((i, t) # ts) s = (case saveTenant P A E t s of
     None \<Rightarrow> None | Some (Some e, s') \<Rightarrow> Some (Some e, s') | Some (None, s') \<Rightarrow> save_tenants P A E ts s')"

text \<open>
  The restored object has its own fields; what it shares with the live store is the disk.  Only users,
  webhooks and tenants are taken over in memory.
\<close>

definition Restore :: "prims \<Rightarrow> aead \<Rightarrow> env \<Rightarrow> bytes \<Rightarrow> Store \<Rightarrow> api_error option \<times> Store" where
  "Restore P A E b s = (case unmarshal P (bn_fields P) bn_zero b of
     None \<Rightarrow> (Some NotABundle, s)
   | Some bn \<Rightarrow> (case bn_Gateway bn of
        None \<Rightarrow> (Some (BadBundleVersion (bn_Version bn)), s)
      | Some g \<Rightarrow>
          if bn_Version bn \<noteq> 1 then (Some (BadBundleVersion (bn_Version bn)), s)
          else (let gw = g\<lparr>st_dir := st_dir s, st_sealKey := st_sealKey s, st_vault := st_vault s, st_disk := st_disk s\<rparr> in
            case restore_tenants P gw (bn_Tenants bn) [] of
              Inl e \<Rightarrow> (Some e, s)
            | Inr nt \<Rightarrow> (case saveMeta P E (gw\<lparr>st_Tenants := nt\<rparr>) of
                 (Some e, gw1) \<Rightarrow> (Some e, s\<lparr>st_disk := st_disk gw1\<rparr>)
               | (None, gw1) \<Rightarrow> (case save_tenants P A E nt gw1 of
                    None \<Rightarrow> (Some HandlerPanic, s\<lparr>st_disk := st_disk gw1\<rparr>)
                  | Some (Some e, gw2) \<Rightarrow> (Some e, s\<lparr>st_disk := st_disk gw2\<rparr>)
                  | Some (None, gw2) \<Rightarrow> (None, s\<lparr>st_Users := st_Users gw2, st_Webhooks := st_Webhooks gw2,
                      st_Tenants := nt, st_disk := st_disk gw2\<rparr>))))))"

section \<open>The vault sessions\<close>

fun load_vaulted :: "prims \<Rightarrow> aead \<Rightarrow> string list \<Rightarrow> Store \<Rightarrow> api_error option \<times> Store" where
  "load_vaulted P A [] s = (None, s)"
| "load_vaulted P A (i # is) s = (case map_of (st_Tenants s) i of
     None \<Rightarrow> load_vaulted P A is s
   | Some t \<Rightarrow>
      if tn_tl t \<noteq> None then load_vaulted P A is s
      else (case loadTenantTimeline P A s i of
          Inl e \<Rightarrow> (Some e, s)
        | Inr tln \<Rightarrow> load_vaulted P A is (put_tenant i (hydrate (Some (restamp s tln)) t) s)))"

definition loadVaultedTenants :: "prims \<Rightarrow> aead \<Rightarrow> Store \<Rightarrow> api_error option \<times> Store" where
  "loadVaultedTenants P A s = load_vaulted P A (map fst (st_Tenants s)) s"

definition reSealAllTenants :: "prims \<Rightarrow> aead \<Rightarrow> env \<Rightarrow> Store \<Rightarrow> (api_error option \<times> Store) option" where
  "reSealAllTenants P A E s = (if st_vault s = None then Some (None, s) else save_tenants P A E (st_Tenants s) s)"

definition reseal_under :: "prims \<Rightarrow> aead \<Rightarrow> env \<Rightarrow> Vault \<Rightarrow> Store \<Rightarrow> (api_error option \<times> Store) option" where
  "reseal_under P A E v s = (case loadVaultedTenants P A (s\<lparr>st_vault := Some v\<rparr>) of
     (Some e, s1) \<Rightarrow> Some (Some e, s1) | (None, s1) \<Rightarrow> reSealAllTenants P A E s1)"

definition write_keys :: "aead \<Rightarrow> env \<Rightarrow> bytes \<Rightarrow> Vault \<Rightarrow> Store \<Rightarrow> api_error option \<times> Store" where
  "write_keys A E kek v s = (case vault_key_file A (sr_n1 (en_seal E (gatewayKeys s))) kek v of
     Inl e \<Rightarrow> (Some (VaultFailure e), s) | Inr f \<Rightarrow> writeFileAtomic E (gatewayKeys s) f s)"

definition UnlockVault :: "prims \<Rightarrow> aead \<Rightarrow> env \<Rightarrow> Shard option list \<Rightarrow> Store \<Rightarrow> (api_error option \<times> Store) option" where
  "UnlockVault P A E shares s = (case JoinKEK shares of
     Inl e \<Rightarrow> Some (Some (VaultFailure (UnwrapSession e)), s)
   | Inr kek \<Rightarrow> (case map_of (st_disk s) (gatewayKeys s) of
        Some b \<Rightarrow> (case read_key_file A kek b of
            Inl e \<Rightarrow> Some (Some (VaultFailure e), s)
          | Inr v \<Rightarrow> reseal_under P A E v s)
      | None \<Rightarrow> (case en_dek E of
            None \<Rightarrow> Some (Some RandError, s)
          | Some dek \<Rightarrow> (case write_keys A E kek (NewVault dek) s of
               (Some e, s1) \<Rightarrow> Some (Some e, s1)
             | (None, s1) \<Rightarrow> reseal_under P A E (NewVault dek) s1))))"

definition RotateVault :: "prims \<Rightarrow> aead \<Rightarrow> env \<Rightarrow> Shard option list \<Rightarrow> Store \<Rightarrow> (api_error option \<times> Store) option" where
  "RotateVault P A E shares s = (case JoinKEK shares of
     Inl e \<Rightarrow> Some (Some (VaultFailure (UnwrapSession e)), s)
   | Inr kek \<Rightarrow> (case st_vault s of
        None \<Rightarrow> Some (Some (VaultFailure NoActiveVault), s)
      | Some v \<Rightarrow> (case en_dek E of
            None \<Rightarrow> Some (Some RandError, s)
          | Some dek \<Rightarrow>
             (let nv = \<lparr>va_DEK = dek, va_Epoch = va_Epoch v + 1\<rparr> in
              case write_keys A E kek nv s of
                (Some e, s1) \<Rightarrow> Some (Some e, s1)
              | (None, s1) \<Rightarrow> reseal_under P A E nv s1))))"

end
