(* ===== verification/Webhooks.thy ===== *)
theory Webhooks
  imports Store
begin

text \<open>
  Outbound notifications (\<open>webhooks.go\<close>): the matching rule, the queue, the drain loop and the request that
  is sent.  Whether the network accepts a delivery is the argument \<open>sent\<close>.
\<close>

abbreviation HookDetected :: string where "HookDetected \<equiv> ''detected''"
abbreviation HookRecovery :: string where "HookRecovery \<equiv> ''recovery''"
abbreviation HookRevoke :: string where "HookRevoke \<equiv> ''revoke''"
abbreviation HookIssue :: string where "HookIssue \<equiv> ''issue''"

definition outboxMaxAttempts :: int where "outboxMaxAttempts = 5"

definition hookMatches :: "Webhook \<Rightarrow> string \<Rightarrow> bool" where
  "hookMatches h ev \<longleftrightarrow> wh_Active h \<and> ((\<exists>e \<in> set (wh_Events h). e = ev \<or> e = ''*'') \<or> wh_Events h = [])"

definition bytes_str :: "bytes \<Rightarrow> string" where
  "bytes_str b = map (\<lambda>x. char_of (unat x)) b"

definition outbox_list :: "Store \<Rightarrow> webhookJob list" where
  "outbox_list s = (case st_outbox s of None \<Rightarrow> [] | Some js \<Rightarrow> js)"

definition outboxFile :: "Store \<Rightarrow> path" where
  "outboxFile s = path_join (st_dir s) [''outbox.json'']"

text \<open>A nil outbox is not written, and a failing write is ignored.\<close>

definition saveOutbox :: "prims \<Rightarrow> env \<Rightarrow> Store \<Rightarrow> Store" where
  "saveOutbox P E s = (case st_outbox s of None \<Rightarrow> s
     | Some js \<Rightarrow> snd (writeFileAtomic E (outboxFile s) (json_text P (JArr (map wj_json js))) s))"

fun join_with :: "string \<Rightarrow> string list \<Rightarrow> string" where
  "join_with sep [] = []"
| "join_with sep [x] = x"
| "join_with sep (x # y # xs) = x @ sep @ join_with sep (y # xs)"

definition hook_body :: "prims \<Rightarrow> env \<Rightarrow> string \<Rightarrow> string \<Rightarrow> bytes \<Rightarrow> json \<Rightarrow> string" where
  "hook_body P E org ev h details = bytes_str (json_text P (json_map
     [(''org'', JStr org), (''type'', JStr ev), (''ts'', JInt (en_now E)), (''event_hash'', JStr (hex_encode h)), (''details'', details)]))"

definition hook_job :: "env \<Rightarrow> string \<Rightarrow> Webhook \<Rightarrow> webhookJob" where
  "hook_job E body h = \<lparr>wj_URL = wh_URL h, wj_Secret = wh_Secret h, wj_Events = join_with '','' (wh_Events h),
     wj_Body = body, wj_Attempts = 0, wj_NextAt = en_now E\<rparr>"

definition FireWebhooks :: "prims \<Rightarrow> env \<Rightarrow> string \<Rightarrow> string \<Rightarrow> bytes \<Rightarrow> json \<Rightarrow> Store \<Rightarrow> Store" where
  "FireWebhooks P E org ev h details s =
     (let hooks = filter (\<lambda>w. hookMatches w ev) (st_Webhooks s);
          jobs = map (hook_job E (hook_body P E org ev h details)) hooks
      in saveOutbox P E (if jobs = [] then s else s\<lparr>st_outbox := Some (outbox_list s @ jobs)\<rparr>))"

definition backoff :: "int \<Rightarrow> int" where
  "backoff attempt = (if attempt = 1 then 5 else if attempt = 2 then 15 else if attempt = 3 then 60 else 300)"

text \<open>The scan of \<open>tryDeliver\<close> over the outbox: the first job with the same address and body.\<close>

fun settle :: "int \<Rightarrow> bool \<Rightarrow> webhookJob \<Rightarrow> webhookJob list \<Rightarrow> webhookJob list" where
  "settle now good j [] = []"
| "settle now good j (x # xs) =
     (if wj_URL x = wj_URL j \<and> wj_Body x = wj_Body j then
        (if good then xs
         else if outboxMaxAttempts \<le> wj_Attempts x + 1 then xs
         else x\<lparr>wj_Attempts := wj_Attempts x + 1, wj_NextAt := now + backoff (wj_Attempts x + 1)\<rparr> # xs)
      else x # settle now good j xs)"

definition tryDeliver :: "prims \<Rightarrow> env \<Rightarrow> (webhookJob \<Rightarrow> bool) \<Rightarrow> webhookJob \<Rightarrow> Store \<Rightarrow> Store" where
  "tryDeliver P E sent j s = saveOutbox P E (s\<lparr>st_outbox := map_option (settle (en_now E) (sent j) j) (st_outbox s)\<rparr>)"

definition job_due :: "env \<Rightarrow> webhookJob \<Rightarrow> bool" where
  "job_due E j \<longleftrightarrow> wj_NextAt j \<le> en_now E"

definition drainOutbox :: "prims \<Rightarrow> env \<Rightarrow> (webhookJob \<Rightarrow> bool) \<Rightarrow> Store \<Rightarrow> Store" where
  "drainOutbox P E sent s =
     (let due = filter (job_due E) (outbox_list s);
          s1 = s\<lparr>st_outbox := map_option (filter (\<lambda>j. \<not> job_due E j)) (st_outbox s)\<rparr>
      in fold (tryDeliver P E sent) due s1)"

section \<open>The request\<close>

text \<open>\<open>crypto/hmac\<close> over SHA-256, whose block is 64 bytes.\<close>

definition hmac_sha256 :: "prims \<Rightarrow> bytes \<Rightarrow> bytes \<Rightarrow> bytes" where
  "hmac_sha256 P k m = (let key = (if 64 < length k then sha256 P k else k); blk = key @ replicate (64 - length key) 0
     in sha256 P (map (xor 0x5c) blk @ sha256 P (map (xor 0x36) blk @ m)))"

definition hmacHex :: "prims \<Rightarrow> string \<Rightarrow> bytes \<Rightarrow> string" where
  "hmacHex P secret body = hex_encode (hmac_sha256 P (str_bytes secret) body)"

text \<open>\<open>deliver\<close>: the POST it sends, and the statuses it takes as delivered.\<close>

definition deliver_request :: "prims \<Rightarrow> webhookJob \<Rightarrow> string \<times> (string \<times> string) list \<times> string" where
  "deliver_request P j = (wj_URL j, [(''Content-Type'', ''application/json''),
     (''X-TO-Signature'', hmacHex P (wj_Secret j) (str_bytes (wj_Body j)))], wj_Body j)"

definition deliver :: "prims \<Rightarrow> (string \<times> (string \<times> string) list \<times> string \<Rightarrow> int option) \<Rightarrow> webhookJob \<Rightarrow> bool" where
  "deliver P post j = (case post (deliver_request P j) of None \<Rightarrow> False | Some st \<Rightarrow> 200 \<le> st \<and> st < 300)"

end
