(* ===== verification/Api.thy ===== *)
theory Api
  imports Webhooks
begin

text \<open>
  The REST surface (\<open>api.go\<close>): one definition per handler, on a decoded request and the store.  A handler
  gives a response, or None when it panics; a panic between an explicit lock and unlock leaves \<open>st_held\<close>
  set.  The middleware is in \<open>Gateway\<close>.
\<close>

section \<open>Requests and answers\<close>

definition maxBody :: nat where "maxBody = 2 ^ 20"

record request =
  rq_method :: string
  rq_path :: string
  rq_auth :: string
  rq_idem :: string
  rq_org :: string
  rq_id :: string
  rq_query :: "(string \<times> string) list"
  rq_body :: bytes

definition q_get :: "request \<Rightarrow> string \<Rightarrow> string" where
  "q_get rq k = (case map_of (rq_query rq) k of None \<Rightarrow> [] | Some v \<Rightarrow> v)"

definition ok_json :: "int \<Rightarrow> (string \<times> json) list \<Rightarrow> response" where
  "ok_json code kvs = \<lparr>rs_status = code, rs_body = RJson (json_map kvs)\<rparr>"

definition err_json :: "int \<Rightarrow> api_error \<Rightarrow> response" where
  "err_json code e = \<lparr>rs_status = code, rs_body = RErr e\<rparr>"

definition readJSON :: "prims \<Rightarrow> 'r field list \<Rightarrow> 'r \<Rightarrow> request \<Rightarrow> api_error + 'r" where
  "readJSON P fs z rq = (let b = take maxBody (rq_body rq) in
     if b = [] then Inl EmptyBody
     else (case unmarshal P fs z b of None \<Rightarrow> Inl BadBody | Some r \<Rightarrow> Inr r))"

text \<open>\<open>strconv.ParseInt(s, 10, 64)\<close> and \<open>Atoi\<close>: an optional sign and digits, within 64 bits.\<close>

definition digit_val :: "char \<Rightarrow> int option" where
  "digit_val c = (let n = (of_char c :: int) in if 48 \<le> n \<and> n \<le> 57 then Some (n - 48) else None)"

fun digits_val :: "int \<Rightarrow> string \<Rightarrow> int option" where
  "digits_val n [] = Some n"
| "digits_val n (c # cs) = (case digit_val c of None \<Rightarrow> None | Some d \<Rightarrow> digits_val (n * 10 + d) cs)"

definition ParseInt :: "string \<Rightarrow> int option" where
  "ParseInt s = (let (neg, ds) = (case s of c # cs \<Rightarrow> if c = CHR ''-'' then (True, cs) else if c = CHR ''+'' then (False, cs) else (False, s)
        | [] \<Rightarrow> (False, []))
     in if ds = [] then None else (case digits_val 0 ds of
          None \<Rightarrow> None | Some n \<Rightarrow> let v = (if neg then - n else n) in if int64 v then Some v else None))"

definition qint :: "request \<Rightarrow> string \<Rightarrow> int" where
  "qint rq k = (case ParseInt (q_get rq k) of None \<Rightarrow> 0 | Some n \<Rightarrow> n)"

type_synonym handled = "response option \<times> Store"

text \<open>What follows a save: 500 on its error, else the answer.\<close>

definition after_save :: "response \<Rightarrow> api_error option \<times> Store \<Rightarrow> handled" where
  "after_save r es = (case es of (Some e, s) \<Rightarrow> (Some (err_json 500 e), s) | (None, s) \<Rightarrow> (Some r, s))"

section \<open>Users\<close>

definition handleHealth :: "env \<Rightarrow> response" where
  "handleHealth E = ok_json 200 [(''status'', JStr ''ok''), (''ts'', JInt (en_now E))]"

record createUserReq =
  cu_ID :: string
  cu_Role :: string
  cu_Orgs :: "string list"

definition cu_fields :: "createUserReq field list" where
  "cu_fields = [string_field ''id'' (\<lambda>x r. r\<lparr>cu_ID := x\<rparr>), string_field ''role'' (\<lambda>x r. r\<lparr>cu_Role := x\<rparr>),
     strings_field ''orgs'' (\<lambda>x r. r\<lparr>cu_Orgs := x\<rparr>)]"

definition handleCreateUser :: "prims \<Rightarrow> env \<Rightarrow> request \<Rightarrow> Store \<Rightarrow> handled" where
  "handleCreateUser P E rq s = (case readJSON P cu_fields \<lparr>cu_ID = [], cu_Role = [], cu_Orgs = []\<rparr> rq of
     Inl e \<Rightarrow> (Some (err_json 400 e), s)
   | Inr r \<Rightarrow>
      if cu_ID r = [] \<or> cu_Role r = [] then (Some (err_json 400 IDAndRole), s)
      else if map_of (st_Users s) (cu_ID r) \<noteq> None then (Some (err_json 409 (UserExists (cu_ID r))), s)
      else if cu_Role r \<notin> set validRoles then (Some (err_json 400 (UnknownRole (cu_Role r))), s)
      else (case en_token E of
          None \<Rightarrow> (Some (err_json 400 RandError), s)
        | Some b \<Rightarrow> (case NewUser P b (cu_ID r) (cu_Role r) (cu_Orgs r) of
            None \<Rightarrow> (Some (err_json 400 (UnknownRole (cu_Role r))), s)
          | Some (u, raw) \<Rightarrow> after_save (ok_json 201 [(''id'', JStr (us_ID u)), (''role'', JStr (us_Role u)),
                (''orgs'', json_strs (us_Orgs u)), (''token'', JStr raw)])
              (saveMeta P E (s\<lparr>st_Users := AList.update (cu_ID r) u (st_Users s)\<rparr>)))))"

definition handleListUsers :: "Store \<Rightarrow> response" where
  "handleListUsers s = ok_json 200 [(''users'', JArr (map (\<lambda>(i, u). json_map [(''id'', JStr i), (''role'', JStr (us_Role u)),
     (''orgs'', json_strs (us_Orgs u)), (''tokens'', JInt (int (length (us_Tokens u))))]) (st_Users s)))]"

definition orgs_fields :: "string list field list" where
  "orgs_fields = [strings_field ''orgs'' (\<lambda>x _. x)]"

definition handleUserToken :: "prims \<Rightarrow> env \<Rightarrow> request \<Rightarrow> Store \<Rightarrow> handled" where
  "handleUserToken P E rq s = (let b = take maxBody (rq_body rq) in
     case (if b = [] then Some [] else unmarshal P orgs_fields [] b) of
       None \<Rightarrow> (Some (err_json 400 BadBody), s)
     | Some orgs \<Rightarrow> (case map_of (st_Users s) (rq_id rq) of
          None \<Rightarrow> (Some (err_json 404 (NoSuchUser (rq_id rq))), s)
        | Some u \<Rightarrow> (case en_token E of
            None \<Rightarrow> (Some (err_json 500 RandError), s)
          | Some rand \<Rightarrow> (case NewToken P rand orgs u of
              (raw, u') \<Rightarrow> after_save (ok_json 201 [(''id'', JStr (us_ID u)), (''token'', JStr raw), (''orgs'', json_strs orgs)])
                (saveMeta P E (s\<lparr>st_Users := AList.update (rq_id rq) u' (st_Users s)\<rparr>))))))"

section \<open>Organisations\<close>

definition slugify :: "env \<Rightarrow> string \<Rightarrow> string" where
  "slugify E nm = (let b = concat (map (\<lambda>c. let c = lower c; n = (of_char c :: nat) in
        if 97 \<le> n \<and> n \<le> 122 \<or> 48 \<le> n \<and> n \<le> 57 \<or> c = CHR ''-'' then [c] else if c = CHR '' '' then ''-'' else []) nm)
     in if b = [] then ''org-'' @ fmt_int (en_nano E mod 10 ^ 6) else b)"

definition watchOrg :: "Tenant \<Rightarrow> Tenant" where
  "watchOrg t = t\<lparr>tn_fleet := snd (Subscribe (tn_fleet t))\<rparr>"

definition org_fields :: "(string \<times> string) field list" where
  "org_fields = [string_field ''id'' (\<lambda>x r. (x, snd r)), string_field ''name'' (\<lambda>x r. (fst r, x))]"

definition handleCreateOrg :: "prims \<Rightarrow> aead \<Rightarrow> env \<Rightarrow> request \<Rightarrow> Store \<Rightarrow> handled" where
  "handleCreateOrg P A E rq s = (case readJSON P org_fields ([], []) rq of
     Inl e \<Rightarrow> (Some (err_json 400 e), s)
   | Inr (i0, nm) \<Rightarrow>
      if nm = [] then (Some (err_json 400 NameRequired), s)
      else (let i = (if i0 = [] then slugify E nm else i0) in
        case CreateTenant P A E i nm s of
          (Inl e, s1) \<Rightarrow> (Some (err_json 409 e), s1)
        | (Inr t, s1) \<Rightarrow> (Some (ok_json 201 [(''id'', JStr (tn_ID t)), (''name'', JStr (tn_Name t)), (''created'', JInt (tn_Created t))]),
            put_tenant i (watchOrg t) s1)))"

definition visibleOrgs :: "User \<Rightarrow> Store \<Rightarrow> Tenant list" where
  "visibleOrgs u s = filter (\<lambda>t. inOrg u (tn_ID t)) (map snd (st_Tenants s))"

text \<open>Reading a tenant without a timeline is a panic.\<close>

definition orgJSON :: "Tenant \<Rightarrow> json option" where
  "orgJSON t = map_option (\<lambda>tln. json_map [(''id'', JStr (tn_ID t)), (''name'', JStr (tn_Name t)), (''created'', JInt (tn_Created t)),
     (''events'', JInt (int (length (tl_events tln)))), (''detected'', JBool (tn_detected t))]) (tn_tl t)"

definition handleListOrgs :: "User \<Rightarrow> Store \<Rightarrow> response option" where
  "handleListOrgs u s = map_option (\<lambda>js. ok_json 200 [(''orgs'', JArr js)]) (those (map orgJSON (visibleOrgs u s)))"

definition handleOrgDetail :: "Tenant \<Rightarrow> response option" where
  "handleOrgDetail t = map_option (\<lambda>j. \<lparr>rs_status = 200, rs_body = RJson j\<rparr>) (orgJSON t)"

definition handleDeleteOrg :: "prims \<Rightarrow> env \<Rightarrow> request \<Rightarrow> Store \<Rightarrow> handled" where
  "handleDeleteOrg P E rq s = (case DeleteTenant P E (rq_org rq) s of
     (Some e, s1) \<Rightarrow> (Some (err_json 404 e), s1)
   | (None, s1) \<Rightarrow> (Some (ok_json 200 [(''deleted'', JStr (rq_org rq))]), s1))"

definition handleOrgPubKey :: "Tenant \<Rightarrow> response option" where
  "handleOrgPubKey t = map_option (\<lambda>tln. ok_json 200 [(''org'', JStr (tn_ID t)), (''pubkey_hex'', JStr (hex_encode (tl_pub tln)))]) (tn_tl t)"

section \<open>The transparency view\<close>

definition orgMerkle :: "prims \<Rightarrow> Timeline \<Rightarrow> MerkleLog" where
  "orgMerkle P tln = fold (\<lambda>e m. fst (log_append (sha256 P) m (ev_Hash P e))) (tl_events tln) NewMerkleLog"

text \<open>\<open>NewKeyFromSeed\<close> panics on a log key of another length.\<close>

definition ctLogKey :: "prims \<Rightarrow> Store \<Rightarrow> bytes option" where
  "ctLogKey P s = (if length (slice_bytes (st_LogKey s)) = 32 then Some (ed_newkey P (slice_bytes (st_LogKey s))) else None)"

definition hold :: "Store \<Rightarrow> Store" where
  "hold s = s\<lparr>st_held := True\<rparr>"

definition handleCTSTH :: "prims \<Rightarrow> env \<Rightarrow> Tenant \<Rightarrow> Store \<Rightarrow> handled" where
  "handleCTSTH P E t s = (case tn_tl t of
     None \<Rightarrow> (None, hold s)
   | Some tln \<Rightarrow> (let m = orgMerkle P tln in
      case ctLogKey P s of
        None \<Rightarrow> (None, s)
      | Some key \<Rightarrow>
         (let sth = SignSTH P key (Root (sha256 P) m) (int (log_size m)) (en_now E) in
          (Some (ok_json 200 [(''org'', JStr (tn_ID t)), (''log_key_hex'', JStr (hex_encode (ed_public key))),
             (''tree_size'', JInt (TreeSize sth)), (''timestamp'', JInt (Timestamp sth)),
             (''root_hex'', JStr (hex_encode (sth_Root sth))), (''signature_hex'', JStr (hex_encode (sth_Signature sth)))]), s))))"

definition hashesHex :: "bytes list \<Rightarrow> json" where
  "hashesHex p = JArr (map (\<lambda>h. JStr (hex_encode h)) p)"

definition q_has :: "request \<Rightarrow> string \<Rightarrow> bool" where
  "q_has rq k \<longleftrightarrow> map_of (rq_query rq) k \<noteq> None"

definition ct_inclusion :: "prims \<Rightarrow> request \<Rightarrow> Tenant \<Rightarrow> MerkleLog \<Rightarrow> response" where
  "ct_inclusion P rq t m = (case (ParseInt (q_get rq ''index''), ParseInt (q_get rq ''size'')) of
     (Some idx, Some sz) \<Rightarrow>
        if idx < 0 \<or> sz \<le> 0 then err_json 400 BadRange
        else (case InclusionProof (sha256 P) m idx sz of
            Inl e \<Rightarrow> err_json 400 (CTError e)
          | Inr (_, prf) \<Rightarrow> ok_json 200 [(''org'', JStr (tn_ID t)), (''index'', JInt idx), (''size'', JInt sz),
              (''leaf_hash_hex'', JStr (hex_encode (leaves m ! nat idx))),
              (''root_hex'', JStr (hex_encode (mth (sha256 P) (leaves m) 0 (nat sz)))), (''proof'', hashesHex prf)])
   | _ \<Rightarrow> err_json 400 BadRange)"

definition ct_consistency :: "prims \<Rightarrow> request \<Rightarrow> Tenant \<Rightarrow> MerkleLog \<Rightarrow> response" where
  "ct_consistency P rq t m = (case (ParseInt (q_get rq ''from''), ParseInt (q_get rq ''to'')) of
     (Some a, Some b) \<Rightarrow>
        if a < 0 \<or> b \<le> a then err_json 400 BadRange
        else (case ConsistencyProof (sha256 P) m a b of
            Inl e \<Rightarrow> err_json 400 (CTError e)
          | Inr (r1, r2, prf) \<Rightarrow> ok_json 200 [(''org'', JStr (tn_ID t)), (''from'', JInt a), (''to'', JInt b),
              (''old_root_hex'', JStr (hex_encode r1)), (''new_root_hex'', JStr (hex_encode r2)), (''proof'', hashesHex prf)])
   | _ \<Rightarrow> err_json 400 BadRange)"

definition handleCTProof :: "prims \<Rightarrow> request \<Rightarrow> Tenant \<Rightarrow> Store \<Rightarrow> handled" where
  "handleCTProof P rq t s = (case tn_tl t of
     None \<Rightarrow> (None, hold s)
   | Some tln \<Rightarrow> (let m = orgMerkle P tln in
      (Some (if q_has rq ''index'' then ct_inclusion P rq t m
             else if q_has rq ''from'' then ct_consistency P rq t m else err_json 400 NoProofArgs), s)))"

record gossipReq =
  gq_STH :: SignedTreeHead
  gq_ProofFrom :: int
  gq_Proof :: "string list"

definition gq_zero :: gossipReq where
  "gq_zero = \<lparr>gq_STH = \<lparr>TreeSize = 0, Timestamp = 0, sth_Root = [], sth_Signature = []\<rparr>, gq_ProofFrom = 0, gq_Proof = []\<rparr>"

definition gq_fields :: "prims \<Rightarrow> gossipReq field list" where
  "gq_fields P = [int_field ''tree_size'' (\<lambda>x r. r\<lparr>gq_STH := (gq_STH r)\<lparr>TreeSize := x\<rparr>\<rparr>),
     int_field ''timestamp'' (\<lambda>x r. r\<lparr>gq_STH := (gq_STH r)\<lparr>Timestamp := x\<rparr>\<rparr>),
     slice_field (b64_dec P) ''root_b64'' (\<lambda>x r. r\<lparr>gq_STH := (gq_STH r)\<lparr>sth_Root := slice_bytes x\<rparr>\<rparr>),
     slice_field (b64_dec P) ''signature_b64'' (\<lambda>x r. r\<lparr>gq_STH := (gq_STH r)\<lparr>sth_Signature := slice_bytes x\<rparr>\<rparr>),
     int_field ''proof_from'' (\<lambda>x r. r\<lparr>gq_ProofFrom := x\<rparr>), strings_field ''proof_hex'' (\<lambda>x r. r\<lparr>gq_Proof := x\<rparr>)]"

text \<open>The messages of \<open>Observe\<close>.\<close>

definition alarm_text :: "gossip_alarm \<Rightarrow> string" where
  "alarm_text a = (case a of
     Healthy \<Rightarrow> []
   | SplitBrain n \<Rightarrow> ''split-brain: two tree heads at size '' @ fmt_int n @ '' with different roots''
   | ProofStartsElsewhere p n \<Rightarrow> ''inconsistent history: proof starts at '' @ fmt_int p @ '', trusted head is '' @ fmt_int n
   | DoesNotExtend n m \<Rightarrow> ''inconsistent history: '' @ fmt_int n @ '' entries claimed after trusted size '' @ fmt_int m @ '' do not extend it'')"

text \<open>The body is one document; what follows it, which the decoder would not read, is not modelled.\<close>

definition handleCTGossip :: "prims \<Rightarrow> request \<Rightarrow> string \<Rightarrow> Tenant \<Rightarrow> Store \<Rightarrow> handled" where
  "handleCTGossip P rq i t s = (case unmarshal P (gq_fields P) gq_zero (rq_body rq) of
     None \<Rightarrow> (Some (err_json 400 BadBody), s)
   | Some r \<Rightarrow> (case those (map hex_decode (gq_Proof r)) of
        None \<Rightarrow> (Some (err_json 400 BadProofHex), s)
      | Some prf \<Rightarrow> (case ctLogKey P s of
            None \<Rightarrow> (None, s)
          | Some key \<Rightarrow>
             (let node = NewGossipNode (ed_public key)
                    (Some \<lparr>TreeSize = tn_ctSize t, Timestamp = 0, sth_Root = tn_ctRoot t, sth_Signature = []\<rparr>);
                  sth = gq_STH r;
                  ((accepted, _), node') = Observe P (Some sth) prf (gq_ProofFrom r) node;
                  t' = (if accepted \<and> tn_ctSize t < TreeSize sth then t\<lparr>tn_ctSize := TreeSize sth, tn_ctRoot := sth_Root sth\<rparr> else t)
              in (Some (ok_json 200 [(''org'', JStr (tn_ID t)), (''accepted'', JBool accepted),
                    (''alarm'', JStr (alarm_text (g_alarm node'))), (''trusted_tree_size'', JInt (tn_ctSize t')),
                    (''trusted_root_hex'', JStr (hex_encode (tn_ctRoot t')))]), put_tenant i t' s)))))"

end
