(* ===== verification/ApiTrust.thy ===== *)
theory ApiTrust
  imports Api
begin

text \<open>
  The handlers that read and change an organisation's trust (\<open>api.go\<close>): events, issue, revoke, state, graph,
  scores, recovery and the detection watcher; and the administrator's handlers.
\<close>

section \<open>Events\<close>

definition cert_fields :: "string field list" where
  "cert_fields = [string_field ''cert_id'' (\<lambda>x _. x)]"

definition eventJSON :: "prims \<Rightarrow> TrustEvent \<Rightarrow> (string \<times> json) list" where
  "eventJSON P e =
     (let out = [(''type'', JStr (ev_Type e)), (''ts'', JInt (ev_Timestamp e)),
            (''payload_b64'', JStr (b64_enc P (slice_bytes (ev_Payload e)))),
            (''parent_hash'', JStr (hex_encode (slice_bytes (ev_ParentHash e)))), (''hash'', JStr (hex_encode (ev_Hash P e)))];
          pl = slice_bytes (ev_Payload e);
          out1 = (case unmarshal P ip_fields ip_zero pl of
              Some p \<Rightarrow> if ip_CertID p = [] then out
                else out @ [(''cert_id'', JStr (ip_CertID p)), (''identity'', JStr (ip_Identity p))] @ omit_string ''via'' (ip_Via p)
            | None \<Rightarrow> out)
      in case unmarshal P cert_fields [] pl of
          Some c \<Rightarrow> if c = [] then out1 else AList.update ''cert_id'' (JStr c) out1
        | None \<Rightarrow> out1)"

definition event_match :: "string \<Rightarrow> int \<Rightarrow> int \<Rightarrow> TrustEvent \<Rightarrow> bool" where
  "event_match ty since until e \<longleftrightarrow> \<not> (ty \<noteq> [] \<and> ev_Type e \<noteq> ty)
     \<and> \<not> (0 < since \<and> ev_Timestamp e < since \<or> 0 < until \<and> until < ev_Timestamp e)"

definition handleTimeline :: "prims \<Rightarrow> request \<Rightarrow> Tenant \<Rightarrow> response option" where
  "handleTimeline P rq t = map_option (\<lambda>tln.
     (let lim0 = qint rq ''limit''; limit = (if lim0 \<le> 0 \<or> 500 < lim0 then 100 else lim0);
          found = filter (event_match (q_get rq ''type'') (qint rq ''since'') (qint rq ''until'')) (tl_events tln);
          out = last_n limit found
      in ok_json 200 [(''org'', JStr (tn_ID t)), (''count'', JInt (int (length out))), (''total'', JInt (int (length found))),
           (''events'', JArr (map (\<lambda>e. json_map (eventJSON P e)) out))])) (tn_tl t)"

definition bump :: "string \<Rightarrow> (string \<times> int) list \<Rightarrow> (string \<times> int) list" where
  "bump k cs = AList.update k (wrap64 ((case map_of cs k of None \<Rightarrow> 0 | Some n \<Rightarrow> n) + 1)) cs"

text \<open>
  The common body of \<open>handleIssue\<close> and \<open>handleRevoke\<close> once the request is read: append under the lock, count,
  save, then notify.  A panic of \<open>Append\<close>, or of reading a missing timeline, happens with the lock held.
\<close>

definition append_handler ::
  "prims \<Rightarrow> aead \<Rightarrow> env \<Rightarrow> string \<Rightarrow> Tenant \<Rightarrow> string \<Rightarrow> json \<Rightarrow> string \<Rightarrow> string \<Rightarrow> json \<Rightarrow> Store \<Rightarrow> handled" where
  "append_handler P A E i t ty payload counter hook details s = (case tn_tl t of
     None \<Rightarrow> (None, hold s)
   | Some tln \<Rightarrow> (case tl_append P tln ty (Some (json_text P payload)) (en_now E) of
        Inl KeyPanic \<Rightarrow> (None, hold s)
      | Inl e \<Rightarrow> (Some (err_json 500 (TimelineError e)), s)
      | Inr (h, tln') \<Rightarrow>
         (let t' = t\<lparr>tn_tl := Some tln', tn_counters := bump ''events'' (bump counter (tn_counters t))\<rparr>;
              s1 = put_tenant i t' s
          in case saveTenant P A E t' s1 of
               None \<Rightarrow> (None, hold s1)
             | Some (Some e, s2) \<Rightarrow> (Some (err_json 500 e), s2)
             | Some (None, s2) \<Rightarrow> (Some (ok_json 201 [(''org'', JStr (tn_ID t)), (''hash'', JStr (hex_encode h))]),
                 FireWebhooks P E (tn_ID t) hook h details s2))))"

definition handleIssue :: "prims \<Rightarrow> aead \<Rightarrow> env \<Rightarrow> request \<Rightarrow> string \<Rightarrow> Tenant \<Rightarrow> Store \<Rightarrow> handled" where
  "handleIssue P A E rq i t s = (case readJSON P ip_fields ip_zero rq of
     Inl e \<Rightarrow> (Some (err_json 400 e), s)
   | Inr r \<Rightarrow>
      if ip_CertID r = [] \<or> ip_Identity r = [] then (Some (err_json 400 CertAndIdentity), s)
      else append_handler P A E i t EvIssue (ip_json r) ''issues'' HookIssue
             (JObj [(''cert_id'', JStr (ip_CertID r)), (''identity'', JStr (ip_Identity r))]) s)"

definition handleRevoke :: "prims \<Rightarrow> aead \<Rightarrow> env \<Rightarrow> request \<Rightarrow> string \<Rightarrow> Tenant \<Rightarrow> Store \<Rightarrow> handled" where
  "handleRevoke P A E rq i t s = (case readJSON P cert_fields [] rq of
     Inl e \<Rightarrow> (Some (err_json 400 e), s)
   | Inr c \<Rightarrow>
      if c = [] then (Some (err_json 400 CertIDRequired), s)
      else append_handler P A E i t EvRevoke (revoke_json c) ''revokes'' HookRevoke (JObj [(''cert_id'', JStr c)]) s)"

definition cert_json :: "Cert \<Rightarrow> json" where
  "cert_json c = JObj [(''Identity'', JStr (Identity c)), (''Revoked'', JBool (Revoked c))]"

definition handleState :: "prims \<Rightarrow> Tenant \<Rightarrow> response option" where
  "handleState P t = map_option (\<lambda>tln. ok_json 200 [(''org'', JStr (tn_ID t)),
     (''certs'', json_map (map (\<lambda>(i, c). (i, cert_json c)) (Fold P tln)))]) (tn_tl t)"

definition graph_nodes :: "prims \<Rightarrow> TrustEvent \<Rightarrow> string list \<times> (string \<times> string) list \<Rightarrow> string list \<times> (string \<times> string) list" where
  "graph_nodes P e ne = (case ne of (nodes, edges) \<Rightarrow> (case issue_of P e of
     None \<Rightarrow> (nodes, edges)
   | Some p \<Rightarrow>
      (let n1 = add_key (''cert:'' @ ip_CertID p) (add_key (''id:'' @ ip_Identity p) nodes) in
       if ip_Via p = [] then (n1, edges)
       else (add_key (''cert:'' @ ip_Via p) n1, edges @ [(''cert:'' @ ip_Via p, ''cert:'' @ ip_CertID p)]))))"

definition handleGraph :: "prims \<Rightarrow> Tenant \<Rightarrow> response option" where
  "handleGraph P t = map_option (\<lambda>tln. (case fold (graph_nodes P) (tl_events tln) ([], []) of (nodes, edges) \<Rightarrow>
     ok_json 200 [(''org'', JStr (tn_ID t)), (''nodes'', JArr (map JStr nodes)),
       (''edges'', JArr (map (\<lambda>(a, b). JArr [JStr a, JStr b]) edges))])) (tn_tl t)"

section \<open>Scores and detection\<close>

text \<open>A float64 field: an integer literal or another number the standard parser takes; out of range is an error.\<close>

definition float_field :: "rounding \<Rightarrow> env \<Rightarrow> string \<Rightarrow> (f64 \<Rightarrow> 'r \<Rightarrow> 'r) \<Rightarrow> 'r field" where
  "float_field rnd E name upd = (name, \<lambda>j r. case j of
     JInt n \<Rightarrow> (case rnd (of_int n) of Fin x \<Rightarrow> Some (upd (Fin x) r) | _ \<Rightarrow> None)
   | JNum x \<Rightarrow> map_option (\<lambda>f. upd f r) (en_num E x) | JNull \<Rightarrow> Some r | _ \<Rightarrow> None)"

text \<open>The evidence is the raw text of its member.\<close>

definition score_fields :: "prims \<Rightarrow> rounding \<Rightarrow> env \<Rightarrow> Score field list" where
  "score_fields P rnd E = [string_field ''node_id'' (\<lambda>x r. r\<lparr>s_NodeID := x\<rparr>), float_field rnd E ''score'' (\<lambda>x r. r\<lparr>s_Score := x\<rparr>),
     float_field rnd E ''p_value'' (\<lambda>x r. r\<lparr>s_PValue := x\<rparr>), (''evidence'', \<lambda>j r. Some (r\<lparr>s_Evidence := json_text P j\<rparr>))]"

definition handleScores :: "prims \<Rightarrow> rounding \<Rightarrow> env \<Rightarrow> request \<Rightarrow> string \<Rightarrow> Tenant \<Rightarrow> Store \<Rightarrow> handled" where
  "handleScores P rnd E rq i t s =
     (case readJSON P (score_fields P rnd E) \<lparr>s_NodeID = [], s_Score = Fin 0, s_PValue = Fin 0, s_Evidence = []\<rparr> rq of
        Inl e \<Rightarrow> (Some (err_json 400 e), s)
      | Inr r \<Rightarrow>
         if s_NodeID r = [] then (Some (err_json 400 NodeRequired), s)
         else (Some (ok_json 202 [(''org'', JStr (tn_ID t)), (''node'', JStr (s_NodeID r)), (''score'', JNum (en_fnum E (s_Score r)))]),
           put_tenant i (t\<lparr>tn_fleet := Ingest (en_nano E) (WireMsgFromScore P r ''api'') (tn_fleet t)\<rparr>) s))"

definition bad_step :: "prims \<Rightarrow> Score \<Rightarrow> int \<Rightarrow> int" where
  "bad_step P sc bad = (if f_le gw_threshold (s_Score sc) then bad
     else (case unmarshal P evidence_fields 0 (s_Evidence sc) of
         None \<Rightarrow> bad | Some b \<Rightarrow> if 0 \<le> b \<and> (bad < 0 \<or> b < bad) then b else bad))"

definition minBadIndex :: "prims \<Rightarrow> Score list \<Rightarrow> int" where
  "minBadIndex P scores = fold (bad_step P) scores (- 1)"

text \<open>
  One verdict in the goroutine of \<open>watchOrg\<close>.  None is a panic of \<open>Append\<close> (or of reading a missing timeline),
  which nothing recovers: the process ends.
\<close>

definition watch_verdict :: "prims \<Rightarrow> aead \<Rightarrow> env \<Rightarrow> string \<Rightarrow> FleetVerdict \<Rightarrow> Store \<Rightarrow> Store option" where
  "watch_verdict P A E i v s = (case map_of (st_Tenants s) i of
     None \<Rightarrow> Some s
   | Some t \<Rightarrow>
      if fv_Detected v \<and> \<not> tn_detected t then
        (case tn_tl t of
           None \<Rightarrow> None
         | Some tln \<Rightarrow>
            (let m = minBadIndex P (fv_Scores v); bad = (if m < 0 then int (length (tl_events tln)) else m);
                 t1 = t\<lparr>tn_detected := True, tn_counters := bump ''events'' (bump ''detections'' (tn_counters t))\<rparr>
             in case tl_append P tln EvDetected (Some (json_text P (JObj [(''bad_index'', JInt bad)]))) (en_now E) of
                 Inl KeyPanic \<Rightarrow> None
               | Inl _ \<Rightarrow> Some (put_tenant i t1 s)
               | Inr (h, tln') \<Rightarrow>
                  (let t2 = t1\<lparr>tn_tl := Some tln'\<rparr>; s1 = put_tenant i t2 s;
                       s2 = (case saveTenant P A E t2 s1 of None \<Rightarrow> s1 | Some (_, s2) \<Rightarrow> s2)
                   in Some (FireWebhooks P E (tn_ID t) HookDetected h (JObj [(''bad_index'', JInt bad)]) s2))))
      else if \<not> fv_Detected v then Some (put_tenant i (t\<lparr>tn_detected := False\<rparr>) s)
      else Some s)"

text \<open>The goroutine takes the next verdict of its channel, the first subscription of the fleet.\<close>

definition watch_take :: "prims \<Rightarrow> aead \<Rightarrow> env \<Rightarrow> string \<Rightarrow> Store \<Rightarrow> Store option" where
  "watch_take P A E i s = (case map_of (st_Tenants s) i of
     None \<Rightarrow> Some s
   | Some t \<Rightarrow> (case fl_fans (tn_fleet t) of
        (v # vs) # chs \<Rightarrow> watch_verdict P A E i v (put_tenant i (t\<lparr>tn_fleet := (tn_fleet t)\<lparr>fl_fans := vs # chs\<rparr>\<rparr>) s)
      | _ \<Rightarrow> Some s))"

section \<open>Recovery\<close>

definition epoch_fields :: "int field list" where
  "epoch_fields = [int_field ''epoch'' (\<lambda>x _. x)]"

definition epoch_step :: "prims \<Rightarrow> TrustEvent \<Rightarrow> int \<Rightarrow> int" where
  "epoch_step P e m = (if ev_Type e \<noteq> EvCommit then m
     else (case unmarshal P epoch_fields 0 (slice_bytes (ev_Payload e)) of None \<Rightarrow> m | Some p \<Rightarrow> if m < p then p else m))"

definition lastEpoch :: "prims \<Rightarrow> Timeline \<Rightarrow> int" where
  "lastEpoch P tln = fold (epoch_step P) (tl_events tln) 0"

record recoverReq =
  rv_Timeline :: "json option"
  rv_Commit :: "FrostCommit option"

definition rv_fields :: "prims \<Rightarrow> recoverReq field list" where
  "rv_fields P = [(''timeline'', \<lambda>j r. Some (r\<lparr>rv_Timeline := Some j\<rparr>)),
     (''commit'', \<lambda>j r. if j = JNull then Some (r\<lparr>rv_Commit := None\<rparr>)
        else map_option (\<lambda>c. r\<lparr>rv_Commit := Some c\<rparr>)
          (decode_struct (fc_fields P) (case rv_Commit r of None \<Rightarrow> fc_zero | Some c \<Rightarrow> c) j))]"

definition recovery_index :: "Timeline \<Rightarrow> nat option" where
  "recovery_index fork = (let is = filter (\<lambda>i. ev_Type (tl_events fork ! i) = EvRecovery) [0..<length (tl_events fork)]
     in if is = [] then None else Some (hd is))"

text \<open>
  The checks of \<open>handleRecover\<close> in order: the fork to adopt, or the error, or a panic (None) where the tenant
  has no timeline to compare with.
\<close>

definition descends :: "prims \<Rightarrow> Timeline \<Rightarrow> Timeline \<Rightarrow> nat \<Rightarrow> api_error + Timeline" where
  "descends P cur fork idx =
     (if length (tl_events cur) < idx then Inl NotDescendant
      else if \<exists>i < idx. ev_Hash P (tl_events cur ! i) \<noteq> ev_Hash P (tl_events fork ! i) then Inl PrefixMismatch
      else if lastEpoch P fork \<le> lastEpoch P cur then Inl EpochStale
      else Inr fork)"

definition check_fork :: "prims \<Rightarrow> slice \<Rightarrow> Timeline option \<Rightarrow> FrostCommit \<Rightarrow> json \<Rightarrow> (api_error + Timeline) option" where
  "check_fork P anchor cur commit raw =
     (if length (slice_bytes anchor) \<noteq> 32 then Some (Inl NoAnchor)
      else if \<not> fc_Valid P commit (slice_bytes anchor) gw_quorum then Some (Inl BadHandoff)
      else (case UnmarshalTimeline P (json_text P raw) of
          Inl e \<Rightarrow> Some (Inl (BadFork e))
        | Inr fork \<Rightarrow>
            if \<not> tl_Verify P fork then Some (Inl ForkUnverified)
            else (case recovery_index fork of
                None \<Rightarrow> Some (Inl NoHandoff)
              | Some idx \<Rightarrow> map_option (\<lambda>c. descends P c fork idx) cur)))"

definition handleRecover :: "prims \<Rightarrow> aead \<Rightarrow> env \<Rightarrow> request \<Rightarrow> string \<Rightarrow> Tenant \<Rightarrow> Store \<Rightarrow> handled" where
  "handleRecover P A E rq i t s = (case readJSON P (rv_fields P) \<lparr>rv_Timeline = None, rv_Commit = None\<rparr> rq of
     Inl e \<Rightarrow> (Some (err_json 400 e), s)
   | Inr r \<Rightarrow> (case (rv_Commit r, rv_Timeline r) of
        (Some commit, Some raw) \<Rightarrow>
          (case check_fork P (st_CouncilPub s) (tn_tl t) commit raw of
             None \<Rightarrow> (None, s)
           | Some (Inl e) \<Rightarrow> (Some (err_json 422 e), s)
           | Some (Inr fork) \<Rightarrow>
                 (let t' = t\<lparr>tn_tl := Some fork, tn_detected := False, tn_counters := bump ''recoveries'' (tn_counters t)\<rparr>;
                      s1 = put_tenant i t' s
                  in case saveTenant P A E t' s1 of
                       None \<Rightarrow> (None, s1)
                     | Some (Some e, s2) \<Rightarrow> (Some (err_json 500 e), s2)
                     | Some (None, s2) \<Rightarrow>
                        (Some (ok_json 200 [(''org'', JStr (tn_ID t)), (''epoch'', JInt (fc_Epoch commit)),
                            (''issued'', JInt (int (length (fc_Members commit)))), (''head'', JStr (hex_encode (slice_bytes (Head P fork))))]),
                         FireWebhooks P E (tn_ID t) HookRecovery (slice_bytes (Head P fork))
                           (JObj [(''epoch'', JInt (fc_Epoch commit)), (''issued'', JInt (int (length (fc_Members commit))))]) s2)))
      | _ \<Rightarrow> (Some (err_json 400 TimelineAndCommit), s)))"

definition lastDetected :: "Timeline \<Rightarrow> TrustEvent option" where
  "lastDetected tln = find (\<lambda>e. ev_Type e = EvDetected) (rev (tl_events tln))"

section \<open>Audit\<close>

definition ae_json :: "AuditEntry \<Rightarrow> json" where
  "ae_json e = JObj ([(''ts'', JInt (ae_Ts e)), (''user'', JStr (ae_User e))] @ omit_string ''org'' (ae_Org e)
     @ [(''method'', JStr (ae_Method e)), (''path'', JStr (ae_Path e)), (''status'', JInt (ae_Status e))]
     @ omit_string ''details'' (ae_Details e))"

definition audit_event_match :: "prims \<Rightarrow> request \<Rightarrow> TrustEvent \<Rightarrow> bool" where
  "audit_event_match P rq e \<longleftrightarrow> event_match (q_get rq ''type'') (qint rq ''since'') (qint rq ''until'') e
     \<and> (case unmarshal P ip_fields ip_zero (slice_bytes (ev_Payload e)) of
          None \<Rightarrow> True
        | Some p \<Rightarrow> \<not> (q_get rq ''identity'' \<noteq> [] \<and> ip_Identity p \<noteq> q_get rq ''identity'')
            \<and> \<not> (q_get rq ''cert'' \<noteq> [] \<and> ip_CertID p \<noteq> q_get rq ''cert''))"

text \<open>The \<open>limit\<close> of the event search is computed by the code and not used.\<close>

definition handleAudit :: "prims \<Rightarrow> request \<Rightarrow> User \<Rightarrow> Store \<Rightarrow> response option" where
  "handleAudit P rq u s =
     (if q_get rq ''source'' = ''actions'' then
        (let org = q_get rq ''org'' in
         if org \<noteq> [] \<and> \<not> inOrg u org then Some (err_json 403 NotScopedThat)
         else (let found = SearchAudit s org (q_get rq ''user'') (q_get rq ''method'') (qint rq ''since'') (qint rq ''until'') (qint rq ''limit'')
           in Some (ok_json 200 [(''actions'', if found = [] then JNull else JArr (map ae_json found))])))
      else map_option (\<lambda>jss. let out = concat jss in
             ok_json 200 [(''count'', JInt (int (length out))), (''events'', JArr out)])
           (those (map (\<lambda>t. map_option (\<lambda>tln. map (\<lambda>e. json_map (AList.update ''org'' (JStr (tn_ID t)) (eventJSON P e)))
              (filter (audit_event_match P rq) (tl_events tln))) (tn_tl t)) (visibleOrgs u s))))"

section \<open>Webhooks, backups, rotation, metrics\<close>

definition handleListWebhooks :: "Store \<Rightarrow> response" where
  "handleListWebhooks s = ok_json 200 [(''webhooks'', if st_Webhooks s = [] then JNull else JArr (map wh_json (st_Webhooks s)))]"

record webhookReq =
  wq_URL :: string
  wq_Secret :: string
  wq_Events :: "string list"

definition wq_fields :: "webhookReq field list" where
  "wq_fields = [string_field ''url'' (\<lambda>x r. r\<lparr>wq_URL := x\<rparr>), string_field ''secret'' (\<lambda>x r. r\<lparr>wq_Secret := x\<rparr>),
     strings_field ''events'' (\<lambda>x r. r\<lparr>wq_Events := x\<rparr>)]"

definition url_allowed :: "env \<Rightarrow> string \<Rightarrow> bool" where
  "url_allowed E url = (case en_url E url of
     None \<Rightarrow> False
   | Some (scheme, host) \<Rightarrow> scheme = ''https'' \<or> scheme = ''http'' \<and> host \<in> {''localhost'', ''127.0.0.1'', ''::1''})"

definition handleCreateWebhook :: "prims \<Rightarrow> env \<Rightarrow> request \<Rightarrow> Store \<Rightarrow> handled" where
  "handleCreateWebhook P E rq s = (case readJSON P wq_fields \<lparr>wq_URL = [], wq_Secret = [], wq_Events = []\<rparr> rq of
     Inl e \<Rightarrow> (Some (err_json 400 e), s)
   | Inr r \<Rightarrow>
      if \<not> url_allowed E (wq_URL r) then (Some (err_json 400 BadURL), s)
      else (let h = \<lparr>wh_ID = ''wh-'' @ fmt_int (en_nano E), wh_URL = wq_URL r, wh_Secret = wq_Secret r, wh_Events = wq_Events r, wh_Active = True\<rparr>
        in after_save \<lparr>rs_status = 201, rs_body = RJson (wh_json h)\<rparr> (saveMeta P E (s\<lparr>st_Webhooks := st_Webhooks s @ [h]\<rparr>))))"

fun drop_hook :: "string \<Rightarrow> Webhook list \<Rightarrow> Webhook list option" where
  "drop_hook i [] = None"
| "drop_hook i (h # hs) = (if wh_ID h = i then Some hs else map_option ((#) h) (drop_hook i hs))"

definition handleDeleteWebhook :: "prims \<Rightarrow> env \<Rightarrow> request \<Rightarrow> Store \<Rightarrow> handled" where
  "handleDeleteWebhook P E rq s = (case drop_hook (rq_id rq) (st_Webhooks s) of
     None \<Rightarrow> (Some (err_json 404 (NoSuchWebhook (rq_id rq))), s)
   | Some hs \<Rightarrow> after_save (ok_json 200 [(''deleted'', JStr (rq_id rq))]) (saveMeta P E (s\<lparr>st_Webhooks := hs\<rparr>)))"

definition backupPath :: "path \<Rightarrow> string \<Rightarrow> path" where
  "backupPath dir i = path_join dir [''backups'', i @ ''.json'']"

definition handleBackup :: "prims \<Rightarrow> env \<Rightarrow> Store \<Rightarrow> handled" where
  "handleBackup P E s = (case Backup P E s of
     None \<Rightarrow> (None, s)
   | Some b \<Rightarrow> (let i = ''bk-'' @ fmt_int (en_now E) in
      after_save (ok_json 201 [(''id'', JStr i), (''size'', JInt (int (length b))),
          (''download'', JStr (''/v1/backup/'' @ i @ ''/download''))])
        (writeFileAtomic E (backupPath (st_dir s) i) b s)))"

definition handleBackupDownload :: "request \<Rightarrow> Store \<Rightarrow> response" where
  "handleBackupDownload rq s = (case map_of (st_disk s) (backupPath (st_dir s) (rq_id rq)) of
     None \<Rightarrow> err_json 404 (NoSuchBackup (rq_id rq)) | Some b \<Rightarrow> \<lparr>rs_status = 200, rs_body = RRaw b\<rparr>)"

definition handleRestore :: "prims \<Rightarrow> aead \<Rightarrow> env \<Rightarrow> request \<Rightarrow> Store \<Rightarrow> handled" where
  "handleRestore P A E rq s = (case Restore P A E (take maxBody (rq_body rq)) s of
     (Some e, s1) \<Rightarrow> (Some (err_json 400 e), s1)
   | (None, s1) \<Rightarrow> (Some (ok_json 200 [(''restored'', JBool True)]), s1))"

definition big_field :: "string \<Rightarrow> (int option \<Rightarrow> 'r \<Rightarrow> 'r) \<Rightarrow> 'r field" where
  "big_field name upd = (name, \<lambda>j r. case j of JInt n \<Rightarrow> Some (upd (Some n) r) | JNull \<Rightarrow> Some (upd None r) | _ \<Rightarrow> None)"

definition shard_fields :: "Shard field list" where
  "shard_fields = [big_field ''x'' (\<lambda>x r. r\<lparr>sh_X := x\<rparr>), big_field ''y'' (\<lambda>x r. r\<lparr>sh_Y := x\<rparr>), int_field ''len'' (\<lambda>x r. r\<lparr>sh_Len := x\<rparr>)]"

definition shares_fields :: "Shard list field list" where
  "shares_fields = [structs_field shard_fields \<lparr>sh_X = None, sh_Y = None, sh_Len = 0\<rparr> ''shares'' (\<lambda>x _. x)]"

definition handleRotate :: "prims \<Rightarrow> aead \<Rightarrow> env \<Rightarrow> request \<Rightarrow> Store \<Rightarrow> handled" where
  "handleRotate P A E rq s =
     (case unmarshal P shares_fields [] (take maxBody (rq_body rq)) of
        None \<Rightarrow> (Some (err_json 400 SharesRequired), s)
      | Some shares \<Rightarrow>
         if shares = [] then (Some (err_json 400 SharesRequired), s)
         else (case RotateVault P A E (map Some shares) s of
             None \<Rightarrow> (None, s)
           | Some (Some e, s1) \<Rightarrow> (Some (err_json 400 e), s1)
           | Some (None, s1) \<Rightarrow> (Some (ok_json 200 [(''rotated'', JBool True),
               (''epoch'', JInt (case st_vault s1 of None \<Rightarrow> 0 | Some v \<Rightarrow> uint (va_Epoch v)))]), s1)))"

definition counter :: "Tenant \<Rightarrow> string \<Rightarrow> int" where
  "counter t k = (case map_of (tn_counters t) k of None \<Rightarrow> 0 | Some n \<Rightarrow> n)"

text \<open>The lines: name, organisation label (empty where there is none), value.\<close>

definition handleMetrics :: "env \<Rightarrow> Store \<Rightarrow> response" where
  "handleMetrics E s = \<lparr>rs_status = 200, rs_body = RMetrics
     ([(''to_uptime_seconds'', [], en_now E - st_started s), (''to_users'', [], int (length (st_Users s))),
       (''to_orgs'', [], int (length (st_Tenants s))), (''to_audit_entries'', [], int (length (st_audit s)))]
      @ concat (map (\<lambda>(i, t). [(''to_events_total'', i, counter t ''events''), (''to_issues_total'', i, counter t ''issues''),
          (''to_revokes_total'', i, counter t ''revokes''), (''to_detections_total'', i, counter t ''detections''),
          (''to_recoveries_total'', i, counter t ''recoveries'')]) (st_Tenants s)))\<rparr>"

end
