(* ===== verification/Gateway.thy ===== *)
theory Gateway
  imports ApiTrust
begin

text \<open>
  The route table and the middleware of \<open>api.go\<close>: authentication, roles, rate limit, organisation and token
  scope, idempotent replay, panic recovery and the audit entry; and the gateway's start.  \<open>ServeMux\<close> of
  net/http picks the endpoint of a request; the request carries the path values it extracted.
\<close>

section \<open>Routes\<close>

datatype endpoint =
    Health | CreateUser | ListUsers | UserToken | CreateOrg | ListOrgs | OrgDetail | DeleteOrg | OrgTimeline
  | Issue | Revoke | State | Graph | Scores | Recover | OrgPubKey | CTSTH | CTProof | CTGossip | AuditSearch
  | ListWebhooks | CreateWebhook | DeleteWebhook | BackupCreate | BackupDownload | RestoreAll | Rotate | Metrics

abbreviation readers :: "string list" where
  "readers \<equiv> [RoleViewer, RoleAuditor, RoleOperator, RoleAdmin]"

text \<open>Pattern, roles (none: any authenticated user) and whether the route is scoped to one organisation.\<close>

fun route_of :: "endpoint \<Rightarrow> string \<times> string list \<times> bool" where
  "route_of Health = (''GET /v1/health'', [], False)"
| "route_of CreateUser = (''POST /v1/users'', [RoleAdmin], False)"
| "route_of ListUsers = (''GET /v1/users'', [RoleAdmin], False)"
| "route_of UserToken = (''POST /v1/users/{id}/tokens'', [RoleAdmin], False)"
| "route_of CreateOrg = (''POST /v1/orgs'', [RoleAdmin], False)"
| "route_of ListOrgs = (''GET /v1/orgs'', [], False)"
| "route_of OrgDetail = (''GET /v1/orgs/{org}'', [], True)"
| "route_of DeleteOrg = (''DELETE /v1/orgs/{org}'', [RoleAdmin], False)"
| "route_of OrgTimeline = (''GET /v1/orgs/{org}/timeline'', readers, True)"
| "route_of Issue = (''POST /v1/orgs/{org}/issue'', [RoleOperator, RoleAdmin], True)"
| "route_of Revoke = (''POST /v1/orgs/{org}/revoke'', [RoleOperator, RoleAdmin], True)"
| "route_of State = (''GET /v1/orgs/{org}/state'', readers, True)"
| "route_of Graph = (''GET /v1/orgs/{org}/graph'', readers, True)"
| "route_of Scores = (''POST /v1/orgs/{org}/scores'', [RoleOperator, RoleAdmin], True)"
| "route_of Recover = (''POST /v1/orgs/{org}/recover'', [RoleOperator, RoleAdmin], True)"
| "route_of OrgPubKey = (''GET /v1/orgs/{org}/pubkey'', readers, True)"
| "route_of CTSTH = (''GET /v1/orgs/{org}/ct/sth'', readers, True)"
| "route_of CTProof = (''GET /v1/orgs/{org}/ct/proof'', readers, True)"
| "route_of CTGossip = (''POST /v1/orgs/{org}/ct/gossip'', readers, True)"
| "route_of AuditSearch = (''GET /v1/audit'', [RoleAuditor, RoleOperator, RoleAdmin], False)"
| "route_of ListWebhooks = (''GET /v1/webhooks'', [RoleAdmin], False)"
| "route_of CreateWebhook = (''POST /v1/webhooks'', [RoleAdmin], False)"
| "route_of DeleteWebhook = (''DELETE /v1/webhooks/{id}'', [RoleAdmin], False)"
| "route_of BackupCreate = (''POST /v1/backup'', [RoleAdmin], False)"
| "route_of BackupDownload = (''GET /v1/backup/{id}/download'', [RoleAdmin], False)"
| "route_of RestoreAll = (''POST /v1/restore'', [RoleAdmin], False)"
| "route_of Rotate = (''POST /v1/rotate'', [RoleAdmin], False)"
| "route_of Metrics = (''GET /v1/metrics'', readers, False)"

definition roles_of :: "endpoint \<Rightarrow> string list" where "roles_of ep = fst (snd (route_of ep))"
definition scoped :: "endpoint \<Rightarrow> bool" where "scoped ep = snd (snd (route_of ep))"

text \<open>The handlers; \<open>u\<close> is the user of an unscoped route, \<open>t\<close> the tenant of a scoped one.\<close>

definition plain_read :: "response option \<Rightarrow> Store \<Rightarrow> handled" where
  "plain_read r s = (r, s)"

fun on_tenant :: "prims \<Rightarrow> aead \<Rightarrow> rounding \<Rightarrow> env \<Rightarrow> endpoint \<Rightarrow> request \<Rightarrow> Tenant \<Rightarrow> Store \<Rightarrow> handled" where
  "on_tenant P A rnd E OrgDetail rq t s = plain_read (handleOrgDetail t) s"
| "on_tenant P A rnd E OrgTimeline rq t s = plain_read (handleTimeline P rq t) s"
| "on_tenant P A rnd E Issue rq t s = handleIssue P A E rq (rq_org rq) t s"
| "on_tenant P A rnd E Revoke rq t s = handleRevoke P A E rq (rq_org rq) t s"
| "on_tenant P A rnd E State rq t s = plain_read (handleState P t) s"
| "on_tenant P A rnd E Graph rq t s = plain_read (handleGraph P t) s"
| "on_tenant P A rnd E Scores rq t s = handleScores P rnd E rq (rq_org rq) t s"
| "on_tenant P A rnd E Recover rq t s = handleRecover P A E rq (rq_org rq) t s"
| "on_tenant P A rnd E OrgPubKey rq t s = plain_read (handleOrgPubKey t) s"
| "on_tenant P A rnd E CTSTH rq t s = handleCTSTH P E t s"
| "on_tenant P A rnd E CTProof rq t s = handleCTProof P rq t s"
| "on_tenant P A rnd E CTGossip rq t s = handleCTGossip P rq (rq_org rq) t s"
| "on_tenant P A rnd E ep rq t s = (None, s)"

fun on_gateway :: "prims \<Rightarrow> aead \<Rightarrow> env \<Rightarrow> endpoint \<Rightarrow> request \<Rightarrow> User option \<Rightarrow> Store \<Rightarrow> handled" where
  "on_gateway P A E Health rq u s = (Some (handleHealth E), s)"
| "on_gateway P A E CreateUser rq u s = handleCreateUser P E rq s"
| "on_gateway P A E ListUsers rq u s = (Some (handleListUsers s), s)"
| "on_gateway P A E UserToken rq u s = handleUserToken P E rq s"
| "on_gateway P A E CreateOrg rq u s = handleCreateOrg P A E rq s"
| "on_gateway P A E ListOrgs rq u s = plain_read (Option.bind u (\<lambda>u. handleListOrgs u s)) s"
| "on_gateway P A E DeleteOrg rq u s = handleDeleteOrg P E rq s"
| "on_gateway P A E AuditSearch rq u s = plain_read (Option.bind u (\<lambda>u. handleAudit P rq u s)) s"
| "on_gateway P A E ListWebhooks rq u s = (Some (handleListWebhooks s), s)"
| "on_gateway P A E CreateWebhook rq u s = handleCreateWebhook P E rq s"
| "on_gateway P A E DeleteWebhook rq u s = handleDeleteWebhook P E rq s"
| "on_gateway P A E BackupCreate rq u s = handleBackup P E s"
| "on_gateway P A E BackupDownload rq u s = (Some (handleBackupDownload rq s), s)"
| "on_gateway P A E RestoreAll rq u s = handleRestore P A E rq s"
| "on_gateway P A E Rotate rq u s = handleRotate P A E rq s"
| "on_gateway P A E Metrics rq u s = (Some (handleMetrics E s), s)"
| "on_gateway P A E ep rq u s = (None, s)"

definition handler :: "prims \<Rightarrow> aead \<Rightarrow> rounding \<Rightarrow> env \<Rightarrow> endpoint \<Rightarrow> request \<Rightarrow> User option \<Rightarrow> Tenant option \<Rightarrow> Store \<Rightarrow> handled" where
  "handler P A rnd E ep rq u t s = (case t of Some t \<Rightarrow> on_tenant P A rnd E ep rq t s | None \<Rightarrow> on_gateway P A E ep rq u s)"

section \<open>Idempotent replay\<close>

text \<open>\<open>u\<close> is the user in the request's context, which only unscoped routes set.\<close>

definition idemKey :: "prims \<Rightarrow> User option \<Rightarrow> request \<Rightarrow> string" where
  "idemKey P u rq = (if rq_idem rq = [] \<or> rq_method rq \<notin> {''POST'', ''PUT''} then []
     else sha256Hex P (str_bytes (rq_method rq @ ''|'' @ rq_path rq @ ''|'' @ (case u of None \<Rightarrow> [] | Some u \<Rightarrow> us_ID u)
            @ ''|'' @ rq_idem rq @ ''|'') @ rq_body rq))"

definition idemLookup :: "env \<Rightarrow> string \<Rightarrow> Store \<Rightarrow> idemEntry option \<times> Store" where
  "idemLookup E k s = (case map_of (st_idem s) k of
     None \<Rightarrow> (None, s)
   | Some e \<Rightarrow> if 24 * 3600 < en_now E - ie_ts e then (None, s\<lparr>st_idem := AList.delete k (st_idem s)\<rparr>) else (Some e, s))"

definition idemStore :: "env \<Rightarrow> string \<Rightarrow> response \<Rightarrow> Store \<Rightarrow> Store" where
  "idemStore E k r s = (if k = [] then s
     else s\<lparr>st_idem := AList.update k \<lparr>ie_resp = r, ie_ts = en_now E\<rparr> (if 4096 < length (st_idem s) then [] else st_idem s)\<rparr>)"

section \<open>The middleware\<close>

text \<open>
  The checks before the handler.  \<open>Blocked\<close> is a wait for the held lock that never ends.  The requests of a
  route without authentication carry no user.
\<close>

datatype gate = Refuse response | Blocked | Pass "User option" string "Tenant option"

definition check_scope :: "endpoint \<Rightarrow> request \<Rightarrow> User \<Rightarrow> string \<Rightarrow> Store \<Rightarrow> gate" where
  "check_scope ep rq u h s =
     (if \<not> scoped ep then Pass (Some u) h None
      else (case map_of (st_Tenants s) (rq_org rq) of
          None \<Rightarrow> Refuse (err_json 404 (NoSuchOrg (rq_org rq)))
        | Some t \<Rightarrow>
            if \<not> inOrg u (rq_org rq) then Refuse (err_json 403 (NotScoped (us_ID u) (rq_org rq)))
            else if \<not> tokenInOrg u h (rq_org rq) then Refuse (err_json 403 (TokenNotScoped (rq_org rq)))
            else Pass (Some u) h (Some t)))"

definition enter :: "prims \<Rightarrow> rounding \<Rightarrow> env \<Rightarrow> endpoint \<Rightarrow> request \<Rightarrow> Store \<Rightarrow> gate \<times> Store" where
  "enter P rnd E ep rq s =
     (if ep = Health then (Pass None [] None, s)
      else if BearerToken (rq_auth rq) = None then (Refuse (err_json 401 MissingAuth), s)
      else if st_held s then (Blocked, s)
      else (case authenticate P (st_Users s) (rq_auth rq) of
          Inl _ \<Rightarrow> (Refuse (err_json 401 BadToken), s)
        | Inr (u, h) \<Rightarrow>
            if \<not> hasRole (us_Role u) (roles_of ep) then (Refuse (err_json 403 (InsufficientRole (roles_of ep))), s)
            else (case allow rnd (en_nano E) h (st_apiLimiter s) of
                (good, l) \<Rightarrow>
                  (let s1 = s\<lparr>st_apiLimiter := l\<rparr> in
                   if \<not> good then (Refuse (err_json 429 RateLimited), s1) else (check_scope ep rq u h s1, s1)))))"

definition userID :: "User option \<Rightarrow> string" where
  "userID u = (case u of None \<Rightarrow> [] | Some u \<Rightarrow> us_ID u)"

definition audit_of :: "env \<Rightarrow> request \<Rightarrow> User option \<Rightarrow> int \<Rightarrow> string \<Rightarrow> AuditEntry" where
  "audit_of E rq u code details = \<lparr>ae_Ts = en_now E, ae_User = userID u, ae_Org = rq_org rq, ae_Method = rq_method rq,
     ae_Path = rq_path rq, ae_Status = code, ae_Details = details\<rparr>"

text \<open>A panic of the handler is a 500; the cache and the audit ring need the lock.\<close>

definition run_handler ::
  "prims \<Rightarrow> aead \<Rightarrow> rounding \<Rightarrow> env \<Rightarrow> endpoint \<Rightarrow> request \<Rightarrow> User option \<Rightarrow> Tenant option \<Rightarrow> string \<Rightarrow> Store \<Rightarrow> handled" where
  "run_handler P A rnd E ep rq u t k s =
     (case handler P A rnd E ep rq (if scoped ep then None else u) t s of
        (r, s1) \<Rightarrow>
          (let r' = (case r of None \<Rightarrow> err_json 500 HandlerPanic | Some r \<Rightarrow> r) in
           if st_held s1 then (None, s1)
           else (Some r', Audit (audit_of E rq u (rs_status r') []) (idemStore E k r' s1))))"

definition serve :: "prims \<Rightarrow> aead \<Rightarrow> rounding \<Rightarrow> env \<Rightarrow> endpoint \<Rightarrow> request \<Rightarrow> Store \<Rightarrow> handled" where
  "serve P A rnd E ep rq s = (case enter P rnd E ep rq s of
     (Refuse r, s1) \<Rightarrow> (Some r, s1)
   | (Blocked, s1) \<Rightarrow> (None, s1)
   | (Pass u h t, s1) \<Rightarrow>
      (let k = idemKey P (if scoped ep then None else u) rq in
       if k = [] then run_handler P A rnd E ep rq u t [] s1
       else if st_held s1 then (None, s1)
       else (case idemLookup E k s1 of
           (Some e, s2) \<Rightarrow> (Some (ie_resp e), Audit (audit_of E rq u (rs_status (ie_resp e)) ''idempotent replay'') s2)
         | (None, s2) \<Rightarrow> run_handler P A rnd E ep rq u t k s2)))"

section \<open>Start\<close>

text \<open>The first administrator, where there is no user; then one watcher per organisation.\<close>

definition seed_admin :: "prims \<Rightarrow> env \<Rightarrow> string \<Rightarrow> Store \<Rightarrow> api_error + (Store \<times> string)" where
  "seed_admin P E bootstrap s =
     (if st_Users s \<noteq> [] then Inr (s, [])
      else (case en_token E of
          None \<Rightarrow> Inl RandError
        | Some b \<Rightarrow> (case NewUser P b ''admin'' RoleAdmin [] of
            None \<Rightarrow> Inl (UnknownRole RoleAdmin)
          | Some (u, raw) \<Rightarrow>
             (let u' = (if bootstrap = [] then u else u\<lparr>us_Tokens := us_Tokens u @ [tokenHash P bootstrap]\<rparr>);
                  tok = (if bootstrap = [] then raw else bootstrap)
              in case saveMeta P E (s\<lparr>st_Users := [(''admin'', u')]\<rparr>) of
                  (Some e, _) \<Rightarrow> Inl e | (None, s1) \<Rightarrow> Inr (s1, tok)))))"

definition watch_all :: "Store \<Rightarrow> Store" where
  "watch_all s = s\<lparr>st_Tenants := map (\<lambda>(i, t). (i, watchOrg t)) (st_Tenants s)\<rparr>"

definition NewGateway ::
  "prims \<Rightarrow> aead \<Rightarrow> env \<Rightarrow> bytes \<Rightarrow> bytes \<Rightarrow> path \<Rightarrow> (path \<times> bytes) list \<Rightarrow> string \<Rightarrow> api_error + (Store \<times> string)" where
  "NewGateway P A E sk lk dir disk bootstrap = (case NewStore P A E sk lk dir disk of
     Inl e \<Rightarrow> Inl e
   | Inr s \<Rightarrow> map_sum id (\<lambda>(s1, tok). (watch_all s1, tok)) (seed_admin P E bootstrap s))"

end
