(* ===== verification/GatewayFrame.thy ===== *)
theory GatewayFrame
  imports Gateway
begin

text \<open>
  What an operation of the gateway may change: \<open>touches i W s s'\<close> says that only the organisation \<open>i\<close>, the files
  in \<open>W\<close>, the outbox and the lock differ.  Every handler of an organisation touches only that organisation.
\<close>

section \<open>Frames\<close>

text \<open>The part of the store no organisation's request changes.\<close>

definition st_core :: "Store \<Rightarrow> Store" where
  "st_core s = s\<lparr>st_Tenants := [], st_outbox := None, st_disk := [], st_held := False\<rparr>"

definition touches :: "string \<Rightarrow> path set \<Rightarrow> Store \<Rightarrow> Store \<Rightarrow> bool" where
  "touches i W s s' \<longleftrightarrow> st_core s' = st_core s
     \<and> (\<forall>j. j \<noteq> i \<longrightarrow> map_of (st_Tenants s') j = map_of (st_Tenants s) j)
     \<and> (\<forall>p. p \<notin> W \<longrightarrow> map_of (st_disk s') p = map_of (st_disk s) p)"

lemma core_fields:
  assumes "st_core s' = st_core s"
  shows "st_dir s' = st_dir s" "st_sealKey s' = st_sealKey s" "st_vault s' = st_vault s" "st_Users s' = st_Users s"
    "st_Webhooks s' = st_Webhooks s" "st_CouncilPub s' = st_CouncilPub s" "st_LogKey s' = st_LogKey s"
    "st_audit s' = st_audit s" "st_idem s' = st_idem s" "st_apiLimiter s' = st_apiLimiter s" "st_started s' = st_started s"
  using assms by (cases s; cases s'; simp add: st_core_def)+

lemma core_updates [simp]:
  "st_core (s\<lparr>st_Tenants := x\<rparr>) = st_core s" "st_core (s\<lparr>st_outbox := ob\<rparr>) = st_core s"
  "st_core (s\<lparr>st_disk := d\<rparr>) = st_core s" "st_core (s\<lparr>st_held := b\<rparr>) = st_core s"
  by (simp_all add: st_core_def)

lemma touches_refl: "touches i W s s"
  by (simp add: touches_def)

lemma touches_trans: "touches i W s s1 \<Longrightarrow> touches i W s1 s2 \<Longrightarrow> touches i W s s2"
  by (simp add: touches_def)

lemma touches_hold: "touches i W s s' \<Longrightarrow> touches i W s (hold s')"
  by (simp add: touches_def hold_def)

lemma touches_put: "touches i W s s' \<Longrightarrow> touches i W s (put_tenant i t s')"
  by (simp add: touches_def put_tenant_def update_conv')

lemma touches_outbox: "touches i W s s' \<Longrightarrow> touches i W s (s'\<lparr>st_outbox := ob\<rparr>)"
  by (simp add: touches_def)

lemma touches_write:
  "touches i W s s' \<Longrightarrow> p \<in> W \<Longrightarrow> writeFileAtomic E p b s' = (e, s'') \<Longrightarrow> touches i W s s''"
  by (auto simp: touches_def writeFileAtomic_def update_conv' split: if_splits)

lemma touches_dir: "touches i W s s' \<Longrightarrow> st_dir s' = st_dir s"
  by (auto simp: touches_def dest: core_fields)

lemma touches_save:
  assumes "touches i W s s'" "tenantPath (st_dir s) (tn_ID t) \<in> W" "saveTenant P A E t s' = Some (e, s'')"
  shows "touches i W s s''"
proof -
  have d: "st_dir s' = st_dir s" by (rule touches_dir [OF assms(1)])
  show ?thesis
    using assms(3) assms(1) touches_write [OF assms(1)] assms(2)
    by (auto simp: saveTenant_def saveTenantBlob_def Let_def d split: option.splits sum.splits)
qed

lemma touches_saveOutbox:
  assumes "touches i W s s'" "outboxFile s \<in> W"
  shows "touches i W s (saveOutbox P E s')"
proof (cases "st_outbox s'")
  case None
  then show ?thesis using assms by (simp add: saveOutbox_def)
next
  case (Some js)
  have "outboxFile s' = outboxFile s" by (simp add: outboxFile_def touches_dir [OF assms(1)])
  then show ?thesis
    using touches_write [OF assms(1), of "outboxFile s" E "json_text P (JArr (map wj_json js))"] assms(2) Some
    by (cases "writeFileAtomic E (outboxFile s) (json_text P (JArr (map wj_json js))) s'") (simp add: saveOutbox_def)
qed

lemma touches_fire: "touches i W s s' \<Longrightarrow> outboxFile s \<in> W \<Longrightarrow> touches i W s (FireWebhooks P E org ev h d s')"
  by (auto simp: FireWebhooks_def Let_def intro!: touches_saveOutbox touches_outbox)

section \<open>Handlers of an organisation\<close>

text \<open>The files of one organisation's requests.\<close>

definition org_files :: "Store \<Rightarrow> Tenant \<Rightarrow> path set" where
  "org_files s t = {outboxFile s, tenantPath (st_dir s) (tn_ID t)}"

lemma append_handler_touches:
  "append_handler P A E i t ty pl c hook d s = (r, s') \<Longrightarrow> touches i (org_files s t) s s'"
  by (auto simp: append_handler_def Let_def org_files_def
      split: option.splits sum.splits tl_error.splits prod.splits
      intro!: touches_hold touches_fire touches_put touches_refl
      intro: touches_save [where t = "t\<lparr>tn_tl := x, tn_counters := y\<rparr>" for x y])

lemma recover_touches: "handleRecover P A E rq i t s = (r, s') \<Longrightarrow> touches i (org_files s t) s s'"
  by (auto simp: handleRecover_def Let_def org_files_def
      split: option.splits sum.splits prod.splits
      intro!: touches_fire touches_put touches_refl
      intro: touches_save [where t = "t\<lparr>tn_tl := x, tn_detected := z, tn_counters := y\<rparr>" for x y z])

lemma on_tenant_touches: "on_tenant P A rnd E ep rq t s = (r, s') \<Longrightarrow> touches (rq_org rq) (org_files s t) s s'"
  by (cases ep) (auto simp: plain_read_def handleIssue_def handleRevoke_def handleScores_def handleCTSTH_def handleCTProof_def
      handleCTGossip_def Let_def split: sum.splits option.splits if_splits prod.splits
      intro: touches_refl append_handler_touches recover_touches touches_hold touches_put)

end
