(* ===== verification/GatewayProps.thy ===== *)
theory GatewayProps
  imports GatewayFrame VaultProps
begin

text \<open>
  What the middleware guarantees: who may reach a handler, what a request can change, the audit ring, replay,
  and what a panic under the lock does to the gateway.
\<close>

section \<open>Entering\<close>

text \<open>Some user's token is presented, and the route's role, organisation and token scope admit it.\<close>

definition authorised :: "prims \<Rightarrow> endpoint \<Rightarrow> request \<Rightarrow> Store \<Rightarrow> bool" where
  "authorised P ep rq s \<longleftrightarrow> (\<exists>i u raw. (i, u) \<in> set (st_Users s) \<and> BearerToken (rq_auth rq) = Some raw \<and> Authed P raw u
     \<and> hasRole (us_Role u) (roles_of ep)
     \<and> (scoped ep \<longrightarrow> inOrg u (rq_org rq) \<and> tokenInOrg u (tokenHash P raw) (rq_org rq) \<and> map_of (st_Tenants s) (rq_org rq) \<noteq> None))"

lemma check_scope_cases:
  "(\<exists>r. check_scope ep rq u h s = Refuse r \<and> rs_status r \<in> {401, 403, 404, 429})
   \<or> check_scope ep rq u h s = Pass (Some u) h (if scoped ep then map_of (st_Tenants s) (rq_org rq) else None)
     \<and> (scoped ep \<longrightarrow> inOrg u (rq_org rq) \<and> tokenInOrg u h (rq_org rq) \<and> map_of (st_Tenants s) (rq_org rq) \<noteq> None)"
  by (auto simp: check_scope_def err_json_def split: option.splits)

lemma enter_cases:
  assumes "enter P rnd E ep rq s = (g, s1)"
  obtains (health) "ep = Health" "g = Pass None [] None" "s1 = s"
  | (refused) r l where "ep \<noteq> Health" "g = Refuse r" "rs_status r \<in> {401, 403, 404, 429}" "s1 = s\<lparr>st_apiLimiter := l\<rparr>"
  | (blocked) "ep \<noteq> Health" "g = Blocked" "s1 = s" "st_held s"
  | (passed) u h t l where "ep \<noteq> Health" "g = Pass (Some u) h t" "authenticate P (st_Users s) (rq_auth rq) = Inr (u, h)"
      "authorised P ep rq s" "hasRole (us_Role u) (roles_of ep)" "\<not> st_held s" "s1 = s\<lparr>st_apiLimiter := l\<rparr>"
      "scoped ep \<longrightarrow> inOrg u (rq_org rq)" "t = (if scoped ep then map_of (st_Tenants s) (rq_org rq) else None)" "scoped ep \<longrightarrow> t \<noteq> None"
proof (cases "ep = Health")
  case True
  with assms that(1) show ?thesis by (simp add: enter_def)
next
  case False
  show ?thesis
  proof (cases "authenticate P (st_Users s) (rq_auth rq)")
    case (Inl e)
    then have "(\<exists>c a. g = Refuse (err_json 401 a)) \<or> g = Blocked \<and> st_held s" "s1 = s"
      using assms False by (auto simp: enter_def split: if_splits)
    then show ?thesis using that(2) [of _ "st_apiLimiter s"] that(3) False by (auto simp: err_json_def)
  next
    case (Inr uh)
    obtain u h where uh: "uh = (u, h)" by force
    obtain good l where al: "allow rnd (en_nano E) h (st_apiLimiter s) = (good, l)" by force
    obtain i raw where au: "(i, u) \<in> set (st_Users s)" "BearerToken (rq_auth rq) = Some raw" "h = tokenHash P raw" "Authed P raw u"
      using authenticate_user [of P "st_Users s" "rq_auth rq" u h] Inr uh by auto
    show ?thesis
    proof (cases "st_held s \<or> \<not> hasRole (us_Role u) (roles_of ep) \<or> \<not> good")
      case True
      then have "(\<exists>a. g = Refuse (err_json 403 a)) \<and> s1 = s \<or> (\<exists>a. g = Refuse (err_json 429 a)) \<and> s1 = s\<lparr>st_apiLimiter := l\<rparr>
          \<or> g = Blocked \<and> st_held s \<and> s1 = s"
        using assms False au(2) unfolding enter_def Inr uh al sum.case prod.case Let_def
        by (simp split: if_splits) blast+
      then show ?thesis
      proof (elim disjE exE conjE)
        show ?thesis if "g = Refuse (err_json 403 a)" "s1 = s" for a
          using False that by (intro refused [of "err_json 403 a" "st_apiLimiter s"]) (simp_all add: err_json_def)
        show ?thesis if "g = Refuse (err_json 429 a)" "s1 = s\<lparr>st_apiLimiter := l\<rparr>" for a
          using False that by (intro refused [of "err_json 429 a" l]) (simp_all add: err_json_def)
        show ?thesis if "g = Blocked" "st_held s" "s1 = s"
          using False that by (intro blocked)
      qed
    next
      case ok: False
      then have e: "g = check_scope ep rq u h (s\<lparr>st_apiLimiter := l\<rparr>)" "s1 = s\<lparr>st_apiLimiter := l\<rparr>"
        using assms False Inr uh al au by (auto simp: enter_def Let_def)
      consider (adm) "g = Pass (Some u) h (if scoped ep then map_of (st_Tenants s) (rq_org rq) else None)"
          "scoped ep \<longrightarrow> inOrg u (rq_org rq) \<and> tokenInOrg u h (rq_org rq) \<and> map_of (st_Tenants s) (rq_org rq) \<noteq> None"
        | (rej) r where "g = Refuse r" "rs_status r \<in> {401, 403, 404, 429}"
        using check_scope_cases [of ep rq u h "s\<lparr>st_apiLimiter := l\<rparr>"] unfolding e(1) by auto
      then show ?thesis
      proof cases
        case adm
        have "authorised P ep rq s" using ok au adm(2) unfolding authorised_def by blast
        then show ?thesis 
          using adm ok Inr uh False e(2)
          by (intro passed [of u h "if scoped ep then map_of (st_Tenants s) (rq_org rq) else None" l]) simp_all
      next
        case rej
        with that(2) [of r l] False e(2) show ?thesis by auto
      qed
    qed
  qed
qed

lemma held_limiter [simp]: "st_held (s\<lparr>st_apiLimiter := l\<rparr>) = st_held s"
  by simp

text \<open>
  C5: a request to any route but the liveness probe is either refused with 401, 403, 404 or 429 and
  changes nothing but the rate limiter, or waits on a lock that is never released and changes nothing, or
  presents the token of a user whose role, organisations and token scope admit the route.
\<close>

theorem serve_authorised:
  "ep = Health
   \<or> (\<exists>r. fst (serve P A rnd E ep rq s) = Some r \<and> rs_status r \<in> {401, 403, 404, 429}
        \<and> snd (serve P A rnd E ep rq s) = s\<lparr>st_apiLimiter := st_apiLimiter (snd (serve P A rnd E ep rq s))\<rparr>)
   \<or> st_held s \<and> serve P A rnd E ep rq s = (None, s)
   \<or> authorised P ep rq s"
proof -
  obtain g s1 where e: "enter P rnd E ep rq s = (g, s1)" by force
  then show ?thesis
  proof (cases rule: enter_cases)
    case (refused r l)
    then show ?thesis by (simp add: serve_def e)
  next
    case blocked
    then show ?thesis by (simp add: serve_def e)
  qed simp_all
qed


section \<open>What a request may change\<close>

lemma on_gateway_reads: "on_gateway P A E ep rq u s = (r, s') \<Longrightarrow> roles_of ep \<noteq> [RoleAdmin] \<Longrightarrow> s' = s"
  by (cases ep) (auto simp: roles_of_def plain_read_def)

lemma hasRole_admin_only: "hasRole role [RoleAdmin] \<longleftrightarrow> role = RoleAdmin"
  by (auto simp: hasRole_def)

lemma outboxFile_core: "st_core s' = st_core s \<Longrightarrow> outboxFile s' = outboxFile s"
  unfolding outboxFile_def by (drule core_fields(1)) simp

text \<open>The bookkeeping of the middleware: limiter, cache and audit ring.\<close>

definition st_data :: "Store \<Rightarrow> Store" where
  "st_data s = s\<lparr>st_audit := [], st_idem := [], st_apiLimiter := newLimiter apiRate apiBurst\<rparr>"

lemma data_updates [simp]:
  "st_data (s\<lparr>st_apiLimiter := l\<rparr>) = st_data s" "st_data (Audit e s) = st_data s" "st_data (idemStore E k r s) = st_data s"
  "st_data (s\<lparr>st_idem := m\<rparr>) = st_data s"
  by (simp_all add: st_data_def Audit_def Let_def idemStore_def)

lemma idemLookup_data: "idemLookup E k s = (e, s') \<Longrightarrow> st_data s' = st_data s \<and> st_audit s' = st_audit s \<and> st_apiLimiter s' = st_apiLimiter s"
  by (auto simp: idemLookup_def split: option.splits if_splits)

lemma data_fields:
  assumes "st_data s' = st_data s"
  shows "st_dir s' = st_dir s" "st_sealKey s' = st_sealKey s" "st_vault s' = st_vault s" "st_Users s' = st_Users s"
    "st_Webhooks s' = st_Webhooks s" "st_CouncilPub s' = st_CouncilPub s" "st_LogKey s' = st_LogKey s"
    "st_Tenants s' = st_Tenants s" "st_disk s' = st_disk s" "st_outbox s' = st_outbox s" "st_held s' = st_held s"
  using assms by (cases s; cases s'; simp add: st_data_def)+

text \<open>A request past the middleware either replays or is one handler run on the same data.\<close>

lemma run_handler_data:
  assumes "run_handler P A rnd E ep rq u t k s = (r, s')"
  shows "\<exists>r1 s1. handler P A rnd E ep rq (if scoped ep then None else u) t s = (r1, s1) \<and> st_data s' = st_data s1"
proof -
  obtain r1 s1 where h: "handler P A rnd E ep rq (if scoped ep then None else u) t s = (r1, s1)" by force
  with assms have "st_data s' = st_data s1" by (auto simp: run_handler_def Let_def split: if_splits)
  with h show ?thesis by blast
qed

lemma serve_cases:
  assumes "serve P A rnd E ep rq s = (r, s')"
  obtains (same) "st_data s' = st_data s"
  | (ran) u h t s0 s1 r1 s2 where "enter P rnd E ep rq s = (Pass u h t, s0)" "st_data s1 = st_data s"
      "handler P A rnd E ep rq (if scoped ep then None else u) t s1 = (r1, s2)" "st_data s' = st_data s2"
proof -
  obtain g s0 where e: "enter P rnd E ep rq s = (g, s0)" by force
  have d0: "st_data s0 = st_data s" using e by (rule enter_cases) auto
  show ?thesis
  proof (cases g)
    case (Pass u h t)
    let ?k = "idemKey P (if scoped ep then None else u) rq"
    have run: thesis if "run_handler P A rnd E ep rq u t k s1 = (r, s')" "st_data s1 = st_data s" for k s1
      using run_handler_data [OF that(1)] that(2) ran e Pass by blast
    obtain c s1 where l: "idemLookup E ?k s0 = (c, s1)" by force
    have d1: "st_data s1 = st_data s" using idemLookup_data [OF l] d0 by simp
    show ?thesis
    proof (cases "?k = []")
      case True
      then show ?thesis using assms e Pass run [OF _ d0] by (simp add: serve_def)
    next
      case False
      then show ?thesis
        using assms e Pass l d0 d1 run [OF _ d1] same by (cases c) (auto simp: serve_def Let_def split: if_splits)
    qed
  next
    case (Refuse x)
    with assms e d0 same show ?thesis by (simp add: serve_def)
  next
    case Blocked
    with assms e d0 same show ?thesis by (simp add: serve_def)
  qed
qed


section \<open>A small gateway\<close>

text \<open>Two organisations and two operators of the first, for the witnesses.\<close>

definition demo_env :: env where
  "demo_env = \<lparr>en_now = 1000, en_nano = 0, en_token = Some (replicate 32 3), en_seed = Some (replicate 32 5),
     en_dek = Some (replicate 32 9), en_seal = (\<lambda>_. demo_rand), en_io = (\<lambda>_. True), en_url = (\<lambda>_. None),
     en_num = (\<lambda>_. None), en_fnum = (\<lambda>_. ''0'')\<rparr>"

definition demo_user :: "string \<Rightarrow> string \<Rightarrow> User" where
  "demo_user i tok = \<lparr>us_ID = i, us_Role = RoleOperator, us_Orgs = [''a''], us_Tokens = [tokenHash toy tok], us_TokenOrgs = []\<rparr>"

definition demo_gw :: Store where
  "demo_gw = st_zero\<lparr>st_dir := [''d''], st_Users := [(''op'', demo_user ''op'' ''t1''), (''op2'', demo_user ''op2'' ''t2'')],
     st_Tenants := [(''a'', tn_zero\<lparr>tn_ID := ''a''\<rparr>), (''b'', tn_zero\<lparr>tn_ID := ''b''\<rparr>)]\<rparr>"

definition demo_req :: "string \<Rightarrow> string \<Rightarrow> bytes \<Rightarrow> request" where
  "demo_req tok org body = \<lparr>rq_method = ''POST'', rq_path = ''/v1/orgs/a/issue'', rq_auth = ''Bearer '' @ tok, rq_idem = [], rq_org = org,
     rq_id = [], rq_query = [], rq_body = body\<rparr>"

lemma demo_bearer [simp]: "BearerToken ''Bearer t1'' = Some ''t1''" "BearerToken ''Bearer t2'' = Some ''t2''"
  by code_simp+

lemma demo_hash: "tokenHash toy ''t1'' \<noteq> tokenHash toy ''t2''"
  by code_simp

lemma demo_auth:
  "authenticate toy (st_Users demo_gw) ''Bearer t1'' = Inr (demo_user ''op'' ''t1'', tokenHash toy ''t1'')"
  "authenticate toy (st_Users demo_gw) ''Bearer t2'' = Inr (demo_user ''op2'' ''t2'', tokenHash toy ''t2'')"
  using demo_hash by (simp_all add: authenticate_def demo_gw_def Authed_def demo_user_def)


section \<open>Idempotent replay\<close>

lemma idemStore_lookup: "k \<noteq> [] \<Longrightarrow> map_of (st_idem (Audit e (idemStore E k r s))) k = Some \<lparr>ie_resp = r, ie_ts = en_now E\<rparr>"
  by (simp add: Audit_def idemStore_def Let_def update_conv')

lemma run_handler_reply:
  assumes "run_handler P A rnd E ep rq u t k s = (Some r, s')"
  obtains s2 e where "s' = Audit e (idemStore E k r s2)" "\<not> st_held s2"
  using assms by (auto simp: run_handler_def Let_def split: prod.splits if_splits)

lemma enter_state:
  assumes "enter P rnd E ep rq s = (g, s1)"
  shows "\<exists>l. s1 = s\<lparr>st_apiLimiter := l\<rparr>"
  using assms
proof (cases rule: enter_cases)
  case health
  then show ?thesis by (intro exI [of _ "st_apiLimiter s"]) simp
next
  case blocked
  then show ?thesis by (intro exI [of _ "st_apiLimiter s"]) simp
qed blast+

lemma idemKey_auth [simp]: "idemKey P u (rq\<lparr>rq_auth := au\<rparr>) = idemKey P u rq"
  by (simp add: idemKey_def)

text \<open>
  A request that was answered under an idempotency key is answered the same way when it comes
  again within a day, whatever happened at the first time, and the second one changes nothing but the audit
  ring and the limiter; on a route of an organisation this also holds when another user sends it.
\<close>

theorem idem_replay:
  assumes "enter P rnd E ep rq s = (Pass u h t, s0)" "serve P A rnd E ep rq s = (Some r, s1)"
    and "idemKey P (if scoped ep then None else u) rq \<noteq> []" "map_of (st_idem s) (idemKey P (if scoped ep then None else u) rq) = None"
    and "enter P rnd E' ep (rq\<lparr>rq_auth := au\<rparr>) s1 = (Pass u' h' t', s2)" "scoped ep \<or> u' = u" "en_now E' - en_now E \<le> 24 * 3600"
  shows "fst (serve P A rnd E' ep (rq\<lparr>rq_auth := au\<rparr>) s1) = Some r
    \<and> st_data (snd (serve P A rnd E' ep (rq\<lparr>rq_auth := au\<rparr>) s1)) = st_data s1"
proof -
  define k where "k = idemKey P (if scoped ep then None else u) rq"
  have k: "k \<noteq> []" "idemKey P (if scoped ep then None else u') (rq\<lparr>rq_auth := au\<rparr>) = k"
    using assms(3,6) by (auto simp: k_def)
  obtain l where "s0 = s\<lparr>st_apiLimiter := l\<rparr>" using enter_state [OF assms(1)] by blast
  then have i0: "idemLookup E k s0 = (None, s0)" using assms(4) by (simp add: idemLookup_def k_def)
  have "run_handler P A rnd E ep rq u t k s0 = (Some r, s1)"
    using assms(1,2) k(1) i0 by (simp add: serve_def Let_def k_def [symmetric] split: if_splits)
  then obtain s3 e where s1: "s1 = Audit e (idemStore E k r s3)" "\<not> st_held s3" by (rule run_handler_reply)
  obtain l' where s2: "s2 = s1\<lparr>st_apiLimiter := l'\<rparr>" using enter_state [OF assms(5)] by blast
  have "map_of (st_idem s2) k = Some \<lparr>ie_resp = r, ie_ts = en_now E\<rparr>"
    unfolding s2 s1(1) using idemStore_lookup [OF k(1)] by simp
  then have i: "idemLookup E' k s2 = (Some \<lparr>ie_resp = r, ie_ts = en_now E\<rparr>, s2)" using assms(7) by (simp add: idemLookup_def)
  have "\<not> st_held s2" unfolding s2 s1(1) using s1(2) by (simp add: Audit_def idemStore_def Let_def)
  with i k s2 show ?thesis by (simp add: serve_def assms(5) Let_def)
qed

definition demo_idem :: "string \<Rightarrow> request" where
  "demo_idem tok = (demo_req tok ''a'' [])\<lparr>rq_idem := ''k''\<rparr>"

lemma hex_encode_Nil [simp]: "hex_encode b = [] \<longleftrightarrow> b = []"
  by (cases b) auto

lemma demo_idem_key: "idemKey toy None (demo_idem tok) \<noteq> []"
proof -
  have "pad 32 x \<noteq> []" for x using length_pad [of 32 x] by (metis list.size(3) zero_neq_numeral)
  then show ?thesis by (simp add: idemKey_def demo_idem_def demo_req_def sha256Hex_def toy_sel)
qed

definition demo_limiter :: "string list \<Rightarrow> limiter" where
  "demo_limiter hs = \<lparr>li_rate = apiRate, li_burst = apiBurst, li_buckets = map (\<lambda>h. (h, \<lparr>bk_tokens = Fin 39, bk_last = 0\<rparr>)) hs\<rparr>"

lemma demo_allow: "h \<notin> set hs \<Longrightarrow> allow Fin 0 h (demo_limiter hs) = (True, demo_limiter (hs @ [h]))"
proof -
  assume "h \<notin> set hs"
  then have n: "h \<notin> fst ` set (map (\<lambda>h. (h, \<lparr>bk_tokens = Fin 39, bk_last = 0\<rparr>)) hs)" by force
  have "AList.update h b m = m @ [(h, b)]" if "h \<notin> fst ` set m" for b :: bucket and m
    using that by (induction m) auto
  with n have "AList.update h b (map (\<lambda>h. (h, \<lparr>bk_tokens = Fin 39, bk_last = 0\<rparr>)) hs) = map (\<lambda>h. (h, \<lparr>bk_tokens = Fin 39, bk_last = 0\<rparr>)) hs @ [(h, b)]" for b
    by blast
  moreover have "map_of (map (\<lambda>h. (h, \<lparr>bk_tokens = Fin 39, bk_last = 0\<rparr>)) hs) h = None" using n by (simp add: map_of_eq_None_iff)
  ultimately show ?thesis
    by (simp add: allow_def refill_def demo_limiter_def Let_def apiBurst_def f_sub_def)
qed

lemma demo_gw_limiter: "st_apiLimiter demo_gw = demo_limiter []"
  by (simp add: demo_gw_def st_zero_def demo_limiter_def newLimiter_def)

text \<open>The operator passes on the route of organisation a.\<close>

lemma demo_enter:
  assumes "st_Users s = st_Users demo_gw" "map_of (st_Tenants s) ''a'' = Some t" "\<not> st_held s" "st_apiLimiter s = demo_limiter hs"
    and "tokenHash toy tok \<notin> set hs" "roles_of ep = [RoleOperator, RoleAdmin]" "scoped ep"
    and "authenticate toy (st_Users demo_gw) (''Bearer '' @ tok) = Inr (demo_user i tok, tokenHash toy tok)" "rq_auth rq = ''Bearer '' @ tok" "rq_org rq = ''a''"
  shows "enter toy Fin demo_env ep rq s = (Pass (Some (demo_user i tok)) (tokenHash toy tok) (Some t), s\<lparr>st_apiLimiter := demo_limiter (hs @ [tokenHash toy tok])\<rparr>)"
proof -
  have b: "BearerToken (rq_auth rq) \<noteq> None" using assms(8,9) by (auto simp: authenticate_def split: option.splits)
  have "ep \<noteq> Health" using assms(7) by (auto simp: scoped_def)
  with b assms show ?thesis
    by (simp add: enter_def demo_allow demo_env_def hasRole_def demo_user_def check_scope_def inOrg_def tokenInOrg_def)
qed

theorem idem_replay_witness:
  "\<exists>s1. serve toy toy_aead Fin demo_env Issue (demo_idem ''t1'') demo_gw = (Some (err_json 400 EmptyBody), s1)
     \<and> fst (serve toy toy_aead Fin demo_env Issue (demo_idem ''t2'') s1) = Some (err_json 400 EmptyBody)"
proof -
  let ?h1 = "tokenHash toy ''t1''" and ?t = "tn_zero\<lparr>tn_ID := ''a''\<rparr>" and ?k = "idemKey toy None (demo_idem ''t1'')"
  have sc: "scoped Issue" "roles_of Issue = [RoleOperator, RoleAdmin]" by (simp_all add: scoped_def roles_of_def)
  have e1: "enter toy Fin demo_env Issue (demo_idem ''t1'') demo_gw
      = (Pass (Some (demo_user ''op'' ''t1'')) ?h1 (Some ?t), demo_gw\<lparr>st_apiLimiter := demo_limiter ([] @ [?h1])\<rparr>)"
    by (rule demo_enter) (use sc demo_gw_limiter demo_auth in \<open>auto simp: demo_gw_def demo_idem_def demo_req_def st_zero_def\<close>)
  have i: "map_of (st_idem demo_gw) ?k = None" by (simp add: demo_gw_def st_zero_def)
  define s1 where "s1 = snd (serve toy toy_aead Fin demo_env Issue (demo_idem ''t1'') demo_gw)"
  have r: "serve toy toy_aead Fin demo_env Issue (demo_idem ''t1'') demo_gw = (Some (err_json 400 EmptyBody), s1)"
    "st_Users s1 = st_Users demo_gw" "st_Tenants s1 = st_Tenants demo_gw" "\<not> st_held s1" "st_apiLimiter s1 = demo_limiter [?h1]"
    using e1 i demo_idem_key [of "''t1''"]
    by (simp_all add: s1_def serve_def Let_def sc idemLookup_def run_handler_def handler_def handleIssue_def readJSON_def
        demo_idem_def demo_req_def Audit_def idemStore_def demo_gw_def st_zero_def err_json_def)
  have e2: "enter toy Fin demo_env Issue ((demo_idem ''t1'')\<lparr>rq_auth := ''Bearer t2''\<rparr>) s1
      = (Pass (Some (demo_user ''op2'' ''t2'')) (tokenHash toy ''t2'') (Some ?t), s1\<lparr>st_apiLimiter := demo_limiter ([?h1] @ [tokenHash toy ''t2''])\<rparr>)"
    by (rule demo_enter) (use sc r demo_auth demo_hash in \<open>auto simp: demo_gw_def demo_idem_def demo_req_def st_zero_def\<close>)
  have q: "(demo_idem ''t1'')\<lparr>rq_auth := ''Bearer t2''\<rparr> = demo_idem ''t2''" by (simp add: demo_idem_def demo_req_def)
  show ?thesis
    using idem_replay [OF e1 r(1), of demo_env "''Bearer t2''", OF _ _ e2] demo_idem_key i sc r(1) unfolding q
    by simp
qed

section \<open>A panic under the lock\<close>

text \<open>The timelines \<open>Append\<close> panics on: a missing one, or a key that is neither absent nor 64 bytes.\<close>

definition poisoned :: "Tenant \<Rightarrow> bool" where
  "poisoned t \<longleftrightarrow> (case tn_tl t of None \<Rightarrow> True
     | Some tln \<Rightarrow> (case tl_key tln of None \<Rightarrow> False | Some k \<Rightarrow> length k \<noteq> 64))"

lemma append_handler_panics: "poisoned t \<Longrightarrow> append_handler P A E i t ty pl c hook d s = (None, hold s)"
  by (auto simp: poisoned_def append_handler_def tl_append_def split: option.splits)

lemma serve_held: "st_held s \<Longrightarrow> ep = Health \<or> BearerToken (rq_auth rq) \<noteq> None \<Longrightarrow> fst (serve P A rnd E ep rq s) = None"
  by (auto simp: serve_def enter_def run_handler_def handler_def Let_def split: prod.splits if_splits)

text \<open>
  C32: a well-formed issue request for an organisation whose timeline is missing (its vault is still
  locked) or carries a key of a wrong length (an adopted fork may) is never answered, and after it no
  request that presents a token, and no liveness probe, is answered any more.
\<close>

theorem issue_deadlock:
  assumes "enter P rnd E Issue rq s = (Pass u h (Some t), s0)" "rq_idem rq = []" "poisoned t"
    and "readJSON P ip_fields ip_zero rq = Inr r" "ip_CertID r \<noteq> []" "ip_Identity r \<noteq> []"
    and "ep = Health \<or> BearerToken (rq_auth rq') \<noteq> None"
  shows "fst (serve P A rnd E Issue rq s) = None
    \<and> fst (serve P A rnd' E' ep rq' (snd (serve P A rnd E Issue rq s))) = None"
proof -
  have k: "idemKey P x rq = []" for x using assms(2) by (simp add: idemKey_def)
  have "handler P A rnd E Issue rq x (Some t) s0 = (None, hold s0)" for x
    using assms(3-6) by (simp add: handler_def handleIssue_def append_handler_panics)
  then have "serve P A rnd E Issue rq s = (None, hold s0)"
    using k assms(1) by (simp add: serve_def run_handler_def Let_def hold_def)
  with serve_held [OF _ assms(7)] show ?thesis by (simp add: hold_def)
qed

lemma readJSON_text:
  assumes "json_ok P" "rq_body rq = json_text P j" "plain j" "length (json_text P j) \<le> maxBody" "json_text P j \<noteq> []"
  shows "readJSON P fs z rq = (case decode_struct fs z j of None \<Rightarrow> Inl BadBody | Some r \<Rightarrow> Inr r)"
  using assms by (simp add: readJSON_def unmarshal_text)

definition demo_issue :: request where
  "demo_issue = demo_req ''t1'' ''a'' (json_text toy (ip_json \<lparr>ip_CertID = ''c'', ip_Identity = ''i'', ip_Via = []\<rparr>))"

theorem issue_deadlock_witness:
  "fst (serve toy toy_aead Fin demo_env Issue demo_issue demo_gw) = None
   \<and> fst (serve toy toy_aead Fin demo_env Health demo_issue (snd (serve toy toy_aead Fin demo_env Issue demo_issue demo_gw))) = None"
proof -
  let ?t = "tn_zero\<lparr>tn_ID := ''a''\<rparr>"
  have sc: "scoped Issue" "roles_of Issue = [RoleOperator, RoleAdmin]" by (simp_all add: scoped_def roles_of_def)
  have e: "enter toy Fin demo_env Issue demo_issue demo_gw = (Pass (Some (demo_user ''op'' ''t1'')) (tokenHash toy ''t1'') (Some ?t),
      demo_gw\<lparr>st_apiLimiter := demo_limiter ([] @ [tokenHash toy ''t1''])\<rparr>)"
    by (rule demo_enter) (use sc demo_gw_limiter demo_auth in \<open>auto simp: demo_gw_def demo_issue_def demo_req_def st_zero_def\<close>)
  have p: "poisoned ?t" by (simp add: poisoned_def tn_zero_def)
  have i: "rq_idem demo_issue = []" by (simp add: demo_issue_def demo_req_def)
  have r: "readJSON toy ip_fields ip_zero demo_issue = Inr \<lparr>ip_CertID = ''c'', ip_Identity = ''i'', ip_Via = []\<rparr>"
    unfolding demo_issue_def
    by (subst readJSON_text [OF toy_ok(3), where j = "ip_json \<lparr>ip_CertID = ''c'', ip_Identity = ''i'', ip_Via = []\<rparr>"])
      (simp_all add: demo_req_def ip_json_def omit_string_def ascii_def toy_sel enc_str_def enc_nat_def str_bytes_def maxBody_def
        decode_struct_def ip_fields_def string_field_def same_key_def lower_def ip_zero_def)
  show ?thesis by (rule issue_deadlock [OF e i p r]) simp_all
qed

section \<open>The audit ring\<close>

lemma write_audit: "writeFileAtomic E p b s = (e, s') \<Longrightarrow> st_audit s' = st_audit s"
  by (auto simp: writeFileAtomic_def split: if_splits)

lemma saveMeta_audit: "saveMeta P E s = (e, s') \<Longrightarrow> st_audit s' = st_audit s"
  by (auto simp: saveMeta_def dest: write_audit)

lemma saveTenant_audit: "saveTenant P A E t s = Some (e, s') \<Longrightarrow> st_audit s' = st_audit s"
  by (auto simp: saveTenant_def saveTenantBlob_def Let_def split: option.splits sum.splits dest: write_audit)

lemma save_tenants_audit: "save_tenants P A E ts s = Some (e, s') \<Longrightarrow> st_audit s' = st_audit s"
proof (induction ts arbitrary: s)
  case (Cons it ts)
  obtain i t where it: "it = (i, t)" by force
  from Cons.prems obtain e1 s1 where s1: "saveTenant P A E t s = Some (e1, s1)" "e1 = None \<and> save_tenants P A E ts s1 = Some (e, s') \<or> s' = s1"
    by (auto simp: it split: option.splits)
  then show ?case using Cons.IH [of s1] saveTenant_audit [OF s1(1)] by auto
qed simp

lemma load_vaulted_audit: "load_vaulted P A is s = (e, s') \<Longrightarrow> st_audit s' = st_audit s"
  by (induction P A "is" s rule: load_vaulted.induct) (auto simp: put_tenant_def split: option.splits sum.splits if_splits)

lemma after_save_audit: "after_save r es = (x, s') \<Longrightarrow> s' = snd es"
  by (auto simp: after_save_def split: prod.splits option.splits)

lemma saveMeta_audit' [simp]: "st_audit (snd (saveMeta P E s)) = st_audit s"
  by (cases "saveMeta P E s") (auto dest: saveMeta_audit)

lemma write_audit' [simp]: "st_audit (snd (writeFileAtomic E p b s)) = st_audit s"
  by (cases "writeFileAtomic E p b s") (auto dest: write_audit)

lemma write_keys_audit: "write_keys A E kek v s = (e, s') \<Longrightarrow> st_audit s' = st_audit s"
  by (auto simp: write_keys_def split: sum.splits dest: write_audit)

lemma reseal_under_audit: "reseal_under P A E v s = Some (e, s') \<Longrightarrow> st_audit s' = st_audit s"
  unfolding reseal_under_def loadVaultedTenants_def reSealAllTenants_def
  by (auto split: option.splits prod.splits if_splits dest!: load_vaulted_audit save_tenants_audit)

lemma rotate_audit: "RotateVault P A E shares s = Some (e, s') \<Longrightarrow> st_audit s' = st_audit s"
  unfolding RotateVault_def Let_def
  by (auto split: option.splits sum.splits prod.splits dest!: write_keys_audit reseal_under_audit)

lemma CreateTenant_audit: "CreateTenant P A E i nm s = (r, s') \<Longrightarrow> st_audit s' = st_audit s"
  by (auto simp: CreateTenant_def Let_def put_tenant_def split: if_splits option.splits sum.splits prod.splits
      dest!: saveTenant_audit saveMeta_audit)

lemma DeleteTenant_audit: "DeleteTenant P E i s = (r, s') \<Longrightarrow> st_audit s' = st_audit s"
  by (auto simp: DeleteTenant_def Let_def rename_dir_def split: if_splits option.splits prod.splits dest!: saveMeta_audit)

lemma Restore_audit: "Restore P A E b s = (r, s') \<Longrightarrow> st_audit s' = st_audit s"
  by (auto simp: Restore_def Let_def split: if_splits option.splits prod.splits sum.splits)

lemma on_gateway_audit:
  assumes "on_gateway P A E ep rq u s = (r, s')"
  shows "st_audit s' = st_audit s"
proof (cases ep)
  case CreateUser
  with assms show ?thesis
    by (auto simp: handleCreateUser_def split: sum.splits if_splits option.splits prod.splits dest!: after_save_audit)
next
  case UserToken
  with assms show ?thesis
    by (auto simp: handleUserToken_def Let_def split: option.splits prod.splits dest!: after_save_audit)
next
  case CreateOrg
  with assms show ?thesis
    by (auto simp: handleCreateOrg_def Let_def put_tenant_def split: sum.splits if_splits prod.splits dest!: CreateTenant_audit)
next
  case DeleteOrg
  with assms show ?thesis by (auto simp: handleDeleteOrg_def split: prod.splits option.splits dest: DeleteTenant_audit)
next
  case CreateWebhook
  with assms show ?thesis
    by (auto simp: handleCreateWebhook_def Let_def split: sum.splits if_splits dest!: after_save_audit)
next
  case DeleteWebhook
  with assms show ?thesis by (auto simp: handleDeleteWebhook_def split: option.splits dest!: after_save_audit)
next
  case BackupCreate
  with assms show ?thesis by (auto simp: handleBackup_def Let_def split: option.splits dest!: after_save_audit)
next
  case RestoreAll
  with assms show ?thesis by (auto simp: handleRestore_def split: prod.splits option.splits dest: Restore_audit)
next
  case Rotate
  with assms show ?thesis by (auto simp: handleRotate_def split: option.splits prod.splits if_splits dest: rotate_audit)
qed (use assms in \<open>auto simp: plain_read_def\<close>)

lemma handler_audit: "handler P A rnd E ep rq u t s = (r, s') \<Longrightarrow> st_audit s' = st_audit s"
  using on_gateway_audit on_tenant_touches core_fields(8) unfolding handler_def touches_def
  by (metis option.case_eq_if)


lemma st_audit_idemStore [simp]: "st_audit (idemStore E k r s) = st_audit s"
  by (simp add: idemStore_def)

lemma Audit_ring: "length (st_audit s) \<le> auditCap \<Longrightarrow> st_audit (Audit e s) = last_n (int auditCap) (st_audit s @ [e])"
  by (auto simp: Audit_def Let_def last_n_def auditCap_def)

lemma last_n_length: "0 \<le> k \<Longrightarrow> int (length (last_n k xs)) \<le> k"
  by (auto simp: last_n_def)

text \<open>One request and the ring: either an entry for it was added, or the ring is as it was.\<close>

definition audited :: "env \<Rightarrow> User option \<Rightarrow> request \<Rightarrow> Store \<Rightarrow> response option \<times> Store \<Rightarrow> bool" where
  "audited E u rq s rs \<longleftrightarrow> (\<exists>x d. fst rs = Some x
     \<and> st_audit (snd rs) = last_n (int auditCap) (st_audit s @ [audit_of E rq u (rs_status x) d]))"

lemma run_handler_audited:
  assumes "length (st_audit s) \<le> auditCap" "run_handler P A rnd E ep rq u t k s = (r, s')"
  shows "audited E u rq s (r, s') \<or> r = None \<and> st_held s' \<and> st_audit s' = st_audit s"
proof -
  obtain r1 s1 where h: "handler P A rnd E ep rq (if scoped ep then None else u) t s = (r1, s1)" by force
  have a: "st_audit s1 = st_audit s" by (rule handler_audit [OF h])
  show ?thesis
    using assms h a Audit_ring [of "idemStore E k x s1" for x]
    by (auto simp: run_handler_def Let_def audited_def split: if_splits)
qed

lemma serve_audited:
  assumes "length (st_audit s) \<le> auditCap" "enter P rnd E ep rq s = (Pass u h t, s0)" "serve P A rnd E ep rq s = (r, s')"
  shows "audited E u rq s (r, s') \<or> r = None \<and> st_held s' \<and> st_audit s' = st_audit s"
proof -
  obtain l where s0: "s0 = s\<lparr>st_apiLimiter := l\<rparr>" using enter_state [OF assms(2)] by blast
  let ?k = "idemKey P (if scoped ep then None else u) rq"
  have same: "audited E u rq s rs = audited E u rq s1 rs" if "st_audit s1 = st_audit s" for s1 rs
    using that by (simp add: audited_def)
  obtain c s1 where l: "idemLookup E ?k s0 = (c, s1)" by force
  have a: "st_audit s0 = st_audit s" "st_audit s1 = st_audit s" using idemLookup_data [OF l] s0 by simp_all
  show ?thesis
  proof (cases "?k = [] \<or> c = None \<and> \<not> st_held s0")
    case True
    then consider "run_handler P A rnd E ep rq u t [] s0 = (r, s')" | "run_handler P A rnd E ep rq u t ?k s1 = (r, s')"
      using assms(2,3) l by (cases "?k = []") (simp_all add: serve_def Let_def)
    then show ?thesis
    proof cases
      case 1
      have "length (st_audit s0) \<le> auditCap" using a assms(1) by simp
      from run_handler_audited [OF this 1] same [OF a(1)] a(1) show ?thesis by simp
    next
      case 2
      have "length (st_audit s1) \<le> auditCap" using a assms(1) by simp
      from run_handler_audited [OF this 2] same [OF a(2)] a(2) show ?thesis by simp
    qed
  next
    case False
    then show ?thesis
      using assms l a s0 Audit_ring [of s1] by (cases "st_held s0"; cases c) (auto simp: serve_def Let_def audited_def)
  qed
qed

text \<open>The gateway as a machine: a call is an environment, a route and a request.\<close>

definition gw_step :: "prims \<Rightarrow> aead \<Rightarrow> rounding \<Rightarrow> env \<times> endpoint \<times> request \<Rightarrow> Store \<Rightarrow> Store" where
  "gw_step P A rnd c s = (case c of (E, ep, rq) \<Rightarrow> snd (serve P A rnd E ep rq s))"

interpretation gateway: machine "gw_step P A rnd" "\<lambda>s. length (st_audit s) \<le> auditCap" for P A rnd
proof
  fix s :: Store and c :: "env \<times> endpoint \<times> request" assume l: "length (st_audit s) \<le> auditCap"
  obtain E ep rq where c: "c = (E, ep, rq)" by (cases c) auto
  obtain r s' where sv: "serve P A rnd E ep rq s = (r, s')" by force
  obtain g s0 where e: "enter P rnd E ep rq s = (g, s0)" by force
  have e0: "st_audit s0 = st_audit s" using enter_state [OF e] by auto
  show "length (st_audit (gw_step P A rnd c s)) \<le> auditCap"
  proof (cases g)
    case (Pass u h t)
    from serve_audited [OF l e [unfolded Pass] sv] show ?thesis
      using l last_n_length [of "int auditCap"] by (auto simp: audited_def sv c gw_step_def)
  qed (use e e0 l in \<open>simp_all add: serve_def c gw_step_def\<close>)
qed



end
