(* ===== verification/RecoverProps.thy ===== *)
theory RecoverProps
  imports GatewayProps ChainProps
begin

text \<open>
  What \<open>handleRecover\<close> adopts, how epochs and log heads move along any run of an organisation, and what the
  checks do not exclude.
\<close>

section \<open>Adoption\<close>

text \<open>The checks that an accepted fork has passed.\<close>

definition fork_checked :: "prims \<Rightarrow> slice \<Rightarrow> Timeline \<Rightarrow> FrostCommit \<Rightarrow> Timeline \<Rightarrow> bool" where
  "fork_checked P anchor cur commit fork \<longleftrightarrow> length (slice_bytes anchor) = 32
     \<and> fc_Valid P commit (slice_bytes anchor) gw_quorum \<and> tl_Verify P fork \<and> lastEpoch P cur < lastEpoch P fork
     \<and> (\<exists>idx < length (tl_events fork). ev_Type (tl_events fork ! idx) = EvRecovery \<and> idx \<le> length (tl_events cur)
          \<and> (\<forall>j < idx. ev_Type (tl_events fork ! j) \<noteq> EvRecovery)
          \<and> map (ev_Hash P) (take idx (tl_events fork)) = map (ev_Hash P) (take idx (tl_events cur)))"

lemma hd_filter_upt:
  assumes "filter p [0..<n] \<noteq> []"
  shows "hd (filter p [0..<n]) < n" "p (hd (filter p [0..<n]))" "j < hd (filter p [0..<n]) \<Longrightarrow> \<not> p j"
proof -
  obtain i js where f: "filter p [0..<n] = i # js" using assms by (cases "filter p [0..<n]") auto
  then have m: "i \<in> set (filter p [0..<n])" by simp
  then have ip: "i < n" "p i" by auto
  then show "hd (filter p [0..<n]) < n" "p (hd (filter p [0..<n]))" using f by simp_all
  show "\<not> p j" if "j < hd (filter p [0..<n])"
  proof
    assume "p j"
    have ji: "j < i" using that f by simp
    then have "j \<in> set (filter p [0..<n])" using ip(1) \<open>p j\<close> by simp
    then have "j \<in> set js" using f ji by auto
    moreover have "sorted (i # js)" unfolding f [symmetric] by (simp add: sorted_wrt_filter)
    ultimately show False using ji by auto
  qed
qed

lemma check_fork_ok:
  assumes "check_fork P anchor (Some cur) commit raw = Some (Inr fork)"
  shows "UnmarshalTimeline P (json_text P raw) = Inr fork \<and> fork_checked P anchor cur commit fork"
proof -
  obtain idx where u: "UnmarshalTimeline P (json_text P raw) = Inr fork" "length (slice_bytes anchor) = 32"
    "fc_Valid P commit (slice_bytes anchor) gw_quorum" "tl_Verify P fork" "recovery_index fork = Some idx"
    "descends P cur fork idx = Inr fork"
    using assms by (auto simp: check_fork_def descends_def split: if_splits sum.splits option.splits)
  have d: "idx \<le> length (tl_events cur)" "\<forall>j < idx. ev_Hash P (tl_events cur ! j) = ev_Hash P (tl_events fork ! j)"
    "lastEpoch P cur < lastEpoch P fork" using u(6) by (auto simp: descends_def split: if_splits)
  let ?r = "filter (\<lambda>i. ev_Type (tl_events fork ! i) = EvRecovery) [0..<length (tl_events fork)]"
  have ne: "?r \<noteq> []" "idx = hd ?r" using u(5) by (auto simp: recovery_index_def Let_def split: if_splits)
  note i = hd_filter_upt [OF ne(1), folded ne(2)]
  have "map (ev_Hash P) (take idx (tl_events fork)) = map (ev_Hash P) (take idx (tl_events cur))"
    using d(1,2) i(1) by (intro nth_equalityI) auto
  with u d i show ?thesis unfolding fork_checked_def by blast
qed

lemma saveTenant_state: "saveTenant P A E t s = Some (e, s') \<Longrightarrow> st_Tenants s' = st_Tenants s \<and> st_CouncilPub s' = st_CouncilPub s"
  by (auto simp: saveTenant_def saveTenantBlob_def writeFileAtomic_def Let_def split: option.splits sum.splits if_splits)

lemma fire_state [simp]: "st_Tenants (FireWebhooks P E org ev h d s) = st_Tenants s"
  by (auto simp: FireWebhooks_def saveOutbox_def writeFileAtomic_def Let_def split: option.splits)

lemma put_tenant_lookup [simp]: "map_of (st_Tenants (put_tenant i t s)) j = (if j = i then Some t else map_of (st_Tenants s) j)"
  by (simp add: put_tenant_def update_conv')

text \<open>
  C10: the recovery route either leaves the organisation's timeline as it is, or puts in its place a fork
  that parses, verifies, contains a handoff, has before its first handoff exactly hashes of the
  organisation's own first events, and advances the epoch, shown with a commit valid under the anchor and three members.
\<close>

theorem recover_adopts:
  assumes "map_of (st_Tenants s) i = Some t" "handleRecover P A E rq i t s = (r, s')"
  shows "map_of (st_Tenants s') i = Some t
    \<or> (\<exists>cur fork commit t'. tn_tl t = Some cur \<and> fork_checked P (st_CouncilPub s) cur commit fork
        \<and> map_of (st_Tenants s') i = Some t' \<and> tn_tl t' = Some fork \<and> \<not> tn_detected t')"
proof (cases "readJSON P (rv_fields P) \<lparr>rv_Timeline = None, rv_Commit = None\<rparr> rq")
  case (Inl e)
  with assms show ?thesis by (auto simp: handleRecover_def)
next
  case (Inr q)
  show ?thesis
  proof (cases "\<exists>commit raw fork. rv_Commit q = Some commit \<and> rv_Timeline q = Some raw
      \<and> check_fork P (st_CouncilPub s) (tn_tl t) commit raw = Some (Inr fork)")
    case False
    with assms Inr have "s' = s" by (auto simp: handleRecover_def split: option.splits sum.splits)
    with assms(1) show ?thesis by simp
  next
    case True
    then obtain commit raw fork where q: "rv_Commit q = Some commit" "rv_Timeline q = Some raw"
      "check_fork P (st_CouncilPub s) (tn_tl t) commit raw = Some (Inr fork)" by blast
    have "tn_tl t \<noteq> None" using q(3) by (auto simp: check_fork_def split: if_splits sum.splits option.splits)
    then obtain cur where cur: "tn_tl t = Some cur" by blast
    let ?t = "t\<lparr>tn_tl := Some fork, tn_detected := False, tn_counters := bump ''recoveries'' (tn_counters t)\<rparr>"
    have "map_of (st_Tenants s') i = Some ?t"
      using assms(2) Inr q by (auto simp: handleRecover_def Let_def split: option.splits prod.splits dest!: saveTenant_state)
    with check_fork_ok [OF q(3) [unfolded cur]] cur show ?thesis
      by (intro disjI2) (rule exI [of _ cur], rule exI [of _ fork], rule exI [of _ commit], rule exI [of _ ?t], simp)
  qed
qed


theorem recover_adopts_witness:
  "map_of (st_Tenants (snd (handleRecover toy toy_aead demo_env demo_issue ''a'' (tn_zero\<lparr>tn_ID := ''a''\<rparr>) demo_gw))) ''a'' = Some (tn_zero\<lparr>tn_ID := ''a''\<rparr>)"
proof -
  have m: "map_of (st_Tenants demo_gw) ''a'' = Some (tn_zero\<lparr>tn_ID := ''a''\<rparr>)" by (simp add: demo_gw_def)
  obtain r s' where h: "handleRecover toy toy_aead demo_env demo_issue ''a'' (tn_zero\<lparr>tn_ID := ''a''\<rparr>) demo_gw = (r, s')" by force
  have "tn_tl (tn_zero\<lparr>tn_ID := ''a''\<rparr>) = None" by (simp add: tn_zero_def)
  with recover_adopts [OF m h] show ?thesis unfolding h snd_conv by auto
qed

section \<open>Epochs and log heads along a run\<close>

text \<open>Everything but a restore and a deletion, which replace or drop whole organisations.\<close>

inductive gw_run :: "prims \<Rightarrow> aead \<Rightarrow> rounding \<Rightarrow> Store \<Rightarrow> Store \<Rightarrow> bool" for P A rnd where
  Serves: "ep \<noteq> RestoreAll \<Longrightarrow> ep \<noteq> DeleteOrg \<Longrightarrow> gw_run P A rnd s (snd (serve P A rnd E ep rq s))"
| Watches: "watch_take P A E i s = Some s' \<Longrightarrow> gw_run P A rnd s s'"

inductive_cases gw_runE [consumes 1, case_names Serves Watches]: "gw_run P A rnd s s'"

text \<open>A tenant only moves forward: its epoch and its accepted log head never go back.\<close>

definition tn_le :: "prims \<Rightarrow> Tenant \<Rightarrow> Tenant \<Rightarrow> bool" where
  "tn_le P t t' \<longleftrightarrow> tn_ID t' = tn_ID t \<and> tn_ctSize t \<le> tn_ctSize t'
     \<and> (\<forall>a. tn_tl t = Some a \<longrightarrow> (\<exists>b. tn_tl t' = Some b \<and> lastEpoch P a \<le> lastEpoch P b))"

definition gw_le :: "prims \<Rightarrow> Store \<Rightarrow> Store \<Rightarrow> bool" where
  "gw_le P s s' \<longleftrightarrow> (\<forall>i t. map_of (st_Tenants s) i = Some t \<longrightarrow> (\<exists>t'. map_of (st_Tenants s') i = Some t' \<and> tn_le P t t'))"

lemma tn_le_refl [simp]: "tn_le P t t"
  by (simp add: tn_le_def)

lemma tn_le_trans: "tn_le P t u \<Longrightarrow> tn_le P u v \<Longrightarrow> tn_le P t v"
  unfolding tn_le_def by (metis order_trans)

lemma gw_le_refl [simp]: "gw_le P s s"
  by (simp add: gw_le_def)

lemma gw_le_trans: "gw_le P s t \<Longrightarrow> gw_le P t u \<Longrightarrow> gw_le P s u"
  unfolding gw_le_def by (metis tn_le_trans)

lemma gw_le_tenants: "st_Tenants s' = st_Tenants s \<Longrightarrow> gw_le P s s'"
  by (simp add: gw_le_def)

lemma gw_le_put:
  "(\<And>u. map_of (st_Tenants s) i = Some u \<Longrightarrow> tn_le P u t) \<Longrightarrow> gw_le P s (put_tenant i t s)"
  by (simp add: gw_le_def)

lemma gw_le_via: "gw_le P s s1 \<Longrightarrow> st_Tenants s2 = st_Tenants s1 \<Longrightarrow> gw_le P s s2"
  by (simp add: gw_le_def)

lemma lastEpoch_append:
  assumes "tl_append P tln ty pl ts = Inr (h, tln')" "ty \<noteq> EvCommit"
  shows "lastEpoch P tln' = lastEpoch P tln"
proof -
  obtain k where "tl_key tln = Some k" using assms(1) by (auto simp: tl_append_def split: option.splits)
  from tl_append_event [OF assms(1) this] assms(2) obtain e where
    "tln' = tln\<lparr>tl_events := tl_events tln @ [e]\<rparr>" "ev_Type e \<noteq> EvCommit" by metis
  then show ?thesis by (simp add: lastEpoch_def epoch_step_def)
qed

lemma append_handler_le:
  assumes "append_handler P A E i t ty pl c hook d s = (r, s')" "map_of (st_Tenants s) i = Some t" "ty \<noteq> EvCommit"
  shows "gw_le P s s'"
proof (cases "s' = s \<or> s' = hold s")
  case True
  then show ?thesis by (auto simp: hold_def intro: gw_le_tenants)
next
  case False
  then obtain tln h tln' where a: "tn_tl t = Some tln" "tl_append P tln ty (Some (json_text P pl)) (en_now E) = Inr (h, tln')"
    using assms(1) by (auto simp: append_handler_def split: option.splits sum.splits tl_error.splits)
  let ?t = "t\<lparr>tn_tl := Some tln', tn_counters := bump ''events'' (bump c (tn_counters t))\<rparr>"
  have "st_Tenants s' = st_Tenants (put_tenant i ?t s)"
    using assms(1) a by (auto simp: append_handler_def Let_def hold_def split: option.splits prod.splits dest!: saveTenant_state)
  moreover have "gw_le P s (put_tenant i ?t s)"
    using assms(2) a lastEpoch_append [OF a(2) assms(3)] by (intro gw_le_put) (auto simp: tn_le_def)
  ultimately show ?thesis by (rule gw_le_via [rotated])
qed

lemma recover_le:
  assumes "handleRecover P A E rq i t s = (r, s')" "map_of (st_Tenants s) i = Some t"
  shows "gw_le P s s'"
proof -
  have o: "map_of (st_Tenants s') j = map_of (st_Tenants s) j" if "j \<noteq> i" for j
    using recover_touches [OF assms(1)] that by (simp add: touches_def)
  from recover_adopts [OF assms(2,1)] have "\<exists>t'. map_of (st_Tenants s') i = Some t' \<and> tn_le P t t'"
  proof
    assume "map_of (st_Tenants s') i = Some t"
    then show ?thesis by simp
  next
    assume "\<exists>cur fork commit t'. tn_tl t = Some cur \<and> fork_checked P (st_CouncilPub s) cur commit fork
        \<and> map_of (st_Tenants s') i = Some t' \<and> tn_tl t' = Some fork \<and> \<not> tn_detected t'"
    then obtain cur fork commit t' where f: "tn_tl t = Some cur" "lastEpoch P cur < lastEpoch P fork"
      "map_of (st_Tenants s') i = Some t'" "tn_tl t' = Some fork" by (auto simp: fork_checked_def)
    moreover have "tn_ID t' = tn_ID t \<and> tn_ctSize t' = tn_ctSize t"
      using assms f(3) by (auto simp: handleRecover_def Let_def split: option.splits prod.splits sum.splits dest!: saveTenant_state)
    ultimately show ?thesis by (auto simp: tn_le_def)
  qed
  with o assms(2) show ?thesis unfolding gw_le_def by (metis tn_le_refl option.inject)
qed

lemma on_tenant_le:
  assumes "on_tenant P A rnd E ep rq t s = (r, s')" "map_of (st_Tenants s) (rq_org rq) = Some t"
  shows "gw_le P s s'"
proof (cases ep)
  case Issue
  with assms show ?thesis
    by (auto simp: handleIssue_def split: sum.splits if_splits intro: append_handler_le)
next
  case Revoke
  with assms show ?thesis
    by (auto simp: handleRevoke_def split: sum.splits if_splits intro: append_handler_le)
next
  case Recover
  with assms show ?thesis by (auto intro: recover_le)
next
  case Scores
  with assms show ?thesis
    by (auto simp: handleScores_def split: sum.splits if_splits intro!: gw_le_put simp: tn_le_def)
next
  case CTSTH
  with assms show ?thesis
    by (auto simp: handleCTSTH_def Let_def hold_def split: option.splits intro: gw_le_tenants)
next
  case CTProof
  with assms show ?thesis
    by (auto simp: handleCTProof_def Let_def hold_def split: option.splits intro: gw_le_tenants)
next
  case CTGossip
  with assms show ?thesis
    by (auto simp: handleCTGossip_def Let_def split: option.splits prod.splits if_splits intro!: gw_le_put simp: tn_le_def)
qed (use assms in \<open>auto simp: plain_read_def\<close>)

lemma write_tenants [simp]: "st_Tenants (snd (writeFileAtomic E p b s)) = st_Tenants s"
  by (simp add: writeFileAtomic_def)

lemma saveMeta_tenants [simp]: "st_Tenants (snd (saveMeta P E s)) = st_Tenants s"
  by (simp add: saveMeta_def)

lemma after_save_state: "after_save r es = (x, s') \<Longrightarrow> st_Tenants s' = st_Tenants (snd es)"
  by (auto dest: after_save_audit)

lemma save_tenants_tenants: "save_tenants P A E ts s = Some (e, s') \<Longrightarrow> st_Tenants s' = st_Tenants s"
proof (induction ts arbitrary: s)
  case (Cons it ts)
  obtain i t where it: "it = (i, t)" by force
  from Cons.prems obtain e1 s1 where s1: "saveTenant P A E t s = Some (e1, s1)" "e1 = None \<and> save_tenants P A E ts s1 = Some (e, s') \<or> s' = s1"
    by (auto simp: it split: option.splits)
  then show ?case using Cons.IH [of s1] saveTenant_state [OF s1(1)] by auto
qed simp

lemma load_vaulted_le: "load_vaulted P A js s = (e, s') \<Longrightarrow> gw_le P s s'"
proof (induction js arbitrary: s)
  case (Cons j js)
  show ?case
  proof (cases "\<exists>t tln. map_of (st_Tenants s) j = Some t \<and> tn_tl t = None \<and> loadTenantTimeline P A s j = Inr tln")
    case True
    then obtain t tln where t: "map_of (st_Tenants s) j = Some t" "tn_tl t = None" "loadTenantTimeline P A s j = Inr tln" by blast
    let ?s = "put_tenant j (hydrate (Some (restamp s tln)) t) s"
    have "gw_le P s ?s" using t(1,2) by (intro gw_le_put) (auto simp: tn_le_def hydrate_def)
    moreover have "gw_le P ?s s'" using Cons t by simp
    ultimately show ?thesis by (rule gw_le_trans)
  next
    case False
    then show ?thesis using Cons by (auto split: option.splits if_splits sum.splits)
  qed
qed simp

lemma CreateTenant_le:
  assumes "CreateTenant P A E i nm s = (r, s')"
  shows "gw_le P s s' \<and> (\<forall>t. r = Inr t \<longrightarrow> map_of (st_Tenants s) i = None)"
proof (cases "st_Tenants s' = st_Tenants s")
  case True
  then show ?thesis using assms by (auto simp: CreateTenant_def intro: gw_le_tenants split: if_splits)
next
  case False
  then obtain t where "map_of (st_Tenants s) i = None" "st_Tenants s' = st_Tenants (put_tenant i t s)"
    using assms by (auto simp: CreateTenant_def Let_def split: if_splits option.splits sum.splits prod.splits
      dest!: saveTenant_state arg_cong [where f = "\<lambda>p. st_Tenants (snd p)", OF sym [where s = "saveMeta P E x" for x]])
  moreover have "gw_le P s (put_tenant i t s)" if "map_of (st_Tenants s) i = None" for t
    using that by (intro gw_le_put) simp
  ultimately show ?thesis using gw_le_via by blast
qed

lemma gw_le_put_new: "gw_le P s s1 \<Longrightarrow> map_of (st_Tenants s) i = None \<Longrightarrow> gw_le P s (put_tenant i t s1)"
  by (force simp: gw_le_def)

lemma CreateOrg_le:
  assumes "handleCreateOrg P A E rq s = (r, s')"
  shows "gw_le P s s'"
proof (cases "readJSON P org_fields ([], []) rq")
  case (Inr q)
  obtain i0 nm where q: "q = (i0, nm)" by force
  let ?i = "if i0 = [] then slugify E nm else i0"
  obtain x s1 where c: "CreateTenant P A E ?i nm s = (x, s1)" by force
  show ?thesis
    using assms Inr CreateTenant_le [OF c] gw_le_put_new
    by (cases x) (auto simp: handleCreateOrg_def q Let_def c split: if_splits)
qed (use assms in \<open>auto simp: handleCreateOrg_def\<close>)

lemma Rotate_le:
  assumes "RotateVault P A E shares s = Some (e, s')"
  shows "gw_le P s s'"
proof -
  have w: "write_keys A E kek v s = (x, s1) \<Longrightarrow> st_Tenants s1 = st_Tenants s" for kek v x s1
    by (auto simp: write_keys_def writeFileAtomic_def split: sum.splits if_splits)
  have v: "reseal_under P A E v s1 = Some (x, s') \<Longrightarrow> gw_le P s1 s'" for v s1 x
    unfolding reseal_under_def loadVaultedTenants_def reSealAllTenants_def
    by (auto split: option.splits prod.splits if_splits dest!: load_vaulted_le save_tenants_tenants
        intro: gw_le_via simp: gw_le_def)
  show ?thesis
    using assms unfolding RotateVault_def Let_def
    by (auto split: option.splits sum.splits prod.splits dest!: w v intro: gw_le_tenants simp: gw_le_def)
qed

lemma on_gateway_le:
  assumes "on_gateway P A E ep rq u s = (r, s')" "ep \<noteq> RestoreAll" "ep \<noteq> DeleteOrg"
  shows "gw_le P s s'"
proof (cases ep)
  case CreateUser
  with assms show ?thesis
    by (auto simp: handleCreateUser_def intro!: gw_le_tenants split: sum.splits if_splits option.splits prod.splits dest!: after_save_state)
next
  case UserToken
  with assms show ?thesis
    by (auto simp: handleUserToken_def Let_def intro!: gw_le_tenants split: option.splits prod.splits dest!: after_save_state)
next
  case CreateOrg
  with assms show ?thesis by (auto intro: CreateOrg_le)
next
  case CreateWebhook
  with assms show ?thesis
    by (auto simp: handleCreateWebhook_def Let_def intro!: gw_le_tenants split: sum.splits if_splits dest!: after_save_state)
next
  case DeleteWebhook
  with assms show ?thesis
    by (auto simp: handleDeleteWebhook_def intro!: gw_le_tenants split: option.splits dest!: after_save_state)
next
  case BackupCreate
  with assms show ?thesis by (auto simp: handleBackup_def Let_def intro!: gw_le_tenants split: option.splits dest!: after_save_state)
next
  case Rotate
  with assms show ?thesis by (auto simp: handleRotate_def split: option.splits prod.splits if_splits dest: Rotate_le)
qed (use assms in \<open>auto simp: plain_read_def\<close>)

lemma data_le: "st_data s' = st_data s \<Longrightarrow> gw_le P s s'"
  by (rule gw_le_tenants) (rule data_fields(8))

lemma serve_le:
  assumes "ep \<noteq> RestoreAll" "ep \<noteq> DeleteOrg"
  shows "gw_le P s (snd (serve P A rnd E ep rq s))"
proof -
  obtain r s' where sv: "serve P A rnd E ep rq s = (r, s')" by force
  then show ?thesis
  proof (cases rule: serve_cases)
    case same
    then show ?thesis by (simp add: sv data_le)
  next
    case (ran u h t s0 s1 r1 s2)
    have "gw_le P s1 s2"
    proof (cases t)
      case None
      then show ?thesis using ran(3) assms by (auto simp: handler_def intro: on_gateway_le)
    next
      case (Some tn)
      have "map_of (st_Tenants s) (rq_org rq) = Some tn"
        using ran(1) by (cases rule: enter_cases) (auto simp: Some split: if_splits)
      then have "map_of (st_Tenants s1) (rq_org rq) = Some tn" using data_fields(8) [OF ran(2)] by simp
      then show ?thesis using ran(3) Some by (auto simp: handler_def intro: on_tenant_le)
    qed
    then show ?thesis using data_le [OF ran(2)] data_le [OF ran(4)] unfolding sv snd_conv by (blast intro: gw_le_trans)
  qed
qed

lemma watch_verdict_le:
  assumes "watch_verdict P A E i v s = Some s'"
  shows "gw_le P s s'"
proof (cases "map_of (st_Tenants s) i")
  case None
  with assms show ?thesis by (simp add: watch_verdict_def)
next
  case (Some t)
  have put: "gw_le P s s'" if "st_Tenants s' = st_Tenants (put_tenant i u s)" "tn_le P t u" for u
    using gw_le_via [OF gw_le_put that(1)] that(2) Some by simp
  show ?thesis
  proof (cases "fv_Detected v \<and> \<not> tn_detected t")
    case False
    with assms Some show ?thesis
      by (auto simp: watch_verdict_def split: if_splits intro!: gw_le_put simp: tn_le_def)
  next
    case True
    then obtain tln where tln: "tn_tl t = Some tln" using assms Some by (auto simp: watch_verdict_def split: option.splits)
    define pl where "pl = Some (json_text P (JObj [(''bad_index'', JInt (if minBadIndex P (fv_Scores v) < 0 then int (length (tl_events tln)) else minBadIndex P (fv_Scores v)))]))"
    define t1 where "t1 = t\<lparr>tn_detected := True, tn_counters := bump ''events'' (bump ''detections'' (tn_counters t))\<rparr>"
    show ?thesis
    proof (cases "tl_append P tln EvDetected pl (en_now E)")
      case (Inl e)
      have "st_Tenants s' = st_Tenants (put_tenant i t1 s)"
        using assms Some True tln Inl by (auto simp: watch_verdict_def Let_def pl_def t1_def split: tl_error.splits)
      then show ?thesis by (rule put) (simp add: tn_le_def t1_def)
    next
      case (Inr x)
      obtain h tln' where x: "x = (h, tln')" by force
      have "st_Tenants s' = st_Tenants (put_tenant i (t1\<lparr>tn_tl := Some tln'\<rparr>) s)"
        using assms Some True tln Inr x
        by (auto simp: watch_verdict_def Let_def pl_def t1_def split: option.splits dest!: saveTenant_state)
      then show ?thesis
        by (rule put) (use tln lastEpoch_append [OF Inr [unfolded x]] in \<open>simp add: tn_le_def t1_def\<close>)
    qed
  qed
qed

lemma watch_take_le:
  assumes "watch_take P A E i s = Some s'"
  shows "gw_le P s s'"
proof (cases "map_of (st_Tenants s) i")
  case (Some t)
  have "gw_le P s (put_tenant i (t\<lparr>tn_fleet := f\<rparr>) s)" for f
    using Some by (intro gw_le_put) (auto simp: tn_le_def)
  then show ?thesis
    using assms Some by (auto simp: watch_take_def split: list.splits intro: gw_le_trans dest!: watch_verdict_le)
qed (use assms in \<open>auto simp: watch_take_def\<close>)

text \<open>
  C11: along any sequence of requests and detections, of whatever users, every organisation stays, its
  recovery epoch never decreases, and neither does the size of the log head its gossip accepted.  A restore
  or a deletion are the only operations that can undo a recovery.
\<close>

theorem epoch_monotone:
  assumes "(gw_run P A rnd)\<^sup>*\<^sup>* s s'" "map_of (st_Tenants s) i = Some t"
  shows "\<exists>t'. map_of (st_Tenants s') i = Some t' \<and> tn_ID t' = tn_ID t \<and> tn_ctSize t \<le> tn_ctSize t'
    \<and> (\<forall>a. tn_tl t = Some a \<longrightarrow> (\<exists>b. tn_tl t' = Some b \<and> lastEpoch P a \<le> lastEpoch P b))"
proof -
  have "gw_le P s s'"
    using assms(1)
  proof (induction rule: rtranclp_induct)
    case (step u v)
    from step.hyps(2) have "gw_le P u v"
      by (cases rule: gw_runE) (auto intro: serve_le watch_take_le)
    with step.IH show ?case by (rule gw_le_trans)
  qed simp
  with assms(2) show ?thesis unfolding gw_le_def tn_le_def by blast
qed

theorem epoch_monotone_witness:
  "\<exists>t'. map_of (st_Tenants (snd (serve toy toy_aead Fin demo_env Issue demo_issue demo_gw))) ''b'' = Some t' \<and> tn_ID t' = ''b''"
proof -
  have m: "map_of (st_Tenants demo_gw) ''b'' = Some (tn_zero\<lparr>tn_ID := ''b''\<rparr>)" by (simp add: demo_gw_def)
  have "(gw_run toy toy_aead Fin)\<^sup>*\<^sup>* demo_gw (snd (serve toy toy_aead Fin demo_env Issue demo_issue demo_gw))"
    by (rule r_into_rtranclp, rule Serves) simp_all
  from epoch_monotone [OF this m] show ?thesis by auto
qed

section \<open>What the checks leave open\<close>

text \<open>A handoff its author signs with a key of his own, and the fork that starts with it.\<close>

definition rogue_commit :: "prims \<Rightarrow> bytes \<Rightarrow> bytes \<Rightarrow> FrostCommit" where
  "rogue_commit P mine key = (let c = fc_zero\<lparr>fc_NewPub := Some (ed_public key), fc_Members := [''x'']\<rparr>
     in c\<lparr>fc_Sig := Some (ed_sign P mine (descriptor P c))\<rparr>)"

definition rogue_base :: "bytes \<Rightarrow> bytes \<Rightarrow> Timeline" where
  "rogue_base mine key = \<lparr>tl_events = [], tl_key = Some key, tl_pub = ed_public key, tl_start = Some (ed_public key),
     tl_council = Some (ed_public mine), tl_rotations = [], tl_algo = algoSHA256\<rparr>"

definition epoch_json :: "int \<Rightarrow> json" where
  "epoch_json n = JObj [(''epoch'', JInt n)]"

lemma epoch_unmarshal: "json_ok P \<Longrightarrow> int64 n \<Longrightarrow> unmarshal P epoch_fields 0 (json_text P (epoch_json n)) = Some n"
  by (subst unmarshal_text) (auto simp: epoch_json_def ascii_def epoch_fields_def decode_eval)

lemma rogue_handoff_ok:
  assumes "ed_keypair P mine"
  shows "handoff_ok P (rogue_base mine key) (rogue_commit P mine key) key"
  using ed_sign_verify [OF assms]
  by (simp add: handoff_ok_def rogue_base_def rogue_commit_def fc_wf_def fc_zero_def fc_Valid_def descriptor_def
      fc_signed_members_def Head_def int64_def ascii_def Let_def)

lemma rogue_fork:
  assumes "json_ok P" "ed_keypair P mine" "ed_keypair P key" "int64 n" "0 < n"
  obtains fork where "tl_live P fork" "tl_wf fork" "recovery_index fork = Some 0" "lastEpoch P fork = n" "length (tl_events fork) = 2"
    "tl_key fork = Some key" "tl_pub fork = ed_public key" "tl_council fork = Some (ed_public mine)"
    "tl_start fork = Some (ed_public key)" "tl_rotations fork = []"
proof -
  have k: "length key = 64" using ed_keypair_length [OF assms(3)] .
  obtain h1 t1 where t1: "handoff P (rogue_base mine key) (rogue_commit P mine key) key 0 = Inr (h1, t1)"
    using k by (auto simp: handoff_def tl_append_def Let_def)
  have l1: "tl_live P t1"
    by (rule handoff_live [OF assms(1) t1 assms(3) rogue_handoff_ok [OF assms(2)], of "ed_public key"])
      (simp_all add: rogue_base_def chain_key_def startPub_def)
  have kb: "tl_key ((rogue_base mine key)\<lparr>tl_key := Some key, tl_pub := ed_public key\<rparr>) = Some key" by simp
  obtain e1 where e1: "t1 = (rogue_base mine key)\<lparr>tl_key := Some key, tl_pub := ed_public key, tl_events := [e1]\<rparr>"
    "ev_Type e1 = EvRecovery" "ev_Timestamp e1 = 0"
    by (rule tl_append_event [OF t1 [unfolded handoff_def] kb]) (simp add: rogue_base_def)
  have k1: "tl_key t1 = Some key" using e1 by simp
  obtain h2 t2 where t2: "tl_append P t1 EvCommit (Some (json_text P (epoch_json n))) 0 = Inr (h2, t2)"
    using k k1 by (auto simp: tl_append_def Let_def)
  have l2: "tl_live P t2" using tl_step_live [OF assms(1) _ l1] t2 by (auto intro: tl_step.Appends)
  obtain e2 where e2: "t2 = t1\<lparr>tl_events := tl_events t1 @ [e2]\<rparr>" "ev_Type e2 = EvCommit" "ev_Timestamp e2 = 0"
    "ev_Payload e2 = Some (json_text P (epoch_json n))"
    by (rule tl_append_event [OF t2 k1]) simp
  have ev: "tl_events t2 = [e1, e2]" using e1 e2 by simp
  have ep: "lastEpoch P t2 = n"
    using e1(2) e2(2,4) assms(5) epoch_unmarshal [OF assms(1,4)] by (simp add: lastEpoch_def ev epoch_step_def)
  have re: "recovery_index t2 = Some 0" using e1(2) by (simp add: recovery_index_def ev Let_def upt_rec)
  have wf: "tl_wf t2"
    using e1 e2 k by (simp add: tl_wf_def ev ev_wf_def int64_def ascii_def len_in_def rogue_base_def)
  show thesis
    by (rule that [OF l2 wf re ep]) (simp_all add: ev, simp_all add: e2(1) e1(1) rogue_base_def)
qed

lemma tl_tree_text: "json_text P (tl_tree P t) = tl_Marshal P t True"
  by (simp add: tl_tree_def tl_Marshal_def)

text \<open>
  C31: whoever holds any one commit the council ever signed with three members (they are published
  on the recovered chains) can replace the timeline of an organisation by two events of his own: the checks
  accept a fork that starts with a handoff signed by a key of his choice, carried in the fork as its
  council key, keeps none of the organisation's events, and is signed by a key he holds.
\<close>

theorem recover_hijack:
  assumes "json_ok P" "ed_keypair P mine" "ed_keypair P key" "length (slice_bytes anchor) = 32"
    and "fc_Valid P old (slice_bytes anchor) gw_quorum" "0 \<le> lastEpoch P cur" "lastEpoch P cur < 2 ^ 63 - 1"
  shows "\<exists>fork. check_fork P anchor (Some cur) old (tl_tree P fork) = Some (Inr fork) \<and> length (tl_events fork) = 2
    \<and> tl_key fork = Some key \<and> tl_council fork = Some (ed_public mine)"
proof -
  have n: "int64 (lastEpoch P cur + 1)" "0 < lastEpoch P cur + 1" using assms(6,7) by (auto simp: int64_def)
  obtain fork where f: "tl_live P fork" "tl_wf fork" "recovery_index fork = Some 0" "lastEpoch P fork = lastEpoch P cur + 1"
    "length (tl_events fork) = 2" "tl_key fork = Some key" "tl_pub fork = ed_public key" "tl_council fork = Some (ed_public mine)"
    "tl_start fork = Some (ed_public key)" "tl_rotations fork = []"
    by (rule rogue_fork [OF assms(1-3) n])
  have "UnmarshalTimeline P (json_text P (tl_tree P fork)) = Inr (fork\<lparr>tl_start := Some (startPub fork), tl_key := tl_key fork, tl_rotations := []\<rparr>)"
    using unmarshal_marshal [OF assms(1) f(2), of True] by (simp add: tl_tree_text)
  also have "fork\<lparr>tl_start := Some (startPub fork), tl_key := tl_key fork, tl_rotations := []\<rparr> = fork"
    using f(9,10) by (simp add: startPub_def)
  finally have u: "UnmarshalTimeline P (json_text P (tl_tree P fork)) = Inr fork" .
  have "check_fork P anchor (Some cur) old (tl_tree P fork) = Some (Inr fork)"
    using assms(4,5) u tl_live_Verify [OF f(1)] f(3,4) by (simp add: check_fork_def descends_def)
  with f show ?thesis by blast
qed


text \<open>A commit that three members of the demonstration council once signed, about some other event.\<close>

definition old_commit :: FrostCommit where
  "old_commit = (let c = \<lparr>fc_Epoch = 1, fc_Checkpoint = None, fc_Prev = 0, fc_NewPub = Some (replicate 32 7), fc_Payload = None,
       fc_Sig = None, fc_Members = [''M1'', ''M2'', ''M3'']\<rparr>
     in c\<lparr>fc_Sig := Some (ed_sign toy (toy_key 9) (descriptor toy c))\<rparr>)"

lemma old_commit_valid: "fc_Valid toy old_commit (ed_public (toy_key 9)) gw_quorum"
  by (simp add: old_commit_def fc_Valid_def Let_def descriptor_def fc_signed_members_def toy_sel gw_quorum_def)

theorem recover_hijack_witness:
  "\<exists>fork. check_fork toy (Some (ed_public (toy_key 9))) (Some demo0) old_commit (tl_tree toy fork) = Some (Inr fork) \<and> length (tl_events fork) = 2
    \<and> tl_key fork = Some (toy_key 6) \<and> tl_council fork = Some (ed_public (toy_key 5))"
proof -
  have "tl_events demo0 = []" by (simp add: demo0_def newTimeline_def toy_key_def toy_sel)
  then have e: "lastEpoch toy demo0 = 0" by (simp add: lastEpoch_def)
  show ?thesis
    by (rule recover_hijack [OF toy_ok(3) toy_key_pair toy_key_pair])
      (simp_all add: slice_bytes_def old_commit_valid e)
qed

end
