(* ===== verification/Pq.thy ===== *)
theory Pq
  imports Vault
begin

text \<open>
  The hybrid channel of \<open>pq.go\<close>: X25519 and ML-KEM-768 give one session key through HKDF, and frames
  are sealed with AES-256-GCM under it.  The two key agreements (crypto/ecdh, crypto/mlkem) are parameters; a key
  pair is the two private halves.
\<close>

section \<open>The two key agreements\<close>

text \<open>
  \<open>x_dh\<close> is \<open>NewPublicKey\<close> and \<open>ECDH\<close> (None where either refuses); \<open>k_encap\<close> takes the wire key and its
  randomness and gives the shared secret and the ciphertext, None where the key does not parse.
\<close>

record kem =
  x_pub :: "bytes \<Rightarrow> bytes"
  x_dh :: "bytes \<Rightarrow> bytes \<Rightarrow> bytes option"
  k_ek :: "bytes \<Rightarrow> bytes"
  k_encap :: "bytes \<Rightarrow> bytes \<Rightarrow> (bytes \<times> bytes) option"
  k_decap :: "bytes \<Rightarrow> bytes \<Rightarrow> bytes option"

definition kem_ok :: "kem \<Rightarrow> bool" where
  "kem_ok K \<longleftrightarrow> (\<forall>a. length (x_pub K a) = 32) \<and> (\<forall>a b. x_dh K a (x_pub K b) = x_dh K b (x_pub K a))
     \<and> (\<forall>d. k_ek K d \<noteq> []) \<and> (\<forall>d r. \<exists>ss ct. k_encap K (k_ek K d) r = Some (ss, ct) \<and> length ss = 32 \<and> ct \<noteq> []
         \<and> k_decap K d ct = Some ss)"

record PQPublic =
  pq_X25519 :: slice
  pq_MLKEM :: slice

record PQKeyPair =
  kp_dh :: bytes
  kp_ek :: bytes

datatype pq_error = NoRandomness | BadPeerKey | DhRefused | KemKeyRefused | EncapsulateFailed | DecapsulateFailed
  | BadSessionKey | SealedRejected | SealedPanic

text \<open>The random bytes of one side: both private halves, the encapsulation and the nonce of a seal.\<close>

record pq_rand =
  pr_dh :: "bytes option"
  pr_ek :: "bytes option"
  pr_encap :: bytes
  pr_nonce :: "bytes option"

definition NewPQKeyPair :: "pq_rand \<Rightarrow> pq_error + PQKeyPair" where
  "NewPQKeyPair r = (case pr_dh r of None \<Rightarrow> Inl NoRandomness
     | Some dh \<Rightarrow> (case pr_ek r of None \<Rightarrow> Inl NoRandomness
        | Some ek \<Rightarrow> Inr \<lparr>kp_dh = dh, kp_ek = ek\<rparr>))"

definition pq_Public :: "kem \<Rightarrow> PQKeyPair \<Rightarrow> PQPublic" where
  "pq_Public K p = \<lparr>pq_X25519 = Some (x_pub K (kp_dh p)), pq_MLKEM = Some (k_ek K (kp_ek p))\<rparr>"

section \<open>The handshake\<close>

definition hybrid_info :: bytes where
  "hybrid_info = str_bytes ''trust-orchestrator/hybrid-v1''"

definition deriveKey :: "aead \<Rightarrow> bytes \<Rightarrow> bytes \<Rightarrow> bytes" where
  "deriveKey A dh ss = hkdf_key A (dh @ ss) hybrid_info"

definition bad_peer :: "PQPublic option \<Rightarrow> bool" where
  "bad_peer peer \<longleftrightarrow> (case peer of None \<Rightarrow> True
     | Some p \<Rightarrow> length (slice_bytes (pq_X25519 p)) \<noteq> 32 \<or> slice_bytes (pq_MLKEM p) = [])"

text \<open>The side that encapsulates: the ciphertext to send and the session key.\<close>

definition PQClientShared :: "kem \<Rightarrow> aead \<Rightarrow> bytes \<Rightarrow> PQKeyPair \<Rightarrow> PQPublic option \<Rightarrow> pq_error + (bytes \<times> bytes)" where
  "PQClientShared K A r mine peer =
     (if bad_peer peer then Inl BadPeerKey
      else let p = the peer in
        (case x_dh K (kp_dh mine) (slice_bytes (pq_X25519 p)) of None \<Rightarrow> Inl DhRefused
         | Some dh \<Rightarrow> (case k_encap K (slice_bytes (pq_MLKEM p)) r of None \<Rightarrow> Inl KemKeyRefused
            | Some (ss, ct) \<Rightarrow>
               if ct = [] \<or> length ss \<noteq> 32 then Inl EncapsulateFailed
               else Inr (ct, deriveKey A dh ss))))"

definition PQServerShared :: "kem \<Rightarrow> aead \<Rightarrow> PQKeyPair \<Rightarrow> PQPublic option \<Rightarrow> bytes \<Rightarrow> pq_error + bytes" where
  "PQServerShared K A mine peer ct =
     (if bad_peer peer then Inl BadPeerKey
      else (case x_dh K (kp_dh mine) (slice_bytes (pq_X25519 (the peer))) of None \<Rightarrow> Inl DhRefused
         | Some dh \<Rightarrow> (case k_decap K (kp_ek mine) ct of None \<Rightarrow> Inl DecapsulateFailed
            | Some ss \<Rightarrow> Inr (deriveKey A dh ss))))"

section \<open>Sealed frames\<close>

definition pqSeal :: "aead \<Rightarrow> bytes option \<Rightarrow> bytes \<Rightarrow> bytes \<Rightarrow> pq_error + bytes" where
  "pqSeal A nonce key msg =
     (if length key \<noteq> 32 then Inl BadSessionKey
      else (case nonce of None \<Rightarrow> Inl NoRandomness | Some n \<Rightarrow> Inr (n @ gcm_seal A key n msg)))"

text \<open>A box shorter than its nonce is sliced out of range, which panics.\<close>

definition pqOpen :: "aead \<Rightarrow> bytes \<Rightarrow> bytes \<Rightarrow> pq_error + bytes" where
  "pqOpen A key sealed =
     (if length key \<noteq> 32 then Inl BadSessionKey
      else if length sealed < 12 then Inl SealedPanic
      else (case gcm_open A key (take 12 sealed) (drop 12 sealed) of None \<Rightarrow> Inl SealedRejected | Some m \<Rightarrow> Inr m))"

section \<open>The signature envelope\<close>

record Sigs =
  sg_Ed25519 :: slice
  sg_MLDSA :: slice

definition sg_Sign :: "prims \<Rightarrow> bytes \<Rightarrow> bytes \<Rightarrow> Sigs \<Rightarrow> Sigs" where
  "sg_Sign P key m s = s\<lparr>sg_Ed25519 := Some (ed_sign P key m)\<rparr>"

definition sg_Verify :: "prims \<Rightarrow> bytes \<Rightarrow> bytes \<Rightarrow> Sigs \<Rightarrow> bool" where
  "sg_Verify P pub m s \<longleftrightarrow>
     (if slice_bytes (sg_MLDSA s) \<noteq> [] then False
      else slice_bytes (sg_Ed25519 s) \<noteq> [] \<and> ed_verify P pub m (slice_bytes (sg_Ed25519 s)))"

section \<open>What both sides hold\<close>

text \<open>A handshake between two pairs whose Diffie-Hellman does not degenerate ends in one key on both sides.\<close>

lemma handshake_agrees:
  assumes "kem_ok K" "x_dh K (kp_dh a) (x_pub K (kp_dh b)) \<noteq> None"
  obtains ct key where "PQClientShared K A r a (Some (pq_Public K b)) = Inr (ct, key)" "ct \<noteq> []"
    "PQServerShared K A b (Some (pq_Public K a)) ct = Inr key"
proof -
  obtain ss ct where e: "k_encap K (k_ek K (kp_ek b)) r = Some (ss, ct)" "length ss = 32" "ct \<noteq> []" "k_decap K (kp_ek b) ct = Some ss"
    using assms(1) unfolding kem_ok_def by blast
  obtain dh where dh: "x_dh K (kp_dh a) (x_pub K (kp_dh b)) = Some dh" using assms(2) by blast
  then have dh': "x_dh K (kp_dh b) (x_pub K (kp_dh a)) = Some dh" using assms(1) by (auto simp: kem_ok_def)
  have ok: "length (x_pub K k) = 32" "k_ek K d \<noteq> []" for k d using assms(1) by (auto simp: kem_ok_def)
  show ?thesis
    by (rule that [of ct "deriveKey A dh ss"])
      (use e dh dh' ok in \<open>simp_all add: PQClientShared_def PQServerShared_def pq_Public_def bad_peer_def slice_bytes_def\<close>)
qed

lemma open_seal:
  assumes "aead_ok A" "length key = 32" "length n = 12"
  obtains b where "pqSeal A (Some n) key m = Inr b" "pqOpen A key b = Inr m" "12 \<le> length b"
  using assms by (intro that [of "n @ gcm_seal A key n m"]) (simp_all add: pqSeal_def pqOpen_def aead_ok_def)

lemma derived_length: "aead_ok A \<Longrightarrow> length (deriveKey A dh ss) = 32"
  by (simp add: deriveKey_def aead_ok_def)

text \<open>A concrete agreement: public keys are the private ones padded, secrets are joined in a fixed order.\<close>

definition toy_kem :: kem where
  "toy_kem = \<lparr>x_pub = pad 32, x_dh = (\<lambda>a p. Some (map2 (+) (pad 32 a) (pad 32 p))), k_ek = (\<lambda>d. pad 32 d),
     k_encap = (\<lambda>e r. Some (pad 32 e, pad 32 r)), k_decap = (\<lambda>d c. Some (pad 32 d))\<rparr>"

lemma pad_pad: "pad n (pad n b) = pad n b"
  by (simp add: pad_def)

lemma toy_kem_ok: "kem_ok toy_kem"
proof -
  have "map2 (+) xs ys = map2 (+) ys (xs :: bytes)" for xs ys
    by (rule nth_equalityI) (simp_all add: add.commute)
  moreover have "pad 32 b \<noteq> []" for b using length_pad [of 32 b] by (metis list.size(3) zero_neq_numeral)
  ultimately show ?thesis by (simp add: kem_ok_def toy_kem_def pad_pad)
qed

end
