(* ===== verification/CouncilWire.thy ===== *)
theory CouncilWire
  imports Pq Store
begin

text \<open>
  The council wire of \<open>councilnet.go\<close>: one JSON message per frame behind a four-byte length, an optional hybrid
  handshake, and sealed frames after it.  A connection is the bytes that arrive; the loop of a server consumes them
  and gives the bytes it writes.
\<close>

section \<open>Messages\<close>

record CouncilMsg =
  m_Kind :: string
  m_Node :: string
  m_Epoch :: int
  m_Prev :: int
  m_Root :: slice
  m_Payload :: slice
  m_BadIndex :: int
  m_Timeline :: "json option"
  m_Vote :: bool
  m_Checkpoint :: slice
  m_NewPub :: slice
  m_Commit :: slice
  m_Commitments :: "(string \<times> bytes) list"
  m_R :: slice
  m_C :: slice
  m_Frost :: "FrostCommit option"
  m_Share :: slice
  m_AffectedCerts :: "string list"
  m_AffectedIDs :: "string list"
  m_Sig :: slice
  m_PQPub :: "PQPublic option"
  m_PQCipher :: slice
  m_PQSealed :: slice
  m_Error :: string
  m_Session :: slice
  m_From :: string
  m_Commits :: "string list"
  m_ShareVal :: slice

definition cm_zero :: CouncilMsg where
  "cm_zero = \<lparr>m_Kind = [], m_Node = [], m_Epoch = 0, m_Prev = 0, m_Root = None, m_Payload = None, m_BadIndex = 0,
     m_Timeline = None, m_Vote = False, m_Checkpoint = None, m_NewPub = None, m_Commit = None, m_Commitments = [],
     m_R = None, m_C = None, m_Frost = None, m_Share = None, m_AffectedCerts = [], m_AffectedIDs = [], m_Sig = None,
     m_PQPub = None, m_PQCipher = None, m_PQSealed = None, m_Error = [], m_Session = None, m_From = [],
     m_Commits = [], m_ShareVal = None\<rparr>"

definition councilVote :: string where "councilVote = ''VOTE''"
definition councilVoteResp :: string where "councilVoteResp = ''VOTE_RESP''"
definition councilCommit :: string where "councilCommit = ''COMMIT_REQ''"
definition councilCommitOk :: string where "councilCommitOk = ''COMMIT_RESP''"
definition councilPQHello :: string where "councilPQHello = ''PQ_HELLO''"

lemmas kind_defs = councilVote_def councilVoteResp_def councilCommit_def councilCommitOk_def councilPQHello_def

subsection \<open>JSON\<close>

definition pq_json :: "prims \<Rightarrow> PQPublic \<Rightarrow> json" where
  "pq_json P p = JObj [(''x25519'', slice_json P (pq_X25519 p)), (''mlkem'', slice_json P (pq_MLKEM p))]"

definition pq_fields :: "prims \<Rightarrow> PQPublic field list" where
  "pq_fields P = [slice_field (b64_dec P) ''x25519'' (\<lambda>x p. p\<lparr>pq_X25519 := x\<rparr>),
     slice_field (b64_dec P) ''mlkem'' (\<lambda>x p. p\<lparr>pq_MLKEM := x\<rparr>)]"

definition omit_int :: "string \<Rightarrow> int \<Rightarrow> (string \<times> json) list" where
  "omit_int name n = (if n = 0 then [] else [(name, JInt n)])"

definition omit_strings :: "string \<Rightarrow> string list \<Rightarrow> (string \<times> json) list" where
  "omit_strings name ss = (if ss = [] then [] else [(name, JArr (map JStr ss))])"

definition omit_opt :: "string \<Rightarrow> json option \<Rightarrow> (string \<times> json) list" where
  "omit_opt name v = (case v of None \<Rightarrow> [] | Some j \<Rightarrow> [(name, j)])"

definition cm_json :: "prims \<Rightarrow> CouncilMsg \<Rightarrow> json" where
  "cm_json P m = JObj ([(''kind'', JStr (m_Kind m)), (''node'', JStr (m_Node m))]
     @ omit_int ''epoch'' (m_Epoch m) @ omit_int ''prev'' (m_Prev m) @ omit_slice P ''root'' (m_Root m)
     @ omit_slice P ''payload'' (m_Payload m) @ omit_int ''bad_index'' (m_BadIndex m)
     @ omit_opt ''timeline'' (m_Timeline m) @ (if m_Vote m then [(''vote'', JBool True)] else [])
     @ omit_slice P ''checkpoint'' (m_Checkpoint m) @ omit_slice P ''new_pub'' (m_NewPub m)
     @ omit_slice P ''commit'' (m_Commit m)
     @ (if m_Commitments m = [] then []
        else [(''commitments'', json_map (map (\<lambda>(k, b). (k, slice_json P (Some b))) (m_Commitments m)))])
     @ omit_slice P ''r'' (m_R m) @ omit_slice P ''c'' (m_C m)
     @ omit_opt ''frost'' (map_option (fc_json P) (m_Frost m)) @ omit_slice P ''share'' (m_Share m)
     @ omit_strings ''affected_certs'' (m_AffectedCerts m) @ omit_strings ''affected_ids'' (m_AffectedIDs m)
     @ omit_slice P ''sig'' (m_Sig m) @ omit_opt ''pq_pub'' (map_option (pq_json P) (m_PQPub m))
     @ omit_slice P ''pq_cipher'' (m_PQCipher m) @ omit_slice P ''pq_sealed'' (m_PQSealed m)
     @ omit_string ''error'' (m_Error m) @ omit_slice P ''session'' (m_Session m) @ omit_string ''from'' (m_From m)
     @ omit_strings ''commits'' (m_Commits m) @ omit_slice P ''share_val'' (m_ShareVal m))"

text \<open>A pointer field: \<open>null\<close> is nil, anything else is decoded into the value there or a zero one.\<close>

definition ptr_field ::
  "'e field list \<Rightarrow> 'e \<Rightarrow> string \<Rightarrow> ('r \<Rightarrow> 'e option) \<Rightarrow> ('e option \<Rightarrow> 'r \<Rightarrow> 'r) \<Rightarrow> 'r field" where
  "ptr_field efs zero name old upd = (name, \<lambda>j r. if j = JNull then Some (upd None r)
     else map_option (\<lambda>e. upd (Some e) r) (decode_struct efs (case old r of None \<Rightarrow> zero | Some e \<Rightarrow> e) j))"

definition cm_fields :: "prims \<Rightarrow> CouncilMsg field list" where
  "cm_fields P =
     [string_field ''kind'' (\<lambda>x m. m\<lparr>m_Kind := x\<rparr>), string_field ''node'' (\<lambda>x m. m\<lparr>m_Node := x\<rparr>),
      int_field ''epoch'' (\<lambda>x m. m\<lparr>m_Epoch := x\<rparr>), int_field ''prev'' (\<lambda>x m. m\<lparr>m_Prev := x\<rparr>),
      slice_field (b64_dec P) ''root'' (\<lambda>x m. m\<lparr>m_Root := x\<rparr>),
      slice_field (b64_dec P) ''payload'' (\<lambda>x m. m\<lparr>m_Payload := x\<rparr>),
      int_field ''bad_index'' (\<lambda>x m. m\<lparr>m_BadIndex := x\<rparr>),
      (''timeline'', \<lambda>j m. Some (m\<lparr>m_Timeline := Some j\<rparr>)), bool_field ''vote'' (\<lambda>x m. m\<lparr>m_Vote := x\<rparr>),
      slice_field (b64_dec P) ''checkpoint'' (\<lambda>x m. m\<lparr>m_Checkpoint := x\<rparr>),
      slice_field (b64_dec P) ''new_pub'' (\<lambda>x m. m\<lparr>m_NewPub := x\<rparr>),
      slice_field (b64_dec P) ''commit'' (\<lambda>x m. m\<lparr>m_Commit := x\<rparr>),
      map_field (\<lambda>j. map_option slice_bytes (json_slice (b64_dec P) j)) ''commitments'' m_Commitments
        (\<lambda>x m. m\<lparr>m_Commitments := x\<rparr>),
      slice_field (b64_dec P) ''r'' (\<lambda>x m. m\<lparr>m_R := x\<rparr>), slice_field (b64_dec P) ''c'' (\<lambda>x m. m\<lparr>m_C := x\<rparr>),
      ptr_field (fc_fields P) fc_zero ''frost'' m_Frost (\<lambda>x m. m\<lparr>m_Frost := x\<rparr>),
      slice_field (b64_dec P) ''share'' (\<lambda>x m. m\<lparr>m_Share := x\<rparr>),
      strings_field ''affected_certs'' (\<lambda>x m. m\<lparr>m_AffectedCerts := x\<rparr>),
      strings_field ''affected_ids'' (\<lambda>x m. m\<lparr>m_AffectedIDs := x\<rparr>),
      slice_field (b64_dec P) ''sig'' (\<lambda>x m. m\<lparr>m_Sig := x\<rparr>),
      ptr_field (pq_fields P) \<lparr>pq_X25519 = None, pq_MLKEM = None\<rparr> ''pq_pub'' m_PQPub (\<lambda>x m. m\<lparr>m_PQPub := x\<rparr>),
      slice_field (b64_dec P) ''pq_cipher'' (\<lambda>x m. m\<lparr>m_PQCipher := x\<rparr>),
      slice_field (b64_dec P) ''pq_sealed'' (\<lambda>x m. m\<lparr>m_PQSealed := x\<rparr>),
      string_field ''error'' (\<lambda>x m. m\<lparr>m_Error := x\<rparr>),
      slice_field (b64_dec P) ''session'' (\<lambda>x m. m\<lparr>m_Session := x\<rparr>),
      string_field ''from'' (\<lambda>x m. m\<lparr>m_From := x\<rparr>), strings_field ''commits'' (\<lambda>x m. m\<lparr>m_Commits := x\<rparr>),
      slice_field (b64_dec P) ''share_val'' (\<lambda>x m. m\<lparr>m_ShareVal := x\<rparr>)]"

section \<open>Frames\<close>

datatype net_error = NetEOF | NetShort | NetTooLarge | NetBadJson | UnknownKind string | HelloWithoutKey
  | OfferRejected pq_error | SealedFrameRejected | NetPq pq_error | Unreachable

definition maxFrame :: nat where "maxFrame = 2 ^ 20"

definition be32 :: "int \<Rightarrow> bytes" where
  "be32 x = map (\<lambda>i. word_of_int (x div 256 ^ i)) [3, 2, 1, 0]"

definition put_frame :: "bytes \<Rightarrow> bytes" where
  "put_frame b = be32 (int (length b)) @ b"

definition writeCouncilFrame :: "prims \<Rightarrow> CouncilMsg \<Rightarrow> bytes" where
  "writeCouncilFrame P m = put_frame (json_text P (cm_json P m))"

text \<open>The next frame and what is left of the stream.\<close>

definition get_frame :: "bytes \<Rightarrow> net_error + (bytes \<times> bytes)" where
  "get_frame inp =
     (if inp = [] then Inl NetEOF
      else if length inp < 4 then Inl NetShort
      else let n = nat (set_bytes (take 4 inp)); rest = drop 4 inp in
        if maxFrame < n then Inl NetTooLarge
        else if length rest < n then Inl NetShort
        else Inr (take n rest, drop n rest))"

definition readCouncilFrame :: "prims \<Rightarrow> bytes \<Rightarrow> net_error + CouncilMsg" where
  "readCouncilFrame P inp = (case get_frame inp of
     Inl e \<Rightarrow> Inl e
   | Inr (b, _) \<Rightarrow> (case unmarshal P (cm_fields P) cm_zero b of None \<Rightarrow> Inl NetBadJson | Some m \<Rightarrow> Inr m))"

section \<open>The server side\<close>

datatype serve_end = Closed | Failed net_error | Crashed

datatype step_result = Stop serve_end | Reply bytes "bytes option"

text \<open>The handshake of a first frame: the acknowledgement and the session key.\<close>

definition serve_hello :: "prims \<Rightarrow> kem \<Rightarrow> aead \<Rightarrow> string \<Rightarrow> pq_rand \<Rightarrow> CouncilMsg \<Rightarrow> step_result" where
  "serve_hello P K A nodeID r m =
     (if m_PQPub m = None then Stop (Failed HelloWithoutKey)
      else (case NewPQKeyPair r of Inl e \<Rightarrow> Stop (Failed (NetPq e))
        | Inr mine \<Rightarrow> (case PQClientShared K A (pr_encap r) mine (m_PQPub m) of
             Inl e \<Rightarrow> Stop (Failed (OfferRejected e))
           | Inr (ct, k) \<Rightarrow> Reply (writeCouncilFrame P (cm_zero\<lparr>m_Kind := councilPQHello, m_Node := nodeID,
               m_PQPub := Some (pq_Public K mine), m_PQCipher := Some ct\<rparr>)) (Some k))))"

text \<open>
  The message a frame carries: in a session the sealed document is decoded over the message of the outer frame,
  as \<open>json.Unmarshal\<close> into the same variable does.
\<close>

definition frame_msg :: "prims \<Rightarrow> aead \<Rightarrow> bytes option \<Rightarrow> CouncilMsg \<Rightarrow> serve_end + CouncilMsg" where
  "frame_msg P A key m = (case key of
     None \<Rightarrow> Inr m
   | Some k \<Rightarrow> (case pqOpen A k (slice_bytes (m_PQSealed m)) of
        Inl e \<Rightarrow> Inl (if e = SealedPanic then Crashed else Failed SealedFrameRejected)
      | Inr b \<Rightarrow> (case unmarshal P (cm_fields P) m b of None \<Rightarrow> Inl (Failed NetBadJson) | Some m' \<Rightarrow> Inr m')))"

definition frame_reply :: "prims \<Rightarrow> aead \<Rightarrow> pq_rand \<Rightarrow> bytes option \<Rightarrow> CouncilMsg \<Rightarrow> step_result" where
  "frame_reply P A r key resp = (case key of
     None \<Rightarrow> Reply (writeCouncilFrame P resp) None
   | Some k \<Rightarrow> (case pqSeal A (pr_nonce r) k (json_text P (cm_json P resp)) of
        Inl e \<Rightarrow> Stop (Failed (NetPq e))
      | Inr b \<Rightarrow> Reply (writeCouncilFrame P (cm_zero\<lparr>m_PQSealed := Some b\<rparr>)) (Some k)))"

text \<open>\<open>dispatch\<close> is the handler of the node: an answer or an error with the state it leaves, None where it panics.\<close>

definition serve_step ::
  "prims \<Rightarrow> kem \<Rightarrow> aead \<Rightarrow> string \<Rightarrow> (CouncilMsg \<Rightarrow> 's \<Rightarrow> ((net_error + CouncilMsg) \<times> 's) option) \<Rightarrow> pq_rand \<Rightarrow>
     bytes option \<Rightarrow> bytes \<Rightarrow> 's \<Rightarrow> step_result \<times> 's" where
  "serve_step P K A nodeID dispatch r key b s = (case unmarshal P (cm_fields P) cm_zero b of
     None \<Rightarrow> (Stop (Failed NetBadJson), s)
   | Some m \<Rightarrow>
      if m_Kind m = councilPQHello \<and> key = None then (serve_hello P K A nodeID r m, s)
      else (case frame_msg P A key m of Inl e \<Rightarrow> (Stop e, s)
        | Inr m' \<Rightarrow> (case dispatch m' s of None \<Rightarrow> (Stop Crashed, s)
           | Some (Inl e, s') \<Rightarrow> (Stop (Failed e), s')
           | Some (Inr resp, s') \<Rightarrow> (frame_reply P A r key resp, s'))))"

definition next_rand :: "pq_rand list \<Rightarrow> pq_rand" where
  "next_rand rs = (case rs of [] \<Rightarrow> \<lparr>pr_dh = None, pr_ek = None, pr_encap = [], pr_nonce = None\<rparr> | r # _ \<Rightarrow> r)"

lemma get_frame_shorter: "get_frame inp = Inr (b, rest) \<Longrightarrow> length rest < length inp"
  by (auto simp: get_frame_def Let_def split: if_splits)

text \<open>The loop over a connection: the bytes written, how it ended, the session key and the state.\<close>

function serve_frames ::
  "prims \<Rightarrow> kem \<Rightarrow> aead \<Rightarrow> string \<Rightarrow> (CouncilMsg \<Rightarrow> 's \<Rightarrow> ((net_error + CouncilMsg) \<times> 's) option) \<Rightarrow> pq_rand list \<Rightarrow>
     bytes option \<Rightarrow> bytes \<Rightarrow> 's \<Rightarrow> bytes \<times> serve_end \<times> bytes option \<times> 's" where
  "serve_frames P K A nodeID dispatch rs key inp s = (case get_frame inp of
     Inl e \<Rightarrow> ([], if e = NetEOF then Closed else Failed e, key, s)
   | Inr (b, rest) \<Rightarrow> (case serve_step P K A nodeID dispatch (next_rand rs) key b s of
        (Stop e, s') \<Rightarrow> ([], e, key, s')
      | (Reply o' key', s') \<Rightarrow> (case serve_frames P K A nodeID dispatch (drop 1 rs) key' rest s' of
           (out, r) \<Rightarrow> (o' @ out, r))))"
  by pat_completeness auto
termination
  by (relation "measure (\<lambda>(P, K, A, n, d, rs, key, inp, s). length inp)") (auto dest: get_frame_shorter)

declare serve_frames.simps [simp del]

section \<open>The client side\<close>

text \<open>
  A connection as the client sees it: writing a frame and reading the bytes of the answer.  The client negotiates a
  session; a peer that does not answer the offer gets the message in the clear.
\<close>

definition roundTrip ::
  "prims \<Rightarrow> (bytes \<Rightarrow> 'c \<Rightarrow> bytes \<times> 'c) \<Rightarrow> CouncilMsg \<Rightarrow> 'c \<Rightarrow> (net_error + CouncilMsg) \<times> 'c" where
  "roundTrip P send m c = (case send (writeCouncilFrame P m) c of (b, c') \<Rightarrow> (readCouncilFrame P b, c'))"

definition roundTripPQ ::
  "prims \<Rightarrow> kem \<Rightarrow> aead \<Rightarrow> (bytes \<Rightarrow> 'c \<Rightarrow> bytes \<times> 'c) \<Rightarrow> pq_rand \<Rightarrow> CouncilMsg \<Rightarrow> 'c \<Rightarrow>
     (net_error + CouncilMsg) \<times> 'c" where
  "roundTripPQ P K A send r m c = (case NewPQKeyPair r of
     Inl e \<Rightarrow> (Inl (NetPq e), c)
   | Inr mine \<Rightarrow>
      (case roundTrip P send (cm_zero\<lparr>m_Kind := councilPQHello, m_PQPub := Some (pq_Public K mine)\<rparr>) c of
         (Inl e, c1) \<Rightarrow> (Inl e, c1)
       | (Inr ack, c1) \<Rightarrow>
          if m_PQPub ack = None \<or> slice_bytes (m_PQCipher ack) = [] then roundTrip P send m c1
          else (case PQServerShared K A mine (m_PQPub ack) (slice_bytes (m_PQCipher ack)) of
              Inl e \<Rightarrow> (Inl (NetPq e), c1)
            | Inr key \<Rightarrow> (case pqSeal A (pr_nonce r) key (json_text P (cm_json P m)) of
                 Inl e \<Rightarrow> (Inl (NetPq e), c1)
               | Inr body \<Rightarrow> (case roundTrip P send (cm_zero\<lparr>m_PQSealed := Some body\<rparr>) c1 of
                    (Inl e, c2) \<Rightarrow> (Inl e, c2)
                  | (Inr resp, c2) \<Rightarrow> ((case pqOpen A key (slice_bytes (m_PQSealed resp)) of
                       Inl e \<Rightarrow> Inl (NetPq e)
                     | Inr b \<Rightarrow> (case unmarshal P (cm_fields P) cm_zero b of None \<Rightarrow> Inl NetBadJson | Some x \<Rightarrow> Inr x)), c2))))))"

end
