(* ===== verification/CouncilNet.thy ===== *)
theory CouncilNet
  imports CouncilWire Council ApiTrust
begin

text \<open>
  The networked council of \<open>councilnet.go\<close>: the member server (vote, then partial signature) and the recovery that
  an initiator runs against the members.  A panic of a handler ends the process of the member, whose goroutines do
  not recover it: None.
\<close>

section \<open>The member\<close>

record pendingFrost =
  pf_epoch :: int
  pf_checkpoint :: slice
  pf_commit :: bytes

record 'g MemberServer =
  ms_ID :: string
  ms_Share :: "'g FrostSigner option"
  ms_path :: string
  ms_epoch :: int
  ms_pending :: "pendingFrost option"
  ms_file :: "bytes option"

text \<open>\<open>file\<close> is the epoch file as it is at boot, None where it cannot be read.\<close>

definition NewCouncilMemberServer ::
  "prims \<Rightarrow> string \<Rightarrow> 'g FrostSigner option \<Rightarrow> string \<Rightarrow> bytes option \<Rightarrow> 'g MemberServer" where
  "NewCouncilMemberServer P i share epochPath file =
     \<lparr>ms_ID = (case share of None \<Rightarrow> i | Some s \<Rightarrow> if fs_ID s = [] then i else fs_ID s), ms_Share = share,
      ms_path = epochPath,
      ms_epoch = (case file of None \<Rightarrow> 0
        | Some b \<Rightarrow> (case unmarshal P epoch_fields 0 b of None \<Rightarrow> 0 | Some e \<Rightarrow> e)),
      ms_pending = None, ms_file = file\<rparr>"

text \<open>\<open>writes\<close>: the write of the file succeeds; its error is dropped.\<close>

definition persistEpoch :: "prims \<Rightarrow> bool \<Rightarrow> 'g MemberServer \<Rightarrow> 'g MemberServer" where
  "persistEpoch P writes s = (if ms_path s = [] \<or> \<not> writes then s
     else s\<lparr>ms_file := Some (json_text P (JObj [(''epoch'', JInt (ms_epoch s))]))\<rparr>)"

definition raw_timeline :: "prims \<Rightarrow> json option \<Rightarrow> tl_error + Timeline" where
  "raw_timeline P raw = (case raw of None \<Rightarrow> Inl BadJson | Some j \<Rightarrow> UnmarshalTimeline P (json_text P j))"

definition refuse :: "CouncilMsg \<Rightarrow> string \<Rightarrow> CouncilMsg" where
  "refuse resp e = resp\<lparr>m_Error := e\<rparr>"

text \<open>The nonces \<open>n1\<close>, \<open>n2\<close> are the randomness of \<open>Commit\<close>.\<close>

definition ms_vote ::
  "prims \<Rightarrow> 'g curve \<Rightarrow> bytes option \<times> bytes option \<Rightarrow> CouncilMsg \<Rightarrow> 'g MemberServer \<Rightarrow> (CouncilMsg \<times> 'g MemberServer) option" where
  "ms_vote P C n m s =
     (let resp = cm_zero\<lparr>m_Kind := councilVoteResp, m_Node := ms_ID s, m_Error := ''prefix failed verification''\<rparr> in
      (case raw_timeline P (m_Timeline m) of
         Inl _ \<Rightarrow> Some (resp, s)
       | Inr tln \<Rightarrow>
          if m_BadIndex m < 0 \<or> \<not> VerifyPrefix P tln (m_BadIndex m) then Some (resp, s)
          else (case ms_Share s of None \<Rightarrow> Some (refuse resp ''no share loaded'', s)
            | Some sh \<Rightarrow>
               let epoch = wrap64 (lastEpoch P tln + 1) in
               if epoch \<le> ms_epoch s then Some (refuse resp ''stale epoch'', s)
               else if fs_used sh then Some (refuse resp ''share already committed (single-use)'', s)
               else (case fs_Commit C (fst n) (snd n) sh of
                   (Inl _, sh') \<Rightarrow> Some (refuse resp ''commit failed'', s\<lparr>ms_Share := Some sh'\<rparr>)
                 | (Inr de, sh') \<Rightarrow> (case rollbackCheckpoint P tln (m_BadIndex m) of
                      None \<Rightarrow> None
                    | Some cp \<Rightarrow> Some (resp\<lparr>m_Vote := True, m_Commit := Some de, m_Epoch := epoch, m_Checkpoint := cp,
                          m_Error := []\<rparr>,
                        s\<lparr>ms_Share := Some sh', ms_pending := Some \<lparr>pf_epoch = epoch, pf_checkpoint = cp, pf_commit = de\<rparr>\<rparr>))))))"

text \<open>\<open>prefixState\<close> indexes the events at \<open>badIdx - 1\<close>; out of range it panics.\<close>

definition prefixState :: "prims \<Rightarrow> Timeline \<Rightarrow> int \<Rightarrow> State option" where
  "prefixState P tln badIdx =
     (if badIdx \<le> 0 then Some []
      else if int (length (tl_events tln)) < badIdx then None
      else (case Fork P tln (ev_Hash P (tl_events tln ! nat (badIdx - 1))) of
          Inl _ \<Rightarrow> Some [] | Inr pre \<Rightarrow> Some (Fold P pre)))"

definition strSet :: "string list \<Rightarrow> string list" where
  "strSet ids = remdups ids"

definition xsOf :: "(string \<times> bytes) list \<Rightarrow> (string \<times> int) list" where
  "xsOf commits = map (\<lambda>(i, _). (i, memberX i)) commits"

text \<open>The second half of \<open>commit\<close>: the transcript of the request, and the partial signature over it.\<close>

definition sign_transcript ::
  "prims \<Rightarrow> 'g curve \<Rightarrow> CouncilMsg \<Rightarrow> FrostCommit \<Rightarrow> pendingFrost \<Rightarrow> 'g FrostSigner \<Rightarrow> (string + bytes) option" where
  "sign_transcript P C m fc p sh =
     (if (fs_ID sh, pf_commit p) \<notin> set (m_Commitments m) then Some (Inl ''our commitment missing from transcript'')
      else (case ComputeChallenge P C (fs_GroupPub sh) (descriptor P fc) (m_Commitments m) of
          Inl e \<Rightarrow> if e = Panicked then None else Some (Inl ''challenge recompute failed'')
        | Inr (r, c) \<Rightarrow>
           if r \<noteq> slice_bytes (m_R m) \<or> c \<noteq> slice_bytes (m_C m) then Some (Inl ''transcript challenge mismatch'')
           else (case SignShare P sh \<lparr>tr_M = descriptor P fc, tr_Commits = m_Commitments m, tr_Xs = xsOf (m_Commitments m),
                     tr_R = r, tr_C = c\<rparr> of
               Inl e \<Rightarrow> if e = Panicked then None else Some (Inl ''signing failed'')
             | Inr z \<Rightarrow> Some (Inr z))))"

text \<open>A member that has a session has a share; a nil one would panic in the transcript loop.\<close>

definition ms_commit :: "prims \<Rightarrow> 'g curve \<Rightarrow> bool \<Rightarrow> CouncilMsg \<Rightarrow> 'g MemberServer \<Rightarrow> (CouncilMsg \<times> 'g MemberServer) option" where
  "ms_commit P C writes m s =
     (let resp = cm_zero\<lparr>m_Kind := councilCommitOk, m_Node := ms_ID s, m_Error := ''commit verification failed''\<rparr> in
      (case (ms_pending s, m_Frost m) of
         (Some p, Some fc) \<Rightarrow>
           if m_Epoch m \<le> ms_epoch s \<or> m_Prev m \<noteq> wrap64 (m_Epoch m - 1) then Some (refuse resp ''epoch mismatch'', s)
           else if fc_Epoch fc \<noteq> pf_epoch p \<or> fc_Checkpoint fc = None \<or> \<not> bytes_equal (fc_Checkpoint fc) (pf_checkpoint p)
             then Some (refuse resp ''handoff does not match voted round'', s)
           else (case raw_timeline P (m_Timeline m) of
               Inl _ \<Rightarrow> Some (resp, s)
             | Inr fork \<Rightarrow>
                if \<not> tl_Verify P fork then Some (resp, s)
                else (case prefixState P fork (m_BadIndex m) of None \<Rightarrow> None
                  | Some pre \<Rightarrow>
                     if \<not> Pass (Some (VerifyRecovery pre (Fold P fork) (strSet (m_AffectedCerts m)) (strSet (m_AffectedIDs m))))
                     then Some (resp, s)
                     else (case ms_Share s of None \<Rightarrow> None
                       | Some sh \<Rightarrow> (case sign_transcript P C m fc p sh of None \<Rightarrow> None
                          | Some (Inl e) \<Rightarrow> Some (refuse resp e, s)
                          | Some (Inr z) \<Rightarrow> Some (resp\<lparr>m_Share := Some z, m_Error := []\<rparr>,
                              (persistEpoch P writes (s\<lparr>ms_epoch := m_Epoch m\<rparr>))\<lparr>ms_pending := None\<rparr>)))))
       | _ \<Rightarrow> Some (refuse resp ''no pending session'', s)))"

text \<open>What the environment gives one dispatch.\<close>

record member_env =
  me_nonces :: "bytes option \<times> bytes option"
  me_writes :: bool

definition ms_dispatch ::
  "prims \<Rightarrow> 'g curve \<Rightarrow> member_env \<Rightarrow> CouncilMsg \<Rightarrow> 'g MemberServer \<Rightarrow> ((net_error + CouncilMsg) \<times> 'g MemberServer) option" where
  "ms_dispatch P C en m s =
     (if m_Kind m = councilVote then map_option (apfst Inr) (ms_vote P C (me_nonces en) m s)
      else if m_Kind m = councilCommit then map_option (apfst Inr) (ms_commit P C (me_writes en) m s)
      else Some (Inl (UnknownKind (m_Kind m)), s))"

section \<open>The initiator\<close>

record MemberEndpoint =
  ep_Addr :: string
  ep_ServerName :: string
  ep_PubShare :: bytes

datatype remote_error = RemoteEvidence recover_error | RemotePrefix | TooFewVotes | RemoteSeed | RemoteRollback recover_error
  | RemoteFrost frost_error | TooFewShares | SignatureInvalid | RemoteTimeline tl_error | RemotePanic

text \<open>
  \<open>net\<close> is one dialled exchange with an endpoint: the answer, or an error, and the world after it.  The maps of the
  code are association lists.
\<close>

record vote_acc =
  va_commits :: "(string \<times> bytes) list"
  va_pubs :: "(string \<times> bytes) list"
  va_xs :: "(string \<times> int) list"

definition add_vote :: "MemberEndpoint \<Rightarrow> net_error + CouncilMsg \<Rightarrow> vote_acc \<Rightarrow> vote_acc" where
  "add_vote ep r a = (case r of Inl _ \<Rightarrow> a
     | Inr resp \<Rightarrow>
        if \<not> m_Vote resp \<or> length (slice_bytes (m_Commit resp)) \<noteq> 64 then a
        else \<lparr>va_commits = AList.update (m_Node resp) (slice_bytes (m_Commit resp)) (va_commits a),
              va_pubs = AList.update (m_Node resp) (ep_PubShare ep) (va_pubs a),
              va_xs = AList.update (m_Node resp) (memberX (m_Node resp)) (va_xs a)\<rparr>)"

fun vote_round ::
  "(MemberEndpoint \<Rightarrow> CouncilMsg \<Rightarrow> 'w \<Rightarrow> (net_error + CouncilMsg) \<times> 'w) \<Rightarrow> int \<Rightarrow> CouncilMsg \<Rightarrow> MemberEndpoint list \<Rightarrow>
     vote_acc \<Rightarrow> 'w \<Rightarrow> vote_acc \<times> 'w" where
  "vote_round net minVotes req [] a w = (a, w)"
| "vote_round net minVotes req (ep # eps) a w =
     (if minVotes \<le> int (length (va_commits a)) then (a, w)
      else (case net ep req w of (r, w') \<Rightarrow> vote_round net minVotes req eps (add_vote ep r a) w'))"

text \<open>A share that the aggregator refuses drops the member.\<close>

definition add_partial ::
  "prims \<Rightarrow> 'g curve \<Rightarrow> net_error + CouncilMsg \<Rightarrow> 'g FrostAggregator \<times> (string \<times> bytes) list \<Rightarrow>
     ('g FrostAggregator \<times> (string \<times> bytes) list) option" where
  "add_partial P C r a = (case r of Inl _ \<Rightarrow> Some a
     | Inr resp \<Rightarrow>
        if slice_bytes (m_Share resp) = [] then Some a
        else (case AddShare P C (m_Node resp) (slice_bytes (m_Share resp)) (fst a) of
            Inl e \<Rightarrow> if e = Panicked then None else Some a
          | Inr agg \<Rightarrow> Some (agg, AList.update (m_Node resp) (slice_bytes (m_Share resp)) (snd a))))"

fun share_round ::
  "prims \<Rightarrow> 'g curve \<Rightarrow> (MemberEndpoint \<Rightarrow> CouncilMsg \<Rightarrow> 'w \<Rightarrow> (net_error + CouncilMsg) \<times> 'w) \<Rightarrow> int \<Rightarrow> CouncilMsg \<Rightarrow>
     MemberEndpoint list \<Rightarrow> 'g FrostAggregator \<times> (string \<times> bytes) list \<Rightarrow> 'w \<Rightarrow>
     ('g FrostAggregator \<times> (string \<times> bytes) list) option \<times> 'w" where
  "share_round P C net minVotes req [] a w = (Some a, w)"
| "share_round P C net minVotes req (ep # eps) a w =
     (if minVotes \<le> int (length (snd a)) then (Some a, w)
      else (case net ep req w of (r, w') \<Rightarrow> (case add_partial P C r a of
          None \<Rightarrow> (None, w') | Some a' \<Rightarrow> share_round P C net minVotes req eps a' w')))"

text \<open>The timeline as it goes on the wire, without its key.\<close>

definition wire_timeline :: "prims \<Rightarrow> Timeline \<Rightarrow> json" where
  "wire_timeline P t = tf_json P
     \<lparr>tf_Events = tl_events t, tf_Pub = Some (tl_pub t), tf_StartPub = tl_start t, tf_CouncilPub = tl_council t,
      tf_Key = None, tf_HashAlgo = algoNames (tl_algo t)\<rparr>"

definition vote_request :: "prims \<Rightarrow> Timeline \<Rightarrow> int \<Rightarrow> CouncilMsg" where
  "vote_request P tln badIdx = cm_zero\<lparr>m_Kind := councilVote, m_BadIndex := badIdx, m_Timeline := Some (wire_timeline P tln)\<rparr>"

definition commit_request :: "prims \<Rightarrow> rollback_result \<Rightarrow> int \<Rightarrow> FrostCommit \<Rightarrow> (string \<times> bytes) list \<Rightarrow> bytes \<Rightarrow> bytes \<Rightarrow> CouncilMsg" where
  "commit_request P rb badIdx fc commits r c = cm_zero
     \<lparr>m_Kind := councilCommit, m_Epoch := fc_Epoch fc, m_Prev := fc_Prev fc, m_Checkpoint := fc_Checkpoint fc,
      m_NewPub := fc_NewPub fc, m_Payload := fc_Payload fc, m_Frost := Some fc,
      m_Timeline := Some (wire_timeline P (rb_fork rb)), m_BadIndex := badIdx, m_AffectedCerts := rb_affected rb,
      m_AffectedIDs := rb_identities rb, m_Commitments := commits, m_R := Some r, m_C := Some c\<rparr>"

text \<open>Both rounds of signatures over the handoff \<open>fc\<close>: the signature and the members that signed.\<close>

definition remote_sign ::
  "prims \<Rightarrow> 'g curve \<Rightarrow> (MemberEndpoint \<Rightarrow> CouncilMsg \<Rightarrow> 'w \<Rightarrow> (net_error + CouncilMsg) \<times> 'w) \<Rightarrow> bytes \<Rightarrow> int \<Rightarrow>
     MemberEndpoint list \<Rightarrow> vote_acc \<Rightarrow> rollback_result \<Rightarrow> int \<Rightarrow> FrostCommit \<Rightarrow> 'w \<Rightarrow>
     (remote_error + (bytes \<times> string list)) \<times> 'w" where
  "remote_sign P C net groupPub minVotes eps a rb badIdx fc w =
     (case add_commits (va_commits a) (SetXs (va_xs a) (NewFrostAggregator C groupPub (va_pubs a))) of
        Inl e \<Rightarrow> (Inl (RemoteFrost e), w)
      | Inr agg \<Rightarrow> (case Challenge P C (descriptor P fc) agg of
           Inl e \<Rightarrow> (Inl (RemoteFrost e), w)
         | Inr ((r, c), agg1) \<Rightarrow>
            (case share_round P C net minVotes (commit_request P rb badIdx fc (va_commits a) r c) eps (agg1, []) w of
               (None, w') \<Rightarrow> (Inl RemotePanic, w')
             | (Some (agg2, shares), w') \<Rightarrow>
                if int (length shares) < minVotes then (Inl TooFewShares, w')
                else (case Aggregate C agg2 of
                    Inl e \<Rightarrow> (Inl (RemoteFrost e), w')
                  | Inr sg \<Rightarrow> (Inr (sg, map fst shares), w')))))"

text \<open>The published fork: the handoff first, then the re-issued certificates and the commit event.\<close>

definition remote_tail ::
  "prims \<Rightarrow> Timeline \<Rightarrow> int \<Rightarrow> rollback_result \<Rightarrow> int \<Rightarrow> FrostCommit \<Rightarrow> remote_error + RecoveryReport" where
  "remote_tail P tln badIdx rb epoch fc =
     (case tl_append P (rb_fork rb) EvRecovery (Some (json_text P (fc_json P fc))) 0 of
        Inl e \<Rightarrow> Inl (RemoteTimeline e)
      | Inr (_, t1) \<Rightarrow> (case reissueOnFork P t1 (rb_affected rb) (rb_identities rb) epoch of
           Inl e \<Rightarrow> Inl (RemoteTimeline e)
         | Inr (issued, t2) \<Rightarrow> (case Rollback P tln badIdx of
              Inl _ \<Rightarrow> Inl RemotePanic
            | Inr pre \<Rightarrow> (case tl_append P t2 EvCommit (Some (json_text P (commit_json P fc))) 0 of
                 Inl e \<Rightarrow> Inl (RemoteTimeline e)
               | Inr (_, t3) \<Rightarrow> Inr \<lparr>rr_Commit = fc, rr_Timeline = t3, rr_Issued = issued,
                   rr_Verify = VerifyRecovery (Fold P pre) (Fold P t2) (rb_affected rb) (rb_identities rb),
                   rr_RootSeed = []\<rparr>))))"

definition RemoteRecover ::
  "prims \<Rightarrow> 'g curve \<Rightarrow> (bytes \<Rightarrow> string \<Rightarrow> bytes option) \<Rightarrow> bytes option \<Rightarrow>
     (MemberEndpoint \<Rightarrow> CouncilMsg \<Rightarrow> 'w \<Rightarrow> (net_error + CouncilMsg) \<times> 'w) \<Rightarrow>
     Timeline \<Rightarrow> TrustEvent option \<Rightarrow> bytes \<Rightarrow> MemberEndpoint list \<Rightarrow> int \<Rightarrow> 'w \<Rightarrow> (remote_error + RecoveryReport) \<times> 'w" where
  "RemoteRecover P C ca seed net tln evidence groupPub eps minVotes w = (case evidenceBadIndex P evidence of
     Inl e \<Rightarrow> (Inl (RemoteEvidence e), w)
   | Inr badIdx \<Rightarrow>
      if \<not> VerifyPrefix P tln badIdx then (Inl RemotePrefix, w)
      else (case vote_round net minVotes (vote_request P tln badIdx) eps \<lparr>va_commits = [], va_pubs = [], va_xs = []\<rparr> w of
          (a, w1) \<Rightarrow>
            if int (length (va_commits a)) < minVotes then (Inl TooFewVotes, w1)
            else (case seed of None \<Rightarrow> (Inl RemoteSeed, w1)
              | Some sd \<Rightarrow> (case recoverRollback P ca tln badIdx sd (lastEpoch P tln) of
                   Inl e \<Rightarrow> (Inl (RemoteRollback e), w1)
                 | Inr rb \<Rightarrow> (case rollbackCheckpoint P tln badIdx of
                      None \<Rightarrow> (Inl RemotePanic, w1)
                    | Some cp \<Rightarrow>
                       let fc = \<lparr>fc_Epoch = wrap64 (lastEpoch P tln + 1), fc_Checkpoint = cp, fc_Prev = lastEpoch P tln,
                              fc_NewPub = Some (rb_pub rb), fc_Payload = rb_cert rb, fc_Sig = None, fc_Members = []\<rparr> in
                       (case remote_sign P C net groupPub minVotes eps a rb badIdx fc w1 of
                          (Inl e, w2) \<Rightarrow> (Inl e, w2)
                        | (Inr (sg, ms), w2) \<Rightarrow>
                           let fc' = fc\<lparr>fc_Sig := Some sg, fc_Members := ms\<rparr> in
                           if \<not> fc_Valid P fc' groupPub minVotes then (Inl SignatureInvalid, w2)
                           else (remote_tail P tln badIdx rb (lastEpoch P tln) fc', w2)))))))"

end
