(* ===== verification/CouncilNetProps.thy ===== *)
theory CouncilNetProps
  imports CouncilNet CouncilProps
begin

text \<open>
  What a member of the networked council guarantees whatever it is sent, what it does not, and that honest members
  and an honest initiator complete a recovery.
\<close>

section \<open>What one answer shows\<close>

definition released :: "CouncilMsg \<times> CouncilMsg \<Rightarrow> bool" where
  "released x \<longleftrightarrow> slice_bytes (m_Share (snd x)) \<noteq> []"

lemma fs_Commit_spends: "fs_Commit C r1 r2 sh = (x, sh') \<Longrightarrow> fs_used sh'"
  by (auto simp: fs_Commit_def Let_def split: if_splits option.splits)

lemma ms_vote_cases [consumes 1, case_names refused voted]:
  assumes "ms_vote P C n m s = Some (r, s')"
  obtains "m_Share r = None" "\<not> m_Vote r" "ms_pending s' = ms_pending s" "ms_epoch s' = ms_epoch s"
      "ms_Share s' = ms_Share s \<or> (\<exists>sh. ms_Share s' = Some sh \<and> fs_used sh)"
  | tln sh de sh' cp where "raw_timeline P (m_Timeline m) = Inr tln" "0 \<le> m_BadIndex m" "VerifyPrefix P tln (m_BadIndex m)"
      "ms_Share s = Some sh" "\<not> fs_used sh" "ms_epoch s < wrap64 (lastEpoch P tln + 1)"
      "fs_Commit C (fst n) (snd n) sh = (Inr de, sh')" "rollbackCheckpoint P tln (m_BadIndex m) = Some cp"
      "r = cm_zero\<lparr>m_Kind := councilVoteResp, m_Node := ms_ID s, m_Vote := True, m_Commit := Some de,
         m_Epoch := wrap64 (lastEpoch P tln + 1), m_Checkpoint := cp, m_Error := []\<rparr>"
      "s' = s\<lparr>ms_Share := Some sh', ms_pending := Some \<lparr>pf_epoch = wrap64 (lastEpoch P tln + 1), pf_checkpoint = cp, pf_commit = de\<rparr>\<rparr>"
proof -
  note D = assms [unfolded ms_vote_def Let_def]
  note refused = that(1) and voted = that(2)
  show ?thesis
  proof (cases "raw_timeline P (m_Timeline m)")
    case (Inl e)
    with D show ?thesis by (intro refused) (auto simp: cm_zero_def)
  next
    case (Inr tln)
    show ?thesis
    proof (cases "m_BadIndex m < 0 \<or> \<not> VerifyPrefix P tln (m_BadIndex m) \<or> ms_Share s = None")
      case True
      with D Inr show ?thesis by (intro refused) (auto simp: cm_zero_def refuse_def split: option.splits if_splits)
    next
      case False
      then obtain sh where sh: "ms_Share s = Some sh" by auto
      show ?thesis
      proof (cases "wrap64 (lastEpoch P tln + 1) \<le> ms_epoch s \<or> fs_used sh")
        case True
        with D Inr False sh show ?thesis by (intro refused) (auto simp: cm_zero_def refuse_def split: if_splits)
      next
        case ok: False
        obtain x sh' where c: "fs_Commit C (fst n) (snd n) sh = (x, sh')" by force
        show ?thesis
        proof (cases x)
          case (Inl e)
          with D \<open>raw_timeline P (m_Timeline m) = Inr tln\<close> False sh ok c fs_Commit_spends [OF c] show ?thesis
            by (intro refused) (auto simp: cm_zero_def refuse_def)
        next
          case (Inr de)
          with D \<open>raw_timeline P (m_Timeline m) = Inr tln\<close> False sh ok c obtain cp where
            cp: "rollbackCheckpoint P tln (m_BadIndex m) = Some cp"
            by (cases "rollbackCheckpoint P tln (m_BadIndex m)") auto
          show ?thesis
            by (rule voted [of tln sh de sh' cp])
              (use D \<open>raw_timeline P (m_Timeline m) = Inr tln\<close> False sh ok c Inr cp in \<open>auto simp: cm_zero_def\<close>)
        qed
      qed
    qed
  qed
qed

text \<open>What a member has checked of the request it signs.\<close>

definition signed_checks :: "prims \<Rightarrow> 'g curve \<Rightarrow> 'g FrostSigner \<Rightarrow> pendingFrost \<Rightarrow> CouncilMsg \<Rightarrow> bytes \<Rightarrow> bool" where
  "signed_checks P C sh p m z \<longleftrightarrow> (\<exists>fc fork pre. m_Frost m = Some fc \<and> fc_Epoch fc = pf_epoch p
     \<and> fc_Checkpoint fc \<noteq> None \<and> bytes_equal (fc_Checkpoint fc) (pf_checkpoint p)
     \<and> raw_timeline P (m_Timeline m) = Inr fork \<and> tl_Verify P fork \<and> prefixState P fork (m_BadIndex m) = Some pre
     \<and> Pass (Some (VerifyRecovery pre (Fold P fork) (strSet (m_AffectedCerts m)) (strSet (m_AffectedIDs m))))
     \<and> sign_transcript P C m fc p sh = Some (Inr z))"

lemma ms_commit_cases [consumes 1, case_names refused signed]:
  assumes "ms_commit P C wr m s = Some (r, s')"
  obtains "m_Share r = None" "s' = s" "\<not> m_Vote r"
  | p sh z where "ms_pending s = Some p" "ms_Share s = Some sh" "signed_checks P C sh p m z" "ms_epoch s < m_Epoch m"
      "m_Prev m = wrap64 (m_Epoch m - 1)"
      "r = cm_zero\<lparr>m_Kind := councilCommitOk, m_Node := ms_ID s, m_Share := Some z, m_Error := []\<rparr>"
      "s' = (persistEpoch P wr (s\<lparr>ms_epoch := m_Epoch m\<rparr>))\<lparr>ms_pending := None\<rparr>"
proof -
  note D = assms [unfolded ms_commit_def Let_def]
  note refused = that(1) and signed = that(2)
  let ?no = "m_Share r = None \<and> s' = s \<and> \<not> m_Vote r"
  show ?thesis
  proof (cases "\<exists>p fc. ms_pending s = Some p \<and> m_Frost m = Some fc")
    case False
    with D have ?no by (auto simp: cm_zero_def refuse_def split: option.splits)
    then show ?thesis using refused by blast
  next
    case True
    then obtain p fc where p: "ms_pending s = Some p" "m_Frost m = Some fc" by blast
    show ?thesis
    proof (cases "m_Epoch m \<le> ms_epoch s \<or> m_Prev m \<noteq> wrap64 (m_Epoch m - 1) \<or> fc_Epoch fc \<noteq> pf_epoch p
        \<or> fc_Checkpoint fc = None \<or> \<not> bytes_equal (fc_Checkpoint fc) (pf_checkpoint p)")
      case True
      with D p have ?no by (auto simp: cm_zero_def refuse_def split: if_splits)
      then show ?thesis using refused by blast
    next
      case ok: False
      show ?thesis
      proof (cases "raw_timeline P (m_Timeline m)")
        case (Inl e)
        with D p ok have ?no by (auto simp: cm_zero_def)
        then show ?thesis using refused by blast
      next
        case (Inr fork)
        show ?thesis
        proof (cases "\<exists>pre. tl_Verify P fork \<and> prefixState P fork (m_BadIndex m) = Some pre
            \<and> Pass (Some (VerifyRecovery pre (Fold P fork) (strSet (m_AffectedCerts m)) (strSet (m_AffectedIDs m))))")
          case False
          with D p ok Inr have ?no by (auto simp: cm_zero_def split: if_splits option.splits)
          then show ?thesis using refused by blast
        next
          case pass: True
          with D p ok Inr obtain sh x where sh: "ms_Share s = Some sh" "sign_transcript P C m fc p sh = Some x"
            by (auto split: option.splits if_splits)
          show ?thesis
          proof (cases x)
            case (Inl e)
            with D p ok Inr pass sh have ?no by (auto simp: cm_zero_def refuse_def)
            then show ?thesis using refused by blast
          next
            case z: (Inr z)
            then have "signed_checks P C sh p m z" using p ok Inr pass sh unfolding signed_checks_def by blast
            then show ?thesis
              by (rule signed [OF p(1) sh(1)]) (use D p ok Inr pass sh z in \<open>auto simp: cm_zero_def not_le\<close>)
          qed
        qed
      qed
    qed
  qed
qed

lemma persistEpoch_simps [simp]:
  "ms_pending (persistEpoch P wr s) = ms_pending s" "ms_Share (persistEpoch P wr s) = ms_Share s"
  "ms_epoch (persistEpoch P wr s) = ms_epoch s" "ms_ID (persistEpoch P wr s) = ms_ID s" "ms_path (persistEpoch P wr s) = ms_path s"
  by (simp_all add: persistEpoch_def)

section \<open>A member's life\<close>

text \<open>The requests answered since the boot, with the answers, and the state.\<close>

inductive member_life :: "prims \<Rightarrow> 'g curve \<Rightarrow> (CouncilMsg \<times> CouncilMsg) list \<Rightarrow> 'g MemberServer \<Rightarrow> bool" for P C where
  Boots: "member_life P C [] (NewCouncilMemberServer P i share pth f)"
| Answers: "member_life P C tr s \<Longrightarrow> ms_dispatch P C en m s = Some (Inr r, s') \<Longrightarrow> member_life P C (tr @ [(m, r)]) s'"
| Hangs_up: "member_life P C tr s \<Longrightarrow> ms_dispatch P C en m s = Some (Inl e, s') \<Longrightarrow> member_life P C tr s'"

inductive_cases member_lifeE: "member_life P C tr s"

lemma dispatch_answer [consumes 1, case_names vote commit]:
  assumes "ms_dispatch P C en m s = Some (Inr r, s')"
  obtains "m_Kind m = councilVote" "ms_vote P C (me_nonces en) m s = Some (r, s')"
  | "m_Kind m = councilCommit" "ms_commit P C (me_writes en) m s = Some (r, s')"
  using assms that by (auto simp: ms_dispatch_def split: if_splits)

lemma dispatch_error: "ms_dispatch P C en m s = Some (Inl e, s') \<Longrightarrow> s' = s"
  by (auto simp: ms_dispatch_def split: if_splits)

text \<open>The vote \<open>v\<close> that opened the session \<open>p\<close>.\<close>

definition opened_by :: "prims \<Rightarrow> pendingFrost \<Rightarrow> CouncilMsg \<times> CouncilMsg \<Rightarrow> bool" where
  "opened_by P p v \<longleftrightarrow> m_Kind (fst v) = councilVote \<and> m_Vote (snd v) \<and> m_Epoch (snd v) = pf_epoch p
     \<and> m_Checkpoint (snd v) = pf_checkpoint p \<and> m_Commit (snd v) = Some (pf_commit p)
     \<and> (\<exists>tln. raw_timeline P (m_Timeline (fst v)) = Inr tln \<and> VerifyPrefix P tln (m_BadIndex (fst v))
          \<and> rollbackCheckpoint P tln (m_BadIndex (fst v)) = Some (pf_checkpoint p) \<and> pf_epoch p = wrap64 (lastEpoch P tln + 1))"

text \<open>How many shares the member can still release.\<close>

definition budget :: "'g MemberServer \<Rightarrow> nat" where
  "budget s = (if \<exists>sh. ms_Share s = Some sh \<and> \<not> fs_used sh then 1 else 0) + (if ms_pending s = None then 0 else 1)"

definition member_inv :: "prims \<Rightarrow> 'g curve \<Rightarrow> (CouncilMsg \<times> CouncilMsg) list \<Rightarrow> 'g MemberServer \<Rightarrow> bool" where
  "member_inv P C tr s \<longleftrightarrow> length (filter released tr) + budget s \<le> 1
     \<and> (\<forall>p. ms_pending s = Some p \<longrightarrow> (\<exists>v \<in> set tr. opened_by P p v))
     \<and> (\<forall>k < length tr. released (tr ! k) \<longrightarrow> m_Kind (fst (tr ! k)) = councilCommit
          \<and> (\<exists>j < k. \<exists>p sh z. opened_by P p (tr ! j) \<and> signed_checks P C sh p (fst (tr ! k)) z
              \<and> m_Share (snd (tr ! k)) = Some z))"

lemma member_inv_snoc:
  assumes "member_inv P C tr s" "(if released x then 1 else 0) + budget s' \<le> budget s"
    and "\<forall>p. ms_pending s' = Some p \<longrightarrow> ms_pending s = Some p \<or> opened_by P p x"
    and "released x \<longrightarrow> m_Kind (fst x) = councilCommit \<and> (\<exists>p sh z. ms_pending s = Some p \<and> signed_checks P C sh p (fst x) z
          \<and> m_Share (snd x) = Some z)"
  shows "member_inv P C (tr @ [x]) s'"
proof -
  have a: "length (filter released (tr @ [x])) + budget s' \<le> 1"
  proof -
    have "length (filter released tr) + budget s \<le> 1" using assms(1) by (simp add: member_inv_def)
    then have "length (filter released tr) + (if released x then 1 else 0) + budget s' \<le> 1" using assms(2) by linarith
    then show ?thesis by (cases "released x") simp_all
  qed
  have b: "\<exists>v \<in> set (tr @ [x]). opened_by P p v" if "ms_pending s' = Some p" for p
    using assms(1,3) that by (auto simp: member_inv_def)
  have c: "m_Kind (fst x) = councilCommit \<and> (\<exists>j < length tr. \<exists>p sh z. opened_by P p (tr ! j) \<and> signed_checks P C sh p (fst x) z
      \<and> m_Share (snd x) = Some z)" if r: "released x"
  proof -
    obtain p sh z where p: "m_Kind (fst x) = councilCommit" "ms_pending s = Some p" "signed_checks P C sh p (fst x) z"
      "m_Share (snd x) = Some z" using assms(4) r by blast
    obtain v where "v \<in> set tr" "opened_by P p v" using assms(1) p(2) by (auto simp: member_inv_def)
    then obtain j where "j < length tr" "opened_by P p (tr ! j)" by (auto simp: in_set_conv_nth)
    with p show ?thesis by blast
  qed
  have "m_Kind (fst ((tr @ [x]) ! k)) = councilCommit
      \<and> (\<exists>j < k. \<exists>p sh z. opened_by P p ((tr @ [x]) ! j) \<and> signed_checks P C sh p (fst ((tr @ [x]) ! k)) z
          \<and> m_Share (snd ((tr @ [x]) ! k)) = Some z)"
    if k: "k < length (tr @ [x])" "released ((tr @ [x]) ! k)" for k
  proof (cases "k < length tr")
    case True
    then have "released (tr ! k)" using k by (simp add: nth_append)
    then have "m_Kind (fst (tr ! k)) = councilCommit \<and> (\<exists>j < k. \<exists>p sh z. opened_by P p (tr ! j)
        \<and> signed_checks P C sh p (fst (tr ! k)) z \<and> m_Share (snd (tr ! k)) = Some z)"
      using assms(1) True by (simp add: member_inv_def)
    then show ?thesis using True by (fastforce simp: nth_append)
  next
    case False
    then have "k = length tr" using k by simp
    then show ?thesis using c k by (fastforce simp: nth_append)
  qed
  with a b show ?thesis unfolding member_inv_def by blast
qed

lemma member_life_inv: "member_life P C tr s \<Longrightarrow> member_inv P C tr s"
proof (induction rule: member_life.induct)
  case (Boots i share pth f)
  then show ?case by (simp add: member_inv_def budget_def NewCouncilMemberServer_def)
next
  case (Answers tr s en m r s')
  from Answers.hyps(2) show ?case
  proof (cases rule: dispatch_answer)
    case vote
    from vote(2) show ?thesis
    proof (cases rule: ms_vote_cases)
      case refused
      then show ?thesis
        by (intro member_inv_snoc [OF Answers.IH]) (auto simp: released_def slice_bytes_def budget_def)
    next
      case (voted tln sh de sh' cp)
      note u = fs_Commit_spends [OF voted(7)]
      have n: "ms_pending s = None" using Answers.IH voted(4,5) by (auto simp: member_inv_def budget_def split: if_splits)
      show ?thesis
        by (rule member_inv_snoc [OF Answers.IH])
          (use vote(1) voted u n in \<open>auto simp: released_def slice_bytes_def cm_zero_def budget_def opened_by_def\<close>)
    qed
  next
    case commit
    from commit(2) show ?thesis
    proof (cases rule: ms_commit_cases)
      case refused
      then show ?thesis by (intro member_inv_snoc [OF Answers.IH]) (auto simp: released_def slice_bytes_def)
    next
      case (signed p sh z)
      show ?thesis
        by (rule member_inv_snoc [OF Answers.IH]) (use commit(1) signed in \<open>auto simp: budget_def cm_zero_def\<close>)
    qed
  qed
next
  case (Hangs_up tr s en m e s')
  then show ?case using dispatch_error by metis
qed

end
