(* ===== verification/RemoteProps.thy ===== *)
theory RemoteProps
  imports CouncilNetProps
begin

text \<open>
  The networked recovery end to end: the initiator of \<open>RemoteRecover\<close> against members that run the model's own
  handlers.  The rounds over the network are shown equal to the rounds of the local council, so the
  result of the threshold signature carries over.
\<close>

section \<open>The network\<close>

text \<open>
  Each address that is up runs a member server; \<open>envs\<close> is what the environment gives it.  A member that panics
  is gone.
\<close>

definition member_net ::
  "prims \<Rightarrow> 'g curve \<Rightarrow> (string \<Rightarrow> member_env) \<Rightarrow> MemberEndpoint \<Rightarrow> CouncilMsg \<Rightarrow> (string \<times> 'g MemberServer) list \<Rightarrow>
     (net_error + CouncilMsg) \<times> (string \<times> 'g MemberServer) list" where
  "member_net P C envs ep m w = (case map_of w (ep_Addr ep) of
     None \<Rightarrow> (Inl Unreachable, w)
   | Some s \<Rightarrow> (case ms_dispatch P C (envs (ep_Addr ep)) m s of
        None \<Rightarrow> (Inl NetEOF, AList.delete (ep_Addr ep) w)
      | Some (r, s') \<Rightarrow> (r, AList.update (ep_Addr ep) s' w)))"

definition up :: "(string \<times> 'g MemberServer) list \<Rightarrow> MemberEndpoint \<Rightarrow> bool" where
  "up w ep \<longleftrightarrow> map_of w (ep_Addr ep) \<noteq> None"

definition share_at_ep :: "(string \<times> 'g MemberServer) list \<Rightarrow> MemberEndpoint \<Rightarrow> 'g FrostSigner" where
  "share_at_ep w ep = the (ms_Share (the (map_of w (ep_Addr ep))))"

definition id_at :: "(string \<times> 'g MemberServer) list \<Rightarrow> MemberEndpoint \<Rightarrow> string" where
  "id_at w ep = ms_ID (the (map_of w (ep_Addr ep)))"

section \<open>The vote round\<close>

lemma update_new: "k \<notin> fst ` set kvs \<Longrightarrow> AList.update k v kvs = kvs @ [(k, v)]"
  by (induction kvs) auto

definition vote_tables :: "(MemberEndpoint \<Rightarrow> string) \<Rightarrow> (MemberEndpoint \<Rightarrow> bytes) \<Rightarrow> MemberEndpoint list \<Rightarrow> vote_acc \<Rightarrow> vote_acc" where
  "vote_tables nm de vs a = \<lparr>va_commits = va_commits a @ map (\<lambda>ep. (nm ep, de ep)) vs,
     va_pubs = va_pubs a @ map (\<lambda>ep. (nm ep, ep_PubShare ep)) vs, va_xs = va_xs a @ map (\<lambda>ep. (nm ep, memberX (nm ep))) vs\<rparr>"

lemma add_vote_yes:
  assumes "m_Vote r" "m_Commit r = Some (de ep)" "length (de ep) = 64" "m_Node r = nm ep"
    and "nm ep \<notin> fst ` set (va_commits a)" "map fst (va_pubs a) = map fst (va_commits a)" "map fst (va_xs a) = map fst (va_commits a)"
  shows "add_vote ep (Inr r) a = vote_tables nm de [ep] a"
proof -
  have "nm ep \<notin> fst ` set (va_pubs a)" "nm ep \<notin> fst ` set (va_xs a)"
    using assms(5-7) by (metis list.set_map)+
  then show ?thesis using assms by (simp add: add_vote_def vote_tables_def update_new slice_bytes_def)
qed

lemma vote_round_run:
  fixes mv :: int
  assumes "distinct (map ep_Addr eps)" "distinct (map nm (filter (up w) eps))"
    and "\<forall>ep \<in> set (filter (up w) eps). nm ep \<notin> fst ` set (va_commits a) \<and> length (de ep) = 64
      \<and> (\<exists>r. ms_dispatch P C (envs (ep_Addr ep)) req (the (map_of w (ep_Addr ep))) = Some (Inr r, st ep)
           \<and> m_Vote r \<and> m_Commit r = Some (de ep) \<and> m_Node r = nm ep)"
    and "map fst (va_pubs a) = map fst (va_commits a)" "map fst (va_xs a) = map fst (va_commits a)"
  defines "vs \<equiv> take (nat (mv - int (length (va_commits a)))) (filter (up w) eps)"
  shows "\<exists>w'. vote_round (member_net P C envs) mv req eps a w = (vote_tables nm de vs a, w')
    \<and> (\<forall>x. map_of w' x = (case find (\<lambda>ep. ep_Addr ep = x) vs of Some ep \<Rightarrow> Some (st ep) | None \<Rightarrow> map_of w x))"
  using assms(1-5) unfolding vs_def
proof (induction eps arbitrary: a w)
  case Nil
  then show ?case by (simp add: vote_tables_def)
next
  case (Cons ep eps)
  show ?case
  proof (cases "mv \<le> int (length (va_commits a))")
    case True
    then show ?thesis by (simp add: vote_tables_def)
  next
    case more: False
    show ?thesis
    proof (cases "map_of w (ep_Addr ep)")
      case None
      then have "\<not> up w ep" "member_net P C envs ep req w = (Inl Unreachable, w)" by (simp_all add: up_def member_net_def)
      with more Cons.IH [of w a] Cons.prems show ?thesis by (simp add: add_vote_def)
    next
      case (Some s)
      then have u: "up w ep" by (simp add: up_def)
      then have ep: "ep \<in> set (filter (up w) (ep # eps))" by simp
      then obtain r where r: "ms_dispatch P C (envs (ep_Addr ep)) req s = Some (Inr r, st ep)" "m_Vote r" "m_Commit r = Some (de ep)"
        "m_Node r = nm ep" "nm ep \<notin> fst ` set (va_commits a)" "length (de ep) = 64" using Cons.prems(3) Some by fastforce
      let ?w = "AList.update (ep_Addr ep) (st ep) w" and ?a = "vote_tables nm de [ep] a"
      have n: "member_net P C envs ep req w = (Inr r, ?w)" using Some r(1) by (simp add: member_net_def)
      have v: "add_vote ep (Inr r) a = ?a" by (rule add_vote_yes [where nm = nm and de = de and ep = ep, OF r(2,3,6,4,5) Cons.prems(4,5)])
      have o: "map_of ?w (ep_Addr e) = map_of w (ep_Addr e)" if "e \<in> set eps" for e
      proof -
        have "ep_Addr e \<noteq> ep_Addr ep" using that Cons.prems(1) by (metis distinct.simps(2) image_eqI list.simps(9) set_map)
        then show ?thesis by (simp add: update_conv')
      qed
      have f: "filter (up ?w) eps = filter (up w) eps" by (rule filter_cong [OF refl]) (simp only: up_def o)
      have d: "\<forall>e \<in> set (filter (up ?w) eps). nm e \<notin> fst ` set (va_commits ?a) \<and> length (de e) = 64
        \<and> (\<exists>r. ms_dispatch P C (envs (ep_Addr e)) req (the (map_of ?w (ep_Addr e))) = Some (Inr r, st e)
             \<and> m_Vote r \<and> m_Commit r = Some (de e) \<and> m_Node r = nm e)"
      proof
        fix e assume e: "e \<in> set (filter (up ?w) eps)"
        then have e': "e \<in> set eps" "e \<in> set (filter (up w) (ep # eps))" unfolding f by auto
        have "nm e \<noteq> nm ep" using Cons.prems(2) u e unfolding f by (metis distinct.simps(2) filter.simps(2) image_eqI list.simps(9) set_map)
        then show "nm e \<notin> fst ` set (va_commits ?a) \<and> length (de e) = 64
          \<and> (\<exists>r. ms_dispatch P C (envs (ep_Addr e)) req (the (map_of ?w (ep_Addr e))) = Some (Inr r, st e)
               \<and> m_Vote r \<and> m_Commit r = Some (de e) \<and> m_Node r = nm e)"
          unfolding o [OF e'(1)] using Cons.prems(3) [rule_format, OF e'(2)] by (simp add: vote_tables_def)
      qed
      have l: "nat (mv - int (length (va_commits a))) = Suc (nat (mv - int (length (va_commits ?a))))"
        using more by (simp add: vote_tables_def)
      let ?vs = "take (nat (mv - int (length (va_commits ?a)))) (filter (up w) eps)"
      obtain w' where w': "vote_round (member_net P C envs) mv req eps ?a ?w = (vote_tables nm de ?vs ?a, w')"
        "\<forall>x. map_of w' x = (case find (\<lambda>ep. ep_Addr ep = x) ?vs of Some ep \<Rightarrow> Some (st ep) | None \<Rightarrow> map_of ?w x)"
        using Cons.IH [of ?w ?a] Cons.prems d unfolding f by (auto simp: vote_tables_def u)
      have "find (\<lambda>e. ep_Addr e = ep_Addr ep) ?vs = None"
      proof -
        have "ep_Addr x \<noteq> ep_Addr ep" if "x \<in> set eps" for x
          using that Cons.prems(1) by (metis distinct.simps(2) image_eqI list.simps(9) set_map)
        then show ?thesis by (auto simp: find_None_iff dest!: in_set_takeD)
      qed
      then have "map_of w' x = (case find (\<lambda>ep. ep_Addr ep = x) (ep # ?vs) of Some ep \<Rightarrow> Some (st ep) | None \<Rightarrow> map_of w x)" for x
        using w'(2) by (auto simp: update_conv' split: option.splits)
      moreover have "vote_tables nm de ?vs ?a = vote_tables nm de (ep # ?vs) a" by (simp add: vote_tables_def)
      ultimately show ?thesis using more n v w'(1) u by (simp add: l)
    qed
  qed
qed

section \<open>The round of signatures\<close>

lemma share_round_run:
  fixes mv :: int
  assumes "distinct (map ep_Addr eps)" "distinct (map nm (filter (up w) eps))"
  defines "vs \<equiv> \<lambda>k. take (nat (mv - int k)) (filter (up w) eps)"
  assumes "\<forall>ep \<in> set (vs (length got)). nm ep \<notin> fst ` set got \<and> fs_ID (sh ep) = nm ep \<and> z ep \<noteq> []
      \<and> SignShare P (sh ep) t = Inr (z ep)
      \<and> (\<exists>r s'. ms_dispatch P C (envs (ep_Addr ep)) req (the (map_of w (ep_Addr ep))) = Some (Inr r, s')
           \<and> m_Share r = Some (z ep) \<and> m_Node r = nm ep)"
    and "add_shares P C t (map sh (vs (length got))) agg = Inr agg'"
  shows "\<exists>w'. share_round P C (member_net P C envs) mv req eps (agg, got) w
    = (Some (agg', got @ map (\<lambda>ep. (nm ep, z ep)) (vs (length got))), w')"
  using assms(1,2,4,5) unfolding vs_def
proof (induction eps arbitrary: agg got w)
  case (Cons ep eps)
  show ?case
  proof (cases "mv \<le> int (length got)")
    case True
    then show ?thesis using Cons.prems(4) by simp
  next
    case more: False
    then have l: "nat (mv - int (length got)) = Suc (nat (mv - int (Suc (length got))))" by simp
    show ?thesis
    proof (cases "map_of w (ep_Addr ep)")
      case None
      then have "\<not> up w ep" "member_net P C envs ep req w = (Inl Unreachable, w)" by (simp_all add: up_def member_net_def)
      with more Cons.IH [of w got agg] Cons.prems show ?thesis by (simp add: add_partial_def)
    next
      case (Some s)
      then have u: "up w ep" by (simp add: up_def)
      then have "ep \<in> set (take (nat (mv - int (length got))) (filter (up w) (ep # eps)))" by (simp add: l)
      then obtain r s' where r: "ms_dispatch P C (envs (ep_Addr ep)) req s = Some (Inr r, s')" "m_Share r = Some (z ep)"
        "m_Node r = nm ep" "nm ep \<notin> fst ` set got" "fs_ID (sh ep) = nm ep" "SignShare P (sh ep) t = Inr (z ep)" "z ep \<noteq> []"
        using Cons.prems(3) Some by fastforce
      obtain agg1 where a: "AddShare P C (nm ep) (z ep) agg = Inr agg1"
        "add_shares P C t (map sh (take (nat (mv - int (Suc (length got)))) (filter (up w) eps))) agg1 = Inr agg'"
        using Cons.prems(4) u r(5,6) by (auto simp: l split: sum.splits)
      let ?w = "AList.update (ep_Addr ep) s' w" and ?sh = "got @ [(nm ep, z ep)]"
      have n: "member_net P C envs ep req w = (Inr r, ?w)" using Some r(1) by (simp add: member_net_def)
      have p: "add_partial P C (Inr r) (agg, got) = Some (agg1, ?sh)"
        using r a(1) by (simp add: add_partial_def slice_bytes_def update_new)
      have o: "map_of ?w (ep_Addr e) = map_of w (ep_Addr e)" if "e \<in> set eps" for e
      proof -
        have "ep_Addr e \<noteq> ep_Addr ep" using that Cons.prems(1) by (metis distinct.simps(2) image_eqI list.simps(9) set_map)
        then show ?thesis by (simp add: update_conv')
      qed
      have f: "filter (up ?w) eps = filter (up w) eps" by (rule filter_cong [OF refl]) (simp only: up_def o)
      have d: "\<forall>e \<in> set (take (nat (mv - int (length ?sh))) (filter (up ?w) eps)). nm e \<notin> fst ` set ?sh \<and> fs_ID (sh e) = nm e
        \<and> z e \<noteq> [] \<and> SignShare P (sh e) t = Inr (z e)
        \<and> (\<exists>r s'. ms_dispatch P C (envs (ep_Addr e)) req (the (map_of ?w (ep_Addr e))) = Some (Inr r, s')
             \<and> m_Share r = Some (z e) \<and> m_Node r = nm e)"
      proof
        fix e assume e: "e \<in> set (take (nat (mv - int (length ?sh))) (filter (up ?w) eps))"
        then have e': "e \<in> set eps" "e \<in> set (filter (up w) eps)" unfolding f by (auto dest: in_set_takeD)
        then have "nm e \<noteq> nm ep" using Cons.prems(2) u by (metis distinct.simps(2) filter.simps(2) image_eqI list.simps(9) set_map)
        moreover have "e \<in> set (take (nat (mv - int (length got))) (filter (up w) (ep # eps)))"
          using e unfolding f by (simp add: l u)
        ultimately show "nm e \<notin> fst ` set ?sh \<and> fs_ID (sh e) = nm e \<and> z e \<noteq> [] \<and> SignShare P (sh e) t = Inr (z e)
          \<and> (\<exists>r s'. ms_dispatch P C (envs (ep_Addr e)) req (the (map_of ?w (ep_Addr e))) = Some (Inr r, s')
               \<and> m_Share r = Some (z e) \<and> m_Node r = nm e)"
          unfolding o [OF e'(1)] using Cons.prems(3) by simp
      qed
      have "\<exists>w'. share_round P C (member_net P C envs) mv req eps (agg1, ?sh) ?w
        = (Some (agg', ?sh @ map (\<lambda>ep. (nm ep, z ep)) (take (nat (mv - int (length ?sh))) (filter (up ?w) eps))), w')"
        by (rule Cons.IH) (use Cons.prems(1,2) u a(2) d in \<open>auto simp: f\<close>)
      then show ?thesis using more n p u by (auto simp: l f)
    qed
  qed
qed simp


section \<open>Honest answers\<close>

text \<open>A timeline as it arrives: no key, no rotated keys, an explicit start key.\<close>

definition stripped :: "Timeline \<Rightarrow> Timeline" where
  "stripped t = t\<lparr>tl_start := Some (startPub t), tl_key := None, tl_rotations := []\<rparr>"

lemma stripped_simps [simp]:
  "tl_events (stripped t) = tl_events t" "startPub (stripped t) = startPub t" "tl_algo (stripped t) = tl_algo t"
  "tl_council (stripped t) = tl_council t" "lastEpoch P (stripped t) = lastEpoch P t" "Fold P (stripped t) = Fold P t"
  "VerifyPrefix P (stripped t) n \<longleftrightarrow> VerifyPrefix P t n" "tl_Verify P (stripped t) \<longleftrightarrow> tl_Verify P t"
  "rollbackCheckpoint P (stripped t) n = rollbackCheckpoint P t n"
  by (simp_all add: stripped_def startPub_def lastEpoch_def Fold_def VerifyPrefix_key tl_Verify_key chain_key_def rollbackCheckpoint_def)

lemma wire_timeline_arrives:
  assumes "json_ok P" "tl_wf t"
  shows "raw_timeline P (Some (wire_timeline P t)) = Inr (stripped t)"
  using unmarshal_marshal [OF assms, of False] by (simp add: raw_timeline_def wire_timeline_def tl_Marshal_def stripped_def)

lemma vote_answer:
  assumes "m_Kind m = councilVote" "raw_timeline P (m_Timeline m) = Inr tln" "0 \<le> m_BadIndex m" "VerifyPrefix P tln (m_BadIndex m)"
    and "ms_Share s = Some sh" "\<not> fs_used sh" "ms_epoch s < wrap64 (lastEpoch P tln + 1)"
    and "fs_Commit C (fst (me_nonces en)) (snd (me_nonces en)) sh = (Inr de, sh')" "rollbackCheckpoint P tln (m_BadIndex m) = Some cp"
  shows "ms_dispatch P C en m s = Some (Inr (cm_zero\<lparr>m_Kind := councilVoteResp, m_Node := ms_ID s, m_Vote := True, m_Commit := Some de,
       m_Epoch := wrap64 (lastEpoch P tln + 1), m_Checkpoint := cp, m_Error := []\<rparr>),
     s\<lparr>ms_Share := Some sh', ms_pending := Some \<lparr>pf_epoch = wrap64 (lastEpoch P tln + 1), pf_checkpoint = cp, pf_commit = de\<rparr>\<rparr>)"
  using assms by (simp add: ms_dispatch_def ms_vote_def Let_def cm_zero_def)

lemma commit_answer:
  assumes "m_Kind m = councilCommit" "ms_pending s = Some p" "ms_Share s = Some sh" "ms_epoch s < m_Epoch m"
    and "m_Prev m = wrap64 (m_Epoch m - 1)" "signed_checks P C sh p m z"
  shows "ms_dispatch P C en m s = Some (Inr (cm_zero\<lparr>m_Kind := councilCommitOk, m_Node := ms_ID s, m_Share := Some z, m_Error := []\<rparr>),
     (persistEpoch P (me_writes en) (s\<lparr>ms_epoch := m_Epoch m\<rparr>))\<lparr>ms_pending := None\<rparr>)"
proof -
  have "councilCommit \<noteq> councilVote" by (simp add: kind_defs)
  moreover obtain fc fork pre where "m_Frost m = Some fc" "fc_Epoch fc = pf_epoch p" "fc_Checkpoint fc \<noteq> None"
    "bytes_equal (fc_Checkpoint fc) (pf_checkpoint p)" "raw_timeline P (m_Timeline m) = Inr fork" "tl_Verify P fork"
    "prefixState P fork (m_BadIndex m) = Some pre"
    "Pass (Some (VerifyRecovery pre (Fold P fork) (strSet (m_AffectedCerts m)) (strSet (m_AffectedIDs m))))"
    "sign_transcript P C m fc p sh = Some (Inr z)" using assms(6) unfolding signed_checks_def by blast
  ultimately show ?thesis using assms(1-5) by (auto simp: ms_dispatch_def ms_commit_def Let_def cm_zero_def)
qed

subsection \<open>What the members check of the fork\<close>

lemma fork_index_last:
  assumes "es \<noteq> []"
  shows "fork_index P es (ev_Hash P (es ! (length es - 1))) = Some (length es - 1)"
proof -
  obtain n where n: "length es = Suc n" using assms by (cases "length es") auto
  then show ?thesis by (simp add: fork_index_def Let_def)
qed

lemma verify_same:
  assumes "distinct (map fst x)"
  shows "Pass (Some (VerifyRecovery x x certs ids))"
proof -
  have "map_of x i = Some c" if "(i, c) \<in> set x" for i c using assms that by simp
  then have "no_resurrection x x" "minimal_blast x x (set certs) (set ids)"
    by (force simp: no_resurrection_def minimal_blast_def)+
  then show ?thesis by (simp add: VerifyRecovery_spec Pass_def)
qed

lemma prefix_whole:
  assumes "tl_events t \<noteq> []" "b = int (length (tl_events t))"
  shows "prefixState P t b = Some (Fold P t)"
proof -
  have "Suc (length (tl_events t) - 1) = length (tl_events t)" using assms(1) by (cases "tl_events t") auto
  moreover have "nat (b - 1) = length (tl_events t) - 1" "\<not> b \<le> 0" using assms by (cases "tl_events t"; simp)+
  ultimately show ?thesis using assms(2) fork_index_last [OF assms(1), of P]
    by (simp add: prefixState_def Fork_def Let_def Fold_def)
qed

lemma Fold_distinct: "distinct (map fst (Fold P t))"
  unfolding Fold_def by (rule trust.run_inv) simp

text \<open>
  When the fork of a request ends at the bad index, the state before it is the state after it: the post-conditions
  hold for whatever sets the request names.
\<close>

lemma member_check_vacuous:
  assumes "tl_events fork \<noteq> []" "b = int (length (tl_events fork))"
  obtains pre where "prefixState P fork b = Some pre" "Pass (Some (VerifyRecovery pre (Fold P fork) certs ids))"
  using prefix_whole [OF assms, of P] verify_same [OF Fold_distinct] by metis


section \<open>The rounds and the local council\<close>

lemma commit_all_map:
  assumes "\<forall>x \<in> set xs. fs_Commit C (fst (n x)) (snd (n x)) (s x) = (Inr (de x), s' x)"
  shows "commit_all C (map n xs) (map s xs) = (Inr (map (\<lambda>x. (fs_ID (s x), de x)) xs), map s' xs)"
  using assms by (induction xs) (simp_all add: case_prod_beta)

lemma add_shares_each: "add_shares P C t ss a = Inr a' \<Longrightarrow> s \<in> set ss \<Longrightarrow> \<exists>z. SignShare P s t = Inr z \<and> length z = 32"
proof (induction ss arbitrary: a)
  case (Cons x ss)
  then obtain z a1 where "SignShare P x t = Inr z" "add_shares P C t ss a1 = Inr a'" by (auto split: sum.splits)
  moreover have "length z = 32" using \<open>SignShare P x t = Inr z\<close> by (auto simp: SignShare_def Let_def split: option.splits if_splits)
  ultimately show ?case using Cons by auto
qed simp

lemma FrostRound_stages:
  assumes "FrostRound P C rs gp ss m = (Inr sg, ss')" "round_maps ss = (pubs, xs)" "commit_all C rs ss = (Inr cs, ss'')" "keyed cs = cs"
  obtains agg1 r c agg2 agg3 where "add_commits cs (SetXs xs (NewFrostAggregator C gp pubs)) = Inr agg1"
    "Challenge P C m agg1 = Inr ((r, c), agg2)"
    "add_shares P C \<lparr>tr_M = m, tr_Commits = cs, tr_Xs = xs, tr_R = r, tr_C = c\<rparr> ss'' agg2 = Inr agg3" "Aggregate C agg3 = Inr sg"
  using assms by (auto simp: FrostRound_def split: if_splits sum.splits)

lemma add_commits_fields: "add_commits cs a = Inr a' \<Longrightarrow> ag_commits a' = ag_commits a @ cs \<and> ag_groupPub a' = ag_groupPub a"
  by (induction cs a rule: add_commits.induct) (auto simp: AddCommit_def split: if_splits sum.splits)

text \<open>
  The members that are up hold distinct shares of one dealing and report their ids and public shares truly; their epoch is not beyond
  the timeline's.
\<close>

definition fleet_ready :: "int \<Rightarrow> 'g FrostSigner list \<Rightarrow> MemberEndpoint list \<Rightarrow> (string \<times> 'g MemberServer) list \<Rightarrow> bool" where
  "fleet_ready e ss eps w \<longleftrightarrow> distinct (map ep_Addr eps) \<and> distinct (map (share_at_ep w) (filter (up w) eps))
     \<and> (\<forall>ep \<in> set (filter (up w) eps). \<exists>s sh. map_of w (ep_Addr ep) = Some s \<and> ms_Share s = Some sh \<and> sh \<in> set ss
          \<and> ms_ID s = fs_ID sh \<and> ms_epoch s \<le> e \<and> ep_PubShare ep = fs_PubShare sh)"

lemma fleet_at:
  assumes "fleet_ready e ss eps w" "ep \<in> set (filter (up w) eps)"
  shows "map_of w (ep_Addr ep) = Some (the (map_of w (ep_Addr ep)))"
    "ms_Share (the (map_of w (ep_Addr ep))) = Some (share_at_ep w ep)" "share_at_ep w ep \<in> set ss"
    "ms_ID (the (map_of w (ep_Addr ep))) = fs_ID (share_at_ep w ep)" "ms_epoch (the (map_of w (ep_Addr ep))) \<le> e"
    "ep_PubShare ep = fs_PubShare (share_at_ep w ep)"
  using assms by (fastforce simp: fleet_ready_def share_at_ep_def)+

lemma find_addr:
  assumes "distinct (map ep_Addr eps)" "ep \<in> set eps"
  shows "find (\<lambda>e. ep_Addr e = ep_Addr ep) eps = Some ep"
  using assms by (induction eps) (auto simp: image_iff)


lemma vote_phase:
  fixes mv :: int
  assumes "curve_ok C rep" "json_ok P" "tl_wf tml" "VerifyPrefix P tml b" "0 \<le> b" "rollbackCheckpoint P tml b = Some cp"
    and "fleet_ready (lastEpoch P tml) ss eps w" "wrap64 (lastEpoch P tml + 1) = lastEpoch P tml + 1"
    and "\<forall>a. fst (me_nonces (envs a)) \<noteq> None \<and> snd (me_nonces (envs a)) \<noteq> None"
    and "\<forall>s \<in> set ss. \<not> fs_used s" "distinct (map fs_ID ss)"
  defines "vs \<equiv> take (nat mv) (filter (up w) eps)"
  obtains de sh w1 where
    "vote_round (member_net P C envs) mv (vote_request P tml b) eps \<lparr>va_commits = [], va_pubs = [], va_xs = []\<rparr> w
       = (vote_tables (\<lambda>ep. fs_ID (share_at_ep w ep)) de vs \<lparr>va_commits = [], va_pubs = [], va_xs = []\<rparr>, w1)"
    "commit_all C (map (\<lambda>ep. me_nonces (envs (ep_Addr ep))) vs) (map (share_at_ep w) vs)
       = (Inr (map (\<lambda>ep. (fs_ID (share_at_ep w ep), de ep)) vs), map sh vs)"
    "\<forall>ep \<in> set vs. same_signer (share_at_ep w ep) (sh ep) \<and> map_of w1 (ep_Addr ep) = Some ((the (map_of w (ep_Addr ep)))
       \<lparr>ms_Share := Some (sh ep), ms_pending := Some \<lparr>pf_epoch = lastEpoch P tml + 1, pf_checkpoint = cp, pf_commit = de ep\<rparr>\<rparr>)"
    "filter (up w1) eps = filter (up w) eps" "distinct (map (\<lambda>ep. fs_ID (share_at_ep w ep)) (filter (up w) eps))"
proof -
  let ?nm = "\<lambda>ep. fs_ID (share_at_ep w ep)" and ?us = "filter (up w) eps" and ?e = "lastEpoch P tml"
  let ?x = "\<lambda>ep. fs_Commit C (fst (me_nonces (envs (ep_Addr ep)))) (snd (me_nonces (envs (ep_Addr ep)))) (share_at_ep w ep)"
  define de where "de = (\<lambda>ep. projr (fst (?x ep)))"
  define sh where "sh = (\<lambda>ep. snd (?x ep))"
  note F = fleet_at [OF assms(7)]
  have X: "?x ep = (Inr (de ep), sh ep) \<and> same_signer (share_at_ep w ep) (sh ep) \<and> length (de ep) = 64" if "ep \<in> set ?us" for ep
  proof -
    have "\<not> fs_used (share_at_ep w ep)" using assms(10) F(3) [OF that] by blast
    then obtain s' where s': "?x ep = (Inr (nonce_pair C s'), s')" "same_signer (share_at_ep w ep) s'" "committed s'"
      using fs_Commit_ok assms(9) by metis
    then show ?thesis using nonce_pair_dec [OF assms(1) s'(3)] by (auto simp: de_def sh_def)
  qed
  define st where "st = (\<lambda>ep. (the (map_of w (ep_Addr ep)))
     \<lparr>ms_Share := Some (sh ep), ms_pending := Some \<lparr>pf_epoch = ?e + 1, pf_checkpoint = cp, pf_commit = de ep\<rparr>\<rparr>)"
  have dn: "distinct (map ?nm ?us)"
  proof -
    have "distinct (map (share_at_ep w) ?us)" using assms(7) by (simp add: fleet_ready_def)
    moreover have "inj_on fs_ID (set (map (share_at_ep w) ?us))"
    proof (rule inj_on_subset)
      show "inj_on fs_ID (set ss)" using assms(11) by (simp add: distinct_map)
      show "set (map (share_at_ep w) ?us) \<subseteq> set ss" using F(3) by auto
    qed
    ultimately have "distinct (map fs_ID (map (share_at_ep w) ?us))" by (simp only: distinct_map)
    then show ?thesis by (simp add: comp_def)
  qed
  have da: "distinct (map ep_Addr eps)" using assms(7) by (simp add: fleet_ready_def)
  have ans: "\<forall>ep \<in> set ?us. ?nm ep \<notin> fst ` set (va_commits \<lparr>va_commits = [], va_pubs = [], va_xs = []\<rparr>) \<and> length (de ep) = 64
      \<and> (\<exists>r. ms_dispatch P C (envs (ep_Addr ep)) (vote_request P tml b) (the (map_of w (ep_Addr ep))) = Some (Inr r, st ep)
           \<and> m_Vote r \<and> m_Commit r = Some (de ep) \<and> m_Node r = ?nm ep)"
  proof
    fix ep assume ep: "ep \<in> set ?us"
    have "ms_dispatch P C (envs (ep_Addr ep)) (vote_request P tml b) (the (map_of w (ep_Addr ep))) =
       Some (Inr (cm_zero\<lparr>m_Kind := councilVoteResp, m_Node := ms_ID (the (map_of w (ep_Addr ep))), m_Vote := True, m_Commit := Some (de ep),
         m_Epoch := wrap64 (lastEpoch P (stripped tml) + 1), m_Checkpoint := cp, m_Error := []\<rparr>),
       (the (map_of w (ep_Addr ep)))\<lparr>ms_Share := Some (sh ep), ms_pending := Some \<lparr>pf_epoch = wrap64 (lastEpoch P (stripped tml) + 1),
          pf_checkpoint = cp, pf_commit = de ep\<rparr>\<rparr>)"
      using F [OF ep] X [OF ep] assms(4-6,8,10) wire_timeline_arrives [OF assms(2,3)]
      by (intro vote_answer) (auto simp: vote_request_def cm_zero_def)
    then show "?nm ep \<notin> fst ` set (va_commits \<lparr>va_commits = [], va_pubs = [], va_xs = []\<rparr>) \<and> length (de ep) = 64
      \<and> (\<exists>r. ms_dispatch P C (envs (ep_Addr ep)) (vote_request P tml b) (the (map_of w (ep_Addr ep))) = Some (Inr r, st ep)
           \<and> m_Vote r \<and> m_Commit r = Some (de ep) \<and> m_Node r = ?nm ep)"
      using X [OF ep] F(4) [OF ep] assms(8) by (simp add: st_def cm_zero_def)
  qed
  obtain w1 where w1: "vote_round (member_net P C envs) mv (vote_request P tml b) eps \<lparr>va_commits = [], va_pubs = [], va_xs = []\<rparr> w
      = (vote_tables ?nm de vs \<lparr>va_commits = [], va_pubs = [], va_xs = []\<rparr>, w1)"
    "\<And>x. map_of w1 x = (case find (\<lambda>ep. ep_Addr ep = x) vs of Some ep \<Rightarrow> Some (st ep) | None \<Rightarrow> map_of w x)"
    using vote_round_run [OF da dn ans, of mv] by (auto simp: vs_def)
  have vus: "set vs \<subseteq> set ?us" "set vs \<subseteq> set eps" by (auto simp: vs_def dest: in_set_takeD)
  have dvs: "distinct (map ep_Addr vs)"
    unfolding vs_def using da by (simp add: take_map [symmetric] distinct_map_filter)
  have "map_of w1 (ep_Addr ep) = Some (st ep)" if "ep \<in> set vs" for ep
    unfolding w1(2) find_addr [OF dvs that] by simp
  then have "\<forall>ep \<in> set vs. same_signer (share_at_ep w ep) (sh ep) \<and> map_of w1 (ep_Addr ep) = Some (st ep)" using X vus(1) by blast
  moreover have "commit_all C (map (\<lambda>ep. me_nonces (envs (ep_Addr ep))) vs) (map (share_at_ep w) vs)
       = (Inr (map (\<lambda>ep. (fs_ID (share_at_ep w ep), de ep)) vs), map sh vs)"
    by (rule commit_all_map) (use X vus(1) in blast)
  moreover have "filter (up w1) eps = ?us"
  proof (rule filter_cong [OF refl])
    fix ep assume "ep \<in> set eps"
    show "up w1 ep \<longleftrightarrow> up w ep"
    proof (cases "find (\<lambda>e. ep_Addr e = ep_Addr ep) vs")
      case (Some e)
      then have "e \<in> set vs" "ep_Addr e = ep_Addr ep" by (auto simp: find_Some_iff)
      then have "up w ep" using vus(1) by (auto simp: up_def)
      then show ?thesis using w1(2) [of "ep_Addr ep"] Some by (simp add: up_def)
    qed (simp add: up_def w1(2))
  qed
  ultimately show ?thesis using that [OF w1(1)] dn unfolding st_def by blast
qed


text \<open>A commit request exists that the member signs.\<close>

definition signs_some :: "prims \<Rightarrow> 'g curve \<Rightarrow> member_env \<Rightarrow> 'g MemberServer \<Rightarrow> bool" where
  "signs_some P C en s \<longleftrightarrow> (\<exists>m r s'. m_Kind m = councilCommit \<and> ms_dispatch P C en m s = Some (Inr r, s') \<and> m_Share r \<noteq> None)"

lemma sign_phase:
  fixes mv :: int and de :: "MemberEndpoint \<Rightarrow> bytes"
  assumes "json_ok P" "base_of P tml b k (rb_fork rb)" "tl_wf (rb_fork rb)" "0 < b" "b \<le> int (length (tl_events tml))"
    and "fleet_ready e ss eps w" "nat mv \<le> length (filter (up w) eps)" "0 \<le> mv"
  defines "vs \<equiv> take (nat mv) (filter (up w) eps)"
  defines "qs \<equiv> map (share_at_ep w) vs" and "cs \<equiv> map (\<lambda>ep. (fs_ID (share_at_ep w ep), de ep)) vs"
  assumes "signers_ok C gp qs" "\<forall>s \<in> set qs. memberX (fs_ID s) = fs_X s"
    and "commit_all C rs qs = (Inr cs, map sh vs)" "FrostRound P C rs gp qs (descriptor P fc) = (Inr sg, qs')"
    and "\<forall>ep \<in> set vs. same_signer (share_at_ep w ep) (sh ep) \<and> map_of w1 (ep_Addr ep) = Some ((the (map_of w (ep_Addr ep)))
       \<lparr>ms_Share := Some (sh ep), ms_pending := Some \<lparr>pf_epoch = e + 1, pf_checkpoint = cp, pf_commit = de ep\<rparr>\<rparr>)"
    and "filter (up w1) eps = filter (up w) eps" "distinct (map (\<lambda>ep. fs_ID (share_at_ep w ep)) (filter (up w) eps))"
    and "fc_Epoch fc = e + 1" "fc_Prev fc = e" "fc_Checkpoint fc = cp" "cp \<noteq> None" "wrap64 e = e"
  shows "\<exists>w2. remote_sign P C (member_net P C envs) gp mv eps
      (vote_tables (\<lambda>ep. fs_ID (share_at_ep w ep)) de vs \<lparr>va_commits = [], va_pubs = [], va_xs = []\<rparr>) rb b fc w1
    = (Inr (sg, map fs_ID qs), w2)
    \<and> (\<forall>ep \<in> set vs. signs_some P C (envs (ep_Addr ep)) (the (map_of w1 (ep_Addr ep))))"
proof -
  let ?nm = "\<lambda>ep. fs_ID (share_at_ep w ep)" and ?m = "descriptor P fc"
  note F = fleet_at [OF assms(6)]
  have vus: "set vs \<subseteq> set (filter (up w) eps)" by (auto simp: vs_def dest: in_set_takeD)
  have dq: "distinct (map fs_ID qs)" using assms(12) by (simp add: signers_ok_def)
  have keyed: "keyed cs = cs" using dq by (simp add: keyed_distinct cs_def qs_def comp_def)
  have maps: "round_maps qs = (map (\<lambda>ep. (?nm ep, ep_PubShare ep)) vs, map (\<lambda>ep. (?nm ep, memberX (?nm ep))) vs)"
    unfolding round_maps_ok [OF dq] using F(6) vus assms(13) by (auto simp: qs_def ids_xs_def)
  obtain agg1 r c agg2 agg3 where S: "add_commits cs (SetXs (map (\<lambda>ep. (?nm ep, memberX (?nm ep))) vs)
        (NewFrostAggregator C gp (map (\<lambda>ep. (?nm ep, ep_PubShare ep)) vs))) = Inr agg1"
    "Challenge P C ?m agg1 = Inr ((r, c), agg2)"
    "add_shares P C \<lparr>tr_M = ?m, tr_Commits = cs, tr_Xs = map (\<lambda>ep. (?nm ep, memberX (?nm ep))) vs, tr_R = r, tr_C = c\<rparr> (map sh vs) agg2 = Inr agg3"
    "Aggregate C agg3 = Inr sg"
    by (rule FrostRound_stages [OF assms(15) maps assms(14) keyed])
  let ?t = "\<lparr>tr_M = ?m, tr_Commits = cs, tr_Xs = map (\<lambda>ep. (?nm ep, memberX (?nm ep))) vs, tr_R = r, tr_C = c\<rparr>"
  let ?req = "commit_request P rb b fc cs r c"
  have cc: "ComputeChallenge P C gp ?m cs = Inr (r, c)"
    using S(2) add_commits_fields [OF S(1)] by (auto simp: Challenge_def NewFrostAggregator_def SetXs_def split: if_splits sum.splits)
  define z where "z = (\<lambda>ep. projr (SignShare P (sh ep) ?t))"
  have z: "SignShare P (sh ep) ?t = Inr (z ep) \<and> z ep \<noteq> []" if "ep \<in> set vs" for ep
    using add_shares_each [OF S(3), of "sh ep"] that by (fastforce simp: z_def)
  have fork: "tl_events (rb_fork rb) \<noteq> []" "b = int (length (tl_events (rb_fork rb)))" "tl_Verify P (rb_fork rb)"
    using assms(2,4,5) by (auto simp: base_of_def tl_Verify_key)
  have "prefixState P (stripped (rb_fork rb)) b = Some (Fold P (stripped (rb_fork rb)))"
    by (rule prefix_whole) (use fork in simp_all)
  then have checks: "signed_checks P C (sh ep) \<lparr>pf_epoch = e + 1, pf_checkpoint = cp, pf_commit = de ep\<rparr> ?req (z ep)" if ep: "ep \<in> set vs" for ep
  proof -
    have same: "fs_ID (sh ep) = ?nm ep" "fs_GroupPub (sh ep) = gp"
      using assms(12,16) ep by (auto simp: same_signer_def signers_ok_def signer_ok_def qs_def)
    have "xsOf cs = map (\<lambda>ep. (?nm ep, memberX (?nm ep))) vs" by (simp add: xsOf_def cs_def)
    then have "sign_transcript P C ?req fc \<lparr>pf_epoch = e + 1, pf_checkpoint = cp, pf_commit = de ep\<rparr> (sh ep) = Some (Inr (z ep))"
      using cc z [OF ep] ep by (auto simp: sign_transcript_def same commit_request_def cm_zero_def slice_bytes_def cs_def)
    moreover have "raw_timeline P (m_Timeline ?req) = Inr (stripped (rb_fork rb))"
      using wire_timeline_arrives [OF assms(1,3)] by (simp add: commit_request_def)
    moreover have "bytes_equal cp cp" by (simp add: bytes_equal_def)
    ultimately show ?thesis
      using \<open>prefixState P (stripped (rb_fork rb)) b = _\<close> fork(3) assms(19,21,22) verify_same [OF Fold_distinct]
      unfolding signed_checks_def by (intro exI [of _ fc] exI [of _ "stripped (rb_fork rb)"]) (simp add: commit_request_def cm_zero_def)
  qed
  have ans: "\<forall>ep \<in> set (take (nat (mv - int (length []))) (filter (up w1) eps)). ?nm ep \<notin> fst ` set [] \<and> fs_ID (sh ep) = ?nm ep \<and> z ep \<noteq> []
      \<and> SignShare P (sh ep) ?t = Inr (z ep)
      \<and> (\<exists>r s'. ms_dispatch P C (envs (ep_Addr ep)) ?req (the (map_of w1 (ep_Addr ep))) = Some (Inr r, s')
           \<and> m_Share r = Some (z ep) \<and> m_Node r = ?nm ep)"
  proof
    fix ep assume "ep \<in> set (take (nat (mv - int (length []))) (filter (up w1) eps))"
    then have ep: "ep \<in> set vs" by (simp add: assms(17) vs_def)
    then have up: "ep \<in> set (filter (up w) eps)" using vus by blast
    have st: "map_of w1 (ep_Addr ep) = Some ((the (map_of w (ep_Addr ep)))
       \<lparr>ms_Share := Some (sh ep), ms_pending := Some \<lparr>pf_epoch = e + 1, pf_checkpoint = cp, pf_commit = de ep\<rparr>\<rparr>)"
      "same_signer (share_at_ep w ep) (sh ep)" using assms(16) ep by blast+
    have "m_Kind ?req = councilCommit" "m_Epoch ?req = e + 1" "m_Prev ?req = wrap64 (m_Epoch ?req - 1)"
      by (simp_all add: commit_request_def cm_zero_def assms(19,20,23))
    then have "ms_dispatch P C (envs (ep_Addr ep)) ?req (the (map_of w1 (ep_Addr ep))) =
      Some (Inr (cm_zero\<lparr>m_Kind := councilCommitOk, m_Node := ms_ID (the (map_of w1 (ep_Addr ep))), m_Share := Some (z ep), m_Error := []\<rparr>),
       (persistEpoch P (me_writes (envs (ep_Addr ep))) ((the (map_of w1 (ep_Addr ep)))\<lparr>ms_epoch := m_Epoch ?req\<rparr>))\<lparr>ms_pending := None\<rparr>)"
      using checks [OF ep] F(5) [OF up] unfolding st(1) by (intro commit_answer) simp_all
    then show "?nm ep \<notin> fst ` set [] \<and> fs_ID (sh ep) = ?nm ep \<and> z ep \<noteq> [] \<and> SignShare P (sh ep) ?t = Inr (z ep)
      \<and> (\<exists>r s'. ms_dispatch P C (envs (ep_Addr ep)) ?req (the (map_of w1 (ep_Addr ep))) = Some (Inr r, s')
           \<and> m_Share r = Some (z ep) \<and> m_Node r = ?nm ep)"
      using z [OF ep] st F(4) [OF up] by (simp add: same_signer_def cm_zero_def)
  qed
  have da: "distinct (map ep_Addr eps)" using assms(6) by (simp add: fleet_ready_def)
  obtain w2 where "share_round P C (member_net P C envs) mv ?req eps (agg2, []) w1 = (Some (agg3, [] @ map (\<lambda>ep. (?nm ep, z ep)) (take (nat (mv - int (length []))) (filter (up w1) eps))), w2)"
    using share_round_run [OF da _ ans] S(3) assms(17,18) by (auto simp: vs_def)
  then have "share_round P C (member_net P C envs) mv ?req eps (agg2, []) w1 = (Some (agg3, map (\<lambda>ep. (?nm ep, z ep)) vs), w2)"
    by (simp add: assms(17) vs_def)
  moreover have "\<not> int (length vs) < mv" using assms(7,8) by (simp add: vs_def)
  moreover have "m_Kind ?req = councilCommit" by (simp add: commit_request_def)
  then have "signs_some P C (envs (ep_Addr ep)) (the (map_of w1 (ep_Addr ep)))" if "ep \<in> set vs" for ep
    using ans that unfolding signs_some_def by (fastforce simp: assms(17) vs_def)
  ultimately show ?thesis
    using S(1,2,4) by (simp add: remote_sign_def vote_tables_def cs_def qs_def comp_def)
qed


section \<open>The recovery over the network\<close>

lemma remote_tail_local:
  assumes "recovery_tail P tml b rb ep fc [] = Inr r" "\<exists>pre. Rollback P tml b = Inr pre"
  shows "remote_tail P tml b rb ep fc = Inr r"
  using assms by (auto simp: recovery_tail_def remote_tail_def prefixForCheck_def Let_def split: sum.splits)

lemma lastEpoch_nonneg: "0 \<le> lastEpoch P t"
proof -
  have "0 \<le> m \<Longrightarrow> 0 \<le> fold (epoch_step P) es m" for es m
    by (induction es arbitrary: m) (auto simp: epoch_step_def split: option.splits)
  then show ?thesis by (simp add: lastEpoch_def)
qed

lemma base_wf:
  assumes "base_of P tml b k f" "tl_wf tml" "length k = 64"
  shows "tl_wf f"
proof -
  have "length (startPub tml) = 32" using assms(2) by (auto simp: tl_wf_def startPub_def len_in_def split: option.splits)
  then show ?thesis using assms by (auto simp: base_of_def tl_wf_def len_in_def dest: in_set_takeD)
qed

lemma remote_run:
  fixes w :: "(string \<times> 'g MemberServer) list"
  assumes "curve_ok C rep" "ed_verify_eq P C rep" "sha_ok P" "ed_ok P" "json_ok P"
    and "FrostSplit P C rs0 sd0 n t = Inr (ss, gp)" "n < 256" "2 \<le> mv" "t \<le> mv" "nat mv \<le> length (filter (up w) eps)"
    and "fleet_ready (lastEpoch P tml) ss eps w" "\<forall>a. fst (me_nonces (envs a)) \<noteq> None \<and> snd (me_nonces (envs a)) \<noteq> None"
    and "recoverable P tml b affected ids" "tl_algo tml = algoSHA256" "tl_council tml = Some gp" "tl_wf tml"
    and "lastEpoch P tml < 2 ^ 63 - 1" "evidenceBadIndex P ev = Inr b" "length sd = 32" "\<forall>k cn. ca k cn \<noteq> None"
  shows "\<exists>r w'. RemoteRecover P C ca (Some sd) (member_net P C envs) tml ev gp eps mv w = (Inr r, w')
    \<and> tl_Verify P (rr_Timeline r) \<and> startPub (rr_Timeline r) = startPub tml
    \<and> take (nat b) (tl_events (rr_Timeline r)) = take (nat b) (tl_events tml)
    \<and> tl_key (rr_Timeline r) = Some (ed_newkey P sd) \<and> rr_Issued r = map (reissue_id (lastEpoch P tml)) ids
    \<and> fc_Epoch (rr_Commit r) = lastEpoch P tml + 1
    \<and> fc_Members (rr_Commit r) = map (\<lambda>ep. fs_ID (share_at_ep w ep)) (take (nat mv) (filter (up w) eps))
    \<and> (\<forall>ep \<in> set (take (nat mv) (filter (up w) eps)). \<exists>p sh. signs_some P C (envs (ep_Addr ep))
         ((the (map_of w (ep_Addr ep)))\<lparr>ms_Share := sh, ms_pending := p\<rparr>))"
proof -
  let ?e = "lastEpoch P tml" and ?k = "ed_newkey P sd" and ?vs = "take (nat mv) (filter (up w) eps)"
  let ?qs = "map (share_at_ep w) ?vs" and ?cp = "Some (ev_Hash P (tl_events tml ! nat (b - 1)))"
  let ?a0 = "\<lparr>va_commits = [], va_pubs = [], va_xs = []\<rparr>"
  have e: "wrap64 (?e + 1) = ?e + 1" "wrap64 ?e = ?e" "int64 (?e + 1)" "int64 ?e"
    using lastEpoch_nonneg [of P tml] assms(17) by (auto intro!: wrap64_id simp: int64_def)
  obtain coeff where SS: "signers_ok C gp ss" "\<forall>s \<in> set ss. \<not> fs_used s \<and> fs_ID s = member_id (nat (fs_X s))"
    using FrostSplit_signers [OF assms(1,6,7)] by metis
  have uids: "distinct (map fs_ID ss)" "\<forall>s \<in> set ss. \<not> fs_used s" using SS by (simp_all add: signers_ok_def)
  have id: "memberX (fs_ID s) = fs_X s \<and> ascii (fs_ID s)" if "s \<in> set ss" for s
  proof -
    have x: "fs_ID s = member_id (nat (fs_X s))" "0 < fs_X s" "fs_X s < 256" using SS that by (auto simp: signers_ok_def signer_ok_def)
    then show ?thesis using memberX_index [of "fs_X s"] ascii_digits by (simp add: member_id_def ascii_def)
  qed
  have sub: "set ?qs \<subseteq> set ss" using fleet_at(3) [OF assms(11)] by (auto dest: in_set_takeD)
  have dq: "distinct ?qs" using assms(11) by (simp add: fleet_ready_def take_map [symmetric])
  have lq: "length ?qs = nat mv" using assms(10) by simp
  have tq: "t \<le> int (length ?qs)" "2 \<le> length ?qs" using assms(8,9) lq by auto
  let ?s0 = "ed25519Scalar P sd0"
  have Q: "signers_ok C gp ?qs" "\<forall>s \<in> set ?qs. \<not> fs_used s" "gp = g_enc C (g_exp C ?s0)" "0 \<le> ?s0" "share_sum ?qs mod fl = ?s0 mod fl"
    using split_share_sum [OF assms(1,6,7) sub dq tq(1)] by blast+
  have gp: "length gp = 32" using rep_length [OF assms(1) rep_exp [OF assms(1) Q(4)]] Q(3) by simp
  have R: "0 < b" "b \<le> int (length (tl_events tml))" "VerifyPrefix P tml b" using assms(13) by (auto simp: recoverable_def)
  have kp: "ed_keypair P ?k" by (rule ed_newkey_pair [OF assms(4,19)])
  obtain rb cert where rb: "recoverRollback P ca tml b sd ?e = Inr rb"
    "rb_pub rb = ed_public ?k" "rb_cert rb = Some cert" "base_of P tml b ?k (rb_fork rb)" "rollbackCheckpoint P tml b = Some ?cp"
    "\<And>fc sd'. fc_Checkpoint fc = ?cp \<Longrightarrow> fc_NewPub fc = Some (ed_public ?k) \<Longrightarrow> fc_Valid P fc gp 1 \<Longrightarrow> fc_wf fc \<Longrightarrow>
       \<exists>r. recovery_tail P tml b rb ?e fc sd' = Inr r \<and> good_tail P tml b ?e affected ids ?k sd' fc r"
    by (rule recover_middle [OF assms(3,4,5,13,15) gp assms(19,20), of ?e]) (rule that; assumption)
  have roll: "\<exists>pre. Rollback P tml b = Inr pre"
    using rb(1) by (auto simp: recoverRollback_def Let_def split: option.splits sum.splits)
  have wf: "tl_wf (rb_fork rb)" by (rule base_wf [OF rb(4) assms(16) ed_keypair_length [OF kp]])
  obtain de sh w1 where V: "vote_round (member_net P C envs) mv (vote_request P tml b) eps ?a0 w
       = (vote_tables (\<lambda>ep. fs_ID (share_at_ep w ep)) de ?vs ?a0, w1)"
    "commit_all C (map (\<lambda>ep. me_nonces (envs (ep_Addr ep))) ?vs) ?qs = (Inr (map (\<lambda>ep. (fs_ID (share_at_ep w ep), de ep)) ?vs), map sh ?vs)"
    "\<forall>ep \<in> set ?vs. same_signer (share_at_ep w ep) (sh ep) \<and> map_of w1 (ep_Addr ep) = Some ((the (map_of w (ep_Addr ep)))
       \<lparr>ms_Share := Some (sh ep), ms_pending := Some \<lparr>pf_epoch = ?e + 1, pf_checkpoint = ?cp, pf_commit = de ep\<rparr>\<rparr>)"
    "filter (up w1) eps = filter (up w) eps" "distinct (map (\<lambda>ep. fs_ID (share_at_ep w ep)) (filter (up w) eps))"
    by (rule vote_phase [OF assms(1,5,16) R(3) _ rb(5) assms(11) e(1) assms(12) uids(2,1), of mv]) (use R(1) in auto)
  let ?fc = "\<lparr>fc_Epoch = ?e + 1, fc_Checkpoint = ?cp, fc_Prev = ?e, fc_NewPub = Some (ed_public ?k), fc_Payload = Some cert,
      fc_Sig = None, fc_Members = []\<rparr>"
  have non: "nonces_ok (map (\<lambda>ep. me_nonces (envs (ep_Addr ep))) ?vs) (length ?qs)" using assms(12) by (auto simp: nonces_ok_def)
  obtain sg qs' where S: "FrostRound P C (map (\<lambda>ep. me_nonces (envs (ep_Addr ep))) ?vs) gp ?qs (descriptor P ?fc) = (Inr sg, qs')"
    "ed_verify P gp (descriptor P ?fc) sg"
    using round_accepts [OF assms(1,2) Q(1) tq(2) Q(2) non Q(3-5)] by blast
  have idq: "\<forall>s \<in> set ?qs. memberX (fs_ID s) = fs_X s" using id sub by blast
  obtain w2 where W: "remote_sign P C (member_net P C envs) gp mv eps (vote_tables (\<lambda>ep. fs_ID (share_at_ep w ep)) de ?vs ?a0) rb b ?fc w1
      = (Inr (sg, map fs_ID ?qs), w2)" "\<forall>ep \<in> set ?vs. signs_some P C (envs (ep_Addr ep)) (the (map_of w1 (ep_Addr ep)))"
    using sign_phase [OF assms(5) rb(4) wf R(1,2) assms(11,10) _ Q(1) idq V(2) S(1) V(3-5)] assms(8) e(2) by auto
  let ?fc' = "?fc\<lparr>fc_Sig := Some sg, fc_Members := map fs_ID ?qs\<rparr>"
  have desc: "descriptor P ?fc' = descriptor P ?fc" by (simp add: descriptor_def fc_signed_members_def)
  have valid: "fc_Valid P ?fc' gp j" if "j \<le> mv" for j
    unfolding fc_Valid_def desc using S(2) that lq by (simp add: slice_bytes_def)
  have fwf: "fc_wf ?fc'" using id sub e by (auto simp: fc_wf_def dest: in_set_takeD)
  obtain r where r: "recovery_tail P tml b rb ?e ?fc' [] = Inr r" "good_tail P tml b ?e affected ids ?k [] ?fc' r"
    using rb(6) [of ?fc', OF _ _ valid fwf] assms(8) by auto
  have "\<not> int (length (va_commits (vote_tables (\<lambda>ep. fs_ID (share_at_ep w ep)) de ?vs ?a0))) < mv"
    using assms(8,10) by (simp add: vote_tables_def)
  then have "RemoteRecover P C ca (Some sd) (member_net P C envs) tml ev gp eps mv w = (Inr r, w2)"
    using assms(18) R(3) V(1) rb(1-3,5) W(1) valid [OF order_refl] remote_tail_local [OF r(1) roll]
    by (simp add: RemoteRecover_def Let_def e(1))
  moreover have "\<forall>ep \<in> set ?vs. \<exists>p sh. signs_some P C (envs (ep_Addr ep)) ((the (map_of w (ep_Addr ep)))\<lparr>ms_Share := sh, ms_pending := p\<rparr>)"
    using V(3) W(2) by (metis option.sel)
  ultimately show ?thesis using r(2) assms(14) by (intro exI [of _ r] exI [of _ w2]) (simp add: good_tail_def tl_live_Verify comp_def)
qed


subsection \<open>A concrete fleet\<close>

text \<open>Three members of a 2-of-3 dealing behind three addresses, the second of them down.\<close>

definition demo_server :: "int FrostSigner \<Rightarrow> int MemberServer" where
  "demo_server s = NewCouncilMemberServer zprims [] (Some s) ''epoch'' None"

definition demo_world :: "int FrostSigner list \<Rightarrow> (string \<times> int MemberServer) list" where
  "demo_world ss = [(''a'', demo_server (ss ! 0)), (''c'', demo_server (ss ! 2))]"

definition demo_eps :: "int FrostSigner list \<Rightarrow> MemberEndpoint list" where
  "demo_eps ss = [\<lparr>ep_Addr = ''a'', ep_ServerName = [], ep_PubShare = fs_PubShare (ss ! 0)\<rparr>,
     \<lparr>ep_Addr = ''b'', ep_ServerName = [], ep_PubShare = []\<rparr>,
     \<lparr>ep_Addr = ''c'', ep_ServerName = [], ep_PubShare = fs_PubShare (ss ! 2)\<rparr>]"

lemma demo_up: "filter (up (demo_world ss)) (demo_eps ss) = [demo_eps ss ! 0, demo_eps ss ! 2]"
  by (simp add: demo_eps_def demo_world_def up_def)

lemma demo_share_at:
  "share_at_ep (demo_world ss) (demo_eps ss ! 0) = ss ! 0" "share_at_ep (demo_world ss) (demo_eps ss ! 2) = ss ! 2"
  by (simp_all add: demo_eps_def demo_world_def share_at_ep_def demo_server_def NewCouncilMemberServer_def)

lemma member_id_nonempty: "member_id n \<noteq> []"
  by (simp add: member_id_def)

lemma demo_fleet:
  assumes "FrostSplit zprims zcurve [Some []] [] 3 2 = Inr (ss, gp)" "length ss = 3" "distinct ss" "0 \<le> e"
  shows "fleet_ready e ss (demo_eps ss) (demo_world ss)"
proof -
  have u: "\<forall>s \<in> set ss. fs_ID s = member_id (nat (fs_X s))"
    using FrostSplit_signers [OF zcurve_ok assms(1)] by (metis numeral_less_iff semiring_norm(76,77,78,81))
  have m: "ss ! 0 \<in> set ss" "ss ! 2 \<in> set ss" using assms(2) by simp_all
  have i: "fs_ID (ss ! 0) \<noteq> []" "fs_ID (ss ! 2) \<noteq> []" using u m member_id_nonempty by metis+
  have d: "ss ! 0 \<noteq> ss ! 2" using assms(2,3) by (simp add: nth_eq_iff_index_eq)
  have a: "distinct (map ep_Addr (demo_eps ss))" by (simp add: demo_eps_def)
  have w: "map_of (demo_world ss) (ep_Addr (demo_eps ss ! 0)) = Some (demo_server (ss ! 0))"
    "map_of (demo_world ss) (ep_Addr (demo_eps ss ! 2)) = Some (demo_server (ss ! 2))"
    "ep_PubShare (demo_eps ss ! 0) = fs_PubShare (ss ! 0)" "ep_PubShare (demo_eps ss ! 2) = fs_PubShare (ss ! 2)"
    by (simp_all add: demo_world_def demo_eps_def)
  have s: "ms_Share (demo_server x) = Some x" "fs_ID x \<noteq> [] \<Longrightarrow> ms_ID (demo_server x) = fs_ID x" "ms_epoch (demo_server x) = 0" for x
    by (simp_all add: demo_server_def NewCouncilMemberServer_def)
  show ?thesis
    unfolding fleet_ready_def demo_up using a d m i w s assms(4) by (simp add: demo_share_at)
qed

lemma demo_setting:
  obtains ss gp t e e' where "FrostSplit zprims zcurve [Some []] [] 3 2 = Inr (ss, gp)" "fleet_ready 0 ss (demo_eps ss) (demo_world ss)"
    "\<not> fs_used (ss ! 0)" "recoverable zprims t 1 [''c9''] [''bob'']" "tl_algo t = algoSHA256" "tl_council t = Some gp" "tl_wf t"
    "lastEpoch zprims t = 0" "tl_events t = [e, e']" "tl_Verify zprims t"
proof -
  obtain ss gp where ss: "FrostSplit zprims zcurve [Some []] [] 3 2 = Inr (ss, gp)" "length ss = 3" "distinct ss"
    "signers_ok zcurve gp ss" "\<forall>s \<in> set ss. \<not> fs_used s" by (rule split_two_of_three)
  have gp: "length gp = 32"
    using split_share_sum [OF zcurve_ok ss(1), of ss] ss(2,3) rep_length [OF zcurve_ok rep_exp [OF zcurve_ok]] by auto
  obtain t e e' where t: "tl_live zprims t" "tl_events t = [e, e']" "tl_algo t = algoSHA256" "tl_council t = Some gp"
    "ev_Type e = EvPolicyChange" "ev_Type e' = EvIssue" "ev_Payload e' = Some (json_text zprims (ip_json demo_fraud))" "tl_wf t"
    by (rule demo_chain_wf [OF gp])
  have "lastEpoch zprims t = 0" using t(2,5,6) by (simp add: lastEpoch_def epoch_step_def)
  then show ?thesis
    using that [OF ss(1) demo_fleet [OF ss(1-3)] _ demo_recoverable [OF t(1,2,5-7)] t(3,4,8) _ t(2) tl_live_Verify [OF t(1)]] ss(2,5) by simp
qed

definition demo_envs :: "string \<Rightarrow> member_env" where
  "demo_envs a = \<lparr>me_nonces = (Some [1], Some [2]), me_writes = True\<rparr>"


lemma demo_member_signs:
  obtains s where "signs_some zprims zcurve (demo_envs ''a'') s" "ms_epoch s = 0" "ms_path s = ''epoch''"
proof -
  obtain ss gp t e e' where S: "FrostSplit zprims zcurve [Some []] [] 3 2 = Inr (ss, gp)" "fleet_ready 0 ss (demo_eps ss) (demo_world ss)"
    "\<not> fs_used (ss ! 0)" "recoverable zprims t 1 [''c9''] [''bob'']" "tl_algo t = algoSHA256" "tl_council t = Some gp" "tl_wf t"
    "lastEpoch zprims t = 0" "tl_events t = [e, e']" "tl_Verify zprims t" by (rule demo_setting)
  have "\<forall>ep \<in> set (take (nat 2) (filter (up (demo_world ss)) (demo_eps ss))). \<exists>p sh. signs_some zprims zcurve (demo_envs (ep_Addr ep))
         ((the (map_of (demo_world ss) (ep_Addr ep)))\<lparr>ms_Share := sh, ms_pending := p\<rparr>)"
    using remote_run [OF zcurve_ok zprims_verify zprims_ok S(1) _ _ _ _ _ _ S(4-7) _ demo_evidence, of 2 "demo_world ss" "demo_eps ss" demo_envs
        "replicate 32 7" "\<lambda>k cn. Some k"] by (auto simp: demo_up S(2,8) demo_envs_def)
  then obtain p sh where "signs_some zprims zcurve (demo_envs ''a'') ((demo_server (ss ! 0))\<lparr>ms_Share := sh, ms_pending := p\<rparr>)"
    unfolding demo_up by (auto simp: demo_eps_def demo_world_def)
  then show ?thesis by (rule that) (simp_all add: demo_server_def NewCouncilMemberServer_def)
qed

section \<open>A member's shares\<close>

text \<open>
  C4: whatever a member is sent after its boot, it releases at most one partial signature, and the one it
  releases answers a commit request whose handoff carries the epoch and the checkpoint of an earlier vote of the member on a prefix
  that verified, whose fork verifies and passes the post-conditions, whose transcript contains the commitment of that
  vote, and whose challenge is the one the member computes itself.
\<close>

theorem member_safe:
  assumes "member_life P C tr s"
  shows "length (filter released tr) \<le> 1
    \<and> (\<forall>k < length tr. released (tr ! k) \<longrightarrow> m_Kind (fst (tr ! k)) = councilCommit
        \<and> (\<exists>j < k. \<exists>p sh z. opened_by P p (tr ! j) \<and> signed_checks P C sh p (fst (tr ! k)) z
            \<and> m_Share (snd (tr ! k)) = Some z))"
  using member_life_inv [OF assms] by (simp add: member_inv_def)


theorem member_safe_witness:
  "\<exists>t sh r s'. member_life zprims zcurve [(vote_request zprims t 1, r)] s' \<and> m_Vote r \<and> ms_pending s' \<noteq> None
     \<and> s' \<noteq> demo_server sh \<and> length (filter released [(vote_request zprims t 1, r)]) \<le> 1"
proof -
  obtain ss gp t e e' where S: "FrostSplit zprims zcurve [Some []] [] 3 2 = Inr (ss, gp)" "fleet_ready 0 ss (demo_eps ss) (demo_world ss)"
    "\<not> fs_used (ss ! 0)" "recoverable zprims t 1 [''c9''] [''bob'']" "tl_algo t = algoSHA256" "tl_council t = Some gp" "tl_wf t"
    "lastEpoch zprims t = 0" "tl_events t = [e, e']" "tl_Verify zprims t" by (rule demo_setting)
  let ?sh = "ss ! 0" and ?m = "vote_request zprims t 1" and ?en = "demo_envs ''a''"
  obtain sh' where c: "fs_Commit zcurve (Some [1]) (Some [2]) ?sh = (Inr (nonce_pair zcurve sh'), sh')" using fs_Commit_ok [OF S(3)] by blast
  have v: "VerifyPrefix zprims t 1" using S(4) by (simp add: recoverable_def)
  have k: "rollbackCheckpoint zprims t 1 = Some (Some (ev_Hash zprims e))" using S(9) by (simp add: rollbackCheckpoint_def)
  have s: "ms_Share (demo_server ?sh) = Some ?sh" "ms_epoch (demo_server ?sh) < wrap64 (lastEpoch zprims (stripped t) + 1)"
    by (simp_all add: demo_server_def NewCouncilMemberServer_def S(8) wrap64_id int64_def)
  have M: "m_Kind ?m = councilVote" "raw_timeline zprims (m_Timeline ?m) = Inr (stripped t)" "0 \<le> m_BadIndex ?m" "m_BadIndex ?m = 1"
    using wire_timeline_arrives [OF zprims_ok(3) S(7)] by (simp_all add: vote_request_def cm_zero_def)
  have "\<exists>r s'. ms_dispatch zprims zcurve ?en ?m (demo_server ?sh) = Some (Inr r, s') \<and> m_Vote r \<and> ms_pending s' \<noteq> None"
    using vote_answer [OF M(1-3) _ s(1) S(3) s(2), where C = zcurve and en = ?en] c v k M(4) by (simp add: cm_zero_def demo_envs_def)
  then obtain r s' where r: "ms_dispatch zprims zcurve ?en ?m (demo_server ?sh) = Some (Inr r, s')" "m_Vote r" "ms_pending s' \<noteq> None" by blast
  have "member_life zprims zcurve [] (demo_server ?sh)" unfolding demo_server_def by (rule member_life.Boots)
  from member_life.Answers [OF this r(1)] have life: "member_life zprims zcurve [(?m, r)] s'" by simp
  moreover have "s' \<noteq> demo_server ?sh" using r(3) by (auto simp: demo_server_def NewCouncilMemberServer_def)
  ultimately show ?thesis using r(2,3) member_safe [OF life] by blast
qed

end
