(* ===== verification/CouncilFaults.thy ===== *)
theory CouncilFaults
  imports RemoteProps RecoverProps
begin

text \<open>
  Where the members' checks end: the epoch a member records is the initiator's, a recovery from the first event
  has no checkpoint a member accepts, and a bad index past the end of a good timeline stops the member.
\<close>

section \<open>The recorded epoch\<close>

lemma boot_epoch:
  assumes "json_ok P" "int64 e"
  shows "ms_epoch (NewCouncilMemberServer P i share pth (Some (json_text P (JObj [(''epoch'', JInt e)])))) = e"
  using epoch_unmarshal [OF assms] by (simp add: NewCouncilMemberServer_def epoch_json_def)

lemma vote_after:
  assumes "ms_epoch s = 2 ^ 63 - 1"
  shows "\<exists>r. ms_vote P C n m s = Some (r, s) \<and> \<not> m_Vote r"
proof -
  have "wrap64 (lastEpoch P t + 1) \<le> ms_epoch s" for t
    using wrap64_int64 [of "lastEpoch P t + 1"] assms by (simp add: int64_def)
  then show ?thesis
    by (auto simp: ms_vote_def Let_def cm_zero_def refuse_def split: sum.splits option.splits)
qed

lemma transcript_epoch [simp]:
  "sign_transcript P C (m\<lparr>m_Epoch := e\<rparr>) = sign_transcript P C m" "sign_transcript P C (m\<lparr>m_Prev := e\<rparr>) = sign_transcript P C m"
  "sign_transcript P C (m\<lparr>m_Kind := k\<rparr>) = sign_transcript P C m"
  by (intro ext; simp add: sign_transcript_def cong: sum.case_cong prod.case_cong if_cong)+

lemma commit_kind: "ms_commit P C wr (m\<lparr>m_Kind := k\<rparr>) s = ms_commit P C wr m s"
  by (simp add: ms_commit_def Let_def cong: sum.case_cong prod.case_cong option.case_cong if_cong)

lemma commit_epoch_free:
  assumes "ms_commit P C wr m s = Some (r, s')" "m_Share r \<noteq> None" "ms_epoch s < e"
  shows "ms_commit P C wr (m\<lparr>m_Epoch := e, m_Prev := wrap64 (e - 1)\<rparr>) s
    = Some (r, (persistEpoch P wr (s\<lparr>ms_epoch := e\<rparr>))\<lparr>ms_pending := None\<rparr>)"
  using assms(1)
proof (cases rule: ms_commit_cases)
  case refused
  then show ?thesis using assms(2) by simp
next
  case (signed p sh z)
  let ?m = "m\<lparr>m_Epoch := e, m_Prev := wrap64 (e - 1)\<rparr>" and ?en = "\<lparr>me_nonces = (None, None), me_writes = wr\<rparr>"
  have c: "signed_checks P C sh p (?m\<lparr>m_Kind := councilCommit\<rparr>) z"
    using signed(3) by (simp add: signed_checks_def)
  have "ms_dispatch P C ?en (?m\<lparr>m_Kind := councilCommit\<rparr>) s = Some (Inr r, (persistEpoch P wr (s\<lparr>ms_epoch := e\<rparr>))\<lparr>ms_pending := None\<rparr>)"
    using commit_answer [OF _ signed(1,2) _ _ c, of ?en] signed assms(3) by simp
  moreover have "councilCommit \<noteq> councilVote" by (simp add: kind_defs)
  ultimately have "ms_commit P C wr (?m\<lparr>m_Kind := councilCommit\<rparr>) s = Some (r, (persistEpoch P wr (s\<lparr>ms_epoch := e\<rparr>))\<lparr>ms_pending := None\<rparr>)"
    by (simp add: ms_dispatch_def)
  then show ?thesis by (simp only: commit_kind)
qed

lemma persisted:
  assumes "json_ok P" "int64 e" "wr" "ms_path s \<noteq> []"
  shows "ms_epoch (NewCouncilMemberServer P i share (ms_path s) (ms_file (persistEpoch P wr (s\<lparr>ms_epoch := e\<rparr>)))) = e"
  using assms(3,4) boot_epoch [OF assms(1,2)] by (simp add: persistEpoch_def)



section \<open>Recovery from the first event\<close>

lemma commit_needs_checkpoint:
  assumes "ms_dispatch P C en m s = Some (Inr r, s')" "m_Kind m = councilCommit" "m_Frost m = Some fc" "fc_Checkpoint fc = None"
  shows "m_Share r = None"
  using assms(1)
proof (cases rule: dispatch_answer)
  case vote
  then show ?thesis using assms(2) by (simp add: kind_defs)
next
  case commit
  from commit(2) show ?thesis
    by (cases rule: ms_commit_cases) (use assms(3,4) in \<open>auto simp: signed_checks_def\<close>)
qed

lemma no_share_round:
  assumes "m_Kind req = councilCommit" "m_Frost req = Some fc" "fc_Checkpoint fc = None"
  shows "\<exists>w'. share_round P C (member_net P C envs) mv req eps a w = (Some a, w')"
proof (induction eps arbitrary: w)
  case (Cons ep eps)
  obtain r w' where n: "member_net P C envs ep req w = (r, w')" by fastforce
  have "m_Share x = None" if "r = Inr x" for x
    using n that commit_needs_checkpoint [OF _ assms] by (auto simp: member_net_def split: option.splits prod.splits)
  then have "add_partial P C r a = Some a" by (auto simp: add_partial_def split: sum.splits)
  then show ?case using Cons n by simp
qed simp

text \<open>
  A recovery over the network that goes back before the first event never succeeds, whoever
  answers: the handoff has no checkpoint and every member refuses such a handoff.
\<close>

theorem remote_genesis:
  assumes "evidenceBadIndex P ev = Inr b" "b \<le> 0" "0 < mv"
  shows "\<exists>e w'. RemoteRecover P C ca sd (member_net P C envs) tml ev gp eps mv w = (Inl e, w')"
proof -
  have k: "rollbackCheckpoint P tml b = Some None" using assms(2) by (simp add: rollbackCheckpoint_def)
  have s: "\<exists>e w'. remote_sign P C (member_net P C envs) gp mv eps a rb b fc w1 = (Inl e, w')" if "fc_Checkpoint fc = None"
    for a rb w1 and fc :: FrostCommit
  proof -
    have n: "\<exists>w'. share_round P C (member_net P C envs) mv (commit_request P rb b fc (va_commits a) r c) eps (agg1, []) w1 = (Some (agg1, []), w')"
      for r c agg1 by (rule no_share_round [of _ fc]) (simp_all add: commit_request_def that)
    show ?thesis
    proof (cases "add_commits (va_commits a) (SetXs (va_xs a) (NewFrostAggregator C gp (va_pubs a)))")
      case (Inr agg)
      show ?thesis
      proof (cases "Challenge P C (descriptor P fc) agg")
        case ch: (Inr x)
        obtain r c agg1 where "x = ((r, c), agg1)" by (metis prod.exhaust)
        with ch Inr n [of r c agg1] assms(3) show ?thesis by (auto simp: remote_sign_def)
      qed (simp add: remote_sign_def Inr)
    qed (simp add: remote_sign_def)
  qed
  obtain a w1 where v: "vote_round (member_net P C envs) mv (vote_request P tml b) eps \<lparr>va_commits = [], va_pubs = [], va_xs = []\<rparr> w = (a, w1)"
    by fastforce
  show ?thesis
  proof (cases sd)
    case (Some x)
    show ?thesis
    proof (cases "recoverRollback P ca tml b x (lastEpoch P tml)")
      case (Inr rb)
      let ?fc = "\<lparr>fc_Epoch = wrap64 (lastEpoch P tml + 1), fc_Checkpoint = None, fc_Prev = lastEpoch P tml,
         fc_NewPub = Some (rb_pub rb), fc_Payload = rb_cert rb, fc_Sig = None, fc_Members = []\<rparr>"
      obtain e w' where "remote_sign P C (member_net P C envs) gp mv eps a rb b ?fc w1 = (Inl e, w')" using s [of ?fc a rb w1] by auto
      then show ?thesis by (simp add: RemoteRecover_def assms(1) v k Some Inr)
    qed (simp add: RemoteRecover_def assms(1) v Some)
  qed (simp add: RemoteRecover_def assms(1) v)
qed

theorem remote_genesis_witness:
  "\<forall>t gp ss. \<exists>e w'. RemoteRecover zprims zcurve (\<lambda>k cn. Some k) (Some (replicate 32 7)) (member_net zprims zcurve demo_envs)
     t (Some (demo_evidence\<lparr>ev_Payload := Some (json_text zprims (JObj [(''bad_index'', JInt 0)]))\<rparr>)) gp (demo_eps ss) 2 (demo_world ss) = (Inl e, w')"
  by (intro allI, rule remote_genesis [of _ _ 0])
    (simp_all add: evidenceBadIndex_def demo_evidence_def ev_zero_def unmarshal_text [OF zprims_ok(3)] ascii_payload
      evidence_fields_def decode_eval int64_def)

section \<open>A bad index past the end\<close>

text \<open>
  A vote request on a timeline that verifies, with a bad index past its end, stops a member whose
  share is fresh: \<open>VerifyPrefix\<close> clamps the index and the checkpoint is then read out of range.
\<close>

theorem member_crash:
  assumes "raw_timeline P (m_Timeline m) = Inr t" "tl_Verify P t" "m_Kind m = councilVote" "int (length (tl_events t)) < m_BadIndex m"
    and "ms_Share s = Some sh" "\<not> fs_used sh" "ms_epoch s < wrap64 (lastEpoch P t + 1)"
    and "fst (me_nonces en) \<noteq> None" "snd (me_nonces en) \<noteq> None"
  shows "ms_dispatch P C en m s = None"
proof -
  have v: "VerifyPrefix P t (m_BadIndex m)" "0 \<le> m_BadIndex m"
    using assms(2,4) by (simp_all add: VerifyPrefix_key tl_Verify_key chain_key_def)
  obtain sh' where "fs_Commit C (fst (me_nonces en)) (snd (me_nonces en)) sh = (Inr (nonce_pair C sh'), sh')"
    using fs_Commit_ok [OF assms(6,8,9)] by blast
  moreover have "rollbackCheckpoint P t (m_BadIndex m) = None" using assms(4) v(2) by (simp add: rollbackCheckpoint_def)
  ultimately show ?thesis using assms v by (simp add: ms_dispatch_def ms_vote_def Let_def)
qed

theorem member_crash_witness:
  "\<exists>t sh. tl_Verify zprims t \<and> ms_dispatch zprims zcurve (demo_envs ''a'') (vote_request zprims t 3) (demo_server sh) = None"
proof -
  obtain ss gp t e e' where S: "FrostSplit zprims zcurve [Some []] [] 3 2 = Inr (ss, gp)" "fleet_ready 0 ss (demo_eps ss) (demo_world ss)"
    "\<not> fs_used (ss ! 0)" "recoverable zprims t 1 [''c9''] [''bob'']" "tl_algo t = algoSHA256" "tl_council t = Some gp" "tl_wf t"
    "lastEpoch zprims t = 0" "tl_events t = [e, e']" "tl_Verify zprims t" by (rule demo_setting)
  have "ms_dispatch zprims zcurve (demo_envs ''a'') (vote_request zprims t 3) (demo_server (ss ! 0)) = None"
    by (rule member_crash [of _ _ "stripped t" _ "ss ! 0"])
      (use S(3,8,9,10) wire_timeline_arrives [OF zprims_ok(3) S(7)] in
        \<open>simp_all add: vote_request_def cm_zero_def demo_server_def NewCouncilMemberServer_def demo_envs_def wrap64_id int64_def\<close>)
  with S(10) show ?thesis by blast
qed

end
