(* ===== verification/Cli.thy ===== *)
theory Cli
  imports Api
begin

text \<open>
  What the command-line programs share: flags, option scans, the files they read and write, and how a command ends.  A
  command gives its exit, the lines it printed and the files after it; \<open>can_write\<close> says which writes
  succeed.
\<close>

section \<open>Files and exits\<close>

datatype cli_error = Msg string | NoFile string | WriteFails string | NotJson | BadHex | BadNumber | Library string
  | Wrapped string cli_error

datatype exit = Done | Fails cli_error | Panics

type_synonym files = "(string \<times> bytes) list"

record world =
  w_files :: files
  w_out :: "string list"

type_synonym command = "world \<Rightarrow> exit \<times> world"

definition ReadFile :: "string \<Rightarrow> world \<Rightarrow> cli_error + bytes" where
  "ReadFile p w = (case map_of (w_files w) p of None \<Rightarrow> Inl (NoFile p) | Some b \<Rightarrow> Inr b)"

definition exists_file :: "string \<Rightarrow> world \<Rightarrow> bool" where
  "exists_file p w \<longleftrightarrow> map_of (w_files w) p \<noteq> None"

definition WriteFile :: "(string \<Rightarrow> bool) \<Rightarrow> string \<Rightarrow> bytes \<Rightarrow> world \<Rightarrow> cli_error option \<times> world" where
  "WriteFile can_write p b w =
     (if can_write p then (None, w\<lparr>w_files := AList.update p b (w_files w)\<rparr>) else (Some (WriteFails p), w))"

definition println :: "string \<Rightarrow> world \<Rightarrow> world" where
  "println s w = w\<lparr>w_out := w_out w @ [s]\<rparr>"

definition print_all :: "string list \<Rightarrow> world \<Rightarrow> world" where
  "print_all ss w = w\<lparr>w_out := w_out w @ ss\<rparr>"

lemma ReadFile_out [simp]: "ReadFile p (println s w) = ReadFile p w" "ReadFile p (print_all ss w) = ReadFile p w"
  by (simp_all add: ReadFile_def println_def print_all_def)

lemma ReadFile_written: "WriteFile can_write p b w = (None, w') \<Longrightarrow> ReadFile q w' = (if q = p then Inr b else ReadFile q w)"
  by (auto simp: WriteFile_def ReadFile_def update_conv' split: if_splits)

lemma bytes_str_inverse [simp]: "bytes_str (str_bytes s) = s"
proof (induction s)
  case (Cons c s)
  have "unat (of_nat (of_char c) :: byte) = of_char c" 
    using nat_of_char_less_256 [of c] by (simp add: unsigned_of_nat take_bit_nat_eq_self del: of_nat_of_char)
  then have "char_of (unat (of_char c :: byte)) = c" by simp
  with Cons show ?case by (simp add: bytes_str_def str_bytes_def)
qed (simp add: bytes_str_def str_bytes_def)

section \<open>Flags\<close>

fun flags_from :: "string list \<Rightarrow> (string \<times> string) list \<Rightarrow> (string \<times> string) list" where
  "flags_from (a # b # rest) f =
     (if 2 < length a \<and> take 2 a = ''--'' then flags_from rest (AList.update (drop 2 a) b f) else flags_from (b # rest) f)"
| "flags_from _ f = f"

definition flags :: "string list \<Rightarrow> (string \<times> string) list" where
  "flags args = flags_from args []"

text \<open>A missing key of a map of strings reads as the empty string.\<close>

definition flag :: "(string \<times> string) list \<Rightarrow> string \<Rightarrow> string" where
  "flag f k = (case map_of f k of None \<Rightarrow> [] | Some v \<Rightarrow> v)"

text \<open>
  The switch loops: each named option takes the argument after it, which is then skipped; \<open>last_value\<close> is the
  loop that looks at every argument and skips none.
\<close>

fun scan_opts :: "string list \<Rightarrow> string list \<Rightarrow> (string \<times> string) list \<Rightarrow> (string \<times> string) list" where
  "scan_opts names (a # b # rest) f =
     (if a \<in> set names then scan_opts names rest (AList.update a b f) else scan_opts names (b # rest) f)"
| "scan_opts names _ f = f"

fun last_value :: "string \<Rightarrow> string list \<Rightarrow> string \<Rightarrow> string" where
  "last_value name (a # b # rest) v = last_value name (b # rest) (if a = name then b else v)"
| "last_value name _ v = v"

section \<open>Text\<close>

definition is_space :: "char \<Rightarrow> bool" where
  "is_space c \<longleftrightarrow> (of_char c :: nat) \<in> {9, 10, 11, 12, 13, 32}"

definition TrimSpace :: "string \<Rightarrow> string" where
  "TrimSpace s = rev (dropWhile is_space (rev (dropWhile is_space s)))"

fun split_on :: "char \<Rightarrow> string \<Rightarrow> string list" where
  "split_on sep [] = [[]]"
| "split_on sep (c # cs) = (if c = sep then [] # split_on sep cs
     else (case split_on sep cs of [] \<Rightarrow> [[c]] | p # ps \<Rightarrow> (c # p) # ps))"

lemma split_on_nonempty [simp]: "split_on sep s \<noteq> []"
  by (induction s) (auto split: list.splits)

lemma split_on_none [simp]: "c \<notin> set s \<Longrightarrow> split_on c s = [s]"
  by (induction s) auto

lemma split_on_append: "split_on c (a @ c # b) = split_on c a @ split_on c b"
proof (induction a)
  case (Cons x a)
  then show ?case using split_on_nonempty [of c a] by (auto split: list.splits)
qed simp

text \<open>\<open>strings.Cut\<close> at a character.\<close>

fun cut :: "char \<Rightarrow> string \<Rightarrow> (string \<times> string) option" where
  "cut sep [] = None"
| "cut sep (c # cs) = (if c = sep then Some ([], cs) else map_option (\<lambda>(a, b). (c # a, b)) (cut sep cs))"

definition upper :: "char \<Rightarrow> char" where
  "upper c = (let n = (of_char c :: nat) in if 97 \<le> n \<and> n \<le> 122 then char_of (n - 32) else c)"

text \<open>\<open>fmt.Sscanf(s, "%d", &n)\<close>: leading blanks, a sign, digits; the rest is not looked at.\<close>

definition is_digit :: "char \<Rightarrow> bool" where
  "is_digit c \<longleftrightarrow> digit_val c \<noteq> None"

definition scan_int :: "string \<Rightarrow> int option" where
  "scan_int s =
     (let t = dropWhile is_space s;
          sgn = (case t of c # _ \<Rightarrow> if c = CHR ''-'' \<or> c = CHR ''+'' then [c] else [] | [] \<Rightarrow> []);
          ds = takeWhile is_digit (drop (length sgn) t)
      in if ds = [] then None else ParseInt (sgn @ ds))"

text \<open>\<open>%-24s\<close>: padded on the right to a width in characters.\<close>

definition rune_count :: "string \<Rightarrow> nat" where
  "rune_count s = length (filter (\<lambda>c. let n = (of_char c :: nat) in n < 128 \<or> 192 \<le> n) s)"

definition pad_right :: "nat \<Rightarrow> string \<Rightarrow> string" where
  "pad_right n s = s @ replicate (n - rune_count s) CHR '' ''"

end
