(* ===== verification/DnsProbe.thy ===== *)
theory DnsProbe
  imports Cli
begin

text \<open>
  \<open>cmd/dnsprobe\<close>: the query it sends, the parser of the answer, and the probe loop.  The two walks over names are
  partial functions, where None is a loop that does not end; a result of the parser is a value, or a panic
  where the Go code indexes past the message.
\<close>

section \<open>The query\<close>

definition trim_dot :: "string \<Rightarrow> string" where
  "trim_dot s = (if s \<noteq> [] \<and> last s = CHR ''.'' then butlast s else s)"

fun encode_labels :: "string list \<Rightarrow> bytes option" where
  "encode_labels [] = Some [0]"
| "encode_labels (l # ls) = (if l = [] \<or> 63 < length l then None
     else map_option (\<lambda>b. of_nat (length l) # str_bytes l @ b) (encode_labels ls))"

definition encodeName :: "string \<Rightarrow> bytes option" where
  "encodeName name = encode_labels (split_on CHR ''.'' (trim_dot name))"

text \<open>\<open>qid\<close> is the random identifier, below 65536.\<close>

definition makeQuery :: "int \<Rightarrow> string \<Rightarrow> int \<Rightarrow> bytes option" where
  "makeQuery qid name qtype = (case encodeName name of
     None \<Rightarrow> None
   | Some labels \<Rightarrow> Some ([word_of_int (qid div 256), word_of_int qid, 0, 1, 0, 1, 0, 0, 0, 0, 0, 0] @ labels
       @ [word_of_int (qtype div 256), word_of_int qtype, 0, 1]))"

section \<open>The answer\<close>

definition be16 :: "bytes \<Rightarrow> nat \<Rightarrow> nat" where
  "be16 msg i = unat (msg ! i) * 256 + unat (msg ! Suc i)"

text \<open>The question's name: the position after it, or None (inside) where the message ends first.\<close>

partial_function (option) question_end :: "bytes \<Rightarrow> nat \<Rightarrow> nat option option" where
  "question_end msg pos =
     (if length msg \<le> pos then Some None
      else if msg ! pos = 0 then Some (Some (pos + 1))
      else question_end msg (pos + 1 + unat (msg ! pos)))"

text \<open>The owner name of an answer, uncompressed: its length, or None (inside) where the walk leaves the message and panics.\<close>

partial_function (option) owner_length :: "bytes \<Rightarrow> nat \<Rightarrow> nat \<Rightarrow> nat option option" where
  "owner_length msg pos skip =
     (if length msg \<le> pos + skip then Some None
      else if msg ! (pos + skip) = 0 then Some (Some (skip + 1))
      else owner_length msg pos (skip + unat (msg ! (pos + skip)) + 1))"

definition owner_skip :: "bytes \<Rightarrow> nat \<Rightarrow> nat option option" where
  "owner_skip msg pos = (if 192 \<le> unat (msg ! pos) then Some (Some 2) else owner_length msg pos 0)"

datatype dns_error = ShortResponse | TruncatedQuestion | TruncatedRData

fun dns_message :: "dns_error \<Rightarrow> string" where
  "dns_message ShortResponse = ''short DNS response''"
| "dns_message TruncatedQuestion = ''truncated question''"
| "dns_message TruncatedRData = ''truncated RDATA''"

text \<open>What a parse gives: the answers, the response code and an error, or a panic.\<close>

datatype parsed = Parsed "string list" nat "dns_error option" | ParsePanic

definition ip4 :: "bytes \<Rightarrow> string" where
  "ip4 b = digits (unat (b ! 0)) @ ''.'' @ digits (unat (b ! 1)) @ ''.'' @ digits (unat (b ! 2)) @ ''.'' @ digits (unat (b ! 3))"

definition rdata_answer :: "nat \<Rightarrow> bytes \<Rightarrow> string list" where
  "rdata_answer typ rd =
     (if typ = 1 then (if length rd = 4 then [ip4 rd] else [])
      else if typ = 16 then (if rd \<noteq> [] then [bytes_str (drop 1 rd)] else [])
      else [])"

text \<open>The loop over the answers, \<open>n\<close> of them left.\<close>

fun answer_loop :: "bytes \<Rightarrow> nat \<Rightarrow> nat \<Rightarrow> nat \<Rightarrow> string list \<Rightarrow> parsed option" where
  "answer_loop msg rcode 0 pos acc = Some (Parsed acc rcode None)"
| "answer_loop msg rcode (Suc n) pos acc =
     (if length msg < pos + 12 then Some (Parsed acc rcode None)
      else (case owner_skip msg pos of
          None \<Rightarrow> None
        | Some None \<Rightarrow> Some ParsePanic
        | Some (Some skip) \<Rightarrow>
           let p = pos + skip in
           if length msg < p + 10 then Some (Parsed acc rcode None)
           else let rdlen = be16 msg (p + 8) in
             if length msg < p + 10 + rdlen then Some (Parsed acc rcode (Some TruncatedRData))
             else answer_loop msg rcode n (p + 10 + rdlen)
                    (acc @ rdata_answer (be16 msg p) (take rdlen (drop (p + 10) msg)))))"

definition parseAnswer :: "bytes \<Rightarrow> parsed option" where
  "parseAnswer msg =
     (if length msg < 12 then Some (Parsed [] 0 (Some ShortResponse))
      else let rcode = be16 msg 2 mod 16 in
        (case question_end msg 12 of
           None \<Rightarrow> None
         | Some None \<Rightarrow> Some (Parsed [] rcode (Some TruncatedQuestion))
         | Some (Some pos) \<Rightarrow> answer_loop msg rcode (be16 msg 6) (pos + 4) []))"

section \<open>The probe\<close>

definition rcodeName :: "nat \<Rightarrow> string" where
  "rcodeName rc = (case map_of [(0, ''NOERROR''), (1, ''FORMERR''), (2, ''SERVFAIL''), (3, ''NXDOMAIN''), (4, ''NOTIMP''), (5, ''REFUSED'')] rc of
     Some s \<Rightarrow> s | None \<Rightarrow> ''?'')"

definition status_of :: "nat \<Rightarrow> string list \<Rightarrow> string" where
  "status_of rcode answers =
     (if answers = [] \<and> rcode = 0 then ''NODATA (0 answers)''
      else if rcode \<noteq> 0 then ''RCODE '' @ digits rcode @ '' ('' @ rcodeName rcode @ '')''
      else ''OK'')"

text \<open>
  \<open>exchange\<close> is the datagram sent to the server and the one read back, or an error; the read fills a buffer of
  512 bytes.  None: the parser does not return.
\<close>

definition probeOnce :: "int \<Rightarrow> (bytes \<Rightarrow> cli_error + bytes) \<Rightarrow> (string \<times> string) list \<Rightarrow> world \<Rightarrow> (exit \<times> world) option" where
  "probeOnce qid exchange f w =
     (let server = flag f ''server''; name = flag f ''name''; qtype = map upper (flag f ''type'') in
      if server = [] \<or> name = [] then Some (Fails (Msg ''usage: query --server <host:port> --name <name> --type TXT|A''), w)
      else if qtype \<noteq> ''TXT'' \<and> qtype \<noteq> ''A'' then Some (Fails (Msg ''--type: TXT or A only''), w)
      else (case makeQuery qid name (if qtype = ''A'' then 1 else 16) of
          None \<Rightarrow> Some (Fails (Msg ''name label invalid''), w)
        | Some msg \<Rightarrow> (case exchange msg of
             Inl e \<Rightarrow> Some (Fails e, w)
           | Inr reply \<Rightarrow> (case parseAnswer (take 512 reply) of
                None \<Rightarrow> None
              | Some ParsePanic \<Rightarrow> Some (Panics, w)
              | Some (Parsed answers rcode (Some e)) \<Rightarrow> Some (Fails (Msg (dns_message e)), w)
              | Some (Parsed answers rcode None) \<Rightarrow> Some (Done, print_all
                  ((''name='' @ name @ '' type='' @ qtype @ '' answers='' @ digits (length answers) @ '' rcode='' @ digits rcode
                    @ '' status='' @ status_of rcode answers) # map (\<lambda>a. ''  + '' @ a) answers) w)))))"

text \<open>One probe per poll until one fails; \<open>qids\<close> and \<open>exchanges\<close> give each poll its randomness and its network.\<close>

fun probe_loop :: "(nat \<Rightarrow> int) \<Rightarrow> (nat \<Rightarrow> bytes \<Rightarrow> cli_error + bytes) \<Rightarrow> (string \<times> string) list \<Rightarrow> nat \<Rightarrow> nat \<Rightarrow> world \<Rightarrow> (exit \<times> world) option" where
  "probe_loop qids exchanges f i 0 w = Some (Done, w)"
| "probe_loop qids exchanges f i (Suc n) w = (case probeOnce (qids i) (exchanges i) f w of
     None \<Rightarrow> None
   | Some (Done, w') \<Rightarrow> probe_loop qids exchanges f (Suc i) n w'
   | Some (e, w') \<Rightarrow> Some (e, w'))"

definition poll_count :: "(string \<times> string) list \<Rightarrow> nat" where
  "poll_count f = (case ParseInt (flag f ''poll'') of Some p \<Rightarrow> if 0 < p then nat p else 1 | None \<Rightarrow> 1)"

definition probe :: "(nat \<Rightarrow> int) \<Rightarrow> (nat \<Rightarrow> bytes \<Rightarrow> cli_error + bytes) \<Rightarrow> string list \<Rightarrow> world \<Rightarrow> (exit \<times> world) option" where
  "probe qids exchanges args w = (let f = flags args in probe_loop qids exchanges f 0 (poll_count f) w)"

end
