(* ===== verification/DnsProps.thy ===== *)
theory DnsProps
  imports DnsProbe
begin

text \<open>
  The probe always returns, an answer of the documented form is read back, and a server can stop the probe with
  one datagram.
\<close>

section \<open>The loops end\<close>

lemma question_end_returns: "\<exists>r. question_end msg pos = Some r"
proof (induction "length msg - pos" arbitrary: pos rule: less_induct)
  case less
  show ?case
  proof (cases "length msg \<le> pos")
    case False
    then have "length msg - (pos + 1 + unat (msg ! pos)) < length msg - pos" by simp
    from less [OF this] show ?thesis by (subst question_end.simps) simp
  qed (subst question_end.simps, simp)
qed

lemma owner_length_returns: "\<exists>r. owner_length msg pos skip = Some r"
proof (induction "length msg - (pos + skip)" arbitrary: skip rule: less_induct)
  case less
  show ?case
  proof (cases "length msg \<le> pos + skip")
    case False
    then have "length msg - (pos + (skip + unat (msg ! (pos + skip)) + 1)) < length msg - (pos + skip)" by simp
    from less [OF this] show ?thesis by (subst owner_length.simps) simp
  qed (subst owner_length.simps, simp)
qed

lemma answer_loop_returns: "\<exists>r. answer_loop msg rcode n pos acc = Some r"
proof (induction n arbitrary: pos acc)
  case (Suc n)
  obtain x where x: "owner_skip msg pos = Some x" 
    using owner_length_returns [of msg pos 0] by (cases "192 \<le> unat (msg ! pos)") (auto simp: owner_skip_def)
  then show ?case using Suc by (cases x) (auto simp: Let_def)
qed simp

lemma parse_returns: "\<exists>r. parseAnswer msg = Some r"
proof -
  obtain x where "question_end msg 12 = Some x" using question_end_returns by blast
  then show ?thesis using answer_loop_returns by (cases x) (auto simp: parseAnswer_def Let_def)
qed

lemma probeOnce_returns: "\<exists>r. probeOnce qid exch f w = Some r"
proof -
  have "\<exists>r. (case parseAnswer m of None \<Rightarrow> None | Some ParsePanic \<Rightarrow> Some (Panics, w)
     | Some (Parsed as rc (Some e)) \<Rightarrow> Some (Fails (Msg (dns_message e)), w) | Some (Parsed as rc None) \<Rightarrow> Some (Done, g as rc)) = Some r" for m and g :: "string list \<Rightarrow> nat \<Rightarrow> world"
    using parse_returns [of m] by (auto split: parsed.splits option.splits)
  then show ?thesis by (auto simp: probeOnce_def Let_def split: option.splits sum.splits)
qed

text \<open>
  C37: the probe returns, whatever the arguments, the random numbers and the datagrams of the server: neither the walk over
  a name nor the loop over the answers can run forever.
\<close>

theorem dns_terminates: "\<exists>e w'. probe qids exchanges args w = Some (e, w')"
proof -
  have "\<exists>e w'. probe_loop qids exchanges f i n w = Some (e, w')" for f i n w
  proof (induction n arbitrary: i w)
    case (Suc n)
    obtain e w' where "probeOnce (qids i) (exchanges i) f w = Some (e, w')" using probeOnce_returns by (metis surj_pair)
    with Suc show ?case by (cases e) auto
  qed simp
  then show ?thesis by (simp add: probe_def Let_def)
qed

section \<open>Answers that are read back\<close>

definition put16 :: "nat \<Rightarrow> bytes" where
  "put16 n = [of_nat (n div 256), of_nat n]"

text \<open>A response: a header, the question, and records that point to the question's name.\<close>

definition dns_header :: "nat \<Rightarrow> nat \<Rightarrow> bytes" where
  "dns_header rcode n = [0, 0, 128, of_nat rcode, 0, 1] @ put16 n @ [0, 0, 0, 0]"

definition rr_bytes :: "nat \<times> bytes \<Rightarrow> bytes" where
  "rr_bytes a = [192, 12] @ put16 (fst a) @ [0, 1, 0, 0, 0, 0] @ put16 (length (snd a)) @ snd a"

definition dns_reply :: "bytes \<Rightarrow> nat \<Rightarrow> nat \<Rightarrow> (nat \<times> bytes) list \<Rightarrow> bytes" where
  "dns_reply qname qtype rcode as = dns_header rcode (length as) @ qname @ put16 qtype @ [0, 1] @ concat (map rr_bytes as)"

lemma put16_length [simp]: "length (put16 n) = 2" "length (dns_header r n) = 12" "length (rr_bytes a) = 12 + length (snd a)"
  by (simp_all add: put16_def dns_header_def rr_bytes_def)

lemma be16_put16:
  assumes "n < 65536" "i = length pre"
  shows "be16 (pre @ put16 n @ post) i = n"
proof -
  have "unat (of_nat (n div 256) :: byte) = n div 256" using assms by (simp add: unsigned_of_nat take_bit_nat_eq_self less_mult_imp_div_less)
  moreover have "unat (of_nat n :: byte) = n mod 256" by (simp add: unsigned_of_nat take_bit_eq_mod)
  ultimately show ?thesis by (simp add: be16_def put16_def nth_append assms(2))
qed

lemma question_walk:
  assumes "encode_labels ls = Some qn"
  shows "question_end (pre @ qn @ post) (length pre) = Some (Some (length pre + length qn))"
  using assms
proof (induction ls arbitrary: pre qn)
  case Nil
  then have "qn = [0]" by simp
  then show ?case by (subst question_end.simps) simp
next
  case (Cons l ls)
  then obtain b where b: "l \<noteq> []" "length l \<le> 63" "encode_labels ls = Some b" "qn = of_nat (length l) # str_bytes l @ b"
    by (auto split: if_splits)
  have u: "unat (of_nat (length l) :: byte) = length l" using b(2) by (simp add: unsigned_of_nat take_bit_nat_eq_self)
  then have nz: "(of_nat (length l) :: byte) \<noteq> 0" using b(1) by (metis length_0_conv unsigned_0)
  have sl: "length (str_bytes l) = length l" by (simp add: str_bytes_def)
  have "question_end (pre @ qn @ post) (length pre) = question_end (pre @ qn @ post) (length pre + 1 + length l)"
    by (subst question_end.simps) (simp add: b(4) nz u nth_append)
  also have "\<dots> = question_end ((pre @ of_nat (length l) # str_bytes l) @ b @ post) (length (pre @ of_nat (length l) # str_bytes l))"
    by (simp add: b(4) sl)
  also have "\<dots> = Some (Some (length (pre @ of_nat (length l) # str_bytes l) + length b))" by (rule Cons.IH [OF b(3)])
  finally show ?case by (simp add: b(4) sl)
qed

lemma answer_walk:
  assumes "\<forall>a \<in> set as. fst a < 65536 \<and> length (snd a) < 65536"
  shows "answer_loop (pre @ concat (map rr_bytes as)) rcode (length as) (length pre) acc
    = Some (Parsed (acc @ concat (map (\<lambda>a. rdata_answer (fst a) (snd a)) as)) rcode None)"
  using assms
proof (induction as arbitrary: pre acc)
  case (Cons a as)
  let ?m = "pre @ concat (map rr_bytes (a # as))" and ?rest = "concat (map rr_bytes as)"
  have o: "owner_skip ?m (length pre) = Some (Some 2)" by (simp add: owner_skip_def rr_bytes_def nth_append)
  have t: "be16 ?m (length pre + 2) = fst a"
    using be16_put16 [of "fst a" "length pre + 2" "pre @ [192, 12]" "[0, 1, 0, 0, 0, 0] @ put16 (length (snd a)) @ snd a @ ?rest"] Cons.prems by (simp add: rr_bytes_def)
  have d: "be16 ?m (length pre + 2 + 8) = length (snd a)"
    using be16_put16 [of "length (snd a)" "length pre + 2 + 8" "pre @ [192, 12] @ put16 (fst a) @ [0, 1, 0, 0, 0, 0]" "snd a @ ?rest"] Cons.prems by (simp add: rr_bytes_def)
  have r: "take (length (snd a)) (drop (length pre + 2 + 10) ?m) = snd a" by (simp add: rr_bytes_def put16_def)
  have l: "length ?m = length pre + 12 + length (snd a) + length ?rest" by simp
  have "answer_loop ?m rcode (length (a # as)) (length pre) acc
    = answer_loop ?m rcode (length as) (length pre + 2 + 10 + length (snd a)) (acc @ rdata_answer (fst a) (snd a))"
    by (simp only: list.size(4) add_Suc_right add_0_right answer_loop.simps o option.case t d r l Let_def) simp
  also have "\<dots> = answer_loop ((pre @ rr_bytes a) @ ?rest) rcode (length as) (length (pre @ rr_bytes a)) (acc @ rdata_answer (fst a) (snd a))" by (simp add: ac_simps)
  also have "\<dots> = Some (Parsed ((acc @ rdata_answer (fst a) (snd a)) @ concat (map (\<lambda>a. rdata_answer (fst a) (snd a)) as)) rcode None)"
    by (rule Cons.IH) (use Cons.prems in simp)
  finally show ?case by simp
qed simp

lemma header_fields:
  assumes "rcode < 16" "n < 65536"
  shows "be16 (dns_header rcode n @ rest) 2 mod 16 = rcode" "be16 (dns_header rcode n @ rest) 6 = n"
proof -
  have "unat (of_nat rcode :: byte) = rcode" using assms(1) by (simp add: unsigned_of_nat take_bit_nat_eq_self)
  then have "be16 (dns_header rcode n @ rest) 2 = 128 * 256 + rcode" by (simp add: be16_def dns_header_def)
  moreover have "(128 * 256 + rcode) mod 16 = rcode" using assms(1) by presburger
  ultimately show "be16 (dns_header rcode n @ rest) 2 mod 16 = rcode" by simp
  show "be16 (dns_header rcode n @ rest) 6 = n"
    using be16_put16 [OF assms(2), of 6 "[0, 0, 128, of_nat rcode, 0, 1]" "[0, 0, 0, 0] @ rest"] by (simp add: dns_header_def)
qed

lemma parse_question:
  assumes "encodeName name = Some qn" "rcode < 16" "n < 65536"
  shows "parseAnswer (dns_header rcode n @ qn @ put16 qt @ [0, 1] @ rest)
    = answer_loop (dns_header rcode n @ qn @ put16 qt @ [0, 1] @ rest) rcode n (length (dns_header rcode n @ qn @ put16 qt @ [0, 1])) []"
proof -
  have "question_end (dns_header rcode n @ qn @ put16 qt @ [0, 1] @ rest) (length (dns_header rcode n)) = Some (Some (length (dns_header rcode n) + length qn))"
    using assms(1) unfolding encodeName_def by (rule question_walk)
  then show ?thesis using header_fields [OF assms(2,3)] by (simp add: parseAnswer_def Let_def)
qed



section \<open>A datagram that stops the probe\<close>

lemma owner_runs_out: "length msg \<le> pos + skip + 12 \<Longrightarrow> \<forall>i \<in> {pos..<length msg}. msg ! i = 63 \<Longrightarrow> pos \<le> pos + skip \<Longrightarrow> owner_length msg pos skip = Some None"
  by (subst owner_length.simps, subst owner_length.simps) auto

lemma owner_panics: "pos + 12 \<le> length msg \<Longrightarrow> owner_skip msg pos = Some None \<Longrightarrow> answer_loop msg rcode (Suc n) pos acc = Some ParsePanic"
  by simp

text \<open>
  Whatever the probe asks for, a server that answers with one record whose owner name runs out of the datagram
  makes it panic.
\<close>

theorem dns_crash:
  assumes "flag f ''server'' \<noteq> []" "encodeName (flag f ''name'') = Some qn" "map upper (flag f ''type'') = ''A''" "length qn \<le> 255"
  shows "probeOnce qid (\<lambda>q. Inr (dns_header 0 1 @ qn @ put16 1 @ [0, 1] @ replicate 12 63)) f w = Some (Panics, w)"
proof -
  let ?m = "dns_header 0 1 @ qn @ put16 1 @ [0, 1] @ replicate 12 63" and ?p = "length (dns_header 0 1 @ qn @ put16 1 @ [0, 1])"
  have "(pre @ replicate 12 63) ! i = (63 :: byte)" if "length pre \<le> i" "i < length pre + 12" for i and pre :: bytes
    using that by (simp add: nth_append)
  from this [of "dns_header 0 1 @ qn @ put16 1 @ [0, 1]"] have "?m ! i = 63" if "?p \<le> i" "i < length ?m" for i
    using that by (simp only: append_assoc) simp
  moreover have "length ?m = ?p + 12" by simp
  ultimately have "owner_skip ?m ?p = Some None"
    unfolding owner_skip_def by (simp add: owner_runs_out)
  then have "answer_loop ?m 0 (Suc 0) ?p [] = Some ParsePanic" by (intro owner_panics) simp_all
  then have "parseAnswer ?m = Some ParsePanic" using parse_question [OF assms(2), of 0 1 1 "replicate 12 63"] by simp
  moreover have "take 512 ?m = ?m" using assms(4) by simp
  moreover have "flag f ''name'' \<noteq> []" using assms(2) by (auto simp: encodeName_def trim_dot_def)
  ultimately show ?thesis using assms(1-3) by (simp add: probeOnce_def Let_def makeQuery_def)
qed

theorem dns_crash_witness:
  "\<forall>w. probeOnce 7 (\<lambda>q. Inr (dns_header 0 1 @ [1, 97, 0] @ put16 1 @ [0, 1] @ replicate 12 63))
     (flags [''--server'', ''s:53'', ''--name'', ''a'', ''--type'', ''a'']) w = Some (Panics, w)"
  by (intro allI, rule dns_crash) (simp_all add: flags_def flag_def encodeName_def trim_dot_def str_bytes_def upper_def, code_simp)

end
