(* ===== verification/Identity.thy ===== *)
theory Identity
  imports Cli
begin

text \<open>
  The workload issuer: \<open>identity.go\<close>, \<open>mtls.go\<close> and the commands of \<open>cmd/identity\<close>.  The package crypto/x509 is a
  parameter: creating and parsing certificates and revocation lists, the signature of a list and the verification of a chain.  Times
  are Unix seconds, key usages are names.
\<close>

section \<open>Certificates and lists\<close>

record Certificate =
  ct_Serial :: int
  ct_CommonName :: string
  ct_DNSNames :: "string list"
  ct_NotBefore :: int
  ct_NotAfter :: int
  ct_KeyUsage :: "string list"
  ct_ExtKeyUsage :: "string list"
  ct_IsCA :: bool
  ct_CRLDistributionPoints :: "string list"
  ct_PublicKey :: bytes

record RevokedCert =
  rc_SerialNumber :: int
  rc_RevokedAt :: int

record RevocationList =
  rl_Issuer :: string
  rl_Number :: int
  rl_ThisUpdate :: int
  rl_NextUpdate :: int
  rl_Entries :: "RevokedCert list"

text \<open>\<open>x_create tmpl parent pub key\<close> and \<open>l_create tmpl issuer key\<close> give DER, or None for an error.\<close>

record x509 =
  x_create :: "Certificate \<Rightarrow> Certificate \<Rightarrow> bytes \<Rightarrow> bytes \<Rightarrow> bytes option"
  x_parse :: "bytes \<Rightarrow> Certificate option"
  x_verify :: "Certificate \<Rightarrow> Certificate \<Rightarrow> int \<Rightarrow> bool"
  l_create :: "RevocationList \<Rightarrow> Certificate \<Rightarrow> bytes \<Rightarrow> bytes option"
  l_parse :: "bytes \<Rightarrow> RevocationList option"
  l_signed :: "bytes \<Rightarrow> Certificate \<Rightarrow> bool"

datatype id_error = CreateFails | BadCertificate | BadList | BadSignature | OutsideWindow | ChainInvalid | NameMismatch

section \<open>\<open>identity.go\<close>\<close>

definition cert_template :: "int \<Rightarrow> string \<Rightarrow> int \<Rightarrow> int \<Rightarrow> Certificate" where
  "cert_template serial name nb na = \<lparr>ct_Serial = serial, ct_CommonName = name, ct_DNSNames = [], ct_NotBefore = nb, ct_NotAfter = na,
     ct_KeyUsage = [], ct_ExtKeyUsage = [], ct_IsCA = False, ct_CRLDistributionPoints = [], ct_PublicKey = []\<rparr>"

definition NewIdentityCA :: "x509 \<Rightarrow> bytes \<Rightarrow> string \<Rightarrow> int \<Rightarrow> int \<Rightarrow> id_error + (Certificate \<times> bytes)" where
  "NewIdentityCA X key name notBefore notAfter =
     (let tmpl = (cert_template 1 name notBefore notAfter)\<lparr>ct_KeyUsage := [''CertSign'', ''CRLSign'', ''DigitalSignature''], ct_IsCA := True\<rparr> in
      (case x_create X tmpl tmpl (ed_public key) key of
         None \<Rightarrow> Inl CreateFails
       | Some der \<Rightarrow> (case x_parse X der of None \<Rightarrow> Inl BadCertificate | Some cert \<Rightarrow> Inr (cert, der))))"

definition ParseIdentityCA :: "x509 \<Rightarrow> bytes \<Rightarrow> id_error + Certificate" where
  "ParseIdentityCA X der = (case x_parse X der of None \<Rightarrow> Inl BadCertificate | Some c \<Rightarrow> Inr c)"

definition IssueWorkloadCertWithDP ::
  "x509 \<Rightarrow> int \<Rightarrow> Certificate \<Rightarrow> bytes \<Rightarrow> bytes \<Rightarrow> string \<Rightarrow> int \<Rightarrow> int \<Rightarrow> string \<Rightarrow> id_error + bytes" where
  "IssueWorkloadCertWithDP X now ca caKey subject ident serial ttl crlDP =
     (let tmpl = (cert_template serial ident now (now + ttl))\<lparr>ct_DNSNames := [ident], ct_KeyUsage := [''DigitalSignature''],
            ct_ExtKeyUsage := [''ClientAuth'', ''ServerAuth'']\<rparr>;
          tmpl' = (if crlDP \<noteq> [] then tmpl\<lparr>ct_CRLDistributionPoints := [crlDP]\<rparr> else tmpl)
      in (case x_create X tmpl' ca subject caKey of None \<Rightarrow> Inl CreateFails | Some der \<Rightarrow> Inr der))"

definition IssueWorkloadCert ::
  "x509 \<Rightarrow> int \<Rightarrow> Certificate \<Rightarrow> bytes \<Rightarrow> bytes \<Rightarrow> string \<Rightarrow> int \<Rightarrow> int \<Rightarrow> id_error + bytes" where
  "IssueWorkloadCert X now ca caKey subject ident serial ttl = IssueWorkloadCertWithDP X now ca caKey subject ident serial ttl []"

definition NewCRL ::
  "x509 \<Rightarrow> Certificate \<Rightarrow> bytes \<Rightarrow> int \<Rightarrow> RevokedCert list \<Rightarrow> int \<Rightarrow> int \<Rightarrow> id_error + bytes" where
  "NewCRL X ca caKey number revoked thisUpdate nextUpdate =
     (case l_create X \<lparr>rl_Issuer = ct_CommonName ca, rl_Number = number, rl_ThisUpdate = thisUpdate, rl_NextUpdate = nextUpdate,
        rl_Entries = revoked\<rparr> ca caKey of None \<Rightarrow> Inl CreateFails | Some der \<Rightarrow> Inr der)"

definition VerifyCRL :: "x509 \<Rightarrow> bytes \<Rightarrow> bytes \<Rightarrow> int \<Rightarrow> id_error + RevocationList" where
  "VerifyCRL X crlDER caDER now = (case l_parse X crlDER of
     None \<Rightarrow> Inl BadList
   | Some rl \<Rightarrow> (case x_parse X caDER of
        None \<Rightarrow> Inl BadCertificate
      | Some ca \<Rightarrow>
         if \<not> l_signed X crlDER ca then Inl BadSignature
         else if now < rl_ThisUpdate rl \<or> rl_NextUpdate rl < now then Inl OutsideWindow
         else Inr rl))"

definition CheckRevoked :: "x509 \<Rightarrow> bytes \<Rightarrow> bytes \<Rightarrow> id_error + bool" where
  "CheckRevoked X leafDER crlDER = (case x_parse X leafDER of
     None \<Rightarrow> Inl BadCertificate
   | Some leaf \<Rightarrow> (case l_parse X crlDER of
        None \<Rightarrow> Inl BadList
      | Some rl \<Rightarrow> Inr (\<exists>e \<in> set (rl_Entries rl). rc_SerialNumber e = ct_Serial leaf)))"

text \<open>\<open>seen\<close> holds the serials of the old list only; the loop over the new ones does not extend it.\<close>

definition AppendRevocation ::
  "x509 \<Rightarrow> Certificate \<Rightarrow> bytes \<Rightarrow> bytes \<Rightarrow> int \<Rightarrow> RevokedCert list \<Rightarrow> int \<Rightarrow> int \<Rightarrow> id_error + bytes" where
  "AppendRevocation X ca caKey oldCRL number revoked thisUpdate nextUpdate = (case l_parse X oldCRL of
     None \<Rightarrow> Inl BadList
   | Some old \<Rightarrow>
      (let seen = map rc_SerialNumber (rl_Entries old);
           combined = rl_Entries old @ filter (\<lambda>r. rc_SerialNumber r \<notin> set seen) revoked
       in (case l_create X \<lparr>rl_Issuer = ct_CommonName ca, rl_Number = number, rl_ThisUpdate = thisUpdate, rl_NextUpdate = nextUpdate,
             rl_Entries = combined\<rparr> ca caKey of None \<Rightarrow> Inl CreateFails | Some der \<Rightarrow> Inr der)))"

definition VerifyWorkloadChain :: "x509 \<Rightarrow> bytes \<Rightarrow> bytes \<Rightarrow> int \<Rightarrow> id_error option" where
  "VerifyWorkloadChain X leafDER caDER now = (case x_parse X leafDER of
     None \<Rightarrow> Some BadCertificate
   | Some leaf \<Rightarrow> (case x_parse X caDER of
        None \<Rightarrow> Some BadCertificate
      | Some ca \<Rightarrow> if x_verify X leaf ca now then None else Some ChainInvalid))"

section \<open>\<open>mtls.go\<close>\<close>

record tls_config =
  tc_Certificate :: bytes
  tc_Key :: bytes
  tc_Roots :: "Certificate list"
  tc_ClientCAs :: "Certificate list"
  tc_ClientAuth :: string
  tc_MinVersion :: int

definition MutualTLSConfig :: "x509 \<Rightarrow> bytes \<Rightarrow> bytes \<Rightarrow> bytes \<Rightarrow> id_error + tls_config" where
  "MutualTLSConfig X caDER leafDER key = (case x_parse X caDER of
     None \<Rightarrow> Inl BadCertificate
   | Some ca \<Rightarrow> Inr \<lparr>tc_Certificate = leafDER, tc_Key = key, tc_Roots = [ca], tc_ClientCAs = [ca],
       tc_ClientAuth = ''RequireAndVerifyClientCert'', tc_MinVersion = 0x304\<rparr>)"

definition VerifyPeerIdentity :: "Certificate \<Rightarrow> string \<Rightarrow> id_error option" where
  "VerifyPeerIdentity peer want = (if ct_CommonName peer \<noteq> want then Some NameMismatch else None)"

section \<open>The commands\<close>

text \<open>
  \<open>dur\<close> is \<open>time.ParseDuration\<close> in seconds, \<open>rfc\<close> and \<open>rfc_parse\<close> the RFC 3339 form of a time, \<open>pem\<close> the PEM form of a
  list.  A key file that is neither a key nor a seed makes \<open>NewKeyFromSeed\<close> panic (None).
\<close>

record id_env =
  ie_now :: int
  ie_dur :: "string \<Rightarrow> int option"
  ie_rfc :: "int \<Rightarrow> string"
  ie_rfc_parse :: "string \<Rightarrow> int option"
  ie_pem :: "bytes \<Rightarrow> bytes"
  ie_can_write :: "string \<Rightarrow> bool"
  ie_fresh :: bytes

definition keyFromFile :: "prims \<Rightarrow> bytes \<Rightarrow> bytes option" where
  "keyFromFile P b = (if length b = 64 then Some b else if length b = 32 then Some (ed_newkey P b) else None)"

definition lib_err :: "id_error \<Rightarrow> cli_error" where
  "lib_err e = Library (case e of CreateFails \<Rightarrow> ''create'' | BadCertificate \<Rightarrow> ''certificate'' | BadList \<Rightarrow> ''list'' | BadSignature \<Rightarrow> ''signature''
     | OutsideWindow \<Rightarrow> ''window'' | ChainInvalid \<Rightarrow> ''chain'' | NameMismatch \<Rightarrow> ''name'')"

text \<open>The key file of \<open>--key\<close>: hex of a key or of a seed.\<close>

definition load_key :: "prims \<Rightarrow> string \<Rightarrow> world \<Rightarrow> cli_error + bytes option" where
  "load_key P p w = (case ReadFile p w of Inl e \<Rightarrow> Inl e
     | Inr raw \<Rightarrow> (case hex_decode (bytes_str raw) of None \<Rightarrow> Inl BadHex | Some seed \<Rightarrow> Inr (keyFromFile P seed)))"

definition or_default :: "string \<Rightarrow> string \<Rightarrow> string" where
  "or_default s d = (if s = [] then d else s)"

definition write_exit :: "(string \<Rightarrow> bool) \<Rightarrow> string \<Rightarrow> bytes \<Rightarrow> (world \<Rightarrow> exit \<times> world) \<Rightarrow> world \<Rightarrow> exit \<times> world" where
  "write_exit can p b k w = (case WriteFile can p b w of (Some e, w') \<Rightarrow> (Fails e, w') | (None, w') \<Rightarrow> k w')"

definition mintCA :: "prims \<Rightarrow> x509 \<Rightarrow> id_env \<Rightarrow> string list \<Rightarrow> command" where
  "mintCA P X E args w =
     (let f = flags args in
      if flag f ''key'' = [] then (Fails (Msg ''usage: ca --key <file> [--name <cn>] [--out ca.der]''), w)
      else (case load_key P (flag f ''key'') w of
          Inl e \<Rightarrow> (Fails e, w)
        | Inr None \<Rightarrow> (Panics, w)
        | Inr (Some key) \<Rightarrow> (case NewIdentityCA X key (or_default (flag f ''name'') ''post-recovery CA'') (ie_now E - 3600) (ie_now E + 31536000) of
             Inl e \<Rightarrow> (Fails (lib_err e), w)
           | Inr (_, der) \<Rightarrow> write_exit (ie_can_write E) (or_default (flag f ''out'') ''ca.der'') der (\<lambda>w'. (Done, w')) w)))"

definition issue_serial :: "(string \<times> string) list \<Rightarrow> int option" where
  "issue_serial f = (if flag f ''serial'' = [] then Some 1 else ParseInt (flag f ''serial''))"

definition issue_ttl :: "id_env \<Rightarrow> (string \<times> string) list \<Rightarrow> int option" where
  "issue_ttl E f = (if flag f ''ttl'' = [] then Some 600 else ie_dur E (flag f ''ttl''))"

text \<open>\<open>ie_fresh\<close> is the key pair \<open>GenerateKey\<close> returns; \<open>ie_rfc\<close> also renders the lifetime.\<close>

definition issue :: "prims \<Rightarrow> x509 \<Rightarrow> id_env \<Rightarrow> string list \<Rightarrow> command" where
  "issue P X E args w =
     (let f = flags args in
      if flag f ''ca'' = [] \<or> flag f ''key'' = [] \<or> flag f ''identity'' = []
      then (Fails (Msg ''usage: issue --ca <ca.der> --key <ca.key> --identity <name> [--serial N] [--ttl 10m] [--out leaf.der]''), w)
      else (case ReadFile (flag f ''ca'') w of Inl e \<Rightarrow> (Fails e, w)
        | Inr caDER \<Rightarrow> (case ParseIdentityCA X caDER of Inl e \<Rightarrow> (Fails (lib_err e), w)
        | Inr ca \<Rightarrow> (case load_key P (flag f ''key'') w of Inl e \<Rightarrow> (Fails e, w)
        | Inr key \<Rightarrow> (case issue_serial f of None \<Rightarrow> (Fails BadNumber, w)
        | Some serial \<Rightarrow> (case issue_ttl E f of None \<Rightarrow> (Fails BadNumber, w)
        | Some ttl \<Rightarrow> (case key of None \<Rightarrow> (Panics, w)
        | Some caKey \<Rightarrow> (case IssueWorkloadCertWithDP X (ie_now E) ca caKey (ed_public (ie_fresh E)) (flag f ''identity'') serial ttl (flag f ''crl-url'') of
             Inl e \<Rightarrow> (Fails (lib_err e), w)
           | Inr leaf \<Rightarrow>
              let out = or_default (flag f ''out'') ''leaf.der'';
                  fin = (\<lambda>w'. (Done, println (''issued '' @ flag f ''identity'' @ '' (serial '' @ fmt_int serial @ '', ttl '' @ ie_rfc E ttl @ '') -> '' @ out) w'))
              in write_exit (ie_can_write E) out leaf (\<lambda>w1.
                   if flag f ''key-out'' = [] then fin w1
                   else write_exit (ie_can_write E) (flag f ''key-out'') (str_bytes (hex_encode (ie_fresh E)))
                     (\<lambda>w2. fin (println (''  leaf key -> '' @ flag f ''key-out'' @ '' (0600)'') w2)) w1) w))))))))"

definition verify_cmd :: "x509 \<Rightarrow> id_env \<Rightarrow> string list \<Rightarrow> command" where
  "verify_cmd X E args w =
     (let f = flags args in
      if flag f ''cert'' = [] \<or> flag f ''ca'' = [] then (Fails (Msg ''usage: verify --cert <leaf.der> --ca <ca.der> [--crl <crl.der>]''), w)
      else (case ReadFile (flag f ''cert'') w of Inl e \<Rightarrow> (Fails e, w)
        | Inr leaf \<Rightarrow> (case ReadFile (flag f ''ca'') w of Inl e \<Rightarrow> (Fails e, w)
        | Inr caDER \<Rightarrow> (case VerifyWorkloadChain X leaf caDER (ie_now E) of
             Some e \<Rightarrow> (Fails (Wrapped ''VERIFY: FAIL'' (lib_err e)), w)
           | None \<Rightarrow>
              if flag f ''crl'' = [] then (Done, println ''VERIFY: PASS'' w)
              else (case ReadFile (flag f ''crl'') w of Inl e \<Rightarrow> (Fails e, w)
                | Inr crlDER \<Rightarrow> (case VerifyCRL X crlDER caDER (ie_now E) of
                     Inl e \<Rightarrow> (Fails (Wrapped ''VERIFY: FAIL (CRL)'' (lib_err e)), w)
                   | Inr _ \<Rightarrow> (case CheckRevoked X leaf crlDER of
                        Inl e \<Rightarrow> (Fails (Wrapped ''VERIFY: FAIL'' (lib_err e)), w)
                      | Inr True \<Rightarrow> (Fails (Msg ''VERIFY: FAIL (certificate is REVOKED)''), w)
                      | Inr False \<Rightarrow> (Done, println ''VERIFY: PASS'' w))))))))"

text \<open>\<open>big.Int.SetString(s, 10)\<close>.\<close>

definition big_int :: "string \<Rightarrow> int option" where
  "big_int s = (case s of
     [] \<Rightarrow> None
   | c # cs \<Rightarrow> if c = CHR ''-'' then (if cs = [] then None else map_option uminus (digits_val 0 cs))
       else if c = CHR ''+'' then (if cs = [] then None else digits_val 0 cs) else digits_val 0 s)"

definition serial_list :: "string \<Rightarrow> int list option" where
  "serial_list s = those (map (\<lambda>p. big_int (TrimSpace p)) (split_on CHR '','' s))"

definition next_update :: "id_env \<Rightarrow> (string \<times> string) list \<Rightarrow> int option" where
  "next_update E f = (if flag f ''next-update'' = [] then Some (ie_now E + 86400)
     else map_option (\<lambda>d. ie_now E + d) (ie_dur E (flag f ''next-update'')))"

text \<open>The list to write and its number: the loaded one plus one, or 1.\<close>

definition revoked_list ::
  "x509 \<Rightarrow> id_env \<Rightarrow> string \<Rightarrow> bytes \<Rightarrow> Certificate \<Rightarrow> bytes \<Rightarrow> RevokedCert list \<Rightarrow> int \<Rightarrow> world \<Rightarrow> cli_error + (int \<times> bytes)" where
  "revoked_list X E crl caDER ca caKey revoked nxt w =
     (if crl = [] then (case NewCRL X ca caKey 1 revoked (ie_now E) nxt of Inl e \<Rightarrow> Inl (lib_err e) | Inr der \<Rightarrow> Inr (1, der))
      else (case ReadFile crl w of Inl e \<Rightarrow> Inl e
        | Inr old \<Rightarrow> (case VerifyCRL X old caDER (ie_now E) of Inl e \<Rightarrow> Inl (lib_err e)
        | Inr oldRL \<Rightarrow>
           let number = wrap64 (wrap64 (rl_Number oldRL) + 1) in
           (case AppendRevocation X ca caKey old number revoked (ie_now E) nxt of Inl e \<Rightarrow> Inl (lib_err e) | Inr der \<Rightarrow> Inr (number, der)))))"

text \<open>Where the list goes, and its PEM form beside it when asked for.\<close>

definition crl_path :: "(string \<times> string) list \<Rightarrow> string" where
  "crl_path f = or_default (or_default (flag f ''out'') (flag f ''crl'')) ''crl.der''"

definition write_crl :: "id_env \<Rightarrow> (string \<times> string) list \<Rightarrow> int \<Rightarrow> nat \<Rightarrow> int \<Rightarrow> bytes \<Rightarrow> command" where
  "write_crl E f number n nxt der w =
     (let outPath = crl_path f;
          line = ''CRL #'' @ fmt_int number @ '': '' @ fmt_int (int n) @ '' revoked, next update '' @ ie_rfc E nxt @ '' -> '' @ outPath
      in write_exit (ie_can_write E) outPath der (\<lambda>w1.
           if flag f ''pem'' = [] then (Done, println line w1)
           else write_exit (ie_can_write E) (outPath @ ''.pem'') (ie_pem E der)
             (\<lambda>w2. (Done, println (line @ '' (+ '' @ outPath @ ''.pem)'') w2)) w1) w)"

definition revoke :: "prims \<Rightarrow> x509 \<Rightarrow> id_env \<Rightarrow> string list \<Rightarrow> command" where
  "revoke P X E args w =
     (let f = flags args in
      if flag f ''ca'' = [] \<or> flag f ''key'' = [] \<or> flag f ''serial'' = []
      then (Fails (Msg ''usage: revoke --ca <ca.der> --key <ca.key> --crl <crl.der> --serial <N[,N...]> [--out crl.der] [--next-update 24h] [--pem]''), w)
      else (case ReadFile (flag f ''ca'') w of Inl e \<Rightarrow> (Fails e, w)
        | Inr caDER \<Rightarrow> (case ParseIdentityCA X caDER of Inl e \<Rightarrow> (Fails (lib_err e), w)
        | Inr ca \<Rightarrow> (case load_key P (flag f ''key'') w of Inl e \<Rightarrow> (Fails e, w)
        | Inr None \<Rightarrow> (Panics, w)
        | Inr (Some caKey) \<Rightarrow> (case next_update E f of None \<Rightarrow> (Fails BadNumber, w)
        | Some nxt \<Rightarrow> (case serial_list (flag f ''serial'') of None \<Rightarrow> (Fails (Msg ''bad serial''), w)
        | Some serials \<Rightarrow>
           let revoked = map (\<lambda>s. \<lparr>rc_SerialNumber = s, rc_RevokedAt = ie_now E\<rparr>) serials in
           (case revoked_list X E (flag f ''crl'') caDER ca caKey revoked nxt w of Inl e \<Rightarrow> (Fails e, w)
            | Inr (number, der) \<Rightarrow> write_crl E f number (length revoked) nxt der w)))))))"

definition crl_cmd :: "x509 \<Rightarrow> id_env \<Rightarrow> string list \<Rightarrow> command" where
  "crl_cmd X E args w =
     (let f = flags args in
      if flag f ''ca'' = [] \<or> flag f ''file'' = [] then (Fails (Msg ''usage: crl --ca <ca.der> --file <crl.der> [--now <RFC3339>]''), w)
      else (case ReadFile (flag f ''ca'') w of Inl e \<Rightarrow> (Fails e, w)
        | Inr caDER \<Rightarrow> (case ReadFile (flag f ''file'') w of Inl e \<Rightarrow> (Fails e, w)
        | Inr crlDER \<Rightarrow> (case (if flag f ''now'' = [] then Some (ie_now E) else ie_rfc_parse E (flag f ''now'')) of
             None \<Rightarrow> (Fails BadNumber, w)
           | Some now \<Rightarrow> (case VerifyCRL X crlDER caDER now of
                Inl e \<Rightarrow> (Fails (Wrapped ''CRL: INVALID'' (lib_err e)), w)
              | Inr rl \<Rightarrow> (Done, print_all
                  ((''CRL: VALID #'' @ fmt_int (wrap64 (rl_Number rl)) @ '' (this update '' @ ie_rfc E (rl_ThisUpdate rl) @ '', next ''
                     @ ie_rfc E (rl_NextUpdate rl) @ '', '' @ fmt_int (int (length (rl_Entries rl))) @ '' revoked)'')
                   # map (\<lambda>e. ''  serial '' @ fmt_int (rc_SerialNumber e) @ '' revoked '' @ ie_rfc E (rc_RevokedAt e)) (rl_Entries rl)) w))))))"

definition identity_main :: "prims \<Rightarrow> x509 \<Rightarrow> id_env \<Rightarrow> string list \<Rightarrow> command" where
  "identity_main P X E args w = (case args of
     [] \<Rightarrow> (Fails (Msg ''usage''), w)
   | c # rest \<Rightarrow>
      if c = ''ca'' then mintCA P X E rest w
      else if c = ''issue'' then issue P X E rest w
      else if c = ''verify'' then verify_cmd X E rest w
      else if c = ''revoke'' then revoke P X E rest w
      else if c = ''crl'' then crl_cmd X E rest w
      else (Fails (Msg ''usage''), w))"

end
