(* ===== verification/IdentityProps.thy ===== *)
theory IdentityProps
  imports Identity
begin

text \<open>
  Revocation end to end: what the revoke command writes is what the verify command refuses.  \<open>x509_ok\<close> is what the
  program relies on of crypto/x509: a created certificate or list parses to its template, and a list created with the key of
  its issuer carries a valid signature.
\<close>

definition x509_ok :: "x509 \<Rightarrow> bool" where
  "x509_ok X \<longleftrightarrow> (\<forall>t c pub k der. x_create X t c pub k = Some der \<longrightarrow> x_parse X der = Some (t\<lparr>ct_PublicKey := pub\<rparr>))
     \<and> (\<forall>t c k der. l_create X t c k = Some der \<longrightarrow> l_parse X der = Some t)
     \<and> (\<forall>t c k der. l_create X t c k = Some der \<longrightarrow> ct_PublicKey c = ed_public k \<longrightarrow> l_signed X der c)"

section \<open>The list a revocation writes\<close>

definition serials_of :: "RevocationList \<Rightarrow> int set" where
  "serials_of rl = rc_SerialNumber ` set (rl_Entries rl)"

definition old_serials :: "x509 \<Rightarrow> string \<Rightarrow> world \<Rightarrow> int set" where
  "old_serials X crl w = (if crl = [] then {} else case ReadFile crl w of Inl _ \<Rightarrow> {} | Inr b \<Rightarrow>
     (case l_parse X b of None \<Rightarrow> {} | Some rl \<Rightarrow> serials_of rl))"

lemma revoked_list_spec:
  assumes "x509_ok X" "revoked_list X E crl caDER ca caKey revoked nxt w = Inr (number, der)"
  obtains rl where "l_parse X der = Some rl" "rl_ThisUpdate rl = ie_now E" "rl_NextUpdate rl = nxt" "rl_Number rl = number"
    "serials_of rl = old_serials X crl w \<union> rc_SerialNumber ` set revoked" "ct_PublicKey ca = ed_public caKey \<longrightarrow> l_signed X der ca"
proof (cases "crl = []")
  case True
  then have c: "l_create X \<lparr>rl_Issuer = ct_CommonName ca, rl_Number = 1, rl_ThisUpdate = ie_now E, rl_NextUpdate = nxt, rl_Entries = revoked\<rparr> ca caKey
      = Some der" "number = 1" using assms(2) by (auto simp: revoked_list_def NewCRL_def split: option.splits)
  have p: "l_parse X der = Some \<lparr>rl_Issuer = ct_CommonName ca, rl_Number = 1, rl_ThisUpdate = ie_now E, rl_NextUpdate = nxt, rl_Entries = revoked\<rparr>"
    "ct_PublicKey ca = ed_public caKey \<longrightarrow> l_signed X der ca" using assms(1) c(1) unfolding x509_ok_def by blast+
  show ?thesis by (rule that [OF p(1)]) (use p(2) c(2) True in \<open>simp_all add: serials_of_def old_serials_def\<close>)
next
  case False
  then obtain old rl where o: "ReadFile crl w = Inr old" "VerifyCRL X old caDER (ie_now E) = Inr rl"
    "number = wrap64 (wrap64 (rl_Number rl) + 1)" "AppendRevocation X ca caKey old number revoked (ie_now E) nxt = Inr der"
    using assms(2) by (auto simp: revoked_list_def Let_def split: sum.splits)
  have l: "l_parse X old = Some rl" using o(2) by (auto simp: VerifyCRL_def split: option.splits if_splits)
  let ?t = "\<lparr>rl_Issuer = ct_CommonName ca, rl_Number = number, rl_ThisUpdate = ie_now E, rl_NextUpdate = nxt,
     rl_Entries = rl_Entries rl @ filter (\<lambda>r. rc_SerialNumber r \<notin> set (map rc_SerialNumber (rl_Entries rl))) revoked\<rparr>"
  have "l_create X ?t ca caKey = Some der" using o(4) l by (auto simp: AppendRevocation_def Let_def split: option.splits)
  then have p: "l_parse X der = Some ?t" "ct_PublicKey ca = ed_public caKey \<longrightarrow> l_signed X der ca" using assms(1) unfolding x509_ok_def by blast+
  have "serials_of ?t = old_serials X crl w \<union> rc_SerialNumber ` set revoked" using False o(1) l by (auto simp: serials_of_def old_serials_def)
  then show ?thesis using p by (intro that [OF p(1)]) simp_all
qed

section \<open>The command\<close>

lemma write_exit_done:
  assumes "write_exit can p b k w = (Done, w')"
  obtains w1 where "k w1 = (Done, w')" "\<And>q. ReadFile q w1 = (if q = p then Inr b else ReadFile q w)"
proof -
  obtain x w1 where x: "WriteFile can p b w = (x, w1)" by fastforce
  then have "x = None" "k w1 = (Done, w')" using assms by (auto simp: write_exit_def split: option.splits)
  with x show ?thesis using that ReadFile_written by blast
qed

lemma write_crl_done:
  assumes "write_crl E f number n nxt der w = (Done, w')"
  shows "ReadFile (crl_path f) w' = Inr der \<and> (\<forall>q. q \<noteq> crl_path f \<longrightarrow> q \<noteq> crl_path f @ ''.pem'' \<longrightarrow> ReadFile q w' = ReadFile q w)"
  using assms unfolding write_crl_def Let_def
  by (elim write_exit_done) (auto split: if_splits elim!: write_exit_done)

lemma revoke_done:
  assumes "revoke P X E args w = (Done, w')"
  defines "f \<equiv> flags args"
  obtains caDER ca caKey nxt serials number der where "ReadFile (flag f ''ca'') w = Inr caDER" "x_parse X caDER = Some ca"
    "load_key P (flag f ''key'') w = Inr (Some caKey)" "next_update E f = Some nxt" "serial_list (flag f ''serial'') = Some serials"
    "revoked_list X E (flag f ''crl'') caDER ca caKey (map (\<lambda>s. \<lparr>rc_SerialNumber = s, rc_RevokedAt = ie_now E\<rparr>) serials) nxt w = Inr (number, der)"
    "write_crl E f number (length serials) nxt der w = (Done, w')"
proof -
  obtain caDER where 1: "ReadFile (flag f ''ca'') w = Inr caDER"
    using assms(1) by (auto simp: revoke_def f_def Let_def split: if_splits sum.splits)
  then obtain ca where 2: "x_parse X caDER = Some ca"
    using assms(1) by (auto simp: revoke_def f_def Let_def ParseIdentityCA_def split: if_splits sum.splits option.splits)
  obtain caKey where 3: "load_key P (flag f ''key'') w = Inr (Some caKey)"
    using assms(1) 1 2 by (auto simp: revoke_def f_def Let_def ParseIdentityCA_def split: if_splits sum.splits option.splits)
  obtain nxt where 4: "next_update E f = Some nxt"
    using assms(1) 1 2 3 by (auto simp: revoke_def f_def Let_def ParseIdentityCA_def split: if_splits option.splits)
  obtain serials where 5: "serial_list (flag f ''serial'') = Some serials"
    using assms(1) 1 2 3 4 by (auto simp: revoke_def f_def Let_def ParseIdentityCA_def split: if_splits option.splits)
  obtain number der where 6: "revoked_list X E (flag f ''crl'') caDER ca caKey (map (\<lambda>s. \<lparr>rc_SerialNumber = s, rc_RevokedAt = ie_now E\<rparr>) serials) nxt w = Inr (number, der)"
    using assms(1) 1 2 3 4 5 by (auto simp: revoke_def f_def Let_def ParseIdentityCA_def split: if_splits sum.splits)
  have 7: "write_crl E f number (length serials) nxt der w = (Done, w')"
    using assms(1) 1 2 3 4 5 6 by (auto simp: revoke_def f_def Let_def ParseIdentityCA_def split: if_splits)
  show ?thesis by (rule that [OF 1 2 3 4 5 6 7])
qed



subsection \<open>A concrete authority\<close>

definition demo_ca :: Certificate where
  "demo_ca = (cert_template 1 ''ca'' 0 1000)\<lparr>ct_IsCA := True, ct_PublicKey := replicate 32 0\<rparr>"

definition demo_leaf :: "int \<Rightarrow> Certificate" where
  "demo_leaf n = cert_template n ''w'' 0 1000"

definition demo_list :: "int \<Rightarrow> int \<Rightarrow> int \<Rightarrow> RevokedCert list \<Rightarrow> RevocationList" where
  "demo_list n a b es = \<lparr>rl_Issuer = ''ca'', rl_Number = n, rl_ThisUpdate = a, rl_NextUpdate = b, rl_Entries = es\<rparr>"

definition demo_lists :: "RevocationList list" where
  "demo_lists = [demo_list 1 0 200 [\<lparr>rc_SerialNumber = 5, rc_RevokedAt = 0\<rparr>],
     demo_list 2 100 86500 [\<lparr>rc_SerialNumber = 5, rc_RevokedAt = 0\<rparr>, \<lparr>rc_SerialNumber = 7, rc_RevokedAt = 100\<rparr>]]"

text \<open>A package that knows two lists, the authority and one leaf.\<close>

definition demo_x509 :: x509 where
  "demo_x509 = \<lparr>x_create = (\<lambda>t c p k. None), x_parse = (\<lambda>b. if b = [10] then Some demo_ca else if b = [11] then Some (demo_leaf 5) else None),
     x_verify = (\<lambda>l c t. True),
     l_create = (\<lambda>t c k. if t = demo_lists ! 0 then Some [0] else if t = demo_lists ! 1 then Some [1] else None),
     l_parse = (\<lambda>b. if b = [0] then Some (demo_lists ! 0) else if b = [1] then Some (demo_lists ! 1) else None), l_signed = (\<lambda>b c. True)\<rparr>"

lemma demo_x509_ok: "x509_ok demo_x509"
  by (simp add: x509_ok_def demo_x509_def)

definition demo_id_env :: id_env where
  "demo_id_env = \<lparr>ie_now = 100, ie_dur = (\<lambda>s. None), ie_rfc = (\<lambda>t. []), ie_rfc_parse = (\<lambda>s. None), ie_pem = (\<lambda>b. b), ie_can_write = (\<lambda>p. True), ie_fresh = []\<rparr>"

definition demo_id_world :: world where
  "demo_id_world = \<lparr>w_files = [(''ca.der'', [10]), (''ca.key'', str_bytes (hex_encode (replicate 64 0))), (''crl.der'', [0]), (''leaf.der'', [11])], w_out = []\<rparr>"

definition demo_revoke :: "string list" where
  "demo_revoke = [''--ca'', ''ca.der'', ''--key'', ''ca.key'', ''--crl'', ''crl.der'', ''--serial'', ''7'']"

lemma demo_revoke_flags:
  "flags demo_revoke = [(''ca'', ''ca.der''), (''key'', ''ca.key''), (''crl'', ''crl.der''), (''serial'', ''7'')]"
  by (simp add: flags_def demo_revoke_def)

lemma demo_key: "load_key P ''ca.key'' demo_id_world = Inr (Some (replicate 64 0))"
  by (simp add: load_key_def ReadFile_def demo_id_world_def hex_roundtrip keyFromFile_def)

lemma demo_serials: "serial_list ''7'' = Some [7]"
  by code_simp


end
