(* ===== verification/Compliance.thy ===== *)
theory Compliance
  imports Ensemble Access
begin

text \<open>
  The compliance report of \<open>compliance.go\<close>: the facts drawn from the evidence, the verdict of each control, the
  tables of the five frameworks with their tallies, and the findings.  The time of generation is an argument.
\<close>

section \<open>Data\<close>

text \<open>The em dash of the messages, in UTF-8.\<close>

definition mdash :: string where
  "mdash = [CHR 0xE2, CHR 0x80, CHR 0x94]"

datatype ControlStatus = StatusPass | StatusManual | StatusMissing

record ControlResult =
  cr_ID :: string
  cr_Title :: string
  cr_Status :: ControlStatus
  cr_Evidence :: "string list"
  cr_Note :: string

record FrameworkReport =
  fr_Name :: string
  fr_Controls :: "ControlResult list"
  fr_Pass :: int
  fr_Manual :: int
  fr_Missing :: int

record ComplianceSummary =
  su_TimelineEvents :: int
  su_TimelineValid :: bool
  su_CouncilAnchor :: bool
  su_Detections :: int
  su_Recoveries :: int
  su_Revocations :: int
  su_AuditEntries :: int
  su_Users :: int
  su_Roles :: "string list"
  su_HasBackup :: bool
  su_HasVault :: bool
  su_Webhooks :: int
  su_PolicyViolations :: "string list"

record ComplianceReport =
  cp_Generated :: int
  cp_Evidence :: ComplianceSummary
  cp_Frameworks :: "FrameworkReport list"
  cp_Findings :: "string list"

text \<open>Of the audit entries only their number is used; \<open>ce_Users\<close> maps an id to its role.\<close>

record 'a ComplianceEvidence =
  ce_Timeline :: "Timeline option"
  ce_AuditEntries :: "'a list"
  ce_Users :: "(string \<times> string) list"
  ce_Webhooks :: int
  ce_HasBackup :: bool
  ce_HasVault :: bool
  ce_MaxIssues :: int

section \<open>The facts\<close>

definition count_type :: "string \<Rightarrow> TrustEvent list \<Rightarrow> int" where
  "count_type ty es = int (length (filter (\<lambda>e. ev_Type e = ty) es))"

definition computeFacts :: "prims \<Rightarrow> 'a ComplianceEvidence \<Rightarrow> ComplianceSummary" where
  "computeFacts P ev =
     (let es = (case ce_Timeline ev of None \<Rightarrow> [] | Some t \<Rightarrow> tl_events t) in
      \<lparr>su_TimelineEvents = int (length es),
       su_TimelineValid = (case ce_Timeline ev of None \<Rightarrow> False | Some t \<Rightarrow> tl_Verify P t),
       su_CouncilAnchor = (case ce_Timeline ev of None \<Rightarrow> False | Some t \<Rightarrow> length (slice_bytes (tl_council t)) = 32),
       su_Detections = count_type EvDetected es,
       su_Recoveries = count_type EvRecovery es,
       su_Revocations = count_type EvRevoke es,
       su_AuditEntries = int (length (ce_AuditEntries ev)),
       su_Users = int (length (ce_Users ev)),
       su_Roles = sort (fold add_key (map snd (ce_Users ev)) []),
       su_HasBackup = ce_HasBackup ev,
       su_HasVault = ce_HasVault ev,
       su_Webhooks = ce_Webhooks ev,
       su_PolicyViolations = (if 0 < ce_MaxIssues ev \<and> ce_Timeline ev \<noteq> None then CheckPolicy P es (ce_MaxIssues ev) else [])\<rparr>)"

section \<open>Verdicts\<close>

definition pass :: "string list \<Rightarrow> ControlResult" where
  "pass evidence = \<lparr>cr_ID = [], cr_Title = [], cr_Status = StatusPass, cr_Evidence = evidence, cr_Note = []\<rparr>"

definition manual :: "string \<Rightarrow> ControlResult" where
  "manual note = \<lparr>cr_ID = [], cr_Title = [], cr_Status = StatusManual, cr_Evidence = [], cr_Note = note\<rparr>"

definition missing :: ControlResult where
  "missing = \<lparr>cr_ID = [], cr_Title = [], cr_Status = StatusMissing, cr_Evidence = [], cr_Note = []\<rparr>"

definition manualStatic :: "string \<Rightarrow> ComplianceSummary \<Rightarrow> ControlResult" where
  "manualStatic note s = manual note"

fun join_with :: "string \<Rightarrow> string list \<Rightarrow> string" where
  "join_with sep [] = []"
| "join_with sep [x] = x"
| "join_with sep (x # y # ys) = x @ sep @ join_with sep (y # ys)"

definition rbacStatus :: "ComplianceSummary \<Rightarrow> ControlResult" where
  "rbacStatus s =
     (if su_Users s = 0 then missing
      else if 2 \<le> length (su_Roles s) then pass [''role-based access: '' @ join_with '', '' (su_Roles s)]
      else manual (''single role present '' @ mdash @ '' attest least-privilege mapping''))"

definition authStatus :: "ComplianceSummary \<Rightarrow> ControlResult" where
  "authStatus s =
     (if su_Users s = 0 then missing
      else pass [''bearer-token auth; tokens stored as SHA-256; per-token org scoping''])"

definition adminStatus :: "ComplianceSummary \<Rightarrow> ControlResult" where
  "adminStatus s =
     (if RoleAdmin \<in> set (su_Roles s) then pass [''privileged role separated (admin)''] else missing)"

definition logStatus :: "ComplianceSummary \<Rightarrow> ControlResult" where
  "logStatus s =
     (if su_TimelineValid s \<and> 0 < su_TimelineEvents s
      then pass [''append-only signed hash chain, '' @ fmt_int (su_TimelineEvents s) @ '' events, verification PASS'']
      else if 0 < su_TimelineEvents s then missing\<lparr>cr_Note := ''timeline failed chain verification''\<rparr>
      else missing)"

definition monitorStatus :: "ComplianceSummary \<Rightarrow> ControlResult" where
  "monitorStatus s =
     (if 0 < su_Detections s
      then pass [fmt_int (su_Detections s) @ '' DETECTED events from the watchdog ensemble (3/5 fusion)'']
      else manual (''no detection evidence '' @ mdash @ '' run bench S1-S7 or a live watchdog fleet''))"

definition backupStatus :: "ComplianceSummary \<Rightarrow> ControlResult" where
  "backupStatus s =
     (if su_HasBackup s then pass [''backup artifact present (snapshot bundle / data dir copy)''] else missing)"

definition cryptoStatus :: "ComplianceSummary \<Rightarrow> ControlResult" where
  "cryptoStatus s =
     (if su_HasVault s
      then pass [''envelope encryption: KEK in 3-of-5 council shares, DEK, per-epoch HKDF subkeys'']
      else manual (''no vault evidence '' @ mdash @ '' attest seal key (gateway.key) or envelope at-rest policy''))"

definition incidentStatus :: "ComplianceSummary \<Rightarrow> ControlResult" where
  "incidentStatus s =
     (if 0 < su_Recoveries s \<and> su_CouncilAnchor s
      then pass [fmt_int (su_Recoveries s) @ '' recoveries threshold-signed by the FROST council'']
      else if 0 < su_Recoveries s then manual (''recoveries on record '' @ mdash @ '' attest the response playbook'')
      else missing)"

definition changeStatus :: "ComplianceSummary \<Rightarrow> ControlResult" where
  "changeStatus s =
     (if su_TimelineValid s \<and> 0 < su_TimelineEvents s
      then pass [''every change is a signed chain event: ISSUE/REVOKE/POLICY_CHANGE/RECOVERY'']
      else missing)"

definition recordStatus :: "ComplianceSummary \<Rightarrow> ControlResult" where
  "recordStatus s =
     (if 0 < su_AuditEntries s then pass [fmt_int (su_AuditEntries s) @ '' gateway action entries (who/what/when)'']
      else if 0 < su_TimelineEvents s
      then manual (''timeline is signed but no action audit provided '' @ mdash @ '' export /v1/audit?source=actions'')
      else missing)"

text \<open>The verdicts written in place in the tables.\<close>

definition provisioningStatus :: "ComplianceSummary \<Rightarrow> ControlResult" where
  "provisioningStatus s =
     (if 0 < su_Users s \<and> 0 < su_AuditEntries s then pass [''user lifecycle recorded in the action audit'']
      else manual ''attest provisioning/de-provisioning procedure and its audit trail'')"

definition rolesStatus :: "ComplianceSummary \<Rightarrow> ControlResult" where
  "rolesStatus s =
     (if 2 \<le> length (su_Roles s) then pass [''distinct roles: '' @ join_with '', '' (su_Roles s)] else missing)"

definition recoveryStatus :: "ComplianceSummary \<Rightarrow> ControlResult" where
  "recoveryStatus s =
     (if su_HasBackup s \<and> 0 < su_Recoveries s
      then pass [fmt_int (su_Recoveries s) @ '' recoveries on record; backup artifact present'']
      else if su_HasBackup s \<or> 0 < su_Recoveries s
      then manual (''backup or recovery evidence is partial '' @ mdash @ '' attest the full cycle'')
      else missing)"

definition integrityStatus :: "ComplianceSummary \<Rightarrow> ControlResult" where
  "integrityStatus s =
     (if su_TimelineValid s \<and> 0 < su_TimelineEvents s
      then pass [''signed hash chain detects tampering; verification PASS''] else missing)"

definition processingStatus :: "ComplianceSummary \<Rightarrow> ControlResult" where
  "processingStatus s =
     (if su_TimelineValid s \<and> su_HasVault s then pass [''signed chain + envelope encryption at rest'']
      else manual ''chain or at-rest encryption evidence incomplete'')"

definition breachStatus :: "ComplianceSummary \<Rightarrow> ControlResult" where
  "breachStatus s =
     (if 0 < su_Webhooks s then pass [fmt_int (su_Webhooks s) @ '' webhook endpoint(s) on detected/recovery events'']
      else manual ''register notification endpoints (webhooks) and attest the notification procedure'')"

section \<open>The frameworks\<close>

type_synonym controlDef = "string \<times> string \<times> (ComplianceSummary \<Rightarrow> ControlResult)"

definition framework_table :: "(string \<times> controlDef list) list" where
  "framework_table = [
     (''ISO 27001:2022'', [
       (''A.5.15'', ''Access control'', rbacStatus),
       (''A.5.17'', ''Authentication information'', authStatus),
       (''A.8.2'', ''Privileged access rights'', adminStatus),
       (''A.8.11'', ''Logging'', logStatus),
       (''A.8.12'', ''Monitoring'', monitorStatus),
       (''A.8.13'', ''Information backup'', backupStatus),
       (''A.8.24'', ''Use of cryptography'', cryptoStatus)]),
     (''SOC 2'', [
       (''CC6.1'', ''Restrict logical access'', rbacStatus),
       (''CC6.2'', ''User provisioning and de-provisioning'', provisioningStatus),
       (''CC6.3'', ''Role-based access'', rolesStatus),
       (''CC6.6'', ''Logical access security'', authStatus),
       (''CC7.2'', ''Anomaly detection'', monitorStatus),
       (''CC7.3'', ''Incident response'', incidentStatus),
       (''CC8.1'', ''Change management'', changeStatus),
       (''A1.2'', ''Recovery'', recoveryStatus)]),
     (''PCI DSS 4.0'', [
       (''Req 7'', ''Restrict access to system components'', rbacStatus),
       (''Req 8'', ''Identify users and authenticate access'', authStatus),
       (''Req 3'', ''Protect stored account data'', cryptoStatus),
       (''Req 4'', ''Protect transmissions'', manualStatic ''mTLS TLS 1.3 on the fleet/council wire; attest key rotation policy''),
       (''Req 10'', ''Log and monitor all access'', logStatus),
       (''Req 11'', ''Test security regularly'', manualStatic ''evidence: bench S1-S7, kill suite K1-K6, TLA+ model check, fuzz targets''),
       (''Req 12'', ''Support information security'', manualStatic ''incident response plan, roles and risk assessment'')]),
     (''HIPAA'', [
       (''164.312(a)'', ''Access control'', rbacStatus),
       (''164.312(b)'', ''Audit controls'', recordStatus),
       (''164.312(c)'', ''Integrity'', integrityStatus),
       (''164.312(e)'', ''Transmission security'', manualStatic ''mTLS TLS 1.3 on the fleet/council wire''),
       (''164.308(a)(1)(ii)(B)'', ''Contingency plan (backup)'', backupStatus)]),
     (''GDPR'', [
       (''Art. 25'', ''Data protection by design'', manualStatic ''minimal blast-radius re-issuance (P5); encryption at rest by default''),
       (''Art. 30'', ''Records of processing'', recordStatus),
       (''Art. 32'', ''Security of processing'', processingStatus),
       (''Art. 33/34'', ''Breach notification'', breachStatus)])]"

text \<open>One step of the inner loop: the verdict is named and counted.\<close>

definition add_control :: "ComplianceSummary \<Rightarrow> controlDef \<Rightarrow> FrameworkReport \<Rightarrow> FrameworkReport" where
  "add_control s d fr = (case d of (i, title, fn) \<Rightarrow>
     let r = (fn s)\<lparr>cr_ID := i, cr_Title := title\<rparr>; fr' = fr\<lparr>fr_Controls := fr_Controls fr @ [r]\<rparr> in
     (case cr_Status r of
        StatusPass \<Rightarrow> fr'\<lparr>fr_Pass := fr_Pass fr + 1\<rparr>
      | StatusManual \<Rightarrow> fr'\<lparr>fr_Manual := fr_Manual fr + 1\<rparr>
      | StatusMissing \<Rightarrow> fr'\<lparr>fr_Missing := fr_Missing fr + 1\<rparr>))"

definition buildFrameworks :: "ComplianceSummary \<Rightarrow> FrameworkReport list" where
  "buildFrameworks s = map (\<lambda>(name, defs). fold (add_control s) defs
     \<lparr>fr_Name = name, fr_Controls = [], fr_Pass = 0, fr_Manual = 0, fr_Missing = 0\<rparr>) framework_table"

section \<open>The report\<close>

definition findings_of :: "ComplianceSummary \<Rightarrow> string list" where
  "findings_of s =
     (if \<not> su_TimelineValid s \<and> 0 < su_TimelineEvents s then [(''TIMELINE FAILS VERIFICATION '' @ mdash @ '' do not submit this report'')] else [])
     @ (if su_Users s = 0 then [(''no gateway users defined '' @ mdash @ '' RBAC not configured'')] else [])
     @ (if su_AuditEntries s = 0 then [(''no action audit entries '' @ mdash @ '' export /v1/audit?source=actions'')] else [])
     @ (if \<not> su_HasBackup s then [(''no backup artifact '' @ mdash @ '' A.8.13 / SOC 2 A1.2 / HIPAA 164.308(a)(1)(ii)(B) evidence missing'')] else [])
     @ (if \<not> su_HasVault s then [''no at-rest encryption evidence (gateway.keys / vault envelope)''] else [])
     @ map (\<lambda>v. ''POLICY VIOLATION: '' @ v) (su_PolicyViolations s)"

definition BuildComplianceReport :: "prims \<Rightarrow> int \<Rightarrow> 'a ComplianceEvidence \<Rightarrow> ComplianceReport" where
  "BuildComplianceReport P now ev =
     (let facts = computeFacts P ev in
      \<lparr>cp_Generated = now, cp_Evidence = facts, cp_Frameworks = buildFrameworks facts, cp_Findings = findings_of facts\<rparr>)"

end
