(* ===== verification/OrchCli.thy ===== *)
theory OrchCli
  imports Cli Compliance ApiTrust
begin

text \<open>
  The operator's programs: \<open>cmd/orchestrator\<close>, \<open>cmd/pdp\<close> and \<open>cmd/auditor\<close>.  \<open>oe_demo_key\<close> is the key the demo chain
  is signed with, \<open>oe_fmt0\<close>, \<open>oe_fmt2\<close>, \<open>oe_quote\<close> and \<open>oe_time\<close> the formats of the package fmt and of a time, \<open>oe_indent\<close> the
  indented text of a document.
\<close>

record orch_env =
  oe_demo_key :: bytes
  oe_rnd :: rounding
  oe_fmt0 :: "f64 \<Rightarrow> string"
  oe_fmt2 :: "f64 \<Rightarrow> string"
  oe_quote :: "string \<Rightarrow> string"
  oe_now :: int
  oe_time :: "int \<Rightarrow> string"
  oe_indent :: "json \<Rightarrow> bytes"
  oe_can_write :: "string \<Rightarrow> bool"

section \<open>Loading\<close>

definition LoadTimeline :: "prims \<Rightarrow> string \<Rightarrow> world \<Rightarrow> cli_error + Timeline" where
  "LoadTimeline P p w = (case ReadFile p w of Inl e \<Rightarrow> Inl e
     | Inr b \<Rightarrow> (case UnmarshalTimeline P b of Inl _ \<Rightarrow> Inl (Library ''timeline'') | Inr t \<Rightarrow> Inr t))"

text \<open>The timeline inside an evidence file.\<close>

definition envelope_fields :: "json option field list" where
  "envelope_fields = [(''timeline'', \<lambda>j _. Some (Some j))]"

definition envelope_timeline :: "prims \<Rightarrow> bytes \<Rightarrow> Timeline option" where
  "envelope_timeline P raw = (case unmarshal P envelope_fields None raw of
     Some (Some j) \<Rightarrow> (case UnmarshalTimeline P (json_text P j) of Inl _ \<Rightarrow> None | Inr t \<Rightarrow> Some t)
   | _ \<Rightarrow> None)"

definition demo_step :: "prims \<Rightarrow> nat \<Rightarrow> Timeline \<Rightarrow> Timeline" where
  "demo_step P i t = (case tl_append P t EvIssue
       (Some (json_text P (JObj [(''cert_id'', JStr (''c'' @ digits i)), (''identity'', JStr ''user'')]))) (int i) of
     Inl _ \<Rightarrow> t | Inr (_, t') \<Rightarrow> t')"

definition demo_timeline :: "prims \<Rightarrow> bytes \<Rightarrow> tl_error + Timeline" where
  "demo_timeline P key = (case NewTimeline (Some key) of Inl e \<Rightarrow> Inl e | Inr t \<Rightarrow> Inr (fold (demo_step P) [0..<12] t))"

text \<open>The timeline and the error, either of which may be nil.\<close>

definition orch_load :: "prims \<Rightarrow> orch_env \<Rightarrow> string \<Rightarrow> world \<Rightarrow> Timeline option \<times> cli_error option" where
  "orch_load P E events w =
     (if events = [] then (case demo_timeline P (oe_demo_key E) of Inl _ \<Rightarrow> (None, None) | Inr t \<Rightarrow> (Some t, None))
      else (let r = LoadTimeline P events w; err = (case r of Inl e \<Rightarrow> Some e | Inr _ \<Rightarrow> None) in
        (case r of
           Inr t \<Rightarrow> if tl_events t \<noteq> [] then (Some t, None)
             else (case ReadFile events w of Inl _ \<Rightarrow> (None, err)
               | Inr raw \<Rightarrow> (case envelope_timeline P raw of Some t' \<Rightarrow> (Some t', None) | None \<Rightarrow> (None, err)))
         | Inl _ \<Rightarrow> (case ReadFile events w of Inl _ \<Rightarrow> (None, err)
               | Inr raw \<Rightarrow> (case envelope_timeline P raw of Some t' \<Rightarrow> (Some t', None) | None \<Rightarrow> (None, err))))))"

section \<open>Commands over a timeline\<close>

text \<open>A command that reaches a nil timeline panics there.\<close>

definition with_tl :: "Timeline option \<Rightarrow> (Timeline \<Rightarrow> command) \<Rightarrow> command" where
  "with_tl t k w = (case t of None \<Rightarrow> (Panics, w) | Some tml \<Rightarrow> k tml w)"

definition status_watchdogs :: "Watchdog list" where
  "status_watchdogs = [NewWatchdog ''W1'' WDIssuanceRate (Fin 1) (Fin 1) (Fin 3), NewWatchdog ''W2'' WDLogIntegrity (Fin 0) (Fin 0) (Fin 0),
     NewWatchdog ''W3'' WDGraphAnomaly (Fin (1 / 2)) (Fin (1 / 2)) (Fin 3), NewWatchdog ''W4'' WDExternalProbe (Fin 0) (Fin 0) (Fin 0),
     NewWatchdogBaseline ''W5'' WDBehaviorBaseline (Fin 1) (Fin (1 / 2)) (Fin 2) [(''user'', Fin 1)]]"

definition mirror_all :: "prims \<Rightarrow> TrustEvent list \<Rightarrow> AuditorLog" where
  "mirror_all P es = fold (Mirror P) es (NewAuditorLog algoSHA256)"

definition observe_all :: "prims \<Rightarrow> rounding \<Rightarrow> TrustEvent list \<Rightarrow> Watchdog \<Rightarrow> Watchdog" where
  "observe_all P rnd es w = fold (\<lambda>(i, e) w. ObserveBatch P rnd [e] (int i) w) (enumerate 0 es) w"

definition status_scores :: "prims \<Rightarrow> orch_env \<Rightarrow> Timeline \<Rightarrow> Score list" where
  "status_scores P E t = map (\<lambda>w. fst (wd_Score P (oe_rnd E) (oe_fmt2 E) (oe_quote E) t (Some (mirror_all P (tl_events t)))
     (observe_all P (oe_rnd E) (tl_events t) w))) status_watchdogs"

definition orch_epoch :: "prims \<Rightarrow> Timeline \<Rightarrow> int" where
  "orch_epoch P t = fold (epoch_step P) (tl_events t) 0"

definition orch_status :: "prims \<Rightarrow> orch_env \<Rightarrow> Timeline option \<Rightarrow> command" where
  "orch_status P E tln = with_tl tln (\<lambda>t w.
     let scores = status_scores P E t in
      (Done, print_all (map (\<lambda>s. s_NodeID s @ '' score '' @ oe_fmt0 E (s_Score s) @ '' (evidence: '' @ bytes_str (s_Evidence s) @ '')'') scores
         @ [if Detect scores (Fin 25) 3 then ''ENSEMBLE: DETECTED (3/5 below threshold)'' else ''ENSEMBLE: healthy'',
            ''EPOCH: '' @ fmt_int (orch_epoch P t), ''ANCHOR: '' @ hex_encode (slice_bytes (Head P t))]) w))"

text \<open>
  A payload is printed as far as it decodes: \<open>json.Unmarshal\<close> skips a member of the wrong type and goes on, and the error is
  dropped.
\<close>

fun lenient_members :: "'r field list \<Rightarrow> (string \<times> json) list \<Rightarrow> 'r \<Rightarrow> 'r" where
  "lenient_members fs [] r = r"
| "lenient_members fs ((k, v) # kvs) r = lenient_members fs kvs (case find (\<lambda>(name, upd). same_key name k) fs of
     None \<Rightarrow> r | Some (name, upd) \<Rightarrow> (case upd v r of None \<Rightarrow> r | Some r' \<Rightarrow> r'))"

definition unmarshal_lenient :: "prims \<Rightarrow> 'r field list \<Rightarrow> 'r \<Rightarrow> bytes \<Rightarrow> 'r" where
  "unmarshal_lenient P fs r b = (case json_parse P b of Some (JObj kvs) \<Rightarrow> lenient_members fs kvs r | _ \<Rightarrow> r)"

definition timeline_line :: "prims \<Rightarrow> nat \<Rightarrow> TrustEvent \<Rightarrow> string" where
  "timeline_line P i e =
     (let p = unmarshal_lenient P [string_field ''cert_id'' (\<lambda>x p. p\<lparr>ip_CertID := x\<rparr>), string_field ''identity'' (\<lambda>x p. p\<lparr>ip_Identity := x\<rparr>)]
            ip_zero (slice_bytes (ev_Payload e)) in
      ''#'' @ digits i @ '' '' @ ev_Type e @ '' cert='' @ ip_CertID p @ '' identity='' @ ip_Identity p @ '' ts='' @ fmt_int (ev_Timestamp e))"

text \<open>A negative tail slices past the end and panics.\<close>

definition orch_timeline :: "prims \<Rightarrow> Timeline option \<Rightarrow> int \<Rightarrow> command" where
  "orch_timeline P tln tail = with_tl tln (\<lambda>t w.
     let n = length (tl_events t); k = (if int n < tail then int n else tail) in
      if k < 0 then (Panics, w)
      else (Done, print_all (map (\<lambda>(i, e). timeline_line P i e) (enumerate (n - nat k) (drop (n - nat k) (tl_events t)))) w))"

definition orch_verify :: "prims \<Rightarrow> Timeline option \<Rightarrow> string list \<Rightarrow> command" where
  "orch_verify P tln args w =
     (let root = last_value ''--root'' (drop 1 args) [] in
      if root = [] then (Fails (Msg ''verify requires --root <hash>''), w)
      else (case hex_decode root of
          None \<Rightarrow> (Fails (Wrapped ''root'' BadHex), w)
        | Some want \<Rightarrow> with_tl tln (\<lambda>t w.
           let bad = LocateBadEvent P t in
           if 0 \<le> bad then (Done, println (''VERIFY: FAIL (chain broken at event #'' @ fmt_int bad @ '')'') w)
           else if want \<noteq> slice_bytes (Head P t) then (Done, println (''VERIFY: FAIL (root mismatch: chain='' @ hex_encode (slice_bytes (Head P t)) @ '')'') w)
           else (Done, println ''VERIFY: PASS'' w)) w))"

definition orch_graph :: "prims \<Rightarrow> Timeline option \<Rightarrow> string list \<Rightarrow> command" where
  "orch_graph P tln args w =
     (let ident = last_value ''--identity'' (drop 1 args) [] in
      if ident = [] then (Fails (Msg ''graph requires --identity <fingerprint>''), w)
      else with_tl tln (\<lambda>t w. (Done, print_all (Reachable (BuildGraph P t) (''id:'' @ ident)) w)) w)"

subsection \<open>Policy\<close>

definition policy_fields :: "int field list" where
  "policy_fields = [int_field ''max_issues_per_identity_per_window'' (\<lambda>x _. x)]"

definition policyReload :: "prims \<Rightarrow> Timeline option \<Rightarrow> string list \<Rightarrow> command" where
  "policyReload P tln args w =
     (let polPath = flag (scan_opts [''--policy''] (drop 1 args) []) ''--policy'' in
      if polPath = [] then (Fails (Msg ''policy reload requires --policy <file>''), w)
      else (case ReadFile polPath w of Inl e \<Rightarrow> (Fails e, w)
        | Inr raw \<Rightarrow> (case unmarshal P policy_fields 0 raw of None \<Rightarrow> (Fails NotJson, w)
           | Some pol \<Rightarrow>
              if pol \<le> 0 then (Fails (Msg ''policy: max_issues_per_identity_per_window must be > 0''), w)
              else with_tl tln (\<lambda>t w. let v = CheckPolicy P (tl_events t) pol in
                (Done, print_all ((''POLICY: LOADED max_issues_per_identity_per_window='' @ fmt_int pol)
                   # (if v = [] then [''POLICY: CONFORMS ('' @ digits (length (tl_events t)) @ '' events audited)'']
                      else map (\<lambda>s. ''POLICY: VIOLATION '' @ s) v)) w)) w)))"

subsection \<open>Rollback\<close>

definition bad_index_fields :: "int field list" where
  "bad_index_fields = [int_field ''bad_index'' (\<lambda>x _. x)]"

text \<open>The first bad event: of the chain, or of the evidence file where the chain is intact.\<close>

definition dry_bad :: "prims \<Rightarrow> Timeline \<Rightarrow> string list \<Rightarrow> world \<Rightarrow> int" where
  "dry_bad P t args w =
     (let bad = LocateBadEvent P t; evPath = last_value ''--events'' (drop 1 args) [] in
      if 0 \<le> bad \<or> evPath = [] then bad
      else (case ReadFile evPath w of Inl _ \<Rightarrow> bad
        | Inr raw \<Rightarrow> (case unmarshal P bad_index_fields 0 raw of Some i \<Rightarrow> if 0 < i then i else bad | None \<Rightarrow> bad)))"

definition dry_checkpoint :: "prims \<Rightarrow> Timeline \<Rightarrow> bytes \<Rightarrow> int \<Rightarrow> int" where
  "dry_checkpoint P t want bad = (case find (\<lambda>i. ev_Hash P (tl_events t ! i) = want) [0..<length (tl_events t)] of
     Some i \<Rightarrow> int i | None \<Rightarrow> bad - 1)"

text \<open>An index past the events panics in \<open>InvalidationSet\<close>.\<close>

definition rollbackDryRun :: "prims \<Rightarrow> Timeline option \<Rightarrow> string list \<Rightarrow> command" where
  "rollbackDryRun P tln args w =
     (let toHash = flag (scan_opts [''--to''] (drop 1 args) []) ''--to'' in
      (case hex_decode toHash of
         None \<Rightarrow> (Fails (Wrapped ''--to'' BadHex), w)
       | Some want \<Rightarrow> with_tl tln (\<lambda>t w.
          let bad = dry_bad P t args w in
          if bad < 0 then (Done, println ''ROLLBACK DRY-RUN: chain intact, nothing to roll back'' w)
          else let checkpoint = dry_checkpoint P t want bad in
            if checkpoint < 0 \<or> bad \<le> checkpoint
            then (Fails (Msg (''--to: checkpoint is not before the first bad event (#'' @ fmt_int bad @ '')'')), w)
            else (case InvalidationSet P t (checkpoint + 1) of
                None \<Rightarrow> (Panics, w)
              | Some (certs, ids) \<Rightarrow> (case Fork P t (ev_Hash P (tl_events t ! nat checkpoint)) of
                   Inl _ \<Rightarrow> (Fails (Library ''fork''), w)
                 | Inr fork \<Rightarrow> (Done, print_all
                     ([''ROLLBACK DRY-RUN: checkpoint #'' @ fmt_int checkpoint @ '' (verified), first bad event #'' @ fmt_int bad,
                       ''  would invalidate '' @ digits (length certs) @ '' cert(s) across '' @ digits (length ids) @ '' identity(ies)'']
                      @ map (\<lambda>c. ''    - '' @ c) certs
                      @ [''  state: '' @ digits (length (Fold P fork)) @ '' certs pre-compromise -> '' @ digits (length (Fold P t)) @ '' certs compromised'']) w)))) w))"

section \<open>The compliance report\<close>

record gateway_file =
  gf_Users :: "(string \<times> User option) list"
  gf_Webhooks :: nat

definition gf_fields :: "gateway_file field list" where
  "gf_fields = [map_field (\<lambda>j. if j = JNull then Some None else map_option Some (decode_struct us_fields us_zero j)) ''users'' gf_Users
       (\<lambda>x g. g\<lparr>gf_Users := x\<rparr>),
     (''webhooks'', \<lambda>j g. case j of JNull \<Rightarrow> Some (g\<lparr>gf_Webhooks := 0\<rparr>) | JArr js \<Rightarrow> Some (g\<lparr>gf_Webhooks := length js\<rparr>) | _ \<Rightarrow> None)]"

definition ae_zero :: AuditEntry where
  "ae_zero = \<lparr>ae_Ts = 0, ae_User = [], ae_Org = [], ae_Method = [], ae_Path = [], ae_Status = 0, ae_Details = []\<rparr>"

definition ae_fields :: "AuditEntry field list" where
  "ae_fields = [int_field ''ts'' (\<lambda>x a. a\<lparr>ae_Ts := x\<rparr>), string_field ''user'' (\<lambda>x a. a\<lparr>ae_User := x\<rparr>), string_field ''org'' (\<lambda>x a. a\<lparr>ae_Org := x\<rparr>),
     string_field ''method'' (\<lambda>x a. a\<lparr>ae_Method := x\<rparr>), string_field ''path'' (\<lambda>x a. a\<lparr>ae_Path := x\<rparr>), int_field ''status'' (\<lambda>x a. a\<lparr>ae_Status := x\<rparr>),
     string_field ''details'' (\<lambda>x a. a\<lparr>ae_Details := x\<rparr>)]"

text \<open>An export is a list of entries, or an object with them under \<open>actions\<close>.\<close>

definition audit_entries :: "prims \<Rightarrow> bytes \<Rightarrow> AuditEntry list option" where
  "audit_entries P raw = (case json_parse P raw of
     Some (JArr js) \<Rightarrow> those (map (decode_struct ae_fields ae_zero) js)
   | Some JNull \<Rightarrow> Some []
   | _ \<Rightarrow> unmarshal P [structs_field ae_fields ae_zero ''actions'' (\<lambda>x _. x)] [] raw)"

text \<open>Each step adds one kind of evidence, unless its option is absent; a nil user panics.\<close>

datatype 'a gathered = Got 'a | GatherFails cli_error | GatherPanics

definition bind_got :: "'a gathered \<Rightarrow> ('a \<Rightarrow> 'b gathered) \<Rightarrow> 'b gathered" where
  "bind_got x f = (case x of Got a \<Rightarrow> f a | GatherFails e \<Rightarrow> GatherFails e | GatherPanics \<Rightarrow> GatherPanics)"

definition add_gateway :: "prims \<Rightarrow> string \<Rightarrow> world \<Rightarrow> AuditEntry ComplianceEvidence \<Rightarrow> AuditEntry ComplianceEvidence gathered" where
  "add_gateway P p w ev =
     (if p = [] then Got ev
      else (case ReadFile p w of Inl e \<Rightarrow> GatherFails (Wrapped ''--gateway'' e)
        | Inr raw \<Rightarrow> (case unmarshal P gf_fields \<lparr>gf_Users = [], gf_Webhooks = 0\<rparr> raw of
             None \<Rightarrow> GatherFails (Wrapped ''--gateway'' NotJson)
           | Some g \<Rightarrow> if None \<in> snd ` set (gf_Users g) then GatherPanics
               else Got (ev\<lparr>ce_Users := map (\<lambda>(i, u). (i, us_Role (the u))) (gf_Users g), ce_Webhooks := int (gf_Webhooks g)\<rparr>))))"

definition add_audit :: "prims \<Rightarrow> string \<Rightarrow> world \<Rightarrow> AuditEntry ComplianceEvidence \<Rightarrow> AuditEntry ComplianceEvidence gathered" where
  "add_audit P p w ev =
     (if p = [] then Got ev
      else (case ReadFile p w of Inl e \<Rightarrow> GatherFails (Wrapped ''--audit'' e)
        | Inr raw \<Rightarrow> (case audit_entries P raw of None \<Rightarrow> GatherFails (Wrapped ''--audit'' NotJson) | Some es \<Rightarrow> Got (ev\<lparr>ce_AuditEntries := es\<rparr>))))"

definition add_backup :: "string \<Rightarrow> world \<Rightarrow> AuditEntry ComplianceEvidence \<Rightarrow> AuditEntry ComplianceEvidence gathered" where
  "add_backup p w ev = (if p = [] then Got ev
     else if exists_file p w then Got (ev\<lparr>ce_HasBackup := True\<rparr>) else GatherFails (Wrapped ''--backup'' (NoFile p)))"

definition add_vault :: "string \<Rightarrow> world \<Rightarrow> AuditEntry ComplianceEvidence \<Rightarrow> AuditEntry ComplianceEvidence gathered" where
  "add_vault p w ev = (if p = [] then Got ev
     else if exists_file p w then Got (ev\<lparr>ce_HasVault := True\<rparr>) else GatherFails (Wrapped ''--vault-keys'' (NoFile p)))"

definition add_policy :: "prims \<Rightarrow> string \<Rightarrow> world \<Rightarrow> AuditEntry ComplianceEvidence \<Rightarrow> AuditEntry ComplianceEvidence gathered" where
  "add_policy P p w ev = (if p = [] then Got ev
     else (case ReadFile p w of Inl e \<Rightarrow> GatherFails (Wrapped ''--policy'' e)
       | Inr raw \<Rightarrow> (case unmarshal P policy_fields (ce_MaxIssues ev) raw of None \<Rightarrow> GatherFails (Wrapped ''--policy'' NotJson)
            | Some n \<Rightarrow> Got (ev\<lparr>ce_MaxIssues := n\<rparr>))))"

definition control_json :: "ControlResult \<Rightarrow> json" where
  "control_json r = JObj ([(''id'', JStr (cr_ID r)), (''title'', JStr (cr_Title r)),
     (''status'', JStr (case cr_Status r of StatusPass \<Rightarrow> ''pass'' | StatusManual \<Rightarrow> ''manual'' | StatusMissing \<Rightarrow> ''missing'')),
     (''evidence'', if cr_Evidence r = [] then JNull else JArr (map JStr (cr_Evidence r)))] @ omit_string ''note'' (cr_Note r))"

definition framework_json :: "FrameworkReport \<Rightarrow> json" where
  "framework_json f = JObj [(''name'', JStr (fr_Name f)), (''controls'', JArr (map control_json (fr_Controls f))),
     (''pass'', JInt (fr_Pass f)), (''manual'', JInt (fr_Manual f)), (''missing'', JInt (fr_Missing f))]"

definition summary_json :: "ComplianceSummary \<Rightarrow> json" where
  "summary_json s = JObj ([(''timeline_events'', JInt (su_TimelineEvents s)), (''timeline_valid'', JBool (su_TimelineValid s)),
     (''council_anchor'', JBool (su_CouncilAnchor s)), (''detections'', JInt (su_Detections s)), (''recoveries'', JInt (su_Recoveries s)),
     (''revocations'', JInt (su_Revocations s)), (''audit_entries'', JInt (su_AuditEntries s)), (''users'', JInt (su_Users s)),
     (''roles'', if su_Roles s = [] then JNull else JArr (map JStr (su_Roles s))), (''has_backup'', JBool (su_HasBackup s)),
     (''has_vault'', JBool (su_HasVault s)), (''webhooks'', JInt (su_Webhooks s))]
     @ (if su_PolicyViolations s = [] then [] else [(''policy_violations'', JArr (map JStr (su_PolicyViolations s)))]))"

definition report_json :: "orch_env \<Rightarrow> ComplianceReport \<Rightarrow> json" where
  "report_json E r = JObj [(''generated'', JStr (oe_time E (cp_Generated r))), (''evidence'', summary_json (cp_Evidence r)),
     (''frameworks'', JArr (map framework_json (cp_Frameworks r))),
     (''findings'', if cp_Findings r = [] then JNull else JArr (map JStr (cp_Findings r)))]"

definition report_names :: "string list" where
  "report_names = [''--events'', ''--gateway'', ''--audit'', ''--backup'', ''--vault-keys'', ''--policy'', ''--out'']"

definition gather :: "prims \<Rightarrow> (string \<times> string) list \<Rightarrow> Timeline option \<Rightarrow> world \<Rightarrow> AuditEntry ComplianceEvidence gathered" where
  "gather P f t w =
     bind_got (add_gateway P (flag f ''--gateway'') w \<lparr>ce_Timeline = t, ce_AuditEntries = [], ce_Users = [], ce_Webhooks = 0,
         ce_HasBackup = False, ce_HasVault = False, ce_MaxIssues = 0\<rparr>)
       (\<lambda>e. bind_got (add_audit P (flag f ''--audit'') w e)
       (\<lambda>e. bind_got (add_backup (flag f ''--backup'') w e)
       (\<lambda>e. bind_got (add_vault (flag f ''--vault-keys'') w e) (add_policy P (flag f ''--policy'') w))))"

definition write_report :: "orch_env \<Rightarrow> string \<Rightarrow> ComplianceReport \<Rightarrow> command" where
  "write_report E out r w = (case WriteFile (oe_can_write E) out (oe_indent E (report_json E r)) w of
     (Some e, w') \<Rightarrow> (Fails e, w')
   | (None, w') \<Rightarrow> (Done, print_all (map (\<lambda>f. fr_Name f @ '': '' @ fmt_int (fr_Pass f) @ '' pass, '' @ fmt_int (fr_Manual f) @ '' manual, ''
         @ fmt_int (fr_Missing f) @ '' missing'') (cp_Frameworks r)
       @ map (\<lambda>s. ''FINDING: '' @ s) (cp_Findings r) @ [''report written to '' @ out]) w'))"

definition report :: "prims \<Rightarrow> orch_env \<Rightarrow> string list \<Rightarrow> command" where
  "report P E args w =
     (let f = scan_opts report_names (drop 1 args) []; out = (if map_of f ''--out'' = None then ''reports/compliance.json'' else flag f ''--out'') in
      (case orch_load P E (flag f ''--events'') w of
         (_, Some e) \<Rightarrow> (Fails e, w)
       | (t, None) \<Rightarrow> (case gather P f t w of
            GatherFails e \<Rightarrow> (Fails e, w)
          | GatherPanics \<Rightarrow> (Panics, w)
          | Got ev \<Rightarrow> write_report E out (BuildComplianceReport P (oe_now E) ev) w)))"

section \<open>The main program\<close>

fun orch_args :: "string list \<Rightarrow> string \<times> int \<Rightarrow> string \<times> int" where
  "orch_args (a # b # rest) (events, tail) =
     (if a = ''--events'' then orch_args rest (b, tail)
      else if a = ''--tail'' then orch_args rest (events, case scan_int b of Some n \<Rightarrow> n | None \<Rightarrow> tail)
      else orch_args (b # rest) (events, tail))"
| "orch_args _ r = r"

text \<open>
  The timeline is loaded for every command.  \<open>serve\<close> is the live relay, a
  parameter.
\<close>

definition orch_main :: "prims \<Rightarrow> orch_env \<Rightarrow> (string list \<Rightarrow> command) \<Rightarrow> string list \<Rightarrow> command" where
  "orch_main P E serve args w = (case args of
     [] \<Rightarrow> (Fails (Msg ''usage''), w)
   | cmd # rest \<Rightarrow> (case orch_args rest ([], 20) of (events, tail) \<Rightarrow>
      (case orch_load P E events w of
         (_, Some e) \<Rightarrow> (Fails e, w)
       | (t, None) \<Rightarrow>
          if cmd = ''serve'' then serve args w
          else if cmd = ''report'' then report P E args w
          else if cmd = ''status'' then orch_status P E t w
          else if cmd = ''timeline'' then orch_timeline P t tail w
          else if cmd = ''verify'' then orch_verify P t args w
          else if cmd = ''graph'' then orch_graph P t args w
          else if cmd = ''policy'' then policyReload P t args w
          else if cmd = ''rollback'' then rollbackDryRun P t args w
          else (Fails (Msg ''usage''), w))))"

section \<open>\<open>cmd/pdp\<close>\<close>

definition identity_fields :: "string field list" where
  "identity_fields = [string_field ''identity'' (\<lambda>x _. x)]"

definition pdp_counts :: "prims \<Rightarrow> TrustEvent list \<Rightarrow> (string \<times> int) list" where
  "pdp_counts P es = fold (\<lambda>e m. if ev_Type e \<noteq> EvIssue then m
     else (case unmarshal P identity_fields [] (slice_bytes (ev_Payload e)) of None \<Rightarrow> m | Some i \<Rightarrow> count_key i m)) es []"

definition pdp_decisions :: "prims \<Rightarrow> int \<Rightarrow> TrustEvent list \<Rightarrow> (string \<times> bool \<times> int) list" where
  "pdp_decisions P pol es = (let m = pdp_counts P es in
     map (\<lambda>i. let n = the (map_of m i) in (i, n \<le> pol, n)) (sort (map fst m)))"

definition pdp_lines :: "int \<Rightarrow> (string \<times> bool \<times> int) list \<Rightarrow> string list" where
  "pdp_lines pol ds = map (\<lambda>(i, ok, n). pad_right 24 i @ '' '' @ pad_right 5 (if ok then ''ALLOW'' else ''DENY'')
       @ '' ('' @ fmt_int n @ '' issues, limit '' @ fmt_int pol @ '')'') ds
     @ [let denied = length (filter (\<lambda>(i, ok, n). \<not> ok) ds) in
        ''PDP: '' @ digits (length ds - denied) @ '' ALLOW, '' @ digits denied @ '' DENY, '' @ digits (length ds) @ '' identities evaluated'']"

definition pdp_check :: "prims \<Rightarrow> string list \<Rightarrow> command" where
  "pdp_check P args w =
     (let f = scan_opts [''--policy'', ''--events''] args []; polPath = flag f ''--policy''; eventsFile = flag f ''--events'' in
      if polPath = [] \<or> eventsFile = [] then (Fails (Msg ''usage: check --policy <policy.json> --events <timeline.json>''), w)
      else (case ReadFile polPath w of Inl e \<Rightarrow> (Fails e, w)
        | Inr raw \<Rightarrow> (case unmarshal P policy_fields 0 raw of None \<Rightarrow> (Fails NotJson, w)
        | Some pol \<Rightarrow> (case LoadTimeline P eventsFile w of Inl e \<Rightarrow> (Fails e, w)
        | Inr t \<Rightarrow> if tl_events t = [] then (Fails (Msg ''no events in timeline''), w)
            else (Done, print_all (pdp_lines pol (pdp_decisions P pol (tl_events t))) w)))))"

definition pdp_main :: "prims \<Rightarrow> string list \<Rightarrow> command" where
  "pdp_main P args w = (case args of
     [] \<Rightarrow> (Fails (Msg ''usage''), w)
   | c # rest \<Rightarrow> if c \<noteq> ''check'' then (Fails (Msg ''usage''), w) else pdp_check P rest w)"

section \<open>\<open>cmd/auditor\<close>\<close>

definition auditor_audit :: "prims \<Rightarrow> string \<Rightarrow> string \<Rightarrow> command" where
  "auditor_audit P logPath policyPath w = (case LoadTimeline P logPath w of Inl e \<Rightarrow> (Fails e, w)
     | Inr t \<Rightarrow> (case ReadFile policyPath w of Inl e \<Rightarrow> (Fails e, w)
     | Inr raw \<Rightarrow> (case unmarshal P policy_fields 0 raw of None \<Rightarrow> (Fails (Wrapped ''policy'' NotJson), w)
     | Some pol \<Rightarrow>
        let bad = LocateBadEvent P t; v = CheckPolicy P (tl_events t) pol in
        (Done, print_all
          ((if 0 \<le> bad then ''CHAIN: FAIL (broken at event #'' @ fmt_int bad @ '')''
            else ''CHAIN: PASS (root '' @ hex_encode (slice_bytes (Head P t)) @ '')'')
           # (if v = [] then [''POLICY: PASS'']
              else [''POLICY: FAIL''] @ map (\<lambda>s. ''  violation: '' @ s) v @ [''ESCALATE: recommend (>=3 auditor operators agree in deployment)''])) w))))"

definition auditor_main :: "prims \<Rightarrow> string list \<Rightarrow> command" where
  "auditor_main P args w = (case args of
     [] \<Rightarrow> (Fails (Msg ''usage''), w)
   | c # rest \<Rightarrow> (let f = scan_opts [''--log'', ''--policy''] rest [] in
      if c \<noteq> ''audit'' \<or> flag f ''--log'' = [] \<or> flag f ''--policy'' = [] then (Fails (Msg ''usage''), w)
      else auditor_audit P (flag f ''--log'') (flag f ''--policy'') w))"

end
