(* ===== verification/ComplianceProps.thy ===== *)
theory ComplianceProps
  imports Compliance TrustStateProps EnsembleProps
begin

text \<open>
  What a compliance report shows: its tallies count its controls, every verdict carries the evidence or the note it
  needs, more evidence never worsens a verdict, and what an invalid timeline does to the verdicts.
\<close>

section \<open>Tallies\<close>

definition verdict :: "ComplianceSummary \<Rightarrow> controlDef \<Rightarrow> ControlResult" where
  "verdict s d = (snd (snd d) s)\<lparr>cr_ID := fst d, cr_Title := fst (snd d)\<rparr>"

definition having :: "ControlStatus \<Rightarrow> ControlResult list \<Rightarrow> int" where
  "having st rs = int (length (filter (\<lambda>r. cr_Status r = st) rs))"

lemma having_simps [simp]: "having st [] = 0" "having st (r # rs) = (if cr_Status r = st then 1 else 0) + having st rs"
  "having st (rs @ qs) = having st rs + having st qs"
  by (simp_all add: having_def)

lemma fold_controls:
  "fold (add_control s) ds fr = fr\<lparr>fr_Controls := fr_Controls fr @ map (verdict s) ds,
     fr_Pass := fr_Pass fr + having StatusPass (map (verdict s) ds),
     fr_Manual := fr_Manual fr + having StatusManual (map (verdict s) ds),
     fr_Missing := fr_Missing fr + having StatusMissing (map (verdict s) ds)\<rparr>"
proof (induction ds arbitrary: fr)
  case (Cons d ds)
  then show ?case
    by (cases d; cases "cr_Status (snd (snd d) s)") (simp_all add: add_control_def verdict_def Let_def)
qed simp

lemma frameworks_eq:
  "buildFrameworks s = map (\<lambda>(name, ds). let rs = map (verdict s) ds in \<lparr>fr_Name = name, fr_Controls = rs,
     fr_Pass = having StatusPass rs, fr_Manual = having StatusManual rs, fr_Missing = having StatusMissing rs\<rparr>) framework_table"
  by (simp add: buildFrameworks_def fold_controls Let_def)

lemma having_total: "having StatusPass rs + having StatusManual rs + having StatusMissing rs = int (length rs)"
proof (induction rs)
  case (Cons r rs)
  then show ?case by (cases "cr_Status r") simp_all
qed simp

section \<open>Well-formed verdicts\<close>

definition result_wf :: "ControlResult \<Rightarrow> bool" where
  "result_wf r \<longleftrightarrow> (case cr_Status r of
     StatusPass \<Rightarrow> cr_Evidence r \<noteq> [] \<and> [] \<notin> set (cr_Evidence r) \<and> cr_Note r = []
   | StatusManual \<Rightarrow> cr_Evidence r = [] \<and> cr_Note r \<noteq> []
   | StatusMissing \<Rightarrow> cr_Evidence r = [])"

lemmas status_defs = rbacStatus_def authStatus_def adminStatus_def logStatus_def monitorStatus_def backupStatus_def cryptoStatus_def
  incidentStatus_def changeStatus_def recordStatus_def provisioningStatus_def rolesStatus_def recoveryStatus_def integrityStatus_def
  processingStatus_def breachStatus_def manualStatic_def

lemma wf_base [simp]: "ev \<noteq> [] \<Longrightarrow> [] \<notin> set ev \<Longrightarrow> result_wf (pass ev)" "n \<noteq> [] \<Longrightarrow> result_wf (manual n)" "result_wf missing"
  "result_wf (missing\<lparr>cr_Note := n\<rparr>)"
  by (simp_all add: result_wf_def pass_def manual_def missing_def)

text \<open>Every function of the tables.\<close>

lemma table_all:
  assumes "Q rbacStatus" "Q authStatus" "Q adminStatus" "Q logStatus" "Q monitorStatus" "Q backupStatus" "Q cryptoStatus" "Q incidentStatus"
    "Q changeStatus" "Q recordStatus" "Q provisioningStatus" "Q rolesStatus" "Q recoveryStatus" "Q integrityStatus" "Q processingStatus"
    "Q breachStatus" "\<And>n. n \<noteq> [] \<Longrightarrow> Q (manualStatic n)"
  shows "\<forall>fw \<in> set framework_table. \<forall>d \<in> set (snd fw). Q (snd (snd d))"
  unfolding framework_table_def by (simp add: assms)

lemma wf_functions: "\<forall>fw \<in> set framework_table. \<forall>d \<in> set (snd fw). \<forall>s. result_wf (snd (snd d) s)"
  by (rule table_all) (simp_all add: status_defs mdash_def)

lemma wf_verdict: "result_wf (verdict s d) \<longleftrightarrow> result_wf (snd (snd d) s)"
  by (simp add: result_wf_def verdict_def split: ControlStatus.split)

text \<open>
  Every report has the five frameworks; in each the tallies count the controls with that status and sum to
  their number, a control that passes names evidence and no note, one left to the operator has a note and no evidence, and a
  missing one has no evidence.
\<close>

theorem compliance_wf:
  "map fr_Name (cp_Frameworks (BuildComplianceReport P now ev)) = [''ISO 27001:2022'', ''SOC 2'', ''PCI DSS 4.0'', ''HIPAA'', ''GDPR'']
   \<and> (\<forall>fr \<in> set (cp_Frameworks (BuildComplianceReport P now ev)).
        fr_Pass fr = having StatusPass (fr_Controls fr) \<and> fr_Manual fr = having StatusManual (fr_Controls fr)
        \<and> fr_Missing fr = having StatusMissing (fr_Controls fr)
        \<and> fr_Pass fr + fr_Manual fr + fr_Missing fr = int (length (fr_Controls fr)) \<and> fr_Controls fr \<noteq> []
        \<and> (\<forall>r \<in> set (fr_Controls fr). result_wf r))"
proof -
  have n: "map fst framework_table = [''ISO 27001:2022'', ''SOC 2'', ''PCI DSS 4.0'', ''HIPAA'', ''GDPR'']"
    "\<forall>fw \<in> set framework_table. snd fw \<noteq> []" by (simp_all add: framework_table_def)
  have "map fr_Name (buildFrameworks s) = map fst framework_table" for s
    by (simp add: frameworks_eq comp_def case_prod_beta Let_def)
  with n wf_functions show ?thesis
    by (auto simp: BuildComplianceReport_def Let_def frameworks_eq wf_verdict having_total case_prod_beta)
qed

definition demo_evidence_set :: "(string \<times> string) list \<Rightarrow> bool \<Rightarrow> unit ComplianceEvidence" where
  "demo_evidence_set us backup = \<lparr>ce_Timeline = None, ce_AuditEntries = [], ce_Users = us, ce_Webhooks = 0, ce_HasBackup = backup,
     ce_HasVault = False, ce_MaxIssues = 0\<rparr>"

theorem compliance_wf_witness:
  "let fs = cp_Frameworks (BuildComplianceReport toy 1 (demo_evidence_set [(''u1'', ''admin''), (''u2'', ''viewer'')] True)) in
   length fs = 5 \<and> (\<forall>fr \<in> set fs. fr_Pass fr + fr_Manual fr + fr_Missing fr = int (length (fr_Controls fr)))"
proof -
  let ?r = "BuildComplianceReport toy 1 (demo_evidence_set [(''u1'', ''admin''), (''u2'', ''viewer'')] True)"
  from compliance_wf [of toy 1 "demo_evidence_set [(''u1'', ''admin''), (''u2'', ''viewer'')] True"]
  have "length (map fr_Name (cp_Frameworks ?r)) = 5"
    "\<forall>fr \<in> set (cp_Frameworks ?r). fr_Pass fr + fr_Manual fr + fr_Missing fr = int (length (fr_Controls fr))" by (simp, blast)
  then show ?thesis by (simp add: Let_def)
qed

section \<open>More evidence\<close>

fun rank :: "ControlStatus \<Rightarrow> nat" where
  "rank StatusMissing = 0"
| "rank StatusManual = 1"
| "rank StatusPass = 2"

definition no_less :: "ComplianceSummary \<Rightarrow> ComplianceSummary \<Rightarrow> bool" where
  "no_less a b \<longleftrightarrow> su_TimelineEvents a \<le> su_TimelineEvents b \<and> (su_TimelineValid a \<longrightarrow> su_TimelineValid b)
     \<and> (su_CouncilAnchor a \<longrightarrow> su_CouncilAnchor b) \<and> su_Detections a \<le> su_Detections b \<and> su_Recoveries a \<le> su_Recoveries b
     \<and> su_AuditEntries a \<le> su_AuditEntries b \<and> su_Users a \<le> su_Users b \<and> set (su_Roles a) \<subseteq> set (su_Roles b)
     \<and> (su_HasBackup a \<longrightarrow> su_HasBackup b) \<and> (su_HasVault a \<longrightarrow> su_HasVault b) \<and> su_Webhooks a \<le> su_Webhooks b"

lemma facts_roles: "distinct (su_Roles (computeFacts P ev))" "0 \<le> su_Users (computeFacts P ev)"
proof -
  have "distinct (fold add_key ks acc)" if "distinct acc" for ks acc using that by (induction ks arbitrary: acc) simp_all
  then show "distinct (su_Roles (computeFacts P ev))" "0 \<le> su_Users (computeFacts P ev)" by (simp_all add: computeFacts_def Let_def)
qed

lemma roles_grow: "no_less a b \<Longrightarrow> distinct (su_Roles a) \<Longrightarrow> length (su_Roles a) \<le> length (su_Roles b)"
  by (metis no_less_def List.finite_set card_length card_mono distinct_card order_trans)

lemma status_cr [simp]: "cr_Status (pass ev) = StatusPass" "cr_Status (manual n) = StatusManual" "cr_Status missing = StatusMissing"
  by (simp_all add: pass_def manual_def missing_def)

lemma monotone_functions:
  assumes "no_less a b" "distinct (su_Roles a)" "0 \<le> su_Users a"
  shows "\<forall>fw \<in> set framework_table. \<forall>d \<in> set (snd fw). rank (cr_Status (snd (snd d) a)) \<le> rank (cr_Status (snd (snd d) b))"
  by (rule table_all) (use assms(1,3) roles_grow [OF assms(1,2)] in \<open>auto simp: status_defs no_less_def\<close>)

lemma having_mono: "\<forall>d \<in> set ds. rank (cr_Status (snd (snd d) a)) \<le> rank (cr_Status (snd (snd d) b)) \<Longrightarrow>
  having StatusPass (map (verdict a) ds) \<le> having StatusPass (map (verdict b) ds)
  \<and> having StatusMissing (map (verdict b) ds) \<le> having StatusMissing (map (verdict a) ds)"
proof (induction ds)
  case (Cons d ds)
  have v: "cr_Status (verdict s d) = cr_Status (snd (snd d) s)" for s by (simp add: verdict_def)
  show ?case using Cons
    by (cases "cr_Status (snd (snd d) a)"; cases "cr_Status (snd (snd d) b)") (auto simp: v)
qed simp

text \<open>
  More evidence never worsens a report: every control keeps its verdict or improves from missing to
  manual to pass, so each framework passes no fewer and misses no more.
\<close>

theorem compliance_monotone:
  assumes "no_less (computeFacts P ev) (computeFacts P ev')"
  shows "list_all2 (\<lambda>f g. fr_Name f = fr_Name g \<and> fr_Pass f \<le> fr_Pass g \<and> fr_Missing g \<le> fr_Missing f
      \<and> list_all2 (\<lambda>c d. cr_ID c = cr_ID d \<and> rank (cr_Status c) \<le> rank (cr_Status d)) (fr_Controls f) (fr_Controls g))
    (cp_Frameworks (BuildComplianceReport P now ev)) (cp_Frameworks (BuildComplianceReport P now' ev'))"
proof -
  note m = monotone_functions [OF assms facts_roles]
  show ?thesis
    unfolding BuildComplianceReport_def Let_def ComplianceReport.simps frameworks_eq
    using m having_mono
    by (auto simp: list_all2_map1 list_all2_map2 list.rel_refl_strong list_all2_same verdict_def case_prod_beta)
qed

theorem compliance_monotone_witness:
  "list_all2 (\<lambda>f g. fr_Pass f \<le> fr_Pass g) (cp_Frameworks (BuildComplianceReport toy 1 (demo_evidence_set [] False)))
     (cp_Frameworks (BuildComplianceReport toy 2 (demo_evidence_set [(''u1'', ''admin''), (''u2'', ''viewer'')] True)))"
  by (rule list_all2_mono [OF compliance_monotone]) (simp_all add: no_less_def computeFacts_def demo_evidence_set_def)

section \<open>An invalid timeline\<close>

lemma chain_controls:
  "\<forall>fw \<in> set framework_table. \<forall>d \<in> set (snd fw). fst d \<in> {''A.8.11'', ''CC8.1'', ''Req 10'', ''164.312(c)'', ''Art. 32''} \<longrightarrow>
     snd (snd d) \<in> {logStatus, changeStatus, integrityStatus, processingStatus}"
  by (simp add: framework_table_def)

lemma event_controls:
  "\<forall>fw \<in> set framework_table. \<forall>d \<in> set (snd fw). fst d \<in> {''A.8.12'', ''CC7.2'', ''CC7.3''} \<longrightarrow>
     snd (snd d) \<in> {monitorStatus, incidentStatus}"
  by (simp add: framework_table_def)

lemma count_type_pos: "0 < count_type ty es \<longleftrightarrow> ty \<in> ev_Type ` set es"
  by (auto simp: count_type_def filter_empty_conv image_iff)

text \<open>
  For a timeline that does not verify, the first finding says so and no control about the
  chain passes; the controls on detection and on incident response still pass on the mere presence of a DETECTED event, a
  RECOVERY event and a council key, which nobody has verified.
\<close>

theorem compliance_invalid:
  assumes "ce_Timeline ev = Some t" "\<not> tl_Verify P t" "tl_events t \<noteq> []"
  shows "hd (cp_Findings (BuildComplianceReport P now ev)) = ''TIMELINE FAILS VERIFICATION '' @ mdash @ '' do not submit this report''
   \<and> (\<forall>fr \<in> set (cp_Frameworks (BuildComplianceReport P now ev)). \<forall>r \<in> set (fr_Controls fr).
        (cr_ID r \<in> {''A.8.11'', ''CC8.1'', ''Req 10'', ''164.312(c)'', ''Art. 32''} \<longrightarrow> cr_Status r \<noteq> StatusPass)
        \<and> (cr_ID r \<in> {''A.8.12'', ''CC7.2'', ''CC7.3''} \<and> EvDetected \<in> ev_Type ` set (tl_events t) \<and> EvRecovery \<in> ev_Type ` set (tl_events t)
             \<and> length (slice_bytes (tl_council t)) = 32 \<longrightarrow> cr_Status r = StatusPass))"
proof -
  let ?s = "computeFacts P ev"
  have s: "\<not> su_TimelineValid ?s" "0 < su_TimelineEvents ?s" "su_CouncilAnchor ?s \<longleftrightarrow> length (slice_bytes (tl_council t)) = 32"
    "0 < su_Detections ?s \<longleftrightarrow> EvDetected \<in> ev_Type ` set (tl_events t)" "0 < su_Recoveries ?s \<longleftrightarrow> EvRecovery \<in> ev_Type ` set (tl_events t)"
    using assms by (simp_all add: computeFacts_def Let_def count_type_pos)
  have c: "cr_Status (fn ?s) \<noteq> StatusPass" if "fn \<in> {logStatus, changeStatus, integrityStatus, processingStatus}" for fn
    using that s by (auto simp: status_defs missing_def)
  have e: "cr_Status (fn ?s) = StatusPass" if "fn \<in> {monitorStatus, incidentStatus}" "0 < su_Detections ?s" "0 < su_Recoveries ?s" "su_CouncilAnchor ?s" for fn
    using that by (auto simp: status_defs)
  have f: "hd (findings_of ?s) = ''TIMELINE FAILS VERIFICATION '' @ mdash @ '' do not submit this report''" using s by (simp add: findings_of_def)
  have "(cr_ID r \<in> {''A.8.11'', ''CC8.1'', ''Req 10'', ''164.312(c)'', ''Art. 32''} \<longrightarrow> cr_Status r \<noteq> StatusPass)
        \<and> (cr_ID r \<in> {''A.8.12'', ''CC7.2'', ''CC7.3''} \<and> EvDetected \<in> ev_Type ` set (tl_events t) \<and> EvRecovery \<in> ev_Type ` set (tl_events t)
             \<and> length (slice_bytes (tl_council t)) = 32 \<longrightarrow> cr_Status r = StatusPass)"
    if r: "fr \<in> set (buildFrameworks ?s)" "r \<in> set (fr_Controls fr)" for fr r
  proof -
    obtain fw d where d: "fw \<in> set framework_table" "d \<in> set (snd fw)" "r = verdict ?s d"
      using r by (auto simp: frameworks_eq Let_def case_prod_beta)
    have v: "cr_ID r = fst d" "cr_Status r = cr_Status (snd (snd d) ?s)" by (simp_all add: d(3) verdict_def)
    show ?thesis unfolding v
      using chain_controls event_controls d(1,2) c e [of "snd (snd d)"] s(3-5) by (metis (no_types, lifting))
  qed
  with f show ?thesis by (simp add: BuildComplianceReport_def Let_def)
qed

definition demo_unverified :: Timeline where
  "demo_unverified = demo0\<lparr>tl_events := [ev_zero\<lparr>ev_Type := EvDetected, ev_ParentHash := Some []\<rparr>, ev_zero\<lparr>ev_Type := EvRecovery\<rparr>],
     tl_council := Some (replicate 32 0)\<rparr>"

theorem compliance_invalid_witness:
  "\<not> tl_Verify toy demo_unverified
   \<and> (\<forall>fr \<in> set (cp_Frameworks (BuildComplianceReport toy 0 ((demo_evidence_set [] True)\<lparr>ce_Timeline := Some demo_unverified\<rparr>))).
        \<forall>r \<in> set (fr_Controls fr). cr_ID r = ''CC7.3'' \<longrightarrow> cr_Status r = StatusPass)"
proof -
  have "check_event P a c None pub (ev_zero\<lparr>ev_Type := EvDetected, ev_ParentHash := Some []\<rparr>) = None" for P a c pub by (simp add: check_event_def)
  then have n: "\<not> tl_Verify toy demo_unverified"
    by (simp add: tl_Verify_def LocateBadEvent_def walkVerify_def demo_unverified_def)
  have e: "tl_events demo_unverified \<noteq> []" "EvDetected \<in> ev_Type ` set (tl_events demo_unverified)"
    "EvRecovery \<in> ev_Type ` set (tl_events demo_unverified)" "length (slice_bytes (tl_council demo_unverified)) = 32"
    by (simp_all add: demo_unverified_def)
  from compliance_invalid [of "(demo_evidence_set [] True)\<lparr>ce_Timeline := Some demo_unverified\<rparr>", OF _ n e(1), of 0] e(2-4) n
  show ?thesis by simp
qed

end
