(* ===== verification/OrchProps.thy ===== *)
theory OrchProps
  imports OrchCli ComplianceProps
begin

text \<open>
  The operator's programs: the policy decision point against the policy check of the engine, the report that has no timeline, and
  the commands on an empty one.
\<close>

section \<open>The policy decision point\<close>

definition ident_of :: "prims \<Rightarrow> TrustEvent \<Rightarrow> string option" where
  "ident_of P e = (if ev_Type e \<noteq> EvIssue then None else unmarshal P identity_fields [] (slice_bytes (ev_Payload e)))"

lemma count_fold_lookup:
  "map_of (fold (\<lambda>e m. case f e of None \<Rightarrow> m | Some i \<Rightarrow> count_key i m) es []) i
    = (let n = length (filter (\<lambda>e. f e = Some i) es) in if n = 0 then None else Some (int n))"
proof (induction es rule: rev_induct)
  case (snoc e es)
  then show ?case by (auto simp: count_key_lookup Let_def split: option.splits)
qed simp

lemma pdp_counts_fold: "pdp_counts P es = fold (\<lambda>e m. case ident_of P e of None \<Rightarrow> m | Some i \<Rightarrow> count_key i m) es []"
  unfolding pdp_counts_def by (rule fold_cong) (auto simp: ident_of_def fun_eq_iff)

lemma pdp_distinct: "distinct (map fst (pdp_counts P es))"
proof -
  have "distinct (map fst m) \<Longrightarrow> distinct (map fst (fold (\<lambda>e m. case f e of None \<Rightarrow> m | Some i \<Rightarrow> count_key i m) es m))" for m and f :: "TrustEvent \<Rightarrow> string option"
    by (induction es arbitrary: m) (auto simp: count_key_def distinct_update split: option.splits)
  from this [of "[]"] show ?thesis by (simp add: pdp_counts_fold)
qed

text \<open>A payload the engine decodes names the same identity for the decision point.\<close>

lemma decode_identity_one:
  assumes "decode_members ip_fields [(k, v)] r = Some r'"
  shows "decode_members identity_fields [(k, v)] (ip_Identity r) = Some (ip_Identity r')"
proof -
  consider (c) "same_key ''cert_id'' k" "\<not> same_key ''identity'' k" | (i) "same_key ''identity'' k" "\<not> same_key ''cert_id'' k"
    | (n) "\<not> same_key ''identity'' k" "\<not> same_key ''cert_id'' k"
    by (cases "same_key ''identity'' k"; cases "same_key ''cert_id'' k") (auto simp: same_key_def lower_def)
  then show ?thesis
    by cases (use assms in \<open>auto simp: ip_fields_def identity_fields_def string_field_def split: json.splits if_splits\<close>)
qed

lemma decode_identity:
  "decode_members ip_fields kvs r = Some p \<Longrightarrow> decode_members identity_fields kvs (ip_Identity r) = Some (ip_Identity p)"
proof (induction kvs arbitrary: r)
  case (Cons kv kvs)
  from Cons.prems obtain r' where r: "decode_members ip_fields [kv] r = Some r'" "decode_members ip_fields kvs r' = Some p"
    using decode_members_append [of ip_fields "[kv]" kvs] by (auto simp: bind_eq_Some_conv)
  have "decode_members identity_fields [kv] (ip_Identity r) = Some (ip_Identity r')"
    using decode_identity_one [of "fst kv" "snd kv"] r(1) by simp
  with Cons.IH [OF r(2)] show ?case using decode_members_append [of identity_fields "[kv]" kvs] by simp
qed simp

lemma issue_identity: "issue_of P e = Some p \<Longrightarrow> ident_of P e = Some (ip_Identity p)"
proof -
  assume i: "issue_of P e = Some p"
  then obtain j where j: "json_parse P (slice_bytes (ev_Payload e)) = Some j" "decode_struct ip_fields ip_zero j = Some p" "ev_Type e = EvIssue"
    by (auto simp: issue_of_def unmarshal_def bind_eq_Some_conv split: if_splits)
  then have "decode_struct identity_fields [] j = Some (ip_Identity p)"
    using decode_identity [of _ ip_zero p] by (auto simp: decode_struct_def ip_zero_def split: json.splits)
  with j show ?thesis by (simp add: ident_of_def unmarshal_def)
qed

lemma policy_counts_fold:
  "policy_counts P es = fold (\<lambda>e m. case map_option ip_Identity (issue_of P e) of None \<Rightarrow> m | Some i \<Rightarrow> count_key i m) es []"
  unfolding policy_counts_def by (rule fold_cong) (auto simp: fun_eq_iff split: option.splits)

lemma decisions_iff:
  "(i, ok, n) \<in> set (pdp_decisions P pol es) \<longleftrightarrow> map_of (pdp_counts P es) i = Some n \<and> (ok \<longleftrightarrow> n \<le> pol)"
proof -
  have "i \<in> fst ` set (pdp_counts P es) \<longleftrightarrow> map_of (pdp_counts P es) i \<noteq> None" by (simp add: map_of_eq_None_iff)
  moreover have "(i, ok, n) \<in> set (pdp_decisions P pol es) \<longleftrightarrow> i \<in> fst ` set (pdp_counts P es)
      \<and> n = the (map_of (pdp_counts P es) i) \<and> ok = (the (map_of (pdp_counts P es) i) \<le> pol)"
    unfolding pdp_decisions_def Let_def by (simp add: image_iff) blast
  ultimately show ?thesis by auto
qed

lemma policy_reports:
  "set (CheckPolicy P es pol) = (\<lambda>(k, n). k @ '': '' @ fmt_int n @ '' issues > '' @ fmt_int pol) ` {kn \<in> set (policy_counts P es). pol < snd kn}"
  by (auto simp: CheckPolicy_def List.map_filter_def image_def split: if_splits prod.splits)

lemma policy_same:
  assumes "\<forall>e \<in> set es. ev_Type e = EvIssue \<longrightarrow> issue_of P e \<noteq> None"
  shows "pdp_counts P es = policy_counts P es"
proof -
  have "ident_of P e = map_option ip_Identity (issue_of P e)" if "e \<in> set es" for e
  proof (cases "issue_of P e")
    case None
    then show ?thesis using assms that by (auto simp: ident_of_def)
  qed (simp add: issue_identity)
  then show ?thesis unfolding pdp_counts_fold policy_counts_fold by (intro fold_cong refl) (simp add: fun_eq_iff)
qed

lemma policy_fewer:
  assumes "(i, n) \<in> set (policy_counts P es)"
  obtains n' where "n \<le> n'" "map_of (pdp_counts P es) i = Some n'"
proof -
  have "map_of (policy_counts P es) i = Some n" using assms policy_distinct by (simp add: map_of_is_SomeI)
  then have n: "n = int (length (filter (\<lambda>e. \<exists>p. issue_of P e = Some p \<and> ip_Identity p = i) es))" "n \<noteq> 0"
    by (auto simp: policy_lookup Let_def split: if_splits)
  have "length (filter (\<lambda>e. \<exists>p. issue_of P e = Some p \<and> ip_Identity p = i) es) \<le> length (filter (\<lambda>e. ident_of P e = Some i) es)"
    by (induction es) (auto dest: issue_identity)
  with n show ?thesis
    by (intro that [of "int (length (filter (\<lambda>e. ident_of P e = Some i) es))"]) (auto simp: pdp_counts_fold count_fold_lookup Let_def)
qed

text \<open>
  C39: the decision point denies every identity over the limit by the counts of the engine's policy check, with at least its
  count, and lists each identity once, in alphabetical order; where every ISSUE payload decodes as the engine decodes it, the reports of
  the policy check are exactly its denials.
\<close>

theorem pdp_policy:
  "(\<forall>(i, n) \<in> set (policy_counts P es). pol < n \<longrightarrow> (\<exists>n' \<ge> n. (i, False, n') \<in> set (pdp_decisions P pol es)))
   \<and> sorted (map fst (pdp_decisions P pol es)) \<and> distinct (map fst (pdp_decisions P pol es))
   \<and> ((\<forall>e \<in> set es. ev_Type e = EvIssue \<longrightarrow> issue_of P e \<noteq> None) \<longrightarrow>
        set (CheckPolicy P es pol) = (\<lambda>(i, ok, n). i @ '': '' @ fmt_int n @ '' issues > '' @ fmt_int pol) ` {d \<in> set (pdp_decisions P pol es). \<not> fst (snd d)})"
proof (intro conjI impI)
  show "\<forall>(i, n) \<in> set (policy_counts P es). pol < n \<longrightarrow> (\<exists>n' \<ge> n. (i, False, n') \<in> set (pdp_decisions P pol es))"
  proof (clarify)
    fix i n assume "(i, n) \<in> set (policy_counts P es)" "pol < n"
    then obtain n' where "n \<le> n'" "map_of (pdp_counts P es) i = Some n'" using policy_fewer by metis
    with \<open>pol < n\<close> show "\<exists>n' \<ge> n. (i, False, n') \<in> set (pdp_decisions P pol es)" by (intro exI [of _ n']) (auto simp: decisions_iff)
  qed
  show "sorted (map fst (pdp_decisions P pol es))" "distinct (map fst (pdp_decisions P pol es))"
    using pdp_distinct [of P es] by (simp_all add: pdp_decisions_def Let_def comp_def)
  assume all: "\<forall>e \<in> set es. ev_Type e = EvIssue \<longrightarrow> issue_of P e \<noteq> None"
  have "{d \<in> set (pdp_decisions P pol es). \<not> fst (snd d)} = (\<lambda>(k, n). (k, False, n)) ` {kn \<in> set (policy_counts P es). pol < snd kn}"
    using policy_same [OF all] policy_distinct [of P es] by (auto simp: decisions_iff image_iff)
  then show "set (CheckPolicy P es pol) = (\<lambda>(i, ok, n). i @ '': '' @ fmt_int n @ '' issues > '' @ fmt_int pol) ` {d \<in> set (pdp_decisions P pol es). \<not> fst (snd d)}"
    unfolding policy_reports by (simp add: image_image case_prod_beta)
qed

theorem pdp_policy_witness:
  "\<exists>e. issue_of zprims e = Some demo_fraud \<and> set (CheckPolicy zprims [e, e] 1)
     = (\<lambda>(i, ok, n). i @ '': '' @ fmt_int n @ '' issues > '' @ fmt_int 1) ` {d \<in> set (pdp_decisions zprims 1 [e, e]). \<not> fst (snd d)}"
proof -
  let ?e = "ev_zero\<lparr>ev_Type := EvIssue, ev_Payload := Some (json_text zprims (ip_json demo_fraud))\<rparr>"
  have "issue_of zprims ?e = Some demo_fraud" by (rule demo_fraud_issue) simp_all
  then show ?thesis using pdp_policy [of zprims "[?e, ?e]" 1] by (intro exI [of _ ?e]) simp
qed

section \<open>A report without a timeline\<close>

lemma demo_step_live:
  assumes "json_ok P" "ed_keypair P key" "tl_live P t" "tl_key t = Some key"
  shows "tl_live P (demo_step P i t) \<and> tl_key (demo_step P i t) = Some key \<and> length (tl_events (demo_step P i t)) = Suc (length (tl_events t))"
proof -
  let ?pl = "Some (json_text P (JObj [(''cert_id'', JStr (''c'' @ digits i)), (''identity'', JStr ''user'')]))"
  obtain h t' where a: "tl_append P t EvIssue ?pl (int i) = Inr (h, t')" using tl_append_ok [OF assms(4,2)] by blast
  obtain e where e: "t' = t\<lparr>tl_events := tl_events t @ [e]\<rparr>" by (rule tl_append_event [OF a assms(4)]) auto
  have "tl_live P t'" by (rule tl_step_live [OF assms(1) tl_step.Appends [OF a] assms(3)]) simp_all
  then show ?thesis using a e assms(4) by (simp add: demo_step_def)
qed

lemma demo_timeline_live:
  assumes "json_ok P" "ed_keypair P key"
  obtains t where "demo_timeline P key = Inr t" "tl_live P t" "length (tl_events t) = 12"
proof -
  obtain t0 where t0: "newTimeline (Some key) algoSHA256 = Inr t0" "tl_live P t0" using newTimeline_live [OF assms(2)] by blast
  then have k: "tl_key t0 = Some key" "tl_events t0 = []" by (auto simp: newTimeline_def split: if_splits)
  have "tl_live P (fold (demo_step P) is t) \<and> length (tl_events (fold (demo_step P) is t)) = length (tl_events t) + length is"
    if "tl_live P t" "tl_key t = Some key" for "is" t
    using that by (induction "is" arbitrary: t) (use demo_step_live [OF assms] in auto)
  from this [OF t0(2) k(1), of "[0..<12]"] show ?thesis
    using t0(1) k(2) by (intro that [of "fold (demo_step P) [0..<12] t0"]) (simp_all add: demo_timeline_def NewTimeline_def)
qed

lemma log_controls:
  "\<forall>fw \<in> set framework_table. \<forall>d \<in> set (snd fw). fst d \<in> {''A.8.11'', ''CC8.1'', ''Req 10'', ''164.312(c)''} \<longrightarrow>
     snd (snd d) \<in> {logStatus, changeStatus, integrityStatus}"
  by (simp add: framework_table_def)

text \<open>
  The report command run with no evidence at all writes a report in which logging, change management and
  integrity pass: in place of the missing timeline it audits a chain it has just made up itself.
\<close>

theorem report_demo:
  assumes "json_ok P" "ed_keypair P (oe_demo_key E)" "oe_can_write E ''reports/compliance.json''"
  shows "\<exists>r w'. report P E [''report''] w = (Done, w') \<and> ReadFile ''reports/compliance.json'' w' = Inr (oe_indent E (report_json E r))
    \<and> su_TimelineEvents (cp_Evidence r) = 12
    \<and> (\<forall>fr \<in> set (cp_Frameworks r). \<forall>c \<in> set (fr_Controls fr). cr_ID c \<in> {''A.8.11'', ''CC8.1'', ''Req 10'', ''164.312(c)''} \<longrightarrow> cr_Status c = StatusPass)"
proof -
  obtain t where t: "demo_timeline P (oe_demo_key E) = Inr t" "tl_live P t" "length (tl_events t) = 12" by (rule demo_timeline_live [OF assms(1,2)])
  define ev :: "AuditEntry ComplianceEvidence" where "ev = \<lparr>ce_Timeline = Some t, ce_AuditEntries = [], ce_Users = [], ce_Webhooks = 0,
     ce_HasBackup = False, ce_HasVault = False, ce_MaxIssues = 0\<rparr>"
  let ?r = "BuildComplianceReport P (oe_now E) ev" and ?s = "computeFacts P ev"
  have s: "su_TimelineValid ?s" "su_TimelineEvents ?s = 12" using t tl_live_Verify by (auto simp: computeFacts_def ev_def Let_def)
  have "cr_Status c = StatusPass" if c: "fr \<in> set (cp_Frameworks ?r)" "c \<in> set (fr_Controls fr)" "cr_ID c \<in> {''A.8.11'', ''CC8.1'', ''Req 10'', ''164.312(c)''}" for fr c
  proof -
    obtain fw d where d: "fw \<in> set framework_table" "d \<in> set (snd fw)" "c = verdict ?s d"
      using c(1,2) by (auto simp: BuildComplianceReport_def Let_def frameworks_eq case_prod_beta)
    then have "fst d \<in> {''A.8.11'', ''CC8.1'', ''Req 10'', ''164.312(c)''}" using c(3) by (simp add: verdict_def)
    then have "snd (snd d) \<in> {logStatus, changeStatus, integrityStatus}" using log_controls d(1,2) by blast
    then show ?thesis using s by (auto simp: d(3) verdict_def status_defs)
  qed
  moreover have "su_TimelineEvents (cp_Evidence ?r) = 12" using s by (simp add: BuildComplianceReport_def Let_def)
  moreover have "report P E [''report''] w = write_report E ''reports/compliance.json'' ?r w"
    by (simp add: report_def orch_load_def flag_def t(1) gather_def bind_got_def add_gateway_def add_audit_def add_backup_def add_vault_def add_policy_def ev_def)
  moreover obtain w' where "write_report E ''reports/compliance.json'' ?r w = (Done, w')" "ReadFile ''reports/compliance.json'' w' = Inr (oe_indent E (report_json E ?r))"
    using assms(3) by (simp add: write_report_def WriteFile_def ReadFile_def print_all_def)
  ultimately show ?thesis by (intro exI [of _ ?r] exI [of _ w']) simp
qed

definition demo_orch_env :: orch_env where
  "demo_orch_env = \<lparr>oe_demo_key = zkey, oe_rnd = Fin, oe_fmt0 = (\<lambda>x. []), oe_fmt2 = (\<lambda>x. []), oe_quote = (\<lambda>s. s), oe_now = 0, oe_time = (\<lambda>t. []),
     oe_indent = json_text zprims, oe_can_write = (\<lambda>p. True)\<rparr>"

theorem report_demo_witness:
  "\<exists>(r :: ComplianceReport) w'. report zprims demo_orch_env [''report''] \<lparr>w_files = [], w_out = []\<rparr> = (Done, w') \<and> su_TimelineEvents (cp_Evidence r) = 12
     \<and> (\<forall>fr \<in> set (cp_Frameworks r). \<forall>c \<in> set (fr_Controls fr). cr_ID c \<in> {''A.8.11'', ''CC8.1'', ''Req 10'', ''164.312(c)''} \<longrightarrow> cr_Status c = StatusPass)"
proof -
  have "ed_keypair zprims (oe_demo_key demo_orch_env)" "oe_can_write demo_orch_env ''reports/compliance.json''"
    using zkey_pair by (simp_all add: demo_orch_env_def)
  from report_demo [OF zprims_ok(3) this, of "\<lparr>w_files = [], w_out = []\<rparr>"] show ?thesis
    by (elim exE conjE) (intro exI conjI; assumption)
qed

section \<open>An empty timeline\<close>

text \<open>
  On a file with a valid timeline that has no events yet, and on nothing else that could be a timeline, the status and the timeline
  commands panic: the loader gives neither a timeline nor an error.
\<close>

theorem orch_empty:
  assumes "LoadTimeline P f w = Inr t" "tl_events t = []" "ReadFile f w = Inr raw" "envelope_timeline P raw = None" "f \<noteq> []"
  shows "orch_main P E serve [''status'', ''--events'', f] w = (Panics, w) \<and> orch_main P E serve [''timeline'', ''--events'', f] w = (Panics, w)"
  using assms by (simp add: orch_main_def orch_load_def Let_def orch_status_def orch_timeline_def with_tl_def)

lemma decode_unknown: "\<forall>(k, v) \<in> set kvs. \<not> same_key ''timeline'' k \<Longrightarrow> decode_members envelope_fields kvs r = Some r"
  by (induction kvs) (auto simp: envelope_fields_def)

lemma empty_no_envelope:
  assumes "json_ok P" "tl_wf t"
  shows "envelope_timeline P (tl_Marshal P t False) = None"
proof -
  let ?f = "\<lparr>tf_Events = tl_events t, tf_Pub = Some (tl_pub t), tf_StartPub = tl_start t, tf_CouncilPub = tl_council t, tf_Key = None,
     tf_HashAlgo = algoNames (tl_algo t)\<rparr>"
  have m: "tl_Marshal P t False = json_text P (tf_json P ?f)" by (simp add: tl_Marshal_def)
  have "plain (tf_json P ?f)" using assms by (intro plain_tf) (simp_all add: tl_wf_def)
  moreover have "decode_struct envelope_fields None (tf_json P ?f) = Some None"
    unfolding tf_json_def decode_struct_def json.case
    by (rule decode_unknown) (auto simp: same_key_def lower_def omit_slice_def omit_string_def split: if_splits)
  ultimately show ?thesis unfolding m envelope_timeline_def by (simp add: unmarshal_text [OF assms(1)])
qed

theorem orch_empty_witness:
  "\<exists>w. orch_main zprims demo_orch_env (\<lambda>a w. (Done, w)) [''status'', ''--events'', ''t''] w = (Panics, w)"
proof -
  let ?t = "projr (newTimeline (Some zkey) algoSHA256)"
  have n: "newTimeline (Some zkey) algoSHA256 = Inr ?t" "tl_events ?t = []" "tl_wf ?t"
    using zkey_length by (auto simp: newTimeline_def tl_wf_def len_in_def)
  let ?w = "\<lparr>w_files = [(''t'', tl_Marshal zprims ?t False)], w_out = []\<rparr>"
  have r: "ReadFile ''t'' ?w = Inr (tl_Marshal zprims ?t False)" by (simp add: ReadFile_def)
  obtain t' where t': "UnmarshalTimeline zprims (tl_Marshal zprims ?t False) = Inr t'" "tl_events t' = []"
    using unmarshal_marshal [OF zprims_ok(3) n(3), of False] n(2) by auto
  have "LoadTimeline zprims ''t'' ?w = Inr t'" using r t' by (simp add: LoadTimeline_def)
  from orch_empty [OF this t'(2) r empty_no_envelope [OF zprims_ok(3) n(3)]] show ?thesis by blast
qed

end
