(* ===== verification/Wire.thy ===== *)
theory Wire
  imports CouncilWire
begin

text \<open>
  The score wire of \<open>transport.go\<close> and its client side in \<open>fleet.go\<close>: a frame is a four-byte length and the JSON of
  a \<open>WireMsg\<close>; the server's loop reads frames off the bytes a connection delivers and hands them to a handler; a peer dials,
  writes one frame per score and drops the connection after an error.  A connection is the bytes written on it; whether dialling
  succeeds and where a write fails are arguments of the operation.
\<close>

section \<open>Numbers\<close>

text \<open>How the library prints a finite number and reads a number back.\<close>

record floats =
  fl_lit :: "rat \<Rightarrow> json"
  fl_read :: "json \<Rightarrow> f64 option"

fun f64_json :: "floats \<Rightarrow> f64 \<Rightarrow> json option" where
  "f64_json F (Fin x) = Some (fl_lit F x)"
| "f64_json F _ = None"

definition f64_field :: "floats \<Rightarrow> string \<Rightarrow> (f64 \<Rightarrow> 'r \<Rightarrow> 'r) \<Rightarrow> 'r field" where
  "f64_field F name upd = (name, \<lambda>j r. case j of
     JInt n \<Rightarrow> map_option (\<lambda>x. upd x r) (fl_read F j) | JNum t \<Rightarrow> map_option (\<lambda>x. upd x r) (fl_read F j)
   | JNull \<Rightarrow> Some r | _ \<Rightarrow> None)"

section \<open>Frames\<close>

definition wm_zero :: WireMsg where
  "wm_zero = \<lparr>wm_NodeID = [], wm_Score = Fin 0, wm_PValue = Fin 0, wm_Kind = [], wm_BadIdx = 0, wm_Evidence = []\<rparr>"

text \<open>None where a number is not finite: the document is refused.\<close>

definition wm_json :: "prims \<Rightarrow> floats \<Rightarrow> WireMsg \<Rightarrow> json option" where
  "wm_json P F m = (case (f64_json F (wm_Score m), f64_json F (wm_PValue m)) of
     (Some s, Some p) \<Rightarrow> Some (JObj ([(''node_id'', JStr (wm_NodeID m)), (''score'', s), (''p_value'', p), (''kind'', JStr (wm_Kind m))]
       @ omit_int ''bad_idx'' (wm_BadIdx m) @ omit_slice P ''evidence'' (Some (wm_Evidence m))))
   | _ \<Rightarrow> None)"

definition wm_fields :: "prims \<Rightarrow> floats \<Rightarrow> WireMsg field list" where
  "wm_fields P F = [string_field ''node_id'' (\<lambda>x m. m\<lparr>wm_NodeID := x\<rparr>), f64_field F ''score'' (\<lambda>x m. m\<lparr>wm_Score := x\<rparr>),
     f64_field F ''p_value'' (\<lambda>x m. m\<lparr>wm_PValue := x\<rparr>), string_field ''kind'' (\<lambda>x m. m\<lparr>wm_Kind := x\<rparr>),
     int_field ''bad_idx'' (\<lambda>x m. m\<lparr>wm_BadIdx := x\<rparr>), slice_field (b64_dec P) ''evidence'' (\<lambda>x m. m\<lparr>wm_Evidence := slice_bytes x\<rparr>)]"

datatype wire_error = WireMarshal | WireWrite | WireDial | WireEOF | BadHeader | FrameTooLarge | LengthMismatch | WireJson | HandlerError

text \<open>
  What the write leaves on the connection.  \<open>brk\<close> is None where both writes succeed; otherwise the write fails after that many bytes,
  and before the last one.
\<close>

definition WriteWire :: "prims \<Rightarrow> floats \<Rightarrow> nat option \<Rightarrow> WireMsg \<Rightarrow> bytes \<Rightarrow> wire_error option \<times> bytes" where
  "WriteWire P F brk m out = (case wm_json P F m of
     None \<Rightarrow> (Some WireMarshal, out)
   | Some j \<Rightarrow> (let b = json_text P j; f = be32 (int (length b)) @ b in
       (case brk of None \<Rightarrow> (None, out @ f) | Some k \<Rightarrow> (Some WireWrite, out @ take k (butlast f)))))"

definition ParseWireFrame :: "prims \<Rightarrow> floats \<Rightarrow> bytes \<Rightarrow> bytes \<Rightarrow> wire_error + WireMsg" where
  "ParseWireFrame P F hdr payload =
     (if length hdr \<noteq> 4 then Inl BadHeader
      else let n = nat (set_bytes hdr) in
        if 2 ^ 20 < n then Inl FrameTooLarge
        else if length payload mod 2 ^ 32 \<noteq> n then Inl LengthMismatch
        else (case unmarshal P (wm_fields P F) wm_zero payload of None \<Rightarrow> Inl WireJson | Some m \<Rightarrow> Inr m))"

text \<open>The loop over the bytes of a connection; the handler says whether it goes on.\<close>

function ServeWire :: "prims \<Rightarrow> floats \<Rightarrow> (WireMsg \<Rightarrow> 's \<Rightarrow> bool \<times> 's) \<Rightarrow> bytes \<Rightarrow> 's \<Rightarrow> wire_error option \<times> 's" where
  "ServeWire P F handler inp s =
     (if inp = [] then (None, s)
      else if length inp < 4 then (Some WireEOF, s)
      else let hdr = take 4 inp; n = nat (set_bytes hdr) in
        if 2 ^ 20 < n then (Some FrameTooLarge, s)
        else if length inp < 4 + n then (Some WireEOF, s)
        else (case ParseWireFrame P F hdr (take n (drop 4 inp)) of
            Inl e \<Rightarrow> (Some e, s)
          | Inr m \<Rightarrow> (case handler m s of
              (False, s') \<Rightarrow> (Some HandlerError, s')
            | (True, s') \<Rightarrow> ServeWire P F handler (drop (4 + n) inp) s')))"
  by pat_completeness auto
termination
  by (relation "measure (\<lambda>(P, F, h, inp, s). length inp)") auto

declare ServeWire.simps [simp del]

text \<open>The service of one peer: frames that arrive at one moment.\<close>

definition Handle :: "prims \<Rightarrow> floats \<Rightarrow> rounding \<Rightarrow> int \<Rightarrow> string \<Rightarrow> bytes \<Rightarrow> FleetServer \<Rightarrow> wire_error option \<times> FleetServer" where
  "Handle P F rnd now addr inp f = ServeWire P F (handle_wire rnd now addr) inp f"

section \<open>The peer\<close>

text \<open>\<open>fp_conn\<close> is the open connection, \<open>fp_past\<close> the ones it closed.\<close>

record FleetPeer =
  fp_conn :: "bytes option"
  fp_past :: "bytes list"

definition NewFleetPeer :: FleetPeer where
  "NewFleetPeer = \<lparr>fp_conn = None, fp_past = []\<rparr>"

definition peer_dial :: "bool \<Rightarrow> FleetPeer \<Rightarrow> bytes option" where
  "peer_dial up p = (case fp_conn p of Some out \<Rightarrow> Some out | None \<Rightarrow> if up then Some [] else None)"

definition Send :: "prims \<Rightarrow> floats \<Rightarrow> bool \<Rightarrow> nat option \<Rightarrow> Score \<Rightarrow> FleetPeer \<Rightarrow> wire_error option \<times> FleetPeer" where
  "Send P F up brk s p = (case peer_dial up p of
     None \<Rightarrow> (Some WireDial, p)
   | Some out \<Rightarrow> (case WriteWire P F brk (WireMsgFromScore P s ''live'') out of
       (None, out') \<Rightarrow> (None, p\<lparr>fp_conn := Some out'\<rparr>)
     | (Some e, out') \<Rightarrow> (Some e, p\<lparr>fp_conn := None, fp_past := fp_past p @ [out']\<rparr>)))"

definition ClosePeer :: "FleetPeer \<Rightarrow> FleetPeer" where
  "ClosePeer p = (case fp_conn p of None \<Rightarrow> p | Some out \<Rightarrow> p\<lparr>fp_conn := None, fp_past := fp_past p @ [out]\<rparr>)"

end
