(* ===== verification/WireProps.thy ===== *)
theory WireProps
  imports Wire VaultProps "HOL-Library.Sublist"
begin

text \<open>
  The score wire: what a server reads of any bytes, that frames survive the wire whatever happens to the connections, and that the
  service of a connection is the frame handler folded over what was read.
\<close>

section \<open>Reading\<close>

definition next_msg :: "prims \<Rightarrow> floats \<Rightarrow> bytes \<Rightarrow> wire_error option + WireMsg \<times> bytes" where
  "next_msg P F inp =
     (if inp = [] then Inl None
      else if length inp < 4 then Inl (Some WireEOF)
      else let n = nat (set_bytes (take 4 inp)) in
        if 2 ^ 20 < n then Inl (Some FrameTooLarge)
        else if length inp < 4 + n then Inl (Some WireEOF)
        else (case ParseWireFrame P F (take 4 inp) (take n (drop 4 inp)) of
            Inl e \<Rightarrow> Inl (Some e) | Inr m \<Rightarrow> Inr (m, drop (4 + n) inp)))"

lemma ServeWire_next: "ServeWire P F h inp s = (case next_msg P F inp of
    Inl e \<Rightarrow> (e, s)
  | Inr (m, r) \<Rightarrow> (case h m s of (False, s') \<Rightarrow> (Some HandlerError, s') | (True, s') \<Rightarrow> ServeWire P F h r s'))"
  by (subst ServeWire.simps) (simp add: next_msg_def Let_def split: sum.splits)

lemma next_msg_shorter: "next_msg P F inp = Inr (m, r) \<Longrightarrow> length r < length inp"
  by (auto simp: next_msg_def Let_def split: if_splits sum.splits)

text \<open>The messages of a stream.\<close>

definition received :: "prims \<Rightarrow> floats \<Rightarrow> bytes \<Rightarrow> WireMsg list" where
  "received P F inp = snd (ServeWire P F (\<lambda>m ms. (True, ms @ [m])) inp [])"

lemma collect_append: "snd (ServeWire P F (\<lambda>m ms. (True, ms @ [m])) inp acc) = acc @ received P F inp"
proof (induction "length inp" arbitrary: inp acc rule: less_induct)
  case less
  show ?case
  proof (cases "next_msg P F inp")
    case (Inr mr)
    obtain m r where mr: "mr = (m, r)" by (cases mr)
    from next_msg_shorter [OF Inr [unfolded mr]] less
    have "snd (ServeWire P F (\<lambda>m ms. (True, ms @ [m])) r a) = a @ received P F r" for a by blast
    with Inr mr show ?thesis by (simp add: received_def [of P F inp] ServeWire_next [of _ _ _ inp])
  qed (simp add: received_def ServeWire_next [of _ _ _ inp])
qed

lemma received_next: "received P F inp = (case next_msg P F inp of Inl _ \<Rightarrow> [] | Inr (m, r) \<Rightarrow> m # received P F r)"
  by (simp add: received_def [of P F inp] ServeWire_next [of _ _ _ inp] collect_append split: sum.split prod.split)

lemma serve_conn: "snd (Handle P F rnd now addr inp f) = handle_conn rnd now addr (received P F inp) f"
  unfolding Handle_def
proof (induction "length inp" arbitrary: inp f rule: less_induct)
  case less
  show ?case
  proof (cases "next_msg P F inp")
    case (Inr mr)
    obtain m r where mr: "mr = (m, r)" by (cases mr)
    from next_msg_shorter [OF Inr [unfolded mr]] less
    have "snd (ServeWire P F (handle_wire rnd now addr) r g) = handle_conn rnd now addr (received P F r) g" for g by blast
    with Inr mr show ?thesis
      by (simp add: received_next [of _ _ inp] ServeWire_next [of _ _ _ inp] split: prod.split bool.split)
  qed (simp add: received_next [of _ _ inp] ServeWire_next [of _ _ _ inp])
qed

lemma next_msg_take:
  assumes "next_msg P F (take k inp) = Inr (m, r)"
  shows "\<exists>k'. next_msg P F inp = Inr (m, drop k' inp) \<and> k' \<le> k \<and> r = take (k - k') (drop k' inp)"
proof -
  let ?n = "nat (set_bytes (take 4 (take k inp)))"
  have l: "4 \<le> k" "4 \<le> length inp" "4 + ?n \<le> length (take k inp)" and r: "r = drop (4 + ?n) (take k inp)"
    using assms by (auto simp: next_msg_def Let_def split: if_splits sum.splits)
  have t: "take 4 (take k inp) = take 4 inp" using l by (simp add: min_def)
  have d: "take ?n (drop 4 (take k inp)) = take ?n (drop 4 inp)" using l by (auto simp: drop_take min_def split: if_splits)
  have "next_msg P F inp = Inr (m, drop (4 + ?n) inp)"
    using assms l d unfolding t by (auto simp: next_msg_def Let_def t d split: if_splits sum.splits)
  with l r show ?thesis by (intro exI [of _ "4 + ?n"]) (simp add: drop_take)
qed

lemma received_take: "prefix (received P F (take k inp)) (received P F inp)"
proof (induction "length inp" arbitrary: inp k rule: less_induct)
  case less
  show ?case
  proof (cases "next_msg P F (take k inp)")
    case (Inl e)
    then show ?thesis by (simp add: received_next [of _ _ "take k inp"])
  next
    case (Inr mr)
    obtain m r where mr: "mr = (m, r)" by (cases mr)
    obtain k' where k: "next_msg P F inp = Inr (m, drop k' inp)" "r = take (k - k') (drop k' inp)"
      using next_msg_take [OF Inr [unfolded mr]] by blast
    have "prefix (received P F r) (received P F (drop k' inp))"
      unfolding k(2) by (rule less) (rule next_msg_shorter [OF k(1)])
    with Inr mr k(1) show ?thesis by (simp add: received_next [of _ _ "take k inp"] received_next [of _ _ inp])
  qed
qed

section \<open>Writing\<close>

lemma set_bytes_be32: "0 \<le> x \<Longrightarrow> x < 2 ^ 32 \<Longrightarrow> set_bytes (be32 x) = x"
  using foldl_be [of x 4] by (simp add: set_bytes_def be32_def upt_rec)

lemma length_be32 [simp]: "length (be32 x) = 4"
  by (simp add: be32_def)

lemma ParseWireFrame_length: "ParseWireFrame P F h b = Inr m \<Longrightarrow> length h = 4"
  by (auto simp: ParseWireFrame_def split: if_splits)

lemma next_msg_frame:
  assumes "length b \<le> 2 ^ 20" "unmarshal P (wm_fields P F) wm_zero b = Some m"
  shows "next_msg P F (be32 (int (length b)) @ b @ r) = Inr (m, r)"
proof -
  have "set_bytes (be32 (int (length b))) = int (length b)" using assms(1) by (intro set_bytes_be32) simp_all
  moreover have "length b mod 2 ^ 32 = length b" using assms(1) by (intro mod_less) simp
  moreover have "be32 (int (length b)) \<noteq> []" using length_be32 [of "int (length b)"] by force
  ultimately show ?thesis using assms by (simp add: next_msg_def ParseWireFrame_def Let_def)
qed

lemma next_msg_partial:
  assumes "length b \<le> 2 ^ 20"
  shows "\<exists>e. next_msg P F (take k (butlast (be32 (int (length b)) @ b))) = Inl e"
proof -
  let ?f = "be32 (int (length b)) @ b" and ?i = "take k (butlast (be32 (int (length b)) @ b))"
  have l: "length ?i < 4 + length b" by (simp add: min_def)
  have "nat (set_bytes (take 4 ?i)) = length b" if "4 \<le> length ?i"
  proof -
    have "take 4 ?i = take 4 ?f" using that by (simp add: butlast_conv_take min_def split: if_splits)
    then have "take 4 ?i = be32 (int (length b))" by simp
    then show ?thesis using assms by (simp add: set_bytes_be32)
  qed
  with l show ?thesis by (auto simp: next_msg_def Let_def)
qed

section \<open>Round trip of a frame\<close>

text \<open>The documents the library reads back: as \<open>plain\<close>, with the literals of numbers.\<close>

fun plain_lits :: "string set \<Rightarrow> json \<Rightarrow> bool" where
  "plain_lits L JNull \<longleftrightarrow> True"
| "plain_lits L (JBool b) \<longleftrightarrow> True"
| "plain_lits L (JInt n) \<longleftrightarrow> True"
| "plain_lits L (JNum t) \<longleftrightarrow> t \<in> L"
| "plain_lits L (JStr s) \<longleftrightarrow> ascii s"
| "plain_lits L (JArr js) \<longleftrightarrow> (\<forall>j \<in> set js. plain_lits L j)"
| "plain_lits L (JObj kvs) \<longleftrightarrow> (\<forall>(k, j) \<in> set kvs. ascii k \<and> plain_lits L j)"

text \<open>A number that is a float64 is printed as a literal that reads back as it.\<close>

definition literals :: "rounding \<Rightarrow> floats \<Rightarrow> string set" where
  "literals rnd F = {t. \<exists>x. rnd x = Fin x \<and> fl_lit F x = JNum t}"

definition floats_ok :: "prims \<Rightarrow> rounding \<Rightarrow> floats \<Rightarrow> bool" where
  "floats_ok P rnd F \<longleftrightarrow> (\<forall>x. rnd x = Fin x \<longrightarrow> fl_read F (fl_lit F x) = Some (Fin x)
       \<and> (case fl_lit F x of JInt n \<Rightarrow> True | JNum t \<Rightarrow> True | _ \<Rightarrow> False))
     \<and> (\<forall>j. plain_lits (literals rnd F) j \<longrightarrow> json_parse P (json_text P j) = Some j)"

definition float64 :: "rounding \<Rightarrow> f64 \<Rightarrow> bool" where
  "float64 rnd x = (case x of Fin q \<Rightarrow> rnd q = Fin q | _ \<Rightarrow> True)"

lemma f64_field_lit:
  assumes "floats_ok P rnd F" "rnd x = Fin x"
  shows "snd (f64_field F name upd) (fl_lit F x) r = Some (upd (Fin x) r)" "plain_lits (literals rnd F) (fl_lit F x)"
proof -
  have l: "fl_read F (fl_lit F x) = Some (Fin x)" "case fl_lit F x of JInt n \<Rightarrow> True | JNum t \<Rightarrow> True | _ \<Rightarrow> False"
    using assms unfolding floats_ok_def by blast+
  then show "snd (f64_field F name upd) (fl_lit F x) r = Some (upd (Fin x) r)"
    by (simp add: f64_field_def split: json.splits)
  show "plain_lits (literals rnd F) (fl_lit F x)"
    using l(2) assms(2) by (cases "fl_lit F x") (auto simp: literals_def)
qed

lemma same_key_head: "lower c \<noteq> lower d \<Longrightarrow> same_key (c # cs) (d # ds) \<longleftrightarrow> False"
  by (simp add: same_key_def)

lemma wm_keys:
  "same_key ''score'' ''node_id'' \<longleftrightarrow> False" "same_key ''p_value'' ''node_id'' \<longleftrightarrow> False" "same_key ''kind'' ''node_id'' \<longleftrightarrow> False" "same_key ''bad_idx'' ''node_id'' \<longleftrightarrow> False" "same_key ''evidence'' ''node_id'' \<longleftrightarrow> False"
  "same_key ''node_id'' ''score'' \<longleftrightarrow> False" "same_key ''p_value'' ''score'' \<longleftrightarrow> False" "same_key ''kind'' ''score'' \<longleftrightarrow> False" "same_key ''bad_idx'' ''score'' \<longleftrightarrow> False" "same_key ''evidence'' ''score'' \<longleftrightarrow> False"
  "same_key ''node_id'' ''p_value'' \<longleftrightarrow> False" "same_key ''score'' ''p_value'' \<longleftrightarrow> False" "same_key ''kind'' ''p_value'' \<longleftrightarrow> False" "same_key ''bad_idx'' ''p_value'' \<longleftrightarrow> False" "same_key ''evidence'' ''p_value'' \<longleftrightarrow> False"
  "same_key ''node_id'' ''kind'' \<longleftrightarrow> False" "same_key ''score'' ''kind'' \<longleftrightarrow> False" "same_key ''p_value'' ''kind'' \<longleftrightarrow> False" "same_key ''bad_idx'' ''kind'' \<longleftrightarrow> False" "same_key ''evidence'' ''kind'' \<longleftrightarrow> False"
  "same_key ''node_id'' ''bad_idx'' \<longleftrightarrow> False" "same_key ''score'' ''bad_idx'' \<longleftrightarrow> False" "same_key ''p_value'' ''bad_idx'' \<longleftrightarrow> False" "same_key ''kind'' ''bad_idx'' \<longleftrightarrow> False" "same_key ''evidence'' ''bad_idx'' \<longleftrightarrow> False"
  "same_key ''node_id'' ''evidence'' \<longleftrightarrow> False" "same_key ''score'' ''evidence'' \<longleftrightarrow> False" "same_key ''p_value'' ''evidence'' \<longleftrightarrow> False" "same_key ''kind'' ''evidence'' \<longleftrightarrow> False" "same_key ''bad_idx'' ''evidence'' \<longleftrightarrow> False"
  by (rule same_key_head; simp add: lower_def)+

lemma wire_text:
  assumes "json_ok P" "floats_ok P rnd F" "wm_json P F m = Some j"
    and "ascii (wm_NodeID m)" "ascii (wm_Kind m)" "int64 (wm_BadIdx m)" "float64 rnd (wm_Score m)" "float64 rnd (wm_PValue m)"
  shows "unmarshal P (wm_fields P F) wm_zero (json_text P j) = Some m"
proof -
  obtain x y where x: "wm_Score m = Fin x" "rnd x = Fin x" and y: "wm_PValue m = Fin y" "rnd y = Fin y"
    using assms(3,7,8) by (auto simp: wm_json_def float64_def split: f64.splits option.splits elim!: f64_json.elims)
  note sc = f64_field_lit [OF assms(2) x(2)] f64_field_lit [OF assms(2) y(2)]
  have j: "j = JObj ([(''node_id'', JStr (wm_NodeID m)), (''score'', fl_lit F x), (''p_value'', fl_lit F y), (''kind'', JStr (wm_Kind m))]
       @ omit_int ''bad_idx'' (wm_BadIdx m) @ omit_slice P ''evidence'' (Some (wm_Evidence m)))"
    using assms(3) x y by (simp add: wm_json_def)
  have a: "ascii ''node_id''" "ascii ''score''" "ascii ''p_value''" "ascii ''kind''" "ascii ''bad_idx''" "ascii ''evidence''"
    by (simp_all add: ascii_def)
  have "plain_lits (literals rnd F) j"
    using assms(4,5) sc a b64_ascii [OF assms(1)] by (simp add: j omit_int_def omit_slice_def slice_json_def)
  then have p: "json_parse P (json_text P j) = Some j" using assms(2) by (simp add: floats_ok_def)
  have s: "f64_field F name upd = (name, snd (f64_field F name upd))" for name and upd :: "f64 \<Rightarrow> WireMsg \<Rightarrow> WireMsg"
    by (simp add: f64_field_def)
  have f: "wm_fields P F = [string_field ''node_id'' (\<lambda>x m. m\<lparr>wm_NodeID := x\<rparr>), (''score'', snd (f64_field F ''score'' (\<lambda>x m. m\<lparr>wm_Score := x\<rparr>))),
     (''p_value'', snd (f64_field F ''p_value'' (\<lambda>x m. m\<lparr>wm_PValue := x\<rparr>))), string_field ''kind'' (\<lambda>x m. m\<lparr>wm_Kind := x\<rparr>),
     int_field ''bad_idx'' (\<lambda>x m. m\<lparr>wm_BadIdx := x\<rparr>), slice_field (b64_dec P) ''evidence'' (\<lambda>x m. m\<lparr>wm_Evidence := slice_bytes x\<rparr>)]"
    unfolding wm_fields_def s [symmetric] ..
  show ?thesis using assms(6) x(1) y(1)
    by (cases m) (simp add: unmarshal_def p, simp add: j f decode_struct_def omit_int_def omit_slice_def sc wm_keys string_field_def int_field_def
      slice_field_def wm_zero_def b64_roundtrip [OF assms(1)] json_slice_def slice_json_def)
qed

section \<open>Delivery\<close>

text \<open>The calls of \<open>Send\<close> in order: whether dialling would succeed, where a write would fail, and the score.\<close>

fun send_all :: "prims \<Rightarrow> floats \<Rightarrow> (bool \<times> nat option \<times> Score) list \<Rightarrow> FleetPeer \<Rightarrow> (wire_error option \<times> Score) list \<times> FleetPeer" where
  "send_all P F [] p = ([], p)"
| "send_all P F ((up, brk, s) # xs) p = (case Send P F up brk s p of (e, p1) \<Rightarrow>
     (case send_all P F xs p1 of (rs, p2) \<Rightarrow> ((e, s) # rs, p2)))"

definition conns :: "FleetPeer \<Rightarrow> bytes list" where
  "conns p = fp_past p @ (case fp_conn p of None \<Rightarrow> [] | Some out \<Rightarrow> [out])"

text \<open>The scores of the calls that returned no error, as frames.\<close>

definition sent :: "prims \<Rightarrow> (wire_error option \<times> Score) list \<Rightarrow> WireMsg list" where
  "sent P rs = map (\<lambda>(_, s). WireMsgFromScore P s ''live'') (filter (\<lambda>(e, _). e = None) rs)"

text \<open>A score of float64 numbers with an ASCII name, whose document stays below the limit of a frame.\<close>

definition wire_fit :: "prims \<Rightarrow> floats \<Rightarrow> rounding \<Rightarrow> Score \<Rightarrow> bool" where
  "wire_fit P F rnd s \<longleftrightarrow> ascii (s_NodeID s) \<and> float64 rnd (s_Score s) \<and> float64 rnd (s_PValue s)
     \<and> (case wm_json P F (WireMsgFromScore P s ''live'') of None \<Rightarrow> True | Some j \<Rightarrow> length (json_text P j) \<le> 2 ^ 20)"

lemma evidence_int64: "unmarshal P evidence_fields i b = Some n \<Longrightarrow> int64 i \<Longrightarrow> int64 n"
proof -
  have "decode_members evidence_fields kvs i = Some n \<Longrightarrow> int64 i \<Longrightarrow> int64 n" for kvs
    by (induction kvs arbitrary: i) (auto simp: evidence_fields_def int_field_def split: option.splits if_splits json.splits)
  then show "unmarshal P evidence_fields i b = Some n \<Longrightarrow> int64 i \<Longrightarrow> int64 n"
    by (cases "json_parse P b"; cases "the (json_parse P b)") (auto simp: unmarshal_def decode_struct_def)
qed

lemma bad_idx_int64: "int64 (wm_BadIdx (WireMsgFromScore P s kind))"
  using evidence_int64 [of P 0 "s_Evidence s"]
  by (auto simp: WireMsgFromScore_def int64_def split: option.split)

lemma next_sent:
  assumes "json_ok P" "floats_ok P rnd F" "wire_fit P F rnd s" "wm_json P F (WireMsgFromScore P s ''live'') = Some j"
  shows "next_msg P F (be32 (int (length (json_text P j))) @ json_text P j @ r) = Inr (WireMsgFromScore P s ''live'', r)"
proof (rule next_msg_frame)
  show "length (json_text P j) \<le> 2 ^ 20" using assms(3,4) by (simp add: wire_fit_def)
  show "unmarshal P (wm_fields P F) wm_zero (json_text P j) = Some (WireMsgFromScore P s ''live'')"
    using assms(3) by (intro wire_text [OF assms(1,2,4) _ _ bad_idx_int64]) (simp_all add: wire_fit_def WireMsgFromScore_def ascii_def)
qed

text \<open>A connection that holds whole frames: what follows is read after them.\<close>

definition whole :: "prims \<Rightarrow> floats \<Rightarrow> bytes \<Rightarrow> bool" where
  "whole P F c \<longleftrightarrow> (\<forall>r. received P F (c @ r) = received P F c @ received P F r)"

lemma received_nil [simp]: "received P F [] = []"
  by (simp add: received_next next_msg_def)

lemma whole_frame: "whole P F c \<Longrightarrow> (\<And>r. next_msg P F (f @ r) = Inr (m, r)) \<Longrightarrow>
    whole P F (c @ f) \<and> received P F (c @ f) = received P F c @ [m]"
proof -
  assume w: "whole P F c" and n: "\<And>r. next_msg P F (f @ r) = Inr (m, r)"
  have "received P F (f @ r) = m # received P F r" for r using n [of r] by (simp add: received_next [of _ _ "f @ r"])
  from this this [of "[]"] show ?thesis using w by (simp add: whole_def)
qed

lemma Send_received:
  assumes "json_ok P" "floats_ok P rnd F" "wire_fit P F rnd s" "Send P F up brk s p = (e, p')" "\<forall>c. fp_conn p = Some c \<longrightarrow> whole P F c"
  shows "concat (map (received P F) (conns p')) = concat (map (received P F) (conns p)) @ sent P [(e, s)]
    \<and> (\<forall>c. fp_conn p' = Some c \<longrightarrow> whole P F c)"
proof (cases "peer_dial up p")
  case None
  then show ?thesis using assms(4,5) by (auto simp: Send_def sent_def)
next
  case (Some out)
  have w: "whole P F out" using Some assms(5) by (auto simp: peer_dial_def whole_def split: option.splits if_splits)
  have c: "concat (map (received P F) (conns p)) = concat (map (received P F) (fp_past p)) @ received P F out"
    using Some by (auto simp: peer_dial_def conns_def split: option.splits if_splits)
  show ?thesis
  proof (cases "wm_json P F (WireMsgFromScore P s ''live'')")
    case None
    then show ?thesis using assms(4) Some c by (auto simp: Send_def WriteWire_def conns_def sent_def)
  next
    case j: (Some j)
    let ?b = "json_text P j"
    let ?f = "be32 (int (length ?b)) @ ?b"
    have l: "length ?b \<le> 2 ^ 20" using assms(3) j by (simp add: wire_fit_def)
    show ?thesis
    proof (cases brk)
      case None
      have "whole P F (out @ ?f) \<and> received P F (out @ ?f) = received P F out @ [WireMsgFromScore P s ''live'']"
        using next_sent [OF assms(1-3) j] by (intro whole_frame [OF w]) simp
      then show ?thesis using assms(4) Some j None c by (auto simp: Send_def WriteWire_def Let_def conns_def sent_def)
    next
      case (Some k)
      obtain err where "next_msg P F (take k (butlast ?f)) = Inl err" using next_msg_partial [OF l] by blast
      then have "received P F (out @ take k (butlast ?f)) = received P F out"
        using w by (simp add: whole_def received_next [of _ _ "take k (butlast ?f)"])
      then show ?thesis using assms(4) \<open>peer_dial up p = Some out\<close> j Some c
        by (auto simp: Send_def WriteWire_def Let_def conns_def sent_def)
    qed
  qed
qed

lemma send_all_received:
  assumes "json_ok P" "floats_ok P rnd F"
  shows "send_all P F xs p = (rs, p') \<Longrightarrow> \<forall>(up, brk, s) \<in> set xs. wire_fit P F rnd s \<Longrightarrow> \<forall>c. fp_conn p = Some c \<longrightarrow> whole P F c
    \<Longrightarrow> concat (map (received P F) (conns p')) = concat (map (received P F) (conns p)) @ sent P rs"
proof (induction xs arbitrary: p rs)
  case (Cons x xs)
  obtain up brk s where x: "x = (up, brk, s)" by (cases x)
  obtain e p1 where s: "Send P F up brk s p = (e, p1)" by force
  obtain rs' where r: "send_all P F xs p1 = (rs', p')" "rs = (e, s) # rs'"
    using Cons.prems(1) by (auto simp: x s split: prod.splits)
  have f: "wire_fit P F rnd s" using Cons.prems(2) by (simp add: x)
  note h = Send_received [OF assms f s Cons.prems(3)]
  have "concat (map (received P F) (conns p')) = concat (map (received P F) (conns p1)) @ sent P rs'"
    using Cons.IH [OF r(1)] Cons.prems(2) h by simp
  with h r(2) show ?case by (simp add: sent_def)
qed (simp add: sent_def)

text \<open>
  C25: whatever dials and writes fail, what the peer's connections carry is exactly the scores whose \<open>Send\<close> returned no
  error, once each and in order; a server that sees only a part of a connection reads a prefix of it; and serving any such part is
  the frame handler over what was read.
\<close>

theorem wire_delivery:
  assumes "json_ok P" "floats_ok P rnd F" "\<forall>(up, brk, s) \<in> set xs. wire_fit P F rnd s"
    and "send_all P F xs NewFleetPeer = (rs, p)"
  shows "concat (map (received P F) (conns p)) = sent P rs
    \<and> (\<forall>c k. prefix (received P F (take k c)) (received P F c)
        \<and> snd (Handle P F rnd now addr (take k c) f) = handle_conn rnd now addr (received P F (take k c)) f)"
  using send_all_received [OF assms(1,2,4,3)] received_take serve_conn by (simp add: NewFleetPeer_def conns_def)

text \<open>A float64 of the witness is an integer.\<close>

definition whole_rnd :: rounding where
  "whole_rnd x = Fin (of_int \<lfloor>x\<rfloor>)"

definition whole_floats :: floats where
  "whole_floats = \<lparr>fl_lit = (\<lambda>x. JInt \<lfloor>x\<rfloor>), fl_read = (\<lambda>j. case j of JInt n \<Rightarrow> Some (Fin (of_int n)) | _ \<Rightarrow> None)\<rparr>"

lemma whole_floats_ok: "floats_ok toy whole_rnd whole_floats"
  by (simp add: floats_ok_def whole_rnd_def whole_floats_def toy_sel)

definition wire_score :: "int \<Rightarrow> Score" where
  "wire_score n = \<lparr>s_NodeID = ''w'', s_Score = Fin (of_int n), s_PValue = Fin 1, s_Evidence = []\<rparr>"

theorem wire_delivery_witness:
  "\<exists>rs p. send_all toy whole_floats [(True, None, wire_score 1), (True, Some 9, wire_score 2), (False, None, wire_score 3), (True, None, wire_score 4)]
      NewFleetPeer = (rs, p)
    \<and> map fst rs = [None, Some WireWrite, Some WireDial, None] \<and> length (conns p) = 2
    \<and> map wm_Score (concat (map (received toy whole_floats) (conns p))) = [Fin 1, Fin 4]"
proof -
  let ?xs = "[(True, None, wire_score 1), (True, Some 9, wire_score 2), (False, None, wire_score 3), (True, None, wire_score 4)]"
  obtain rs p where e: "send_all toy whole_floats ?xs NewFleetPeer = (rs, p)" by fastforce
  have j: "wm_json toy whole_floats (WireMsgFromScore toy (wire_score n) ''live'') =
    Some (JObj [(''node_id'', JStr ''w''), (''score'', JInt n), (''p_value'', JInt 1), (''kind'', JStr ''live'')])" for n
    by (simp add: wm_json_def WireMsgFromScore_def wire_score_def whole_floats_def omit_int_def omit_slice_def)
  have "\<forall>(up, brk, s) \<in> set ?xs. wire_fit toy whole_floats whole_rnd s"
    by (simp add: wire_fit_def j) (simp add: wire_score_def float64_def whole_rnd_def ascii_def toy_sel enc_str_def enc_nat_def str_bytes_def)
  note d = wire_delivery [OF toy_ok(3) whole_floats_ok this e]
  have r: "rs = [(None, wire_score 1), (Some WireWrite, wire_score 2), (Some WireDial, wire_score 3), (None, wire_score 4)]"
    "length (conns p) = 2"
    using e by (auto simp: Send_def WriteWire_def j Let_def peer_dial_def NewFleetPeer_def conns_def)
  have "map wm_Score (sent toy rs) = [Fin 1, Fin 4]"
    unfolding r(1) by (simp add: sent_def WireMsgFromScore_def wire_score_def)
  with d have "map wm_Score (concat (map (received toy whole_floats) (conns p))) = [Fin 1, Fin 4]" by simp
  moreover have "map fst rs = [None, Some WireWrite, Some WireDial, None]" by (simp add: r(1))
  ultimately show ?thesis using e r(2) by (intro exI [of _ rs] exI [of _ p]) (simp only: simp_thms)
qed

end
