(* ===== verification/Bench.thy ===== *)
theory Bench
  imports ApiTrust FrostExt
begin

text \<open>
  The benchmark of \<open>bench.go\<close>: the simulation of traffic against the ensemble, the scenarios with the recoveries they
  run, and the calibration of the rate watchdog.  The k-th ceremony, seed, nonces and measured duration of a scenario
  are arguments; a panic of a callee is None.  Durations are nanoseconds.
\<close>

section \<open>Settings\<close>

record Metrics =
  mt_Scenario :: string
  mt_Detected :: bool
  mt_DetectionLatency :: int
  mt_FalsePositive :: bool
  mt_RecoveryTime :: int
  mt_RollbackCorrect :: bool
  mt_CanonicalHighest :: bool
  mt_DetectionGap :: int
  mt_WorkloadReissued :: int
  mt_WorkloadTime :: int
  mt_VerifyEvents :: int
  mt_VerifyTime :: int
  mt_VerifyPerEvent :: int
  mt_ScalingRatio :: f64

definition metrics :: "string \<Rightarrow> Metrics" where
  "metrics name = \<lparr>mt_Scenario = name, mt_Detected = False, mt_DetectionLatency = 0, mt_FalsePositive = False, mt_RecoveryTime = 0,
     mt_RollbackCorrect = False, mt_CanonicalHighest = False, mt_DetectionGap = 0, mt_WorkloadReissued = 0, mt_WorkloadTime = 0,
     mt_VerifyEvents = 0, mt_VerifyTime = 0, mt_VerifyPerEvent = 0, mt_ScalingRatio = Fin 0\<rparr>"

record Bench =
  bn_cycle :: int
  bn_h1 :: f64

definition defaultH1 :: f64 where
  "defaultH1 = Fin 3"

definition NewBench :: "int \<Rightarrow> Bench" where
  "NewBench cycle = \<lparr>bn_cycle = (if cycle = 0 then 30000000000 else cycle), bn_h1 = defaultH1\<rparr>"

definition cycles :: "Bench \<Rightarrow> int \<Rightarrow> int" where
  "cycles b n = wrap64 (n * bn_cycle b)"

record bench_rand =
  bx_rnd :: rounding
  bx_fmt2 :: "f64 \<Rightarrow> string"
  bx_qt :: "string \<Rightarrow> string"
  bx_key :: bytes
  bx_rogue :: bytes
  bx_rss :: "nat \<Rightarrow> int \<Rightarrow> bytes option list"
  bx_seed :: "nat \<Rightarrow> bytes option"
  bx_nonces :: "nat \<Rightarrow> (bytes option \<times> bytes option) list"
  bx_ca :: "bytes \<Rightarrow> string \<Rightarrow> bytes option"
  bx_took :: "nat \<Rightarrow> int"

definition watchdogsH :: "f64 \<Rightarrow> Watchdog list" where
  "watchdogsH h1 = [NewWatchdog ''W1'' WDIssuanceRate (Fin 1) (Fin 1) h1, NewWatchdog ''W2'' WDLogIntegrity (Fin 0) (Fin 0) (Fin 0),
     NewWatchdog ''W3'' WDGraphAnomaly (Fin (1 / 2)) (Fin (1 / 2)) (Fin 3), NewWatchdog ''W4'' WDExternalProbe (Fin 0) (Fin 0) (Fin 0),
     NewWatchdogBaseline ''W5'' WDBehaviorBaseline (Fin 1) (Fin (1 / 2)) (Fin 2) [(''user'', Fin 1)]]"

section \<open>The council of the benchmark\<close>

definition members_of :: "'g FrostSigner list \<Rightarrow> 'g Council" where
  "members_of ss = NewCouncil (map (\<lambda>s. \<lparr>cm_ID = fs_ID s, cm_Key = [], cm_Share = Some s\<rparr>) ss)"

definition councilN :: "'g curve \<Rightarrow> bench_rand \<Rightarrow> nat \<Rightarrow> nat \<Rightarrow> int \<Rightarrow> 'g Council option" where
  "councilN C R k n t = (case DkgCeremony C (bx_rss R k) 5 t of Inl _ \<Rightarrow> None | Inr (signers, _) \<Rightarrow> Some (members_of (take n signers)))"

definition recoverWith ::
  "prims \<Rightarrow> 'g curve \<Rightarrow> bench_rand \<Rightarrow> nat \<Rightarrow> 'g Council \<Rightarrow> Timeline \<Rightarrow> TrustEvent option \<Rightarrow> (recover_error + RecoveryReport) option" where
  "recoverWith P C R k c t ev = (let r = fst (Recover P C (bx_ca R) (bx_seed R k) (bx_nonces R k) c t ev gw_quorum) in
     if r = Inl RecoverPanic then None else Some r)"

definition bench_recover ::
  "prims \<Rightarrow> 'g curve \<Rightarrow> bench_rand \<Rightarrow> nat \<Rightarrow> Timeline \<Rightarrow> TrustEvent option \<Rightarrow> (recover_error + RecoveryReport) option" where
  "bench_recover P C R k t ev = Option.bind (councilN C R k 5 gw_quorum) (\<lambda>c. recoverWith P C R k c t ev)"

fun recovered :: "recover_error + RecoveryReport \<Rightarrow> bool" where
  "recovered (Inl e) = False"
| "recovered (Inr rep) = Pass (Some (rr_Verify rep))"

section \<open>The simulation\<close>

definition bench_issue :: "prims \<Rightarrow> string \<Rightarrow> string \<Rightarrow> string \<Rightarrow> bytes" where
  "bench_issue P cert name via = json_text P (ip_json \<lparr>ip_CertID = cert, ip_Identity = name, ip_Via = via\<rparr>)"

definition issue_event :: "prims \<Rightarrow> string \<Rightarrow> string \<Rightarrow> string \<Rightarrow> TrustEvent" where
  "issue_event P cert name via = ev_zero\<lparr>ev_Type := EvIssue, ev_Payload := Some (bench_issue P cert name via)\<rparr>"

definition append_event :: "prims \<Rightarrow> string \<Rightarrow> slice \<Rightarrow> int \<Rightarrow> Timeline \<Rightarrow> Timeline" where
  "append_event P typ pl ts t = (case tl_append P t typ pl ts of Inl _ \<Rightarrow> t | Inr (_, t') \<Rightarrow> t')"

text \<open>The auditors mirror the event as it came, not as it was appended.\<close>

fun add_batch :: "prims \<Rightarrow> int \<Rightarrow> TrustEvent list \<Rightarrow> Timeline \<times> AuditorLog \<times> int \<Rightarrow> Timeline \<times> AuditorLog \<times> int" where
  "add_batch P mirrorUntil [] st = st"
| "add_batch P mirrorUntil (e # es) (t, a, mirrored) =
     (let t' = append_event P (ev_Type e) (ev_Payload e) (ev_Timestamp e) t in
      if mirrorUntil < 0 \<or> mirrored < mirrorUntil then add_batch P mirrorUntil es (t', Mirror P e a, mirrored + 1)
      else add_batch P mirrorUntil es (t', a, mirrored))"

text \<open>The rewritten payload; an index or a payload out of range panics.\<close>

definition tamper_event :: "nat \<Rightarrow> Timeline \<Rightarrow> Timeline option" where
  "tamper_event i t =
     (if length (tl_events t) \<le> i \<or> slice_bytes (ev_Payload (tl_events t ! i)) = [] then None
      else let e = tl_events t ! i in
        Some (t\<lparr>tl_events := (tl_events t)[i := e\<lparr>ev_Payload := Some (0x58 # tl (slice_bytes (ev_Payload e)))\<rparr>]\<rparr>))"

definition score_all ::
  "prims \<Rightarrow> bench_rand \<Rightarrow> TrustEvent list \<Rightarrow> int \<Rightarrow> Timeline \<Rightarrow> AuditorLog \<Rightarrow> Watchdog list \<Rightarrow> (Score \<times> Watchdog) list" where
  "score_all P R batch firstIdx t a wd =
     map (\<lambda>w. wd_Score P (bx_rnd R) (bx_fmt2 R) (bx_qt R) t (Some a) (ObserveBatch P (bx_rnd R) batch firstIdx w)) wd"

definition low_index :: "prims \<Rightarrow> Score \<Rightarrow> int \<Rightarrow> int" where
  "low_index P s bad = (if \<not> f_lt (s_Score s) gw_threshold then bad
     else (case unmarshal P evidence_fields 0 (s_Evidence s) of None \<Rightarrow> bad
       | Some i \<Rightarrow> if 0 \<le> i \<and> (bad < 0 \<or> i < bad) then i else bad))"

definition bad_of :: "prims \<Rightarrow> int \<Rightarrow> Score list \<Rightarrow> int" where
  "bad_of P firstIdx scores = (let bad = fold (low_index P) scores (- 1) in if bad < 0 then firstIdx else bad)"

type_synonym simulated = "(int \<times> int \<times> Score list) \<times> Timeline \<times> AuditorLog"

fun simulate_from ::
  "prims \<Rightarrow> bench_rand \<Rightarrow> int \<Rightarrow> int \<Rightarrow> int \<Rightarrow> int \<Rightarrow> int \<Rightarrow> Timeline \<Rightarrow> AuditorLog \<Rightarrow> Watchdog list \<Rightarrow> Score list \<Rightarrow>
     TrustEvent list list \<Rightarrow> simulated option" where
  "simulate_from P R mirrorUntil tamperAt i firstIdx mirrored t a wd scores [] = Some ((- 1, - 1, scores), t, a)"
| "simulate_from P R mirrorUntil tamperAt i firstIdx mirrored t a wd scores (batch # batches) =
     (case add_batch P mirrorUntil batch (t, a, mirrored) of (t1, a1, mirrored1) \<Rightarrow>
       (case (if 0 \<le> tamperAt \<and> firstIdx \<le> tamperAt \<and> tamperAt < firstIdx + int (length batch)
              then tamper_event (nat tamperAt) t1 else Some t1) of
          None \<Rightarrow> None
        | Some t2 \<Rightarrow>
           let sw = score_all P R batch firstIdx t2 a1 wd; scores' = map fst sw in
           if Detect scores' gw_threshold gw_quorum then Some ((i, bad_of P firstIdx scores', scores'), t2, a1)
           else simulate_from P R mirrorUntil tamperAt (i + 1) (firstIdx + int (length batch)) mirrored1 t2 a1 (map snd sw) scores' batches))"

definition simulateWith ::
  "prims \<Rightarrow> bench_rand \<Rightarrow> Timeline \<Rightarrow> AuditorLog \<Rightarrow> TrustEvent list list \<Rightarrow> int \<Rightarrow> int \<Rightarrow> Watchdog list \<Rightarrow> simulated option" where
  "simulateWith P R t a batches mirrorUntil tamperAt wd = simulate_from P R mirrorUntil tamperAt 0 0 0 t a wd [] batches"

definition simulate ::
  "prims \<Rightarrow> bench_rand \<Rightarrow> Bench \<Rightarrow> Timeline \<Rightarrow> AuditorLog \<Rightarrow> TrustEvent list list \<Rightarrow> int \<Rightarrow> int \<Rightarrow> simulated option" where
  "simulate P R b t a batches mirrorUntil tamperAt = simulateWith P R t a batches mirrorUntil tamperAt (watchdogsH (bn_h1 b))"

definition bench_timeline :: "bytes \<Rightarrow> Timeline option" where
  "bench_timeline key = (case NewTimeline (Some key) of Inl _ \<Rightarrow> None | Inr t \<Rightarrow> Some t)"

definition detectedEvidence :: "prims \<Rightarrow> Timeline \<Rightarrow> int \<Rightarrow> int \<Rightarrow> TrustEvent option \<times> Timeline" where
  "detectedEvidence P t bad ts = (case tl_append P t EvDetected (Some (json_text P (JObj [(''bad_index'', JInt bad)]))) ts of
     Inl _ \<Rightarrow> (None, t) | Inr (_, t') \<Rightarrow> (Some (last (tl_events t')), t'))"

section \<open>Traffic\<close>

text \<open>\<open>num s n\<close> is the text of \<open>s\<close> with a number.\<close>

definition num :: "string \<Rightarrow> nat \<Rightarrow> string" where
  "num s n = s @ digits n"

definition s1_batches :: "prims \<Rightarrow> TrustEvent list list" where
  "s1_batches P = map (\<lambda>i. [issue_event P (num ''c'' i) ''user'' []]) [0..<20]
     @ map (\<lambda>i. map (\<lambda>j. issue_event P (num (num ''rogue'' i @ ''-'') j) ''rogue'' ''c0'') [0..<if i < 20 then 2 else 1]) [0..<180]"

definition s2_batches :: "prims \<Rightarrow> TrustEvent list list" where
  "s2_batches P = map (\<lambda>i. issue_event P (num ''n'' i) ''user'' [] #
     (if 20 \<le> i \<and> i mod 20 = 0 then [issue_event P (num ''p'' i) ''slow-poison'' []] else [])) [0..<480]"

definition normal_batches :: "prims \<Rightarrow> nat \<Rightarrow> TrustEvent list list" where
  "normal_batches P n = map (\<lambda>i. [issue_event P (num ''c'' i) ''user'' []]) [0..<n]"

definition s6_batches :: "prims \<Rightarrow> TrustEvent list list" where
  "s6_batches P = map (\<lambda>i. issue_event P (num ''n'' i) ''user'' [] #
     (if 5 \<le> i then map (\<lambda>j. issue_event P (num (num ''p'' i @ ''-'') j) ''slow-poison'' []) [0..<3] else [])) [0..<30]"

definition s7_batches :: "prims \<Rightarrow> TrustEvent list list" where
  "s7_batches P = map (\<lambda>i. issue_event P (num ''n'' i) ''user'' [] #
     (if i mod 5 = 0 \<and> 20 \<le> i then [issue_event P (num ''o'' i) ''user'' []] else [])) [0..<480]"

definition jitteredBaselineBatches :: "prims \<Rightarrow> TrustEvent list list" where
  "jitteredBaselineBatches P = map (\<lambda>i. issue_event P (num ''c'' i) ''user'' [] #
     (if i mod 50 = 49 \<or> i mod 50 = 0 \<and> 0 < i
      then [issue_event P (num ''j'' i) ''user'' [], issue_event P (num ''j'' i @ ''-b'') ''user'' []] else [])) [0..<200]"

definition marginalAttackBatches :: "prims \<Rightarrow> TrustEvent list list" where
  "marginalAttackBatches P = map (\<lambda>i. issue_event P (num ''n'' i) ''user'' [] #
     (if 50 \<le> i then map (\<lambda>j. issue_event P (num (num ''m'' i @ ''-'') j) ''user'' []) [0..<if i mod 2 = 0 then 2 else 1] else [])) [0..<200]"

section \<open>The scenarios\<close>

definition empty_log :: AuditorLog where
  "empty_log = NewAuditorLog algoSHA256"

definition finish_recovery :: "bench_rand \<Rightarrow> recover_error + RecoveryReport \<Rightarrow> Metrics \<Rightarrow> Metrics" where
  "finish_recovery R r m = m\<lparr>mt_RecoveryTime := bx_took R 0, mt_RollbackCorrect := recovered r\<rparr>"

definition s1H :: "prims \<Rightarrow> 'g curve \<Rightarrow> bench_rand \<Rightarrow> Bench \<Rightarrow> f64 \<Rightarrow> (Metrics \<times> Timeline \<times> int) option" where
  "s1H P C R b h1 =
     Option.bind (bench_timeline (bx_key R)) (\<lambda>t0.
     Option.bind (simulateWith P R t0 empty_log (s1_batches P) 20 (- 1) (watchdogsH h1)) (\<lambda>((cycle, bad, _), t, _).
       let m = (metrics ''S1_burst'')\<lparr>mt_Detected := 0 \<le> cycle\<rparr> in
       if cycle < 0 then Some (m\<lparr>mt_DetectionGap := cycles b 200\<rparr>, t, bad)
       else (case detectedEvidence P t bad cycle of (ev, t') \<Rightarrow>
         map_option (\<lambda>r. (finish_recovery R r (m\<lparr>mt_DetectionLatency := cycles b (cycle - 20)\<rparr>), t', bad))
           (bench_recover P C R 0 t' ev))))"

definition s1 :: "prims \<Rightarrow> 'g curve \<Rightarrow> bench_rand \<Rightarrow> Bench \<Rightarrow> (Metrics \<times> Timeline \<times> int) option" where
  "s1 P C R b = s1H P C R b (Fin 8)"

definition ScenarioS1 :: "prims \<Rightarrow> 'g curve \<Rightarrow> bench_rand \<Rightarrow> Bench \<Rightarrow> Metrics option" where
  "ScenarioS1 P C R b = map_option fst (s1 P C R b)"

definition S1Evidence :: "prims \<Rightarrow> 'g curve \<Rightarrow> bench_rand \<Rightarrow> Bench \<Rightarrow> (int \<times> Timeline) option" where
  "S1Evidence P C R b = map_option (\<lambda>(_, t, bad). (bad, t)) (s1 P C R b)"

definition s2_escalate :: "Bench \<Rightarrow> Score list \<Rightarrow> Metrics \<Rightarrow> Metrics" where
  "s2_escalate b scores m = (case find (\<lambda>s. s_Score s = Fin 0) scores of
     None \<Rightarrow> m\<lparr>mt_DetectionGap := cycles b 480\<rparr>
   | Some s \<Rightarrow> if s_NodeID s = [] then m\<lparr>mt_DetectionGap := cycles b 480\<rparr> else
      m\<lparr>mt_Detected := DetectEscalated scores \<lparr>esc_AuditorIDs = [''A1'', ''A2'', ''A3''], esc_Target = s_NodeID s,
            esc_Reason = ''policy violation: new identity with sustained issuance''\<rparr> 3 gw_threshold gw_quorum,
        mt_DetectionGap := cycles b 480, mt_DetectionLatency := cycles b 60\<rparr>)"

definition ScenarioS2 :: "prims \<Rightarrow> 'g curve \<Rightarrow> bench_rand \<Rightarrow> Bench \<Rightarrow> Metrics option" where
  "ScenarioS2 P C R b =
     Option.bind (bench_timeline (bx_key R)) (\<lambda>t0.
     Option.bind (simulate P R b t0 empty_log (s2_batches P) (- 1) (- 1)) (\<lambda>((cycle, _, scores), t, _).
       let m0 = metrics ''S2_slow_poison'';
           m = (if 0 \<le> cycle then m0\<lparr>mt_Detected := True, mt_DetectionLatency := cycles b cycle\<rparr> else s2_escalate b scores m0) in
       if \<not> mt_Detected m then Some m
       else (case detectedEvidence P t 20 480 of (ev, t') \<Rightarrow> map_option (\<lambda>r. finish_recovery R r m) (bench_recover P C R 0 t' ev))))"

text \<open>The scores of a run with a batch are five.\<close>

definition ScenarioS3 :: "prims \<Rightarrow> bench_rand \<Rightarrow> Bench \<Rightarrow> Metrics option" where
  "ScenarioS3 P R b =
     Option.bind (bench_timeline (bx_key R)) (\<lambda>t0.
     Option.bind (simulate P R b t0 empty_log (normal_batches P 60) (- 1) (- 1)) (\<lambda>((_, _, scores), _, _).
       if length scores \<le> 2 then None
       else let scores' = scores[2 := (scores ! 2)\<lparr>s_Score := Fin 0, s_PValue := bx_rnd R (1 / 100)\<rparr>];
                d = Detect scores' gw_threshold gw_quorum
            in Some ((metrics ''S3_insider'')\<lparr>mt_Detected := d, mt_FalsePositive := d\<rparr>)))"

definition s4_timeline :: "prims \<Rightarrow> Timeline \<Rightarrow> Timeline" where
  "s4_timeline P t = fold (\<lambda>i. append_event P EvIssue (Some (bench_issue P (num ''c'' i) ''user'' [])) (int i)) [0..<10] t"

text \<open>A council of chosen members; None is the nil council of a failed ceremony, on which \<open>Recover\<close> panics.\<close>

definition pick_council :: "'g curve \<Rightarrow> bench_rand \<Rightarrow> nat \<Rightarrow> nat list \<Rightarrow> 'g Council option" where
  "pick_council C R k ids = (case DkgCeremony C (bx_rss R k) 5 gw_quorum of Inl _ \<Rightarrow> None
     | Inr (signers, _) \<Rightarrow> Some (members_of (map ((!) signers) ids)))"

definition ScenarioS4 :: "prims \<Rightarrow> 'g curve \<Rightarrow> bench_rand \<Rightarrow> Bench \<Rightarrow> Metrics option" where
  "ScenarioS4 P C R b =
     Option.bind (bench_timeline (bx_key R)) (\<lambda>t0.
       let m = metrics ''S4_partition''; blocked = m\<lparr>mt_FalsePositive := True\<rparr> in
       (case detectedEvidence P (s4_timeline P t0) 0 100 of (ev, t) \<Rightarrow>
         (case pick_council C R 0 [0, 1] of None \<Rightarrow> Some blocked
          | Some c \<Rightarrow>
             Option.bind (recoverWith P C R 0 c t ev) (\<lambda>r0.
               if \<not> isl r0 then Some blocked
               else Option.bind (pick_council C R 1 [0, 1, 2, 3]) (\<lambda>c'.
                 map_option (\<lambda>r. finish_recovery R r (m\<lparr>mt_Detected := \<not> isl r\<rparr>)) (recoverWith P C R 1 c' t ev))))))"

definition fresh_shares :: "'g Council \<Rightarrow> 'g Council" where
  "fresh_shares c = c\<lparr>co_members := map (\<lambda>m. m\<lparr>cm_Share := map_option (\<lambda>s. s\<lparr>fs_used := False, fs_d := None, fs_e := None\<rparr>) (cm_Share m)\<rparr>) (co_members c)\<rparr>"

text \<open>The handoffs of a list of epochs until one is refused, and whether all were signed; a panic is None.\<close>

fun sign_epochs ::
  "prims \<Rightarrow> 'g curve \<Rightarrow> bench_rand \<Rightarrow> nat \<Rightarrow> int list \<Rightarrow> 'g Council \<Rightarrow> (bool \<times> FrostCommit list \<times> 'g Council) option" where
  "sign_epochs P C R k [] c = Some (True, [], c)"
| "sign_epochs P C R k (e # es) c =
     (let c1 = fresh_shares c in
      case SignCommit P C (bx_nonces R k) c1 e (Some [word_of_int e]) (e - 1) (Some (replicate 32 0xaa)) (Some (str_bytes ''handoff''))
             gw_quorum (memberIDs c1) of
        (CommitPanic, c2) \<Rightarrow> None
      | (Refused, c2) \<Rightarrow> Some (False, [], c2)
      | (Committed fc, c2) \<Rightarrow> map_option (\<lambda>(ok, fcs, c'). (ok, fc # fcs, c')) (sign_epochs P C R (k + 1) es c2))"

definition forged_chain :: "prims \<Rightarrow> bytes \<Rightarrow> FrostCommit list" where
  "forged_chain P ak = map (\<lambda>i. \<lparr>fc_Epoch = int i, fc_Checkpoint = Some [0xaa], fc_Prev = int i - 1, fc_NewPub = Some [0xbb],
     fc_Payload = Some (str_bytes ''x''), fc_Sig = Some (ed_sign P ak (str_bytes (num ''e'' i))), fc_Members = [''X'']\<rparr>) [1..<51]"

definition ScenarioS5 :: "prims \<Rightarrow> 'g curve \<Rightarrow> bench_rand \<Rightarrow> Bench \<Rightarrow> Metrics option" where
  "ScenarioS5 P C R b = (let m = metrics ''S5_fork_race'' in
     Option.bind (councilN C R 0 5 gw_quorum) (\<lambda>c.
     Option.bind (sign_epochs P C R 0 [1, 2, 3] c) (\<lambda>(ok, honest, c1).
       if \<not> ok then Some m
       else map_option (\<lambda>(_, gapped, _).
           let best = HighestValidEpoch P [honest, forged_chain P (bx_rogue R), gapped] (co_group c) gw_quorum in
           m\<lparr>mt_CanonicalHighest := (case best of None \<Rightarrow> False
              | Some fs \<Rightarrow> length fs = length honest \<and> fc_Epoch (last fs) = 3)\<rparr>) (sign_epochs P C R 3 [1, 2] c1))))"

fun s6_from ::
  "prims \<Rightarrow> bench_rand \<Rightarrow> int \<Rightarrow> int \<Rightarrow> Timeline \<Rightarrow> AuditorLog \<Rightarrow> Watchdog list \<Rightarrow> TrustEvent list list \<Rightarrow> (int \<times> Timeline) option" where
  "s6_from P R i firstIdx t a wd [] = Some (- 1, t)"
| "s6_from P R i firstIdx t a wd (batch # batches) =
     (case add_batch P (if i < 8 then - 1 else 0) batch (t, a, 0) of (t1, a1, _) \<Rightarrow>
       Option.bind (if i = 8 then tamper_event 3 t1 else Some t1) (\<lambda>t2.
         let sw = score_all P R batch firstIdx t2 a1 wd in
         if Detect (map fst sw) gw_threshold gw_quorum then Some (i, t2)
         else s6_from P R (i + 1) (firstIdx + int (length batch)) t2 a1 (map snd sw) batches))"

definition ScenarioS6 :: "prims \<Rightarrow> 'g curve \<Rightarrow> bench_rand \<Rightarrow> Bench \<Rightarrow> Metrics option" where
  "ScenarioS6 P C R b =
     Option.bind (bench_timeline (bx_key R)) (\<lambda>t0.
     Option.bind (s6_from P R 0 0 t0 empty_log (watchdogsH (bn_h1 b)) (s6_batches P)) (\<lambda>(cycle, t).
       let m = (metrics ''S6_combined'')\<lparr>mt_Detected := 0 \<le> cycle\<rparr> in
       if cycle < 0 then Some m
       else let m1 = m\<lparr>mt_DetectionLatency := cycles b (cycle - 5)\<rparr> in
        (case detectedEvidence P t 3 cycle of (ev, t') \<Rightarrow>
          Option.bind (councilN C R 0 2 gw_quorum) (\<lambda>part.
          Option.bind (recoverWith P C R 0 part t' ev) (\<lambda>r0.
            if \<not> isl r0 then Some (m1\<lparr>mt_FalsePositive := True\<rparr>)
            else map_option (\<lambda>r. finish_recovery R r m1) (bench_recover P C R 1 t' ev))))))"

definition ScenarioS7 :: "prims \<Rightarrow> bench_rand \<Rightarrow> Bench \<Rightarrow> Metrics option" where
  "ScenarioS7 P R b =
     Option.bind (bench_timeline (bx_key R)) (\<lambda>t0.
     map_option (\<lambda>((cycle, _, _), _, _).
       let m = (metrics ''S7_omniscient'')\<lparr>mt_Detected := 0 \<le> cycle\<rparr> in
       if 0 \<le> cycle then m\<lparr>mt_DetectionLatency := cycles b cycle\<rparr> else m\<lparr>mt_DetectionGap := cycles b 480\<rparr>)
       (simulate P R b t0 empty_log (s7_batches P) (- 1) (- 1)))"

definition ScenarioBaseline :: "prims \<Rightarrow> bench_rand \<Rightarrow> Bench \<Rightarrow> Metrics option" where
  "ScenarioBaseline P R b =
     Option.bind (bench_timeline (bx_key R)) (\<lambda>t0.
     map_option (\<lambda>((cycle, _, _), _, _). (metrics ''baseline'')\<lparr>mt_FalsePositive := 0 \<le> cycle\<rparr>)
       (simulate P R b t0 empty_log (normal_batches P 200) (- 1) (- 1)))"

definition workload_timeline :: "prims \<Rightarrow> Timeline \<Rightarrow> Timeline" where
  "workload_timeline P t =
     fold (\<lambda>i. append_event P EvIssue (Some (bench_issue P (num ''rogue'' i) (num ''u'' i) (num ''c'' i))) (int (180 + i))) [0..<180]
       (fold (\<lambda>i. append_event P EvIssue (Some (bench_issue P (num ''c'' i) (num ''u'' i) [])) (int i)) [0..<180] t)"

definition ScenarioWorkloadReissue :: "prims \<Rightarrow> 'g curve \<Rightarrow> bench_rand \<Rightarrow> Bench \<Rightarrow> Metrics option" where
  "ScenarioWorkloadReissue P C R b =
     Option.bind (bench_timeline (bx_key R)) (\<lambda>t0.
      (case detectedEvidence P (workload_timeline P t0) 180 400 of (ev, t) \<Rightarrow>
        map_option (\<lambda>r. let m = (metrics ''workload_reissue'')\<lparr>mt_WorkloadTime := bx_took R 0\<rparr> in
          (case r of Inl _ \<Rightarrow> m
           | Inr rep \<Rightarrow> if \<not> Pass (Some (rr_Verify rep)) then m
               else m\<lparr>mt_WorkloadReissued := int (length (rr_Issued rep)), mt_RollbackCorrect := bx_took R 0 \<le> 60000000000\<rparr>))
          (bench_recover P C R 0 t ev)))"

text \<open>
  Only the six measured durations of this scenario matter: three rounds of a small and a large verification, of which the
  best of each size is kept.  \<open>f_div\<close> is division of finite floats.
\<close>

definition bestOf :: "int \<Rightarrow> int \<Rightarrow> int" where
  "bestOf d prev = (if prev = 0 \<or> d < prev then d else prev)"

definition f_div :: "rounding \<Rightarrow> f64 \<Rightarrow> f64 \<Rightarrow> f64" where
  "f_div rnd x y = (case (x, y) of (Fin a, Fin b) \<Rightarrow> if b = 0 then NaN else rnd (a / b) | _ \<Rightarrow> NaN)"

definition ScenarioVerifyScaling :: "bench_rand \<Rightarrow> Metrics" where
  "ScenarioVerifyScaling R =
     (let small = fold (\<lambda>i. bestOf (bx_took R (2 * i))) [0..<3] 0; large = fold (\<lambda>i. bestOf (bx_took R (2 * i + 1))) [0..<3] 0;
          m = (metrics ''verify_scaling'')\<lparr>mt_VerifyEvents := 100000, mt_VerifyTime := large, mt_VerifyPerEvent := large div 100000\<rparr>
      in if 0 < small then m\<lparr>mt_ScalingRatio := f_div (bx_rnd R) (f_of_int (bx_rnd R) large) (f_of_int (bx_rnd R) small)\<rparr> else m)"

definition RunAll :: "prims \<Rightarrow> 'g curve \<Rightarrow> (nat \<Rightarrow> bench_rand) \<Rightarrow> Bench \<Rightarrow> Metrics list option" where
  "RunAll P C Rs b = those [ScenarioS1 P C (Rs 0) b, ScenarioS2 P C (Rs 1) b, ScenarioS3 P (Rs 2) b, ScenarioS4 P C (Rs 3) b,
     ScenarioS5 P C (Rs 4) b, ScenarioS6 P C (Rs 5) b, ScenarioS7 P (Rs 6) b, ScenarioBaseline P (Rs 7) b,
     ScenarioWorkloadReissue P C (Rs 8) b, Some (ScenarioVerifyScaling (Rs 9))]"

section \<open>Calibration\<close>

record calRow =
  cl_h :: f64
  cl_fpr :: bool
  cl_lat :: int
  cl_ok :: bool

datatype cal_error = BaselineAlarms f64 f64 | NoOperatingPoint f64 int

definition sweep_row :: "prims \<Rightarrow> bench_rand \<Rightarrow> Bench \<Rightarrow> Timeline \<Rightarrow> f64 \<Rightarrow> calRow option" where
  "sweep_row P R b t0 h1 =
     Option.bind (simulateWith P R t0 empty_log (jitteredBaselineBatches P) (- 1) (- 1) (watchdogsH h1)) (\<lambda>((fp, _, _), _, _).
     map_option (\<lambda>((dc, _, _), _, _). \<lparr>cl_h = h1, cl_fpr = 0 \<le> fp, cl_lat = (if 0 \<le> dc then cycles b (dc - 50) else 0), cl_ok = 0 \<le> dc\<rparr>)
       (simulateWith P R t0 empty_log (marginalAttackBatches P) (- 1) (- 1) (watchdogsH h1)))"

text \<open>One round of both selection loops over the rows: \<open>valid\<close> is what the loop does not skip.\<close>

definition better :: "calRow \<Rightarrow> calRow \<Rightarrow> bool" where
  "better r s \<longleftrightarrow> cl_lat r < cl_lat s \<or> cl_lat r = cl_lat s \<and> f_lt (cl_h r) (cl_h s)"

definition select_step :: "(calRow \<Rightarrow> bool) \<Rightarrow> calRow list \<Rightarrow> nat \<Rightarrow> nat option \<Rightarrow> nat option" where
  "select_step valid rows i sel = (if \<not> valid (rows ! i) then sel
     else (case sel of None \<Rightarrow> Some i | Some j \<Rightarrow> if better (rows ! i) (rows ! j) then Some i else Some j))"

definition selected :: "int \<Rightarrow> calRow list \<Rightarrow> nat option" where
  "selected maxLat rows = fold (select_step (\<lambda>r. \<not> cl_fpr r \<and> cl_ok r \<and> cl_lat r \<le> maxLat) rows) [0..<length rows] None"

definition best :: "calRow list \<Rightarrow> nat option" where
  "best rows = fold (select_step (\<lambda>r. \<not> cl_fpr r \<and> cl_ok r) rows) [0..<length rows] None"

text \<open>\<open>fnum\<close> is the JSON form of a float, \<open>dur\<close> the text of a duration.\<close>

definition sweepJSON :: "(f64 \<Rightarrow> string) \<Rightarrow> (int \<Rightarrow> string) \<Rightarrow> calRow list \<Rightarrow> json" where
  "sweepJSON fnum dur rows = JArr (map (\<lambda>i. let r = rows ! i in
     JObj [(''h'', JNum (fnum (cl_h r))), (''jittered_fpr'', JBool (cl_fpr r)),
       (''marginal_latency'', JStr (if cl_ok r then dur (cl_lat r) else ''never'')), (''selected'', JBool (best rows = Some i))]) [0..<length rows])"

definition Calibrate ::
  "prims \<Rightarrow> (f64 \<Rightarrow> string) \<Rightarrow> (int \<Rightarrow> string) \<Rightarrow> bench_rand \<Rightarrow> bench_rand \<Rightarrow> Bench \<Rightarrow> f64 \<Rightarrow> int \<Rightarrow> (cal_error + f64 \<times> f64 \<times> json) option" where
  "Calibrate P fnum dur R0 R b alpha maxLat =
     Option.bind (ScenarioBaseline P R0 b) (\<lambda>base.
       let baseFPR = (if mt_FalsePositive base then Fin 1 else Fin 0) in
       if f_lt alpha baseFPR then Some (Inl (BaselineAlarms baseFPR alpha))
       else Option.bind (bench_timeline (bx_key R)) (\<lambda>t0.
         map_option (\<lambda>rows. case selected maxLat rows of
             None \<Rightarrow> Inl (NoOperatingPoint alpha maxLat)
           | Some i \<Rightarrow> Inr (Fin 1, cl_h (rows ! i), JObj
              [(''alpha'', JNum (fnum alpha)), (''baseline_fpr'', JNum (fnum baseFPR)), (''delta'', JNum (fnum (Fin 1))),
               (''h'', JNum (fnum (cl_h (rows ! i)))), (''max_latency'', JStr (dur maxLat)), (''roc_sweep'', sweepJSON fnum dur rows),
               (''selected_latency'', JStr (dur (cl_lat (rows ! i)))),
               (''selection_rule'', JStr ''smallest h with jittered-baseline FPR <= alpha and marginal-attack (2.5/cycle) latency <= maxLat'')]))
           (those (map (\<lambda>h. sweep_row P R b t0 (Fin (of_nat h))) [1..<17]))))"

end
