(* ===== verification/BenchProps.thy ===== *)
theory BenchProps
  imports Bench EnsembleProps
begin

text \<open>
  The benchmark: the two selection loops of the calibration agree, and every detection of the calibration counts the
  external probe, which alarms although the chain is intact and every event was mirrored.
\<close>

section \<open>Selection\<close>

text \<open>What both loops have after \<open>n\<close> rows: \<open>S\<close> with the bound on the latency, \<open>B\<close> without.\<close>

definition sel_inv :: "(calRow \<Rightarrow> bool) \<Rightarrow> int \<Rightarrow> calRow list \<Rightarrow> nat \<Rightarrow> nat option \<Rightarrow> nat option \<Rightarrow> bool" where
  "sel_inv v M rows n S B \<longleftrightarrow> (case S of
      None \<Rightarrow> (\<forall>j < n. v (rows ! j) \<longrightarrow> M < cl_lat (rows ! j)) \<and> (\<forall>k. B = Some k \<longrightarrow> M < cl_lat (rows ! k))
    | Some i \<Rightarrow> B = Some i \<and> i < n \<and> v (rows ! i) \<and> cl_lat (rows ! i) \<le> M \<and> (\<forall>j < n. v (rows ! j) \<longrightarrow> cl_lat (rows ! i) \<le> cl_lat (rows ! j)))"

lemma sel_inv_step:
  assumes "sel_inv v M rows n S B"
  shows "sel_inv v M rows (Suc n) (select_step (\<lambda>r. v r \<and> cl_lat r \<le> M) rows n S) (select_step v rows n B)"
proof (cases S)
  case None
  then show ?thesis using assms
    by (cases B; cases "v (rows ! n)"; cases "cl_lat (rows ! n) \<le> M") (auto simp: sel_inv_def select_step_def better_def less_Suc_eq)
next
  case (Some i)
  show ?thesis
  proof (cases "v (rows ! n) \<and> better (rows ! n) (rows ! i)")
    case True
    then have "cl_lat (rows ! n) \<le> cl_lat (rows ! i)" by (auto simp: better_def)
    then show ?thesis using assms Some True by (fastforce simp: sel_inv_def select_step_def less_Suc_eq)
  next
    case False
    then have "v (rows ! n) \<longrightarrow> cl_lat (rows ! i) \<le> cl_lat (rows ! n)" by (auto simp: better_def)
    then show ?thesis using assms Some False by (auto simp: sel_inv_def select_step_def less_Suc_eq)
  qed
qed

lemma selection_inv: "sel_inv (\<lambda>r. \<not> cl_fpr r \<and> cl_ok r) M rows (length rows) (selected M rows) (best rows)"
proof -
  have "sel_inv v M rows n (fold (select_step (\<lambda>r. v r \<and> cl_lat r \<le> M) rows) [0..<n] None) (fold (select_step v rows) [0..<n] None)" for v n
    by (induction n) (simp add: sel_inv_def, simp add: sel_inv_step)
  from this [of "\<lambda>r. \<not> cl_fpr r \<and> cl_ok r" "length rows"] show ?thesis by (simp add: selected_def best_def conj_assoc)
qed

text \<open>
  The operating point is a row without false alarms that detects in time, with the least latency of all rows without
  false alarms; the table of the sweep marks the same row, though its loop knows no bound on the latency; and there is none only if
  no row qualifies.
\<close>

theorem calibrate_select:
  "(\<forall>i. selected maxLat rows = Some i \<longrightarrow> best rows = Some i \<and> i < length rows \<and> \<not> cl_fpr (rows ! i) \<and> cl_ok (rows ! i) \<and> cl_lat (rows ! i) \<le> maxLat
      \<and> (\<forall>r \<in> set rows. \<not> cl_fpr r \<and> cl_ok r \<longrightarrow> cl_lat (rows ! i) \<le> cl_lat r))
   \<and> (selected maxLat rows = None \<longleftrightarrow> (\<forall>r \<in> set rows. cl_fpr r \<or> \<not> cl_ok r \<or> maxLat < cl_lat r))"
proof (cases "selected maxLat rows")
  case None
  then show ?thesis using selection_inv [of maxLat rows] by (auto simp: sel_inv_def in_set_conv_nth)
next
  case (Some i)
  then have I: "best rows = Some i" "i < length rows" "\<not> cl_fpr (rows ! i) \<and> cl_ok (rows ! i) \<and> cl_lat (rows ! i) \<le> maxLat"
    "\<forall>j < length rows. \<not> cl_fpr (rows ! j) \<and> cl_ok (rows ! j) \<longrightarrow> cl_lat (rows ! i) \<le> cl_lat (rows ! j)"
    using selection_inv [of maxLat rows] by (auto simp: sel_inv_def)
  moreover have "rows ! i \<in> set rows" using I(2) by simp
  ultimately have "\<exists>r \<in> set rows. \<not> cl_fpr r \<and> cl_ok r \<and> cl_lat r \<le> maxLat" by blast
  moreover have "\<forall>r \<in> set rows. \<not> cl_fpr r \<and> cl_ok r \<longrightarrow> cl_lat (rows ! i) \<le> cl_lat r" using I(4) by (auto simp: in_set_conv_nth)
  ultimately show ?thesis using Some I(1-3) by (auto simp: not_le)
qed

definition demo_rows :: "calRow list" where
  "demo_rows = map (\<lambda>h. \<lparr>cl_h = Fin (of_nat h), cl_fpr = h \<le> 2, cl_lat = 60 * int h, cl_ok = True\<rparr>) [1..<5]"

theorem calibrate_select_witness: "selected 300 demo_rows = Some 2 \<and> best demo_rows = Some 2"
proof -
  have "selected 300 demo_rows = Some 2"
    by (simp add: selected_def demo_rows_def select_step_def better_def upt_rec eval_nat_numeral)
  with calibrate_select [of 300 demo_rows] show ?thesis by blast
qed

section \<open>The watchdogs on traffic without via-edges\<close>

text \<open>An issuance of the benchmark without a \<open>via\<close> edge.\<close>

definition flat_issue :: "prims \<Rightarrow> TrustEvent \<Rightarrow> bool" where
  "flat_issue P e \<longleftrightarrow> ev_Type e = EvIssue \<and> (\<forall>p. issue_of P e = Some p \<longrightarrow> ip_Via p = [])"

definition chain_ok :: "prims \<Rightarrow> Timeline \<Rightarrow> AuditorLog \<Rightarrow> bool" where
  "chain_ok P t a \<longleftrightarrow> tl_live P t \<and> no_key_change (tl_events t) \<and> tl_pub t = startPub t \<and> tl_algo t = algoSHA256
     \<and> length (al_events a) = length (tl_events t)"

lemma chain_ok_append:
  assumes "json_ok P" "chain_ok P t a" "ev_Type e = EvIssue"
  shows "chain_ok P (append_event P (ev_Type e) pl ts t) (Mirror P e a)"
    "tl_events (append_event P (ev_Type e) pl ts t) \<noteq> []"
proof -
  have "has_key P t" using assms(2) by (auto simp: chain_ok_def tl_live_def has_key_def)
  then obtain h t' where a: "tl_append P t EvIssue pl ts = Inr (h, t')" "grown P t t'"
    by (rule append_live [OF assms(1), of t EvIssue pl ts]) simp_all
  obtain k where k: "tl_key t = Some k" using assms(2) by (auto simp: chain_ok_def tl_live_def)
  obtain x where x: "t' = t\<lparr>tl_events := tl_events t @ [x]\<rparr>" "ev_Type x = EvIssue" by (rule tl_append_event [OF a(1) k]) auto
  have "tl_live P t'" using a(2) assms(2) by (simp add: grown_def chain_ok_def)
  then show "chain_ok P (append_event P (ev_Type e) pl ts t) (Mirror P e a)" "tl_events (append_event P (ev_Type e) pl ts t) \<noteq> []"
    using assms(2,3) a(1) x by (auto simp: append_event_def chain_ok_def no_key_change_def startPub_def Mirror_def split: option.splits)
qed

lemma add_batch_ok:
  assumes "json_ok P" "chain_ok P t a" "\<forall>e \<in> set es. ev_Type e = EvIssue" "add_batch P (- 1) es (t, a, m) = (t', a', m')"
  shows "chain_ok P t' a' \<and> (es \<noteq> [] \<longrightarrow> tl_events t' \<noteq> [] \<and> al_head a' = Some (ev_Hash P (last es)))"
  using assms(2-4)
proof (induction es arbitrary: t a m)
  case (Cons e es)
  let ?t = "append_event P (ev_Type e) (ev_Payload e) (ev_Timestamp e) t" and ?a = "Mirror P e a"
  have o: "chain_ok P ?t ?a" "tl_events ?t \<noteq> []" using chain_ok_append [OF assms(1) Cons.prems(1)] Cons.prems(2) by auto
  have n: "add_batch P (- 1) es (?t, ?a, m + 1) = (t', a', m')" using Cons.prems(3) by (simp add: Let_def)
  have i: "chain_ok P t' a' \<and> (es \<noteq> [] \<longrightarrow> tl_events t' \<noteq> [] \<and> al_head a' = Some (ev_Hash P (last es)))"
    by (rule Cons.IH [OF o(1) _ n]) (use Cons.prems(2) in simp)
  show ?case
  proof (cases es)
    case Nil
    then show ?thesis using n o by (auto simp: Mirror_def)
  qed (use i in simp)
qed simp

lemma wd_kind_kept: "wd_Kind (snd (wd_Score P rnd f2 qt t m (ObserveBatch P rnd es i w))) = wd_Kind w"
proof -
  have f: "wd_Kind (fold (observe_identity rnd i) xs u) = wd_Kind u" for xs u
    by (induction xs arbitrary: u) (auto simp: observe_identity_def observeShift_def Let_def split: prod.splits option.splits)
  have o: "wd_Kind (ObserveBatch P rnd es i w) = wd_Kind w"
    by (auto simp: ObserveBatch_def observe_shared_def observeShift_def Let_def f split: prod.splits)
  have c: "wd_Kind (snd (computeScore P rnd f2 qt t m u)) = wd_Kind u" for u
    by (auto simp: computeScore_def Let_def split: prod.splits option.splits if_splits)
  show ?thesis using o c [of "ObserveBatch P rnd es i w"] by (auto simp: wd_Score_def split: option.splits prod.splits)
qed

lemma score_values: "s_Score (fst (wd_Score P rnd f2 qt t m (ObserveBatch P rnd es i w))) \<in> {Fin 0, Fin 100}"
proof -
  have f: "wd_cached (fold (observe_identity rnd i) xs u) = wd_cached u" for xs u
    by (induction xs arbitrary: u) (auto simp: observe_identity_def observeShift_def Let_def split: prod.splits option.splits)
  have "wd_cached (ObserveBatch P rnd es i w) = None"
    by (auto simp: ObserveBatch_def observe_shared_def observeShift_def Let_def f split: prod.splits)
  moreover have "s_Score (fst (computeScore P rnd f2 qt t m u)) \<in> {Fin 0, Fin 100}" for u
    by (auto simp: computeScore_def Let_def split: prod.splits)
  ultimately show ?thesis by (auto simp: wd_Score_def split: prod.splits) (metis fst_conv insert_iff singletonD)+
qed

text \<open>The graph watchdog on batches without edges: its sum stays at zero.\<close>

definition flat_w3 :: "Watchdog \<Rightarrow> bool" where
  "flat_w3 w \<longleftrightarrow> wd_Kind w = WDGraphAnomaly \<and> cu_S (wd_cusum w) = Fin 0 \<and> cu_mu0 (wd_cusum w) = Fin (1 / 2)
     \<and> cu_delta (wd_cusum w) = Fin (1 / 2) \<and> cu_h (wd_cusum w) = Fin 3"

lemma count_flat: "\<forall>e \<in> set es. flat_issue P e \<Longrightarrow> fst (snd (fold (count_event P) es (n, m, l))) = m"
proof (induction es arbitrary: n m l)
  case (Cons e es)
  obtain n' m' l' where c: "count_event P e (n, m, l) = (n', m', l')" by (metis prod_cases3)
  then have "m' = m" using Cons.prems by (auto simp: count_event_def flat_issue_def split: option.splits if_splits)
  then show ?case using Cons.IH [of n' m' l'] Cons.prems by (simp add: c)
qed simp

lemma sum_stays_zero:
  assumes "round_ok rnd"
  shows "f_max0 (f_sub rnd (f_add rnd (Fin 0) (f_sub rnd (f_of_int rnd 0) (Fin (1 / 2)))) (Fin (1 / 2))) = Fin 0"
proof -
  note r = round_numeral [OF assms]
  have low: "\<exists>q. rnd x = Fin q \<and> q \<le> 0 \<and> - 2 \<le> q" if "- 2 \<le> x" "x \<le> 0" for x
  proof -
    have "rnd (- 2) = Fin (- 2)" using round_int [OF assms, of "- 2"] by simp
    then have "f_le (Fin (- 2)) (rnd x)" "f_le (rnd x) (Fin 0)" using round_mono [OF assms that(1)] round_mono [OF assms that(2)] r by simp_all
    moreover have "rnd x \<noteq> NaN" using assms by (simp add: round_ok_def)
    ultimately show ?thesis by (cases "rnd x") auto
  qed
  have mono: "f_le (rnd x) (Fin 0)" "rnd x \<noteq> NaN" if "x \<le> 0" for x using round_mono [OF assms that] r assms by (simp_all add: round_ok_def)
  obtain q where q: "rnd (- (1 / 2)) = Fin q" "q \<le> 0" "- 2 \<le> q" using low [of "- (1 / 2)"] by auto
  obtain q' where q': "rnd q = Fin q'" "q' \<le> 0" using low [of q] q by auto
  have "f_max0 (rnd (q' - 1 / 2)) = Fin 0" using mono [of "q' - 1 / 2"] q'(2) by (cases "rnd (q' - 1 / 2)") (auto simp: f_max0_def)
  then show ?thesis using r q q' by (simp add: f_sub_def f_of_int_def)
qed

lemma w3_quiet:
  assumes "round_ok rnd" "flat_w3 w" "\<forall>e \<in> set es. flat_issue P e"
  shows "s_Score (fst (wd_Score P rnd f2 qt t m (ObserveBatch P rnd es i w))) = Fin 100
    \<and> flat_w3 (snd (wd_Score P rnd f2 qt t m (ObserveBatch P rnd es i w)))"
proof -
  let ?w = "ObserveBatch P rnd es i w"
  obtain n l where c: "fold (count_event P) es (0, 0, []) = (n, 0, l)"
    using count_flat [OF assms(3), of 0 0 "[]"] by (metis prod_cases3 fst_conv snd_conv)
  have k: "wd_Kind w = WDGraphAnomaly" "cu_S (wd_cusum w) = Fin 0" "cu_mu0 (wd_cusum w) = Fin (1 / 2)"
    "cu_delta (wd_cusum w) = Fin (1 / 2)" "cu_h (wd_cusum w) = Fin 3" using assms(2) by (simp_all add: flat_w3_def)
  have "flat_w3 ?w \<and> wd_cached ?w = None"
    using k sum_stays_zero [OF assms(1)]
    by (simp add: ObserveBatch_def c observe_shared_def Ensemble.Observe_def observeShift_def Let_def flat_w3_def)
  then show ?thesis by (auto simp: wd_Score_def computeScore_def Alarmed_def flat_w3_def Let_def split: prod.splits)
qed

definition five :: "Watchdog list \<Rightarrow> bool" where
  "five wd \<longleftrightarrow> (\<exists>w1 w2 w3 w4 w5. wd = [w1, w2, w3, w4, w5] \<and> wd_Kind w2 = WDLogIntegrity \<and> flat_w3 w3 \<and> wd_Kind w4 = WDExternalProbe)"

lemma five_start: "five (watchdogsH h)"
  by (simp add: five_def watchdogsH_def NewWatchdog_def NewWatchdogBaseline_def NewCUSUM_def flat_w3_def)

text \<open>The probe against a mirror of events as they came.\<close>

lemma w4_score:
  assumes "wd_Kind w = WDExternalProbe" "tl_events t \<noteq> []" "tl_algo t = algoSHA256" "al_head a = Some (ev_Hash P e)"
  shows "s_Score (fst (wd_Score P rnd f2 qt t (Some a) (ObserveBatch P rnd es i w))) =
    (if ev_Hash P (last (tl_events t)) = ev_Hash P e then Fin 100 else Fin 0)"
proof -
  have "wd_Kind (ObserveBatch P rnd es i w) = WDExternalProbe" "wd_cached (ObserveBatch P rnd es i w) = None"
    using assms(1) by (simp_all add: ObserveBatch_def Let_def split: prod.splits)
  moreover have "bytes_equal (Head P t) (al_head a) \<longleftrightarrow> ev_Hash P (last (tl_events t)) = ev_Hash P e"
    using assms(2-4) by (simp add: Head_def eventDigest_def hashWith_def ev_Hash_def)
  ultimately show ?thesis by (simp add: wd_Score_def computeScore_def Let_def split: prod.splits)
qed

lemma cycle_scores:
  assumes "round_ok rnd" "chain_ok P t a" "five wd" "\<forall>e \<in> set es. flat_issue P e" "bx_rnd R = rnd"
    and "tl_events t \<noteq> []" "al_head a = Some (ev_Hash P e)"
  shows "five (map snd (score_all P R es i t a wd)) \<and> length (score_all P R es i t a wd) = 5
    \<and> (let ss = map fst (score_all P R es i t a wd) in s_Score (ss ! 1) = Fin 100 \<and> s_Score (ss ! 2) = Fin 100
       \<and> s_Score (ss ! 3) = (if ev_Hash P (last (tl_events t)) = ev_Hash P e then Fin 100 else Fin 0)
       \<and> (\<forall>k < 5. s_Score (ss ! k) \<in> {Fin 0, Fin 100}))"
proof -
  obtain w1 w2 w3 w4 w5 where w: "wd = [w1, w2, w3, w4, w5]" "wd_Kind w2 = WDLogIntegrity" "flat_w3 w3" "wd_Kind w4 = WDExternalProbe"
    using assms(3) by (auto simp: five_def)
  let ?s = "\<lambda>w. wd_Score P rnd (bx_fmt2 R) (bx_qt R) t (Some a) (ObserveBatch P rnd es i w)"
  have c: "tl_Verify P t" "no_key_change (tl_events t)" "tl_pub t = startPub t" "tl_algo t = algoSHA256"
    using assms(2) tl_live_Verify by (auto simp: chain_ok_def)
  have "s_Score (fst (?s w2)) = Fin 100"
  proof -
    obtain s w' where s: "?s w2 = (s, w')" "s_Score s = (if 0 \<le> w2_bad P t w2 then Fin 0 else Fin 100)"
      by (rule w2_cycle [OF w(2), of P rnd "bx_fmt2 R" "bx_qt R" t "Some a" es i]) (rule that; assumption)
    have "w2_bad P t w2 = - 1" using c(1) scan_quiet [OF c(1-3)] by (simp add: w2_bad_def tl_Verify_def)
    then show ?thesis using s by simp
  qed
  moreover note w3_quiet [OF assms(1) w(3) assms(4), of "bx_fmt2 R" "bx_qt R" t "Some a" i]
  moreover note w4_score [OF w(4) assms(6) c(4) assms(7), of rnd "bx_fmt2 R" "bx_qt R" es i]
  moreover have "score_all P R es i t a wd = [?s w1, ?s w2, ?s w3, ?s w4, ?s w5]" by (simp add: score_all_def w(1) assms(5))
  moreover have "wd_Kind (snd (?s w2)) = WDLogIntegrity" "wd_Kind (snd (?s w4)) = WDExternalProbe" using w wd_kind_kept by metis+
  ultimately show ?thesis using score_values [of P rnd "bx_fmt2 R" "bx_qt R" t "Some a" es i]
    by (simp add: five_def All_less_Suc numeral_eq_Suc Let_def)
qed

lemma three_of_five:
  assumes "Detect ss gw_threshold gw_quorum" "length ss = 5" "\<forall>k < 5. s_Score (ss ! k) \<in> {Fin 0, Fin 100}"
    and "s_Score (ss ! 1) = Fin 100" "s_Score (ss ! 2) = Fin 100"
  shows "s_Score (ss ! 0) = Fin 0 \<and> s_Score (ss ! 3) = Fin 0 \<and> s_Score (ss ! 4) = Fin 0"
proof -
  obtain a b c d e where s: "ss = [a, b, c, d, e]" using assms(2) by (auto simp: length_Suc_conv numeral_eq_Suc)
  have "\<forall>x \<in> {a, d, e}. s_Score x = Fin 0 \<or> s_Score x = Fin 100" using assms(3) by (auto simp: s All_less_Suc numeral_eq_Suc)
  then show ?thesis using assms(1,4,5) by (auto simp: s Detect_def gw_threshold_def gw_quorum_def split: if_splits)
qed

definition probe_false :: "prims \<Rightarrow> TrustEvent list list \<Rightarrow> Timeline \<Rightarrow> Score list \<Rightarrow> bool" where
  "probe_false P batches t ss \<longleftrightarrow>
     s_Score (ss ! 3) = Fin 0 \<or> (\<exists>e \<in> set (concat batches). ev_Hash P (last (tl_events t)) = ev_Hash P e)"

lemma simulate_probe:
  assumes "json_ok P" "round_ok (bx_rnd R)" "\<forall>b \<in> set bs. b \<noteq> [] \<and> (\<forall>e \<in> set b. flat_issue P e)" "set bs \<subseteq> set all"
    and "chain_ok P t a" "five wd" "bs = [] \<longrightarrow> probe_false P all t ss" "0 \<le> i"
    and "simulate_from P R (- 1) (- 1) i n m t a wd ss bs = Some ((c, bad, ss'), t', a')"
  shows "chain_ok P t' a' \<and> probe_false P all t' ss'
    \<and> (0 \<le> c \<longrightarrow> s_Score (ss' ! 0) = Fin 0 \<and> s_Score (ss' ! 3) = Fin 0 \<and> s_Score (ss' ! 4) = Fin 0)"
  using assms(3-9)
proof (induction bs arbitrary: i n m t a wd ss)
  case (Cons b bs)
  have b: "b \<noteq> []" "\<forall>e \<in> set b. flat_issue P e" "\<forall>e \<in> set b. ev_Type e = EvIssue" using Cons.prems(1) by (auto simp: flat_issue_def)
  obtain t1 a1 m1 where ab: "add_batch P (- 1) b (t, a, m) = (t1, a1, m1)" by (metis prod_cases3)
  have o: "chain_ok P t1 a1" "tl_events t1 \<noteq> []" "al_head a1 = Some (ev_Hash P (last b))"
    using add_batch_ok [OF assms(1) Cons.prems(3) b(3) ab] b(1) by auto
  let ?sw = "score_all P R b n t1 a1 wd"
  note S = cycle_scores [OF assms(2) o(1) Cons.prems(4) b(2) refl o(2,3), of n, unfolded Let_def]
  have pf: "probe_false P all t1 (map fst ?sw)"
    using S b(1) Cons.prems(2) last_in_set [of b] by (auto simp: probe_false_def)
  show ?case
  proof (cases "Detect (map fst ?sw) gw_threshold gw_quorum")
    case True
    then have r: "c = i" "ss' = map fst ?sw" "t' = t1" "a' = a1" using Cons.prems(7) ab by (auto simp: Let_def)
    have "s_Score (map fst ?sw ! 0) = Fin 0 \<and> s_Score (map fst ?sw ! 3) = Fin 0 \<and> s_Score (map fst ?sw ! 4) = Fin 0"
      by (rule three_of_five [OF True]) (use S in auto)
    then show ?thesis using r o(1) pf by simp
  next
    case False
    then have n: "simulate_from P R (- 1) (- 1) (i + 1) (n + int (length b)) m1 t1 a1 (map snd ?sw) (map fst ?sw) bs = Some ((c, bad, ss'), t', a')"
      using Cons.prems(7) ab by (simp add: Let_def)
    show ?thesis
      by (rule Cons.IH [OF _ _ o(1) _ _ _ n]) (use Cons.prems(1,2,6) S pf in auto)
  qed
qed auto

text \<open>
  On traffic without via-edges every detection of the benchmark counts the external probe together with the rate and the
  baseline watchdog; and the probe alarms on every cycle although the chain verifies and the auditors hold as many events as it, unless
  an event hashes the same before and after it was linked and signed: the mirror is given the former.
\<close>

theorem calibration_probe:
  assumes "json_ok P" "round_ok (bx_rnd R)" "ed_keypair P key" "bench_timeline key = Some t0"
    and "bs \<noteq> []" "\<forall>b \<in> set bs. b \<noteq> [] \<and> (\<forall>e \<in> set b. flat_issue P e)"
    and "simulateWith P R t0 empty_log bs (- 1) (- 1) (watchdogsH h1) = Some ((c, bad, ss), t, a)"
  shows "tl_Verify P t \<and> length (al_events a) = length (tl_events t)
    \<and> (s_Score (ss ! 3) = Fin 0 \<or> (\<exists>e \<in> set (concat bs). ev_Hash P (last (tl_events t)) = ev_Hash P e))
    \<and> (0 \<le> c \<longrightarrow> s_Score (ss ! 0) = Fin 0 \<and> s_Score (ss ! 3) = Fin 0 \<and> s_Score (ss ! 4) = Fin 0)"
proof -
  have "chain_ok P t0 empty_log"
    using assms(3,4) newTimeline_live [OF assms(3), of algoSHA256]
    by (auto simp: bench_timeline_def NewTimeline_def chain_ok_def newTimeline_def no_key_change_def startPub_def empty_log_def NewAuditorLog_def
        split: sum.splits option.splits if_splits)
  from simulate_probe [OF assms(1,2,6) subset_refl this five_start _ _ assms(7) [unfolded simulateWith_def]] assms(5)
  show ?thesis by (auto simp: chain_ok_def probe_false_def tl_live_Verify)
qed

lemma flat_issue_event:
  assumes "json_ok P" "ascii c" "ascii n"
  shows "flat_issue P (issue_event P c n [])"
proof -
  have "plain (ip_json \<lparr>ip_CertID = c, ip_Identity = n, ip_Via = []\<rparr>)" using assms by (simp add: ip_json_def omit_string_def ascii_payload)
  then show ?thesis
    by (simp add: flat_issue_def issue_event_def bench_issue_def issue_of_def unmarshal_text [OF assms(1)] ip_json_def omit_string_def
        ip_fields_def ip_zero_def decode_eval)
qed

lemma simulate_some: "\<exists>r. simulate_from P R k (- 1) i n m t a wd ss bs = Some r"
  by (induction bs arbitrary: i n m t a wd ss) (auto simp: Let_def split: prod.splits)

lemma jittered_flat:
  assumes "json_ok P"
  shows "\<forall>b \<in> set (jitteredBaselineBatches P). b \<noteq> [] \<and> (\<forall>e \<in> set b. flat_issue P e)"
proof -
  have "ascii (num s i) \<and> ascii (num s i @ ''-b'') \<and> ascii ''user''" if "ascii s" for s i
    using that ascii_digits [of i] by (auto simp: num_def ascii_def)
  then have "flat_issue P (issue_event P (num [c] i) ''user'' []) \<and> flat_issue P (issue_event P (num [c] i @ ''-b'') ''user'' [])"
    if "ascii [c]" for c i using flat_issue_event [OF assms] that by blast
  then show ?thesis by (auto simp: jitteredBaselineBatches_def ascii_def)
qed

definition demo_bench :: bench_rand where
  "demo_bench = \<lparr>bx_rnd = Fin, bx_fmt2 = (\<lambda>x. []), bx_qt = (\<lambda>s. s), bx_key = toy_key 1, bx_rogue = toy_key 2, bx_rss = (\<lambda>k i. []),
     bx_seed = (\<lambda>k. None), bx_nonces = (\<lambda>k. []), bx_ca = (\<lambda>k n. None), bx_took = (\<lambda>k. 0)\<rparr>"

theorem calibration_probe_witness:
  "\<exists>t0 c bad ss t a. bench_timeline (toy_key 1) = Some t0
     \<and> simulateWith toy demo_bench t0 empty_log (jitteredBaselineBatches toy) (- 1) (- 1) (watchdogsH (Fin 3)) = Some ((c, bad, ss), t, a)
     \<and> tl_Verify toy t \<and> length (al_events a) = length (tl_events t)"
proof -
  obtain t0 where t0: "bench_timeline (toy_key 1) = Some t0"
    using newTimeline_live [OF toy_key_pair, of 1 algoSHA256] by (auto simp: bench_timeline_def NewTimeline_def)
  obtain c bad ss t a where r: "simulateWith toy demo_bench t0 empty_log (jitteredBaselineBatches toy) (- 1) (- 1) (watchdogsH (Fin 3)) = Some ((c, bad, ss), t, a)"
    using simulate_some unfolding simulateWith_def by (metis prod_cases3)
  have "jitteredBaselineBatches toy \<noteq> []" by (simp add: jitteredBaselineBatches_def)
  from calibration_probe [OF toy_ok(3) _ toy_key_pair t0 this jittered_flat [OF toy_ok(3)] r] t0 r
  show ?thesis by (auto simp: demo_bench_def round_ok_exact)
qed

end
