(* ===== verification/ShareFiles.thy ===== *)
theory ShareFiles
  imports Cli ApiTrust FrostExt
begin

text \<open>
  Share files on disk: the JSON of \<open>FrostShareFile\<close> (\<open>frost.go\<close>) and of \<open>Shard\<close> (\<open>shamir.go\<close>), how the programs write
  a list of them and how they load one.
\<close>

section \<open>FROST shares\<close>

definition sf_zero :: FrostShareFile where
  "sf_zero = \<lparr>sf_ID = [], sf_X = 0, sf_Y = None, sf_GroupPub = [], sf_PubShare = [], sf_VK = [], sf_GlobalVK = []\<rparr>"

definition dc_fields :: "DkgCommitJSON field list" where
  "dc_fields = [string_field ''id'' (\<lambda>x r. r\<lparr>dc_ID := x\<rparr>), strings_field ''commits'' (\<lambda>x r. r\<lparr>dc_Commits := x\<rparr>)]"

definition sf_fields :: "prims \<Rightarrow> FrostShareFile field list" where
  "sf_fields P = [string_field ''id'' (\<lambda>x r. r\<lparr>sf_ID := x\<rparr>), int_field ''x'' (\<lambda>x r. r\<lparr>sf_X := x\<rparr>),
     big_field ''y'' (\<lambda>x r. r\<lparr>sf_Y := x\<rparr>), slice_field (b64_dec P) ''group_pub'' (\<lambda>x r. r\<lparr>sf_GroupPub := slice_bytes x\<rparr>),
     slice_field (b64_dec P) ''pub_share'' (\<lambda>x r. r\<lparr>sf_PubShare := slice_bytes x\<rparr>), strings_field ''vk'' (\<lambda>x r. r\<lparr>sf_VK := x\<rparr>),
     structs_field dc_fields \<lparr>dc_ID = [], dc_Commits = []\<rparr> ''global_vk'' (\<lambda>x r. r\<lparr>sf_GlobalVK := x\<rparr>)]"

definition big_json :: "int option \<Rightarrow> json" where
  "big_json n = (case n of None \<Rightarrow> JNull | Some i \<Rightarrow> JInt i)"

definition dc_json :: "DkgCommitJSON \<Rightarrow> json" where
  "dc_json d = JObj [(''id'', JStr (dc_ID d)), (''commits'', JArr (map JStr (dc_Commits d)))]"

definition sf_json :: "prims \<Rightarrow> FrostShareFile \<Rightarrow> json" where
  "sf_json P f = JObj ([(''id'', JStr (sf_ID f)), (''x'', JInt (sf_X f)), (''y'', big_json (sf_Y f)),
       (''group_pub'', slice_json P (Some (sf_GroupPub f))), (''pub_share'', slice_json P (Some (sf_PubShare f)))]
     @ (if sf_VK f = [] then [] else [(''vk'', JArr (map JStr (sf_VK f)))])
     @ (if sf_GlobalVK f = [] then [] else [(''global_vk'', JArr (map dc_json (sf_GlobalVK f)))]))"

definition sf_Marshal :: "prims \<Rightarrow> FrostShareFile \<Rightarrow> bytes" where
  "sf_Marshal P f = json_text P (sf_json P f)"

text \<open>\<open>loadShare\<close> of \<open>cmd/council\<close>.\<close>

definition loadShare :: "prims \<Rightarrow> 'g curve \<Rightarrow> string \<Rightarrow> world \<Rightarrow> cli_error + 'g FrostSigner" where
  "loadShare P C p w = (case ReadFile p w of Inl e \<Rightarrow> Inl e
     | Inr b \<Rightarrow> (case unmarshal P (sf_fields P) sf_zero b of None \<Rightarrow> Inl (Wrapped (''share '' @ p) NotJson)
        | Some f \<Rightarrow> (case sf_Signer C f of Inl _ \<Rightarrow> Inl (Wrapped (''share '' @ p) (Library ''signer'')) | Inr s \<Rightarrow> Inr s)))"

fun load_all :: "(string \<Rightarrow> cli_error + 's) \<Rightarrow> string list \<Rightarrow> cli_error + 's list" where
  "load_all ld [] = Inr []"
| "load_all ld (p # ps) = (case ld p of Inl e \<Rightarrow> Inl e
    | Inr s \<Rightarrow> (case load_all ld ps of Inl e \<Rightarrow> Inl e | Inr ss \<Rightarrow> Inr (s # ss)))"

section \<open>Shards\<close>

definition shard_json :: "Shard \<Rightarrow> json" where
  "shard_json s = JObj ([(''x'', big_json (sh_X s)), (''y'', big_json (sh_Y s))]
     @ (if sh_Len s = 0 then [] else [(''len'', JInt (sh_Len s))]))"

definition sh_Marshal :: "prims \<Rightarrow> Shard \<Rightarrow> bytes" where
  "sh_Marshal P s = json_text P (shard_json s)"

section \<open>Paths\<close>

text \<open>\<open>filepath.Clean\<close> and \<open>Join\<close>, on the text of a path.\<close>

fun clean_segments :: "bool \<Rightarrow> string list \<Rightarrow> string list \<Rightarrow> string list" where
  "clean_segments rooted [] out = out"
| "clean_segments rooted (s # ss) out =
     (if s = [] \<or> s = ''.'' then clean_segments rooted ss out
      else if s = ''..'' then
        (if out \<noteq> [] \<and> last out \<noteq> ''..'' then clean_segments rooted ss (butlast out)
         else if rooted then clean_segments rooted ss out else clean_segments rooted ss (out @ [s]))
      else clean_segments rooted ss (out @ [s]))"

fun join_segments :: "string list \<Rightarrow> string" where
  "join_segments [] = []"
| "join_segments [s] = s"
| "join_segments (s # ss) = s @ ''/'' @ join_segments ss"

definition filepath_clean :: "string \<Rightarrow> string" where
  "filepath_clean p =
     (let rooted = (take 1 p = ''/''); body = join_segments (clean_segments rooted (split_on CHR ''/'' p) []) in
      if rooted then ''/'' @ body else if body = [] then ''.'' else body)"

definition filepath_join :: "string \<Rightarrow> string \<Rightarrow> string" where
  "filepath_join a b = (if a = [] \<and> b = [] then [] else if a = [] then filepath_clean b
     else if b = [] then filepath_clean a else filepath_clean (a @ ''/'' @ b))"

section \<open>Writing files in a row\<close>

text \<open>The loop stops at the first write that fails; what was written before stays.\<close>

fun write_all :: "(string \<Rightarrow> bool) \<Rightarrow> (string \<times> bytes) list \<Rightarrow> world \<Rightarrow> cli_error option \<times> world" where
  "write_all can [] w = (None, w)"
| "write_all can ((p, b) # fs) w = (case WriteFile can p b w of (Some e, w') \<Rightarrow> (Some e, w') | (None, w') \<Rightarrow> write_all can fs w')"

lemma write_all_other: "write_all can fs w = (r, w') \<Longrightarrow> q \<notin> set (map fst fs) \<Longrightarrow> ReadFile q w' = ReadFile q w"
proof (induction fs arbitrary: w)
  case (Cons f fs)
  obtain p b where f: "f = (p, b)" by force
  show ?case
  proof (cases "WriteFile can p b w")
    case (Pair e w1)
    then show ?thesis using Cons f ReadFile_written [of can p b w w1 q]
      by (cases e) (auto simp: WriteFile_def split: if_splits)
  qed
qed simp

lemma write_all_read: "write_all can fs w = (None, w') \<Longrightarrow> distinct (map fst fs) \<Longrightarrow> (p, b) \<in> set fs \<Longrightarrow> ReadFile p w' = Inr b"
proof (induction fs arbitrary: w)
  case (Cons f fs)
  obtain q c where f: "f = (q, c)" by force
  obtain w1 where w1: "WriteFile can q c w = (None, w1)" "write_all can fs w1 = (None, w')"
    using Cons.prems(1) f by (auto split: prod.splits option.splits)
  show ?case
  proof (cases "(p, b) = (q, c)")
    case True
    then have "ReadFile p w1 = Inr b" using ReadFile_written [OF w1(1)] by simp
    moreover have "p \<notin> set (map fst fs)" using Cons.prems(2) True f by auto
    ultimately show ?thesis using write_all_other [OF w1(2)] by simp
  next
    case False
    then show ?thesis using Cons.IH [OF w1(2)] Cons.prems f by auto
  qed
qed simp

lemma write_all_total: "(\<forall>(p, b) \<in> set fs. can p) \<Longrightarrow> \<exists>w'. write_all can fs w = (None, w')"
  by (induction fs arbitrary: w) (auto simp: WriteFile_def)

end
