(* ===== verification/GatewayCli.thy ===== *)
theory GatewayCli
  imports Gateway ShareFiles
begin

text \<open>
  \<open>cmd/gateway\<close>: the flags, the leader lock, the shares of the vault key, the council's key and the start of the
  gateway, up to the listener; and the handler that puts the dashboard before the API.  The gateway's own files are apart
  from the files the program itself reads.  \<open>log.Fatal\<close> ends the program without running what was deferred.
\<close>

section \<open>Package flag\<close>

datatype flag_result = Parsed "(string \<times> string) list" | HelpShown | FlagError

text \<open>All flags of the program are strings; parsing stops at the first argument that is none.\<close>

function flag_parse :: "string list \<Rightarrow> string list \<Rightarrow> (string \<times> string) list \<Rightarrow> flag_result" where
  "flag_parse names [] m = Parsed m"
| "flag_parse names (s # rest) m =
     (if length s < 2 \<or> take 1 s \<noteq> ''-'' \<or> s = ''--'' then Parsed m
      else let name = (if take 2 s = ''--'' then drop 2 s else drop 1 s) in
       if take 1 name = ''-'' \<or> take 1 name = ''='' then FlagError
       else (case cut CHR ''='' name of
           Some (k, v) \<Rightarrow> if k \<in> set names then flag_parse names rest (AList.update k v m)
              else if k = ''help'' \<or> k = ''h'' then HelpShown else FlagError
         | None \<Rightarrow>
            if name \<notin> set names then (if name = ''help'' \<or> name = ''h'' then HelpShown else FlagError)
            else (case rest of [] \<Rightarrow> FlagError | v # rest' \<Rightarrow> flag_parse names rest' (AList.update name v m))))"
  by pat_completeness auto
termination by (relation "measure (\<lambda>(names, args, m). length args)") auto

text \<open>The default of a flag that was not given.\<close>

definition flag_or :: "(string \<times> string) list \<Rightarrow> string \<Rightarrow> string \<Rightarrow> string" where
  "flag_or m k d = (case map_of m k of None \<Rightarrow> d | Some v \<Rightarrow> v)"

definition gw_flags :: "string list" where
  "gw_flags = [''addr'', ''data'', ''token'', ''tls-cert'', ''tls-key'', ''council-pub'', ''leader-lock'', ''kek-shares'']"

section \<open>The council's key and the shares\<close>

definition hex2key :: "string \<Rightarrow> cli_error + bytes" where
  "hex2key s = (case hex_decode (TrimSpace s) of None \<Rightarrow> Inl BadHex
     | Some b \<Rightarrow> if length b \<noteq> 32 then Inl (Msg (''want 32 bytes, got '' @ digits (length b))) else Inr b)"

definition shard_zero :: Shard where
  "shard_zero = \<lparr>sh_X = None, sh_Y = None, sh_Len = 0\<rparr>"

fun load_shards :: "prims \<Rightarrow> world \<Rightarrow> string list \<Rightarrow> cli_error + Shard list" where
  "load_shards P w [] = Inr []"
| "load_shards P w (f0 # fs) = (let f = TrimSpace f0 in
     if f = [] then load_shards P w fs
     else (case ReadFile f w of Inl e \<Rightarrow> Inl e
       | Inr b \<Rightarrow> (case unmarshal P shard_fields shard_zero b of None \<Rightarrow> Inl (Wrapped f NotJson)
          | Some sh \<Rightarrow> (case load_shards P w fs of Inl e \<Rightarrow> Inl e | Inr ss \<Rightarrow> Inr (sh # ss)))))"

definition loadShares :: "prims \<Rightarrow> string \<Rightarrow> world \<Rightarrow> cli_error + Shard list" where
  "loadShares P l w = (case load_shards P w (split_on CHR '','' l) of Inl e \<Rightarrow> Inl e
     | Inr ss \<Rightarrow> if ss = [] then Inl (Msg ''no share files given'') else Inr ss)"

section \<open>The leader lock\<close>

text \<open>The file is created exclusively, with the process id in it.\<close>

definition acquireLeaderLock :: "(string \<Rightarrow> bool) \<Rightarrow> nat \<Rightarrow> string \<Rightarrow> world \<Rightarrow> cli_error option \<times> world" where
  "acquireLeaderLock can pid p w =
     (if exists_file p w \<or> \<not> can p then (Some (Msg (''gateway: leader lock '' @ p @ '' held by another instance (HA single-writer)'')), w)
      else (None, w\<lparr>w_files := AList.update p (str_bytes (digits pid @ [char_of (10 :: nat)])) (w_files w)\<rparr>))"

section \<open>The handler\<close>

datatype page = Dashboard bytes | Api "response option"

text \<open>\<open>ep\<close> is the route the API's own multiplexer picks; the pattern of the dashboard also takes HEAD.\<close>

definition newHandler :: "prims \<Rightarrow> aead \<Rightarrow> rounding \<Rightarrow> env \<Rightarrow> bytes \<Rightarrow> endpoint \<Rightarrow> request \<Rightarrow> Store \<Rightarrow> page \<times> Store" where
  "newHandler P A rnd E dash ep rq s =
     (if rq_path rq = ''/'' \<and> (rq_method rq = ''GET'' \<or> rq_method rq = ''HEAD'') then (Dashboard dash, s)
      else (case serve P A rnd E ep rq s of (r, s') \<Rightarrow> (Api r, s')))"

section \<open>Main\<close>

text \<open>
  \<open>ge_env\<close> is the environment of the k-th operation on the store, \<open>ge_token\<close> and \<open>ge_council\<close> the two environment variables,
  \<open>ge_seal\<close> and \<open>ge_log\<close> the random bytes of new keys, \<open>ge_can_lock\<close> says where a lock file can be made, \<open>ge_pid\<close> is the process id.
\<close>

record gateway_env =
  ge_env :: "nat \<Rightarrow> env"
  ge_token :: string
  ge_council :: string
  ge_seal :: bytes
  ge_log :: bytes
  ge_can_lock :: "string \<Rightarrow> bool"
  ge_pid :: nat

datatype gateway_exit = Serving Store bool | Fatal cli_error | Usage | Help | Crashed

definition open_vault :: "prims \<Rightarrow> aead \<Rightarrow> gateway_env \<Rightarrow> string \<Rightarrow> world \<Rightarrow> Store \<Rightarrow> gateway_exit + Store" where
  "open_vault P A G l w s = (if l = [] then Inr s
     else (case loadShares P l w of Inl e \<Rightarrow> Inl (Fatal (Wrapped ''gateway: kek-shares'' e))
       | Inr shares \<Rightarrow> (case UnlockVault P A (ge_env G 1) (map Some shares) s of
           None \<Rightarrow> Inl Crashed
         | Some (Some e, _) \<Rightarrow> Inl (Fatal (Library ''gateway: vault unwrap''))
         | Some (None, s') \<Rightarrow> Inr s')))"

definition set_anchor :: "prims \<Rightarrow> gateway_env \<Rightarrow> string \<Rightarrow> Store \<Rightarrow> gateway_exit + Store" where
  "set_anchor P G c s = (if c = [] then Inr s
     else (case hex2key c of Inl e \<Rightarrow> Inl (Fatal (Wrapped ''gateway: council-pub'' e))
       | Inr pub \<Rightarrow> (case SetCouncilPub_store P (ge_env G 2) pub s of
           (Some e, _) \<Rightarrow> Inl (Fatal (Library ''gateway: set council anchor'')) | (None, s') \<Rightarrow> Inr s')))"

text \<open>
  \<open>disk\<close> are the files under the data directory.  \<open>Serving s tls\<close> is the listener with the store it starts on; it only ever
  returns an error, which is fatal too.
\<close>

definition start_gateway ::
  "prims \<Rightarrow> aead \<Rightarrow> gateway_env \<Rightarrow> (path \<times> bytes) list \<Rightarrow> (string \<times> string) list \<Rightarrow> world \<Rightarrow> gateway_exit \<times> world" where
  "start_gateway P A G disk f w =
     (case NewGateway P A (ge_env G 0) (ge_seal G) (ge_log G) (clean (split_from [] (flag_or f ''data'' ''./data''))) disk
             (flag_or f ''token'' (ge_token G)) of
        Inl e \<Rightarrow> (Fatal (Library ''gateway''), w)
      | Inr (s, raw) \<Rightarrow> (case open_vault P A G (flag_or f ''kek-shares'' []) w s of Inl x \<Rightarrow> (x, w)
        | Inr s1 \<Rightarrow> (case set_anchor P G (flag_or f ''council-pub'' (ge_council G)) s1 of Inl x \<Rightarrow> (x, w)
          | Inr s2 \<Rightarrow> (Serving s2 (flag_or f ''tls-cert'' [] \<noteq> []),
              if raw = [] then w else println (''admin token (shown once): '' @ raw) w))))"

definition gateway_main ::
  "prims \<Rightarrow> aead \<Rightarrow> gateway_env \<Rightarrow> (path \<times> bytes) list \<Rightarrow> string list \<Rightarrow> world \<Rightarrow> gateway_exit \<times> world" where
  "gateway_main P A G disk args w = (case flag_parse gw_flags args [] of
     HelpShown \<Rightarrow> (Help, w) | FlagError \<Rightarrow> (Usage, w)
   | Parsed f \<Rightarrow>
      if (flag_or f ''tls-cert'' [] = []) \<noteq> (flag_or f ''tls-key'' [] = [])
      then (Fatal (Msg ''gateway: tls-cert and tls-key must be set together''), w)
      else let lock = flag_or f ''leader-lock'' [] in
       if lock = [] then start_gateway P A G disk f w
       else (case acquireLeaderLock (ge_can_lock G) (ge_pid G) lock w of
           (Some e, w') \<Rightarrow> (Fatal e, w')
         | (None, w') \<Rightarrow> start_gateway P A G disk f w'))"

end
