(* ===== verification/ToolCli.thy ===== *)
theory ToolCli
  imports ShareFiles ShareFileProps OrchCli Identity Bench
begin

text \<open>
  \<open>cmd/to\<close>: the bootstrap key and its one-time enrolments, the dealer's shares, the shares of the vault key, a watchdog replayed
  over a timeline, and the benchmark's commands.
\<close>

text \<open>
  \<open>te_fresh\<close> is the key \<open>GenerateKey\<close> returns, \<open>te_rs\<close>, \<open>te_kek\<close> and \<open>te_rnd\<close> the random values of the dealer and of the key shares,
  \<open>te_probe\<close> the error of the external command in a cycle (None where it exits with 0), \<open>te_parse\<close> the value of a
  number literal, \<open>te_fmt0\<close> and \<open>te_num\<close> forms of floats, \<open>te_dur\<close> and \<open>te_round\<close> the text of a duration and its rounding to seconds.
\<close>

record tool_env =
  te_fresh :: "bytes option"
  te_rs :: "bytes option list"
  te_kek :: "bytes option"
  te_rnd :: "nat \<Rightarrow> int option"
  te_mkdir :: "string \<Rightarrow> bool"
  te_can_write :: "string \<Rightarrow> bool"
  te_indent :: "json \<Rightarrow> bytes"
  te_round_f :: rounding
  te_parse :: "string \<Rightarrow> f64 option"
  te_fmt0 :: "f64 \<Rightarrow> string"
  te_fmt2 :: "f64 \<Rightarrow> string"
  te_num :: "f64 \<Rightarrow> string"
  te_quote :: "string \<Rightarrow> string"
  te_probe :: "nat \<Rightarrow> string \<Rightarrow> string option"
  te_dur :: "int \<Rightarrow> string"
  te_round :: "int \<Rightarrow> int"

section \<open>The bootstrap key\<close>

definition genKey :: "tool_env \<Rightarrow> string \<Rightarrow> command" where
  "genKey E p w = (case te_fresh E of None \<Rightarrow> (Fails (Library ''rand''), w)
     | Some priv \<Rightarrow> (case WriteFile (te_can_write E) p (str_bytes (hex_encode priv)) w of
         (Some e, w') \<Rightarrow> (Fails e, w') | (None, w') \<Rightarrow> (Done, w')))"

text \<open>The command line of \<open>genkey\<close> is read from all the arguments: with none after the command the index is out of range.\<close>

definition genkey_cmd :: "tool_env \<Rightarrow> string list \<Rightarrow> command" where
  "genkey_cmd E os_args w = (if length os_args < 3 then (Panics, w) else genKey E (os_args ! 2) w)"

definition revokedMarker :: "string \<Rightarrow> string" where
  "revokedMarker p = p @ ''.revoked''"

definition revoke_key :: "tool_env \<Rightarrow> string list \<Rightarrow> command" where
  "revoke_key E args w =
     (let p = flag (scan_opts [''--bootstrap''] args []) ''--bootstrap'' in
      if p = [] then (Fails (Msg ''usage: revoke --bootstrap <keyfile>''), w)
      else if \<not> exists_file p w then (Fails (Msg (''revoke: no such key '' @ p)), w)
      else (case WriteFile (te_can_write E) (revokedMarker p) (str_bytes (''revoked'' @ [char_of (10 :: nat)])) w of
          (Some e, w') \<Rightarrow> (Fails e, w')
        | (None, w') \<Rightarrow> (Done, println (''revoked '' @ p @ '': the one-time bootstrap is spent (FR8.2)'') w')))"

definition known_role :: "string \<Rightarrow> bool" where
  "known_role r \<longleftrightarrow> r \<in> {''watchdog'', ''council'', ''auditor'', ''consumer''}"

definition config_line :: "string \<Rightarrow> (string \<times> string) list \<Rightarrow> (string \<times> string) list" where
  "config_line raw cfg = (let line = TrimSpace raw in
     if line = [] \<or> take 1 line = ''#'' then cfg
     else (case cut CHR '':'' line of None \<Rightarrow> cfg | Some (k, v) \<Rightarrow> AList.update (TrimSpace k) (TrimSpace v) cfg))"

definition parseConfig :: "string \<Rightarrow> world \<Rightarrow> cli_error + (string \<times> string) list" where
  "parseConfig p w = (case ReadFile p w of Inl e \<Rightarrow> Inl e
     | Inr raw \<Rightarrow> (let cfg = fold config_line (split_on (char_of (10 :: nat)) (bytes_str raw)) [] in
         if flag cfg ''node'' = [] \<or> flag cfg ''role'' = [] then Inl (Msg ''config: requires node and role'')
         else if \<not> known_role (flag cfg ''role'') then Inl (Msg (''config: unknown role '' @ flag cfg ''role''))
         else Inr cfg))"

definition node_config :: "(string \<times> string) list \<Rightarrow> world \<Rightarrow> cli_error + (string \<times> string) list" where
  "node_config f w =
     (if flag f ''--config'' \<noteq> [] then parseConfig (flag f ''--config'') w
      else let role = or_default (flag f ''--role'') ''watchdog'' in
        if \<not> known_role role then Inl (Msg (''config: unknown role '' @ role))
        else Inr [(''node'', flag f ''--node-id''), (''role'', role)])"

text \<open>The statement the bootstrap key signs; the members of a Go map are written in the order of their names.\<close>

definition node_statement :: "prims \<Rightarrow> string \<Rightarrow> string \<Rightarrow> bytes \<Rightarrow> bytes" where
  "node_statement P node role pub = json_text P (JObj [(''node_id'', JStr node), (''public_key'', slice_json P (Some pub)), (''role'', JStr role)])"

definition node_cert :: "prims \<Rightarrow> string \<Rightarrow> string \<Rightarrow> bytes \<Rightarrow> bytes \<Rightarrow> json" where
  "node_cert P node role pub sig = JObj [(''bootstrap_signature'', slice_json P (Some sig)), (''node_id'', JStr node),
     (''public_key'', slice_json P (Some pub)), (''role'', JStr role)]"

text \<open>A role the short form refuses is reported before the key is generated; signing with a key of another length panics.\<close>

definition enroll :: "prims \<Rightarrow> tool_env \<Rightarrow> string list \<Rightarrow> command" where
  "enroll P E args w =
     (let f = scan_opts [''--bootstrap'', ''--config'', ''--node-id'', ''--role''] args []; boot = flag f ''--bootstrap'' in
      if boot = [] \<or> flag f ''--config'' = [] \<and> flag f ''--node-id'' = []
      then (Fails (Msg ''usage: enroll --bootstrap <keyfile> --config <config.yaml> | --bootstrap <keyfile> --node-id W1 [--role watchdog]''), w)
      else if exists_file (revokedMarker boot) w
      then (Fails (Msg (''enroll: bootstrap key is revoked (FR8.2); genesis is over '' @ mdash @ '' no node may enroll with a spent key'')), w)
      else (case ReadFile boot w of Inl e \<Rightarrow> (Fails e, w)
        | Inr raw \<Rightarrow> (case hex_decode (bytes_str raw) of None \<Rightarrow> (Fails BadHex, w)
        | Some key \<Rightarrow> (case node_config f w of Inl e \<Rightarrow> (Fails e, w)
        | Inr cfg \<Rightarrow> (case te_fresh E of None \<Rightarrow> (Fails (Library ''rand''), w)
        | Some nodeKey \<Rightarrow>
           if length key \<noteq> 64 then (Panics, w)
           else let node = flag cfg ''node''; role = flag cfg ''role''; pub = ed_public nodeKey;
                    sig = ed_sign P key (node_statement P node role pub) in
            (case write_all (te_can_write E) [(''node.key'', str_bytes (hex_encode nodeKey)),
                    (''node.cert.json'', te_indent E (node_cert P node role pub sig))] w of
               (Some e, w') \<Rightarrow> (Fails e, w')
             | (None, w') \<Rightarrow> (Done, println (''enrolled '' @ node @ '' ('' @ role @ ''): node.key + node.cert.json (bootstrap-signed)'') w')))))))"

section \<open>Shares\<close>

fun shard_opts :: "string list \<Rightarrow> string \<times> int \<times> int \<Rightarrow> cli_error + string \<times> int \<times> int" where
  "shard_opts (a # b # rest) (kf, n, k) =
     (if a = ''--key'' then shard_opts rest (b, n, k)
      else if a = ''--shares'' then (case ParseInt b of None \<Rightarrow> Inl (Wrapped ''--shares'' BadNumber) | Some v \<Rightarrow> shard_opts rest (kf, v, k))
      else if a = ''--threshold'' then (case ParseInt b of None \<Rightarrow> Inl (Wrapped ''--threshold'' BadNumber) | Some v \<Rightarrow> shard_opts rest (kf, n, v))
      else shard_opts (b # rest) (kf, n, k))"
| "shard_opts _ r = Inr r"

definition parseShardArgs :: "string list \<Rightarrow> cli_error + string \<times> int \<times> int" where
  "parseShardArgs args =
     (if length args = 3 \<and> args ! 0 \<noteq> ''--key''
      then (case ParseInt (args ! 1) of None \<Rightarrow> Inl (Wrapped ''shares'' BadNumber)
        | Some n \<Rightarrow> (case ParseInt (args ! 2) of None \<Rightarrow> Inl (Wrapped ''threshold'' BadNumber) | Some k \<Rightarrow> Inr (args ! 0, n, k)))
      else (case shard_opts args ([], 0, 0) of Inl e \<Rightarrow> Inl e
        | Inr (kf, n, k) \<Rightarrow> if kf = [] \<or> n = 0 \<or> k = 0 then Inl (Msg ''usage: shard --key <f> --shares <n> --threshold <k>'') else Inr (kf, n, k)))"

definition shard_path :: "string \<Rightarrow> string" where
  "shard_path i = ''share-'' @ i @ ''.json''"

definition shard :: "prims \<Rightarrow> 'g curve \<Rightarrow> tool_env \<Rightarrow> string list \<Rightarrow> command" where
  "shard P C E args w = (case parseShardArgs args of Inl e \<Rightarrow> (Fails e, w)
     | Inr (keyFile, n, k) \<Rightarrow> (case ReadFile keyFile w of Inl e \<Rightarrow> (Fails e, w)
     | Inr raw \<Rightarrow> (case hex_decode (bytes_str raw) of None \<Rightarrow> (Fails BadHex, w)
     | Some seed \<Rightarrow> (case FrostSplit P C (te_rs E) seed n k of
         Inl e \<Rightarrow> (Fails (Library ''split''), w)
       | Inr (signers, groupPub) \<Rightarrow>
          (case write_all (te_can_write E) (map (\<lambda>s. (shard_path (fs_ID s), sf_Marshal P (shard_file C s))) signers) w of
             (Some e, w') \<Rightarrow> (Fails e, w')
           | (None, w') \<Rightarrow> (Done, print_all
               [''wrote '' @ fmt_int n @ '' FROST shares (threshold '' @ fmt_int k @ '' of '' @ fmt_int n @ '') to share-*.json'',
                ''GROUP KEY (gateway --council-pub): '' @ hex_encode groupPub] w'))))))"

text \<open>
  \<open>Atoi\<close> with its error dropped: 0 for what is not a number; one out of range gives the nearest value of the type.
\<close>

definition atoi_lenient :: "string \<Rightarrow> int" where
  "atoi_lenient s = (let (neg, ds) = (case s of c # cs \<Rightarrow> if c = CHR ''-'' then (True, cs) else if c = CHR ''+'' then (False, cs) else (False, s)
        | [] \<Rightarrow> (False, s)) in
     if ds = [] then 0
     else (case digits_val 0 ds of None \<Rightarrow> 0
       | Some n \<Rightarrow> if neg then max (- n) (- (2 ^ 63)) else min n (2 ^ 63 - 1)))"

record kek_opts =
  ko_out :: string
  ko_n :: int
  ko_k :: int
  ko_keep :: bool

fun kek_args :: "string list \<Rightarrow> kek_opts \<Rightarrow> kek_opts" where
  "kek_args [] o' = o'"
| "kek_args [a] o' = (if a = ''--keep'' then o'\<lparr>ko_keep := True\<rparr> else o')"
| "kek_args (a # b # rest) o' =
     (if a = ''--out'' then kek_args rest (o'\<lparr>ko_out := b\<rparr>)
      else if a = ''--shares'' then kek_args rest (o'\<lparr>ko_n := atoi_lenient b\<rparr>)
      else if a = ''--threshold'' then kek_args rest (o'\<lparr>ko_k := atoi_lenient b\<rparr>)
      else if a = ''--keep'' then kek_args (b # rest) (o'\<lparr>ko_keep := True\<rparr>)
      else kek_args (b # rest) o')"

definition kek_path :: "string \<Rightarrow> nat \<Rightarrow> string" where
  "kek_path out i = filepath_join out (''kek-'' @ digits i @ ''.json'')"

definition vaultkek :: "prims \<Rightarrow> tool_env \<Rightarrow> string list \<Rightarrow> command" where
  "vaultkek P E args w =
     (let opt = kek_args args \<lparr>ko_out = ''vault'', ko_n = 5, ko_k = 3, ko_keep = False\<rparr>; n = ko_n opt; k = ko_k opt; out = ko_out opt in
      (case te_kek E of None \<Rightarrow> (Fails (Library ''rand''), w)
       | Some kek \<Rightarrow> (case ShareKEK (te_rnd E) kek n k of Inl _ \<Rightarrow> (Fails (Library ''shamir''), w)
       | Inr shares \<Rightarrow>
          if \<not> te_mkdir E out then (Fails (WriteFails out), w)
          else (case write_all (te_can_write E) (map (\<lambda>(i, s). (kek_path out (i + 1), sh_Marshal P s)) (enumerate 0 shares)) w of
              (Some e, w') \<Rightarrow> (Fails e, w')
            | (None, w1) \<Rightarrow>
               if ko_keep opt
               then (case WriteFile (te_can_write E) (filepath_join out ''kek.json'') (str_bytes (hex_encode kek)) w1 of
                   (Some e, w2) \<Rightarrow> (Fails e, w2)
                 | (None, w2) \<Rightarrow> (Done, println (''wrote KEK + '' @ fmt_int n @ '' shares (threshold '' @ fmt_int k @ '' of '' @ fmt_int n @ '') to '' @ out) w2))
               else (Done, println (''wrote '' @ fmt_int n @ '' KEK shares (threshold '' @ fmt_int k @ '' of '' @ fmt_int n @ '') to '' @ out
                   @ '' '' @ mdash @ '' KEK never hit disk; any '' @ fmt_int k @ '' open gateway.keys'') w1)))))"

section \<open>The watchdog process\<close>

definition loadTimelineOrEvidence :: "prims \<Rightarrow> string \<Rightarrow> world \<Rightarrow> cli_error + Timeline" where
  "loadTimelineOrEvidence P events w =
     (let r = LoadTimeline P events w in
      if (case r of Inr t \<Rightarrow> tl_events t \<noteq> [] | Inl _ \<Rightarrow> False) then r
      else (case ReadFile events w of Inl e \<Rightarrow> Inl (Wrapped (''load '' @ events) e)
        | Inr raw \<Rightarrow> (case envelope_timeline P raw of Some t \<Rightarrow> Inr t | None \<Rightarrow> r)))"

text \<open>The named options in order; an option takes the argument after it.\<close>

fun opt_pairs :: "string list \<Rightarrow> string list \<Rightarrow> (string \<times> string) list" where
  "opt_pairs names (a # b # rest) = (if a \<in> set names then (a, b) # opt_pairs names rest else opt_pairs names (b # rest))"
| "opt_pairs names _ = []"

definition opt_value :: "(string \<times> string) list \<Rightarrow> string \<Rightarrow> string \<Rightarrow> string" where
  "opt_value ps name d = fold (\<lambda>(a, b) v. if a = name then b else v) ps d"

definition opt_int :: "(string \<times> string) list \<Rightarrow> string \<Rightarrow> int \<Rightarrow> int" where
  "opt_int ps name d = fold (\<lambda>(a, b) v. if a = name then (case scan_int b of Some n \<Rightarrow> n | None \<Rightarrow> v) else v) ps d"

text \<open>A Go map of floats: a member of another kind fails the document, \<open>null\<close> is 0 inside the map and the nil map itself.\<close>

definition float_value :: "tool_env \<Rightarrow> json \<Rightarrow> f64 option" where
  "float_value E j = (case j of JInt n \<Rightarrow> (case te_round_f E (of_int n) of Fin x \<Rightarrow> Some (Fin x) | _ \<Rightarrow> None)
     | JNum x \<Rightarrow> te_parse E x | JNull \<Rightarrow> Some (Fin 0) | _ \<Rightarrow> None)"

fun float_members :: "tool_env \<Rightarrow> (string \<times> json) list \<Rightarrow> (string \<times> f64) list \<Rightarrow> (string \<times> f64) list option" where
  "float_members E [] m = Some m"
| "float_members E ((k, j) # kvs) m = (case float_value E j of None \<Rightarrow> None | Some x \<Rightarrow> float_members E kvs (AList.update k x m))"

record params_file =
  pf_W1 :: "(string \<times> f64) list"
  pf_W3 :: "(string \<times> f64) list"
  pf_W5 :: "(string \<times> f64) list"

definition floats_field ::
  "tool_env \<Rightarrow> string \<Rightarrow> ('r \<Rightarrow> (string \<times> f64) list) \<Rightarrow> ((string \<times> f64) list \<Rightarrow> 'r \<Rightarrow> 'r) \<Rightarrow> 'r field" where
  "floats_field E name sel upd = (name, \<lambda>j r. case j of JNull \<Rightarrow> Some (upd [] r)
     | JObj kvs \<Rightarrow> map_option (\<lambda>m. upd m r) (float_members E kvs (sel r)) | _ \<Rightarrow> None)"

definition params_fields :: "tool_env \<Rightarrow> params_file field list" where
  "params_fields E = [floats_field E ''w1'' pf_W1 (\<lambda>m r. r\<lparr>pf_W1 := m\<rparr>), floats_field E ''w3'' pf_W3 (\<lambda>m r. r\<lparr>pf_W3 := m\<rparr>),
     floats_field E ''w5'' pf_W5 (\<lambda>m r. r\<lparr>pf_W5 := m\<rparr>)]"

definition at0 :: "(string \<times> f64) list \<Rightarrow> string \<Rightarrow> f64" where
  "at0 m k = (case map_of m k of None \<Rightarrow> Fin 0 | Some x \<Rightarrow> x)"

type_synonym operating_point = "f64 \<times> f64 \<times> f64"

definition default_point :: "string \<Rightarrow> operating_point" where
  "default_point kind = (if kind = WDGraphAnomaly then (Fin (1 / 2), Fin (1 / 2), Fin 3)
     else if kind = WDBehaviorBaseline then (Fin 1, Fin (1 / 2), Fin 2) else (Fin 1, Fin 1, defaultH1))"

definition file_point :: "prims \<Rightarrow> tool_env \<Rightarrow> string \<Rightarrow> bytes \<Rightarrow> operating_point" where
  "file_point P E kind raw = (case unmarshal P (params_fields E) \<lparr>pf_W1 = [], pf_W3 = [], pf_W5 = []\<rparr> raw of
     None \<Rightarrow> default_point kind
   | Some p \<Rightarrow> (let pick = (\<lambda>m. (at0 m ''mu0'', at0 m ''delta'', at0 m ''h'')) in
       if kind = WDIssuanceRate then pick (pf_W1 p) else if kind = WDGraphAnomaly then pick (pf_W3 p)
       else if kind = WDBehaviorBaseline then pick (pf_W5 p) else default_point kind))"

definition cycleScore :: "prims \<Rightarrow> tool_env \<Rightarrow> Timeline \<Rightarrow> AuditorLog \<Rightarrow> string \<Rightarrow> nat \<Rightarrow> TrustEvent \<Rightarrow> Watchdog \<Rightarrow> Score \<times> Watchdog" where
  "cycleScore P E t a probeCmd i e w =
     (case wd_Score P (te_round_f E) (te_fmt2 E) (te_quote E) t (Some a) (ObserveBatch P (te_round_f E) [e] (int i) w) of (s, w') \<Rightarrow>
       (if probeCmd = [] then s
        else (case te_probe E i probeCmd of
            Some err \<Rightarrow> \<lparr>s_NodeID = s_NodeID s, s_Score = Fin 0, s_PValue = te_round_f E (1 / 100), s_Evidence = str_bytes (''probe failed: '' @ err)\<rparr>
          | None \<Rightarrow> \<lparr>s_NodeID = s_NodeID s, s_Score = Fin 100, s_PValue = Fin 1, s_Evidence = []\<rparr>), w'))"

fun cycle_scores :: "prims \<Rightarrow> tool_env \<Rightarrow> Timeline \<Rightarrow> AuditorLog \<Rightarrow> string \<Rightarrow> nat \<Rightarrow> TrustEvent list \<Rightarrow> Watchdog \<Rightarrow> Score list" where
  "cycle_scores P E t a probeCmd i [] w = []"
| "cycle_scores P E t a probeCmd i (e # es) w =
     (case cycleScore P E t a probeCmd i e w of (s, w') \<Rightarrow> s # cycle_scores P E t a probeCmd (i + 1) es w')"

definition cycle_line :: "tool_env \<Rightarrow> nat \<Rightarrow> Score \<Rightarrow> string" where
  "cycle_line E i s = ''cycle '' @ digits i @ '': '' @ s_NodeID s @ '' score '' @ te_fmt0 E (s_Score s) @ '' '' @
     (if f_lt (s_Score s) (Fin 100) then ''ALARM (evidence: '' @ bytes_str (s_Evidence s) @ '')'' else ''ok'')"

text \<open>
  A program that also sends scores to a fleet server: the exit, the scores sent, and the files.  A failed send is reported on
  the standard error and the loop goes on, so every score is offered to the peer.
\<close>

type_synonym sending = "world \<Rightarrow> exit \<times> Score list \<times> world"

definition silent :: "command \<Rightarrow> sending" where
  "silent c w = (case c w of (e, w') \<Rightarrow> (e, [], w'))"

definition streamLive :: "x509 \<Rightarrow> (string \<times> string) list \<Rightarrow> Score list \<Rightarrow> sending" where
  "streamLive X ps scores w = (case ReadFile (opt_value ps ''--ca'' []) w of Inl e \<Rightarrow> (Fails e, [], w)
     | Inr caDER \<Rightarrow> (case ReadFile (opt_value ps ''--cert'' []) w of Inl e \<Rightarrow> (Fails e, [], w)
     | Inr leafDER \<Rightarrow> (case ReadFile (opt_value ps ''--key'' []) w of Inl _ \<Rightarrow> (Panics, [], w)
     | Inr raw \<Rightarrow> (case hex_decode (bytes_str raw) of None \<Rightarrow> (Fails BadHex, [], w)
     | Some seed \<Rightarrow> (case MutualTLSConfig X caDER leafDER seed of Inl e \<Rightarrow> (Fails (lib_err e), [], w)
     | Inr cfg \<Rightarrow> (Done, scores, w))))))"

definition run_options :: "string list" where
  "run_options = [''--events'', ''--params'', ''--kind'', ''--tail'', ''--live'', ''--node-id'', ''--node-id-file'', ''--ca'', ''--cert'',
     ''--key'', ''--server-name'', ''--probe-cmd'']"

definition run_node_id :: "(string \<times> string) list \<Rightarrow> world \<Rightarrow> cli_error + string" where
  "run_node_id ps w = (let i = opt_value ps ''--node-id'' []; f = opt_value ps ''--node-id-file'' [] in
     if i = [] \<and> f \<noteq> [] then (case ReadFile f w of Inl e \<Rightarrow> Inl e | Inr b \<Rightarrow> Inr (TrimSpace (bytes_str b))) else Inr i)"

definition run_point :: "prims \<Rightarrow> tool_env \<Rightarrow> (string \<times> string) list \<Rightarrow> string \<Rightarrow> world \<Rightarrow> cli_error + operating_point" where
  "run_point P E ps kind w = (if opt_value ps ''--params'' [] = [] then Inr (default_point kind)
     else (case ReadFile (opt_value ps ''--params'' []) w of Inl e \<Rightarrow> Inl e | Inr raw \<Rightarrow> Inr (file_point P E kind raw)))"

definition watchdogRun :: "prims \<Rightarrow> x509 \<Rightarrow> tool_env \<Rightarrow> string list \<Rightarrow> sending" where
  "watchdogRun P X E args w =
     (let ps = opt_pairs run_options args; kind = opt_value ps ''--kind'' ''rate_cusum''; n = opt_int ps ''--tail'' (- 1);
          probeCmd = opt_value ps ''--probe-cmd'' [] in
      if opt_value ps ''--events'' [] = [] then (Fails (Msg (''usage: run --events <file> [--kind <detector>] [--params <params.json>] [--node-id <id>|--node-id-file <file>] '' @
         ''[--live <orch-addr> --ca <ca.der> --cert <leaf.der> --key <key.hex>] [--probe-cmd <shell-cmd>]'')), [], w)
      else (case run_node_id ps w of Inl e \<Rightarrow> (Fails e, [], w)
        | Inr nodeID \<Rightarrow> (case loadTimelineOrEvidence P (opt_value ps ''--events'' []) w of Inl e \<Rightarrow> (Fails e, [], w)
        | Inr t \<Rightarrow>
           let es = tl_events t; evs = (if 0 < n \<and> n < int (length es) then drop (length es - nat n) es else es) in
           if evs = [] then (Fails (Msg ''run: no events in timeline''), [], w)
           else (case run_point P E ps kind w of Inl e \<Rightarrow> (Fails e, [], w)
             | Inr (mu0, delta, h) \<Rightarrow>
                let a = mirror_all P evs; wd = NewWatchdog ''W1'' kind mu0 delta h;
                    scores = cycle_scores P E t a probeCmd 0 evs (if nodeID = [] then wd else wd\<lparr>wd_ID := nodeID\<rparr>) in
                if opt_value ps ''--live'' [] \<noteq> [] then streamLive X ps scores w
                else (Done, [], print_all (map (\<lambda>(i, s). cycle_line E i s) (enumerate 0 scores)) w)))))"

section \<open>The benchmark's commands\<close>

definition nl :: string where
  "nl = [char_of (10 :: nat)]"

definition metrics_json :: "tool_env \<Rightarrow> Metrics \<Rightarrow> json" where
  "metrics_json E m = JObj
     [(''scenario'', JStr (mt_Scenario m)), (''detected'', JBool (mt_Detected m)), (''detection_latency'', JInt (mt_DetectionLatency m)),
      (''false_positive'', JBool (mt_FalsePositive m)), (''recovery_time'', JInt (mt_RecoveryTime m)),
      (''rollback_correct'', JBool (mt_RollbackCorrect m)), (''canonical_highest'', JBool (mt_CanonicalHighest m)),
      (''detection_gap'', JInt (mt_DetectionGap m)), (''workload_reissued'', JInt (mt_WorkloadReissued m)),
      (''workload_time'', JInt (mt_WorkloadTime m)), (''verify_events'', JInt (mt_VerifyEvents m)), (''verify_time'', JInt (mt_VerifyTime m)),
      (''verify_per_event'', JInt (mt_VerifyPerEvent m)), (''scaling_ratio'', JNum (te_num E (mt_ScalingRatio m)))]"

definition fmt_bool :: "bool \<Rightarrow> string" where
  "fmt_bool b = (if b then ''true'' else ''false'')"

definition action_line :: "tool_env \<Rightarrow> Metrics \<Rightarrow> string" where
  "action_line E m =
     (let l0 = te_round E (mt_DetectionLatency m); lat = (if l0 \<le> 0 then te_round E (mt_DetectionGap m) else l0);
          status = (if mt_FalsePositive m then ''FAIL (false positive)''
            else if mt_Detected m \<and> 0 < lat \<and> \<not> mt_RollbackCorrect m then ''FAIL (outside latency bound)'' else ''PASS'') in
      mt_Scenario m @ '': detected='' @ fmt_bool (mt_Detected m) @ '' latency='' @ te_dur E lat @ '' rollback_ok='' @
      (if mt_Detected m then fmt_bool (mt_RollbackCorrect m) else ''n/a'') @ '' reissued='' @ fmt_int (mt_WorkloadReissued m) @
      '' events='' @ fmt_int (mt_VerifyEvents m) @ '' -> '' @ status @ nl)"

definition actionLog :: "tool_env \<Rightarrow> Metrics list \<Rightarrow> string" where
  "actionLog E results = ''Trust Orchestrator '' @ mdash @ '' benchmark action log'' @ nl @ concat (map (action_line E) results)"

fun bench_args :: "string list \<Rightarrow> string \<times> string \<Rightarrow> cli_error + string \<times> string" where
  "bench_args (a # b # rest) (out, lf) =
     (if a = ''--out'' then bench_args rest (b, lf) else if a = ''--log'' then bench_args rest (out, b)
      else if a = ''--scenario'' then (if b \<noteq> ''all'' then Inl (Msg ''only --scenario all is supported'') else bench_args rest (out, lf))
      else bench_args (b # rest) (out, lf))"
| "bench_args _ r = Inr r"

text \<open>The runs of one invocation: the scenarios, the evidence run, and the two of the calibration.\<close>

record bench_runs =
  br_all :: "nat \<Rightarrow> bench_rand"
  br_evidence :: bench_rand
  br_baseline :: bench_rand
  br_sweep :: bench_rand

definition tool_bench :: Bench where
  "tool_bench = NewBench 30000000000"

definition calibrated :: "prims \<Rightarrow> tool_env \<Rightarrow> bench_runs \<Rightarrow> (cal_error + f64 \<times> f64 \<times> json) option" where
  "calibrated P E B = Calibrate P (te_num E) (te_dur E) (br_baseline B) (br_sweep B) tool_bench (te_round_f E (1 / 20)) 300000000000"

text \<open>The timeline in the evidence file carries its signing key.\<close>

definition evidence_json :: "prims \<Rightarrow> int \<Rightarrow> Timeline \<Rightarrow> json" where
  "evidence_json P bad t = JObj [(''bad_index'', JInt bad), (''timeline'', tf_json P
     \<lparr>tf_Events = tl_events t, tf_Pub = Some (tl_pub t), tf_StartPub = tl_start t, tf_CouncilPub = tl_council t, tf_Key = tl_key t,
      tf_HashAlgo = algoNames (tl_algo t)\<rparr>)]"

definition write_results :: "prims \<Rightarrow> 'g curve \<Rightarrow> tool_env \<Rightarrow> bench_runs \<Rightarrow> string \<Rightarrow> bytes \<Rightarrow> world \<Rightarrow> (cli_error option \<times> world) option" where
  "write_results P C E B out text w =
     (if out = [] then Some (None, w)
      else if \<not> te_mkdir E out then Some (Some (WriteFails out), w)
      else (case WriteFile (te_can_write E) (out @ ''/benchmark.json'') text w of
          (Some e, w') \<Rightarrow> Some (Some e, w')
        | (None, w1) \<Rightarrow> (case S1Evidence P C (br_evidence B) tool_bench of None \<Rightarrow> None
          | Some (bad, t) \<Rightarrow> (case WriteFile (te_can_write E) (out @ ''/evidence.json'') (te_indent E (evidence_json P bad t)) w1 of
              (Some e, w2) \<Rightarrow> Some (Some e, w2)
            | (None, w2) \<Rightarrow> Some (None, println (''results written to '' @ out @ ''/benchmark.json, '' @ out @ ''/evidence.json'') w2)))))"

definition write_log :: "tool_env \<Rightarrow> string \<Rightarrow> Metrics list \<Rightarrow> world \<Rightarrow> cli_error option \<times> world" where
  "write_log E f results w = (if f = [] then (None, w)
     else (case WriteFile (te_can_write E) f (str_bytes (actionLog E results)) w of
         (Some e, w') \<Rightarrow> (Some e, w') | (None, w') \<Rightarrow> (None, println (''action log written to '' @ f) w')))"

definition fmt_v :: "tool_env \<Rightarrow> f64 \<Rightarrow> string" where
  "fmt_v E x = te_num E x"

definition bench :: "prims \<Rightarrow> 'g curve \<Rightarrow> tool_env \<Rightarrow> bench_runs \<Rightarrow> string list \<Rightarrow> command" where
  "bench P C E B args w = (case bench_args args ([], []) of Inl e \<Rightarrow> (Fails e, w)
     | Inr (out, lf) \<Rightarrow> (case RunAll P C (br_all B) tool_bench of None \<Rightarrow> (Panics, w)
     | Some results \<Rightarrow>
        let text = te_indent E (JArr (map (metrics_json E) results)) in
        (case write_results P C E B out text (println (bytes_str text) w) of None \<Rightarrow> (Panics, w)
         | Some (Some e, w') \<Rightarrow> (Fails e, w')
         | Some (None, w1) \<Rightarrow> (case write_log E lf results w1 of (Some e, w') \<Rightarrow> (Fails e, w')
         | (None, w2) \<Rightarrow> (case calibrated P E B of None \<Rightarrow> (Panics, w2)
         | Some (Inl _) \<Rightarrow> (Fails (Library ''calibrate''), w2)
         | Some (Inr (_, h, cal)) \<Rightarrow>
            let w3 = (if h \<noteq> bn_h1 tool_bench
                  then println (nl @ ''WARNING: scenario evidence ran at W1 h='' @ fmt_v E (bn_h1 tool_bench) @ '' but calibration selects h='' @
                    fmt_v E h @ '' '' @ mdash @ '' re-run `bench` so the S-matrix uses the operating point.'') w2 else w2);
                w4 = println (nl @ ''operating point: h='' @ fmt_v E h @ nl @ bytes_str (te_indent E cal)) w3 in
            if out = [] then (Done, w4)
            else (Done, println (''calibration written to '' @ out @ ''/calibration.json'')
              (snd (WriteFile (te_can_write E) (out @ ''/calibration.json'') (te_indent E cal) w4))))))))"

fun cal_args :: "string list \<Rightarrow> string \<Rightarrow> string" where
  "cal_args (a # b # rest) out =
     (if a = ''--baseline-traffic'' then cal_args rest out else if a = ''--out'' then cal_args rest b else cal_args (b # rest) out)"
| "cal_args _ out = out"

definition params_json :: json where
  "params_json =
     (let point = (\<lambda>kind mu0 delta h. JObj [(''delta'', delta), (''h'', h), (''kind'', JStr kind), (''mu0'', mu0)]); half = JNum ''0.5'' in
      JObj [(''w1'', point WDIssuanceRate (JInt 1) (JInt 1) (JInt 8)), (''w2'', JObj [(''kind'', JStr WDLogIntegrity)]),
        (''w3'', point WDGraphAnomaly half half (JInt 3)), (''w4'', JObj [(''kind'', JStr WDExternalProbe)]),
        (''w5'', point WDBehaviorBaseline (JInt 1) half (JInt 2))])"

definition calibrate :: "prims \<Rightarrow> tool_env \<Rightarrow> bench_runs \<Rightarrow> string list \<Rightarrow> command" where
  "calibrate P E B args w =
     (let out = cal_args args [] in
      (case calibrated P E B of None \<Rightarrow> (Panics, w)
       | Some (Inl _) \<Rightarrow> (Fails (Library ''calibrate''), w)
       | Some (Inr (_, h, cal)) \<Rightarrow>
          let w1 = println (''operating point: h='' @ fmt_v E h @ nl @ bytes_str (te_indent E cal)) w in
          if out = [] then (Done, w1)
          else if \<not> te_mkdir E out then (Fails (WriteFails out), w1)
          else (case write_all (te_can_write E) [(out @ ''/params.json'', te_indent E params_json), (out @ ''/calibration.json'', te_indent E cal)] w1 of
              (Some e, w2) \<Rightarrow> (Fails e, w2)
            | (None, w2) \<Rightarrow> (Done, println (''params.json + calibration.json written to '' @ out) w2))))"

section \<open>Main\<close>

text \<open>The program is also installed as \<open>to-bench\<close> and \<open>to-watchdog\<close>.\<close>

definition base_name :: "string \<Rightarrow> string" where
  "base_name p = (if p = [] then ''.'' else (let parts = filter (\<lambda>s. s \<noteq> []) (split_on CHR ''/'' p) in if parts = [] then ''/'' else last parts))"

definition tool_args :: "string list \<Rightarrow> string list" where
  "tool_args os_args = (let base = base_name (hd os_args) in
     if base = ''to-bench'' then ''bench'' # tl os_args else if base = ''to-watchdog'' then ''watchdog'' # tl os_args else tl os_args)"

definition tool_main :: "prims \<Rightarrow> 'g curve \<Rightarrow> x509 \<Rightarrow> tool_env \<Rightarrow> bench_runs \<Rightarrow> string list \<Rightarrow> sending" where
  "tool_main P C X E B os_args w = (case tool_args os_args of
     [] \<Rightarrow> (Fails (Msg ''usage''), [], w)
   | cmd # sub \<Rightarrow>
      if cmd = ''genkey'' then silent (genkey_cmd E os_args) w
      else if cmd = ''shard'' then silent (shard P C E sub) w
      else if cmd = ''vaultkek'' then silent (vaultkek P E sub) w
      else if cmd = ''enroll'' then silent (enroll P E sub) w
      else if cmd = ''revoke'' then silent (revoke_key E sub) w
      else if cmd = ''watchdog'' then
        (case sub of s # rest \<Rightarrow> if s = ''enroll'' then silent (enroll P E rest) w else if s = ''run'' then watchdogRun P X E rest w
             else (Fails (Msg ''usage: to-watchdog enroll|run ...''), [], w)
         | [] \<Rightarrow> (Fails (Msg ''usage: to-watchdog enroll|run ...''), [], w))
      else if cmd = ''bench'' then
        (case sub of s # rest \<Rightarrow> if s = ''calibrate'' then silent (calibrate P E B rest) w else if s = ''run'' then silent (bench P C E B rest) w
             else silent (bench P C E B sub) w
         | [] \<Rightarrow> silent (bench P C E B sub) w)
      else (Fails (Msg ''usage''), [], w))"

end
