(* ===== verification/KekBoot.thy ===== *)
theory KekBoot
  imports GatewayCli ToolCli VaultProps
begin

text \<open>
  The shares of the vault key from \<open>cmd/to\<close> to \<open>cmd/gateway\<close>: what \<open>vaultkek\<close> writes, what the gateway's first boot makes of some
  of those files, and the leader lock.
\<close>

declare digits.simps [simp del]

section \<open>Paths of files in a directory\<close>

definition file_name :: "string \<Rightarrow> bool" where
  "file_name s \<longleftrightarrow> s \<noteq> [] \<and> s \<noteq> ''.'' \<and> s \<noteq> ''..'' \<and> CHR ''/'' \<notin> set s"

lemma clean_segments_append: "clean_segments r (xs @ ys) out = clean_segments r ys (clean_segments r xs out)"
  by (induction r xs out rule: clean_segments.induct) auto

lemma join_segments_snoc: "join_segments (xs @ [s]) = (if xs = [] then s else join_segments xs @ ''/'' @ s)"
proof (induction xs rule: join_segments.induct)
  case (3 a b xs)
  then show ?case by (cases xs) auto
qed auto

definition dir_prefix :: "string \<Rightarrow> string" where
  "dir_prefix a = (if a = [] then [] else let rooted = (take 1 a = ''/''); xs = clean_segments rooted (split_on CHR ''/'' a) [] in
     (if rooted then ''/'' else []) @ (if xs = [] then [] else join_segments xs @ ''/''))"

lemma filepath_join_file:
  assumes "file_name s"
  shows "filepath_join a s = dir_prefix a @ s"
proof -
  have n: "s \<noteq> []" "s \<noteq> ''.''" "s \<noteq> ''..''" "CHR ''/'' \<notin> set s" using assms by (auto simp: file_name_def)
  have t: "take 1 s \<noteq> ''/''" using n(4) by (cases s) auto
  show ?thesis
  proof (cases "a = []")
    case True
    then show ?thesis using n t by (simp add: filepath_join_def filepath_clean_def Let_def dir_prefix_def)
  next
    case False
    have ta: "take 1 (a @ CHR ''/'' # s) = take 1 a" using False by (cases a) auto
    have c: "clean_segments r (split_on CHR ''/'' (a @ CHR ''/'' # s)) [] = clean_segments r (split_on CHR ''/'' a) [] @ [s]" for r
      using n by (simp add: split_on_append clean_segments_append)
    show ?thesis using False n(1) ta c
      by (simp add: filepath_join_def filepath_clean_def Let_def dir_prefix_def join_segments_snoc)
  qed
qed

lemma slash_digit: "m < 10 \<Longrightarrow> CHR ''/'' \<noteq> char_of (48 + m :: nat)"
proof
  assume "m < 10" "CHR ''/'' = char_of (48 + m)"
  then have "of_char (CHR ''/'') = (48 + m :: nat)" by simp
  then show False by simp
qed

lemma slash_digits: "CHR ''/'' \<notin> set (digits i)"
proof (induction i rule: digits.induct)
  case (1 n)
  then show ?case using slash_digit [of n] slash_digit [of "n mod 10"] by (subst digits.simps) auto
qed

lemma kek_name: "file_name (''kek-'' @ digits i @ ''.json'')"
  using slash_digits [of i] by (auto simp: file_name_def)

lemma kek_path_eq: "kek_path out i = dir_prefix out @ ''kek-'' @ digits i @ ''.json''"
  unfolding kek_path_def by (rule filepath_join_file [OF kek_name])

lemma kek_path_inj: "i < 256 \<Longrightarrow> j < 256 \<Longrightarrow> kek_path out i = kek_path out j \<longleftrightarrow> i = j"
proof -
  have d: "parse_digits (digits k) 0 = Some (int k)" if "k < 256" for k
    by (rule parse_digits_digits, rule less_le_trans [OF that]) simp
  assume "i < 256" "j < 256"
  from d [OF this(1)] d [OF this(2)] have "digits i = digits j \<Longrightarrow> i = j" by (metis of_nat_eq_iff option.inject)
  then show ?thesis unfolding kek_path_eq append_same_eq same_append_eq by blast
qed

lemma kek_path_plain: "kek_path out i \<noteq> filepath_join out ''kek.json''"
proof
  assume "kek_path out i = filepath_join out ''kek.json''"
  then have "''kek-'' @ digits i @ ''.json'' = ''kek.json''"
    unfolding kek_path_eq by (subst (asm) filepath_join_file) (simp_all add: file_name_def)
  then show False by simp
qed

section \<open>The files of the command\<close>

lemma shard_loads:
  assumes "json_ok P" "int64 (sh_Len s)"
  shows "unmarshal P shard_fields shard_zero (sh_Marshal P s) = Some s"
proof -
  have p: "plain (shard_json s)"
    by (auto simp: shard_json_def big_json_def ascii_def split: option.splits)
  show ?thesis unfolding sh_Marshal_def unmarshal_text [OF assms(1) p]
    using assms(2) by (auto simp: shard_json_def big_json_def shard_fields_def big_field_def shard_zero_def decode_eval split: option.splits)
qed

lemma load_shards_files:
  assumes "json_ok P"
    and "list_all2 (\<lambda>f s. TrimSpace f \<noteq> [] \<and> ReadFile (TrimSpace f) w = Inr (sh_Marshal P s) \<and> int64 (sh_Len s)) fs ss"
  shows "load_shards P w fs = Inr ss"
  using assms(2) by (induction rule: list_all2_induct) (simp_all add: Let_def shard_loads [OF assms(1)])

lemma vaultkek_done:
  assumes "vaultkek P E args w = (Done, w')"
  defines "opt \<equiv> kek_args args \<lparr>ko_out = ''vault'', ko_n = 5, ko_k = 3, ko_keep = False\<rparr>"
  assumes "ko_n opt < 256"
  obtains kek shares where "te_kek E = Some kek" "ShareKEK (te_rnd E) kek (ko_n opt) (ko_k opt) = Inr shares"
    "length shares = nat (ko_n opt)"
    "\<forall>i < length shares. ReadFile (kek_path (ko_out opt) (i + 1)) w' = Inr (sh_Marshal P (shares ! i))"
proof -
  obtain kek shares where k: "te_kek E = Some kek" "ShareKEK (te_rnd E) kek (ko_n opt) (ko_k opt) = Inr shares"
    using assms(1) unfolding vaultkek_def Let_def opt_def by (auto split: option.splits sum.splits)
  let ?fs = "map (\<lambda>(i, s). (kek_path (ko_out opt) (i + 1), sh_Marshal P s)) (enumerate 0 shares)"
  have len: "length shares = nat (ko_n opt)"
    using k(2) by (auto simp: ShareKEK_def ShamirSplit_def Let_def split: if_splits option.splits)
  obtain w1 where w1: "write_all (te_can_write E) ?fs w = (None, w1)"
    and rest: "\<And>q. q \<noteq> filepath_join (ko_out opt) ''kek.json'' \<Longrightarrow> ReadFile q w' = ReadFile q w1"
  proof -
    obtain r w1 where r: "write_all (te_can_write E) ?fs w = (r, w1)" by force
    show thesis
    proof (cases r)
      case (Some e)
      then show ?thesis using assms(1) k r unfolding vaultkek_def Let_def opt_def by (auto split: if_splits)
    next
      case None
      have "ReadFile q w' = ReadFile q w1" if "q \<noteq> filepath_join (ko_out opt) ''kek.json''" for q
        using assms(1) k r None that unfolding vaultkek_def Let_def opt_def
        by (auto simp: WriteFile_def ReadFile_def update_conv' println_def split: if_splits)
      with that r None show ?thesis by blast
    qed
  qed
  have fst_fs: "map fst ?fs = map (\<lambda>i. kek_path (ko_out opt) (i + 1)) [0..<length shares]"
    by (rule nth_equalityI) (simp_all add: nth_enumerate_eq)
  have d: "distinct (map fst ?fs)"
    unfolding fst_fs using assms(3) len by (auto simp: distinct_map inj_on_def kek_path_inj)
  have "ReadFile (kek_path (ko_out opt) (i + 1)) w' = Inr (sh_Marshal P (shares ! i))" if i: "i < length shares" for i
  proof -
    have "(i, shares ! i) \<in> set (enumerate 0 shares)" using i by (simp add: in_set_enumerate_eq)
    then have "(kek_path (ko_out opt) (i + 1), sh_Marshal P (shares ! i)) \<in> set ?fs" by force
    from write_all_read [OF w1 d this] show ?thesis using rest [OF kek_path_plain] by simp
  qed
  with that [OF k len] show thesis by blast
qed

section \<open>The first boot\<close>

lemma path_join_file: "split_from [] n = [n] \<Longrightarrow> n \<noteq> [] \<Longrightarrow> n \<noteq> ''.'' \<Longrightarrow> n \<noteq> ''..'' \<Longrightarrow> path_join dir [n] = clean dir @ [n]"
  by (simp add: path_join_def clean_def)

lemma gateway_files:
  "gatewayJson s = clean (st_dir s) @ [''gateway.json'']" "gatewayKey dir = clean dir @ [''gateway.key'']"
  "gatewayKeys s = clean (st_dir s) @ [''gateway.keys'']" "path_join dir [''outbox.json''] = clean dir @ [''outbox.json'']"
  unfolding gatewayJson_def gatewayKey_def gatewayKeys_def by (simp_all add: path_join_file)

lemma fresh_gateway:
  assumes "\<forall>p. en_io E p" "en_token E = Some b"
  shows "\<exists>s tok. NewGateway P A E sk lk dir [] boot = Inr (s, tok) \<and> st_Tenants s = [] \<and> st_dir s = dir
    \<and> map_of (st_disk s) (gatewayKeys s) = None"
proof -
  obtain s0 where s0: "NewStore P A E sk lk dir [] = Inr s0" "st_Tenants s0 = []" "st_Users s0 = []" "st_dir s0 = dir"
    "map_of (st_disk s0) (gatewayKeys s0) = None"
    using assms(1) by (auto simp: NewStore_def st_zero_def writeFileAtomic_def saveMeta_def gateway_files update_conv' Let_def)
  have "\<exists>x. NewUser P b ''admin'' RoleAdmin [] = Some x"
    by (simp add: NewUser_def validRoles_def case_prod_unfold)
  then obtain u raw where u: "NewUser P b ''admin'' RoleAdmin [] = Some (u, raw)" by force
  show ?thesis
    using s0 u assms by (auto simp: NewGateway_def seed_admin_def saveMeta_def writeFileAtomic_def gateway_files update_conv' watch_all_def Let_def)
qed

lemma first_unlock:
  assumes "aead_ok A" "JoinKEK shares = Inr kek" "length kek = 32" "en_dek E = Some dek" "length dek = 32"
    and "good_rand (en_seal E (gatewayKeys s))" "\<forall>p. en_io E p" "st_Tenants s = []" "map_of (st_disk s) (gatewayKeys s) = None"
  shows "\<exists>s' f. UnlockVault P A E shares s = Some (None, s') \<and> st_vault s' = Some (NewVault dek) \<and> gatewayKeys s' = gatewayKeys s
    \<and> map_of (st_disk s') (gatewayKeys s') = Some f \<and> read_key_file A kek f = Inr (NewVault dek)"
proof -
  have n: "length (sr_n1 (en_seal E (gatewayKeys s))) = 12" using assms(6) by (simp add: good_rand_def)
  obtain f where f: "vault_key_file A (sr_n1 (en_seal E (gatewayKeys s))) kek (NewVault dek) = Inr f" "read_key_file A kek f = Inr (NewVault dek)"
    using box_roundtrip [OF assms(1,3) n, of "dek @ put64 1"] assms(5) assms(1) n
    by (simp add: vault_key_file_def read_key_file_def NewVault_def)
  show ?thesis
    using assms f by (simp add: UnlockVault_def write_keys_def writeFileAtomic_def reseal_under_def loadVaultedTenants_def
      reSealAllTenants_def gatewayKeys_def)
qed

lemma kek_files_load:
  assumes "json_ok P" "ShamirSplit r kek n k = Inr shares" "length kek = 32" "is \<noteq> []" "distinct is" "set is \<subseteq> {1..length shares}"
    and "\<forall>i < length shares. ReadFile (kek_path dir (i + 1)) w = Inr (sh_Marshal P (shares ! i))"
    and "map TrimSpace (split_on CHR '','' l) = map (kek_path dir) is"
  defines "ss \<equiv> map (\<lambda>i. shares ! (i - 1)) is"
  shows "loadShares P l w = Inr ss" "distinct ss" "set ss \<subseteq> set shares"
proof -
  have idx: "1 \<le> i \<and> i - 1 < length shares" if "i \<in> set is" for i
  proof -
    have "i \<in> {1..length shares}" using that assms(6) by blast
    then show ?thesis by auto
  qed
  then show "set ss \<subseteq> set shares" by (auto simp: ss_def)
  have dist: "distinct shares"
    using assms(2) by (auto simp: ShamirSplit_def Let_def distinct_map inj_on_def split: if_splits option.splits)
  have "inj_on (\<lambda>i. shares ! (i - 1)) (set is)"
    using idx nth_eq_iff_index_eq [OF dist] by (auto simp: inj_on_def) (metis One_nat_def Suc_pred less_le_trans zero_less_one)
  then show "distinct ss" using assms(5) by (simp add: ss_def distinct_map)
  have len32: "sh_Len s = 32" if "s \<in> set shares" for s
    using assms(2) that assms(3) by (auto simp: ShamirSplit_def Let_def split: if_splits option.splits)
  have "load_shards P w (split_on CHR '','' l) = Inr ss"
  proof (rule load_shards_files [OF assms(1)], rule list_all2_all_nthI)
    show l: "length (split_on CHR '','' l) = length ss" using assms(8) by (metis length_map ss_def)
    fix m assume "m < length (split_on CHR '','' l)"
    then have m: "m < length is" using l by (simp add: ss_def)
    then have t: "TrimSpace (split_on CHR '','' l ! m) = kek_path dir (is ! m - 1 + 1)"
      using assms(8) idx [of "is ! m"] l by (metis le_add_diff_inverse2 length_map nth_map nth_mem ss_def)
    have i: "is ! m - 1 < length shares" using idx [of "is ! m"] m by simp
    show "TrimSpace (split_on CHR '','' l ! m) \<noteq> [] \<and> ReadFile (TrimSpace (split_on CHR '','' l ! m)) w = Inr (sh_Marshal P (ss ! m)) \<and> int64 (sh_Len (ss ! m))"
      unfolding t using assms(7) i m len32 [of "shares ! (is ! m - 1)"] by (simp add: ss_def kek_path_eq int64_def)
  qed
  then show "loadShares P l w = Inr ss" using assms(4) by (simp add: loadShares_def ss_def)
qed

lemma first_boot:
  assumes "aead_ok A" "loadShares P l w = Inr ss" "l \<noteq> []" "JoinKEK (map Some ss) = Inr kek" "length kek = 32"
    and "\<forall>j p. en_io (ge_env G j) p" "en_token (ge_env G 0) = Some b" "en_dek (ge_env G 1) = Some dek" "length dek = 32"
    and "\<forall>p. good_rand (en_seal (ge_env G 1) p)" "ge_council G = []"
  shows "\<exists>s w' f. gateway_main P A G [] [''-kek-shares'', l] w = (Serving s False, w') \<and> st_vault s = Some (NewVault dek)
    \<and> map_of (st_disk s) (gatewayKeys s) = Some f \<and> read_key_file A kek f = Inr (NewVault dek)"
proof -
  obtain s tok where s: "NewGateway P A (ge_env G 0) (ge_seal G) (ge_log G) (clean (split_from [] ''./data'')) [] (ge_token G) = Inr (s, tok)"
    "st_Tenants s = []" "map_of (st_disk s) (gatewayKeys s) = None"
    using fresh_gateway assms(6,7) by metis
  obtain s' f where u: "UnlockVault P A (ge_env G 1) (map Some ss) s = Some (None, s')" "st_vault s' = Some (NewVault dek)"
    "map_of (st_disk s') (gatewayKeys s') = Some f" "read_key_file A kek f = Inr (NewVault dek)"
  proof -
    have "good_rand (en_seal (ge_env G 1) (gatewayKeys s))" "\<forall>p. en_io (ge_env G 1) p" using assms(6,10) by blast+
    from first_unlock [OF assms(1,4,5,8,9) this s(2,3), of P] that show thesis by blast
  qed
  have "fst (gateway_main P A G [] [''-kek-shares'', l] w) = Serving s' False"
    using s u assms(2,3,11)
    by (simp add: gateway_main_def gw_flags_def flag_or_def acquireLeaderLock_def start_gateway_def open_vault_def set_anchor_def)
  then have "gateway_main P A G [] [''-kek-shares'', l] w = (Serving s' False, snd (gateway_main P A G [] [''-kek-shares'', l] w))"
    by (metis prod.collapse)
  with u show ?thesis by blast
qed

text \<open>
  C34: of the files \<open>vaultkek\<close> wrote, any one or more make the gateway's first boot come up with a vault, whose key file
  opens with the key they join to.  With the threshold or more that key is the one that was shared; with fewer nothing is
  refused, and the vault is left under another key.
\<close>

theorem kek_boot:
  assumes "json_ok P" "aead_ok A"
    and "vaultkek P E args w = (Done, w')" "te_kek E = Some kek" "length kek = 32"
    and "kek_args args \<lparr>ko_out = ''vault'', ko_n = 5, ko_k = 3, ko_keep = False\<rparr> = opt" "ko_n opt < 256"
    and "is \<noteq> []" "distinct is" "set is \<subseteq> {1..nat (ko_n opt)}" "map TrimSpace (split_on CHR '','' l) = map (kek_path (ko_out opt)) is"
    and "\<forall>j p. en_io (ge_env G j) p" "en_token (ge_env G 0) = Some b" "en_dek (ge_env G 1) = Some dek" "length dek = 32"
    and "\<forall>p. good_rand (en_seal (ge_env G 1) p)" "ge_council G = []"
  shows "\<exists>s w'' ss kek' f. gateway_main P A G [] [''-kek-shares'', l] w' = (Serving s False, w'') \<and> st_vault s = Some (NewVault dek)
    \<and> loadShares P l w' = Inr ss \<and> JoinKEK (map Some ss) = Inr kek' \<and> (ko_k opt \<le> int (length is) \<longrightarrow> kek' = kek)
    \<and> map_of (st_disk s) (gatewayKeys s) = Some f \<and> read_key_file A kek' f = Inr (NewVault dek)"
proof -
  obtain shares where sh: "ShamirSplit (te_rnd E) kek (ko_n opt) (ko_k opt) = Inr shares" "length shares = nat (ko_n opt)"
    and files: "\<forall>i < length shares. ReadFile (kek_path (ko_out opt) (i + 1)) w' = Inr (sh_Marshal P (shares ! i))"
    using vaultkek_done [OF assms(3), unfolded assms(6), OF assms(7)] assms(4) by (metis ShareKEK_def option.inject)
  let ?ss = "map (\<lambda>i. shares ! (i - 1)) is"
  have "set is \<subseteq> {1..length shares}" using assms(10) sh(2) by simp
  note ss = kek_files_load [OF assms(1) sh(1) assms(5,8,9) this files assms(11)]
  have "?ss \<noteq> []" using assms(8) by simp
  from shamir_join_any [OF sh(1) assms(7) ss(3,2) this assms(5)]
  obtain kek' where k: "ShamirJoin (map Some ?ss) = Inr kek'" "length kek' = 32" by blast
  have kk: "kek' = kek" if "ko_k opt \<le> int (length is)"
    using shamir_join [OF sh(1) assms(7) ss(3,2)] that k(1) by simp
  have j: "JoinKEK (map Some ?ss) = Inr kek'" using k by (simp add: JoinKEK_def)
  have "l \<noteq> []" using assms(8,11) by (auto simp: TrimSpace_def kek_path_eq)
  from first_boot [OF assms(2) ss(1) this j k(2) assms(12-17)] ss(1) j kk show ?thesis by blast
qed

lemma vaultkek_runs:
  assumes "te_kek E = Some kek" "ShareKEK (te_rnd E) kek 5 3 = Inr shares" "\<forall>p. te_can_write E p" "\<forall>p. te_mkdir E p"
  shows "\<exists>w'. vaultkek P E [] w = (Done, w')"
  using assms write_all_total [of "map (\<lambda>(i, s). (kek_path ''vault'' (i + 1), sh_Marshal P s)) (enumerate 0 shares)" "te_can_write E" w]
  by (auto simp: vaultkek_def Let_def)

definition demo_tool :: tool_env where
  "demo_tool = \<lparr>te_fresh = Some (replicate 64 3), te_rs = replicate 9 (Some (replicate 32 4)), te_kek = Some (replicate 32 9),
     te_rnd = (\<lambda>i. Some (int i + 7)), te_mkdir = (\<lambda>p. True), te_can_write = (\<lambda>p. True), te_indent = json_text toy,
     te_round_f = Fin, te_parse = (\<lambda>s. None), te_fmt0 = (\<lambda>x. []), te_fmt2 = (\<lambda>x. []), te_num = (\<lambda>x. []), te_quote = (\<lambda>s. s),
     te_probe = (\<lambda>i s. None), te_dur = (\<lambda>d. []), te_round = (\<lambda>d. d)\<rparr>"

definition demo_gateway :: gateway_env where
  "demo_gateway = \<lparr>ge_env = (\<lambda>k. \<lparr>en_now = 100, en_nano = 100, en_token = Some (replicate 32 1), en_seed = Some (replicate 32 2),
       en_dek = Some (replicate 32 5), en_seal = (\<lambda>p. demo_rand), en_io = (\<lambda>p. True), en_url = (\<lambda>u. None), en_num = (\<lambda>s. None), en_fnum = (\<lambda>x. [])\<rparr>),
     ge_token = [], ge_council = [], ge_seal = replicate 32 6, ge_log = replicate 32 8, ge_can_lock = (\<lambda>p. True), ge_pid = 41\<rparr>"

definition empty_world :: world where
  "empty_world = \<lparr>w_files = [], w_out = []\<rparr>"

text \<open>One of the five files of a key shared three of five.\<close>

theorem kek_boot_witness:
  "\<exists>w' s w'' ss kek' f. vaultkek toy demo_tool [] empty_world = (Done, w')
    \<and> gateway_main toy toy_aead demo_gateway [] [''-kek-shares'', ''vault/kek-2.json''] w' = (Serving s False, w'')
    \<and> loadShares toy ''vault/kek-2.json'' w' = Inr ss \<and> length ss = 1 \<and> JoinKEK (map Some ss) = Inr kek'
    \<and> map_of (st_disk s) (gatewayKeys s) = Some f \<and> read_key_file toy_aead kek' f = Inr (NewVault (replicate 32 5))"
proof -
  have "\<exists>shares. ShareKEK (te_rnd demo_tool) (replicate 32 9) 5 3 = Inr shares"
  proof -
    have "set_bytes (replicate 32 9) < shamir_p" by code_simp
    then show ?thesis by (simp add: ShareKEK_def ShamirSplit_def Let_def demo_tool_def upt_rec)
  qed
  then obtain shares where sh: "ShareKEK (te_rnd demo_tool) (replicate 32 9) 5 3 = Inr shares" by blast
  have k: "te_kek demo_tool = Some (replicate 32 9)" by (simp add: demo_tool_def)
  obtain w' where w: "vaultkek toy demo_tool [] empty_world = (Done, w')"
    using vaultkek_runs [OF k sh, of toy empty_world] by (auto simp: demo_tool_def)
  have l: "map TrimSpace (split_on CHR '','' ''vault/kek-2.json'') = map (kek_path ''vault'') [2]"
    by code_simp
  define opt where "opt = kek_args [] \<lparr>ko_out = ''vault'', ko_n = 5, ko_k = 3, ko_keep = False\<rparr>"
  have o: "ko_n opt = 5" "ko_out opt = ''vault''" by (simp_all add: opt_def)
  have G: "\<forall>j p. en_io (ge_env demo_gateway j) p" "en_token (ge_env demo_gateway 0) = Some (replicate 32 1)"
    "en_dek (ge_env demo_gateway 1) = Some (replicate 32 5)" "\<forall>p. good_rand (en_seal (ge_env demo_gateway 1) p)" "ge_council demo_gateway = []"
    using demo_rand_ok by (simp_all add: demo_gateway_def)
  from kek_boot [OF toy_ok(3) toy_aead_ok w k _ opt_def [symmetric] _ _ _ _ _ G(1-3) _ G(4,5), of "[2]" "''vault/kek-2.json''"] l o
  obtain s w'' ss kek' f where r: "gateway_main toy toy_aead demo_gateway [] [''-kek-shares'', ''vault/kek-2.json''] w' = (Serving s False, w'')"
    "loadShares toy ''vault/kek-2.json'' w' = Inr ss" "JoinKEK (map Some ss) = Inr kek'"
    "map_of (st_disk s) (gatewayKeys s) = Some f" "read_key_file toy_aead kek' f = Inr (NewVault (replicate 32 5))" by auto
  have "split_on CHR '','' ''vault/kek-2.json'' = [''vault/kek-2.json'']" by code_simp
  then have "length ss = 1" using r(2)
    by (auto simp: loadShares_def Let_def split: sum.splits if_splits option.splits)
  with r w show ?thesis by blast
qed

section \<open>The leader lock\<close>

text \<open>The arguments get past the flags and name the lock file.\<close>

definition wants_lock :: "string list \<Rightarrow> string \<Rightarrow> bool" where
  "wants_lock args l \<longleftrightarrow> l \<noteq> [] \<and> (case flag_parse gw_flags args [] of
     Parsed f \<Rightarrow> flag_or f ''leader-lock'' [] = l \<and> (flag_or f ''tls-cert'' [] = []) = (flag_or f ''tls-key'' [] = []) | _ \<Rightarrow> False)"

lemma start_gateway_files: "start_gateway P A G disk f w = (x, w') \<Longrightarrow> w_files w' = w_files w"
  by (auto simp: start_gateway_def println_def split: sum.splits prod.splits if_splits)

text \<open>
  Of the starts that name one lock file, at most the first gets as far as opening the store, and the lock is never
  given back: however that start ends, the file is there and every later start is refused, on any data directory.
\<close>

theorem leader_lock:
  assumes "wants_lock args l" "gateway_main P A G disk args w = (x, w')" "exists_file l w \<or> ge_can_lock G l"
  shows "exists_file l w' \<and> (exists_file l w \<longrightarrow> w' = w \<and> (\<exists>e. x = Fatal e))
    \<and> (\<forall>args' P' A' G' disk'. wants_lock args' l \<longrightarrow> (\<exists>e. gateway_main P' A' G' disk' args' w' = (Fatal e, w')))"
proof -
  have refused: "\<exists>e. gateway_main P A G disk args w = (Fatal e, w)" if "wants_lock args l" "exists_file l w" for P A G disk args w
    using that by (auto simp: wants_lock_def gateway_main_def acquireLeaderLock_def Let_def split: flag_result.splits)
  have "exists_file l w'"
  proof (cases "exists_file l w")
    case True
    then show ?thesis using refused [OF assms(1) True] assms(2) by (metis prod.inject)
  next
    case False
    let ?w = "w\<lparr>w_files := AList.update l (str_bytes (digits (ge_pid G) @ [char_of (10 :: nat)])) (w_files w)\<rparr>"
    obtain f where "start_gateway P A G disk f ?w = (x, w')"
      using assms False by (auto simp: wants_lock_def gateway_main_def acquireLeaderLock_def Let_def split: flag_result.splits)
    from start_gateway_files [OF this] show ?thesis by (simp add: exists_file_def update_conv')
  qed
  with refused assms(1,2) show ?thesis by (metis prod.inject)
qed

theorem leader_lock_witness:
  "\<exists>x w'. gateway_main toy toy_aead demo_gateway [] [''-leader-lock'', ''gw.lock''] empty_world = (x, w') \<and> exists_file ''gw.lock'' w'
     \<and> (\<exists>e. gateway_main toy toy_aead demo_gateway [] [''-leader-lock'', ''gw.lock''] w' = (Fatal e, w'))"
proof -
  have "wants_lock [''-leader-lock'', ''gw.lock''] ''gw.lock''" by code_simp
  moreover have "ge_can_lock demo_gateway ''gw.lock''" by (simp add: demo_gateway_def)
  ultimately show ?thesis
    using leader_lock [of "[''-leader-lock'', ''gw.lock'']" "''gw.lock''" toy toy_aead demo_gateway "[]" empty_world] by (metis surj_pair)
qed

end
