(* ===== verification/Client.thy ===== *)
theory Client
  imports Gateway
begin

text \<open>
  The REST client of \<open>client.go\<close>: the request of every method, the statuses it takes as errors and how it reads the
  answers.  The exchange with a server is a parameter that passes a state on.  Where a method returns a member of \<open>out\<close> beside
  the call that fills it, Go leaves the order of the two open; here it is read after the call, and what stands beside an error is
  not modelled.
\<close>

section \<open>Requests\<close>

record http_request =
  hq_method :: string
  hq_url :: string
  hq_auth :: string
  hq_type :: string
  hq_body :: bytes

type_synonym 's server = "http_request \<Rightarrow> 's \<Rightarrow> (int \<times> bytes) option \<times> 's"

text \<open>\<open>ht_url_ok\<close> says which addresses \<open>NewRequest\<close> takes, \<open>ht_num\<close> is the text of a float.\<close>

record 's http =
  ht_server :: "'s server"
  ht_url_ok :: "string \<Rightarrow> bool"
  ht_num :: "f64 \<Rightarrow> string"

datatype client_error = NotMarshalled | BadRequest | NoAnswer | APIError int bytes | BadAnswer

record Client =
  cl_base :: string
  cl_token :: string

definition NewClient :: "string \<Rightarrow> string \<Rightarrow> Client" where
  "NewClient base token = \<lparr>cl_base = base, cl_token = token\<rparr>"

definition exchange :: "'s http \<Rightarrow> Client \<Rightarrow> string \<Rightarrow> string \<Rightarrow> bytes option \<Rightarrow> 's \<Rightarrow> (client_error + bytes) \<times> 's" where
  "exchange H c method url body s =
     (if \<not> ht_url_ok H (cl_base c @ url) then (Inl BadRequest, s)
      else (case ht_server H \<lparr>hq_method = method, hq_url = cl_base c @ url, hq_auth = ''Bearer '' @ cl_token c,
                hq_type = (if body = None then [] else ''application/json''), hq_body = slice_bytes body\<rparr> s of
          (None, s') \<Rightarrow> (Inl NoAnswer, s')
        | (Some (code, b), s') \<Rightarrow>
            if 400 \<le> code then (Inl (APIError code (take maxBody b)), s') else (Inr (take maxBody b), s')))"

definition do_call :: "prims \<Rightarrow> 's http \<Rightarrow> Client \<Rightarrow> string \<Rightarrow> string \<Rightarrow> json option \<Rightarrow> 's \<Rightarrow> (client_error + bytes) \<times> 's" where
  "do_call P H c method url body s = exchange H c method url (map_option (json_text P) body) s"

definition call_json ::
  "prims \<Rightarrow> 's http \<Rightarrow> Client \<Rightarrow> string \<Rightarrow> string \<Rightarrow> json option \<Rightarrow> 'r field list \<Rightarrow> 'r \<Rightarrow> 's \<Rightarrow> (client_error + 'r) \<times> 's" where
  "call_json P H c method url body fs zero s = (case do_call P H c method url body s of
     (Inl e, s') \<Rightarrow> (Inl e, s')
   | (Inr b, s') \<Rightarrow> (case unmarshal P fs zero b of None \<Rightarrow> (Inl BadAnswer, s') | Some r \<Rightarrow> (Inr r, s')))"

definition call_unit :: "prims \<Rightarrow> 's http \<Rightarrow> Client \<Rightarrow> string \<Rightarrow> string \<Rightarrow> json option \<Rightarrow> 's \<Rightarrow> (client_error + unit) \<times> 's" where
  "call_unit P H c method url body s = apfst (map_sum id (\<lambda>_. ())) (do_call P H c method url body s)"

definition org_path :: "string \<Rightarrow> string \<Rightarrow> string" where
  "org_path org rest = ''/v1/orgs/'' @ org @ rest"

definition strs :: "(string \<times> string) list \<Rightarrow> json" where
  "strs kvs = json_map (map (\<lambda>(k, v). (k, JStr v)) kvs)"

section \<open>Organisations and trust\<close>

record OrgInfo =
  oi_ID :: string
  oi_Name :: string
  oi_Created :: int
  oi_Events :: int
  oi_Detected :: bool

definition oi_zero :: OrgInfo where
  "oi_zero = \<lparr>oi_ID = [], oi_Name = [], oi_Created = 0, oi_Events = 0, oi_Detected = False\<rparr>"

definition oi_fields :: "OrgInfo field list" where
  "oi_fields = [string_field ''id'' (\<lambda>x r. r\<lparr>oi_ID := x\<rparr>), string_field ''name'' (\<lambda>x r. r\<lparr>oi_Name := x\<rparr>),
     int_field ''created'' (\<lambda>x r. r\<lparr>oi_Created := x\<rparr>), int_field ''events'' (\<lambda>x r. r\<lparr>oi_Events := x\<rparr>),
     bool_field ''detected'' (\<lambda>x r. r\<lparr>oi_Detected := x\<rparr>)]"

definition cl_Orgs :: "prims \<Rightarrow> 's http \<Rightarrow> Client \<Rightarrow> 's \<Rightarrow> (client_error + OrgInfo list) \<times> 's" where
  "cl_Orgs P H c = call_json P H c ''GET'' ''/v1/orgs'' None [structs_field oi_fields oi_zero ''orgs'' (\<lambda>x _. x)] []"

definition cl_CreateOrg :: "prims \<Rightarrow> 's http \<Rightarrow> Client \<Rightarrow> string \<Rightarrow> string \<Rightarrow> 's \<Rightarrow> (client_error + OrgInfo) \<times> 's" where
  "cl_CreateOrg P H c name i = call_json P H c ''POST'' ''/v1/orgs'' (Some (strs [(''name'', name), (''id'', i)])) oi_fields oi_zero"

definition cl_DeleteOrg :: "prims \<Rightarrow> 's http \<Rightarrow> Client \<Rightarrow> string \<Rightarrow> 's \<Rightarrow> (client_error + unit) \<times> 's" where
  "cl_DeleteOrg P H c i = call_unit P H c ''DELETE'' (org_path i []) None"

definition hash_fields :: "string field list" where
  "hash_fields = [string_field ''hash'' (\<lambda>x _. x)]"

definition cl_Issue :: "prims \<Rightarrow> 's http \<Rightarrow> Client \<Rightarrow> string \<Rightarrow> string \<Rightarrow> string \<Rightarrow> string \<Rightarrow> 's \<Rightarrow> (client_error + string) \<times> 's" where
  "cl_Issue P H c org cert name via = call_json P H c ''POST'' (org_path org ''/issue'')
     (Some (strs [(''cert_id'', cert), (''identity'', name), (''via'', via)])) hash_fields []"

definition cl_Revoke :: "prims \<Rightarrow> 's http \<Rightarrow> Client \<Rightarrow> string \<Rightarrow> string \<Rightarrow> 's \<Rightarrow> (client_error + string) \<times> 's" where
  "cl_Revoke P H c org cert = call_json P H c ''POST'' (org_path org ''/revoke'') (Some (strs [(''cert_id'', cert)])) hash_fields []"

definition cert_zero :: Cert where
  "cert_zero = \<lparr>Identity = [], Revoked = False\<rparr>"

definition state_fields :: "(string \<times> Cert) list field list" where
  "state_fields = [map_field (decode_struct [string_field ''Identity'' (\<lambda>x r. r\<lparr>Identity := x\<rparr>), bool_field ''Revoked'' (\<lambda>x r. r\<lparr>Revoked := x\<rparr>)] cert_zero)
     ''certs'' id (\<lambda>x _. x)]"

definition cl_State :: "prims \<Rightarrow> 's http \<Rightarrow> Client \<Rightarrow> string \<Rightarrow> 's \<Rightarrow> (client_error + (string \<times> Cert) list) \<times> 's" where
  "cl_State P H c org = call_json P H c ''GET'' (org_path org ''/state'') None state_fields []"

record Event =
  ce_Type :: string
  ce_Ts :: int
  ce_CertID :: string
  ce_Identity :: string
  ce_Via :: string
  ce_Hash :: string
  ce_Parent :: string

definition ce_zero :: Event where
  "ce_zero = \<lparr>ce_Type = [], ce_Ts = 0, ce_CertID = [], ce_Identity = [], ce_Via = [], ce_Hash = [], ce_Parent = []\<rparr>"

definition ce_fields :: "Event field list" where
  "ce_fields = [string_field ''type'' (\<lambda>x r. r\<lparr>ce_Type := x\<rparr>), int_field ''ts'' (\<lambda>x r. r\<lparr>ce_Ts := x\<rparr>),
     string_field ''cert_id'' (\<lambda>x r. r\<lparr>ce_CertID := x\<rparr>), string_field ''identity'' (\<lambda>x r. r\<lparr>ce_Identity := x\<rparr>),
     string_field ''via'' (\<lambda>x r. r\<lparr>ce_Via := x\<rparr>), string_field ''hash'' (\<lambda>x r. r\<lparr>ce_Hash := x\<rparr>),
     string_field ''parent_hash'' (\<lambda>x r. r\<lparr>ce_Parent := x\<rparr>)]"

definition events_fields :: "Event list field list" where
  "events_fields = [structs_field ce_fields ce_zero ''events'' (\<lambda>x _. x)]"

text \<open>A query member that is left out when the argument is empty; nothing is escaped.\<close>

definition arg :: "string \<Rightarrow> string \<Rightarrow> string" where
  "arg name v = (if v = [] then [] else ''&'' @ name @ ''='' @ v)"

definition cl_Timeline :: "prims \<Rightarrow> 's http \<Rightarrow> Client \<Rightarrow> string \<Rightarrow> string \<Rightarrow> int \<Rightarrow> 's \<Rightarrow> (client_error + Event list) \<times> 's" where
  "cl_Timeline P H c org typ limit = call_json P H c ''GET'' (org_path org (''/timeline?limit='' @ fmt_int limit @ arg ''type'' typ)) None events_fields []"

text \<open>NaN and the infinities have no JSON form.\<close>

definition cl_Scores :: "prims \<Rightarrow> 's http \<Rightarrow> Client \<Rightarrow> string \<Rightarrow> string \<Rightarrow> f64 \<Rightarrow> int \<Rightarrow> 's \<Rightarrow> (client_error + unit) \<times> 's" where
  "cl_Scores P H c org node score bad s = (case score of
     Fin x \<Rightarrow> call_unit P H c ''POST'' (org_path org ''/scores'') (Some (json_map [(''node_id'', JStr node), (''score'', JNum (ht_num H score)),
        (''p_value'', JNum ''0.01''), (''evidence'', if 0 \<le> bad then JObj [(''bad_index'', JInt bad)] else JNull)])) s
   | _ \<Rightarrow> (Inl NotMarshalled, s))"

text \<open>A raw message is written as it is, and refused when it is not a document; a nil one is \<open>null\<close>.\<close>

definition raw_json :: "prims \<Rightarrow> slice \<Rightarrow> json option" where
  "raw_json P r = (case r of None \<Rightarrow> Some JNull | Some b \<Rightarrow> json_parse P b)"

definition cl_Recover :: "prims \<Rightarrow> 's http \<Rightarrow> Client \<Rightarrow> string \<Rightarrow> slice \<Rightarrow> FrostCommit option \<Rightarrow> 's \<Rightarrow> (client_error + unit) \<times> 's" where
  "cl_Recover P H c org timeline commit s = (case raw_json P timeline of
     None \<Rightarrow> (Inl NotMarshalled, s)
   | Some j \<Rightarrow> call_unit P H c ''POST'' (org_path org ''/recover'')
       (Some (json_map [(''timeline'', j), (''commit'', case commit of None \<Rightarrow> JNull | Some fc \<Rightarrow> fc_json P fc)])) s)"

definition cl_Audit ::
  "prims \<Rightarrow> 's http \<Rightarrow> Client \<Rightarrow> string \<Rightarrow> string \<Rightarrow> string \<Rightarrow> string \<Rightarrow> int \<Rightarrow> 's \<Rightarrow> (client_error + Event list) \<times> 's" where
  "cl_Audit P H c org typ name cert limit = call_json P H c ''GET''
     (''/v1/audit?limit='' @ fmt_int limit @ arg ''org'' org @ arg ''type'' typ @ arg ''identity'' name @ arg ''cert'' cert) None events_fields []"

definition cl_Metrics :: "prims \<Rightarrow> 's http \<Rightarrow> Client \<Rightarrow> 's \<Rightarrow> (client_error + bytes) \<times> 's" where
  "cl_Metrics P H c = do_call P H c ''GET'' ''/v1/metrics'' None"

section \<open>Backups, users, webhooks\<close>

definition id_fields :: "string field list" where
  "id_fields = [string_field ''id'' (\<lambda>x _. x)]"

definition cl_Backup :: "prims \<Rightarrow> 's http \<Rightarrow> Client \<Rightarrow> 's \<Rightarrow> (client_error + string) \<times> 's" where
  "cl_Backup P H c = call_json P H c ''POST'' ''/v1/backup'' None id_fields []"

definition cl_DownloadBackup :: "prims \<Rightarrow> 's http \<Rightarrow> Client \<Rightarrow> string \<Rightarrow> 's \<Rightarrow> (client_error + bytes) \<times> 's" where
  "cl_DownloadBackup P H c i = do_call P H c ''GET'' (''/v1/backup/'' @ i @ ''/download'') None"

text \<open>An answer that breaks off while it is read is not an error here.\<close>

definition cl_Restore :: "'s http \<Rightarrow> Client \<Rightarrow> bytes \<Rightarrow> 's \<Rightarrow> (client_error + unit) \<times> 's" where
  "cl_Restore H c bundle s = apfst (map_sum id (\<lambda>_. ())) (exchange H c ''POST'' ''/v1/restore'' (Some bundle) s)"

definition token_fields :: "string field list" where
  "token_fields = [string_field ''token'' (\<lambda>x _. x)]"

definition cl_CreateUser :: "prims \<Rightarrow> 's http \<Rightarrow> Client \<Rightarrow> string \<Rightarrow> string \<Rightarrow> string list \<Rightarrow> 's \<Rightarrow> (client_error + string) \<times> 's" where
  "cl_CreateUser P H c i role orgs = call_json P H c ''POST'' ''/v1/users''
     (Some (json_map [(''id'', JStr i), (''role'', JStr role), (''orgs'', json_strs orgs)])) token_fields []"

text \<open>The users as the maps the server sent; \<open>null\<close> is a nil map.\<close>

definition any_map :: "json \<Rightarrow> (string \<times> json) list option" where
  "any_map j = (case j of JObj kvs \<Rightarrow> map_members Some kvs [] | JNull \<Rightarrow> Some [] | _ \<Rightarrow> None)"

definition users_fields :: "(string \<times> json) list list field list" where
  "users_fields = [(''users'', \<lambda>j r. case j of JNull \<Rightarrow> Some [] | JArr js \<Rightarrow> those (map any_map js) | _ \<Rightarrow> None)]"

definition cl_Users :: "prims \<Rightarrow> 's http \<Rightarrow> Client \<Rightarrow> 's \<Rightarrow> (client_error + (string \<times> json) list list) \<times> 's" where
  "cl_Users P H c = call_json P H c ''GET'' ''/v1/users'' None users_fields []"

record WebhookInfo =
  wi_ID :: string
  wi_URL :: string
  wi_Events :: "string list"
  wi_Active :: bool

definition wi_zero :: WebhookInfo where
  "wi_zero = \<lparr>wi_ID = [], wi_URL = [], wi_Events = [], wi_Active = False\<rparr>"

definition wi_fields :: "WebhookInfo field list" where
  "wi_fields = [string_field ''id'' (\<lambda>x r. r\<lparr>wi_ID := x\<rparr>), string_field ''url'' (\<lambda>x r. r\<lparr>wi_URL := x\<rparr>),
     strings_field ''events'' (\<lambda>x r. r\<lparr>wi_Events := x\<rparr>), bool_field ''active'' (\<lambda>x r. r\<lparr>wi_Active := x\<rparr>)]"

definition cl_Webhooks :: "prims \<Rightarrow> 's http \<Rightarrow> Client \<Rightarrow> 's \<Rightarrow> (client_error + WebhookInfo list) \<times> 's" where
  "cl_Webhooks P H c = call_json P H c ''GET'' ''/v1/webhooks'' None [structs_field wi_fields wi_zero ''webhooks'' (\<lambda>x _. x)] []"

definition cl_CreateWebhook :: "prims \<Rightarrow> 's http \<Rightarrow> Client \<Rightarrow> string \<Rightarrow> string \<Rightarrow> string list \<Rightarrow> 's \<Rightarrow> (client_error + unit) \<times> 's" where
  "cl_CreateWebhook P H c url secret events = call_unit P H c ''POST'' ''/v1/webhooks''
     (Some (json_map [(''url'', JStr url), (''secret'', JStr secret), (''events'', json_strs events)]))"

definition cl_DeleteWebhook :: "prims \<Rightarrow> 's http \<Rightarrow> Client \<Rightarrow> string \<Rightarrow> 's \<Rightarrow> (client_error + unit) \<times> 's" where
  "cl_DeleteWebhook P H c i = call_unit P H c ''DELETE'' (''/v1/webhooks/'' @ i) None"

section \<open>The transparency surface\<close>

record STH =
  sv_Org :: string
  sv_LogKeyHex :: string
  sv_TreeSize :: int
  sv_Timestamp :: int
  sv_RootHex :: string
  sv_SignatureHex :: string

definition sv_zero :: STH where
  "sv_zero = \<lparr>sv_Org = [], sv_LogKeyHex = [], sv_TreeSize = 0, sv_Timestamp = 0, sv_RootHex = [], sv_SignatureHex = []\<rparr>"

definition sv_fields :: "STH field list" where
  "sv_fields = [string_field ''org'' (\<lambda>x r. r\<lparr>sv_Org := x\<rparr>), string_field ''log_key_hex'' (\<lambda>x r. r\<lparr>sv_LogKeyHex := x\<rparr>),
     int_field ''tree_size'' (\<lambda>x r. r\<lparr>sv_TreeSize := x\<rparr>), int_field ''timestamp'' (\<lambda>x r. r\<lparr>sv_Timestamp := x\<rparr>),
     string_field ''root_hex'' (\<lambda>x r. r\<lparr>sv_RootHex := x\<rparr>), string_field ''signature_hex'' (\<lambda>x r. r\<lparr>sv_SignatureHex := x\<rparr>)]"

definition cl_CTSTH :: "prims \<Rightarrow> 's http \<Rightarrow> Client \<Rightarrow> string \<Rightarrow> 's \<Rightarrow> (client_error + STH) \<times> 's" where
  "cl_CTSTH P H c org = call_json P H c ''GET'' (org_path org ''/ct/sth'') None sv_fields sv_zero"

type_synonym ct_answer = "string \<times> string \<times> string list"

definition ct_answer_fields :: "string \<Rightarrow> string \<Rightarrow> ct_answer field list" where
  "ct_answer_fields a b = [string_field a (\<lambda>x (_, r, p). (x, r, p)), string_field b (\<lambda>x (l, _, p). (l, x, p)), strings_field ''proof'' (\<lambda>x (l, r, _). (l, r, x))]"

definition cl_CTInclusionProof :: "prims \<Rightarrow> 's http \<Rightarrow> Client \<Rightarrow> string \<Rightarrow> int \<Rightarrow> int \<Rightarrow> 's \<Rightarrow> (client_error + ct_answer) \<times> 's" where
  "cl_CTInclusionProof P H c org i n = call_json P H c ''GET'' (org_path org (''/ct/proof?index='' @ fmt_int i @ ''&size='' @ fmt_int n)) None
     (ct_answer_fields ''leaf_hash_hex'' ''root_hex'') ([], [], [])"

definition cl_CTConsistencyProof :: "prims \<Rightarrow> 's http \<Rightarrow> Client \<Rightarrow> string \<Rightarrow> int \<Rightarrow> int \<Rightarrow> 's \<Rightarrow> (client_error + ct_answer) \<times> 's" where
  "cl_CTConsistencyProof P H c org a b = call_json P H c ''GET'' (org_path org (''/ct/proof?from='' @ fmt_int a @ ''&to='' @ fmt_int b)) None
     (ct_answer_fields ''old_root_hex'' ''new_root_hex'') ([], [], [])"

definition hexDecode :: "string \<Rightarrow> slice" where
  "hexDecode s = hex_decode s"

record gossip_answer =
  ga_accepted :: bool
  ga_alarm :: string
  ga_size :: int
  ga_root :: string

definition ga_fields :: "gossip_answer field list" where
  "ga_fields = [bool_field ''accepted'' (\<lambda>x r. r\<lparr>ga_accepted := x\<rparr>), string_field ''alarm'' (\<lambda>x r. r\<lparr>ga_alarm := x\<rparr>),
     int_field ''trusted_tree_size'' (\<lambda>x r. r\<lparr>ga_size := x\<rparr>), string_field ''trusted_root_hex'' (\<lambda>x r. r\<lparr>ga_root := x\<rparr>)]"

definition cl_CTGossip :: "prims \<Rightarrow> 's http \<Rightarrow> Client \<Rightarrow> string \<Rightarrow> STH \<Rightarrow> int \<Rightarrow> string list \<Rightarrow> 's \<Rightarrow> (client_error + gossip_answer) \<times> 's" where
  "cl_CTGossip P H c org sth proofFrom prf = call_json P H c ''POST'' (org_path org ''/ct/gossip'')
     (Some (json_map [(''tree_size'', JInt (sv_TreeSize sth)), (''timestamp'', JInt (sv_Timestamp sth)),
        (''root_b64'', slice_json P (hexDecode (sv_RootHex sth))), (''signature_b64'', slice_json P (hexDecode (sv_SignatureHex sth))),
        (''proof_from'', JInt proofFrom), (''proof_hex'', json_strs prf)]))
     ga_fields \<lparr>ga_accepted = False, ga_alarm = [], ga_size = 0, ga_root = []\<rparr>"

end
