(* ===== verification/ClientProps.thy ===== *)
theory ClientProps
  imports Client GatewayCli GatewayProps Gossip
begin

text \<open>
  The client against the gateway: how a request of the client reaches a handler (\<open>ServeMux\<close> of net/http over the patterns of the
  route table, for addresses without escapes), and what the SDK's calls amount to.
\<close>

section \<open>The multiplexer\<close>

text \<open>A segment in braces takes any segment that is not empty.\<close>

fun match_segments :: "string list \<Rightarrow> string list \<Rightarrow> (string \<times> string) list option" where
  "match_segments [] [] = Some []"
| "match_segments (p # ps) (s # ss) =
     (if take 1 p = ''{'' then (if s = [] then None else map_option ((#) (butlast (tl p), s)) (match_segments ps ss))
      else if p = s then match_segments ps ss else None)"
| "match_segments _ _ = None"

definition route_match :: "endpoint \<Rightarrow> string \<Rightarrow> string \<Rightarrow> (string \<times> string) list option" where
  "route_match ep method p = (case cut CHR '' '' (fst (route_of ep)) of None \<Rightarrow> None
     | Some (m, pat) \<Rightarrow> if m = method \<or> m = ''GET'' \<and> method = ''HEAD''
         then match_segments (split_on CHR ''/'' pat) (split_on CHR ''/'' p) else None)"

definition endpoints :: "endpoint list" where
  "endpoints = [Health, CreateUser, ListUsers, UserToken, CreateOrg, ListOrgs, OrgDetail, DeleteOrg, OrgTimeline, Issue, Revoke, State,
     Graph, Scores, Recover, OrgPubKey, CTSTH, CTProof, CTGossip, AuditSearch, ListWebhooks, CreateWebhook, DeleteWebhook, BackupCreate,
     BackupDownload, RestoreAll, Rotate, Metrics]"

definition parse_query :: "string \<Rightarrow> (string \<times> string) list" where
  "parse_query q = map (\<lambda>p. case cut CHR ''='' p of None \<Rightarrow> (p, []) | Some kv \<Rightarrow> kv) (filter (\<lambda>p. p \<noteq> []) (split_on CHR ''&'' q))"

definition split_url :: "string \<Rightarrow> string \<times> (string \<times> string) list" where
  "split_url u = (case cut CHR ''?'' u of None \<Rightarrow> (u, []) | Some (p, q) \<Rightarrow> (p, parse_query q))"

definition mux :: "string \<Rightarrow> http_request \<Rightarrow> (endpoint \<times> request) option" where
  "mux base hq = (case split_url (drop (length base) (hq_url hq)) of (p, q) \<Rightarrow>
     (case find (\<lambda>ep. route_match ep (hq_method hq) p \<noteq> None) endpoints of None \<Rightarrow> None
      | Some ep \<Rightarrow> let m = the (route_match ep (hq_method hq) p) in
          Some (ep, \<lparr>rq_method = hq_method hq, rq_path = p, rq_auth = hq_auth hq, rq_idem = [],
            rq_org = flag m ''org'', rq_id = flag m ''id'', rq_query = q, rq_body = hq_body hq\<rparr>)))"

text \<open>\<open>err\<close> and \<open>prom\<close> are the texts of an error and of the metrics.  A request that waits for ever is not answered.\<close>

definition body_text :: "prims \<Rightarrow> (api_error \<Rightarrow> bytes) \<Rightarrow> ((string \<times> string \<times> int) list \<Rightarrow> bytes) \<Rightarrow> rbody \<Rightarrow> bytes" where
  "body_text P err prom b = (case b of RJson j \<Rightarrow> json_text P j | RErr e \<Rightarrow> err e | RRaw b \<Rightarrow> b | RMetrics ls \<Rightarrow> prom ls)"

definition gateway_http ::
  "prims \<Rightarrow> aead \<Rightarrow> rounding \<Rightarrow> env \<Rightarrow> (api_error \<Rightarrow> bytes) \<Rightarrow> ((string \<times> string \<times> int) list \<Rightarrow> bytes) \<Rightarrow> string \<Rightarrow> Store http" where
  "gateway_http P A rnd E err prom base = \<lparr>ht_server = (\<lambda>hq s. case mux base hq of None \<Rightarrow> (Some (404, []), s)
       | Some (ep, rq) \<Rightarrow> (case serve P A rnd E ep rq s of (None, s') \<Rightarrow> (None, s')
           | (Some r, s') \<Rightarrow> (Some (rs_status r, body_text P err prom (rs_body r)), s'))),
     ht_url_ok = (\<lambda>u. True), ht_num = en_fnum E\<rparr>"

lemma mux_url:
  assumes "split_url u = (p, q)" "find (\<lambda>ep. route_match ep m p \<noteq> None) endpoints = Some ep" "route_match ep m p = Some kv"
  shows "mux base \<lparr>hq_method = m, hq_url = base @ u, hq_auth = a, hq_type = ty, hq_body = b\<rparr>
    = Some (ep, \<lparr>rq_method = m, rq_path = p, rq_auth = a, rq_idem = [], rq_org = flag kv ''org'', rq_id = flag kv ''id'', rq_query = q, rq_body = b\<rparr>)"
  using assms by (simp add: mux_def)

lemma exchange_routed:
  assumes "split_url u = (p, q)" "find (\<lambda>ep. route_match ep m p \<noteq> None) endpoints = Some ep" "route_match ep m p = Some kv"
  shows "exchange (gateway_http P A rnd E err prom base) (NewClient base token) m u body s =
    (case serve P A rnd E ep \<lparr>rq_method = m, rq_path = p, rq_auth = ''Bearer '' @ token, rq_idem = [], rq_org = flag kv ''org'',
         rq_id = flag kv ''id'', rq_query = q, rq_body = slice_bytes body\<rparr> s of
       (None, s') \<Rightarrow> (Inl NoAnswer, s')
     | (Some r, s') \<Rightarrow> (let b = take maxBody (body_text P err prom (rs_body r)) in
         if 400 \<le> rs_status r then (Inl (APIError (rs_status r) b), s') else (Inr b, s')))"
  using mux_url [OF assms, of base "''Bearer '' @ token"]
  by (simp add: exchange_def gateway_http_def NewClient_def Let_def del: append.simps split: prod.split option.split)

section \<open>Searching the audit trail\<close>

definition clean_arg :: "string \<Rightarrow> bool" where
  "clean_arg s \<longleftrightarrow> set s \<inter> set ''&=%+;#?/ '' = {}"

lemma clean_argD: "clean_arg s \<Longrightarrow> CHR ''&'' \<notin> set s \<and> CHR ''='' \<notin> set s \<and> CHR ''?'' \<notin> set s \<and> CHR ''/'' \<notin> set s"
  by (auto simp: clean_arg_def)

lemma cut_at: "c \<notin> set a \<Longrightarrow> cut c (a @ c # b) = Some (a, b)"
  by (induction a) auto

lemma parse_query_append: "parse_query (a @ CHR ''&'' # b) = parse_query a @ parse_query b"
  by (simp add: parse_query_def split_on_append)

lemma parse_query_pair: "CHR ''&'' \<notin> set (k @ v) \<Longrightarrow> CHR ''='' \<notin> set k \<Longrightarrow> parse_query (k @ CHR ''='' # v) = [(k, v)]"
  by (simp add: parse_query_def cut_at)

lemma fmt_int_plain: "c \<notin> set (fmt_int n)" if "c \<in> set ''&=?/ ''"
proof -
  have "of_char x < (58 :: nat) \<and> 47 < (of_char x :: nat)" if "x \<in> set (digits m)" for x m
    using that
  proof (induction m rule: digits.induct)
    case (1 m)
    then show ?case by (subst (asm) digits.simps) (auto split: if_splits)
  qed
  then have "x \<in> set (fmt_int n) \<Longrightarrow> of_char x < (58 :: nat) \<and> (47 < (of_char x :: nat) \<or> x = CHR ''-'')" for x
    by (auto simp: fmt_int_def split: if_splits)
  from this [of c] that show ?thesis by auto
qed

lemma parse_query_arg:
  assumes "clean_arg v" "clean_arg k"
  shows "parse_query (a @ arg k v) = parse_query a @ (if v = [] then [] else [(k, v)])"
  using parse_query_append [of a "k @ CHR ''='' # v"] parse_query_pair [of k v] clean_argD [OF assms(1)] clean_argD [OF assms(2)]
  by (simp add: arg_def)

lemma no_question: "clean_arg v \<Longrightarrow> clean_arg k \<Longrightarrow> CHR ''?'' \<notin> set (arg k v)"
  by (auto simp: arg_def clean_arg_def)

lemma audit_route: "find (\<lambda>ep. route_match ep ''GET'' ''/v1/audit'' \<noteq> None) endpoints = Some AuditSearch"
  "route_match AuditSearch ''GET'' ''/v1/audit'' = Some []"
  by (simp_all add: endpoints_def route_match_def)

definition audit_request :: "string \<Rightarrow> (string \<times> string) list \<Rightarrow> request" where
  "audit_request token q = \<lparr>rq_method = ''GET'', rq_path = ''/v1/audit'', rq_auth = ''Bearer '' @ token, rq_idem = [], rq_org = [],
     rq_id = [], rq_query = q, rq_body = []\<rparr>"

definition opt_arg :: "string \<Rightarrow> string \<Rightarrow> (string \<times> string) list" where
  "opt_arg k v = (if v = [] then [] else [(k, v)])"

lemma audit_url:
  assumes "clean_arg org" "clean_arg typ" "clean_arg name" "clean_arg cert"
  shows "split_url (''/v1/audit?limit='' @ fmt_int limit @ arg ''org'' org @ arg ''type'' typ @ arg ''identity'' name @ arg ''cert'' cert)
    = (''/v1/audit'', [(''limit'', fmt_int limit)] @ opt_arg ''org'' org @ opt_arg ''type'' typ @ opt_arg ''identity'' name @ opt_arg ''cert'' cert)"
proof -
  let ?q = "(((''limit='' @ fmt_int limit) @ arg ''org'' org) @ arg ''type'' typ) @ arg ''identity'' name"
  have k: "clean_arg ''org''" "clean_arg ''type''" "clean_arg ''identity''" "clean_arg ''cert''" by (simp_all add: clean_arg_def)
  have l: "parse_query (''limit='' @ fmt_int limit) = [(''limit'', fmt_int limit)]"
    using parse_query_pair [of "''limit''" "fmt_int limit"] fmt_int_plain [of "CHR ''&''" limit] by simp
  have "parse_query (?q @ arg ''cert'' cert) = [(''limit'', fmt_int limit)] @ opt_arg ''org'' org @ opt_arg ''type'' typ
      @ opt_arg ''identity'' name @ opt_arg ''cert'' cert"
    unfolding parse_query_arg [OF assms(4) k(4)] parse_query_arg [OF assms(3) k(3)] parse_query_arg [OF assms(2) k(2)]
      parse_query_arg [OF assms(1) k(1)] l opt_arg_def by simp
  moreover have "cut CHR ''?'' (''/v1/audit'' @ CHR ''?'' # ?q @ arg ''cert'' cert) = Some (''/v1/audit'', ?q @ arg ''cert'' cert)"
    by (rule cut_at) simp
  ultimately show ?thesis by (simp add: split_url_def)
qed

lemma serve_audit:
  assumes "\<And>k. k \<noteq> ''org'' \<Longrightarrow> map_of q k = map_of q' k" "map_of q ''source'' = None"
  shows "serve P A rnd E AuditSearch (audit_request c q) s = serve P A rnd E AuditSearch (audit_request c q') s"
proof -
  let ?a = "audit_request c q" and ?b = "audit_request c q'"
  have g: "q_get ?a k = q_get ?b k" if "k \<noteq> ''org''" for k
    using assms(1) [OF that] by (simp add: q_get_def audit_request_def)
  have src: "q_get ?a ''source'' = []" "q_get ?b ''source'' = []"
    using assms(2) g [of "''source''"] by (simp_all add: q_get_def audit_request_def)
  have gs: "q_get ?a ''type'' = q_get ?b ''type''" "q_get ?a ''identity'' = q_get ?b ''identity''" "q_get ?a ''cert'' = q_get ?b ''cert''"
    "q_get ?a ''since'' = q_get ?b ''since''" "q_get ?a ''until'' = q_get ?b ''until''"
    by (rule g, simp)+
  have h: "handleAudit P ?a u s = handleAudit P ?b u s" for u s
    unfolding handleAudit_def src audit_event_match_def [abs_def] qint_def gs by simp
  have "handler P A rnd E AuditSearch ?a u t s = handler P A rnd E AuditSearch ?b u t s" for u t s
    by (simp add: handler_def h split: option.splits)
  moreover have "enter P rnd E AuditSearch ?a s = enter P rnd E AuditSearch ?b s"
  proof -
    have "check_scope AuditSearch ?a u h s1 = check_scope AuditSearch ?b u h s1" "rq_auth ?a = rq_auth ?b" for u h s1
      by (simp_all add: check_scope_def scoped_def audit_request_def)
    then show ?thesis by (simp only: enter_def)
  qed
  moreover have "idemKey P u ?a = []" "idemKey P u ?b = []" "audit_of E ?a u = audit_of E ?b u" for u
    by (simp_all add: idemKey_def audit_request_def audit_of_def fun_eq_iff)
  ultimately show ?thesis by (simp only: serve_def run_handler_def)
qed

text \<open>
  The organisation given to the client's search makes no difference: every organisation, and none, gives the answer
  over all that the token's user can see.
\<close>

theorem sdk_audit:
  fixes P rnd E A err prom base
  assumes "clean_arg org" "clean_arg typ" "clean_arg name" "clean_arg cert"
  defines "H \<equiv> gateway_http P A rnd E err prom base"
  shows "cl_Audit P H (NewClient base token) org typ name cert limit s = cl_Audit P H (NewClient base token) [] typ name cert limit s"
proof -
  let ?q = "\<lambda>org. [(''limit'', fmt_int limit)] @ opt_arg ''org'' org @ opt_arg ''type'' typ @ opt_arg ''identity'' name @ opt_arg ''cert'' cert"
  have e: "clean_arg []" by (simp add: clean_arg_def)
  have "map_of (?q org) k = map_of (?q []) k" if "k \<noteq> ''org''" for k using that by (simp add: opt_arg_def map_add_def)
  moreover have "map_of (?q org) ''source'' = None" by (simp add: opt_arg_def)
  ultimately have s: "serve P A rnd E AuditSearch (audit_request token (?q org)) s = serve P A rnd E AuditSearch (audit_request token (?q [])) s"
    by (rule serve_audit)
  have r: "audit_request token q = \<lparr>rq_method = ''GET'', rq_path = ''/v1/audit'', rq_auth = ''Bearer '' @ token, rq_idem = [],
      rq_org = flag [] ''org'', rq_id = flag [] ''id'', rq_query = q, rq_body = slice_bytes None\<rparr>" for q
    by (simp only: audit_request_def flag_def slice_bytes_def map_of.simps option.simps)
  show ?thesis
    unfolding cl_Audit_def call_json_def do_call_def option.map H_def
      exchange_routed [OF audit_url [OF assms(1-4)] audit_route] exchange_routed [OF audit_url [OF e assms(2-4)] audit_route]
    using s unfolding r by (simp only:)
qed

theorem sdk_audit_witness:
  "cl_Audit toy (gateway_http toy toy_aead Fin demo_env (\<lambda>e. []) (\<lambda>m. []) ''http://gw'') (NewClient ''http://gw'' ''t1'') ''a'' EvIssue [] [] 20 demo_gw
    = cl_Audit toy (gateway_http toy toy_aead Fin demo_env (\<lambda>e. []) (\<lambda>m. []) ''http://gw'') (NewClient ''http://gw'' ''t1'') [] EvIssue [] [] 20 demo_gw"
  by (rule sdk_audit) (simp_all add: clean_arg_def)

section \<open>Auditing a log through the client\<close>

definition clean_segment :: "string \<Rightarrow> bool" where
  "clean_segment s \<longleftrightarrow> clean_arg s \<and> s \<noteq> []"

lemma split_org:
  assumes "clean_segment org"
  shows "split_on CHR ''/'' (''/v1/orgs/'' @ org @ CHR ''/'' # r) = [[], ''v1'', ''orgs'', org] @ split_on CHR ''/'' r"
  using split_on_append [of "CHR ''/''" org r] assms clean_argD [of org] by (simp add: clean_segment_def)

definition scoped_request :: "string \<Rightarrow> string \<Rightarrow> string \<Rightarrow> (string \<times> string) list \<Rightarrow> request" where
  "scoped_request token org p q = \<lparr>rq_method = ''GET'', rq_path = p, rq_auth = ''Bearer '' @ token, rq_idem = [], rq_org = org,
     rq_id = [], rq_query = q, rq_body = []\<rparr>"

lemma ct_routes:
  assumes "clean_segment org"
  shows "find (\<lambda>ep. route_match ep ''GET'' (org_path org ''/ct/sth'') \<noteq> None) endpoints = Some CTSTH"
    "route_match CTSTH ''GET'' (org_path org ''/ct/sth'') = Some [(''org'', org)]"
    "find (\<lambda>ep. route_match ep ''GET'' (org_path org ''/ct/proof'') \<noteq> None) endpoints = Some CTProof"
    "route_match CTProof ''GET'' (org_path org ''/ct/proof'') = Some [(''org'', org)]"
proof -
  have s: "split_on CHR ''/'' (org_path org ''/ct/sth'') = [[], ''v1'', ''orgs'', org, ''ct'', ''sth'']"
    "split_on CHR ''/'' (org_path org ''/ct/proof'') = [[], ''v1'', ''orgs'', org, ''ct'', ''proof'']"
    using split_org [OF assms, of "''ct/sth''"] split_org [OF assms, of "''ct/proof''"] by (simp_all add: org_path_def)
  have o: "org \<noteq> []" using assms by (simp add: clean_segment_def)
  show "find (\<lambda>ep. route_match ep ''GET'' (org_path org ''/ct/sth'') \<noteq> None) endpoints = Some CTSTH"
    "route_match CTSTH ''GET'' (org_path org ''/ct/sth'') = Some [(''org'', org)]"
    "find (\<lambda>ep. route_match ep ''GET'' (org_path org ''/ct/proof'') \<noteq> None) endpoints = Some CTProof"
    "route_match CTProof ''GET'' (org_path org ''/ct/proof'') = Some [(''org'', org)]"
    using o by (simp_all add: endpoints_def route_match_def s)
qed

lemma serve_get:
  assumes "enter P rnd E ep rq s = (Pass u h (Some t), s1)" "rq_method rq = ''GET''"
    and "on_tenant P A rnd E ep rq t s1 = (Some r, s2)" "\<not> st_held s2"
  shows "\<exists>s3. serve P A rnd E ep rq s = (Some r, s3)"
  using assms by (simp add: serve_def idemKey_def run_handler_def handler_def Let_def)

lemma ct_map_sth: "json_map [(''org'', a), (''log_key_hex'', b), (''tree_size'', c), (''timestamp'', d), (''root_hex'', e), (''signature_hex'', f)]
   = JObj [(''log_key_hex'', b), (''org'', a), (''root_hex'', e), (''signature_hex'', f), (''timestamp'', d), (''tree_size'', c)]"
  by (simp add: json_map_def)

lemma ct_map_proof: "json_map [(''org'', a), (''index'', b), (''size'', c), (''leaf_hash_hex'', d), (''root_hex'', e), (''proof'', f)]
   = JObj [(''index'', b), (''leaf_hash_hex'', d), (''org'', a), (''proof'', f), (''root_hex'', e), (''size'', c)]"
  by (simp add: json_map_def)

lemma enter_same:
  assumes "enter P rnd E ep rq s = (Pass u h (Some t), s1)"
  shows "\<not> st_held s1" "st_LogKey s1 = st_LogKey s"
  using assms by (auto simp: enter_def Let_def split: if_splits sum.splits prod.splits)

lemma orgMerkle_leaves: "leaves (orgMerkle P tln) = map (\<lambda>e. LeafHash (sha256 P) (ev_Hash P e)) (tl_events tln)"
proof -
  have "leaves (fold (\<lambda>e m. fst (log_append (sha256 P) m (ev_Hash P e))) es m) = leaves m @ map (\<lambda>e. LeafHash (sha256 P) (ev_Hash P e)) es" for es m
    by (induction es arbitrary: m) (auto simp: log_append_def Let_def)
  then show ?thesis by (simp add: orgMerkle_def NewMerkleLog_def)
qed

text \<open>The answer fits in what the client reads.\<close>

definition fits :: "prims \<Rightarrow> response \<Rightarrow> bool" where
  "fits P r \<longleftrightarrow> (case rs_body r of RJson j \<Rightarrow> length (json_text P j) \<le> maxBody | _ \<Rightarrow> False)"

lemma call_json_served:
  assumes "split_url u = (p, q)" "find (\<lambda>ep. route_match ep ''GET'' p \<noteq> None) endpoints = Some ep" "route_match ep ''GET'' p = Some [(''org'', org)]"
    and "enter P rnd E ep (scoped_request token org p q) s = (Pass us h (Some t), s1)"
    and "on_tenant P A rnd E ep (scoped_request token org p q) t s1 = (Some \<lparr>rs_status = 200, rs_body = RJson j\<rparr>, s2)" "\<not> st_held s2"
    and "json_ok P" "plain j" "length (json_text P j) \<le> maxBody" "decode_struct fs z j = Some x"
  shows "\<exists>s3. call_json P (gateway_http P A rnd E err prom base) (NewClient base token) ''GET'' u None fs z s = (Inr x, s3)"
proof -
  obtain s3 where "serve P A rnd E ep (scoped_request token org p q) s = (Some \<lparr>rs_status = 200, rs_body = RJson j\<rparr>, s3)"
    using serve_get [OF assms(4) _ assms(5,6)] by (auto simp: scoped_request_def)
  then have "exchange (gateway_http P A rnd E err prom base) (NewClient base token) ''GET'' u None s = (Inr (json_text P j), s3)"
    unfolding exchange_routed [OF assms(1-3)] using assms(9)
    by (simp add: scoped_request_def flag_def slice_bytes_def body_text_def)
  then show ?thesis
    using assms(7,8,10) by (simp add: call_json_def do_call_def unmarshal_text)
qed

lemma cut_none: "c \<notin> set a \<Longrightarrow> cut c a = None"
  by (induction a) auto

lemma ct_urls:
  assumes "clean_segment org"
  shows "split_url (org_path org ''/ct/sth'') = (org_path org ''/ct/sth'', [])"
    "split_url (org_path org (''/ct/proof?index='' @ fmt_int a @ ''&size='' @ fmt_int b))
      = (org_path org ''/ct/proof'', [(''index'', fmt_int a), (''size'', fmt_int b)])"
proof -
  have q: "CHR ''?'' \<notin> set (org_path org ''/ct/sth'')" "CHR ''?'' \<notin> set (org_path org ''/ct/proof'')"
    using clean_argD [of org] assms by (auto simp: org_path_def clean_segment_def)
  show "split_url (org_path org ''/ct/sth'') = (org_path org ''/ct/sth'', [])"
    by (simp add: split_url_def cut_none [OF q(1)])
  have p: "parse_query (''index='' @ fmt_int a) = [(''index'', fmt_int a)]" "parse_query (''size='' @ fmt_int b) = [(''size'', fmt_int b)]"
    using parse_query_pair [of "''index''" "fmt_int a"] parse_query_pair [of "''size''" "fmt_int b"]
      fmt_int_plain [of "CHR ''&''" a] fmt_int_plain [of "CHR ''&''" b] by simp_all
  have "parse_query ((''index='' @ fmt_int a) @ CHR ''&'' # (''size='' @ fmt_int b)) = [(''index'', fmt_int a), (''size'', fmt_int b)]"
    unfolding parse_query_append p by simp
  moreover have "org_path org (''/ct/proof?index='' @ fmt_int a @ ''&size='' @ fmt_int b)
      = org_path org ''/ct/proof'' @ CHR ''?'' # ((''index='' @ fmt_int a) @ CHR ''&'' # (''size='' @ fmt_int b))"
    by (simp add: org_path_def)
  ultimately show "split_url (org_path org (''/ct/proof?index='' @ fmt_int a @ ''&size='' @ fmt_int b))
      = (org_path org ''/ct/proof'', [(''index'', fmt_int a), (''size'', fmt_int b)])"
    unfolding split_url_def by (simp only: cut_at [OF q(2)] option.case prod.case)
qed

lemma digits_val_app: "digits_val n (a @ b) = Option.bind (digits_val n a) (\<lambda>m. digits_val m b)"
  by (induction a arbitrary: n) (auto split: option.splits)

lemma digit_val_char: "d < 10 \<Longrightarrow> digit_val (char_of (48 + d :: nat)) = Some (int d)"
proof -
  assume d: "d < 10"
  have "(of_char (char_of (48 + d :: nat)) :: int) = int (of_char (char_of (48 + d :: nat)))" by (rule of_nat_of_char [symmetric])
  also have "\<dots> = 48 + int d" using of_char_digit [OF d] by simp
  finally show ?thesis using d by (simp add: digit_val_def Let_def)
qed

lemma digits_val_digits: "digits_val 0 (digits n) = Some (int n)"
proof (induction n rule: digits.induct)
  case (1 n)
  have "int (n div 10) * 10 + int (n mod 10) = int n" by (metis div_mult_mod_eq of_nat_add of_nat_mult of_nat_numeral)
  with 1 show ?case using digit_val_char [of n] digit_val_char [of "n mod 10"]
    by (subst digits.simps) (auto simp: digits_val_app simp del: digits.simps)
qed

lemma ParseInt_fmt: "int64 (int n) \<Longrightarrow> ParseInt (fmt_int (int n)) = Some (int n)"
proof -
  assume i: "int64 (int n)"
  have h: "hd (digits n) \<noteq> CHR ''-'' \<and> hd (digits n) \<noteq> CHR ''+''"
  proof -
    have "hd (digits n) \<in> set (digits n)" using digits_ne by simp
    moreover have "digits_val 0 (c # cs) = Some m \<Longrightarrow> c \<noteq> CHR ''-'' \<and> c \<noteq> CHR ''+''" for c cs m
      by (auto simp: digit_val_def Let_def split: option.splits if_splits)
    ultimately show ?thesis using digits_val_digits [of n] by (metis digits_ne list.collapse)
  qed
  then obtain c cs where c: "digits n = c # cs" "c \<noteq> CHR ''-''" "c \<noteq> CHR ''+''" using digits_ne [of n] by (cases "digits n") auto
  show ?thesis using i digits_val_digits [of n] unfolding fmt_int_def
    by (simp add: ParseInt_def Let_def c del: digits.simps digits_val.simps)
qed

lemma those_hex [simp]: "those (map (hex_decode \<circ> hex_encode) hs) = Some hs"
  by (induction hs) (simp_all add: hex_roundtrip)

definition sth_doc :: "prims \<Rightarrow> string \<Rightarrow> bytes \<Rightarrow> SignedTreeHead \<Rightarrow> json" where
  "sth_doc P i key sth = JObj [(''log_key_hex'', JStr (hex_encode (ed_public key))), (''org'', JStr i),
     (''root_hex'', JStr (hex_encode (sth_Root sth))), (''signature_hex'', JStr (hex_encode (sth_Signature sth))),
     (''timestamp'', JInt (Timestamp sth)), (''tree_size'', JInt (TreeSize sth))]"

lemma handleCTSTH_doc:
  assumes "tn_tl t = Some tln" "length (slice_bytes (st_LogKey s)) = 32"
  shows "handleCTSTH P E t s = (Some \<lparr>rs_status = 200, rs_body = RJson (sth_doc P (tn_ID t) (ed_newkey P (slice_bytes (st_LogKey s)))
     (SignSTH P (ed_newkey P (slice_bytes (st_LogKey s))) (Root (sha256 P) (orgMerkle P tln)) (int (log_size (orgMerkle P tln))) (en_now E)))\<rparr>, s)"
  using assms by (simp add: handleCTSTH_def ctLogKey_def Let_def ok_json_def ct_map_sth sth_doc_def)

definition inclusion_doc :: "string \<Rightarrow> int \<Rightarrow> int \<Rightarrow> bytes \<Rightarrow> bytes \<Rightarrow> bytes list \<Rightarrow> json" where
  "inclusion_doc i idx n lh rt pf = JObj [(''index'', JInt idx), (''leaf_hash_hex'', JStr (hex_encode lh)), (''org'', JStr i),
     (''proof'', hashesHex pf), (''root_hex'', JStr (hex_encode rt)), (''size'', JInt n)]"

lemma handleCTProof_doc:
  assumes "tn_tl t = Some tln" "map_of (rq_query rq) ''index'' = Some (fmt_int (int i))" "map_of (rq_query rq) ''size'' = Some (fmt_int (int n))"
    and "int64 (int n)" "i < n" "InclusionProof (sha256 P) (orgMerkle P tln) (int i) (int n) = Inr (r, pf)"
  shows "handleCTProof P rq t s = (Some \<lparr>rs_status = 200, rs_body = RJson (inclusion_doc (tn_ID t) (int i) (int n)
     (leaves (orgMerkle P tln) ! i) (mth (sha256 P) (leaves (orgMerkle P tln)) 0 n) pf)\<rparr>, s)"
proof -
  have "int64 (int i)" using assms(4,5) by (simp add: int64_def)
  from ParseInt_fmt [OF this] ParseInt_fmt [OF assms(4)] show ?thesis
    using assms by (simp add: handleCTProof_def Let_def q_has_def q_get_def ct_inclusion_def ok_json_def ct_map_proof inclusion_doc_def)
qed

lemma sth_doc_decoded:
  assumes "int64 (Timestamp sth)" "int64 (TreeSize sth)"
  shows "decode_struct sv_fields sv_zero (sth_doc P i key sth) = Some \<lparr>sv_Org = i, sv_LogKeyHex = hex_encode (ed_public key), sv_TreeSize = TreeSize sth,
     sv_Timestamp = Timestamp sth, sv_RootHex = hex_encode (sth_Root sth), sv_SignatureHex = hex_encode (sth_Signature sth)\<rparr>"
  using assms by (simp add: sth_doc_def sv_fields_def sv_zero_def decode_eval)

lemma inclusion_doc_decoded:
  "decode_struct (ct_answer_fields ''leaf_hash_hex'' ''root_hex'') ([], [], []) (inclusion_doc i idx n lh rt pf)
    = Some (hex_encode lh, hex_encode rt, map hex_encode pf)"
proof -
  have "json_strings (hashesHex pf) = Some (map hex_encode pf)"
    using json_strings_enc [of "map hex_encode pf"] by (simp add: hashesHex_def comp_def)
  then show ?thesis by (simp add: inclusion_doc_def ct_answer_fields_def decode_eval)
qed

lemma ct_docs_plain: "ascii i \<Longrightarrow> plain (sth_doc P i key sth)" "ascii i \<Longrightarrow> plain (inclusion_doc i idx n lh rt pf)"
  by (auto simp: sth_doc_def inclusion_doc_def hashesHex_def ascii_hex) (auto simp: ascii_def)

text \<open>
  C38: what the client fetches from the gateway fits together: the tree head covers every event of the organisation,
  its signature verifies under the log key it comes with, and the inclusion proof for any event, fetched at that size, is for the
  leaf of that event and verifies to the very root that was signed.
\<close>

theorem sdk_inclusion:
  fixes P A rnd E err prom base token t t' s s' org
  assumes "json_ok P" "ed_ok P" "clean_segment org" "tn_tl t = Some tln" "tn_tl t' = Some tln" "ascii (tn_ID t)" "ascii (tn_ID t')"
    and "length (slice_bytes (st_LogKey s)) = 32" "int64 (en_now E)" "n = length (tl_events tln)" "int64 (int n)" "i < n"
  defines "H \<equiv> gateway_http P A rnd E err prom base" and "c \<equiv> NewClient base token"
    and "rq \<equiv> scoped_request token org (org_path org ''/ct/sth'') []"
    and "rq' \<equiv> scoped_request token org (org_path org ''/ct/proof'') [(''index'', fmt_int (int i)), (''size'', fmt_int (int n))]"
  assumes "enter P rnd E CTSTH rq s = (Pass u h (Some t), s1)" "enter P rnd E CTProof rq' s' = (Pass u' h' (Some t'), s1')"
    and "\<forall>r. fst (handleCTSTH P E t s1) = Some r \<longrightarrow> fits P r" "\<forall>r. fst (handleCTProof P rq' t' s1') = Some r \<longrightarrow> fits P r"
  shows "\<exists>sth rt sg k lh prf z z'. cl_CTSTH P H c org s = (Inr sth, z) \<and> sv_TreeSize sth = int n
    \<and> sv_RootHex sth = hex_encode rt \<and> sv_SignatureHex sth = hex_encode sg \<and> sv_LogKeyHex sth = hex_encode k
    \<and> sth_Verify P (Some \<lparr>TreeSize = int n, Timestamp = sv_Timestamp sth, sth_Root = rt, sth_Signature = sg\<rparr>) k
    \<and> cl_CTInclusionProof P H c org (int i) (int n) s' = (Inr (hex_encode lh, sv_RootHex sth, map hex_encode prf), z')
    \<and> lh = LeafHash (sha256 P) (ev_Hash P (tl_events tln ! i)) \<and> VerifyInclusion (sha256 P) lh (int i) (int n) prf = Some rt"
proof -
  let ?m = "orgMerkle P tln" and ?key = "ed_newkey P (slice_bytes (st_LogKey s))"
  let ?sth = "SignSTH P ?key (Root (sha256 P) ?m) (int n) (en_now E)"
  have len: "length (leaves ?m) = n" "log_size ?m = n" using assms(10) by (simp_all add: orgMerkle_leaves log_size_def)
  have root: "Root (sha256 P) ?m = mth (sha256 P) (leaves ?m) 0 n" using len by (simp add: Root_def)
  have lf: "leaves ?m ! i = LeafHash (sha256 P) (ev_Hash P (tl_events tln ! i))" using assms(10,12) by (simp add: orgMerkle_leaves)
  obtain r pf where pf: "InclusionProof (sha256 P) ?m (int i) (int n) = Inr (r, pf)"
    using assms(12) len by (simp add: InclusionProof_def)
  then have v: "VerifyInclusion (sha256 P) (leaves ?m ! i) (int i) (int n) pf = Some (mth (sha256 P) (leaves ?m) 0 n)"
    using inclusion_complete [of i n "sha256 P" "leaves ?m"] assms(12) len by (auto simp: InclusionProof_def split: if_splits)
  have ts: "Timestamp ?sth = en_now E" by (simp add: SignSTH_def Let_def)
  note held = enter_same [OF assms(17)] and held' = enter_same [OF assms(18)]
  have h1: "handleCTSTH P E t s1 = (Some \<lparr>rs_status = 200, rs_body = RJson (sth_doc P (tn_ID t) ?key ?sth)\<rparr>, s1)"
    using handleCTSTH_doc [OF assms(4), of s1 P E] assms(8) held(2) len(2) by simp
  have h2: "handleCTProof P rq' t' s1' = (Some \<lparr>rs_status = 200, rs_body = RJson (inclusion_doc (tn_ID t') (int i) (int n)
      (leaves ?m ! i) (mth (sha256 P) (leaves ?m) 0 n) pf)\<rparr>, s1')"
    by (rule handleCTProof_doc [OF assms(5) _ _ assms(11,12) pf]) (simp_all add: rq'_def scoped_request_def)
  have f1: "length (json_text P (sth_doc P (tn_ID t) ?key ?sth)) \<le> maxBody" using assms(19) h1 by (simp add: fits_def)
  have f2: "length (json_text P (inclusion_doc (tn_ID t') (int i) (int n) (leaves ?m ! i) (mth (sha256 P) (leaves ?m) 0 n) pf)) \<le> maxBody"
    using assms(20) h2 by (simp add: fits_def)
  have d1: "decode_struct sv_fields sv_zero (sth_doc P (tn_ID t) ?key ?sth) = Some \<lparr>sv_Org = tn_ID t, sv_LogKeyHex = hex_encode (ed_public ?key),
      sv_TreeSize = int n, sv_Timestamp = en_now E, sv_RootHex = hex_encode (Root (sha256 P) ?m), sv_SignatureHex = hex_encode (sth_Signature ?sth)\<rparr>"
    using sth_doc_decoded [of ?sth P "tn_ID t" ?key] assms(9,11) ts by simp
  obtain z where a: "cl_CTSTH P H c org s = (Inr \<lparr>sv_Org = tn_ID t, sv_LogKeyHex = hex_encode (ed_public ?key),
      sv_TreeSize = int n, sv_Timestamp = en_now E, sv_RootHex = hex_encode (Root (sha256 P) ?m), sv_SignatureHex = hex_encode (sth_Signature ?sth)\<rparr>, z)"
    using call_json_served [where A = A and err = err and prom = prom and base = base, OF ct_urls(1) [OF assms(3)] ct_routes(1,2) [OF assms(3)] assms(17) [unfolded rq_def] _ held(1) assms(1) ct_docs_plain(1) [OF assms(6)] f1 d1] h1
    by (auto simp: cl_CTSTH_def H_def c_def)
  obtain z' where b: "cl_CTInclusionProof P H c org (int i) (int n) s'
      = (Inr (hex_encode (leaves ?m ! i), hex_encode (mth (sha256 P) (leaves ?m) 0 n), map hex_encode pf), z')"
    using call_json_served [where A = A and err = err and prom = prom and base = base, OF ct_urls(2) [OF assms(3)] ct_routes(3,4) [OF assms(3)] assms(18) [unfolded rq'_def] _ held'(1) assms(1)
        ct_docs_plain(2) [OF assms(7)] f2 inclusion_doc_decoded] h2
    by (auto simp: cl_CTInclusionProof_def H_def c_def rq'_def)
  have "ed_keypair P ?key" by (rule ed_newkey_pair [OF assms(2,8)])
  from Verify_SignSTH [OF this, of "Root (sha256 P) ?m" "int n" "en_now E"]
  have s: "sth_Verify P (Some \<lparr>TreeSize = int n, Timestamp = en_now E, sth_Root = Root (sha256 P) ?m, sth_Signature = sth_Signature ?sth\<rparr>) (ed_public ?key)"
    by (simp add: SignSTH_def Let_def)
  show ?thesis using a b s v lf root by force
qed

text \<open>One organisation with one event, read by its operator.\<close>

definition demo_ct :: Store where
  "demo_ct = demo_gw\<lparr>st_Tenants := [(''a'', tn_zero\<lparr>tn_ID := ''a'', tn_tl := Some demo1\<rparr>)], st_LogKey := Some (replicate 32 4)\<rparr>"

lemma demo_ct_enter:
  assumes "scoped ep" "hasRole RoleOperator (roles_of ep)" "rq_auth rq = ''Bearer t1''" "rq_org rq = ''a''"
  shows "\<exists>s1. enter toy Fin demo_env ep rq demo_ct
    = (Pass (Some (demo_user ''op'' ''t1'')) (tokenHash toy ''t1'') (Some (tn_zero\<lparr>tn_ID := ''a'', tn_tl := Some demo1\<rparr>)), s1)"
proof -
  have "ep \<noteq> Health" using assms(1) by (auto simp: scoped_def)
  moreover have "st_Users demo_ct = st_Users demo_gw" "st_apiLimiter demo_ct = demo_limiter []" "\<not> st_held demo_ct"
    "map_of (st_Tenants demo_ct) ''a'' = Some (tn_zero\<lparr>tn_ID := ''a'', tn_tl := Some demo1\<rparr>)"
    using demo_gw_limiter by (simp_all add: demo_ct_def demo_gw_def st_zero_def)
  ultimately show ?thesis
    using assms demo_auth(1) demo_allow [of "tokenHash toy ''t1''" "[]"]
    by (simp add: enter_def demo_env_def demo_user_def check_scope_def inOrg_def tokenInOrg_def Let_def)
qed

lemma length_hex [simp]: "length (hex_encode b) = 2 * length b"
  by (induction b rule: hex_encode.induct) simp_all

lemma length_enc_str [simp]: "length (enc_str s) = 2 * length s + 1"
  by (simp add: enc_str_def enc_nat_def str_bytes_def)

theorem sdk_inclusion_witness:
  "\<exists>sth rt lh prf z z'. cl_CTSTH toy (gateway_http toy toy_aead Fin demo_env (\<lambda>e. []) (\<lambda>m. []) ''http://gw'') (NewClient ''http://gw'' ''t1'') ''a'' demo_ct = (Inr sth, z)
     \<and> cl_CTInclusionProof toy (gateway_http toy toy_aead Fin demo_env (\<lambda>e. []) (\<lambda>m. []) ''http://gw'') (NewClient ''http://gw'' ''t1'') ''a'' 0 1 demo_ct
         = (Inr (hex_encode lh, sv_RootHex sth, map hex_encode prf), z')
     \<and> VerifyInclusion (sha256 toy) lh 0 1 prf = Some rt \<and> sv_RootHex sth = hex_encode rt"
proof -
  let ?t = "tn_zero\<lparr>tn_ID := ''a'', tn_tl := Some demo1\<rparr>"
  let ?rq = "scoped_request ''t1'' ''a'' (org_path ''a'' ''/ct/sth'') []"
  let ?rq' = "scoped_request ''t1'' ''a'' (org_path ''a'' ''/ct/proof'') [(''index'', fmt_int (int 0)), (''size'', fmt_int (int 1))]"
  obtain e where e: "tl_events demo1 = [e]" using demo1_events by blast
  have sc: "scoped CTSTH" "scoped CTProof" "hasRole RoleOperator (roles_of CTSTH)" "hasRole RoleOperator (roles_of CTProof)"
    by (simp_all add: scoped_def roles_of_def hasRole_def)
  obtain s1 where s1: "enter toy Fin demo_env CTSTH ?rq demo_ct = (Pass (Some (demo_user ''op'' ''t1'')) (tokenHash toy ''t1'') (Some ?t), s1)"
    using demo_ct_enter [OF sc(1,3), of ?rq] by (auto simp: scoped_request_def)
  obtain s2 where s2: "enter toy Fin demo_env CTProof ?rq' demo_ct = (Pass (Some (demo_user ''op'' ''t1'')) (tokenHash toy ''t1'') (Some ?t), s2)"
    using demo_ct_enter [OF sc(2,4), of ?rq'] by (auto simp: scoped_request_def)
  have k: "length (slice_bytes (st_LogKey demo_ct)) = 32" "length (slice_bytes (st_LogKey s1)) = 32"
    using enter_same(2) [OF s1] by (simp_all add: demo_ct_def slice_bytes_def)
  have t: "tn_tl ?t = Some demo1" "ascii (tn_ID ?t)" by (simp_all add: ascii_def)
  have kp: "ed_keypair toy (ed_newkey toy (slice_bytes (st_LogKey s1)))" by (rule ed_newkey_pair [OF toy_ok(2) k(2)])
  have m: "leaves (orgMerkle toy demo1) = [LeafHash (sha256 toy) (ev_Hash toy e)]" by (simp add: orgMerkle_leaves e)
  have r32: "length (Root (sha256 toy) (orgMerkle toy demo1)) = 32" "length (leaves (orgMerkle toy demo1) ! 0) = 32"
    by (simp_all add: Root_def m LeafHash_def sha256_length [OF toy_ok(1)] log_size_def)
  have f1: "\<forall>r. fst (handleCTSTH toy demo_env ?t s1) = Some r \<longrightarrow> fits toy r"
    using handleCTSTH_doc [OF t(1) k(2), of toy demo_env] r32 ed_sign_length [OF kp] m
    by (auto simp: fits_def sth_doc_def toy_sel enc_nat_def SignSTH_def Let_def demo_env_def maxBody_def log_size_def)
  have p: "InclusionProof (sha256 toy) (orgMerkle toy demo1) (int 0) (int 1) = Inr (Root (sha256 toy) (orgMerkle toy demo1), [])"
    by (simp add: InclusionProof_def m Root_def path.simps)
  have mt: "mth (sha256 toy) (leaves (orgMerkle toy demo1)) 0 1 = Root (sha256 toy) (orgMerkle toy demo1)" by (simp add: Root_def m)
  have f2: "\<forall>r. fst (handleCTProof toy ?rq' ?t s2) = Some r \<longrightarrow> fits toy r"
    using handleCTProof_doc [OF t(1) _ _ _ _ p, of ?rq' s2] r32 mt
    by (auto simp: fits_def inclusion_doc_def hashesHex_def toy_sel enc_nat_def maxBody_def scoped_request_def int64_def)
  have c: "clean_segment ''a''" "int64 (en_now demo_env)" "1 = length (tl_events demo1)" "int64 (int 1)"
    by (simp_all add: clean_segment_def clean_arg_def demo_env_def int64_def e)
  let ?H = "gateway_http toy toy_aead Fin demo_env (\<lambda>e. []) (\<lambda>m. []) ''http://gw''" and ?c = "NewClient ''http://gw'' ''t1''"
  obtain sth rt lh ps z z' where "cl_CTSTH toy ?H ?c ''a'' demo_ct = (Inr sth, z)" "sv_RootHex sth = hex_encode rt"
    "cl_CTInclusionProof toy ?H ?c ''a'' (int 0) (int 1) demo_ct = (Inr (hex_encode lh, sv_RootHex sth, map hex_encode ps), z')"
    "VerifyInclusion (sha256 toy) lh (int 0) (int 1) ps = Some rt"
    using sdk_inclusion [where A = toy_aead and err = "\<lambda>e. []" and prom = "\<lambda>m. []" and base = "''http://gw''" and i = 0,
      OF toy_ok(3,2) c(1) t(1) t(1) t(2) t(2) k(1) c(2-4) zero_less_one s1 s2 f1 f2] by blast
  note this [simplified semiring_1_class.of_nat_simps(1) of_nat_1]
  then show ?thesis by blast
qed

end
