(* ===== verification/CouncilCli.thy ===== *)
theory CouncilCli
  imports ShareFiles Identity CouncilNet
begin

text \<open>
  \<open>cmd/council\<close>: the key ceremony on files, the recovery from share files and a file of evidence, and the set-up of a
  networked member and of a ceremony node.  The listener and the loops it feeds are arguments of main.
\<close>

text \<open>
  \<open>cv_rss\<close>, \<open>cv_seed\<close> and \<open>cv_nonces\<close> are the random values drawn, \<open>cv_ca\<close> is \<open>NewIdentityCA\<close>, \<open>cv_mkdir\<close> and \<open>cv_can_write\<close>
  say which directories and files can be made, \<open>cv_listen\<close> which addresses can be bound, \<open>cv_indent\<close> is the indented text of a document.
\<close>

record council_env =
  cv_rss :: "int \<Rightarrow> bytes option list"
  cv_rs :: "bytes option list"
  cv_seed :: "bytes option"
  cv_nonces :: "(bytes option \<times> bytes option) list"
  cv_ca :: "bytes \<Rightarrow> string \<Rightarrow> bytes option"
  cv_mkdir :: "string \<Rightarrow> bool"
  cv_can_write :: "string \<Rightarrow> bool"
  cv_listen :: "string \<Rightarrow> bool"
  cv_indent :: "json \<Rightarrow> bytes"

section \<open>The ceremony in one process\<close>

fun must_digits :: "string \<Rightarrow> int \<Rightarrow> int" where
  "must_digits [] n = n"
| "must_digits (c # cs) n = (case digit_val c of None \<Rightarrow> 0 | Some d \<Rightarrow> must_digits cs (wrap64 (n * 10 + d)))"

definition mustInt :: "string \<Rightarrow> int" where
  "mustInt s = must_digits s 0"

definition ceremony_file :: "'g FrostSigner \<Rightarrow> FrostShareFile" where
  "ceremony_file s = \<lparr>sf_ID = fs_ID s, sf_X = fs_X s, sf_Y = Some (fs_Share s), sf_GroupPub = fs_GroupPub s,
     sf_PubShare = fs_PubShare s, sf_VK = [], sf_GlobalVK = fs_GlobalVK s\<rparr>"

definition share_path :: "string \<Rightarrow> string \<Rightarrow> string" where
  "share_path dir i = dir @ ''/share-'' @ i @ ''.json''"

definition dkgCmd :: "prims \<Rightarrow> 'g curve \<Rightarrow> council_env \<Rightarrow> string list \<Rightarrow> command" where
  "dkgCmd P C E args w =
     (let f = flags args; dir = flag f ''out'' in
      if flag f ''members'' = [] \<or> flag f ''threshold'' = [] \<or> dir = []
      then (Fails (Msg ''usage: dkg --members <n> --threshold <k> --out <dir>''), w)
      else let n = mustInt (flag f ''members''); k = mustInt (flag f ''threshold'') in
        if k < 2 \<or> n < k then (Fails (Msg ''need 2 <= threshold <= members''), w)
        else (case DkgCeremony C (cv_rss E) n k of
            Inl e \<Rightarrow> (if e = Panicked then Panics else Fails (Library ''ceremony''), w)
          | Inr (signers, groupPub) \<Rightarrow>
             if \<not> cv_mkdir E dir then (Fails (WriteFails dir), w)
             else (case write_all (cv_can_write E) (map (\<lambda>s. (share_path dir (fs_ID s), sf_Marshal P (ceremony_file s))) signers) w of
                 (Some e, w') \<Rightarrow> (Fails e, w')
               | (None, w') \<Rightarrow> (Done, print_all
                   [''wrote '' @ fmt_int n @ '' FROST shares to '' @ dir @ '' (threshold '' @ fmt_int k @ '' of '' @ fmt_int n @ '')'',
                    ''GROUP KEY (gateway --council-pub): '' @ hex_encode groupPub,
                    ''distribute one share file per council member machine; the root never existed''] w'))))"

section \<open>Recovery from files\<close>

record evidenceFile =
  ef_BadIndex :: int
  ef_Timeline :: "json option"

definition ef_fields :: "evidenceFile field list" where
  "ef_fields = [int_field ''bad_index'' (\<lambda>x r. r\<lparr>ef_BadIndex := x\<rparr>), (''timeline'', \<lambda>j r. Some (r\<lparr>ef_Timeline := Some j\<rparr>))]"

text \<open>The raw member is empty when the file has none.\<close>

definition ef_timeline :: "prims \<Rightarrow> evidenceFile \<Rightarrow> tl_error + Timeline" where
  "ef_timeline P ev = (case ef_Timeline ev of None \<Rightarrow> Inl BadJson | Some j \<Rightarrow> UnmarshalTimeline P (json_text P j))"

definition cli_evidence :: "prims \<Rightarrow> int \<Rightarrow> TrustEvent" where
  "cli_evidence P bad = ev_zero\<lparr>ev_Type := EvDetected, ev_Payload := Some (json_text P (JObj [(''bad_index'', JInt bad)]))\<rparr>"

text \<open>The map of checks has two entries, printed here in the order of their names.\<close>

definition verdict_line :: "string \<Rightarrow> bool \<Rightarrow> string" where
  "verdict_line name ok = ''VERIFY '' @ name @ '': '' @ (if ok then ''PASS'' else ''FAIL'')"

definition report_lines :: "prims \<Rightarrow> nat \<Rightarrow> RecoveryReport \<Rightarrow> string list" where
  "report_lines P members rep =
     [''RECOVER: '' @ fmt_int (int members) @ ''/5 members signed the handoff'',
      ''RE-ISSUE: '' @ fmt_int (int (length (rr_Issued rep))) @ '' certs re-issued'']
     @ map (\<lambda>i. ''  issued '' @ i) (rr_Issued rep)
     @ [''COMMIT epoch '' @ fmt_int (fc_Epoch (rr_Commit rep)) @ '' -> canonical, head='' @ hex_encode (slice_bytes (Head P (rr_Timeline rep))),
        verdict_line ''P3'' (P3 (rr_Verify rep)), verdict_line ''P5'' (P5 (rr_Verify rep))]"

definition write_fork :: "prims \<Rightarrow> council_env \<Rightarrow> string \<Rightarrow> RecoveryReport \<Rightarrow> command" where
  "write_fork P E dir rep w =
     (if \<not> cv_mkdir E dir then (Fails (WriteFails dir), w)
      else (case write_all (cv_can_write E) [(dir @ ''/fork.json'', tl_Marshal P (rr_Timeline rep) False),
                 (dir @ ''/commit.json'', cv_indent E (fc_json P (rr_Commit rep)))] w of
          (Some e, w') \<Rightarrow> (Fails e, w')
        | (None, w') \<Rightarrow> (Done, println (''fork + handoff written to '' @ dir @
            ''/{fork.json,commit.json} (POST to the gateway recover endpoint)'') w')))"

definition recover :: "prims \<Rightarrow> 'g curve \<Rightarrow> council_env \<Rightarrow> string \<Rightarrow> string list \<Rightarrow> string \<Rightarrow> command" where
  "recover P C E evidencePath sharePaths outDir w = (case ReadFile evidencePath w of
     Inl e \<Rightarrow> (Fails e, w)
   | Inr raw \<Rightarrow> (case unmarshal P ef_fields \<lparr>ef_BadIndex = 0, ef_Timeline = None\<rparr> raw of
       None \<Rightarrow> (Fails (Wrapped ''evidence'' NotJson), w)
     | Some ev \<Rightarrow> (case ef_timeline P ev of
         Inl _ \<Rightarrow> (Fails (Wrapped ''evidence timeline'' (Library ''timeline'')), w)
       | Inr tml \<Rightarrow> (case load_all (\<lambda>p. loadShare P C p w) sharePaths of
           Inl e \<Rightarrow> (Fails e, w)
         | Inr signers \<Rightarrow>
            let members = map (\<lambda>s. \<lparr>cm_ID = fs_ID s, cm_Key = [], cm_Share = Some s\<rparr>) signers in
            (case fst (Recover P C (cv_ca E) (cv_seed E) (cv_nonces E) (NewCouncil members) tml
                   (Some (cli_evidence P (ef_BadIndex ev))) 3) of
               Inl e \<Rightarrow> (if e = RecoverPanic then Panics else Fails (Library ''recover''), w)
             | Inr rep \<Rightarrow>
                let w1 = print_all (report_lines P (length members) rep) w in
                if \<not> Pass (Some (rr_Verify rep)) then (Fails (Msg ''recovery verification failed''), w1)
                else if outDir = [] then (Done, w1)
                else write_fork P E outDir rep w1)))))"

text \<open>The option \<open>--shares\<close> takes every argument up to the next one that starts with two dashes.\<close>

definition dashed :: "string \<Rightarrow> bool" where
  "dashed a \<longleftrightarrow> take 2 a = ''--''"

function recover_args :: "bool \<Rightarrow> string list \<Rightarrow> string \<times> string list \<times> string \<Rightarrow> string \<times> string list \<times> string" where
  "recover_args taking [] r = r"
| "recover_args True (a # as) (ev, ps, dir) =
     (if dashed a then recover_args False (a # as) (ev, ps, dir) else recover_args True as (ev, ps @ [a], dir))"
| "recover_args False [a] r = r"
| "recover_args False (a # b # as) (ev, ps, dir) =
     (if a = ''--evidence'' then recover_args False as (b, ps, dir)
      else if a = ''--shares'' then recover_args True (b # as) (ev, ps, dir)
      else if a = ''--out'' then recover_args False as (ev, ps, b)
      else recover_args False (b # as) (ev, ps, dir))"
  by pat_completeness auto
termination
  by (relation "measure (\<lambda>(taking, as, r). 2 * length as + (if taking then 1 else 0))") auto

definition recoverCmd :: "prims \<Rightarrow> 'g curve \<Rightarrow> council_env \<Rightarrow> string list \<Rightarrow> command" where
  "recoverCmd P C E args w = (case recover_args False args ([], [], []) of (ev, ps, dir) \<Rightarrow>
     (if ev = [] \<or> length ps < 3
      then (Fails (Msg ''usage: recover --evidence <file> --shares <s1.json> <s2.json> <s3.json> [--out <dir>]''), w)
      else recover P C E ev ps dir w))"

section \<open>Networked members\<close>

definition memberTLS :: "prims \<Rightarrow> x509 \<Rightarrow> (string \<times> string) list \<Rightarrow> world \<Rightarrow> (cli_error + bytes \<times> tls_config) option" where
  "memberTLS P X f w = (case ReadFile (flag f ''key'') w of Inl e \<Rightarrow> Some (Inl e)
     | Inr raw \<Rightarrow> (case hex_decode (TrimSpace (bytes_str raw)) of None \<Rightarrow> Some (Inl BadHex)
     | Some seed \<Rightarrow> (case keyFromFile P seed of None \<Rightarrow> None
     | Some key \<Rightarrow> Some (case ReadFile (flag f ''ca'') w of Inl e \<Rightarrow> Inl e
       | Inr caDER \<Rightarrow> (case ReadFile (flag f ''cert'') w of Inl e \<Rightarrow> Inl e
       | Inr leaf \<Rightarrow> (case MutualTLSConfig X caDER leaf key of Inl e \<Rightarrow> Inl (lib_err e) | Inr cfg \<Rightarrow> Inr (key, cfg)))))))"

definition missing_flag :: "string list \<Rightarrow> (string \<times> string) list \<Rightarrow> bool" where
  "missing_flag names f \<longleftrightarrow> (\<exists>k \<in> set names. flag f k = [])"

text \<open>\<open>serve\<close> is the accept loop over the dispatch of the member.\<close>

definition serveCmd :: "prims \<Rightarrow> 'g curve \<Rightarrow> x509 \<Rightarrow> council_env \<Rightarrow> (string \<Rightarrow> tls_config \<Rightarrow> 'g MemberServer \<Rightarrow> command) \<Rightarrow> string list \<Rightarrow> command" where
  "serveCmd P C X E serve args w =
     (let f = flags args in
      if missing_flag [''id'', ''addr'', ''share'', ''ca'', ''cert'', ''key''] f
      then (Fails (Msg ''usage: serve --id <C1> --addr <host:port> --share <s.json> --epoch <f> --ca <ca.der> --cert <leaf.der> --key <node.key>''), w)
      else (case loadShare P C (flag f ''share'') w of Inl e \<Rightarrow> (Fails e, w)
        | Inr signer \<Rightarrow> (case memberTLS P X f w of None \<Rightarrow> (Panics, w)
          | Some (Inl e) \<Rightarrow> (Fails e, w)
          | Some (Inr (key, cfg)) \<Rightarrow>
             if \<not> cv_listen E (flag f ''addr'') then (Fails (Library ''listen''), w)
             else serve (flag f ''addr'') cfg (NewCouncilMemberServer P (flag f ''id'') (Some signer) (flag f ''epoch'')
                (if flag f ''epoch'' = [] then None else map_of (w_files w) (flag f ''epoch'')))
                (println (''council member '' @ flag f ''id'' @ '' listening on '' @ flag f ''addr'' @ '' (share '' @ flag f ''share'' @ '', mTLS)'') w))))"

fun peer_map :: "string list \<Rightarrow> (string \<times> string) list \<Rightarrow> cli_error + (string \<times> string) list" where
  "peer_map [] m = Inr m"
| "peer_map (p # ps) m = (case cut CHR '':'' p of None \<Rightarrow> Inl (Msg (''bad --peers entry: '' @ p))
    | Some (k, v) \<Rightarrow> peer_map ps (AList.update k v m))"

text \<open>\<open>run\<close> is the ceremony of one node (\<open>RunOn\<close>): the group key and the node with its signer, or an error.\<close>

definition dkgNetCmd ::
  "prims \<Rightarrow> 'g curve \<Rightarrow> x509 \<Rightarrow> council_env \<Rightarrow> (string \<Rightarrow> tls_config \<Rightarrow> 'g DkgNode \<Rightarrow> cli_error + bytes \<times> 'g FrostSigner) \<Rightarrow> string list \<Rightarrow> command" where
  "dkgNetCmd P C X E run args w =
     (let f = flags args; me = flag f ''me'' in
      if missing_flag [''me'', ''members'', ''threshold'', ''out'', ''ca'', ''cert'', ''key'', ''peers''] f
      then (Fails (Msg ''usage: dkg-net --me <M1> --members <n> --threshold <k> --out <dir> --ca <ca.der> --cert <leaf.der> --key <node.key> --peers M1:host:p1,M2:host:p2,...''), w)
      else (case ParseInt (flag f ''members'') of None \<Rightarrow> (Fails BadNumber, w)
        | Some n \<Rightarrow> (case ParseInt (flag f ''threshold'') of None \<Rightarrow> (Fails BadNumber, w)
        | Some t \<Rightarrow> (case peer_map (split_on CHR '','' (flag f ''peers'')) [] of Inl e \<Rightarrow> (Fails e, w)
        | Inr peers \<Rightarrow>
          if int (length peers) \<noteq> n
          then (Fails (Msg (''--members '' @ fmt_int n @ '' != '' @ fmt_int (int (length peers)) @ '' peers'')), w)
          else (case memberTLS P X f w of None \<Rightarrow> (Panics, w)
            | Some (Inl e) \<Rightarrow> (Fails e, w)
            | Some (Inr (key, cfg)) \<Rightarrow> (case NewDkgNode P C (cv_rs E) me n t peers of
                Inl _ \<Rightarrow> (Fails (Library ''dkg''), w)
              | Inr node \<Rightarrow>
                 if \<not> cv_listen E (flag f ''addr'') then (Fails (Library ''listen''), w)
                 else let w1 = println (''dkg member '' @ me @ '' on '' @ flag f ''addr'' @ '': pairwise ceremony with '' @ fmt_int n @ '' members...'') w in
                 (case run (flag f ''addr'') cfg node of Inl e \<Rightarrow> (Fails e, w1)
                  | Inr (grp, s) \<Rightarrow>
                     let file = (ceremony_file s)\<lparr>sf_ID := me, sf_GroupPub := grp\<rparr>;
                         p = filepath_join (flag f ''out'') (me @ ''.json'') in
                     (case WriteFile (cv_can_write E) p (cv_indent E (sf_json P file)) w1 of
                        (Some e, w2) \<Rightarrow> (Fails e, w2)
                      | (None, w2) \<Rightarrow> (Done, print_all [''share file written to '' @ p,
                          ''GROUP KEY (verify identical on all '' @ fmt_int n @ '' members):'', hex_encode grp] w2)))))))))"

section \<open>Main\<close>

definition council_main ::
  "prims \<Rightarrow> 'g curve \<Rightarrow> x509 \<Rightarrow> council_env \<Rightarrow> (string \<Rightarrow> tls_config \<Rightarrow> 'g MemberServer \<Rightarrow> command) \<Rightarrow>
     (string \<Rightarrow> tls_config \<Rightarrow> 'g DkgNode \<Rightarrow> cli_error + bytes \<times> 'g FrostSigner) \<Rightarrow> string list \<Rightarrow> command" where
  "council_main P C X E serve run args w = (case args of
     [] \<Rightarrow> (Fails (Msg ''usage''), w)
   | cmd # rest \<Rightarrow>
      if cmd = ''dkg'' then dkgCmd P C E rest w
      else if cmd = ''dkg-net'' then dkgNetCmd P C X E run rest w
      else if cmd = ''recover'' then recoverCmd P C E rest w
      else if cmd = ''serve'' then serveCmd P C X E serve rest w
      else (Fails (Msg ''usage''), w))"

end
