(* ===== verification/Spec2Isabelle.thy ===== *)
theory Spec2Isabelle
  imports Gossip ChainProps TrustStateProps ShareFileProps CouncilProps EnsembleProps FleetProps VaultProps GatewayProps RecoverProps CouncilFaults DnsProps IdentityProps OrchProps WireProps BenchProps KekBoot ClientProps CouncilCli
begin

text \<open>
  \<^bold>\<open>The program.\<close>

  TrustOrchestrator keeps the trust of an organisation (who was issued which certificate) in a signed, hash-linked
  timeline, watches it with an ensemble of detectors, and rolls it back under the signature of a council when it was
  compromised.  The package at the root of \<open>src/\<close> holds the engine; the programs under \<open>src/cmd/\<close> drive it.

  The parts and how they call each other.  A timeline (\<open>timeline.go\<close>, \<open>hash.go\<close>) is a list of events; folding it gives the
  trust state, its ISSUE payloads give the security graph, and rollback cuts it at a bad index (\<open>graph.go\<close>, \<open>rollback.go\<close>,
  \<open>consumer.go\<close>).  Watchdogs read the timeline and the mirror of the auditors and give scores; three low scores of five are a
  detection (\<open>detect.go\<close>, \<open>watchdogs.go\<close>, \<open>ensemble.go\<close>, \<open>audit.go\<close>), and the fleet server collects the scores of remote
  watchdogs (\<open>fleet.go\<close>, \<open>transport.go\<close>, \<open>ratelimit.go\<close>).  A detection is the evidence of a recovery: the council
  (\<open>council.go\<close>, in process; \<open>councilnet.go\<close> over the network, inside the channel of \<open>pq.go\<close>) rolls the timeline back, has
  the new root signed by a threshold of FROST shares (\<open>frost.go\<close>, \<open>dkg.go\<close>, \<open>reshare.go\<close>, \<open>blindfrost.go\<close>), re-issues what was
  affected and appends the handoff.  The gateway (\<open>api.go\<close>, \<open>store.go\<close>, \<open>auth.go\<close>, \<open>webhooks.go\<close>) holds the timelines of
  many organisations behind tokens and roles, seals their files (\<open>vault.go\<close>, \<open>shamir.go\<close>), logs tree heads for their events
  (\<open>ctlog.go\<close>) and adopts a fork only with a handoff of the council.  The programs read and write files around this.

  \<^bold>\<open>Theories and the code they model.\<close>

  Definitions carry the names of the code; a suffix or prefix is added where HOL has the name already.

  \<^item> \<open>TO_Prelude\<close>: bytes, nil-able slices, the wrap-around of 64-bit integers, the locale \<open>machine\<close> (a step function
    and an invariant it keeps), the theorem collections.  \<open>Json\<close>: documents and \<open>json.Unmarshal\<close> into a struct, field by
    field.  \<open>Prims\<close>: the standard-library primitives as a record of functions.  \<open>Float64\<close>: the operations on \<open>float64\<close>.
  \<^item> \<open>CTLog\<close>, \<open>CTLogProofs\<close>, \<open>Gossip\<close>: \<open>ctlog.go\<close>.
  \<^item> \<open>Chain\<close>, \<open>ChainProps\<close>: \<open>timeline.go\<close>, \<open>hash.go\<close>.  \<open>TrustState\<close>, \<open>TrustStateProps\<close>: folding, \<open>graph.go\<close>,
    \<open>rollback.go\<close>, \<open>consumer.go\<close>.
  \<^item> \<open>FieldShares\<close>: interpolation at zero, a locale with two interpretations (Shamir's field and the scalars of
    Ed25519).  \<open>Shamir\<close>: \<open>shamir.go\<close>.  \<open>Frost\<close>, \<open>FrostLaws\<close>, \<open>FrostProps\<close>, \<open>FrostThreshold\<close>: \<open>frost.go\<close>.  \<open>FrostExt\<close>,
    \<open>FrostExtProps\<close>, \<open>ReshareProps\<close>, \<open>DkgProps\<close>, \<open>DkgNodeProps\<close>: \<open>dkg.go\<close>, \<open>reshare.go\<close>, \<open>blindfrost.go\<close>.  \<open>ShareFileProps\<close>: share files.
  \<^item> \<open>Council\<close>, \<open>CouncilProps\<close>: \<open>council.go\<close>.  \<open>Pq\<close>: \<open>pq.go\<close>.  \<open>CouncilWire\<close>, \<open>CouncilNet\<close>, \<open>CouncilNetProps\<close>, \<open>RemoteProps\<close>,
    \<open>CouncilFaults\<close>: \<open>councilnet.go\<close>.
  \<^item> \<open>Ensemble\<close>, \<open>EnsembleProps\<close>: \<open>ensemble.go\<close>, \<open>detect.go\<close>, \<open>watchdogs.go\<close>, \<open>audit.go\<close>.  \<open>Fleet\<close>, \<open>FleetProps\<close>:
    \<open>fleet.go\<close>, \<open>ratelimit.go\<close>; \<open>Wire\<close>: the frames of \<open>transport.go\<close> and the peer that sends them.
  \<^item> \<open>Vault\<close>, \<open>VaultProps\<close>: \<open>vault.go\<close>.  \<open>Access\<close>: \<open>auth.go\<close>.  \<open>Store\<close>: \<open>store.go\<close>.  \<open>Webhooks\<close>: \<open>webhooks.go\<close>.  \<open>Api\<close>, \<open>ApiTrust\<close>: the
    handlers of \<open>api.go\<close>.  \<open>Gateway\<close>: its routes and middleware.  \<open>GatewayFrame\<close>, \<open>GatewayProps\<close>, \<open>RecoverProps\<close>: what a
    request may change and what a recovery over the API adopts.
  \<^item> \<open>Compliance\<close>, \<open>ComplianceProps\<close>: \<open>compliance.go\<close>.  \<open>Cli\<close>: flags, files and exits of the programs.  \<open>DnsProbe\<close>, \<open>DnsProps\<close>:
    \<open>cmd/dnsprobe\<close>.  \<open>Identity\<close>, \<open>IdentityProps\<close>: \<open>identity.go\<close>, \<open>mtls.go\<close>, \<open>cmd/identity\<close>.  \<open>OrchCli\<close>, \<open>OrchProps\<close>:
    \<open>cmd/orchestrator\<close>, \<open>cmd/pdp\<close>, \<open>cmd/auditor\<close>.
  \<^item> \<open>ShareFiles\<close>: the files of FROST shares and key shares, and the paths and writes of the programs.
  \<^item> \<open>CouncilCli\<close>: the commands of \<open>cmd/council\<close>.
  \<^item> \<open>Bench\<close>, \<open>BenchProps\<close>: \<open>bench.go\<close>; the calibration's selection and what its detections rest on.
  \<^item> \<open>ToolCli\<close>: the commands of \<open>cmd/to\<close>.
  \<^item> \<open>GatewayCli\<close>, \<open>KekBoot\<close>: \<open>cmd/gateway\<close>; the vault key from \<open>vaultkek\<close> to the gateway's first boot, and the leader lock.
  \<^item> \<open>Client\<close>, \<open>ClientProps\<close>: \<open>client.go\<close>, and the client against the gateway.

  \<^bold>\<open>State, errors, effects.\<close>

  A struct is a record and a method a function that returns the record updated; a Go map is an association list, a nil slice
  the value None.  An error is the left of a sum, a panic the value None (or a constructor of its own where a handler or a
  program recovers from it or dies of it).  A mutex is not modelled except where a panic leaves it locked, which blocks every later
  request (\<open>st_held\<close>).  Loops are recursion on lists; those over untrusted bytes that might not end are partial functions, and their
  termination is a theorem.  Randomness, the clock, the success of a write and the network are arguments (\<open>env\<close> and its
  variants), so that a theorem holds for every outcome of them.  Integers of Go's \<open>int\<close> and \<open>int64\<close> wrap at 64 bits where the code
  can reach the bound; the arithmetic of \<open>math/big\<close> is on integers.

  Fuel is used nowhere: the recursive definitions are total by a measure, and the two walks of the DNS parser are
  \<open>partial_function\<close>.

  \<^bold>\<open>Parameters and hypotheses.\<close>

  Code outside \<open>src/\<close> is an argument of the definitions that use it, and a theorem names what it needs of it.
  \<^item> \<open>prims\<close>: SHA-2, SHA-3, Ed25519, base64, JSON text.  \<open>sha_ok\<close>: digest lengths.  \<open>ed_ok\<close>: a signature by a key pair verifies.
    \<open>json_ok\<close>: the text of a plain document parses to it, base64 round trips.  Collision freedom is never assumed: a theorem that
    needs it concludes with a collision as an alternative.
  \<^item> \<open>curve\<close>: the group operations \<open>frost.go\<close> writes itself (\<open>Frost.ed25519\<close> is the code's instance).  \<open>curve_ok\<close>: the group laws and
    the encoding, for a group of order l; \<open>ed_verify_eq\<close>: Ed25519 accepts exactly the signatures that satisfy its equation.
    That edwards25519 with the code's formulas is such a group is number theory outside this development; the witnesses
    use the additive group of integers modulo l.
  \<^item> \<open>aead\<close>, \<open>kem\<close>, \<open>x509\<close>: authenticated encryption, key encapsulation, certificates, with the round-trip laws of
    their documentation.
  \<^item> \<open>rounding\<close>: IEEE 754 rounding, monotone and exact on small integers (\<open>round_ok\<close>).

  \<^bold>\<open>What is proved.\<close>

  \<^item> Signing: any threshold of shares, dealt, generated in a ceremony, generated by the distributed nodes or rotated,
    signs what Ed25519 accepts, also blindly; what fewer return is accepted only if their interpolated value happens to agree with the key.
  \<^item> Timeline: appends keep a chain valid, tampering is located or is a digest collision, marshalling round trips; the fold,
    the graph and the blast radius equal their reference definitions.
  \<^item> Recovery: in process and over the network it returns a valid fork with the old prefix, the new root and the
    re-issued identities; the trust state after it; members sign only what they checked, once; the gateway adopts a fork only
    above its current epoch and by a signed handoff; and the faults of each of these.
  \<^item> Detection: the tolerance of the fusion rule, the suffix form of CUSUM, what the log watchdog catches; what the
    connections of a peer deliver.
  \<^item> Transparency log: completeness and soundness of inclusion and consistency proofs.
  \<^item> Gateway: who reaches a handler, isolation of organisations, the audit ring, the vault, the deadlock after a panic.
  \<^item> Client and binary: what the client fetches of the transparency log verifies; what share files do at the first boot.
  \<^item> Programs: revocation end to end, the report, the decision point, the DNS probe (termination, round trip).

  \<^bold>\<open>Not modelled.\<close>

  Sockets, TLS handshakes and the accept loops (one exchange is one call); addresses with escapes (\<open>ClientProps\<close> matches the patterns of
  \<open>http.ServeMux\<close> for addresses without); the text of the metrics page; the scheduling of goroutines (the operations that take the mutex are steps, in any order); wall-clock measurements.
\<close>

end
